(* ===== verification/Go_Prelude.thy ===== *)
theory Go_Prelude
  imports Complex_Main "HOL-Library.Word" "HOL-Library.Signed_Division" "HOL-Library.AList"
    "HOL-Library.Char_ord" "HOL-Library.List_Lexorder" "HOL-Library.Sublist"
begin

text \<open>
  The part of the Go language and its standard library that the router's code relies on,
  and the generic lemmas the component theories share.

  \<^item> Instants (\<^verbatim>\<open>time.Time\<close>) and durations (\<^verbatim>\<open>time.Duration\<close>) are integers counting
    nanoseconds; an instant counts from Go's zero time, so \<^verbatim>\<open>t.IsZero()\<close> is \<open>t = 0\<close>.
  \<^item> \<^verbatim>\<open>int\<close> and \<^verbatim>\<open>int64\<close> are 64-bit two's complement. They are modelled by \<open>int\<close>; where a
    result could leave the range, the code's arithmetic is wrapped with \<open>wrap64\<close>.
    Go's \<^verbatim>\<open>/\<close> and \<^verbatim>\<open>%\<close> truncate towards zero: \<open>sdiv\<close> and \<open>smod\<close>.
  \<^item> \<^verbatim>\<open>uint64\<close> counters are \<open>64 word\<close>.
  \<^item> A Go map is an association list with distinct keys; the list order stands for the
    iteration order the runtime happened to choose.
  \<^item> A Go string is a byte sequence, a \<open>string\<close>. Case mapping and white space follow the
    ASCII range.
\<close>

section \<open>Types\<close>

type_synonym instant = int
type_synonym duration = int
type_synonym u64 = "64 word"
type_synonym ('k, 'v) gomap = "('k \<times> 'v) list"

named_theorems go_simps \<open>characteristic equations of the modelled library functions\<close>

definition millisecond :: duration where "millisecond = 1000000"
definition second :: duration where "second = 1000 * millisecond"
definition minute :: duration where "minute = 60 * second"

text \<open>\<^verbatim>\<open>Duration.Milliseconds()\<close>: integer division of the nanoseconds, truncating.\<close>

definition duration_ms :: "duration \<Rightarrow> int" where
  "duration_ms d = d sdiv millisecond"

lemma duration_pos [simp]: "0 < millisecond" "0 < second" "0 < minute"
  by (simp_all add: millisecond_def second_def minute_def)

lemma duration_ms_nonneg: "0 \<le> d \<Longrightarrow> 0 \<le> duration_ms d"
  by (simp add: duration_ms_def millisecond_def signed_divide_int_def sgn_if)

section \<open>64-bit integers\<close>

definition max_int :: int where "max_int = 2 ^ 63 - 1"
definition min_int :: int where "min_int = - (2 ^ 63)"

definition in_int64 :: "int \<Rightarrow> bool" where
  "in_int64 x \<longleftrightarrow> min_int \<le> x \<and> x \<le> max_int"

definition wrap64 :: "int \<Rightarrow> int" where
  "wrap64 x = (x + 2 ^ 63) mod 2 ^ 64 - 2 ^ 63"

lemma wrap64_id [simp]: "in_int64 x \<Longrightarrow> wrap64 x = x"
  by (simp add: in_int64_def min_int_def max_int_def wrap64_def)

lemma in_int64_wrap64 [simp]: "in_int64 (wrap64 x)"
proof -
  have "0 \<le> (x + 2 ^ 63) mod (2 ^ 64 :: int)" and "(x + 2 ^ 63) mod (2 ^ 64 :: int) < 2 ^ 64"
    by (rule pos_mod_sign, simp) (rule pos_mod_bound, simp)
  then show ?thesis
    by (simp add: in_int64_def min_int_def max_int_def wrap64_def)
qed

lemma wrap64_sint: "wrap64 x = sint (word_of_int x :: 64 word)"
  by (simp add: wrap64_def sint_sbintrunc' signed_take_bit_eq_take_bit_shift take_bit_eq_mod
      add.commute)

text \<open>\<^verbatim>\<open>int(u)\<close> for a \<^verbatim>\<open>uint64\<close> reinterprets the bits.\<close>

definition int_of_u64 :: "u64 \<Rightarrow> int" where
  "int_of_u64 w = sint w"

lemma int_of_u64_small:
  assumes "unat w < 2 ^ 63"
  shows "int_of_u64 w = int (unat w)"
proof -
  have u: "uint w = int (unat w)" by simp
  have "- (2 ^ 63) \<le> uint w" by (rule order_trans [of _ 0]) simp_all
  moreover have "uint w < 2 ^ 63" 
    using assms unfolding u by (metis of_nat_less_iff of_nat_numeral of_nat_power)
  ultimately have "signed_take_bit 63 (uint w) = uint w"
    by (rule signed_take_bit_int_eq_self)
  then show ?thesis by (simp add: int_of_u64_def sint_uint)
qed

lemma smod_nonneg: "0 \<le> a \<Longrightarrow> 0 < b \<Longrightarrow> (a :: int) smod b = a mod b"
  by (simp add: signed_modulo_int_def sgn_if)

lemma sdiv_nonneg: "0 \<le> a \<Longrightarrow> 0 < b \<Longrightarrow> (a :: int) sdiv b = a div b"
  by (simp add: signed_divide_int_def sgn_if)

section \<open>Maps\<close>

abbreviation map_put :: "'k \<Rightarrow> 'v \<Rightarrow> ('k, 'v) gomap \<Rightarrow> ('k, 'v) gomap" where
  "map_put \<equiv> AList.update"

abbreviation map_del :: "'k \<Rightarrow> ('k, 'v) gomap \<Rightarrow> ('k, 'v) gomap" where
  "map_del \<equiv> AList.delete"

abbreviation map_keys :: "('k, 'v) gomap \<Rightarrow> 'k list" where
  "map_keys m \<equiv> map fst m"

abbreviation map_vals :: "('k, 'v) gomap \<Rightarrow> 'v list" where
  "map_vals m \<equiv> map snd m"

definition map_wf :: "('k, 'v) gomap \<Rightarrow> bool" where
  "map_wf m \<longleftrightarrow> distinct (map_keys m)"

lemmas map_get_put [simp] = AList.update_conv'
lemmas map_get_del [simp] = AList.delete_conv'

lemma map_wf_empty [simp, intro]: "map_wf []"
  by (simp add: map_wf_def)

lemma map_wf_put [simp, intro]: "map_wf m \<Longrightarrow> map_wf (map_put k v m)"
  by (simp add: map_wf_def AList.distinct_update)

lemma map_wf_del [simp, intro]: "map_wf m \<Longrightarrow> map_wf (map_del k m)"
  by (simp add: map_wf_def AList.distinct_delete)

lemma map_wf_filter [simp, intro]: "map_wf m \<Longrightarrow> map_wf (filter P m)"
  unfolding map_wf_def by (induction m) auto

lemma map_of_filter_wf:
  "map_wf m \<Longrightarrow> map_of (filter P m) k =
     (case map_of m k of None \<Rightarrow> None | Some v \<Rightarrow> if P (k, v) then Some v else None)"
proof (induction m)
  case (Cons kv m)
  obtain a b where kv: "kv = (a, b)" by force
  from Cons.prems have wf: "map_wf m" and a: "a \<notin> set (map_keys m)"
    by (simp_all add: map_wf_def kv)
  have "a \<notin> set (map_keys (filter P m))" using a by auto
  then have "map_of m a = None" and "map_of (filter P m) a = None"
    using a by (simp_all add: map_of_eq_None_iff)
  with Cons.IH [OF wf] show ?case by (auto simp: kv)
qed simp

lemma map_of_in_wf: "map_wf m \<Longrightarrow> (k, v) \<in> set m \<longleftrightarrow> map_of m k = Some v"
  by (simp add: map_wf_def)

lemma map_of_map_vals:
  "map_of (map (\<lambda>(k, v). (k, f k v)) m) k = map_option (f k) (map_of m k)"
  by (induction m) auto

lemma map_keys_map_vals [simp]: "map_keys (map (\<lambda>(k, v). (k, f k v)) m) = map_keys m"
  by (induction m) auto

lemma map_wf_map_vals [simp, intro]: "map_wf m \<Longrightarrow> map_wf (map (\<lambda>(k, v). (k, f k v)) m)"
  by (simp only: map_wf_def map_keys_map_vals)

section \<open>Sorting\<close>

lemma distinct_map_sort_key: "distinct (map f (sort_key g xs)) = distinct (map f xs)"
  by (simp add: distinct_map)

end
