(* ===== verification/Breaker.thy ===== *)
theory Breaker
  imports Go_Prelude
begin

text \<open>
  The circuit breakers of \<^verbatim>\<open>internal/router/breaker.go\<close>: one \<open>breaker\<close> per provider,
  kept in the table \<open>bs_state\<close> of \<open>breakers\<close>, under a default policy and per-provider
  overrides. Every method runs under the mutex of \<^verbatim>\<open>breakers\<close>, so each is one atomic step;
  \<open>breakers_step\<close> interleaves them in any order under a clock that never runs backwards.
  \<open>abs_breaker\<close> reads one breaker as the three-phase machine the source's comment draws.
\<close>

section \<open>Data\<close>

datatype circuit_state = CircuitClosed | CircuitOpen | CircuitHalfOpen

record breaker_policy =
  failure_threshold :: int
  cooldown :: duration

definition default_breaker :: breaker_policy where
  "default_breaker = \<lparr>failure_threshold = 5, cooldown = 30 * second\<rparr>"

record breaker =
  br_failures :: int
  br_state :: circuit_state
  br_opened_at :: instant
  br_probing :: bool

text \<open>
  \<open>bs_log\<close> is the sequence of calls made to the transition hook. The engine installs the
  hook when it builds its breakers, so every call counts.
\<close>

record breakers =
  bs_policy :: breaker_policy
  bs_overrides :: "(string, breaker_policy) gomap"
  bs_state :: "(string, breaker) gomap"
  bs_log :: "(string \<times> circuit_state) list"

definition new_breakers :: "breaker_policy \<Rightarrow> breakers" where
  "new_breakers p = \<lparr>bs_policy = p, bs_overrides = [], bs_state = [], bs_log = []\<rparr>"

definition new_breaker :: breaker where
  "new_breaker = \<lparr>br_failures = 0, br_state = CircuitClosed, br_opened_at = 0, br_probing = False\<rparr>"

section \<open>Operations\<close>

definition set_overrides :: "(string, breaker_policy) gomap \<Rightarrow> breakers \<Rightarrow> breakers" where
  "set_overrides ov b = b\<lparr>bs_overrides := ov\<rparr>"

definition set_default_policy :: "breaker_policy \<Rightarrow> breakers \<Rightarrow> breakers" where
  "set_default_policy p b = b\<lparr>bs_policy := p\<rparr>"

definition policy_for :: "breakers \<Rightarrow> string \<Rightarrow> breaker_policy" where
  "policy_for b name =
     (case map_of (bs_overrides b) name of Some p \<Rightarrow> p | None \<Rightarrow> bs_policy b)"

text \<open>
  \<^verbatim>\<open>get\<close> returns a pointer into the table. The model returns the value; a caller that
  mutates the breaker stores it back with \<open>put_breaker\<close>.
\<close>

definition get_breaker :: "breakers \<Rightarrow> string \<Rightarrow> breaker" where
  "get_breaker b name = (case map_of (bs_state b) name of Some br \<Rightarrow> br | None \<Rightarrow> new_breaker)"

definition put_breaker :: "string \<Rightarrow> breaker \<Rightarrow> breakers \<Rightarrow> breakers" where
  "put_breaker name br b = b\<lparr>bs_state := map_put name br (bs_state b)\<rparr>"

definition transition :: "string \<Rightarrow> breaker \<Rightarrow> circuit_state \<Rightarrow> breakers \<Rightarrow> breaker \<times> breakers" where
  "transition name br st b =
     (if br_state br = st then (br, b)
      else (br\<lparr>br_state := st\<rparr>, b\<lparr>bs_log := bs_log b @ [(name, st)]\<rparr>))"

definition phase :: "instant \<Rightarrow> string \<Rightarrow> breakers \<Rightarrow> circuit_state" where
  "phase now name b =
     (case map_of (bs_state b) name of
        None \<Rightarrow> CircuitClosed
      | Some br \<Rightarrow>
          if failure_threshold (policy_for b name) \<le> 0 then CircuitClosed
          else if br_state br = CircuitOpen \<and> now - br_opened_at br \<ge> cooldown (policy_for b name)
          then CircuitHalfOpen
          else br_state br)"

definition allow :: "instant \<Rightarrow> string \<Rightarrow> breakers \<Rightarrow> bool \<times> breakers" where
  "allow now name b =
     (let policy = policy_for b name in
      if failure_threshold policy \<le> 0 then (True, b)
      else
        let br = get_breaker b name in
        case br_state br of
          CircuitOpen \<Rightarrow>
            if now - br_opened_at br < cooldown policy then (False, put_breaker name br b)
            else (let (br', b') = transition name br CircuitHalfOpen b
                  in (True, put_breaker name (br'\<lparr>br_probing := True\<rparr>) b'))
        | CircuitHalfOpen \<Rightarrow>
            if br_probing br then (False, put_breaker name br b)
            else (True, put_breaker name (br\<lparr>br_probing := True\<rparr>) b)
        | CircuitClosed \<Rightarrow> (True, put_breaker name br b))"

definition success :: "string \<Rightarrow> breakers \<Rightarrow> breakers" where
  "success name b =
     (if failure_threshold (policy_for b name) \<le> 0 then b
      else
        let br = (get_breaker b name)\<lparr>br_failures := 0, br_probing := False\<rparr>;
            (br', b') = transition name br CircuitClosed b
        in put_breaker name br' b')"

definition failure :: "instant \<Rightarrow> string \<Rightarrow> breakers \<Rightarrow> breakers" where
  "failure now name b =
     (let policy = policy_for b name in
      if failure_threshold policy \<le> 0 then b
      else
        let br0 = get_breaker b name;
            br = br0\<lparr>br_failures := br_failures br0 + 1\<rparr>
        in if br_state br = CircuitHalfOpen \<or> br_failures br \<ge> failure_threshold policy
           then put_breaker name (br\<lparr>br_opened_at := now, br_probing := False, br_state := CircuitOpen\<rparr>)
                  (b\<lparr>bs_log := bs_log b @ [(name, CircuitOpen)]\<rparr>)
           else put_breaker name br b)"

record provider_health =
  ph_provider :: string
  ph_state :: circuit_state
  ph_failures :: int
  ph_opened_at :: instant
  ph_retry_at :: instant
  ph_last_probe_error :: string

definition breaker_health :: "breakers \<Rightarrow> string \<Rightarrow> breaker \<Rightarrow> provider_health" where
  "breaker_health b name br =
     (let h = \<lparr>ph_provider = name, ph_state = br_state br, ph_failures = br_failures br,
               ph_opened_at = 0, ph_retry_at = 0, ph_last_probe_error = []\<rparr>
      in if br_state br = CircuitOpen
         then h\<lparr>ph_opened_at := br_opened_at br,
                ph_retry_at := br_opened_at br + cooldown (policy_for b name)\<rparr>
         else h)"

definition breakers_snapshot :: "breakers \<Rightarrow> (string, provider_health) gomap" where
  "breakers_snapshot b = map (\<lambda>(name, br). (name, breaker_health b name br)) (bs_state b)"


section \<open>Field lemmas\<close>

lemma get_put_breaker [simp]:
  "get_breaker (put_breaker n br b) m = (if m = n then br else get_breaker b m)"
  by (simp add: get_breaker_def put_breaker_def)

lemma put_breaker_fields [simp]:
  "bs_policy (put_breaker n br b) = bs_policy b"
  "bs_overrides (put_breaker n br b) = bs_overrides b"
  "bs_log (put_breaker n br b) = bs_log b"
  by (simp_all add: put_breaker_def)

lemma get_breaker_log [simp]: "get_breaker (b\<lparr>bs_log := l\<rparr>) n = get_breaker b n"
  by (simp add: get_breaker_def)

lemma policy_for_fields [simp]:
  "policy_for (put_breaker n br b) m = policy_for b m"
  "policy_for (b\<lparr>bs_log := l\<rparr>) m = policy_for b m"
  "policy_for (b\<lparr>bs_state := s\<rparr>) m = policy_for b m"
  by (simp_all add: policy_for_def put_breaker_def split: option.split)

lemma transition_simps [simp]:
  "get_breaker (snd (transition n br st b)) m = get_breaker b m"
  "policy_for (snd (transition n br st b)) m = policy_for b m"
  "bs_policy (snd (transition n br st b)) = bs_policy b"
  "bs_overrides (snd (transition n br st b)) = bs_overrides b"
  "bs_state (snd (transition n br st b)) = bs_state b"
  "fst (transition n br st b) = br\<lparr>br_state := st\<rparr>"
  by (auto simp: transition_def)

text \<open>What each operation does to the breaker it names, and that it touches no other.\<close>

abbreviation enabled :: "breakers \<Rightarrow> string \<Rightarrow> bool" where
  "enabled b n \<equiv> failure_threshold (policy_for b n) > 0"

lemma allow_disabled: "\<not> enabled b n \<Longrightarrow> allow now n b = (True, b)"
  by (simp add: allow_def)

lemma success_disabled: "\<not> enabled b n \<Longrightarrow> success n b = b"
  by (simp add: success_def)

lemma failure_disabled: "\<not> enabled b n \<Longrightarrow> failure now n b = b"
  by (simp add: failure_def)

lemma allow_result:
  "enabled b n \<Longrightarrow>
   fst (allow now n b) =
     (let br = get_breaker b n in
      case br_state br of
        CircuitClosed \<Rightarrow> True
      | CircuitOpen \<Rightarrow> now - br_opened_at br \<ge> cooldown (policy_for b n)
      | CircuitHalfOpen \<Rightarrow> \<not> br_probing br)"
  by (auto simp: allow_def Let_def split: circuit_state.splits prod.splits)

lemma allow_breaker:
  "enabled b n \<Longrightarrow>
   get_breaker (snd (allow now n b)) n =
     (let br = get_breaker b n in
      if fst (allow now n b) \<and> br_state br \<noteq> CircuitClosed
      then br\<lparr>br_state := CircuitHalfOpen, br_probing := True\<rparr> else br)"
  by (auto simp: allow_def Let_def transition_def split: circuit_state.splits)

lemma success_breaker:
  "enabled b n \<Longrightarrow>
   get_breaker (success n b) n =
     (get_breaker b n)\<lparr>br_failures := 0, br_probing := False, br_state := CircuitClosed\<rparr>"
  by (auto simp: success_def Let_def transition_def)

lemma failure_breaker:
  "enabled b n \<Longrightarrow>
   get_breaker (failure now n b) n =
     (let br = get_breaker b n; k = br_failures br + 1 in
      if br_state br = CircuitHalfOpen \<or> k \<ge> failure_threshold (policy_for b n)
      then br\<lparr>br_failures := k, br_state := CircuitOpen, br_opened_at := now, br_probing := False\<rparr>
      else br\<lparr>br_failures := k\<rparr>)"
  by (simp add: failure_def Let_def)

lemma op_frame [simp]:
  "m \<noteq> n \<Longrightarrow> get_breaker (snd (allow now n b)) m = get_breaker b m"
  "m \<noteq> n \<Longrightarrow> get_breaker (success n b) m = get_breaker b m"
  "m \<noteq> n \<Longrightarrow> get_breaker (failure now n b) m = get_breaker b m"
  by (auto simp: allow_def success_def failure_def Let_def transition_def split: circuit_state.splits)

lemma op_policy [simp]:
  "policy_for (snd (allow now n b)) m = policy_for b m"
  "policy_for (success n b) m = policy_for b m"
  "policy_for (failure now n b) m = policy_for b m"
  by (auto simp: allow_def success_def failure_def Let_def transition_def split: circuit_state.splits)

lemma get_breaker_policy [simp]:
  "get_breaker (set_overrides ov b) n = get_breaker b n"
  "get_breaker (set_default_policy p b) n = get_breaker b n"
  by (simp_all add: set_overrides_def set_default_policy_def get_breaker_def)

lemma get_new_breakers [simp]: "get_breaker (new_breakers p) n = new_breaker"
  by (simp add: new_breakers_def get_breaker_def)

lemma policy_for_new [simp]: "policy_for (new_breakers p) n = p"
  by (simp add: new_breakers_def policy_for_def)

lemma phase_allow:
  "enabled b n \<Longrightarrow> fst (allow now n b) \<longleftrightarrow>
     phase now n b \<noteq> CircuitOpen \<and>
     \<not> (br_state (get_breaker b n) = CircuitHalfOpen \<and> br_probing (get_breaker b n))"
  by (auto simp: allow_result phase_def get_breaker_def Let_def new_breaker_def
      split: option.splits circuit_state.splits)

lemmas breaker_ops = allow_breaker success_breaker failure_breaker


section \<open>Interleaved runs\<close>

text \<open>
  One label per call another part of the program can make. \<open>Advance\<close> lets time pass;
  the calls themselves read the clock at the moment they hold the mutex.
\<close>

datatype breaker_event =
    Allow string bool
  | Success string
  | Failure string
  | Overrides "(string, breaker_policy) gomap"
  | DefaultPolicy breaker_policy
  | Advance duration

type_synonym timed_breakers = "instant \<times> breakers"

inductive breakers_step :: "timed_breakers \<Rightarrow> breaker_event \<Rightarrow> timed_breakers \<Rightarrow> bool" where
  allow: "allow now n b = (r, b') \<Longrightarrow> breakers_step (now, b) (Allow n r) (now, b')"
| success: "breakers_step (now, b) (Success n) (now, success n b)"
| failure: "breakers_step (now, b) (Failure n) (now, failure now n b)"
| overrides: "breakers_step (now, b) (Overrides ov) (now, set_overrides ov b)"
| default_policy: "breakers_step (now, b) (DefaultPolicy p) (now, set_default_policy p b)"
| advance: "0 \<le> d \<Longrightarrow> breakers_step (now, b) (Advance d) (now + d, b)"

inductive_cases breakers_step_allowE: "breakers_step s (Allow n r) t"
inductive_cases breakers_stepE: "breakers_step s e t"
inductive_simps breakers_step_simps:
  "breakers_step (now, b) (Allow n r) t"
  "breakers_step (now, b) (Success n) t"
  "breakers_step (now, b) (Failure n) t"
  "breakers_step (now, b) (Overrides ov) t"
  "breakers_step (now, b) (DefaultPolicy p) t"
  "breakers_step (now, b) (Advance d) t"

inductive breakers_run :: "timed_breakers \<Rightarrow> breaker_event list \<Rightarrow> timed_breakers \<Rightarrow> bool" where
  nil: "breakers_run s [] s"
| cons: "breakers_step s e t \<Longrightarrow> breakers_run t es u \<Longrightarrow> breakers_run s (e # es) u"

inductive_simps breakers_run_simps [simp]:
  "breakers_run s [] u"
  "breakers_run s (e # es) u"

definition breakers_reachable :: "timed_breakers \<Rightarrow> bool" where
  "breakers_reachable s \<longleftrightarrow> (\<exists>t0 p es. 0 \<le> t0 \<and> breakers_run (t0, new_breakers p) es s)"

lemma breakers_reachableI:
  "0 \<le> t0 \<Longrightarrow> breakers_run (t0, new_breakers p) es s \<Longrightarrow> breakers_reachable s"
  by (auto simp: breakers_reachable_def)

lemma breakers_run_append:
  "breakers_run s (es @ fs) u \<longleftrightarrow> (\<exists>t. breakers_run s es t \<and> breakers_run t fs u)"
  by (induction es arbitrary: s) auto

lemma breakers_run_invariant:
  assumes "breakers_run s es t" and "P s"
    and "\<And>s e t. breakers_step s e t \<Longrightarrow> P s \<Longrightarrow> P t"
  shows "P t"
  using assms(1,2) by (induction) (blast intro: assms(3))+

text \<open>
  The invariant of one breaker: the probe flag is set exactly in the half-open phase, a
  circuit that is not closed has seen a failure, and its trip is not in the future.
\<close>

definition breaker_inv :: "instant \<Rightarrow> breaker \<Rightarrow> bool" where
  "breaker_inv now br \<longleftrightarrow>
     (br_probing br \<longleftrightarrow> br_state br = CircuitHalfOpen) \<and>
     0 \<le> br_failures br \<and> (br_state br \<noteq> CircuitClosed \<longrightarrow> 0 < br_failures br) \<and>
     0 \<le> br_opened_at br \<and> br_opened_at br \<le> now"

definition breakers_inv :: "timed_breakers \<Rightarrow> bool" where
  "breakers_inv s \<longleftrightarrow> 0 \<le> fst s \<and> (\<forall>n. breaker_inv (fst s) (get_breaker (snd s) n))"

lemma breaker_inv_new [simp]: "0 \<le> now \<Longrightarrow> breaker_inv now new_breaker"
  by (simp add: breaker_inv_def new_breaker_def)

lemma breaker_inv_allow:
  "breaker_inv now (get_breaker b m) \<Longrightarrow> breaker_inv now (get_breaker (snd (allow now n b)) m)"
  by (cases "m = n"; cases "enabled b n")
    (auto simp: allow_disabled breaker_ops breaker_inv_def Let_def)

lemma breaker_inv_success:
  "breaker_inv now (get_breaker b m) \<Longrightarrow> breaker_inv now (get_breaker (success n b) m)"
  by (cases "m = n"; cases "enabled b n")
    (auto simp: success_disabled breaker_ops breaker_inv_def)

lemma breaker_inv_failure:
  "0 \<le> now \<Longrightarrow> breaker_inv now (get_breaker b m) \<Longrightarrow>
   breaker_inv now (get_breaker (failure now n b) m)"
  by (cases "m = n"; cases "enabled b n")
    (auto simp: failure_disabled breaker_ops breaker_inv_def Let_def)

lemma breakers_step_inv: "breakers_step s e t \<Longrightarrow> breakers_inv s \<Longrightarrow> breakers_inv t"
proof (induction rule: breakers_step.induct)
  case (allow now n b r b')
  then have "b' = snd (Breaker.allow now n b)" by simp
  with allow.prems show ?case by (simp add: breakers_inv_def breaker_inv_allow)
next
  case (advance d now b)
  then have "breaker_inv (now + d) (get_breaker b n)" for n
    by (simp add: breakers_inv_def breaker_inv_def order.trans [of _ now "now + d"])
  with advance show ?case by (simp add: breakers_inv_def)
qed (auto simp: breakers_inv_def breaker_inv_success breaker_inv_failure)

lemma breakers_reachable_inv:
  assumes "breakers_reachable s"
  shows "breakers_inv s"
proof -
  obtain t0 p es where t0: "0 \<le> t0" and run: "breakers_run (t0, new_breakers p) es s"
    using assms by (auto simp: breakers_reachable_def)
  have "breakers_inv (t0, new_breakers p)" using t0 by (simp add: breakers_inv_def)
  with run show ?thesis by (rule breakers_run_invariant) (rule breakers_step_inv)
qed

text \<open>
  The transition hook sees every change: per provider, the last state it was told is the
  breaker's state, and each report is an edge of the phase diagram.
\<close>

definition reports :: "string \<Rightarrow> breakers \<Rightarrow> circuit_state list" where
  "reports n b = map snd (filter (\<lambda>r. fst r = n) (bs_log b))"

fun circuit_edge :: "circuit_state \<Rightarrow> circuit_state \<Rightarrow> bool" where
  "circuit_edge CircuitClosed st = (st = CircuitOpen)"
| "circuit_edge CircuitOpen st = True"
| "circuit_edge CircuitHalfOpen st = (st \<noteq> CircuitHalfOpen)"

fun circuit_path :: "circuit_state \<Rightarrow> circuit_state list \<Rightarrow> bool" where
  "circuit_path st [] = True"
| "circuit_path st (st' # sts) = (circuit_edge st st' \<and> circuit_path st' sts)"

definition last_report :: "string \<Rightarrow> breakers \<Rightarrow> circuit_state" where
  "last_report n b = last (CircuitClosed # reports n b)"

lemma circuit_path_snoc:
  "circuit_path st (sts @ [st']) \<longleftrightarrow> circuit_path st sts \<and> circuit_edge (last (st # sts)) st'"
  by (induction sts arbitrary: st) auto

definition log_inv :: "breakers \<Rightarrow> bool" where
  "log_inv b \<longleftrightarrow> (\<forall>n. last_report n b = br_state (get_breaker b n) \<and>
     circuit_path CircuitClosed (reports n b))"

lemma reports_extend:
  "reports m (put_breaker n br (b\<lparr>bs_log := bs_log b @ [(n, st)]\<rparr>)) =
     (if m = n then reports m b @ [st] else reports m b)"
  by (simp add: reports_def)

lemma reports_frame [simp]:
  "reports m (put_breaker n br b) = reports m b"
  "reports m (set_overrides ov b) = reports m b"
  "reports m (set_default_policy p b) = reports m b"
  by (simp_all add: reports_def set_overrides_def set_default_policy_def)

lemma log_inv_put:
  "log_inv b \<Longrightarrow> br_state br = br_state (get_breaker b n) \<Longrightarrow> log_inv (put_breaker n br b)"
  by (simp add: log_inv_def last_report_def)

lemma log_inv_report:
  "log_inv b \<Longrightarrow> circuit_edge (br_state (get_breaker b n)) (br_state br) \<Longrightarrow>
   log_inv (put_breaker n br (b\<lparr>bs_log := bs_log b @ [(n, br_state br)]\<rparr>))"
  unfolding log_inv_def last_report_def reports_extend
  by (auto simp: circuit_path_snoc)

lemma log_inv_allow: "log_inv b \<Longrightarrow> log_inv (snd (allow now n b))"
  using log_inv_report [of b n "(get_breaker b n)\<lparr>br_state := CircuitHalfOpen, br_probing := True\<rparr>"]
  by (auto simp: allow_def Let_def transition_def intro: log_inv_put split: circuit_state.splits)

lemma log_inv_success: "log_inv b \<Longrightarrow> log_inv (success n b)"
  using log_inv_report [of b n "(get_breaker b n)\<lparr>br_failures := 0, br_probing := False, br_state := CircuitClosed\<rparr>"]
  by (cases "br_state (get_breaker b n)")
    (auto simp: success_def Let_def transition_def intro: log_inv_put)

lemma log_inv_failure: "log_inv b \<Longrightarrow> log_inv (failure now n b)"
  using log_inv_report [of b n "(get_breaker b n)\<lparr>br_failures := br_failures (get_breaker b n) + 1,
      br_opened_at := now, br_probing := False, br_state := CircuitOpen\<rparr>"]
  by (cases "br_state (get_breaker b n)")
    (auto simp: failure_def Let_def intro: log_inv_put)

lemma breakers_step_log_inv:
  assumes "breakers_step s e t" and "log_inv (snd s)"
  shows "log_inv (snd t)"
  using assms
proof (induction rule: breakers_step.induct)
  case (allow now n b r b')
  then show ?case using log_inv_allow [of b now n] by simp
next
  case (success now b n)
  then show ?case by (simp add: log_inv_success)
next
  case (failure now b n)
  then show ?case by (simp add: log_inv_failure)
qed (simp_all add: log_inv_def last_report_def)


lemma breakers_reachable_log_inv:
  assumes "breakers_reachable s"
  shows "log_inv (snd s)"
proof -
  obtain t0 p es where run: "breakers_run (t0, new_breakers p) es s"
    using assms by (auto simp: breakers_reachable_def)
  have "log_inv (snd (t0, new_breakers p))"
    by (simp add: log_inv_def last_report_def reports_def new_breakers_def get_breaker_def
        new_breaker_def)
  with run show ?thesis
    by (rule breakers_run_invariant [where P = "\<lambda>s. log_inv (snd s)"]) (rule breakers_step_log_inv)
qed


section \<open>The gate a caller relies on\<close>

text \<open>
  Dispatch uses the breakers through three calls: \<open>admit\<close> before an attempt, and one of
  \<open>report_ok\<close> and \<open>report_fail\<close> after it. \<open>held g n\<close> says that a probe of \<open>n\<close> is
  outstanding. The contract is that a held gate admits nobody and that only a report on
  the same provider releases it.
\<close>

datatype 'n gate_call = Admit 'n | ReportOk 'n | ReportFail 'n

locale probe_gate =
  fixes admit :: "'t \<Rightarrow> 'n \<Rightarrow> 'g \<Rightarrow> bool \<times> 'g"
    and report_ok :: "'n \<Rightarrow> 'g \<Rightarrow> 'g"
    and report_fail :: "'t \<Rightarrow> 'n \<Rightarrow> 'g \<Rightarrow> 'g"
    and held :: "'g \<Rightarrow> 'n \<Rightarrow> bool"
  assumes held_rejects: "held g n \<Longrightarrow> \<not> fst (admit t n g)"
    and admit_keeps: "held g n \<Longrightarrow> held (snd (admit t m g)) n"
    and ok_keeps: "held g n \<Longrightarrow> m \<noteq> n \<Longrightarrow> held (report_ok m g) n"
    and fail_keeps: "held g n \<Longrightarrow> m \<noteq> n \<Longrightarrow> held (report_fail t m g) n"
    and ok_releases: "\<not> held (report_ok n g) n"
    and fail_releases: "\<not> held (report_fail t n g) n"
begin

text \<open>A history of timed calls, with the answer of every admission.\<close>

fun gate_run :: "('t \<times> 'n gate_call) list \<Rightarrow> 'g \<Rightarrow> ('n \<times> bool) list \<times> 'g" where
  "gate_run [] g = ([], g)"
| "gate_run ((t, Admit n) # cs) g =
     (let (r, g') = admit t n g; (rs, g'') = gate_run cs g' in ((n, r) # rs, g''))"
| "gate_run ((t, ReportOk n) # cs) g = gate_run cs (report_ok n g)"
| "gate_run ((t, ReportFail n) # cs) g = gate_run cs (report_fail t n g)"

lemma held_until_report:
  assumes "held g n" and "\<forall>(t, c) \<in> set cs. c \<noteq> ReportOk n \<and> c \<noteq> ReportFail n"
  shows "(n, True) \<notin> set (fst (gate_run cs g)) \<and> held (snd (gate_run cs g)) n"
  using assms
proof (induction cs g rule: gate_run.induct)
  case (2 t m cs g)
  obtain r g' where a: "admit t m g = (r, g')" by force
  have "held g' n" using admit_keeps [OF 2(2), of t m] by (simp add: a)
  then have "(n, True) \<notin> set (fst (gate_run cs g')) \<and> held (snd (gate_run cs g')) n"
    using 2(1) [OF a [symmetric] refl] 2(3) by (simp add: a)
  moreover have "m = n \<Longrightarrow> \<not> r" using held_rejects [OF 2(2)] a by (metis fst_conv)
  ultimately show ?case by (auto simp: a split: prod.split)
next
  case (3 t m cs g)
  then show ?case by (simp add: ok_keeps)
next
  case (4 t m cs g)
  then show ?case by (simp add: fail_keeps)
qed simp

end

definition probe_held :: "breakers \<Rightarrow> string \<Rightarrow> bool" where
  "probe_held b n \<longleftrightarrow>
     enabled b n \<and> br_state (get_breaker b n) = CircuitHalfOpen \<and> br_probing (get_breaker b n)"

lemma probe_held_frame:
  assumes "m \<noteq> n"
  shows "probe_held (snd (allow t m b)) n = probe_held b n"
    and "probe_held (success m b) n = probe_held b n"
    and "probe_held (failure t m b) n = probe_held b n"
  using assms by (simp_all add: probe_held_def)

interpretation breaker_gate: probe_gate allow success failure probe_held
proof (unfold_locales, goal_cases)
  case (1 b n t)
  then show ?case by (simp add: probe_held_def allow_result)
next
  case (2 b n t m)
  then show ?case
    by (cases "m = n") (auto simp: probe_held_frame probe_held_def allow_breaker allow_result Let_def)
next
  case (5 n b)
  then show ?case by (simp add: probe_held_def success_breaker)
next
  case (6 t n b)
  then show ?case by (cases "enabled b n") (auto simp: probe_held_def failure_breaker Let_def)
qed (simp_all add: probe_held_frame)


section \<open>The three-phase machine\<close>

text \<open>
  The diagram of the source's comment, with the counts and instants that drive it. The
  probe flag of a reachable breaker is determined by its phase, so it has no counterpart.
\<close>

datatype circuit =
    Closed_after int
  | Opened_at instant int
  | Probing_after instant int

definition abs_breaker :: "breaker \<Rightarrow> circuit" where
  "abs_breaker br = (case br_state br of
      CircuitClosed \<Rightarrow> Closed_after (br_failures br)
    | CircuitOpen \<Rightarrow> Opened_at (br_opened_at br) (br_failures br)
    | CircuitHalfOpen \<Rightarrow> Probing_after (br_opened_at br) (br_failures br))"

fun circuit_allow :: "breaker_policy \<Rightarrow> instant \<Rightarrow> circuit \<Rightarrow> bool \<times> circuit" where
  "circuit_allow p now (Closed_after k) = (True, Closed_after k)"
| "circuit_allow p now (Opened_at t k) =
     (if now - t < cooldown p then (False, Opened_at t k) else (True, Probing_after t k))"
| "circuit_allow p now (Probing_after t k) = (False, Probing_after t k)"

fun circuit_failure :: "breaker_policy \<Rightarrow> instant \<Rightarrow> circuit \<Rightarrow> circuit" where
  "circuit_failure p now (Closed_after k) =
     (if k + 1 \<ge> failure_threshold p then Opened_at now (k + 1) else Closed_after (k + 1))"
| "circuit_failure p now (Opened_at t k) =
     (if k + 1 \<ge> failure_threshold p then Opened_at now (k + 1) else Opened_at t (k + 1))"
| "circuit_failure p now (Probing_after t k) = Opened_at now (k + 1)"

text \<open>
  C9. Refinement. In every reachable state, the breaker of a provider whose policy is enabled
  behaves as the three-phase machine: \<open>allow\<close> gives the machine's answer and next phase,
  \<open>success\<close> closes it with no failures, \<open>failure\<close> counts, trips and re-opens as the machine
  does, and none of the three touches another provider's breaker.
\<close>

theorem breaker_refines_circuit:
  assumes "breakers_reachable (now, b)" and "enabled b n"
  shows "fst (allow now n b) = fst (circuit_allow (policy_for b n) now (abs_breaker (get_breaker b n)))
    \<and> abs_breaker (get_breaker (snd (allow now n b)) n) =
        snd (circuit_allow (policy_for b n) now (abs_breaker (get_breaker b n)))
    \<and> abs_breaker (get_breaker (success n b) n) = Closed_after 0
    \<and> abs_breaker (get_breaker (failure now n b) n) =
        circuit_failure (policy_for b n) now (abs_breaker (get_breaker b n))
    \<and> (m \<noteq> n \<longrightarrow> get_breaker (snd (allow now n b)) m = get_breaker b m
        \<and> get_breaker (success n b) m = get_breaker b m
        \<and> get_breaker (failure now n b) m = get_breaker b m)"
proof -
  have "breaker_inv now (get_breaker b n)"
    using breakers_reachable_inv [OF assms(1)] by (simp add: breakers_inv_def)
  then show ?thesis
    using assms(2)
    by (cases "br_state (get_breaker b n)")
      (auto simp: breaker_ops allow_result abs_breaker_def breaker_inv_def Let_def)
qed

theorem breaker_refines_circuit_witness:
  "let b = new_breakers \<lparr>failure_threshold = 2, cooldown = 10\<rparr>
   in fst (allow 7 ''openai'' b)
      \<and> abs_breaker (get_breaker (failure 7 ''openai'' b) ''openai'') = Closed_after 1"
proof -
  let ?b = "new_breakers \<lparr>failure_threshold = 2, cooldown = 10\<rparr>"
  have "breakers_reachable (7, ?b)"
    by (rule breakers_reachableI [OF _ breakers_run.nil]) simp
  moreover have "enabled ?b ''openai''" by simp
  ultimately show ?thesis
    using breaker_refines_circuit [of 7 ?b "''openai''" "''other''"]
    by (simp add: abs_breaker_def new_breaker_def Let_def)
qed



text \<open>
  The circuit trips exactly at the threshold: after \<open>length ts\<close> consecutive failures of a
  provider with a closed breaker and no failures counted, the breaker has counted each of
  them and is open if and only if the threshold has been reached.
\<close>

theorem trips_at_threshold:
  assumes "enabled b n" and "get_breaker b n = new_breaker"
  shows "let br = get_breaker (fold (\<lambda>t. failure t n) ts b) n
    in br_failures br = int (length ts)
      \<and> br_state br = (if int (length ts) \<ge> failure_threshold (policy_for b n)
                       then CircuitOpen else CircuitClosed)"
proof (induction ts rule: rev_induct)
  case Nil
  then show ?case using assms by (simp add: new_breaker_def)
next
  case (snoc t ts)
  have "policy_for (fold (\<lambda>t. failure t n) ts b) n = policy_for b n"
    by (induction ts arbitrary: b) simp_all
  with snoc assms(1) show ?case
    by (simp add: failure_breaker Let_def split: if_splits)
qed

theorem trips_at_threshold_witness:
  "br_state (get_breaker (fold (\<lambda>t. failure t ''a'') [1, 2, 3, 4]
     (new_breakers default_breaker)) ''a'') = CircuitClosed
   \<and> br_state (get_breaker (fold (\<lambda>t. failure t ''a'') [1, 2, 3, 4, 5]
     (new_breakers default_breaker)) ''a'') = CircuitOpen"
proof -
  have e: "enabled (new_breakers default_breaker) ''a''"
    and p: "policy_for (new_breakers default_breaker) ''a'' = default_breaker"
    by (simp_all add: default_breaker_def)
  show ?thesis
    using trips_at_threshold [OF e, of "[1, 2, 3, 4]"] trips_at_threshold [OF e, of "[1, 2, 3, 4, 5]"]
    unfolding p by (simp add: Let_def, simp add: default_breaker_def)
qed

text \<open>
  Fail fast. From the moment a circuit opens until its cooldown has elapsed, no
  interleaving of calls admits a request to that provider, unless a call that was already
  in flight reports on it or its policy is changed.
\<close>

theorem open_until_cooldown:
  assumes "breakers_run (now, b) es (now', b')"
    and "enabled b n" and "br_state (get_breaker b n) = CircuitOpen"
    and "now' - br_opened_at (get_breaker b n) < cooldown (policy_for b n)"
    and "\<forall>e \<in> set es. e \<notin> {Success n, Failure n} \<and> (\<forall>ov. e \<noteq> Overrides ov) \<and> (\<forall>p. e \<noteq> DefaultPolicy p)"
  shows "Allow n True \<notin> set es \<and> get_breaker b' n = get_breaker b n"
  using assms
proof (induction es arbitrary: now b)
  case (Cons e es)
  obtain now1 b1 where step: "breakers_step (now, b) e (now1, b1)"
    and run: "breakers_run (now1, b1) es (now', b')"
    using Cons.prems(1) by auto
  have mono: "now1 \<le> now'"
    using run by (induction "(now1, b1)" es "(now', b')" arbitrary: now1 b1 rule: breakers_run.induct)
      (auto elim!: breakers_stepE)
  have "now \<le> now1" using step by (auto elim: breakers_stepE)
  with mono have early: "now - br_opened_at (get_breaker b n) < cooldown (policy_for b n)"
    using Cons.prems(4) by simp
  have "e \<noteq> Allow n True \<and> get_breaker b1 n = get_breaker b n \<and> policy_for b1 n = policy_for b n"
    using step
  proof (cases rule: breakers_step.cases)
    case (allow m r)
    then have b1: "b1 = snd (Breaker.allow now m b)" and r: "r = fst (Breaker.allow now m b)"
      by simp_all
    show ?thesis
      using early Cons.prems(2,3) allow(1)
      by (cases "m = n") (auto simp: b1 r allow_breaker allow_result Let_def)
  next
    case (success m)
    with Cons.prems(5) show ?thesis by (cases "m = n") auto
  next
    case (failure m)
    with Cons.prems(5) show ?thesis by (cases "m = n") auto
  qed (use Cons.prems(5) in auto)
  with Cons.IH [OF run] Cons.prems show ?case by auto
qed simp

theorem open_until_cooldown_witness:
  "\<exists>b. br_state (get_breaker b ''a'') = CircuitOpen \<and>
     breakers_run (5, b) [Allow ''a'' False, Advance 9, Allow ''a'' False] (14, b)"
proof -
  let ?b = "failure 5 ''a'' (new_breakers \<lparr>failure_threshold = 1, cooldown = 10\<rparr>)"
  have fields: "br_state (get_breaker ?b ''a'') = CircuitOpen"
    "br_opened_at (get_breaker ?b ''a'') = 5" "policy_for ?b ''a'' = \<lparr>failure_threshold = 1, cooldown = 10\<rparr>"
    by code_simp+
  have stay: "allow 5 ''a'' ?b = (False, ?b)" "allow 14 ''a'' ?b = (False, ?b)"
    by code_simp+
  have run: "breakers_run (5, ?b) [Allow ''a'' False, Advance 9, Allow ''a'' False] (14, ?b)"
    using stay by (auto simp: breakers_step_simps)
  have "Allow ''a'' True \<notin> set [Allow ''a'' False, Advance 9, Allow ''a'' False]
    \<and> get_breaker ?b ''a'' = get_breaker ?b ''a''"
    by (rule open_until_cooldown [OF run]) (simp_all add: fields)
  with fields run show ?thesis by blast
qed

text \<open>
  Single probe. Once a request has been admitted while the circuit is not closed, no later
  request to that provider is admitted, at any time and however calls on other providers
  interleave, until a call on this provider reports success or a retryable failure.
\<close>

theorem single_probe:
  assumes "enabled b n" and "br_state (get_breaker b n) \<noteq> CircuitClosed"
    and "allow t n b = (True, b')"
    and "\<forall>(t, c) \<in> set cs. c \<noteq> ReportOk n \<and> c \<noteq> ReportFail n"
  shows "(n, True) \<notin> set (fst (breaker_gate.gate_run cs b'))
    \<and> probe_held (snd (breaker_gate.gate_run cs b')) n"
proof (rule breaker_gate.held_until_report [OF _ assms(4)])
  have "fst (allow t n b)" and "b' = snd (allow t n b)" using assms(3) by simp_all
  with assms(1,2) show "probe_held b' n" by (simp add: probe_held_def allow_breaker Let_def)
qed

theorem single_probe_witness:
  "let b = failure 5 ''a'' (new_breakers \<lparr>failure_threshold = 1, cooldown = 10\<rparr>);
       calls = [(20, Admit ''a''), (30, ReportOk ''b''), (999999, Admit ''a'')]
   in fst (allow 15 ''a'' b) \<and>
      (''a'', True) \<notin> set (fst (breaker_gate.gate_run calls (snd (allow 15 ''a'' b))))"
proof -
  let ?b = "failure 5 ''a'' (new_breakers \<lparr>failure_threshold = 1, cooldown = 10\<rparr>)"
  have p: "enabled ?b ''a''" "br_state (get_breaker ?b ''a'') \<noteq> CircuitClosed"
    "fst (allow 15 ''a'' ?b)"
    by code_simp+
  then have a: "allow 15 ''a'' ?b = (True, snd (allow 15 ''a'' ?b))"
    by (metis prod.collapse)
  show ?thesis
    unfolding Let_def
    by (rule conjI [OF p(3)], rule conjunct1, rule single_probe [OF p(1,2) a]) simp
qed

end
