(* ===== verification/Go_Strings.thy ===== *)
theory Go_Strings
  imports Go_Prelude
begin

text \<open>
  The functions of Go's \<^verbatim>\<open>strings\<close> and \<^verbatim>\<open>strconv\<close> packages that the router calls, on byte
  strings. Characters above the ASCII range are kept by the case mappings and are never
  white space. Argument order follows Go.
\<close>

section \<open>Prefixes, suffixes, search\<close>

abbreviation has_prefix :: "string \<Rightarrow> string \<Rightarrow> bool" where
  "has_prefix s p \<equiv> prefix p s"

abbreviation has_suffix :: "string \<Rightarrow> string \<Rightarrow> bool" where
  "has_suffix s p \<equiv> suffix p s"

definition trim_prefix :: "string \<Rightarrow> string \<Rightarrow> string" where
  "trim_prefix s p = (if prefix p s then drop (length p) s else s)"

definition trim_suffix :: "string \<Rightarrow> string \<Rightarrow> string" where
  "trim_suffix s p = (if suffix p s then take (length s - length p) s else s)"

text \<open>\<^verbatim>\<open>strings.Cut\<close> around the first occurrence of a separator; \<^verbatim>\<open>Contains\<close>, \<^verbatim>\<open>Index\<close> and
  \<^verbatim>\<open>Split\<close> are read off it.\<close>

fun cut :: "string \<Rightarrow> string \<Rightarrow> (string \<times> string) option" where
  "cut s sep = (if prefix sep s then Some ([], drop (length sep) s)
     else (case s of [] \<Rightarrow> None
           | c # cs \<Rightarrow> (case cut cs sep of None \<Rightarrow> None | Some (a, b) \<Rightarrow> Some (c # a, b))))"

declare cut.simps [simp del]

definition contains :: "string \<Rightarrow> string \<Rightarrow> bool" where
  "contains s sub = (cut s sub \<noteq> None)"

definition str_index :: "string \<Rightarrow> string \<Rightarrow> int" where
  "str_index s sub = (case cut s sub of None \<Rightarrow> -1 | Some (a, b) \<Rightarrow> int (length a))"

definition last_index :: "string \<Rightarrow> string \<Rightarrow> int" where
  "last_index s sub = (case cut (rev s) (rev sub) of
      None \<Rightarrow> -1 | Some (a, b) \<Rightarrow> int (length b))"

lemma cut_Some: "cut s sep = Some (a, b) \<Longrightarrow> s = a @ sep @ b"
proof (induction s arbitrary: a)
  case Nil
  then show ?case by (subst (asm) cut.simps) (auto simp: prefix_def split: if_splits)
next
  case (Cons c cs)
  from Cons.prems show ?case
    by (subst (asm) cut.simps)
      (auto simp: prefix_def split: if_splits option.splits dest: Cons.IH)
qed

lemma cut_shorter: "cut s sep = Some (a, b) \<Longrightarrow> sep \<noteq> [] \<Longrightarrow> length b < length s"
  by (drule cut_Some) simp

lemma cut_None: "cut s sep = None \<longleftrightarrow> \<not> sublist sep s"
proof (induction s)
  case Nil
  show ?case by (subst cut.simps) (auto simp: sublist_def prefix_def)
next
  case (Cons c cs)
  then show ?case
    by (subst cut.simps) (auto simp: sublist_Cons_right split: option.splits)
qed

lemma contains_iff [go_simps]: "contains s sub \<longleftrightarrow> sublist sub s"
  by (simp add: contains_def cut_None)

text \<open>The first occurrence: no shorter prefix of \<open>s\<close> ends with the separator.\<close>

lemma cut_first: "cut s [c] = Some (a, b) \<Longrightarrow> c \<notin> set a"
proof (induction s arbitrary: a)
  case Nil
  then show ?case by (subst (asm) cut.simps) auto
next
  case (Cons x xs)
  from Cons.prems show ?case
    by (subst (asm) cut.simps) (auto split: if_splits option.splits dest: Cons.IH)
qed

lemma cut_char: "c \<notin> set a \<Longrightarrow> cut (a @ c # b) [c] = Some (a, b)"
  by (induction a) (subst cut.simps, auto)+

lemma cut_char_simps:
  "cut [] [c] = None"
  "cut (x # xs) [c] = (if x = c then Some ([], xs)
     else (case cut xs [c] of None \<Rightarrow> None | Some (a, b) \<Rightarrow> Some (x # a, b)))"
  by (subst cut.simps, auto)+

lemma cut_None_char: "cut s [c] = None \<longleftrightarrow> c \<notin> set s"
  by (induction s) (auto simp: cut_char_simps split: option.splits)

lemma cut_no_char: "c \<notin> set s \<Longrightarrow> cut s [c] = None"
  by (induction s) (subst cut.simps, auto)+

section \<open>Case and white space\<close>

definition is_upper :: "char \<Rightarrow> bool" where "is_upper c = (CHR ''A'' \<le> c \<and> c \<le> CHR ''Z'')"
definition is_lower :: "char \<Rightarrow> bool" where "is_lower c = (CHR ''a'' \<le> c \<and> c \<le> CHR ''z'')"
definition is_digit :: "char \<Rightarrow> bool" where "is_digit c = (CHR ''0'' \<le> c \<and> c \<le> CHR ''9'')"

definition lower_char :: "char \<Rightarrow> char" where
  "lower_char c = (if is_upper c then char_of (of_char c + 32 :: nat) else c)"

definition upper_char :: "char \<Rightarrow> char" where
  "upper_char c = (if is_lower c then char_of (of_char c - 32 :: nat) else c)"

definition to_lower :: "string \<Rightarrow> string" where "to_lower s = map lower_char s"
definition to_upper :: "string \<Rightarrow> string" where "to_upper s = map upper_char s"

definition equal_fold :: "string \<Rightarrow> string \<Rightarrow> bool" where
  "equal_fold s t = (to_lower s = to_lower t)"

definition is_space :: "char \<Rightarrow> bool" where
  "is_space c = (c = CHR '' '' \<or> (CHR 0x09 \<le> c \<and> c \<le> CHR 0x0D))"

definition trim_left :: "string \<Rightarrow> string" where "trim_left s = dropWhile is_space s"
definition trim_right :: "string \<Rightarrow> string" where "trim_right s = rev (dropWhile is_space (rev s))"
definition trim_space :: "string \<Rightarrow> string" where "trim_space s = trim_right (trim_left s)"

definition trim_right_chars :: "(char \<Rightarrow> bool) \<Rightarrow> string \<Rightarrow> string" where
  "trim_right_chars P s = rev (dropWhile P (rev s))"

lemma lower_char_idem [simp]: "lower_char (lower_char c) = lower_char c"
proof (cases "is_upper c")
  case True
  then have "65 \<le> (of_char c :: nat)" and "(of_char c :: nat) \<le> 90"
    by (simp_all add: is_upper_def less_eq_char_def)
  then have "\<not> is_upper (char_of (of_char c + 32 :: nat))"
    by (simp add: is_upper_def less_eq_char_def)
  with True show ?thesis by (simp add: lower_char_def)
qed (simp add: lower_char_def)

lemma to_lower_idem [simp]: "to_lower (to_lower s) = to_lower s"
  by (simp add: to_lower_def)

lemma length_to_lower [simp]: "length (to_lower s) = length s"
  by (simp add: to_lower_def)

lemma trim_space_trimmed:
  assumes "s \<noteq> []" and "\<not> is_space (hd s)" and "\<not> is_space (last s)"
  shows "trim_space s = s"
proof -
  have "trim_left s = s" using assms(1,2) by (cases s) (simp_all add: trim_left_def)
  moreover have "dropWhile is_space (rev s) = rev s"
    using assms(1,3) by (cases s rule: rev_cases) simp_all
  ultimately show ?thesis by (simp add: trim_space_def trim_right_def)
qed

lemma trim_space_Nil [simp]: "trim_space [] = []"
  by (simp add: trim_space_def trim_left_def trim_right_def)

lemma hd_trim_left: "trim_left s \<noteq> [] \<Longrightarrow> \<not> is_space (hd (trim_left s))"
  unfolding trim_left_def by (rule hd_dropWhile)

lemma last_trim_right: "trim_right s \<noteq> [] \<Longrightarrow> \<not> is_space (last (trim_right s))"
  unfolding trim_right_def by (metis hd_dropWhile last_rev rev_is_Nil_conv)

lemma hd_trim_right: "trim_right s \<noteq> [] \<Longrightarrow> hd (trim_right s) = hd s"
proof -
  obtain t where "rev s = t @ dropWhile is_space (rev s)"
    by (metis takeWhile_dropWhile_id)
  then have "s = trim_right s @ rev t"
    unfolding trim_right_def by (metis rev_append rev_rev_ident)
  moreover assume "trim_right s \<noteq> []"
  ultimately show ?thesis by (metis hd_append2)
qed

lemma trim_space_ends:
  "trim_space s \<noteq> [] \<Longrightarrow> \<not> is_space (hd (trim_space s)) \<and> \<not> is_space (last (trim_space s))"
  unfolding trim_space_def
  by (metis hd_trim_left hd_trim_right last_trim_right list.size(3) trim_right_def
      rev.simps(1) dropWhile.simps(1))

lemma trim_space_idem [simp]: "trim_space (trim_space s) = trim_space s"
  by (cases "trim_space s = []") (simp_all add: trim_space_trimmed trim_space_ends)

section \<open>Split, join, replace\<close>

text \<open>\<^verbatim>\<open>strings.Split\<close> with a non-empty separator.\<close>

function split_on :: "string \<Rightarrow> string \<Rightarrow> string list" where
  "split_on s sep = (if sep = [] then [s] else
     (case cut s sep of None \<Rightarrow> [s] | Some (a, b) \<Rightarrow> a # split_on b sep))"
  by auto
termination by (relation "measure (length \<circ> fst)") (auto dest: cut_shorter)

declare split_on.simps [simp del]

fun join :: "string list \<Rightarrow> string \<Rightarrow> string" where
  "join [] sep = []"
| "join [s] sep = s"
| "join (s # t # ts) sep = s @ sep @ join (t # ts) sep"

definition replace_all :: "string \<Rightarrow> string \<Rightarrow> string \<Rightarrow> string" where
  "replace_all s old new = join (split_on s old) new"

lemma split_on_nonempty [simp]: "split_on s sep \<noteq> []"
  by (subst split_on.simps) (auto split: option.split)

lemma join_Cons: "ts \<noteq> [] \<Longrightarrow> join (s # ts) sep = s @ sep @ join ts sep"
  by (cases ts) simp_all

lemma join_split: "join (split_on s sep) sep = s"
proof (induction s sep rule: split_on.induct)
  case (1 s sep)
  show ?case
  proof (cases "sep = [] \<or> cut s sep = None")
    case True
    then show ?thesis by (subst split_on.simps) auto
  next
    case False
    then obtain a b where ab: "sep \<noteq> []" "cut s sep = Some (a, b)" by auto
    then have "split_on s sep = a # split_on b sep" by (subst split_on.simps) simp
    then show ?thesis
      using 1 [OF ab(1,2) refl] cut_Some [OF ab(2)] by (simp add: join_Cons)
  qed
qed

lemma split_join:
  "xs \<noteq> [] \<Longrightarrow> \<forall>x \<in> set xs. c \<notin> set x \<Longrightarrow> split_on (join xs [c]) [c] = xs"
proof (induction xs "[c]" rule: join.induct)
  case (2 s)
  then show ?case by (subst split_on.simps) (simp add: cut_no_char)
next
  case (3 s t ts)
  then show ?case by (subst split_on.simps) (simp add: cut_char)
qed simp

lemma split_on_parts: "x \<in> set (split_on s [c]) \<Longrightarrow> c \<notin> set x"
proof (induction s "[c]" rule: split_on.induct)
  case (1 s)
  show ?case
  proof (cases "cut s [c]")
    case None
    then have "split_on s [c] = [s]" by (subst split_on.simps) simp
    with None 1(2) show ?thesis by (simp add: cut_None_char)
  next
    case (Some ab)
    obtain a b where ab: "ab = (a, b)" by force
    then have "split_on s [c] = a # split_on b [c]" using Some by (subst split_on.simps) simp
    with 1 Some ab show ?thesis by (auto dest: cut_first)
  qed
qed

section \<open>Numbers\<close>

definition digit_char :: "nat \<Rightarrow> char" where "digit_char d = char_of (48 + d)"
definition char_digit :: "char \<Rightarrow> nat" where "char_digit c = of_char c - 48"

fun show_nat :: "nat \<Rightarrow> string" where
  "show_nat n = (if n < 10 then [digit_char n] else show_nat (n div 10) @ [digit_char (n mod 10)])"

declare show_nat.simps [simp del]

definition show_int :: "int \<Rightarrow> string" where
  "show_int i = (if i < 0 then CHR ''-'' # show_nat (nat (- i)) else show_nat (nat i))"

definition nat_of_digits :: "string \<Rightarrow> nat" where
  "nat_of_digits s = foldl (\<lambda>n c. n * 10 + char_digit c) 0 s"

text \<open>\<^verbatim>\<open>strconv.Atoi\<close>: an optional sign, at least one digit, and a value that fits \<^verbatim>\<open>int\<close>.\<close>

definition atoi :: "string \<Rightarrow> int option" where
  "atoi s =
     (let neg = (prefix ''-'' s);
          ds = (if neg \<or> prefix ''+'' s then drop 1 s else s);
          v = (if neg then - int (nat_of_digits ds) else int (nat_of_digits ds))
      in if ds \<noteq> [] \<and> (\<forall>c \<in> set ds. is_digit c) \<and> in_int64 v then Some v else None)"

lemma digit_char_props:
  "d < 10 \<Longrightarrow> is_digit (digit_char d)" "d < 10 \<Longrightarrow> char_digit (digit_char d) = d"
  by (simp_all add: is_digit_def digit_char_def char_digit_def less_eq_char_def)

lemma show_nat_digits: "show_nat n \<noteq> [] \<and> (\<forall>c \<in> set (show_nat n). is_digit c)"
proof (induction n rule: show_nat.induct)
  case (1 n)
  then show ?case by (subst (1 2) show_nat.simps) (auto simp: digit_char_props)
qed

lemma nat_of_show: "nat_of_digits (show_nat n) = n"
proof (induction n rule: show_nat.induct)
  case (1 n)
  then show ?case
    by (subst show_nat.simps) (auto simp: nat_of_digits_def digit_char_props)
qed

lemma atoi_show: "in_int64 i \<Longrightarrow> atoi (show_int i) = Some i"
proof -
  assume i: "in_int64 i"
  have nosign: "\<not> prefix ''-'' (show_nat n)" "\<not> prefix ''+'' (show_nat n)" for n
    using show_nat_digits [of n]
    by (cases "show_nat n"; auto simp: is_digit_def less_eq_char_def)+
  show ?thesis
    using i show_nat_digits nosign
    by (auto simp: atoi_def show_int_def Let_def nat_of_show)
qed

section \<open>Durations\<close>

text \<open>\<^verbatim>\<open>Duration.String\<close>: hours and minutes before the seconds, and a smaller unit below one second;
  the fraction is written without its trailing zeros.\<close>

definition fraction_digits :: "nat \<Rightarrow> nat \<Rightarrow> string" where
  "fraction_digits width v =
     (let ds = map (\<lambda>i. digit_char (v div 10 ^ (width - 1 - i) mod 10)) [0..<width];
          kept = rev (dropWhile (\<lambda>c. c = CHR ''0'') (rev ds))
      in if kept = [] then [] else CHR ''.'' # kept)"

definition duration_unit :: "nat \<Rightarrow> nat \<Rightarrow> string \<Rightarrow> string" where
  "duration_unit width v u = show_nat (v div 10 ^ width) @ fraction_digits width v @ u"

definition duration_string :: "duration \<Rightarrow> string" where
  "duration_string d =
     (let u = nat \<bar>d\<bar>; secs = u div 10 ^ 9; mins = secs div 60; hours = mins div 60;
          body = (if u = 0 then ''0s''
            else if u < 10 ^ 3 then duration_unit 0 u ''ns''
            else if u < 10 ^ 6 then duration_unit 3 u [CHR 0xC2, CHR 0xB5, CHR ''s'']
            else if u < 10 ^ 9 then duration_unit 6 u ''ms''
            else (if hours > 0 then show_nat hours @ ''h'' else [])
              @ (if mins > 0 then show_nat (mins mod 60) @ ''m'' else [])
              @ show_nat (secs mod 60) @ fraction_digits 9 u @ ''s'')
      in if d < 0 then CHR ''-'' # body else body)"

end
