(* ===== verification/Provider_Errors.thy ===== *)
theory Provider_Errors
  imports Go_Strings
begin

text \<open>
  The errors of the router and the provider layer: \<^verbatim>\<open>internal/provider/errors.go\<close>, the
  sentinels of \<^verbatim>\<open>internal/router\<close> and the two of \<^verbatim>\<open>context\<close>, with \<^verbatim>\<open>errors.Is\<close>,
  \<^verbatim>\<open>Retryable\<close>, the \<^verbatim>\<open>classify\<close> of \<^verbatim>\<open>internal/router/router.go\<close> and the redaction of
  credentials from error texts.
\<close>

section \<open>Errors as values\<close>

datatype sentinel =
    ErrTimeout | ErrRateLimited | ErrUpstream5xx | ErrContextExceeded | ErrConnection
  | ErrUnsupported | ErrProviderNotFound
  | ErrUnknownModel | ErrChainExhausted | ErrCircuitOpen | ErrProviderUnhealthy
  | ErrNoCompatibleModel | ErrRouterContextExceeded | ErrNoHealthyModel
  | Canceled | DeadlineExceeded

fun sentinel_text :: "sentinel \<Rightarrow> string" where
  "sentinel_text ErrTimeout = ''provider: timeout''"
| "sentinel_text ErrRateLimited = ''provider: rate limited''"
| "sentinel_text ErrUpstream5xx = ''provider: upstream server error''"
| "sentinel_text ErrContextExceeded = ''provider: context limit exceeded''"
| "sentinel_text ErrConnection = ''provider: connection error''"
| "sentinel_text ErrUnsupported = ''provider: endpoint not supported''"
| "sentinel_text ErrProviderNotFound = ''provider: not found''"
| "sentinel_text ErrUnknownModel = ''router: unknown model''"
| "sentinel_text ErrChainExhausted = ''router: fallback chain exhausted''"
| "sentinel_text ErrCircuitOpen = ''router: circuit open''"
| "sentinel_text ErrProviderUnhealthy = ''router: provider unhealthy''"
| "sentinel_text ErrNoCompatibleModel = ''NO_COMPATIBLE_MODEL''"
| "sentinel_text ErrRouterContextExceeded = ''CONTEXT_LIMIT_EXCEEDED''"
| "sentinel_text ErrNoHealthyModel = ''NO_HEALTHY_MODEL''"
| "sentinel_text Canceled = ''context canceled''"
| "sentinel_text DeadlineExceeded = ''context deadline exceeded''"

record provider_error =
  pe_provider :: string
  pe_status :: int
  pe_kind :: "sentinel option"
  pe_message :: string
  pe_code :: string

text \<open>
  \<open>Wrapped s t\<close> is \<^verbatim>\<open>fmt.Errorf("%w: %s", s, t)\<close>, \<open>Chained s e\<close> is \<^verbatim>\<open>fmt.Errorf("%w: %w", s, e)\<close>,
  and \<open>Opaque\<close> an error of a library, of which only the text is used.
\<close>

datatype gerror =
    Sentinel sentinel
  | Wrapped sentinel string
  | Chained sentinel gerror
  | Upstream provider_error
  | Opaque string

definition provider_error_text :: "provider_error \<Rightarrow> string" where
  "provider_error_text e =
     (if pe_status e > 0 \<and> pe_message e \<noteq> [] then
        ''provider '' @ pe_provider e @ '': upstream status '' @ show_int (pe_status e) @ '': '' @ pe_message e
      else if pe_status e > 0 then
        ''provider '' @ pe_provider e @ '': upstream status '' @ show_int (pe_status e)
      else if pe_message e \<noteq> [] then ''provider '' @ pe_provider e @ '': '' @ pe_message e
      else ''provider '' @ pe_provider e @ '': request failed'')"

fun error_text :: "gerror \<Rightarrow> string" where
  "error_text (Sentinel s) = sentinel_text s"
| "error_text (Wrapped s t) = sentinel_text s @ '': '' @ t"
| "error_text (Chained s e) = sentinel_text s @ '': '' @ error_text e"
| "error_text (Upstream p) = provider_error_text p"
| "error_text (Opaque t) = t"

fun errors_is :: "gerror \<Rightarrow> sentinel \<Rightarrow> bool" where
  "errors_is (Sentinel s) t = (s = t)"
| "errors_is (Wrapped s _) t = (s = t)"
| "errors_is (Chained s e) t = (s = t \<or> errors_is e t)"
| "errors_is (Upstream p) t = (pe_kind p = Some t)"
| "errors_is (Opaque _) t = False"

text \<open>\<^verbatim>\<open>errors.As(err, *provider.Error)\<close>.\<close>

fun errors_as_provider :: "gerror \<Rightarrow> provider_error option" where
  "errors_as_provider (Chained s e) = errors_as_provider e"
| "errors_as_provider (Upstream p) = Some p"
| "errors_as_provider _ = None"

definition retryable :: "gerror \<Rightarrow> bool" where
  "retryable e =
     (errors_is e ErrTimeout \<or> errors_is e ErrRateLimited \<or> errors_is e ErrUpstream5xx \<or>
      errors_is e ErrConnection \<or> errors_is e ErrContextExceeded)"

definition classify :: "gerror \<Rightarrow> string" where
  "classify e =
     (if errors_is e ErrTimeout then ''timeout''
      else if errors_is e ErrRateLimited then ''rate_limited''
      else if errors_is e ErrUpstream5xx then ''upstream_5xx''
      else if errors_is e ErrConnection then ''connection''
      else if errors_is e Canceled then ''canceled''
      else ''client_error'')"

lemma errors_is_chained_simps [simp]:
  "retryable (Chained s e) \<longleftrightarrow> retryable (Sentinel s) \<or> retryable e"
  by (auto simp: retryable_def)

section \<open>Redaction\<close>

definition redaction_placeholder :: string where
  "redaction_placeholder = ''[REDACTED]''"

definition redact :: "string \<Rightarrow> string \<Rightarrow> string" where
  "redact secret msg =
     (if secret = [] then msg else replace_all msg secret redaction_placeholder)"

text \<open>
  A secret is sound to redact when no part of the placeholder can complete an occurrence of
  it: it has no bracket and is not a part of the word between the brackets.
\<close>

definition redactable :: "string \<Rightarrow> bool" where
  "redactable s \<longleftrightarrow> s \<noteq> [] \<and> CHR ''['' \<notin> set s \<and> CHR '']'' \<notin> set s \<and> \<not> sublist s ''REDACTED''"

lemma sublist_trans: "sublist x y \<Longrightarrow> sublist y z \<Longrightarrow> sublist x z"
  by (rule sublist_order.order.trans)

lemma sublist_split_char:
  assumes "c \<notin> set s" and "s \<noteq> []"
  shows "sublist s (a @ c # b) \<longleftrightarrow> sublist s a \<or> sublist s b"
proof
  assume "sublist s (a @ c # b)"
  then consider "sublist s a" | "sublist s (c # b)"
    | s1 s2 where "s = s1 @ s2" "suffix s1 a" "prefix s2 (c # b)"
    by (auto simp: sublist_append)
  then show "sublist s a \<or> sublist s b"
  proof cases
    case 2
    then show ?thesis
      using assms by (cases s) (auto simp: sublist_Cons_right)
  next
    case 3
    then have "s2 = []" using assms(1) by (cases s2) auto
    with 3 show ?thesis by (simp add: suffix_imp_sublist)
  qed simp
qed (auto simp: sublist_append sublist_Cons_right)

lemma redactable_placeholder:
  assumes "redactable s"
  shows "sublist s (a @ redaction_placeholder @ b) \<longleftrightarrow> sublist s a \<or> sublist s b"
proof -
  have s: "s \<noteq> []" "CHR ''['' \<notin> set s" "CHR '']'' \<notin> set s" "\<not> sublist s ''REDACTED''"
    using assms by (simp_all add: redactable_def)
  have "a @ redaction_placeholder @ b = a @ CHR ''['' # (''REDACTED'' @ CHR '']'' # b)"
    by (simp add: redaction_placeholder_def)
  then show ?thesis
    using sublist_split_char [OF s(2,1), of a] sublist_split_char [OF s(3,1), of "''REDACTED''" b] s(4)
    by metis
qed

lemma redactable_join:
  assumes "redactable s" and "ps \<noteq> []"
  shows "sublist s (join ps redaction_placeholder) \<longleftrightarrow> (\<exists>p \<in> set ps. sublist s p)"
  using assms(2)
proof (induction ps)
  case (Cons p ps)
  then show ?case
    by (cases "ps = []") (simp_all add: join_Cons redactable_placeholder [OF assms(1)])
qed simp

lemma cut_before:
  assumes "cut s sep = Some (a, b)" and "sep \<noteq> []"
  shows "\<not> sublist sep a"
  using assms(1)
proof (induction s arbitrary: a)
  case Nil
  then show ?case using assms(2) by (subst (asm) cut.simps) (auto split: if_splits)
next
  case (Cons c cs)
  show ?case
  proof (cases "prefix sep (c # cs)")
    case True
    with Cons.prems assms(2) show ?thesis by (subst (asm) cut.simps) auto
  next
    case False
    with Cons.prems obtain a' where a': "a = c # a'" "cut cs sep = Some (a', b)"
      by (subst (asm) cut.simps) (auto split: option.splits)
    have "cs = a' @ sep @ b" using cut_Some [OF a'(2)] .
    then have "\<not> prefix sep (c # a')"
      using False prefix_prefix [of sep "c # a'" "sep @ b"] by auto
    with Cons.IH [OF a'(2)] a'(1) show ?thesis by (simp add: sublist_Cons_right)
  qed
qed

lemma split_parts_free: "sep \<noteq> [] \<Longrightarrow> p \<in> set (split_on s sep) \<Longrightarrow> \<not> sublist sep p"
proof (induction s sep rule: split_on.induct)
  case (1 s sep)
  show ?case
  proof (cases "cut s sep")
    case None
    then have "split_on s sep = [s]" by (subst split_on.simps) simp
    with None 1(3) show ?thesis by (simp add: cut_None)
  next
    case (Some ab)
    obtain a b where ab: "ab = (a, b)" by force
    have "split_on s sep = a # split_on b sep"
      using Some ab 1(2) by (subst split_on.simps) simp
    with 1 Some ab show ?thesis by (auto dest: cut_before)
  qed
qed

lemma split_parts_sublist: "p \<in> set (split_on s sep) \<Longrightarrow> sublist p s"
proof (induction s sep rule: split_on.induct)
  case (1 s sep)
  show ?case
  proof (cases "sep = [] \<or> cut s sep = None")
    case True
    then have "split_on s sep = [s]" by (subst split_on.simps) auto
    with 1(2) show ?thesis by simp
  next
    case False
    then obtain a b where ab: "sep \<noteq> []" "cut s sep = Some (a, b)" by auto
    then have "split_on s sep = a # split_on b sep" by (subst split_on.simps) simp
    moreover have "sublist a s" "sublist b s"
      using cut_Some [OF ab(2)] by (auto simp: sublist_append)
    ultimately show ?thesis
      using 1(1) [OF ab(1,2) refl] 1(2) by (auto intro: sublist_trans)
  qed
qed

lemma redact_removes: "redactable s \<Longrightarrow> \<not> sublist s (redact s msg)"
  by (auto simp: redact_def redactable_join replace_all_def dest: split_parts_free)
    (simp add: redactable_def)

lemma redact_keeps_out:
  assumes "redactable s" and "\<not> sublist s msg"
  shows "\<not> sublist s (redact k msg)"
  using assms split_parts_sublist [of _ msg k]
  by (auto simp: redact_def replace_all_def redactable_join intro: sublist_trans)

lemma redact_all_removes:
  assumes "redactable s" and "s \<in> set keys"
  shows "\<not> sublist s (fold redact keys msg)"
proof -
  obtain ks ks' where "keys = ks @ s # ks'" using assms(2) by (meson split_list)
  moreover have "\<not> sublist s m \<Longrightarrow> \<not> sublist s (fold redact ks' m)" for m
    by (induction ks' arbitrary: m) (simp_all add: redact_keeps_out assms(1))
  ultimately show ?thesis by (simp add: redact_removes assms(1))
qed

end
