(* ===== verification/Health.thy ===== *)
theory Health
  imports Breaker Provider_Errors "HOL-Library.Multiset"
begin

text \<open>
  The background health checks of \<^verbatim>\<open>internal/router/health.go\<close> and the merged view
  \<^verbatim>\<open>Engine.Health\<close> of \<^verbatim>\<open>router.go\<close>. \<open>probes\<close> maps each provider that failed its last probe to
  the failure. One round of \<^verbatim>\<open>CheckAll\<close> pings every provider in its own goroutine; each result
  is stored under the mutex, so a round is a sequence of \<open>check\<close>s in some order. The ticker
  loop of \<^verbatim>\<open>Run\<close> is a sequence of rounds.
\<close>

type_synonym probes = "(string, gerror) gomap"

definition new_probes :: probes where "new_probes = []"

definition healthy :: "string \<Rightarrow> probes \<Rightarrow> bool" where
  "healthy name p \<longleftrightarrow> map_of p name = None"

definition probes_set :: "string \<Rightarrow> gerror option \<Rightarrow> probes \<Rightarrow> bool \<times> probes" where
  "probes_set name err p =
     (let was_down = map_of p name \<noteq> None in
      case err of
        None \<Rightarrow> (was_down, map_del name p)
      | Some e \<Rightarrow> (\<not> was_down, map_put name e p))"

definition probes_snapshot :: "probes \<Rightarrow> (string, gerror) gomap" where
  "probes_snapshot p = p"

record health_check_policy =
  hc_interval :: duration
  hc_timeout :: duration

definition default_health_check :: health_check_policy where
  "default_health_check = \<lparr>hc_interval = 30 * second, hc_timeout = 5 * second\<rparr>"

definition new_health_checker :: "health_check_policy \<Rightarrow> health_check_policy" where
  "new_health_checker policy =
     (let p1 = (if hc_interval policy \<le> 0 then policy\<lparr>hc_interval := hc_interval default_health_check\<rparr> else policy)
      in if hc_timeout p1 \<le> 0 then p1\<lparr>hc_timeout := hc_timeout default_health_check\<rparr> else p1)"

text \<open>
  One probe's outcome: the error of \<^verbatim>\<open>Ping\<close>, and whether the checker's context ended
  meanwhile. The result carries what \<^verbatim>\<open>Engine.record\<close> sends to the recorder.
\<close>

definition check :: "string \<Rightarrow> gerror option \<Rightarrow> bool \<Rightarrow> probes \<Rightarrow> (string \<times> string) list \<times> probes" where
  "check name err ctx_done p =
     (if ctx_done then ([], p)
      else let (changed, p') = probes_set name err p in
        if \<not> changed then ([], p')
        else case err of
            Some _ \<Rightarrow> ([(name, ''health_check'')], p')
          | None \<Rightarrow> ([], p'))"

fun check_all :: "(string \<times> gerror option \<times> bool) list \<Rightarrow> probes \<Rightarrow> (string \<times> string) list \<times> probes" where
  "check_all [] p = ([], p)"
| "check_all ((name, err, ctx_done) # rs) p =
     (let (l, p') = check name err ctx_done p; (ls, p'') = check_all rs p' in (l @ ls, p''))"

definition skip_unhealthy :: "string \<Rightarrow> probes \<Rightarrow> gerror option" where
  "skip_unhealthy name p =
     (if healthy name p then None else Some (Wrapped ErrProviderUnhealthy name))"

definition zero_health :: provider_health where
  "zero_health = \<lparr>ph_provider = [], ph_state = CircuitClosed, ph_failures = 0, ph_opened_at = 0,
     ph_retry_at = 0, ph_last_probe_error = []\<rparr>"

definition mark_down ::
  "string \<times> gerror \<Rightarrow> (string, provider_health) gomap \<Rightarrow> (string, provider_health) gomap"
where
  "mark_down r out =
     (let h = (case map_of out (fst r) of Some h \<Rightarrow> h | None \<Rightarrow> zero_health)
      in map_put (fst r) (h\<lparr>ph_provider := fst r, ph_state := CircuitOpen,
                           ph_last_probe_error := error_text (snd r)\<rparr>) out)"

definition engine_health :: "breakers \<Rightarrow> probes \<Rightarrow> (string, provider_health) gomap" where
  "engine_health b p =
     fold mark_down (probes_snapshot p) (breakers_snapshot b)"

section \<open>Correctness\<close>

lemma probes_set_lookup [simp]:
  "map_of (snd (probes_set name err p)) = (map_of p)(name := err)"
  by (auto simp: probes_set_def Let_def split: option.split)

lemma probes_set_changed:
  "fst (probes_set name err p) \<longleftrightarrow> healthy name p \<noteq> healthy name (snd (probes_set name err p))"
  by (auto simp: probes_set_def healthy_def Let_def split: option.split)

lemma check_lookup:
  "map_of (snd (check name err ctx_done p)) =
     (if ctx_done then map_of p else (map_of p)(name := err))"
  by (auto simp: check_def Let_def split: option.split prod.split)
    (metis probes_set_lookup snd_conv)+

definition round_result :: "(string \<times> gerror option \<times> bool) list \<Rightarrow> string \<Rightarrow> gerror option option" where
  "round_result rs name = map_of (map (\<lambda>(n, e, d). (n, e)) (filter (\<lambda>(n, e, d). \<not> d) rs)) name"

lemma check_all_lookup:
  "distinct (map fst rs) \<Longrightarrow>
   map_of (snd (check_all rs p)) name =
     (case round_result rs name of Some err \<Rightarrow> err | None \<Rightarrow> map_of p name)"
proof (induction rs p rule: check_all.induct)
  case (2 n err d rs p)
  have "n \<notin> fst ` set rs" and d: "distinct (map fst rs)" using 2(2) by auto
  then have "round_result rs n = None"
    by (force simp: round_result_def map_of_eq_None_iff)
  moreover obtain l p1 where c: "check n err d p = (l, p1)" by force
  moreover have "map_of (snd (check_all rs p1)) name =
     (case round_result rs name of Some err \<Rightarrow> err | None \<Rightarrow> map_of p1 name)"
    using 2(1) [OF c [symmetric] refl d] .
  moreover have "map_of p1 = (if d then map_of p else (map_of p)(n := err))"
    using check_lookup [of n err d p] by (simp add: c)
  ultimately show ?case
    by (auto simp: Let_def round_result_def split: prod.splits option.splits)
qed (simp add: round_result_def)

text \<open>
  The outcome of a round of health checks does not depend on the order in which the
  concurrent probes finish: whatever the order, afterwards each probed provider is healthy
  exactly if its own probe succeeded, a probe cut short by shutdown changes nothing, and
  providers that were not probed keep their state.
\<close>

theorem check_all_order_irrelevant:
  assumes "distinct (map fst rs)" and "mset rs' = mset rs"
  shows "map_of (snd (check_all rs' p)) = map_of (snd (check_all rs p))
    \<and> (healthy name (snd (check_all rs p)) \<longleftrightarrow>
        (case round_result rs name of Some err \<Rightarrow> err = None | None \<Rightarrow> healthy name p))"
proof -
  have "distinct (map fst rs')"
    using assms by (metis mset_eq_imp_distinct_iff mset_map)
  moreover have "round_result rs' n = round_result rs n" for n
  proof -
    let ?f = "\<lambda>rs. map (\<lambda>(n, e, d). (n, e)) (filter (\<lambda>(n, e, d). \<not> d) (rs :: (string \<times> gerror option \<times> bool) list))"
    have wf: "distinct (map fst (?f rs))" if "distinct (map fst rs)" for rs
      using that by (induction rs) (auto, force)
    have "set (?f rs') = set (?f rs)" using mset_eq_setD [OF assms(2)] by simp
    then show ?thesis
      unfolding round_result_def
      using wf [OF assms(1)] wf [OF \<open>distinct (map fst rs')\<close>] map_of_inject_set by metis
  qed
  ultimately show ?thesis
    using assms(1) by (auto simp: fun_eq_iff check_all_lookup healthy_def split: option.splits)
qed

theorem check_all_order_irrelevant_witness:
  "let rs = [(''a'', Some (Sentinel ErrConnection), False), (''b'', None, False)]
   in map_of (snd (check_all (rev rs) [(''b'', Sentinel ErrTimeout)])) =
      map_of (snd (check_all rs [(''b'', Sentinel ErrTimeout)]))"
  unfolding Let_def
  by (rule check_all_order_irrelevant [THEN conjunct1]) simp_all

lemma mark_down_fold:
  "map_wf p \<Longrightarrow> map_of (fold mark_down p m) n =
   (case map_of p n of
      None \<Rightarrow> map_of m n
    | Some err \<Rightarrow> Some ((case map_of m n of Some h \<Rightarrow> h | None \<Rightarrow> zero_health)
        \<lparr>ph_provider := n, ph_state := CircuitOpen, ph_last_probe_error := error_text err\<rparr>))"
proof (induction p arbitrary: m)
  case (Cons kv p)
  obtain k err where kv: "kv = (k, err)" by force
  have "map_wf p" and "map_of p k = None"
    using Cons.prems by (auto simp: kv map_wf_def map_of_eq_None_iff)
  with Cons.IH show ?case by (auto simp: kv mark_down_def Let_def split: option.split)
qed simp

text \<open>
  The health report shows a provider as open as soon as its last probe failed, with the
  probe's error, keeping the breaker's counts; a provider that passed (or never had) a probe
  shows its breaker alone, and one never called nor failed is absent.
\<close>

theorem engine_health_merges:
  assumes "map_wf p"
  shows "map_of (engine_health b p) n =
    (case map_of p n of
       Some err \<Rightarrow> Some ((case map_of (breakers_snapshot b) n of Some h \<Rightarrow> h | None \<Rightarrow> zero_health)
          \<lparr>ph_provider := n, ph_state := CircuitOpen, ph_last_probe_error := error_text err\<rparr>)
     | None \<Rightarrow> map_option (breaker_health b n) (map_of (bs_state b) n))"
  unfolding engine_health_def probes_snapshot_def
  by (simp add: mark_down_fold [OF assms] breakers_snapshot_def map_of_map_vals
      split: option.split)

theorem engine_health_merges_witness:
  "map_option ph_state (map_of (engine_health (new_breakers default_breaker)
     [(''a'', Sentinel ErrTimeout)]) ''a'') = Some CircuitOpen"
proof -
  have "map_wf [(''a'', Sentinel ErrTimeout)]" by (simp add: map_wf_def)
  from engine_health_merges [OF this, of "new_breakers default_breaker" "''a''"]
  show ?thesis by simp
qed

end
