(* ===== verification/Rolling_Stats.thy ===== *)
theory Rolling_Stats
  imports Go_Strings
begin

text \<open>
  The rolling request statistics of \<^verbatim>\<open>internal/router/stats.go\<close> and \<^verbatim>\<open>percentile.go\<close>: a ring
  buffer of the last 200 requests per alias, and the aggregate over it. Each ring is locked on
  its own; a \<open>record\<close> or a read is one atomic step. Rates are exact rationals; with at most a
  few thousand samples \<^verbatim>\<open>math.Ceil(p/100*n)\<close> in \<^verbatim>\<open>float64\<close> gives the same rank for the one
  percentile the code asks for.
\<close>

record request_metric =
  rm_alias :: string
  rm_success :: bool
  rm_ttfb_ms :: int
  rm_latency_ms :: int
  rm_timestamp :: instant

definition zero_metric :: request_metric where
  "zero_metric = \<lparr>rm_alias = [], rm_success = False, rm_ttfb_ms = 0, rm_latency_ms = 0, rm_timestamp = 0\<rparr>"

definition stats_window :: nat where "stats_window = 200"
definition min_confident_samples :: nat where "min_confident_samples = 10"

section \<open>The ring\<close>

record ring =
  ring_samples :: "request_metric list"
  ring_next :: nat
  ring_full :: bool

definition new_ring :: "nat \<Rightarrow> ring" where
  "new_ring capacity = \<lparr>ring_samples = replicate capacity zero_metric, ring_next = 0, ring_full = False\<rparr>"

definition ring_add :: "request_metric \<Rightarrow> ring \<Rightarrow> ring" where
  "ring_add m r =
     (let n = (ring_next r + 1) mod length (ring_samples r)
      in \<lparr>ring_samples = (ring_samples r)[ring_next r := m], ring_next = n,
          ring_full = ring_full r \<or> n = 0\<rparr>)"

definition ring_snapshot :: "ring \<Rightarrow> request_metric list" where
  "ring_snapshot r =
     (if \<not> ring_full r then take (ring_next r) (ring_samples r)
      else drop (ring_next r) (ring_samples r) @ take (ring_next r) (ring_samples r))"

section \<open>Aggregates\<close>

datatype confidence = ConfidenceLow | ConfidenceHigh

definition confidence_of :: "nat \<Rightarrow> confidence" where
  "confidence_of samples = (if samples < min_confident_samples then ConfidenceLow else ConfidenceHigh)"

definition success_rate :: "nat \<Rightarrow> nat \<Rightarrow> rat" where
  "success_rate succeeded n =
     (if n = 0 then 0 else of_nat succeeded / of_nat n * 100)"

definition percentile :: "int list \<Rightarrow> rat \<Rightarrow> int" where
  "percentile xs p =
     (if xs = [] then 0
      else if p \<le> 0 then xs ! 0
      else if p \<ge> 100 then xs ! (length xs - 1)
      else let rank = \<lceil>p / 100 * of_nat (length xs)\<rceil>;
               rank' = (if rank < 1 then 1 else rank)
           in xs ! nat (rank' - 1))"

definition median :: "int list \<Rightarrow> int" where
  "median xs =
     (let n = length xs in
      if n = 0 then 0
      else if n mod 2 = 1 then xs ! (n div 2)
      else wrap64 (xs ! (n div 2 - 1) + xs ! (n div 2)) sdiv 2)"

definition tail :: "int list \<Rightarrow> int option" where
  "tail xs = (if length xs < min_confident_samples then None else Some (percentile xs 95))"

fun split_window :: "request_metric list \<Rightarrow> int list \<times> int list \<times> nat \<times> instant" where
  "split_window [] = ([], [], 0, 0)"
| "split_window (m # ms) =
     (let (ls, ts, k, u) = split_window ms
      in (rm_latency_ms m # ls,
          if rm_ttfb_ms m > 0 then rm_ttfb_ms m # ts else ts,
          if rm_success m then k + 1 else k,
          max (rm_timestamp m) u))"

record alias_stats =
  as_alias :: string
  as_ttfb_ms :: int
  as_p50_ms :: int
  as_p95_ms :: "int option"
  as_success_rate :: rat
  as_requests :: nat
  as_confidence :: confidence
  as_updated_at :: instant

definition aggregate :: "string \<Rightarrow> request_metric list \<Rightarrow> alias_stats" where
  "aggregate name samples =
     (let (latencies, ttfbs, succeeded, updated) = split_window samples;
          latencies = sort latencies; ttfbs = sort ttfbs
      in \<lparr>as_alias = name, as_ttfb_ms = median ttfbs, as_p50_ms = median latencies,
          as_p95_ms = tail latencies, as_success_rate = success_rate succeeded (length samples),
          as_requests = length samples, as_confidence = confidence_of (length samples),
          as_updated_at = updated\<rparr>)"

section \<open>The collector\<close>

type_synonym stats = "(string, ring) gomap"

definition new_stats :: stats where "new_stats = []"

definition stats_window_of :: "string \<Rightarrow> stats \<Rightarrow> ring" where
  "stats_window_of a s = (case map_of s a of Some r \<Rightarrow> r | None \<Rightarrow> new_ring stats_window)"

definition stats_record :: "instant \<Rightarrow> request_metric \<Rightarrow> stats \<Rightarrow> stats" where
  "stats_record now m s =
     (if rm_alias m = [] then s
      else let m = (if rm_timestamp m = 0 then m\<lparr>rm_timestamp := now\<rparr> else m)
           in map_put (rm_alias m) (ring_add m (stats_window_of (rm_alias m) s)) s)"

definition stats_alias :: "string \<Rightarrow> stats \<Rightarrow> alias_stats option" where
  "stats_alias a s = (case map_of s a of
      None \<Rightarrow> None
    | Some r \<Rightarrow> (let samples = ring_snapshot r
                 in if samples = [] then None else Some (aggregate a samples)))"

definition stats_summary :: "string list \<Rightarrow> stats \<Rightarrow> alias_stats option" where
  "stats_summary aliases s =
     (let pooled = concat (map (\<lambda>a. case map_of s a of None \<Rightarrow> [] | Some r \<Rightarrow> ring_snapshot r) aliases)
      in if pooled = [] then None else Some (aggregate [] pooled))"

section \<open>The ring keeps the newest samples\<close>

definition last_n :: "nat \<Rightarrow> 'a list \<Rightarrow> 'a list" where
  "last_n n xs = drop (length xs - n) xs"

text \<open>The layout of a ring that has seen the samples \<open>ms\<close>, oldest first.\<close>

definition ring_holds :: "nat \<Rightarrow> request_metric list \<Rightarrow> ring \<Rightarrow> bool" where
  "ring_holds c ms r \<longleftrightarrow>
     length (ring_samples r) = c \<and> ring_next r = length ms mod c \<and> ring_next r < c \<and>
     (ring_full r \<longleftrightarrow> length ms \<ge> c) \<and> ring_snapshot r = last_n c ms"

lemma ring_holds_new: "0 < c \<Longrightarrow> ring_holds c [] (new_ring c)"
  by (simp add: ring_holds_def new_ring_def ring_snapshot_def last_n_def)

lemma take_update_next: "n < length xs \<Longrightarrow> take (Suc n) (xs[n := x]) = take n xs @ [x]"
  by (simp add: take_Suc_conv_app_nth)

lemma ring_holds_add:
  assumes "ring_holds c ms r"
  shows "ring_holds c (ms @ [m]) (ring_add m r)"
proof -
  have h: "length (ring_samples r) = c" "ring_next r = length ms mod c" "ring_next r < c"
    "ring_full r \<longleftrightarrow> length ms \<ge> c" "ring_snapshot r = last_n c ms"
    using assms by (auto simp: ring_holds_def)
  let ?k = "ring_next r" and ?xs = "ring_samples r"
  have next': "(?k + 1) mod c = length (ms @ [m]) mod c"
    by (simp add: h(2) mod_Suc_eq)
  show ?thesis
  proof (cases "length ms < c")
    case True
    then have k: "?k = length ms" and ms: "take ?k ?xs = ms"
      using h by (auto simp: ring_snapshot_def last_n_def)
    show ?thesis
    proof (cases "length ms + 1 = c")
      case True
      then have "?xs[?k := m] = ms @ [m]"
        using ms h(1) k take_update_next [of ?k ?xs m] by simp
      then show ?thesis
        using True h k by (simp add: ring_holds_def ring_add_def ring_snapshot_def last_n_def)
    next
      case False
      with \<open>length ms < c\<close> have "length ms + 1 < c" by simp
      then show ?thesis
        using h k ms take_update_next [of ?k ?xs m]
        by (simp add: ring_holds_def ring_add_def ring_snapshot_def last_n_def)
    qed
  next
    case False
    then have full: "ring_full r" and snap: "drop ?k ?xs @ take ?k ?xs = drop (length ms - c) ms"
      using h by (auto simp: ring_snapshot_def last_n_def)
    have "drop ?k ?xs = ?xs ! ?k # drop (Suc ?k) ?xs"
      using h(1,3) by (simp add: Cons_nth_drop_Suc)
    then have rest: "drop (Suc ?k) ?xs @ take ?k ?xs = drop (Suc (length ms - c)) ms"
      using snap by (metis append_Cons drop_Suc tl_drop list.sel(3))
    have goal: "last_n c (ms @ [m]) = drop (Suc (length ms - c)) ms @ [m]"
        using False h(3) by (simp add: last_n_def Suc_diff_le)
    show ?thesis
    proof (cases "Suc ?k = c")
      case True
      then have "drop (Suc ?k) ?xs = []" using h(1) by simp
      with True show ?thesis
        using h rest goal False next' full take_update_next [of ?k ?xs m]
        by (simp add: ring_holds_def ring_add_def ring_snapshot_def)
    next
      case False
      then have "Suc ?k < c" using h(3) by simp
      then show ?thesis
        using h rest goal next' full take_update_next [of ?k ?xs m] \<open>\<not> length ms < c\<close>
        by (simp add: ring_holds_def ring_add_def ring_snapshot_def)
    qed
  qed
qed

lemma ring_holds_fold: "0 < c \<Longrightarrow> ring_holds c ms (fold ring_add ms (new_ring c))"
  by (induction ms rule: rev_induct) (simp_all add: ring_holds_new ring_holds_add)


text \<open>A measurement as it is stored: an unset time stamp is replaced by the clock.\<close>

definition stamp :: "instant \<Rightarrow> request_metric \<Rightarrow> request_metric" where
  "stamp now m = (if rm_timestamp m = 0 then m\<lparr>rm_timestamp := now\<rparr> else m)"

definition recorded_for :: "string \<Rightarrow> (instant \<times> request_metric) list \<Rightarrow> request_metric list" where
  "recorded_for a rs = map (\<lambda>(now, m). stamp now m) (filter (\<lambda>(now, m). rm_alias m = a) rs)"

abbreviation record_all :: "(instant \<times> request_metric) list \<Rightarrow> stats \<Rightarrow> stats" where
  "record_all rs \<equiv> fold (\<lambda>(now, m). stats_record now m) rs"

lemma stamp_alias [simp]: "rm_alias (stamp now m) = rm_alias m"
  by (simp add: stamp_def)

lemma stats_record_lookup:
  "map_of (stats_record now m s) a =
     (if rm_alias m = a \<and> a \<noteq> [] then Some (ring_add (stamp now m) (stats_window_of a s)) else map_of s a)"
  by (simp only: stats_record_def Let_def flip: stamp_def) auto

lemma recorded_for_snoc:
  "recorded_for a (rs @ [(now, m)]) =
     recorded_for a rs @ (if rm_alias m = a then [stamp now m] else [])"
  by (simp add: recorded_for_def)

lemma stats_windows:
  "a \<noteq> [] \<Longrightarrow> map_of (record_all rs new_stats) a =
     (if recorded_for a rs = [] then None
      else Some (fold ring_add (recorded_for a rs) (new_ring stats_window)))"
proof (induction rs rule: rev_induct)
  case (snoc r rs)
  obtain now m where r: "r = (now, m)" by force
  from snoc show ?case
    by (simp add: r recorded_for_snoc stats_record_lookup stats_window_of_def)
qed (simp add: recorded_for_def new_stats_def)

lemma last_n_nonempty: "0 < c \<Longrightarrow> last_n c xs = [] \<longleftrightarrow> xs = []"
  by (cases xs) (auto simp: last_n_def)

text \<open>
  The reported statistics of an alias are the aggregate of exactly its newest 200
  measurements, oldest first, however measurements of other aliases interleave; an alias
  never measured has none.
\<close>

theorem stats_alias_window:
  assumes "a \<noteq> []"
  shows "stats_alias a (record_all rs new_stats) =
    (if recorded_for a rs = [] then None
     else Some (aggregate a (last_n stats_window (recorded_for a rs))))"
proof -
  have "0 < stats_window" by (simp add: stats_window_def)
  then have "ring_snapshot (fold ring_add (recorded_for a rs) (new_ring stats_window)) =
      last_n stats_window (recorded_for a rs)"
    using ring_holds_fold by (auto simp: ring_holds_def)
  then show ?thesis
    using \<open>0 < stats_window\<close>
    by (simp add: stats_alias_def stats_windows [OF assms] last_n_nonempty Let_def)
qed

definition example_metric :: "string \<Rightarrow> int \<Rightarrow> request_metric" where
  "example_metric a ms = \<lparr>rm_alias = a, rm_success = True, rm_ttfb_ms = 5, rm_latency_ms = ms, rm_timestamp = 1\<rparr>"

theorem stats_alias_window_witness:
  "stats_alias ''m'' (record_all [(1, example_metric ''m'' 30), (2, example_metric ''n'' 7), (3, example_metric ''m'' 10)] new_stats)
   = Some (aggregate ''m'' [example_metric ''m'' 30, example_metric ''m'' 10])"
proof -
  let ?rs = "[(1, example_metric ''m'' 30), (2, example_metric ''n'' 7), (3, example_metric ''m'' 10)]"
  have "recorded_for ''m'' ?rs = [example_metric ''m'' 30, example_metric ''m'' 10]"
    by (simp add: recorded_for_def stamp_def example_metric_def)
  then show ?thesis
    using stats_alias_window [of "''m''" ?rs] by (simp add: last_n_def stats_window_def)
qed

section \<open>Percentiles\<close>

lemma filter_le_take:
  assumes "sorted xs" and "k < length xs"
  shows "k < length (filter (\<lambda>x. x \<le> xs ! k) xs)"
    and "w < xs ! k \<Longrightarrow> length (filter (\<lambda>x. x \<le> w) xs) \<le> k"
proof -
  have split: "filter P xs = filter P (take n xs) @ filter P (drop n xs)" for P n
    by (metis append_take_drop_id filter_append)
  have "x \<le> xs ! k" if x: "x \<in> set (take (Suc k) xs)" for x
  proof -
    obtain i where "i < Suc k" and "x = xs ! i" using x by (auto simp: in_set_conv_nth)
    then show ?thesis using sorted_nth_mono [OF assms(1), of i k] assms(2) by simp
  qed
  then have "filter (\<lambda>x. x \<le> xs ! k) (take (Suc k) xs) = take (Suc k) xs"
    by (simp add: filter_id_conv)
  then show "k < length (filter (\<lambda>x. x \<le> xs ! k) xs)"
    using assms(2) by (simp add: split [of _ "Suc k"])
next
  assume w: "w < xs ! k"
  have split: "filter P xs = filter P (take n xs) @ filter P (drop n xs)" for P n
    by (metis append_take_drop_id filter_append)
  have "xs ! k \<le> x" if "x \<in> set (drop k xs)" for x
    using that assms by (auto simp: in_set_conv_nth intro!: sorted_nth_mono)
  then have "filter (\<lambda>x. x \<le> w) (drop k xs) = []"
    using w by (force simp: filter_empty_conv)
  then show "length (filter (\<lambda>x. x \<le> w) xs) \<le> k"
    using assms(2) by (simp add: split [of _ k])
      (metis length_filter_le length_take min.absorb2 less_imp_le)
qed

text \<open>
  Nearest rank. For sorted samples and a percentage strictly between 0 and 100, the
  percentile is an observed sample, at least that share of the samples is no greater, and it
  is the smallest sample with this property.
\<close>

theorem percentile_nearest_rank:
  assumes "sorted xs" and "xs \<noteq> []" and "0 < p" and "p < 100"
  shows "percentile xs p \<in> set xs
    \<and> p / 100 * of_nat (length xs) \<le> of_nat (length (filter (\<lambda>x. x \<le> percentile xs p) xs))
    \<and> (\<forall>w < percentile xs p. of_nat (length (filter (\<lambda>x. x \<le> w) xs)) < p / 100 * of_nat (length xs))"
proof -
  let ?x = "p / 100 * of_nat (length xs) :: rat"
  let ?k = "nat (\<lceil>?x\<rceil> - 1)"
  have n: "(0 :: rat) < of_nat (length xs)" using assms(2) by simp
  then have pos: "0 < ?x" using assms(3) by simp
  then have c1: "1 \<le> \<lceil>?x\<rceil>" by (simp add: one_le_ceiling)
  have "?x < 1 * of_nat (length xs)"
    using n assms(4) by (intro mult_strict_right_mono) simp_all
  then have "\<lceil>?x\<rceil> \<le> int (length xs)" by (simp add: ceiling_le_iff)
  then have k: "?k < length xs" using c1 by linarith
  have v: "percentile xs p = xs ! ?k"
    using assms(2-4) c1 by (simp add: percentile_def Let_def)
  have kx: "(of_nat ?k :: rat) < ?x" and xk: "?x \<le> of_nat (Suc ?k)"
    using c1 by (simp_all add: of_nat_nat) linarith+
  have "?x \<le> of_nat (length (filter (\<lambda>x. x \<le> xs ! ?k) xs))"
    using filter_le_take(1) [OF assms(1) k] xk
    by (meson Suc_leI of_nat_le_iff order_trans)
  moreover have "of_nat (length (filter (\<lambda>x. x \<le> w) xs)) < ?x" if "w < xs ! ?k" for w
    using filter_le_take(2) [OF assms(1) k that] kx by (meson of_nat_le_iff order_le_less_trans)
  ultimately show ?thesis using k by (simp add: v)
qed

theorem percentile_nearest_rank_witness:
  "percentile [1, 2, 3, 4, 5, 6, 7, 8, 9, 10, 11, 12, 13, 14, 15, 16, 17, 18, 19, 1000] 95 = 19
   \<and> percentile [1, 2, 3, 4, 5, 6, 7, 8, 9, 10, 11, 12, 13, 14, 15, 16, 17, 18, 19, 1000] 95 \<in> set
       [1, 2, 3, 4, 5, 6, 7, 8, 9, 10, 11, 12, 13, 14, 15, 16, 17, 18, 19, 1000]"
proof
  let ?xs = "[1, 2, 3, 4, 5, 6, 7, 8, 9, 10, 11, 12, 13, 14, 15, 16, 17, 18, 19, 1000] :: int list"
  show "percentile ?xs 95 = 19" by (simp add: percentile_def)
  show "percentile ?xs 95 \<in> set ?xs"
    by (rule percentile_nearest_rank [THEN conjunct1]) simp_all
qed

end
