(* ===== verification/Go_Json.thy ===== *)
theory Go_Json
  imports Go_Strings
begin

text \<open>
  The part of \<^verbatim>\<open>encoding/json\<close> the router uses: parsing a byte string, the raw text of
  every value (\<^verbatim>\<open>json.RawMessage\<close>), decoding into Go strings, integers and slices, and
  quoting strings. Every node carries the text it was parsed from. An empty
  \<^verbatim>\<open>RawMessage\<close> (an absent field) is \<open>None\<close>; a non-empty one inside a decoded document is
  always a well-formed value.

  The parser takes fuel, two units per input byte and two more; every recursive call
  spends one and every second call consumes at least one byte, so it is never exhausted.
  Go's nesting limit of 10000 levels is not modelled.
\<close>

datatype json =
    JNull (raw: string)
  | JBool (raw: string) bool
  | JNum (raw: string)
  | JStr (raw: string) string
  | JArr (raw: string) "json list"
  | JObj (raw: string) "(string \<times> json) list"

type_synonym raw_message = "json option"

section \<open>Lexical parts\<close>

definition json_space :: "char \<Rightarrow> bool" where
  "json_space c = (c = CHR '' '' \<or> c = CHR 0x09 \<or> c = CHR 0x0A \<or> c = CHR 0x0D)"

definition skip_ws :: "string \<Rightarrow> string" where "skip_ws s = dropWhile json_space s"

definition hex_value :: "char \<Rightarrow> nat option" where
  "hex_value c =
     (if is_digit c then Some (of_char c - 48)
      else if CHR ''a'' \<le> c \<and> c \<le> CHR ''f'' then Some (of_char c - 87)
      else if CHR ''A'' \<le> c \<and> c \<le> CHR ''F'' then Some (of_char c - 55)
      else None)"

definition hex4 :: "string \<Rightarrow> nat option" where
  "hex4 s = (if length s < 4 then None else
     foldl (\<lambda>acc c. case (acc, hex_value c) of (Some n, Some d) \<Rightarrow> Some (n * 16 + d) | _ \<Rightarrow> None)
       (Some 0) (take 4 s))"

definition utf8_encode :: "nat \<Rightarrow> string" where
  "utf8_encode n =
     (if n < 128 then [char_of n]
      else if n < 2048 then [char_of (192 + n div 64), char_of (128 + n mod 64)]
      else if n < 65536 then
        [char_of (224 + n div 4096), char_of (128 + n div 64 mod 64), char_of (128 + n mod 64)]
      else
        [char_of (240 + n div 262144), char_of (128 + n div 4096 mod 64),
         char_of (128 + n div 64 mod 64), char_of (128 + n mod 64)])"

text \<open>The code unit of a \<^verbatim>\<open>\u\<close> escape and what follows; a surrogate pair is one rune and a
  lone surrogate becomes U+FFFD.\<close>

definition unicode_escape :: "string \<Rightarrow> (string \<times> string) option" where
  "unicode_escape s = (case hex4 s of
      None \<Rightarrow> None
    | Some u \<Rightarrow>
        (let r = drop 4 s in
         if 0xD800 \<le> u \<and> u < 0xE000 then
           (case (if prefix [CHR 0x5C, CHR ''u''] r then hex4 (drop 2 r) else None) of
              Some v \<Rightarrow>
                if u < 0xDC00 \<and> 0xDC00 \<le> v \<and> v < 0xE000
                then Some (utf8_encode (0x10000 + (u - 0xD800) * 0x400 + (v - 0xDC00)), drop 6 r)
                else Some (utf8_encode 0xFFFD, r)
            | None \<Rightarrow> Some (utf8_encode 0xFFFD, r))
         else Some (utf8_encode u, r)))"

definition simple_escape :: "char \<Rightarrow> char option" where
  "simple_escape c =
     (if c = CHR 0x22 \<or> c = CHR 0x5C \<or> c = CHR ''/'' then Some c
      else if c = CHR ''b'' then Some (CHR 0x08)
      else if c = CHR ''f'' then Some (CHR 0x0C)
      else if c = CHR ''n'' then Some (CHR 0x0A)
      else if c = CHR ''r'' then Some (CHR 0x0D)
      else if c = CHR ''t'' then Some (CHR 0x09)
      else None)"

text \<open>The body of a string literal after its opening quote.\<close>

function str_body :: "string \<Rightarrow> (string \<times> string) option" where
  "str_body s = (case s of
      [] \<Rightarrow> None
    | c # cs \<Rightarrow>
        if c = CHR 0x22 then Some ([], cs)
        else if c < CHR 0x20 then None
        else if c \<noteq> CHR 0x5C then
          (case str_body cs of None \<Rightarrow> None | Some (t, r) \<Rightarrow> Some (c # t, r))
        else (case cs of
            [] \<Rightarrow> None
          | e # es \<Rightarrow>
              if e = CHR ''u'' then
                (case unicode_escape es of
                   None \<Rightarrow> None
                 | Some (u, rest) \<Rightarrow>
                     if length rest \<ge> length s then None
                     else (case str_body rest of None \<Rightarrow> None | Some (t, r) \<Rightarrow> Some (u @ t, r)))
              else (case simple_escape e of
                  None \<Rightarrow> None
                | Some d \<Rightarrow>
                    (case str_body es of None \<Rightarrow> None | Some (t, r) \<Rightarrow> Some (d # t, r)))))"
  by pat_completeness auto
termination by (relation "measure length") auto

declare str_body.simps [simp del]

text \<open>A number literal is the longest run of number characters, if it fits the grammar.\<close>

definition number_char :: "char \<Rightarrow> bool" where
  "number_char c = (is_digit c \<or> c \<in> set ''+-.eE'')"

definition digits1 :: "string \<Rightarrow> string option" where
  "digits1 s = (if takeWhile is_digit s = [] then None else Some (dropWhile is_digit s))"

definition valid_number :: "string \<Rightarrow> bool" where
  "valid_number s =
     (let s1 = trim_prefix s ''-'';
          s2 = (if prefix ''0'' s1 then Some (drop 1 s1) else digits1 s1);
          s3 = (case s2 of Some (c # r) \<Rightarrow> if c = CHR ''.'' then digits1 r else s2 | _ \<Rightarrow> s2);
          s4 = (case s3 of
                  Some (c # r) \<Rightarrow>
                    if c = CHR ''e'' \<or> c = CHR ''E''
                    then digits1 (if prefix ''+'' r \<or> prefix ''-'' r then drop 1 r else r)
                    else s3
                | _ \<Rightarrow> s3)
      in s4 = Some [])"

section \<open>Values\<close>

definition consumed :: "string \<Rightarrow> string \<Rightarrow> string" where
  "consumed s r = take (length s - length r) s"

definition json_word :: "string \<Rightarrow> (json \<times> string) option" where
  "json_word s =
     (if prefix ''null'' s then Some (JNull ''null'', drop 4 s)
      else if prefix ''true'' s then Some (JBool ''true'' True, drop 4 s)
      else if prefix ''false'' s then Some (JBool ''false'' False, drop 5 s)
      else (let n = takeWhile number_char s in
            if valid_number n then Some (JNum n, drop (length n) s) else None))"

fun json_value :: "nat \<Rightarrow> string \<Rightarrow> (json \<times> string) option"
and json_elems :: "nat \<Rightarrow> string \<Rightarrow> (json list \<times> string) option"
and json_members :: "nat \<Rightarrow> string \<Rightarrow> ((string \<times> json) list \<times> string) option"
where
  "json_value 0 s = None"
| "json_value (Suc n) s = (case skip_ws s of
      [] \<Rightarrow> None
    | c # cs \<Rightarrow>
        if c = CHR 0x22 then
          (case str_body cs of None \<Rightarrow> None | Some (t, r) \<Rightarrow> Some (JStr (consumed (c # cs) r) t, r))
        else if c = CHR ''['' then
          (if prefix '']'' (skip_ws cs)
           then (let r = drop 1 (skip_ws cs) in Some (JArr (consumed (c # cs) r) [], r))
           else (case json_elems n cs of
                   None \<Rightarrow> None | Some (vs, r) \<Rightarrow> Some (JArr (consumed (c # cs) r) vs, r)))
        else if c = CHR ''{'' then
          (if prefix ''}'' (skip_ws cs)
           then (let r = drop 1 (skip_ws cs) in Some (JObj (consumed (c # cs) r) [], r))
           else (case json_members n cs of
                   None \<Rightarrow> None | Some (ms, r) \<Rightarrow> Some (JObj (consumed (c # cs) r) ms, r)))
        else json_word (c # cs))"
| "json_elems 0 s = None"
| "json_elems (Suc n) s = (case json_value n s of
      None \<Rightarrow> None
    | Some (v, r) \<Rightarrow> (case skip_ws r of
          [] \<Rightarrow> None
        | c # cs \<Rightarrow>
            if c = CHR '']'' then Some ([v], cs)
            else if c = CHR '','' then
              (case json_elems n cs of None \<Rightarrow> None | Some (vs, r') \<Rightarrow> Some (v # vs, r'))
            else None))"
| "json_members 0 s = None"
| "json_members (Suc n) s = (case skip_ws s of
      [] \<Rightarrow> None
    | q # qs \<Rightarrow>
        if q \<noteq> CHR 0x22 then None
        else (case str_body qs of
            None \<Rightarrow> None
          | Some (k, r) \<Rightarrow>
              if \<not> prefix '':'' (skip_ws r) then None
              else (case json_value n (drop 1 (skip_ws r)) of
                  None \<Rightarrow> None
                | Some (v, r1) \<Rightarrow> (case skip_ws r1 of
                      [] \<Rightarrow> None
                    | c # cs \<Rightarrow>
                        if c = CHR ''}'' then Some ([(k, v)], cs)
                        else if c = CHR '','' then
                          (case json_members n cs of
                             None \<Rightarrow> None | Some (ms, r') \<Rightarrow> Some ((k, v) # ms, r'))
                        else None))))"

definition json_parse :: "string \<Rightarrow> json option" where
  "json_parse s = (case json_value (2 * length s + 2) s of
      None \<Rightarrow> None
    | Some (v, r) \<Rightarrow> if skip_ws r = [] then Some v else None)"

section \<open>Decoding\<close>

text \<open>Decoding \<^verbatim>\<open>null\<close> leaves the zero value in place and is no error.\<close>

fun as_string :: "json \<Rightarrow> string option" where
  "as_string (JStr _ s) = Some s"
| "as_string (JNull _) = Some []"
| "as_string _ = None"

fun as_int :: "json \<Rightarrow> int option" where
  "as_int (JNum r) = atoi r"
| "as_int (JNull _) = Some 0"
| "as_int _ = None"

fun as_array :: "json \<Rightarrow> json list option" where
  "as_array (JArr _ vs) = Some vs"
| "as_array (JNull _) = Some []"
| "as_array _ = None"

fun as_object :: "json \<Rightarrow> (string \<times> json) list option" where
  "as_object (JObj _ ms) = Some ms"
| "as_object (JNull _) = Some []"
| "as_object _ = None"

text \<open>Decoding into a map keeps the last of several members with one key.\<close>

definition map_member :: "string \<Rightarrow> (string \<times> json) list \<Rightarrow> json option" where
  "map_member k ms = map_of (rev ms) k"

text \<open>Decoding into a struct matches keys without regard to case, the last one winning.\<close>

definition struct_member :: "string \<Rightarrow> (string \<times> json) list \<Rightarrow> json option" where
  "struct_member k ms = map_option snd (find (\<lambda>(k', v). equal_fold k' k) (rev ms))"

definition raw_len :: "raw_message \<Rightarrow> int" where
  "raw_len r = (case r of None \<Rightarrow> 0 | Some v \<Rightarrow> int (length (raw v)))"

text \<open>\<^verbatim>\<open>json.Unmarshal(raw, &s)\<close> for a string \<^verbatim>\<open>s\<close>; no input is an error.\<close>

definition unmarshal_string :: "raw_message \<Rightarrow> string option" where
  "unmarshal_string r = Option.bind r as_string"

definition unmarshal_int :: "raw_message \<Rightarrow> int option" where
  "unmarshal_int r = Option.bind r as_int"

text \<open>A string field of a struct, when the caller ignores type errors.\<close>

definition string_field :: "string \<Rightarrow> (string \<times> json) list \<Rightarrow> string" where
  "string_field k ms = (case unmarshal_string (struct_member k ms) of None \<Rightarrow> [] | Some s \<Rightarrow> s)"

section \<open>Quoting\<close>

definition hex_char :: "nat \<Rightarrow> char" where
  "hex_char d = (if d < 10 then char_of (48 + d) else char_of (87 + d))"

definition quote_char :: "char \<Rightarrow> string" where
  "quote_char c =
     (if c = CHR 0x22 \<or> c = CHR 0x5C then [CHR 0x5C, c]
      else if c = CHR 0x0A then [CHR 0x5C, CHR ''n'']
      else if c = CHR 0x0D then [CHR 0x5C, CHR ''r'']
      else if c = CHR 0x09 then [CHR 0x5C, CHR ''t'']
      else if c = CHR 0x08 then [CHR 0x5C, CHR ''b'']
      else if c = CHR 0x0C then [CHR 0x5C, CHR ''f'']
      else if c < CHR 0x20 \<or> c = CHR ''<'' \<or> c = CHR ''>'' \<or> c = CHR ''&'' then
        [CHR 0x5C, CHR ''u'', CHR ''0'', CHR ''0'',
         hex_char (of_char c div 16), hex_char (of_char c mod 16)]
      else [c])"

definition json_quote :: "string \<Rightarrow> string" where
  "json_quote s = [CHR 0x22] @ concat (map quote_char s) @ [CHR 0x22]"

definition json_of_string :: "string \<Rightarrow> json" where
  "json_of_string s = JStr (json_quote s) s"

definition json_of_int :: "int \<Rightarrow> json" where
  "json_of_int i = JNum (show_int i)"

text \<open>What a decoder reads back from a quoted string.\<close>

lemma str_body_quote_char:
  assumes "str_body r = Some (t, r')"
  shows "str_body (quote_char c @ r) = Some (c # t, r')"
proof -
  have hex: "c < CHR 0x20 \<or> c = CHR ''<'' \<or> c = CHR ''>'' \<or> c = CHR ''&'' \<Longrightarrow>
    unicode_escape (CHR ''0'' # CHR ''0'' # hex_char (of_char c div 16) # hex_char (of_char c mod 16) # r)
      = Some ([c], r)"
  proof -
    assume "c < CHR 0x20 \<or> c = CHR ''<'' \<or> c = CHR ''>'' \<or> c = CHR ''&''"
    then have small: "(of_char c :: nat) < 64" by (auto simp: less_char_def)
    have dig: "hex_value (hex_char d) = Some d" if "d < 16" for d
      using that by (auto simp: hex_value_def hex_char_def is_digit_def less_eq_char_def)
    have zero: "hex_value (CHR ''0'') = Some 0"
      by (simp add: hex_value_def is_digit_def less_eq_char_def)
    have "of_char c div 16 < (16 :: nat)" "of_char c mod 16 < (16 :: nat)" using small by auto
    then have "hex4 (CHR ''0'' # CHR ''0'' # hex_char (of_char c div 16) # hex_char (of_char c mod 16) # r)
      = Some (of_char c div 16 * 16 + of_char c mod 16)"
      by (simp add: hex4_def dig zero)
    then show ?thesis
      using small by (simp add: unicode_escape_def utf8_encode_def)
  qed
  show ?thesis
    using assms hex
    by (auto simp: quote_char_def str_body.simps [of "_ # _"] simple_escape_def less_char_def)
qed

lemma str_body_quote:
  "str_body (concat (map quote_char s) @ [CHR 0x22] @ r) = Some (s, r)"
proof (induction s)
  case Nil
  show ?case by (simp add: str_body.simps)
next
  case (Cons c s)
  then show ?case using str_body_quote_char [OF Cons.IH, of c] by simp
qed

lemma json_parse_quote [go_simps]: "json_parse (json_quote s) = Some (json_of_string s)"
  using str_body_quote [of s "[]"]
  by (simp add: json_parse_def json_quote_def json_of_string_def skip_ws_def json_space_def
      consumed_def)

text \<open>\<^verbatim>\<open>strconv.Quote\<close> (and \<^verbatim>\<open>%q\<close>) writes Go's escapes, which are not JSON's.\<close>

definition go_quote_char :: "char \<Rightarrow> string" where
  "go_quote_char c =
     (if c = CHR 0x22 \<or> c = CHR 0x5C then [CHR 0x5C, c]
      else if c = CHR 0x07 then [CHR 0x5C, CHR ''a''] else if c = CHR 0x08 then [CHR 0x5C, CHR ''b'']
      else if c = CHR 0x0C then [CHR 0x5C, CHR ''f''] else if c = CHR 0x0A then [CHR 0x5C, CHR ''n'']
      else if c = CHR 0x0D then [CHR 0x5C, CHR ''r''] else if c = CHR 0x09 then [CHR 0x5C, CHR ''t'']
      else if c = CHR 0x0B then [CHR 0x5C, CHR ''v'']
      else if c < CHR 0x20 \<or> c = CHR 0x7F then
        [CHR 0x5C, CHR ''x'', hex_char (of_char c div 16), hex_char (of_char c mod 16)]
      else [c])"

definition go_quote :: "string \<Rightarrow> string" where
  "go_quote s = [CHR 0x22] @ concat (map go_quote_char s) @ [CHR 0x22]"

section \<open>Numbers as rationals\<close>

text \<open>The exact value of a number literal. A \<^verbatim>\<open>float64\<close> is modelled by it: decoding fails where the
  magnitude is out of range, and the rounding to 53 bits is left out.\<close>

definition number_value :: "string \<Rightarrow> rat" where
  "number_value s =
     (let neg = prefix ''-'' s; b = (if neg then drop 1 s else s);
          mant = takeWhile (\<lambda>c. c \<notin> set ''eE'') b; ex = drop (length mant + 1) b;
          (ip, fp) = (case cut mant ''.'' of None \<Rightarrow> (mant, []) | Some p \<Rightarrow> p);
          e = (case ex of [] \<Rightarrow> 0 | c # ds \<Rightarrow>
                 if c = CHR ''-'' then - int (nat_of_digits ds)
                 else if c = CHR ''+'' then int (nat_of_digits ds) else int (nat_of_digits ex)) - int (length fp);
          m = of_nat (nat_of_digits (ip @ fp));
          v = (if e \<ge> 0 then m * 10 ^ nat e else m / 10 ^ nat (- e))
      in if neg then - v else v)"

fun as_float :: "json \<Rightarrow> rat option" where
  "as_float (JNum r) = (if \<bar>number_value r\<bar> < 2 ^ 1024 then Some (number_value r) else None)"
| "as_float (JNull _) = Some 0"
| "as_float _ = None"

end
