(* ===== verification/Openai_Types.thy ===== *)
theory Openai_Types
  imports Go_Json "HOL-Library.Monad_Syntax"
begin

text \<open>
  The wire types of \<^verbatim>\<open>pkg/openai/types.go\<close> and the carrying of unmodelled fields of
  \<^verbatim>\<open>pkg/openai/extra.go\<close>. A pointer field is an option, a \<^verbatim>\<open>json.RawMessage\<close> a
  \<open>raw_message\<close>, and a \<^verbatim>\<open>float64\<close> is kept as its JSON literal, since the gateway only passes
  it on. \<open>decode_extras\<close> and \<open>encode_extras\<close> are the shared halves of every \<^verbatim>\<open>UnmarshalJSON\<close>
  and \<^verbatim>\<open>MarshalJSON\<close>. A nil slice and an empty one are not told apart (Go writes the first as
  \<^verbatim>\<open>null\<close>).
\<close>

section \<open>Building values\<close>

definition json_object :: "(string \<times> json) list \<Rightarrow> json" where
  "json_object ms =
     JObj (''{'' @ join (map (\<lambda>(k, v). json_quote k @ '':'' @ raw v) ms) '','' @ ''}'') ms"

definition json_array :: "json list \<Rightarrow> json" where
  "json_array vs = JArr (''['' @ join (map raw vs) '','' @ '']'') vs"

definition json_null :: json where "json_null = JNull ''null''"

definition json_of_bool :: "bool \<Rightarrow> json" where
  "json_of_bool b = (if b then JBool ''true'' True else JBool ''false'' False)"

text \<open>Struct fields: always written, or left out when empty (\<^verbatim>\<open>omitempty\<close>).\<close>

definition omit_empty :: "string \<Rightarrow> string \<Rightarrow> (string \<times> json) list" where
  "omit_empty k s = (if s = [] then [] else [(k, json_of_string s)])"

definition omit_nil :: "string \<Rightarrow> raw_message \<Rightarrow> (string \<times> json) list" where
  "omit_nil k r = (case r of None \<Rightarrow> [] | Some v \<Rightarrow> [(k, v)])"

definition omit_zero :: "string \<Rightarrow> int \<Rightarrow> (string \<times> json) list" where
  "omit_zero k i = (if i = 0 then [] else [(k, json_of_int i)])"

definition raw_or_null :: "raw_message \<Rightarrow> json" where
  "raw_or_null r = (case r of None \<Rightarrow> json_null | Some v \<Rightarrow> v)"

text \<open>Reading a struct field: absent and \<^verbatim>\<open>null\<close> leave the zero value, a wrong type is an error.\<close>

fun json_is_null :: "json \<Rightarrow> bool" where
  "json_is_null (JNull _) = True"
| "json_is_null _ = False"

definition field_or :: "'a \<Rightarrow> (json \<Rightarrow> 'a option) \<Rightarrow> string \<Rightarrow> (string \<times> json) list \<Rightarrow> 'a option" where
  "field_or z dec k ms = (case struct_member k ms of
      None \<Rightarrow> Some z
    | Some v \<Rightarrow> if json_is_null v then Some z else dec v)"

definition pointer_field :: "(json \<Rightarrow> 'a option) \<Rightarrow> string \<Rightarrow> (string \<times> json) list \<Rightarrow> 'a option option" where
  "pointer_field dec = field_or None (\<lambda>v. map_option Some (dec v))"

fun opt_all :: "('a \<Rightarrow> 'b option) \<Rightarrow> 'a list \<Rightarrow> 'b list option" where
  "opt_all f [] = Some []"
| "opt_all f (x # xs) = do { y \<leftarrow> f x; ys \<leftarrow> opt_all f xs; Some (y # ys) }"

lemma opt_all_map: "(\<And>x. x \<in> set xs \<Longrightarrow> f (g x) = Some (h x)) \<Longrightarrow> opt_all f (map g xs) = Some (map h xs)"
  by (induction xs) auto

definition slice_field :: "(json \<Rightarrow> 'a option) \<Rightarrow> string \<Rightarrow> (string \<times> json) list \<Rightarrow> 'a list option" where
  "slice_field dec = field_or [] (\<lambda>v. as_array v \<bind> opt_all dec)"

fun as_bool :: "json \<Rightarrow> bool option" where
  "as_bool (JBool _ b) = Some b"
| "as_bool _ = None"

fun as_number :: "json \<Rightarrow> string option" where
  "as_number (JNum r) = Some r"
| "as_number _ = None"

definition string_of :: "string \<Rightarrow> (string \<times> json) list \<Rightarrow> string option" where
  "string_of = field_or [] as_string"

definition int_of :: "string \<Rightarrow> (string \<times> json) list \<Rightarrow> int option" where
  "int_of = field_or 0 as_int"

text \<open>A \<^verbatim>\<open>RawMessage\<close> field receives even a \<^verbatim>\<open>null\<close> verbatim.\<close>

definition raw_of :: "string \<Rightarrow> (string \<times> json) list \<Rightarrow> raw_message" where
  "raw_of = struct_member"

section \<open>Unmodelled fields\<close>

type_synonym extras = "(string, json) gomap"

definition decode_extras :: "string list \<Rightarrow> (string \<times> json) list \<Rightarrow> extras" where
  "decode_extras known ms = filter (\<lambda>(k, v). k \<notin> set known) (AList.clearjunk (rev ms))"

definition encode_extras :: "(string \<times> json) list \<Rightarrow> extras \<Rightarrow> (string \<times> json) list" where
  "encode_extras base ex =
     (if ex = [] then base
      else sort_key fst (base @ filter (\<lambda>(k, v). k \<notin> fst ` set base) ex))"

lemma map_of_sort_key_distinct:
  "distinct (map fst ms) \<Longrightarrow> map_of (sort_key fst ms) = map_of (ms :: ('k::linorder \<times> 'v) list)"
  by (rule map_of_inject_set [THEN iffD2]) (auto simp: distinct_map inj_on_def)

lemma decode_extras_map:
  "map_of (decode_extras known ms) k =
     (if k \<in> set known then None else map_of (rev ms) k)"
proof -
  have "map_wf (AList.clearjunk (rev ms))" by (simp add: map_wf_def distinct_clearjunk)
  then show ?thesis
    by (auto simp: decode_extras_def map_of_filter_wf map_of_clearjunk split: option.split)
qed

lemma map_of_rev_distinct:
  "distinct (map fst ms) \<Longrightarrow> map_of (rev ms) = map_of ms"
  by (rule map_of_inject_set [THEN iffD2]) (simp_all flip: rev_map)

text \<open>Every unmodelled field survives a decode of an encode, and nothing else becomes one.\<close>

lemma extras_round_trip:
  assumes "distinct (map fst base)" and "fst ` set base \<subseteq> set known"
    and "map_wf ex" and "fst ` set ex \<inter> set known = {}"
  shows "map_of (decode_extras known (encode_extras base ex)) = map_of ex"
proof
  fix k
  have disj: "fst ` set base \<inter> fst ` set ex = {}" using assms(2,4) by blast
  then have keep: "filter (\<lambda>(k, v). k \<notin> fst ` set base) ex = ex"
    unfolding filter_id_conv by force
  have d: "distinct (map fst (base @ ex))"
    using assms(1,3) disj by (simp add: map_wf_def)
  have "map_of (rev (encode_extras base ex)) = map_of (base @ ex)"
  proof (cases "ex = []")
    case False
    have "distinct (map fst (sort_key fst (base @ ex)))"
      using d by (metis distinct_map distinct_sort set_sort)
    with False keep d show ?thesis
      by (simp add: encode_extras_def map_of_rev_distinct map_of_sort_key_distinct del: map_append)
  qed (use assms in \<open>simp add: encode_extras_def map_of_rev_distinct\<close>)
  then have "map_of (decode_extras known (encode_extras base ex)) k =
    (if k \<in> set known then None else map_of (base @ ex) k)"
    by (simp add: decode_extras_map)
  also have "\<dots> = map_of ex k"
  proof (cases "k \<in> set known")
    case True
    then have "k \<notin> fst ` set ex" using assms(4) by blast
    then have "map_of ex k = None" by (simp add: map_of_eq_None_iff)
    with True show ?thesis by simp
  next
    case False
    then have "k \<notin> fst ` set base" using assms(2) by blast
    then have "map_of base k = None" by (simp add: map_of_eq_None_iff)
    with False show ?thesis by (simp add: map_add_def split: option.split)
  qed
  finally show "map_of (decode_extras known (encode_extras base ex)) k = map_of ex k" .
qed

section \<open>Messages\<close>

record message =
  msg_role :: string
  msg_content :: raw_message
  msg_name :: string
  msg_extra :: extras
  msg_tool_error :: bool

definition message_fields :: "string list" where
  "message_fields = [''role'', ''content'', ''name'']"

definition decode_message :: "json \<Rightarrow> message option" where
  "decode_message v = do {
     ms \<leftarrow> as_object v;
     role \<leftarrow> string_of ''role'' ms;
     name \<leftarrow> string_of ''name'' ms;
     Some \<lparr>msg_role = role, msg_content = raw_of ''content'' ms, msg_name = name,
           msg_extra = decode_extras message_fields ms, msg_tool_error = False\<rparr> }"

definition message_base :: "message \<Rightarrow> (string \<times> json) list" where
  "message_base m = (''role'', json_of_string (msg_role m))
     # omit_nil ''content'' (msg_content m) @ omit_empty ''name'' (msg_name m)"

definition encode_message :: "message \<Rightarrow> json" where
  "encode_message m = json_object (encode_extras (message_base m) (msg_extra m))"

text \<open>\<^verbatim>\<open>Message.Text\<close>\<close>

definition message_text :: "message \<Rightarrow> string option" where
  "message_text m = unmarshal_string (msg_content m)"

section \<open>Round trip of messages\<close>

lemma find_unique:
  assumes "x \<in> set xs" and "P x" and "\<And>y. y \<in> set xs \<Longrightarrow> P y \<Longrightarrow> y = x"
  shows "find P xs = Some x"
proof (cases "find P xs")
  case None
  with assms(1,2) show ?thesis by (auto simp: find_None_iff)
next
  case (Some y)
  then have "y \<in> set xs" and "P y" by (auto simp: find_Some_iff)
  with Some assms(3) show ?thesis by simp
qed

lemma struct_member_unique:
  assumes "map_wf ms" and "(k, v) \<in> set ms" and "\<forall>k' \<in> fst ` set ms. equal_fold k' k \<longrightarrow> k' = k"
  shows "struct_member k ms = Some v"
proof -
  have "find (\<lambda>(k', v). equal_fold k' k) (rev ms) = Some (k, v)"
  proof (rule find_unique)
    fix y assume y: "y \<in> set (rev ms)" "case y of (k', v) \<Rightarrow> equal_fold k' k"
    then have "equal_fold (fst y) k" and "fst y \<in> fst ` set ms" by (simp_all add: case_prod_beta)
    then have "fst y = k" using assms(3) by blast
    moreover from this y(1) have "(k, snd y) \<in> set ms" by (cases y) simp
    then have "snd y = v"
      using assms(1,2) by (metis map_wf_def eq_key_imp_eq_value)
    ultimately show "y = (k, v)" by (cases y) simp
  qed (use assms(2) in \<open>simp_all add: equal_fold_def\<close>)
  then show ?thesis by (simp add: struct_member_def)
qed

lemma struct_member_none:
  "\<forall>k' \<in> fst ` set ms. \<not> equal_fold k' k \<Longrightarrow> struct_member k ms = None"
  by (auto simp: struct_member_def find_None_iff)

lemma as_object_json_object [simp]: "as_object (json_object ms) = Some ms"
  by (simp add: json_object_def)

lemma as_string_of_string [simp]: "as_string (json_of_string s) = Some s"
  by (simp add: json_of_string_def)

lemma json_is_null_of_string [simp]: "\<not> json_is_null (json_of_string s)"
  by (simp add: json_of_string_def)

lemma set_encode_extras:
  "set (encode_extras base ex) = set base \<union> {(k, v) \<in> set ex. k \<notin> fst ` set base}"
  by (auto simp: encode_extras_def)

lemma keys_encode_extras:
  "k \<in> fst ` set (encode_extras base ex) \<Longrightarrow> k \<in> fst ` set base \<or> k \<in> fst ` set ex"
  by (force simp: set_encode_extras)

lemma distinct_sort_key_fst:
  "distinct (map fst ms) \<Longrightarrow> distinct (map fst (sort_key fst (ms :: ('k::linorder \<times> 'v) list)))"
  by (simp add: distinct_map distinct_sort)

lemma map_wf_encode_extras: "map_wf base \<Longrightarrow> map_wf ex \<Longrightarrow> map_wf (encode_extras base ex)"
proof -
  assume wf: "map_wf base" "map_wf ex"
  let ?ms = "base @ filter (\<lambda>(k, v). k \<notin> fst ` set base) ex"
  have "distinct (map fst (filter (\<lambda>(k, v). k \<notin> fst ` set base) ex))"
    using map_wf_filter [OF wf(2)] by (simp add: map_wf_def)
  moreover have "S \<inter> set (map fst (filter (\<lambda>(k, v). k \<notin> S) xs)) = {}" for S and xs :: extras
    by (induction xs) auto
  ultimately have "distinct (map fst ?ms)"
    using wf(1) unfolding map_wf_def map_append distinct_append set_map by blast
  then have "distinct (map fst (sort_key fst ?ms))" by (rule distinct_sort_key_fst)
  then show ?thesis using wf(1) by (simp add: encode_extras_def map_wf_def)
qed

text \<open>
  Round trip. Re-encoding a decoded message loses nothing: the declared fields come back
  unchanged and every field the gateway does not model is carried verbatim, provided no
  such field differs from a declared one only in case.
\<close>

theorem message_round_trip:
  assumes "map_wf (msg_extra m)" and "\<not> msg_tool_error m"
    and "\<forall>k \<in> fst ` set (msg_extra m). \<forall>f \<in> set message_fields. \<not> equal_fold k f"
  shows "\<exists>m'. decode_message (encode_message m) = Some m'
    \<and> m'\<lparr>msg_extra := msg_extra m\<rparr> = m
    \<and> map_of (msg_extra m') = map_of (msg_extra m)"
proof -
  let ?b = "message_base m" and ?ms = "encode_extras (message_base m) (msg_extra m)"
  have wf_b: "map_wf ?b" and known: "fst ` set ?b \<subseteq> set message_fields"
    by (auto simp: map_wf_def message_base_def message_fields_def omit_nil_def omit_empty_def
        split: option.split)
  have wf: "map_wf ?ms" using wf_b assms(1) by (rule map_wf_encode_extras)
  have apart: "fst ` set (msg_extra m) \<inter> set message_fields = {}"
    using assms(3) by (force simp: equal_fold_def)
  have fold_eq: "\<forall>k' \<in> set message_fields. \<forall>k \<in> set message_fields. equal_fold k' k \<longrightarrow> k' = k"
    by code_simp
  have only: "k' = k \<and> k' \<in> fst ` set ?b"
    if "k' \<in> fst ` set ?ms" "equal_fold k' k" "k \<in> set message_fields" for k k'
    using keys_encode_extras [OF that(1)] known fold_eq assms(3) that(2,3) by blast
  have base: "struct_member k ?ms = map_of ?b k" if k: "k \<in> set message_fields" for k
  proof (cases "map_of ?b k")
    case None
    then have "k \<notin> fst ` set ?b" by (simp add: map_of_eq_None_iff)
    then have "\<forall>k' \<in> fst ` set ?ms. \<not> equal_fold k' k" using only k by blast
    then show ?thesis by (simp add: struct_member_none None)
  next
    case (Some v)
    then have "(k, v) \<in> set ?ms" by (auto simp: set_encode_extras dest: map_of_SomeD)
    moreover have "\<forall>k' \<in> fst ` set ?ms. equal_fold k' k \<longrightarrow> k' = k" using only k by blast
    ultimately show ?thesis using Some by (simp add: struct_member_unique [OF wf])
  qed
  have "string_of ''role'' ?ms = Some (msg_role m)"
    by (simp add: string_of_def field_or_def base message_fields_def) (simp add: message_base_def)
  moreover have "string_of ''name'' ?ms = Some (msg_name m)"
    by (simp add: string_of_def field_or_def base message_fields_def)
      (auto simp: message_base_def omit_nil_def omit_empty_def split: option.split)
  moreover have "raw_of ''content'' ?ms = msg_content m"
    by (simp add: raw_of_def base message_fields_def)
      (auto simp: message_base_def omit_nil_def omit_empty_def split: option.split)
  moreover have "map_of (decode_extras message_fields ?ms) = map_of (msg_extra m)"
    using extras_round_trip [OF _ known assms(1) apart] wf_b by (simp add: map_wf_def)
  ultimately show ?thesis
    using assms(2) by (simp add: decode_message_def encode_message_def)
qed

theorem message_round_trip_witness:
  "let m = \<lparr>msg_role = ''tool'', msg_content = Some (json_of_string ''42''), msg_name = [],
            msg_extra = [(''tool_call_id'', json_of_string ''c1'')], msg_tool_error = False\<rparr>
   in \<exists>m'. decode_message (encode_message m) = Some m' \<and> msg_content m' = Some (json_of_string ''42'')"
proof -
  let ?m = "\<lparr>msg_role = ''tool'', msg_content = Some (json_of_string ''42''), msg_name = [],
            msg_extra = [(''tool_call_id'', json_of_string ''c1'')], msg_tool_error = False\<rparr>"
  have "\<forall>f \<in> set message_fields. \<not> equal_fold ''tool_call_id'' f" by code_simp
  then obtain m' where "decode_message (encode_message ?m) = Some m'"
    and "m'\<lparr>msg_extra := msg_extra ?m\<rparr> = ?m"
    using message_round_trip [of ?m] by (auto simp: map_wf_def)
  then show ?thesis by (cases m') (simp add: Let_def)
qed

section \<open>Requests\<close>

record stream_options =
  include_usage :: bool

record chat_request =
  cr_model :: string
  cr_messages :: "message list"
  cr_stream :: bool
  cr_stream_options :: "stream_options option"
  cr_temperature :: "string option"
  cr_top_p :: "string option"
  cr_max_tokens :: "int option"
  cr_stop :: "string list"
  cr_user :: string
  cr_extra :: extras

definition chat_request_fields :: "string list" where
  "chat_request_fields = [''model'', ''messages'', ''stream'', ''stream_options'', ''temperature'',
     ''top_p'', ''max_tokens'', ''stop'', ''user'']"

definition decode_stream_options :: "json \<Rightarrow> stream_options option" where
  "decode_stream_options v = do {
     ms \<leftarrow> as_object v;
     iu \<leftarrow> field_or False as_bool ''include_usage'' ms;
     Some \<lparr>include_usage = iu\<rparr> }"

definition decode_chat_request :: "json \<Rightarrow> chat_request option" where
  "decode_chat_request v = do {
     ms \<leftarrow> as_object v;
     model \<leftarrow> string_of ''model'' ms;
     msgs \<leftarrow> slice_field decode_message ''messages'' ms;
     stream \<leftarrow> field_or False as_bool ''stream'' ms;
     sopts \<leftarrow> pointer_field decode_stream_options ''stream_options'' ms;
     temp \<leftarrow> pointer_field as_number ''temperature'' ms;
     topp \<leftarrow> pointer_field as_number ''top_p'' ms;
     maxt \<leftarrow> pointer_field as_int ''max_tokens'' ms;
     stop \<leftarrow> slice_field as_string ''stop'' ms;
     user \<leftarrow> string_of ''user'' ms;
     Some \<lparr>cr_model = model, cr_messages = msgs, cr_stream = stream, cr_stream_options = sopts,
           cr_temperature = temp, cr_top_p = topp, cr_max_tokens = maxt, cr_stop = stop,
           cr_user = user, cr_extra = decode_extras chat_request_fields ms\<rparr> }"

definition encode_chat_request :: "chat_request \<Rightarrow> json" where
  "encode_chat_request r =
     json_object (encode_extras
       ([(''model'', json_of_string (cr_model r)),
         (''messages'', json_array (map encode_message (cr_messages r)))]
        @ (if cr_stream r then [(''stream'', json_of_bool True)] else [])
        @ omit_nil ''stream_options'' (map_option (\<lambda>so. json_object
            (if include_usage so then [(''include_usage'', json_of_bool True)] else []))
            (cr_stream_options r))
        @ omit_nil ''temperature'' (map_option JNum (cr_temperature r))
        @ omit_nil ''top_p'' (map_option JNum (cr_top_p r))
        @ omit_nil ''max_tokens'' (map_option json_of_int (cr_max_tokens r))
        @ (if cr_stop r = [] then [] else [(''stop'', json_array (map json_of_string (cr_stop r)))])
        @ omit_empty ''user'' (cr_user r))
       (cr_extra r))"

record embedding_request =
  er_model :: string
  er_input :: raw_message
  er_encoding_format :: string
  er_dimensions :: "int option"
  er_user :: string
  er_extra :: extras

definition embedding_request_fields :: "string list" where
  "embedding_request_fields = [''model'', ''input'', ''encoding_format'', ''dimensions'', ''user'']"

definition decode_embedding_request :: "json \<Rightarrow> embedding_request option" where
  "decode_embedding_request v = do {
     ms \<leftarrow> as_object v;
     model \<leftarrow> string_of ''model'' ms;
     fmt \<leftarrow> string_of ''encoding_format'' ms;
     dims \<leftarrow> pointer_field as_int ''dimensions'' ms;
     user \<leftarrow> string_of ''user'' ms;
     Some \<lparr>er_model = model, er_input = raw_of ''input'' ms, er_encoding_format = fmt,
           er_dimensions = dims, er_user = user,
           er_extra = decode_extras embedding_request_fields ms\<rparr> }"

definition encode_embedding_request :: "embedding_request \<Rightarrow> json" where
  "encode_embedding_request r =
     json_object (encode_extras
       ([(''model'', json_of_string (er_model r)), (''input'', raw_or_null (er_input r))]
        @ omit_empty ''encoding_format'' (er_encoding_format r)
        @ omit_nil ''dimensions'' (map_option json_of_int (er_dimensions r))
        @ omit_empty ''user'' (er_user r))
       (er_extra r))"

section \<open>Responses\<close>

record usage_report =
  ur_prompt :: int
  ur_completion :: int
  ur_total :: int
  ur_prompt_details :: "(int \<times> int) option" \<comment> \<open>cached and cache-write tokens\<close>
  ur_completion_details :: "int option" \<comment> \<open>reasoning tokens\<close>

definition decode_usage :: "json \<Rightarrow> usage_report option" where
  "decode_usage v = do {
     ms \<leftarrow> as_object v;
     p \<leftarrow> int_of ''prompt_tokens'' ms;
     c \<leftarrow> int_of ''completion_tokens'' ms;
     t \<leftarrow> int_of ''total_tokens'' ms;
     pd \<leftarrow> pointer_field (\<lambda>d. do {
             ds \<leftarrow> as_object d;
             x \<leftarrow> int_of ''cached_tokens'' ds;
             y \<leftarrow> int_of ''cache_write_tokens'' ds;
             Some (x, y) }) ''prompt_tokens_details'' ms;
     cd \<leftarrow> pointer_field (\<lambda>d. do { ds \<leftarrow> as_object d; int_of ''reasoning_tokens'' ds })
             ''completion_tokens_details'' ms;
     Some \<lparr>ur_prompt = p, ur_completion = c, ur_total = t, ur_prompt_details = pd,
           ur_completion_details = cd\<rparr> }"

definition encode_usage :: "usage_report \<Rightarrow> json" where
  "encode_usage u = json_object
     ([(''prompt_tokens'', json_of_int (ur_prompt u)),
       (''completion_tokens'', json_of_int (ur_completion u)),
       (''total_tokens'', json_of_int (ur_total u))]
      @ omit_nil ''prompt_tokens_details'' (map_option (\<lambda>(x, y). json_object
          (omit_zero ''cached_tokens'' x @ omit_zero ''cache_write_tokens'' y)) (ur_prompt_details u))
      @ omit_nil ''completion_tokens_details'' (map_option (\<lambda>x. json_object
          (omit_zero ''reasoning_tokens'' x)) (ur_completion_details u)))"

text \<open>The methods of \<^verbatim>\<open>*Usage\<close>; a nil receiver reads as zero.\<close>

definition usage_cached :: "usage_report option \<Rightarrow> int" where
  "usage_cached u = (case Option.bind u ur_prompt_details of None \<Rightarrow> 0 | Some (x, y) \<Rightarrow> x)"

definition usage_cache_write :: "usage_report option \<Rightarrow> int" where
  "usage_cache_write u = (case Option.bind u ur_prompt_details of None \<Rightarrow> 0 | Some (x, y) \<Rightarrow> y)"

definition usage_reasoning :: "usage_report option \<Rightarrow> int" where
  "usage_reasoning u = (case Option.bind u ur_completion_details of None \<Rightarrow> 0 | Some x \<Rightarrow> x)"

record choice =
  ch_index :: int
  ch_message :: "message option"
  ch_delta :: "message option"
  ch_finish_reason :: "string option"
  ch_extra :: extras

definition choice_fields :: "string list" where
  "choice_fields = [''index'', ''message'', ''delta'', ''finish_reason'']"

definition decode_choice :: "json \<Rightarrow> choice option" where
  "decode_choice v = do {
     ms \<leftarrow> as_object v;
     i \<leftarrow> int_of ''index'' ms;
     m \<leftarrow> pointer_field decode_message ''message'' ms;
     d \<leftarrow> pointer_field decode_message ''delta'' ms;
     f \<leftarrow> pointer_field as_string ''finish_reason'' ms;
     Some \<lparr>ch_index = i, ch_message = m, ch_delta = d, ch_finish_reason = f,
           ch_extra = decode_extras choice_fields ms\<rparr> }"

definition encode_choice :: "choice \<Rightarrow> json" where
  "encode_choice c = json_object (encode_extras
     ([(''index'', json_of_int (ch_index c))]
      @ omit_nil ''message'' (map_option encode_message (ch_message c))
      @ omit_nil ''delta'' (map_option encode_message (ch_delta c))
      @ [(''finish_reason'', raw_or_null (map_option json_of_string (ch_finish_reason c)))])
     (ch_extra c))"

text \<open>\<^verbatim>\<open>ChatCompletionResponse\<close> and \<^verbatim>\<open>StreamChunk\<close> declare the same fields.\<close>

record chat_response =
  rsp_id :: string
  rsp_object :: string
  rsp_created :: int
  rsp_model :: string
  rsp_choices :: "choice list"
  rsp_usage :: "usage_report option"
  rsp_extra :: extras

type_synonym stream_chunk = chat_response

definition chat_response_fields :: "string list" where
  "chat_response_fields = [''id'', ''object'', ''created'', ''model'', ''choices'', ''usage'']"

definition decode_chat_response :: "json \<Rightarrow> chat_response option" where
  "decode_chat_response v = do {
     ms \<leftarrow> as_object v;
     i \<leftarrow> string_of ''id'' ms;
     ob \<leftarrow> string_of ''object'' ms;
     cr \<leftarrow> int_of ''created'' ms;
     mo \<leftarrow> string_of ''model'' ms;
     cs \<leftarrow> slice_field decode_choice ''choices'' ms;
     us \<leftarrow> pointer_field decode_usage ''usage'' ms;
     Some \<lparr>rsp_id = i, rsp_object = ob, rsp_created = cr, rsp_model = mo, rsp_choices = cs,
           rsp_usage = us, rsp_extra = decode_extras chat_response_fields ms\<rparr> }"

definition encode_chat_response :: "chat_response \<Rightarrow> json" where
  "encode_chat_response r = json_object (encode_extras
     ([(''id'', json_of_string (rsp_id r)), (''object'', json_of_string (rsp_object r)),
       (''created'', json_of_int (rsp_created r)), (''model'', json_of_string (rsp_model r)),
       (''choices'', json_array (map encode_choice (rsp_choices r)))]
      @ omit_nil ''usage'' (map_option encode_usage (rsp_usage r)))
     (rsp_extra r))"

record embedding =
  em_object :: string
  em_index :: int
  em_embedding :: raw_message

record embedding_response =
  ers_object :: string
  ers_data :: "embedding list"
  ers_model :: string
  ers_usage :: "usage_report option"
  ers_extra :: extras

definition embedding_response_fields :: "string list" where
  "embedding_response_fields = [''object'', ''data'', ''model'', ''usage'']"

definition decode_embedding :: "json \<Rightarrow> embedding option" where
  "decode_embedding v = do {
     ms \<leftarrow> as_object v;
     ob \<leftarrow> string_of ''object'' ms;
     i \<leftarrow> int_of ''index'' ms;
     Some \<lparr>em_object = ob, em_index = i, em_embedding = raw_of ''embedding'' ms\<rparr> }"

definition decode_embedding_response :: "json \<Rightarrow> embedding_response option" where
  "decode_embedding_response v = do {
     ms \<leftarrow> as_object v;
     ob \<leftarrow> string_of ''object'' ms;
     ds \<leftarrow> slice_field decode_embedding ''data'' ms;
     mo \<leftarrow> string_of ''model'' ms;
     us \<leftarrow> pointer_field decode_usage ''usage'' ms;
     Some \<lparr>ers_object = ob, ers_data = ds, ers_model = mo, ers_usage = us,
           ers_extra = decode_extras embedding_response_fields ms\<rparr> }"

definition encode_embedding_response :: "embedding_response \<Rightarrow> json" where
  "encode_embedding_response r = json_object (encode_extras
     ([(''object'', json_of_string (ers_object r)),
       (''data'', json_array (map (\<lambda>e. json_object
          [(''object'', json_of_string (em_object e)), (''index'', json_of_int (em_index e)),
           (''embedding'', raw_or_null (em_embedding e))]) (ers_data r))),
       (''model'', json_of_string (ers_model r))]
      @ omit_nil ''usage'' (map_option encode_usage (ers_usage r)))
     (ers_extra r))"

text \<open>The error envelope sent to clients and read from upstreams.\<close>

record error_body =
  eb_message :: string
  eb_type :: string
  eb_param :: string
  eb_code :: string

definition encode_error :: "error_body \<Rightarrow> json" where
  "encode_error e = json_object [(''error'', json_object
     ([(''message'', json_of_string (eb_message e)), (''type'', json_of_string (eb_type e))]
      @ omit_empty ''param'' (eb_param e) @ omit_empty ''code'' (eb_code e)))]"

end
