(* ===== verification/Rotation.thy ===== *)
theory Rotation
  imports Go_Prelude "HOL-Library.Multiset"
begin

text \<open>
  The interface of every round-robin selection in the program: credentials of a provider,
  proxies of the pool and the members of a combo are all chosen by an atomic \<^verbatim>\<open>uint64\<close>
  counter modulo the number of items. What a client relies on, fairness, is proved once. The
  counter is only trusted below \<open>limit\<close>: a combo converts it to a signed integer first.
\<close>

locale rotation =
  fixes pick :: "'s \<Rightarrow> 'a \<times> 's"
    and cursor :: "'s \<Rightarrow> u64"
    and items :: "'s \<Rightarrow> 'a list"
    and limit :: nat
  assumes limit: "limit \<le> 2 ^ 64"
    and pick_item: "items s \<noteq> [] \<Longrightarrow> unat (cursor s) < limit \<Longrightarrow> fst (pick s) = items s ! (unat (cursor s) mod length (items s))"
    and pick_cursor: "items s \<noteq> [] \<Longrightarrow> cursor (snd (pick s)) = cursor s + 1"
    and pick_items: "items (snd (pick s)) = items s"
begin

fun picks :: "nat \<Rightarrow> 's \<Rightarrow> 'a list" where
  "picks 0 s = []"
| "picks (Suc k) s = fst (pick s) # picks k (snd (pick s))"

lemma picks_eq:
  assumes "items s \<noteq> []" and "unat (cursor s) + k < limit"
  shows "picks k s = map (\<lambda>i. items s ! ((unat (cursor s) + i) mod length (items s))) [0..<k]"
  using assms
proof (induction k arbitrary: s)
  case (Suc k)
  have c: "unat (cursor s + 1) = unat (cursor s) + 1"
    using Suc.prems(2) limit by (subst unat_add_lem [THEN iffD1]) simp_all
  have "picks k (snd (pick s)) =
      map (\<lambda>i. items s ! ((unat (cursor s) + 1 + i) mod length (items s))) [0..<k]"
    using Suc.IH [of "snd (pick s)"] Suc.prems by (simp add: pick_items pick_cursor c)
  moreover have "unat (cursor s) < limit" using Suc.prems(2) by simp
  ultimately show ?case
    using Suc.prems(1) by (simp add: pick_item upt_conv_Cons map_Suc_upt [symmetric] del: upt_Suc map_Suc_upt)
qed simp

end

text \<open>Reading a non-empty list cyclically for one period visits each position once.\<close>

lemma cyclic_period:
  assumes "xs \<noteq> []"
  shows "map (\<lambda>i. xs ! ((c + i) mod length xs)) [0..<length xs] = rotate (c mod length xs) xs"
  using assms by (intro nth_equalityI) (simp_all add: nth_rotate mod_add_right_eq mod_add_left_eq)

lemma mset_rotate [simp]: "mset (rotate n xs) = mset xs"
  by (metis append_take_drop_id mset_append rotate_drop_take union_commute)

context rotation
begin

lemma picks_round:
  assumes "items s \<noteq> []" and "unat (cursor s) + length (items s) < limit"
  shows "picks (length (items s)) s = rotate (unat (cursor s) mod length (items s)) (items s)"
  using picks_eq [OF assms] cyclic_period [OF assms(1)] by simp

lemma picks_fair:
  assumes "items s \<noteq> []" and "unat (cursor s) + length (items s) < limit"
  shows "mset (picks (length (items s)) s) = mset (items s)"
  by (simp add: picks_round [OF assms])

end

end
