(* ===== verification/Provider_Http.thy ===== *)
theory Provider_Http
  imports Provider_Errors Openai_Types Rotation
begin

text \<open>
  The shared HTTP provider of \<^verbatim>\<open>internal/provider/http.go\<close>, with \<^verbatim>\<open>openai.go\<close>, \<^verbatim>\<open>ping.go\<close>,
  \<^verbatim>\<open>models.go\<close>, \<^verbatim>\<open>trace.go\<close> and the registry of \<^verbatim>\<open>provider.go\<close>: the choice of a credential,
  the request that is sent, and the classification and redaction of every failure.

  The network is a parameter: \<open>nt_send\<close> answers a request with a response or a transport
  error, threading the state \<open>'w\<close> of the outside world. Joining and validating URLs
  (\<^verbatim>\<open>net/url\<close>) and the texts of decoding errors are parameters too. Marshalling a request
  cannot fail, since every raw field is well-formed.
\<close>

section \<open>Options and credentials\<close>

record options =
  op_name :: string
  op_base_url :: string
  op_api_key :: string
  op_api_keys :: "string list"
  op_api_key_method :: string
  op_auth_header :: string

record http_provider =
  hp_opts :: options
  hp_headers :: "(string, string) gomap"
  hp_key_index :: u64

definition new_http_provider :: "options \<Rightarrow> (string, string) gomap \<Rightarrow> http_provider" where
  "new_http_provider opts headers =
     \<lparr>hp_opts = (if op_api_keys opts = [] \<and> op_api_key opts \<noteq> []
                 then opts\<lparr>op_api_keys := [op_api_key opts]\<rparr> else opts),
      hp_headers = headers, hp_key_index = 0\<rparr>"

definition new_openai :: "options \<Rightarrow> http_provider" where
  "new_openai opts =
     new_http_provider (if op_name opts = [] then opts\<lparr>op_name := ''openai''\<rparr> else opts) []"

definition credential :: "http_provider \<Rightarrow> string \<times> http_provider" where
  "credential p =
     (let keys = op_api_keys (hp_opts p) in
      if op_api_key_method (hp_opts p) \<noteq> ''round_robin'' \<or> keys = []
      then (op_api_key (hp_opts p), p)
      else (keys ! (unat (hp_key_index p) mod length keys),
            p\<lparr>hp_key_index := hp_key_index p + 1\<rparr>))"

definition redact_credential :: "http_provider \<Rightarrow> string \<Rightarrow> string" where
  "redact_credential p msg =
     redact (op_api_key (hp_opts p)) (fold redact (op_api_keys (hp_opts p)) msg)"

definition rotated_keys :: "http_provider \<Rightarrow> string list" where
  "rotated_keys p =
     (if op_api_key_method (hp_opts p) = ''round_robin'' then op_api_keys (hp_opts p) else [])"

interpretation key_rotation: rotation credential hp_key_index rotated_keys "2 ^ 64"
  by unfold_locales
    (auto simp: credential_def rotated_keys_def Let_def split: if_splits)

section \<open>Requests and responses\<close>

record http_request =
  rq_method :: string
  rq_url :: string
  rq_headers :: "(string, string) gomap"
  rq_body :: string

record http_response =
  rs_status :: int
  rs_body :: string

text \<open>What the provider reads of a transport error: does it unwrap to the context's deadline,
  is it a network time-out, and its text.\<close>

record net_error =
  ne_deadline :: bool
  ne_timeout :: bool
  ne_text :: string

record 'w net =
  nt_join :: "string \<Rightarrow> string \<Rightarrow> string + string"
  nt_new_request :: "string \<Rightarrow> string option"
  nt_send :: "http_request \<Rightarrow> 'w \<Rightarrow> (net_error + http_response) \<times> 'w"
  nt_decode_text :: "string \<Rightarrow> string"

text \<open>\<^verbatim>\<open>Header.Set\<close> stores under the canonical key.\<close>

fun canonical_key_from :: "bool \<Rightarrow> string \<Rightarrow> string" where
  "canonical_key_from up [] = []"
| "canonical_key_from up (c # cs) =
     (if up then upper_char c else lower_char c) # canonical_key_from (c = CHR ''-'') cs"

definition canonical_key :: "string \<Rightarrow> string" where
  "canonical_key k = canonical_key_from True k"

definition header_set :: "string \<Rightarrow> string \<Rightarrow> http_request \<Rightarrow> http_request" where
  "header_set k v rq = rq\<lparr>rq_headers := map_put (canonical_key k) v (rq_headers rq)\<rparr>"

definition apply_headers :: "http_provider \<Rightarrow> http_request \<Rightarrow> http_request \<times> http_provider" where
  "apply_headers p rq =
     (let (key, p') = credential p;
          rq1 = (if key = [] then rq
                 else if op_auth_header (hp_opts p) \<noteq> [] then header_set (op_auth_header (hp_opts p)) key rq
                 else header_set ''Authorization'' (''Bearer '' @ key) rq)
      in (fold (\<lambda>(k, v). header_set k v) (hp_headers p) rq1, p'))"

section \<open>Failures\<close>

definition call_error :: "http_provider \<Rightarrow> string \<Rightarrow> gerror" where
  "call_error p msg = Upstream \<lparr>pe_provider = op_name (hp_opts p), pe_status = 0, pe_kind = None,
     pe_message = msg, pe_code = []\<rparr>"

definition transport_error :: "http_provider \<Rightarrow> net_error \<Rightarrow> gerror" where
  "transport_error p e = Upstream
     \<lparr>pe_provider = op_name (hp_opts p), pe_status = 0,
      pe_kind = Some (if ne_deadline e \<or> ne_timeout e then ErrTimeout else ErrConnection),
      pe_message = redact_credential p (ne_text e), pe_code = []\<rparr>"

definition max_error_body :: nat where "max_error_body = 8 * 1024"

text \<open>The \<^verbatim>\<open>error\<close> object of a body; a wrong type leaves the fields read so far.\<close>

definition envelope_error :: "string \<Rightarrow> (string \<times> json) list" where
  "envelope_error body = (case json_parse body of
      None \<Rightarrow> []
    | Some v \<Rightarrow> (case as_object v of
        None \<Rightarrow> []
      | Some ms \<Rightarrow> (case struct_member ''error'' ms of
          None \<Rightarrow> []
        | Some e \<Rightarrow> (case as_object e of None \<Rightarrow> [] | Some es \<Rightarrow> es))))"

definition status_kind :: "int \<Rightarrow> string \<Rightarrow> string \<Rightarrow> sentinel option" where
  "status_kind status code message =
     (if code = ''CONTEXT_LIMIT_EXCEEDED'' \<or> contains (to_upper message) ''CONTEXT_LIMIT_EXCEEDED''
      then Some ErrContextExceeded
      else if status = 408 \<or> status = 504 then Some ErrTimeout
      else if status = 429 then Some ErrRateLimited
      else if status \<ge> 500 then Some ErrUpstream5xx
      else None)"

definition status_error :: "http_provider \<Rightarrow> http_response \<Rightarrow> gerror" where
  "status_error p resp =
     (let body = take max_error_body (rs_body resp);
          envelope = envelope_error body;
          code = to_upper (trim_space (string_field ''code'' envelope));
          message = (let m = string_field ''message'' envelope in
                     if m = [] then trim_space body else m)
      in Upstream
        \<lparr>pe_provider = op_name (hp_opts p), pe_status = rs_status resp,
         pe_kind = status_kind (rs_status resp) code message,
         pe_message = redact_credential p message, pe_code = code\<rparr>)"

definition upstream_message :: "string \<Rightarrow> string" where
  "upstream_message body =
     (let m = string_field ''message'' (envelope_error body)
      in if m \<noteq> [] then m else trim_space body)"

section \<open>Calls\<close>

definition provider_do ::
  "'w net \<Rightarrow> string \<Rightarrow> string \<Rightarrow> bool \<Rightarrow> http_provider \<Rightarrow> 'w \<Rightarrow>
   (gerror + http_response) \<times> http_provider \<times> 'w"
where
  "provider_do net path payload stream p w =
     (case nt_join net (op_base_url (hp_opts p)) path of
        Inl err \<Rightarrow> (Inl (call_error p (''invalid base_url: '' @ err)), p, w)
      | Inr endpoint \<Rightarrow>
          (case nt_new_request net endpoint of
             Some err \<Rightarrow> (Inl (call_error p (''build request: '' @ err)), p, w)
           | None \<Rightarrow>
               (let rq = \<lparr>rq_method = ''POST'', rq_url = endpoint, rq_headers = [], rq_body = payload\<rparr>;
                    rq = header_set ''Content-Type'' ''application/json'' rq;
                    rq = header_set ''Accept''
                           (if stream then ''text/event-stream'' else ''application/json'') rq;
                    (rq, p') = apply_headers p rq
                in case nt_send net rq w of
                     (Inl err, w') \<Rightarrow> (Inl (transport_error p' err), p', w')
                   | (Inr resp, w') \<Rightarrow>
                       if rs_status resp < 200 \<or> rs_status resp \<ge> 300
                       then (Inl (status_error p' resp), p', w')
                       else (Inr resp, p', w'))))"

text \<open>\<^verbatim>\<open>json.NewDecoder(body).Decode\<close> reads one value and ignores what follows it.\<close>

definition json_first :: "string \<Rightarrow> json option" where
  "json_first s = map_option fst (json_value (2 * length s + 2) s)"

definition decode_response ::
  "'w net \<Rightarrow> (json \<Rightarrow> 'a option) \<Rightarrow> (gerror + http_response) \<times> http_provider \<times> 'w \<Rightarrow>
   (gerror + 'a) \<times> http_provider \<times> 'w"
where
  "decode_response net dec r = (case r of
      (Inl err, p, w) \<Rightarrow> (Inl err, p, w)
    | (Inr resp, p, w) \<Rightarrow>
        (case Option.bind (json_first (rs_body resp)) dec of
           None \<Rightarrow> (Inl (call_error p (''decode response: '' @ nt_decode_text net (rs_body resp))), p, w)
         | Some out \<Rightarrow> (Inr out, p, w)))"

definition post_chat ::
  "'w net \<Rightarrow> chat_request \<Rightarrow> bool \<Rightarrow> http_provider \<Rightarrow> 'w \<Rightarrow>
   (gerror + http_response) \<times> http_provider \<times> 'w"
where
  "post_chat net body stream p w =
     provider_do net ''chat/completions'' (raw (encode_chat_request body)) stream p w"

definition http_chat_completion ::
  "'w net \<Rightarrow> chat_request \<Rightarrow> http_provider \<Rightarrow> 'w \<Rightarrow> (gerror + chat_response) \<times> http_provider \<times> 'w"
where
  "http_chat_completion net req p w =
     decode_response net decode_chat_response
       (post_chat net (req\<lparr>cr_stream := False, cr_stream_options := None\<rparr>) False p w)"

text \<open>The response whose body the pump reads (\<open>pump\<close> in the stream theory).\<close>

definition http_chat_stream ::
  "'w net \<Rightarrow> chat_request \<Rightarrow> http_provider \<Rightarrow> 'w \<Rightarrow> (gerror + http_response) \<times> http_provider \<times> 'w"
where
  "http_chat_stream net req p w = post_chat net (req\<lparr>cr_stream := True\<rparr>) True p w"

definition http_embeddings ::
  "'w net \<Rightarrow> embedding_request \<Rightarrow> http_provider \<Rightarrow> 'w \<Rightarrow>
   (gerror + embedding_response) \<times> http_provider \<times> 'w"
where
  "http_embeddings net req p w =
     decode_response net decode_embedding_response
       (provider_do net ''embeddings'' (raw (encode_embedding_request req)) False p w)"

text \<open>A \<^verbatim>\<open>GET\<close> of \<^verbatim>\<open>{base_url}/models\<close>, shared by \<^verbatim>\<open>Ping\<close> and \<^verbatim>\<open>ListModels\<close>.\<close>

definition get_models ::
  "'w net \<Rightarrow> http_provider \<Rightarrow> 'w \<Rightarrow> (gerror + http_response) \<times> http_provider \<times> 'w"
where
  "get_models net p w =
     (case nt_join net (op_base_url (hp_opts p)) ''models'' of
        Inl err \<Rightarrow> (Inl (call_error p (''invalid base_url: '' @ err)), p, w)
      | Inr endpoint \<Rightarrow>
          (case nt_new_request net endpoint of
             Some err \<Rightarrow> (Inl (call_error p (''build request: '' @ err)), p, w)
           | None \<Rightarrow>
               (let rq = header_set ''Accept'' ''application/json''
                      \<lparr>rq_method = ''GET'', rq_url = endpoint, rq_headers = [], rq_body = []\<rparr>;
                    (rq, p') = apply_headers p rq
                in case nt_send net rq w of
                     (Inl err, w') \<Rightarrow> (Inl (transport_error p' err), p', w')
                   | (Inr resp, w') \<Rightarrow> (Inr resp, p', w'))))"

definition ping :: "'w net \<Rightarrow> http_provider \<Rightarrow> 'w \<Rightarrow> gerror option \<times> http_provider \<times> 'w" where
  "ping net p w = (case get_models net p w of
      (Inl err, p', w') \<Rightarrow> (Some err, p', w')
    | (Inr resp, p', w') \<Rightarrow>
        (if rs_status resp \<ge> 500 then Some (status_error p' resp) else None, p', w'))"

record upstream_model =
  um_id :: string
  um_owned_by :: string
  um_created :: int
  um_context_length :: int
  um_context_window :: int
  um_max_context :: int

definition model_context :: "upstream_model \<Rightarrow> int" where
  "model_context m =
     (case find (\<lambda>v. v > 0) [um_context_length m, um_context_window m, um_max_context m] of
        Some v \<Rightarrow> v | None \<Rightarrow> 0)"

definition max_models_body :: nat where "max_models_body = 4 * 1024 * 1024"

definition decode_upstream_model :: "json \<Rightarrow> upstream_model option" where
  "decode_upstream_model v = do {
     ms \<leftarrow> as_object v;
     i \<leftarrow> string_of ''id'' ms;
     ob \<leftarrow> string_of ''owned_by'' ms;
     cr \<leftarrow> int_of ''created'' ms;
     cl \<leftarrow> int_of ''context_length'' ms;
     cw \<leftarrow> int_of ''context_window'' ms;
     mc \<leftarrow> int_of ''max_context'' ms;
     Some \<lparr>um_id = i, um_owned_by = ob, um_created = cr, um_context_length = cl,
           um_context_window = cw, um_max_context = mc\<rparr> }"

definition list_models ::
  "'w net \<Rightarrow> http_provider \<Rightarrow> 'w \<Rightarrow> (gerror + upstream_model list) \<times> http_provider \<times> 'w"
where
  "list_models net p w = (case get_models net p w of
      (Inl err, p', w') \<Rightarrow> (Inl err, p', w')
    | (Inr resp, p', w') \<Rightarrow>
        if rs_status resp < 200 \<or> rs_status resp \<ge> 300
        then (Inl (status_error p' resp), p', w')
        else (case json_first (take max_models_body (rs_body resp))
                     \<bind> as_object \<bind> slice_field decode_upstream_model ''data'' of
                None \<Rightarrow> (Inl (call_error p' (''decode response: '' @
                          nt_decode_text net (take max_models_body (rs_body resp)))), p', w')
              | Some data \<Rightarrow> (Inr (filter (\<lambda>m. um_id m \<noteq> []) data), p', w')))"

section \<open>Time to the first byte\<close>

text \<open>\<^verbatim>\<open>FirstByte\<close> holds the instant of the first response byte, zero while none arrived.\<close>

type_synonym first_byte = instant

definition first_byte_set :: "instant \<Rightarrow> first_byte \<Rightarrow> first_byte" where
  "first_byte_set t f = (if f = 0 then t else f)"

definition first_byte_since :: "instant \<Rightarrow> first_byte \<Rightarrow> duration" where
  "first_byte_since start f = (if f = 0 \<or> f < start then 0 else f - start)"

section \<open>Registry\<close>

text \<open>The registry maps names to clients; which client is a parameter.\<close>

type_synonym 'c registry = "(string, 'c) gomap"

definition new_registry :: "('c \<Rightarrow> string) \<Rightarrow> 'c list \<Rightarrow> 'c registry" where
  "new_registry name_of ps = fold (\<lambda>p m. map_put (name_of p) p m) ps []"

definition registry_get :: "'c registry \<Rightarrow> string \<Rightarrow> gerror + 'c" where
  "registry_get r name = (case map_of r name of
      None \<Rightarrow> Inl (Wrapped ErrProviderNotFound name) | Some p \<Rightarrow> Inr p)"

definition registry_names :: "'c registry \<Rightarrow> string list" where
  "registry_names r = map_keys r"


section \<open>Correctness\<close>

text \<open>
  C38. No credential leaks. The message of an error built from an upstream response or from a
  failed connection contains none of the provider's configured keys, whatever the upstream
  wrote, for every key that the placeholder itself cannot complete.
\<close>

theorem errors_hide_credentials:
  assumes "key \<in> set (op_api_key (hp_opts p) # op_api_keys (hp_opts p))" and "redactable key"
  shows "(\<exists>e. status_error p resp = Upstream e \<and> \<not> sublist key (pe_message e))
    \<and> (\<exists>e. transport_error p nerr = Upstream e \<and> \<not> sublist key (pe_message e))"
proof -
  have "\<not> sublist key (redact_credential p msg)" for msg
    using assms redact_all_removes [of key "op_api_keys (hp_opts p)"]
    by (auto simp: redact_credential_def redact_removes redact_keeps_out)
  then show ?thesis
    by (auto simp: status_error_def transport_error_def Let_def)
qed

definition example_options :: options where
  "example_options = \<lparr>op_name = [], op_base_url = ''https://x'', op_api_key = ''sk-1'',
     op_api_keys = [''sk-1'', ''sk-2'', ''sk-3''], op_api_key_method = ''round_robin'', op_auth_header = []\<rparr>"

theorem errors_hide_credentials_witness:
  "\<exists>e. status_error (new_openai example_options) \<lparr>rs_status = 401, rs_body = ''Incorrect API key: sk-2''\<rparr>
     = Upstream e \<and> \<not> sublist ''sk-2'' (pe_message e)"
proof -
  have "''sk-2'' \<in> set (op_api_key (hp_opts (new_openai example_options))
      # op_api_keys (hp_opts (new_openai example_options)))"
    by (simp add: new_openai_def new_http_provider_def example_options_def)
  moreover have "redactable ''sk-2''" by (simp add: redactable_def sublist_Cons_right)
  ultimately show ?thesis
    by (rule errors_hide_credentials [THEN conjunct1])
qed

text \<open>
  Classification. A failed response is worth a retry on another provider exactly when the
  upstream reports a context overflow, a time-out (408 or 504), a rate limit (429) or a
  server error; the label of its metric follows the same table.
\<close>

theorem status_error_classes:
  "\<exists>e. status_error p resp = Upstream e \<and> pe_status e = rs_status resp
    \<and> (retryable (Upstream e) \<longleftrightarrow> pe_kind e = Some ErrContextExceeded
        \<or> rs_status resp = 408 \<or> rs_status resp = 429 \<or> rs_status resp \<ge> 500)
    \<and> (pe_kind e \<noteq> Some ErrContextExceeded \<longrightarrow>
        classify (Upstream e) =
          (if rs_status resp = 408 \<or> rs_status resp = 504 then ''timeout''
           else if rs_status resp = 429 then ''rate_limited''
           else if rs_status resp \<ge> 500 then ''upstream_5xx''
           else ''client_error''))"
  by (auto simp: status_error_def status_kind_def retryable_def classify_def Let_def)

theorem status_error_classes_witness:
  "\<exists>e. status_error (new_openai example_options) \<lparr>rs_status = 503, rs_body = ''down''\<rparr> = Upstream e
     \<and> retryable (Upstream e)"
  using status_error_classes [of "new_openai example_options" "\<lparr>rs_status = 503, rs_body = ''down''\<rparr>"]
  by auto

text \<open>
  Fair credentials. With round-robin selection, any run of as many requests as there are
  keys uses each key exactly once, in cyclic order from wherever the counter stands.
\<close>

theorem credentials_rotate:
  assumes "op_api_key_method (hp_opts p) = ''round_robin''" and "op_api_keys (hp_opts p) = keys"
    and "keys \<noteq> []" and "unat (hp_key_index p) + length keys < 2 ^ 64"
  shows "key_rotation.picks (length keys) p = rotate (unat (hp_key_index p) mod length keys) keys
    \<and> mset (key_rotation.picks (length keys) p) = mset keys"
  using key_rotation.picks_round [of p] key_rotation.picks_fair [of p] assms
  by (simp add: rotated_keys_def)

theorem credentials_rotate_witness:
  "key_rotation.picks (length [''sk-1'', ''sk-2'', ''sk-3'']) ((new_openai example_options)\<lparr>hp_key_index := 4\<rparr>)
   = [''sk-2'', ''sk-3'', ''sk-1'']"
proof -
  let ?p = "(new_openai example_options)\<lparr>hp_key_index := 4\<rparr>" and ?k = "[''sk-1'', ''sk-2'', ''sk-3'']"
  have "key_rotation.picks (length ?k) ?p = rotate (unat (hp_key_index ?p) mod length ?k) ?k"
    by (rule credentials_rotate [THEN conjunct1])
      (simp_all add: new_openai_def new_http_provider_def example_options_def)
  moreover have "rotate (unat (hp_key_index ?p) mod length ?k) ?k = [''sk-2'', ''sk-3'', ''sk-1'']"
    by simp
  ultimately show ?thesis by (rule trans)
qed

lemma ping_healthy:
  "fst (ping net p w) = None \<longleftrightarrow>
   (\<exists>resp. fst (get_models net p w) = Inr resp \<and> rs_status resp < 500)"
  by (auto simp: ping_def split: prod.splits sum.splits)

end
