(* ===== verification/Capability.thy ===== *)
theory Capability
  imports Go_Strings
begin

text \<open>
  Capabilities, provider groups and dialects: \<^verbatim>\<open>internal/provider/capability.go\<close> and
  \<^verbatim>\<open>internal/provider/catalog.go\<close>.
\<close>

section \<open>Capabilities\<close>

definition cap_chat :: string where "cap_chat = ''chat''"
definition cap_vision :: string where "cap_vision = ''vision''"
definition cap_tools :: string where "cap_tools = ''tools''"
definition cap_embeddings :: string where "cap_embeddings = ''embeddings''"
definition cap_reasoning :: string where "cap_reasoning = ''reasoning''"
definition cap_streaming :: string where "cap_streaming = ''streaming''"
definition cap_audio :: string where "cap_audio = ''audio''"
definition cap_json_mode :: string where "cap_json_mode = ''json_mode''"

lemmas cap_defs = cap_chat_def cap_vision_def cap_tools_def cap_embeddings_def cap_reasoning_def
  cap_streaming_def cap_audio_def cap_json_mode_def

definition capability_order :: "string list" where
  "capability_order = [cap_chat, cap_vision, cap_tools, cap_embeddings,
     cap_reasoning, cap_streaming, cap_audio, cap_json_mode]"

definition valid_capability :: "string \<Rightarrow> bool" where
  "valid_capability c \<longleftrightarrow> (\<exists>known \<in> set capability_order. c = known)"

definition normalize_capabilities :: "string list \<Rightarrow> string list" where
  "normalize_capabilities caps =
     (let seen = filter valid_capability (map (\<lambda>c. to_lower (trim_space c)) caps)
      in filter (\<lambda>c. c \<in> set seen) capability_order)"

definition contains_any :: "string \<Rightarrow> string list \<Rightarrow> bool" where
  "contains_any name markers = list_ex (contains name) markers"

definition is_embedding :: "string \<Rightarrow> bool" where
  "is_embedding name = contains_any name [''embed'', ''bge-'', ''gte-'', ''e5-'', ''nomic-'']"

definition is_audio_only :: "string \<Rightarrow> bool" where
  "is_audio_only name =
     (contains_any name [''whisper'', ''transcribe'', ''tts''] \<or>
      contains_any name [''realtime''] \<and> \<not> contains_any name [''gpt-4o'', ''gpt-5''])"

definition has_vision :: "string \<Rightarrow> bool" where
  "has_vision name =
     (contains_any name [''vision'', ''-vl'', ''llava'', ''pixtral'', ''multimodal'', ''omni''] \<or>
      contains_any name
        [''gpt-4o'', ''gpt-4.1'', ''gpt-4-turbo'', ''gpt-5'', ''o3'', ''o4-mini'',
         ''claude-3'', ''claude-4'', ''claude-sonnet'', ''claude-opus'', ''claude-haiku'',
         ''gemini'', ''grok-2-vision'', ''grok-4'', ''llama-3.2'', ''llama-4'', ''qwen2.5-vl'', ''qwen3-vl''])"

definition has_tools :: "string \<Rightarrow> bool" where
  "has_tools name = contains_any name
     [''gpt-3.5-turbo'', ''gpt-4'', ''gpt-5'', ''o1'', ''o3'', ''o4'',
      ''claude-'', ''gemini'', ''grok'', ''mistral'', ''mixtral'', ''command-r'',
      ''llama-3'', ''llama-4'', ''qwen2.5'', ''qwen3'', ''deepseek'', ''glm-4'', ''kimi'']"

definition has_reasoning :: "string \<Rightarrow> bool" where
  "has_reasoning name =
     (contains_any name [''think'', ''reason'', ''-r1'', ''deepseek-r1'', ''qwq''] \<or>
      contains_any name
        [''o1-'', ''o3-'', ''o4-'', ''gpt-5'',
         ''claude-opus-4'', ''claude-sonnet-4'', ''claude-3-7'',
         ''gemini-2.5'', ''gemini-3''] \<or> name = ''o1'' \<or> name = ''o3'')"

definition has_audio :: "string \<Rightarrow> bool" where
  "has_audio name = contains_any name [''audio'', ''voice'', ''speech'', ''omni'']"

definition has_json_mode :: "string \<Rightarrow> bool" where
  "has_json_mode name = contains_any name
     [''gpt-3.5-turbo'', ''gpt-4'', ''gpt-5'', ''o1'', ''o3'', ''o4'',
      ''claude-'', ''gemini'', ''grok'', ''mistral'', ''mixtral'', ''command-r'',
      ''llama-3'', ''llama-4'', ''qwen2.5'', ''qwen3'', ''deepseek'', ''glm-4'', ''kimi'']"

definition infer_capabilities :: "string \<Rightarrow> string list" where
  "infer_capabilities model =
     (let name = to_lower (trim_space model) in
      if name = [] then []
      else if is_embedding name then [cap_embeddings]
      else if is_audio_only name then [cap_audio]
      else normalize_capabilities
        ([cap_chat, cap_streaming]
         @ (if has_vision name then [cap_vision] else [])
         @ (if has_tools name then [cap_tools] else [])
         @ (if has_reasoning name then [cap_reasoning] else [])
         @ (if has_audio name then [cap_audio] else [])
         @ (if has_json_mode name then [cap_json_mode] else [])))"

section \<open>Groups, dialects and presets\<close>

definition group_custom :: string where "group_custom = ''custom''"
definition group_oauth :: string where "group_oauth = ''oauth''"
definition group_api_key :: string where "group_api_key = ''api_key''"

definition kind_openai :: string where "kind_openai = ''openai''"
definition kind_anthropic :: string where "kind_anthropic = ''anthropic''"

definition kinds :: "string list" where "kinds = [kind_openai, kind_anthropic]"
definition groups :: "string list" where "groups = [group_custom, group_oauth, group_api_key]"

definition valid_group :: "string \<Rightarrow> bool" where
  "valid_group g \<longleftrightarrow> g = group_custom \<or> g = group_oauth \<or> g = group_api_key"

definition kinds_for :: "string \<Rightarrow> string list" where "kinds_for g = kinds"

record catalog_entry =
  ce_id :: string
  ce_label :: string
  ce_group :: string
  ce_kind :: string
  ce_base_url :: string
  ce_alias_prefix :: string
  ce_docs :: string

definition catalog :: "catalog_entry list" where
  "catalog =
    [\<lparr>ce_id = ''commandcode'', ce_label = ''Command Code'', ce_group = group_api_key, ce_kind = kind_openai,
      ce_base_url = ''https://api.commandcode.ai'', ce_alias_prefix = ''cmc/'',
      ce_docs = ''https://commandcode.ai/docs/provider''\<rparr>,
     \<lparr>ce_id = ''openai'', ce_label = ''OpenAI'', ce_group = group_api_key, ce_kind = kind_openai,
      ce_base_url = ''https://api.openai.com/v1'', ce_alias_prefix = ''openai/'', ce_docs = []\<rparr>,
     \<lparr>ce_id = ''anthropic'', ce_label = ''Anthropic'', ce_group = group_api_key, ce_kind = kind_anthropic,
      ce_base_url = ''https://api.anthropic.com/v1'', ce_alias_prefix = ''anthropic/'', ce_docs = []\<rparr>,
     \<lparr>ce_id = ''openrouter'', ce_label = ''OpenRouter'', ce_group = group_api_key, ce_kind = kind_openai,
      ce_base_url = ''https://openrouter.ai/api/v1'', ce_alias_prefix = ''or/'', ce_docs = []\<rparr>,
     \<lparr>ce_id = ''anthropic-oauth'', ce_label = ''Anthropic (OAuth token)'', ce_group = group_oauth,
      ce_kind = kind_anthropic,
      ce_base_url = ''https://api.anthropic.com/v1'', ce_alias_prefix = ''claude/'', ce_docs = []\<rparr>]"

definition catalog_of :: "string \<Rightarrow> catalog_entry list" where
  "catalog_of g = filter (\<lambda>e. g = [] \<or> ce_group e = g) catalog"

definition normalize_kind :: "string \<Rightarrow> string" where
  "normalize_kind kind =
     (let k = trim_suffix (to_lower (trim_space kind)) ''-compatible''
      in if k = kind_anthropic \<or> k = ''claude'' then kind_anthropic else kind_openai)"

section \<open>Normal forms\<close>

lemma distinct_capability_order: "distinct capability_order"
  by (simp add: capability_order_def cap_defs)

lemma valid_capability_iff: "valid_capability c \<longleftrightarrow> c \<in> set capability_order"
  by (simp add: valid_capability_def)

lemma capability_order_clean: "c \<in> set capability_order \<Longrightarrow> to_lower (trim_space c) = c"
  unfolding capability_order_def cap_defs by auto code_simp+

lemma set_normalize:
  "set (normalize_capabilities caps) =
     {c \<in> set capability_order. c \<in> (\<lambda>c. to_lower (trim_space c)) ` set caps}"
  by (auto simp: normalize_capabilities_def valid_capability_iff Let_def)

lemma subseq_filter_distinct:
  "subseq xs ys \<Longrightarrow> distinct ys \<Longrightarrow> filter (\<lambda>c. c \<in> set xs) ys = xs"
proof (induction xs ys rule: list_emb.induct)
  case (list_emb_Cons xs ys y)
  then have "y \<notin> set xs" by (auto elim: list_emb_set)
  with list_emb_Cons show ?case by auto
next
  case (list_emb_Cons2 x y xs ys)
  then have "filter (\<lambda>c. c \<in> set (x # xs)) ys = filter (\<lambda>c. c \<in> set xs) ys"
    by (intro filter_cong) auto
  with list_emb_Cons2 show ?case by simp
qed simp

lemma normalize_fixed:
  assumes "subseq caps capability_order"
  shows "normalize_capabilities caps = caps"
proof -
  have sub: "c \<in> set capability_order" if "c \<in> set caps" for c
    using assms that by (auto elim: list_emb_set)
  then have "map (\<lambda>c. to_lower (trim_space c)) caps = caps"
    by (intro map_idI) (rule capability_order_clean)
  then have "normalize_capabilities caps = filter (\<lambda>c. c \<in> set caps) capability_order"
    using sub by (simp add: normalize_capabilities_def valid_capability_iff Let_def filter_id_conv)
  also have "\<dots> = caps" using assms distinct_capability_order by (rule subseq_filter_distinct)
  finally show ?thesis .
qed

lemma normalize_subseq: "subseq (normalize_capabilities caps) capability_order"
  by (simp add: normalize_capabilities_def Let_def subseq_filter_left)

end
