(* ===== verification/Storage.thy ===== *)
theory Storage
  imports Provider_Errors
begin

text \<open>
  The records and the in-memory store of \<^verbatim>\<open>internal/storage/storage.go\<close>. Each store is a map
  under its own mutex; \<open>memory\<close> bundles them, so that the provider deletion, which cascades
  through four of them, is one operation. Every operation is one atomic step. Money is an
  exact rational, and the sums of token counts are taken not to leave 64 bits. The order of a
  map is the order of its association list; listings that the code sorts are sorted.
\<close>

section \<open>Records\<close>

datatype storage_error = StorageNotFound | StorageConflict

record api_key =
  ak_id :: string
  ak_name :: string
  ak_hash :: string
  ak_enabled :: bool
  ak_created_at :: instant
  ak_last_used_at :: instant
  ak_rate_limit :: int
  ak_budget :: rat
  ak_allowed_models :: "string list"

record provider_record =
  pr_id :: string
  pr_name :: string
  pr_kind :: string
  pr_base_url :: string
  pr_api_key :: string
  pr_api_keys :: "string list"
  pr_api_key_method :: string
  pr_timeout :: duration
  pr_enabled :: bool
  pr_group :: string
  pr_catalog_id :: string
  pr_alias_prefix :: string
  pr_use_proxy_pool :: bool
  pr_breaker_threshold :: "int option"
  pr_breaker_cooldown :: "duration option"

record model_alias =
  ma_alias :: string
  ma_provider :: string
  ma_model :: string
  ma_fallback :: "string list"
  ma_capabilities :: "string list"
  ma_max_context :: int
  ma_quality_tier :: int
  ma_price_input :: rat
  ma_price_output :: rat

text \<open>A strategy is a string; every value but the known ones acts as \<^verbatim>\<open>fallback\<close>.\<close>

datatype combo_strategy =
  ComboFallback | ComboRoundRobin | ComboWeighted | ComboIntelligent | ComboOther string

record combo =
  co_name :: string
  co_strategy :: combo_strategy
  co_members :: "string list"
  co_weights :: "int list"
  co_enabled :: bool

record proxy =
  px_name :: string
  px_url :: string
  px_enabled :: bool

record prompt_entry =
  se_id :: string
  se_extension_id :: string
  se_name :: string
  se_prompt :: string
  se_priority :: int
  se_enabled :: bool
  se_created_at :: instant
  se_updated_at :: instant

record usage_event =
  ue_id :: int
  ue_created_at :: instant
  ue_key_id :: string
  ue_alias :: string
  ue_provider :: string
  ue_model :: string
  ue_streamed :: bool
  ue_status :: string
  ue_duration :: duration
  ue_prompt :: int
  ue_completion :: int
  ue_cached :: int
  ue_cache_write :: int
  ue_reasoning :: int
  ue_cost :: rat

record request_attempt =
  ra_seq :: int
  ra_started_at :: instant
  ra_alias :: string
  ra_provider :: string
  ra_model :: string
  ra_latency :: duration
  ra_status :: string
  ra_retry :: bool
  ra_fallback :: bool
  ra_error :: string

record request_trace =
  rt_request_id :: string
  rt_created_at :: instant
  rt_key_id :: string
  rt_model :: string
  rt_dialect :: string
  rt_streamed :: bool
  rt_total_latency :: duration
  rt_total_tokens :: int
  rt_total_cost :: rat
  rt_final_provider :: string
  rt_final_alias :: string
  rt_final_status :: string
  rt_attempts :: "request_attempt list"
  rt_attempt_count :: int

record trace_filter =
  tf_status :: string
  tf_model :: string
  tf_provider :: string
  tf_key_id :: string
  tf_dialect :: string
  tf_limit :: int
  tf_offset :: int

section \<open>Keyed stores\<close>

text \<open>The four bodies that the code repeats for every keyed store.\<close>

definition mem_get :: "string \<Rightarrow> (string, 'v) gomap \<Rightarrow> storage_error + 'v" where
  "mem_get k s = (case map_of s k of None \<Rightarrow> Inl StorageNotFound | Some v \<Rightarrow> Inr v)"

definition mem_put :: "('v \<Rightarrow> string) \<Rightarrow> 'v \<Rightarrow> (string, 'v) gomap \<Rightarrow> (string, 'v) gomap" where
  "mem_put key v s = map_put (key v) v s"

definition mem_delete :: "string \<Rightarrow> (string, 'v) gomap \<Rightarrow> storage_error option \<times> (string, 'v) gomap" where
  "mem_delete k s = (case map_of s k of
      None \<Rightarrow> (Some StorageNotFound, s)
    | Some _ \<Rightarrow> (None, map_del k s))"

definition mem_list :: "('v \<Rightarrow> string) \<Rightarrow> (string, 'v) gomap \<Rightarrow> 'v list" where
  "mem_list key s = sort_key key (map_vals s)"

text \<open>What a caller of a keyed store relies on.\<close>

locale kv_store =
  fixes key :: "'v \<Rightarrow> string"
    and get :: "string \<Rightarrow> 's \<Rightarrow> storage_error + 'v"
    and put :: "'v \<Rightarrow> 's \<Rightarrow> 's"
    and del :: "string \<Rightarrow> 's \<Rightarrow> storage_error option \<times> 's"
    and listing :: "'s \<Rightarrow> 'v list"
    and inv :: "'s \<Rightarrow> bool"
  assumes inv_put: "inv s \<Longrightarrow> inv (put v s)"
    and inv_del: "inv s \<Longrightarrow> inv (snd (del k s))"
    and get_put: "get k (put v s) = (if k = key v then Inr v else get k s)"
    and get_del: "inv s \<Longrightarrow> get k (snd (del k' s)) = (if k = k' then Inl StorageNotFound else get k s)"
    and del_result: "fst (del k s) = (case get k s of Inl _ \<Rightarrow> Some StorageNotFound | Inr _ \<Rightarrow> None)"
    and list_get: "inv s \<Longrightarrow> v \<in> set (listing s) \<longleftrightarrow> get (key v) s = Inr v"
    and list_sorted: "inv s \<Longrightarrow> sorted (map key (listing s))"
    and list_distinct: "inv s \<Longrightarrow> distinct (map key (listing s))"
begin

lemma sorted_by_key_unique:
  assumes "sorted (map key xs)" "distinct (map key xs)" "sorted (map key ys)" "distinct (map key ys)"
    and "set xs = set ys"
  shows "xs = ys"
  using assms by (metis distinct_map map_sorted_distinct_set_unique sup.idem)

text \<open>A listing is a function of the lookups: two states that answer every \<open>get\<close> alike list
  the same records in the same order, whatever history led to them.\<close>

lemma listing_determined:
  assumes "inv s" and "inv t" and "\<And>k. get k s = get k t"
  shows "listing s = listing t"
  using assms by (intro sorted_by_key_unique) (auto simp: list_sorted list_distinct list_get)

lemma listing_put:
  assumes "inv s"
  shows "set (listing (put v s)) = insert v {w \<in> set (listing s). key w \<noteq> key v}"
  using assms by (auto simp: list_get inv_put get_put split: if_splits)

lemma listing_del:
  assumes "inv s"
  shows "set (listing (snd (del k s))) = {w \<in> set (listing s). key w \<noteq> k}"
  using assms by (auto simp: list_get inv_del get_del split: if_splits)

lemma put_put_commute:
  assumes "inv s" and "key v \<noteq> key w"
  shows "listing (put v (put w s)) = listing (put w (put v s))"
  using assms by (intro listing_determined) (auto simp: inv_put get_put)

lemma put_delete_restores:
  assumes "inv s" and "get (key v) s = Inl StorageNotFound"
  shows "listing (snd (del (key v) (put v s))) = listing s"
  using assms by (intro listing_determined) (auto simp: inv_put inv_del get_put get_del)

end

text \<open>The model of every keyed map is such a store, its records filed under their own key.\<close>

definition keyed :: "('v \<Rightarrow> string) \<Rightarrow> (string, 'v) gomap \<Rightarrow> bool" where
  "keyed key s \<longleftrightarrow> map_wf s \<and> (\<forall>k v. map_of s k = Some v \<longrightarrow> key v = k)"

lemma mem_store: "kv_store key mem_get (mem_put key) mem_delete (mem_list key) (keyed key)"
proof (unfold_locales, goal_cases)
  case (1 s v)
  then show ?case by (auto simp: keyed_def mem_put_def)
next
  case (2 s k)
  then show ?case by (auto simp: keyed_def mem_delete_def split: option.split if_splits)
next
  case (3 k v s)
  show ?case by (simp add: mem_get_def mem_put_def)
next
  case (4 s k k')
  then show ?case
    by (auto simp: mem_get_def mem_delete_def split: option.splits)
next
  case (5 k s)
  show ?case by (auto simp: mem_get_def mem_delete_def split: option.split)
next
  case (6 s v)
  then have "v \<in> set (map_vals s) \<longleftrightarrow> map_of s (key v) = Some v"
    by (auto simp: keyed_def map_of_in_wf [symmetric]) (metis map_of_in_wf snd_conv imageI)+
  then show ?case by (auto simp: mem_list_def mem_get_def split: option.split)
next
  case (7 s)
  show ?case by (simp add: mem_list_def)
next
  case (8 s)
  then have "map key (map_vals s) = map_keys s"
    by (auto simp: keyed_def map_of_in_wf [symmetric])
  moreover have "distinct (map_keys s)" using 8 by (simp add: keyed_def map_wf_def)
  ultimately have "distinct (map key (map_vals s))" by (simp only:)
  then show ?case unfolding mem_list_def by (simp only: distinct_map_sort_key)
qed

end
