(* ===== verification/Storage_Memory.thy ===== *)
theory Storage_Memory
  imports Storage "HOL-Library.Multiset"
begin

text \<open>
  The operations of the in-memory store (\<^verbatim>\<open>Memory\<close> and the \<^verbatim>\<open>memory*\<close> types of
  \<^verbatim>\<open>internal/storage/storage.go\<close>), with the deletion of a provider and of everything that only
  exists because of it, the usage log and its aggregates, and the trace log.
\<close>

section \<open>Keyed stores\<close>

type_synonym providers = "(string, provider_record) gomap"
type_synonym models = "(string, model_alias) gomap"
type_synonym combos = "(string, combo) gomap"
type_synonym proxies = "(string, proxy) gomap"

definition providers_list :: "providers \<Rightarrow> provider_record list" where "providers_list = mem_list pr_name"
definition providers_get :: "string \<Rightarrow> providers \<Rightarrow> storage_error + provider_record" where "providers_get = mem_get"
definition providers_put :: "provider_record \<Rightarrow> providers \<Rightarrow> providers" where "providers_put = mem_put pr_name"

definition models_list :: "models \<Rightarrow> model_alias list" where "models_list = mem_list ma_alias"
definition models_get :: "string \<Rightarrow> models \<Rightarrow> storage_error + model_alias" where "models_get = mem_get"
definition models_put :: "model_alias \<Rightarrow> models \<Rightarrow> models" where "models_put = mem_put ma_alias"
definition models_delete :: "string \<Rightarrow> models \<Rightarrow> storage_error option \<times> models" where "models_delete = mem_delete"

definition combos_list :: "combos \<Rightarrow> combo list" where "combos_list = mem_list co_name"
definition combos_get :: "string \<Rightarrow> combos \<Rightarrow> storage_error + combo" where "combos_get = mem_get"
definition combos_put :: "combo \<Rightarrow> combos \<Rightarrow> combos" where "combos_put = mem_put co_name"
definition combos_delete :: "string \<Rightarrow> combos \<Rightarrow> storage_error option \<times> combos" where "combos_delete = mem_delete"

definition proxies_list :: "proxies \<Rightarrow> proxy list" where "proxies_list = mem_list px_name"
definition proxies_get :: "string \<Rightarrow> proxies \<Rightarrow> storage_error + proxy" where "proxies_get = mem_get"
definition proxies_put :: "proxy \<Rightarrow> proxies \<Rightarrow> proxies" where "proxies_put = mem_put px_name"
definition proxies_delete :: "string \<Rightarrow> proxies \<Rightarrow> storage_error option \<times> proxies" where "proxies_delete = mem_delete"

interpretation models: kv_store ma_alias models_get models_put models_delete models_list "keyed ma_alias"
  unfolding models_get_def models_put_def models_delete_def models_list_def by (rule mem_store)

interpretation combos: kv_store co_name combos_get combos_put combos_delete combos_list "keyed co_name"
  unfolding combos_get_def combos_put_def combos_delete_def combos_list_def by (rule mem_store)

interpretation proxies: kv_store px_name proxies_get proxies_put proxies_delete proxies_list "keyed px_name"
  unfolding proxies_get_def proxies_put_def proxies_delete_def proxies_list_def by (rule mem_store)

definition combos_rename :: "string \<Rightarrow> string \<Rightarrow> combos \<Rightarrow> storage_error option \<times> combos" where
  "combos_rename old_name new_name s = (case map_of s old_name of
      None \<Rightarrow> (Some StorageNotFound, s)
    | Some c \<Rightarrow>
        if old_name = new_name then (None, s)
        else if map_of s new_name \<noteq> None then (Some StorageConflict, s)
        else (None, map_put new_name (c\<lparr>co_name := new_name\<rparr>) (map_del old_name s)))"

text \<open>Settings are bare strings.\<close>

type_synonym settings = "(string, string) gomap"

definition settings_all :: "settings \<Rightarrow> settings" where "settings_all s = s"
definition settings_put :: "string \<Rightarrow> string \<Rightarrow> settings \<Rightarrow> settings" where "settings_put k v s = map_put k v s"

text \<open>API keys.\<close>

type_synonym api_keys = "(string, api_key) gomap"

definition keys_create :: "api_key \<Rightarrow> api_keys \<Rightarrow> api_keys" where
  "keys_create key s = map_put (ak_id key) key s"

definition keys_get_by_hash :: "string \<Rightarrow> api_keys \<Rightarrow> storage_error + api_key" where
  "keys_get_by_hash hash s = (case find (\<lambda>key. ak_hash key = hash) (map_vals s) of
      None \<Rightarrow> Inl StorageNotFound | Some key \<Rightarrow> Inr key)"

definition keys_list :: "api_keys \<Rightarrow> api_key list" where "keys_list s = map_vals s"

definition keys_update :: "string \<Rightarrow> (api_key \<Rightarrow> api_key) \<Rightarrow> api_keys \<Rightarrow> storage_error option \<times> api_keys" where
  "keys_update i f s = (case map_of s i of
      None \<Rightarrow> (Some StorageNotFound, s) | Some key \<Rightarrow> (None, map_put i (f key) s))"

definition keys_touch_last_used :: "string \<Rightarrow> instant \<Rightarrow> api_keys \<Rightarrow> storage_error option \<times> api_keys" where
  "keys_touch_last_used i t = keys_update i (\<lambda>key. key\<lparr>ak_last_used_at := t\<rparr>)"

definition keys_set_quota :: "string \<Rightarrow> int \<Rightarrow> rat \<Rightarrow> api_keys \<Rightarrow> storage_error option \<times> api_keys" where
  "keys_set_quota i per_min budget = keys_update i (\<lambda>key. key\<lparr>ak_rate_limit := per_min, ak_budget := budget\<rparr>)"

definition keys_set_allowed_models :: "string \<Rightarrow> string list \<Rightarrow> api_keys \<Rightarrow> storage_error option \<times> api_keys" where
  "keys_set_allowed_models i ms = keys_update i (\<lambda>key. key\<lparr>ak_allowed_models := ms\<rparr>)"

definition keys_delete :: "string \<Rightarrow> api_keys \<Rightarrow> storage_error option \<times> api_keys" where
  "keys_delete = mem_delete"

text \<open>Prompt entries.\<close>

type_synonym prompt_entries = "(string, prompt_entry) gomap"

definition prompts_list :: "string \<Rightarrow> prompt_entries \<Rightarrow> prompt_entry list" where
  "prompts_list ext s = sort_key se_priority (filter (\<lambda>e. se_extension_id e = ext) (map_vals s))"

definition prompts_get :: "string \<Rightarrow> prompt_entries \<Rightarrow> storage_error + prompt_entry" where "prompts_get = mem_get"
definition prompts_put :: "prompt_entry \<Rightarrow> prompt_entries \<Rightarrow> prompt_entries" where "prompts_put = mem_put se_id"
definition prompts_delete :: "string \<Rightarrow> prompt_entries \<Rightarrow> storage_error option \<times> prompt_entries" where "prompts_delete = mem_delete"

definition prompts_delete_by_extension :: "string \<Rightarrow> prompt_entries \<Rightarrow> prompt_entries" where
  "prompts_delete_by_extension ext s = filter (\<lambda>(i, e). se_extension_id e \<noteq> ext) s"

section \<open>The usage log\<close>

definition usage_record :: "usage_event \<Rightarrow> usage_event list \<Rightarrow> usage_event list" where
  "usage_record e s = s @ [e\<lparr>ue_id := int (length s) + 1\<rparr>]"

definition usage_delete_provider :: "string \<Rightarrow> usage_event list \<Rightarrow> usage_event list" where
  "usage_delete_provider name s = filter (\<lambda>e. ue_provider e \<noteq> name) s"

definition usage_recent :: "int \<Rightarrow> usage_event list \<Rightarrow> usage_event list" where
  "usage_recent limit s = take (nat limit) (rev s)"

record usage_totals =
  ut_requests :: int
  ut_errors :: int
  ut_prompt :: int
  ut_completion :: int
  ut_cached :: int
  ut_cost :: rat

definition zero_totals :: usage_totals where
  "zero_totals = \<lparr>ut_requests = 0, ut_errors = 0, ut_prompt = 0, ut_completion = 0, ut_cached = 0, ut_cost = 0\<rparr>"

definition totals_add :: "usage_event \<Rightarrow> usage_totals \<Rightarrow> usage_totals" where
  "totals_add e t = \<lparr>ut_requests = ut_requests t + 1,
     ut_errors = (if ue_status e \<noteq> ''ok'' then ut_errors t + 1 else ut_errors t),
     ut_prompt = ut_prompt t + ue_prompt e, ut_completion = ut_completion t + ue_completion e,
     ut_cached = ut_cached t + ue_cached e, ut_cost = ut_cost t + ue_cost e\<rparr>"

definition usage_totals_since :: "instant \<Rightarrow> usage_event list \<Rightarrow> usage_totals" where
  "usage_totals_since since s =
     fold (\<lambda>e t. if ue_created_at e < since then t else totals_add e t) s zero_totals"

text \<open>One accumulator per bucket, alias or key; the three aggregates differ in what names it.\<close>

record 'k usage_group =
  ug_key :: 'k
  ug_requests :: int
  ug_prompt :: int
  ug_completion :: int
  ug_cached :: int
  ug_cost :: rat
  ug_last_used :: instant

definition zero_group :: "'k \<Rightarrow> 'k usage_group" where
  "zero_group k = \<lparr>ug_key = k, ug_requests = 0, ug_prompt = 0, ug_completion = 0, ug_cached = 0,
     ug_cost = 0, ug_last_used = 0\<rparr>"

definition group_add :: "usage_event \<Rightarrow> 'k usage_group \<Rightarrow> 'k usage_group" where
  "group_add e g = g\<lparr>ug_requests := ug_requests g + 1, ug_prompt := ug_prompt g + ue_prompt e,
     ug_completion := ug_completion g + ue_completion e, ug_cached := ug_cached g + ue_cached e,
     ug_cost := ug_cost g + ue_cost e,
     ug_last_used := (if ug_last_used g < ue_created_at e then ue_created_at e else ug_last_used g)\<rparr>"

definition group_events :: "(usage_event \<Rightarrow> 'i) \<Rightarrow> (usage_event \<Rightarrow> 'k) \<Rightarrow> usage_event list \<Rightarrow> ('i, 'k usage_group) gomap" where
  "group_events index label es =
     fold (\<lambda>e m. let g = (case map_of m (index e) of Some g \<Rightarrow> g | None \<Rightarrow> zero_group (label e))
                 in map_put (index e) (group_add e g) m) es []"

definition since_filter :: "instant \<Rightarrow> usage_event list \<Rightarrow> usage_event list" where
  "since_filter since s = filter (\<lambda>e. \<not> ue_created_at e < since) s"

text \<open>\<^verbatim>\<open>Time.Truncate\<close> rounds down to a multiple of the bucket since the zero time; buckets are
  found by the second they start in.\<close>

definition truncate_time :: "instant \<Rightarrow> duration \<Rightarrow> instant" where
  "truncate_time t d = t - t mod d"

definition usage_series :: "instant \<Rightarrow> duration \<Rightarrow> usage_event list \<Rightarrow> instant usage_group list" where
  "usage_series since bucket s =
     (if bucket \<le> 0 then []
      else sort_key ug_key (map_vals
        (group_events (\<lambda>e. truncate_time (ue_created_at e) bucket div second)
           (\<lambda>e. truncate_time (ue_created_at e) bucket) (since_filter since s))))"

definition usage_by_model :: "usage_event list \<Rightarrow> string usage_group list" where
  "usage_by_model s = sort_key (\<lambda>g. - ug_last_used g) (map_vals (group_events ue_alias ue_alias s))"

datatype leaderboard_sort = LeaderboardByRequests | LeaderboardByTokens | LeaderboardByCost

fun leaderboard_rank :: "leaderboard_sort \<Rightarrow> string usage_group \<Rightarrow> rat" where
  "leaderboard_rank LeaderboardByRequests g = of_int (ug_requests g)"
| "leaderboard_rank LeaderboardByTokens g = of_int (ug_prompt g + ug_completion g)"
| "leaderboard_rank LeaderboardByCost g = ug_cost g"

definition usage_leaderboard ::
  "instant \<Rightarrow> int \<Rightarrow> leaderboard_sort \<Rightarrow> usage_event list \<Rightarrow> string usage_group list"
where
  "usage_leaderboard since limit by s =
     (let out = sort_key (\<lambda>g. - leaderboard_rank by g)
                  (map_vals (group_events ue_alias ue_alias (since_filter since s)))
      in if limit > 0 \<and> int (length out) > limit then take (nat limit) out else out)"

definition usage_by_key :: "instant \<Rightarrow> usage_event list \<Rightarrow> string usage_group list" where
  "usage_by_key since s =
     sort_key (\<lambda>g. - ug_cost g) (map_vals (group_events ue_key_id ue_key_id (since_filter since s)))"

definition usage_key_spend :: "string \<Rightarrow> instant \<Rightarrow> usage_event list \<Rightarrow> rat" where
  "usage_key_spend key since s =
     fold (\<lambda>e t. if ue_key_id e = key \<and> \<not> ue_created_at e < since then t + ue_cost e else t) s 0"

definition usage_prune :: "instant \<Rightarrow> usage_event list \<Rightarrow> int \<times> usage_event list" where
  "usage_prune before s =
     (int (length (filter (\<lambda>e. ue_created_at e < before) s)), filter (\<lambda>e. \<not> ue_created_at e < before) s)"

section \<open>Traces\<close>

definition dialect_or_default :: "string \<Rightarrow> string" where
  "dialect_or_default d = (if d = [] then ''openai'' else d)"

definition trace_record :: "request_trace \<Rightarrow> request_trace list \<Rightarrow> request_trace list" where
  "trace_record t s =
     (let t' = t\<lparr>rt_attempt_count := int (length (rt_attempts t)),
                 rt_dialect := dialect_or_default (rt_dialect t)\<rparr>
      in case List.extract (\<lambda>u. rt_request_id u = rt_request_id t') s of
           None \<Rightarrow> s @ [t']
         | Some (before, _, after) \<Rightarrow> before @ t' # after)"

definition trace_matches :: "request_trace \<Rightarrow> trace_filter \<Rightarrow> bool" where
  "trace_matches t f \<longleftrightarrow>
     \<not> (tf_status f \<noteq> [] \<and> rt_final_status t \<noteq> tf_status f) \<and>
     \<not> (tf_model f \<noteq> [] \<and> rt_model t \<noteq> tf_model f) \<and>
     \<not> (tf_dialect f \<noteq> [] \<and> rt_dialect t \<noteq> tf_dialect f) \<and>
     \<not> (tf_key_id f \<noteq> [] \<and> rt_key_id t \<noteq> tf_key_id f) \<and>
     (tf_provider f = [] \<or> list_ex (\<lambda>a. ra_provider a = tf_provider f) (rt_attempts t))"

text \<open>A negative offset would be out of range for the slice; the callers never pass one.\<close>

definition trace_list :: "trace_filter \<Rightarrow> request_trace list \<Rightarrow> request_trace list \<times> int" where
  "trace_list f s =
     (let matched = sort_key (\<lambda>t. - rt_created_at t) (filter (\<lambda>t. trace_matches t f) s);
          n = int (length matched)
      in if tf_offset f \<ge> n then ([], n)
         else let page = drop (nat (tf_offset f)) matched;
                  page = (if tf_limit f > 0 \<and> tf_limit f < int (length page)
                          then take (nat (tf_limit f)) page else page)
              in (map (\<lambda>t. t\<lparr>rt_attempts := []\<rparr>) page, n))"

definition trace_get :: "string \<Rightarrow> request_trace list \<Rightarrow> storage_error + request_trace" where
  "trace_get i s = (case find (\<lambda>t. rt_request_id t = i) s of
      None \<Rightarrow> Inl StorageNotFound | Some t \<Rightarrow> Inr t)"

definition trace_prune :: "instant \<Rightarrow> request_trace list \<Rightarrow> int \<times> request_trace list" where
  "trace_prune before s =
     (int (length (filter (\<lambda>t. rt_created_at t < before) s)), filter (\<lambda>t. \<not> rt_created_at t < before) s)"

section \<open>Deleting a provider\<close>

definition models_delete_provider :: "string \<Rightarrow> models \<Rightarrow> string list \<times> models" where
  "models_delete_provider name s =
     (let dropped = map fst (filter (\<lambda>(a, m). ma_provider m = name) s);
          rest = filter (\<lambda>(a, m). ma_provider m \<noteq> name) s
      in if dropped = [] then (dropped, rest)
         else (dropped, map (\<lambda>(a, m). (a,
                 let kept = filter (\<lambda>r. r \<notin> set dropped) (ma_fallback m)
                 in if length kept \<noteq> length (ma_fallback m) then m\<lparr>ma_fallback := kept\<rparr> else m)) rest))"

fun keep_members :: "string list \<Rightarrow> string list \<Rightarrow> int list \<Rightarrow> string list \<times> int list" where
  "keep_members dropped [] ws = ([], [])"
| "keep_members dropped (m # ms) ws =
     (let (km, kw) = keep_members dropped ms (drop 1 ws)
      in if m \<in> set dropped then (km, kw) else (m # km, take 1 ws @ kw))"

definition prune_combo :: "string list \<Rightarrow> combo \<Rightarrow> combo option" where
  "prune_combo dropped c =
     (let (kept, kept_weights) = keep_members dropped (co_members c) (co_weights c)
      in if length kept = length (co_members c) then Some c
         else if kept = [] then None
         else Some (c\<lparr>co_members := kept, co_weights := kept_weights\<rparr>))"

definition combos_prune_members :: "string list \<Rightarrow> combos \<Rightarrow> combos" where
  "combos_prune_members dropped s =
     (if dropped = [] then s
      else List.map_filter (\<lambda>(n, c). map_option (Pair n) (prune_combo dropped c)) s)"

record memory =
  mem_keys :: api_keys
  mem_providers :: providers
  mem_models :: models
  mem_combos :: combos
  mem_proxies :: proxies
  mem_prompts :: prompt_entries
  mem_settings :: settings
  mem_usage :: "usage_event list"
  mem_traces :: "request_trace list"

definition new_memory :: memory where
  "new_memory = \<lparr>mem_keys = [], mem_providers = [], mem_models = [], mem_combos = [], mem_proxies = [],
     mem_prompts = [], mem_settings = [], mem_usage = [], mem_traces = []\<rparr>"

definition delete_provider :: "string \<Rightarrow> memory \<Rightarrow> storage_error option \<times> memory" where
  "delete_provider name s = (case map_of (mem_providers s) name of
      None \<Rightarrow> (Some StorageNotFound, s)
    | Some _ \<Rightarrow>
        (let (dropped, models') = models_delete_provider name (mem_models s)
         in (None, s\<lparr>mem_providers := map_del name (mem_providers s), mem_models := models',
                     mem_combos := combos_prune_members dropped (mem_combos s),
                     mem_usage := usage_delete_provider name (mem_usage s)\<rparr>)))"

section \<open>Nothing dangles after a deletion\<close>

definition provided_by :: "string \<Rightarrow> models \<Rightarrow> string \<Rightarrow> bool" where
  "provided_by name ms a \<longleftrightarrow> (\<exists>m. map_of ms a = Some m \<and> ma_provider m = name)"

lemma dropped_eq:
  "fst (models_delete_provider name ms) = map fst (filter (\<lambda>(a, m). ma_provider m = name) ms)"
  by (simp add: models_delete_provider_def Let_def)

lemma dropped_set:
  "map_wf ms \<Longrightarrow> set (fst (models_delete_provider name ms)) = {a. provided_by name ms a}"
  by (force simp: dropped_eq provided_by_def map_of_in_wf [symmetric] image_iff)

lemma models_delete_snd:
  "snd (models_delete_provider name ms) =
     (let rest = filter (\<lambda>(a, m). ma_provider m \<noteq> name) ms; dropped = fst (models_delete_provider name ms)
      in if dropped = [] then rest
         else map (\<lambda>(a, m). (a,
           let kept = filter (\<lambda>r. r \<notin> set dropped) (ma_fallback m)
           in if length kept \<noteq> length (ma_fallback m) then m\<lparr>ma_fallback := kept\<rparr> else m)) rest)"
  unfolding dropped_eq by (simp add: models_delete_provider_def Let_def)

lemma filter_same_length: "length (filter P xs) = length xs \<longleftrightarrow> filter P xs = xs"
  by (metis filter_id_conv length_filter_less less_irrefl)

lemma models_after_delete:
  assumes "map_wf ms"
  shows "map_of (snd (models_delete_provider name ms)) a =
    (case map_of ms a of
       None \<Rightarrow> None
     | Some m \<Rightarrow> if ma_provider m = name then None
                 else Some (m\<lparr>ma_fallback := filter (\<lambda>r. \<not> provided_by name ms r) (ma_fallback m)\<rparr>))"
proof -
  let ?d = "fst (models_delete_provider name ms)"
  let ?rest = "filter (\<lambda>(a, m). ma_provider m \<noteq> name) ms"
  have d: "r \<in> set ?d \<longleftrightarrow> provided_by name ms r" for r using dropped_set [OF assms] by auto
  have rest: "map_of ?rest a = (case map_of ms a of None \<Rightarrow> None
      | Some m \<Rightarrow> if ma_provider m = name then None else Some m)"
    using assms by (simp add: map_of_filter_wf split: option.split)
  have "snd (models_delete_provider name ms) = map (\<lambda>(a, m). (a,
      m\<lparr>ma_fallback := filter (\<lambda>r. \<not> provided_by name ms r) (ma_fallback m)\<rparr>)) ?rest"
  proof (cases "?d = []")
    case True
    then have "\<not> provided_by name ms r" for r using d by simp
    then show ?thesis
      using True by (auto simp: models_delete_snd Let_def intro!: map_idI [symmetric])
  next
    case False
    then show ?thesis
      by (auto simp: models_delete_snd Let_def d filter_same_length)
  qed
  then show ?thesis
    by (simp add: map_of_map_vals rest split: option.split)
qed

lemma keep_members_fst: "fst (keep_members d ms ws) = filter (\<lambda>m. m \<notin> set d) ms"
  by (induction d ms ws rule: keep_members.induct) (auto simp: Let_def split: prod.splits)

lemma keep_members_zip:
  "length ws = length ms \<Longrightarrow>
   length (snd (keep_members d ms ws)) = length (fst (keep_members d ms ws)) \<and>
   zip (fst (keep_members d ms ws)) (snd (keep_members d ms ws)) =
     filter (\<lambda>(m, w). m \<notin> set d) (zip ms ws)"
proof (induction d ms ws rule: keep_members.induct)
  case (2 d m ms ws)
  then obtain w ws' where "ws = w # ws'" by (cases ws) auto
  with 2 show ?case by (auto simp: Let_def split: prod.splits)
qed simp

lemma keep_members_no_weights: "snd (keep_members d ms []) = []"
  by (induction ms) (auto simp: Let_def split: prod.splits)

lemma prune_combo_eq:
  "prune_combo d c =
     (if filter (\<lambda>m. m \<notin> set d) (co_members c) = co_members c then Some c
      else if filter (\<lambda>m. m \<notin> set d) (co_members c) = [] then None
      else Some (c\<lparr>co_members := filter (\<lambda>m. m \<notin> set d) (co_members c),
                   co_weights := snd (keep_members d (co_members c) (co_weights c))\<rparr>))"
  using keep_members_fst [of d "co_members c" "co_weights c"]
  by (auto simp: prune_combo_def filter_same_length split: prod.splits)

lemma prune_combo_nil: "prune_combo [] = Some"
  by (rule ext) (simp add: prune_combo_eq)

lemma map_of_map_filter:
  "map_wf s \<Longrightarrow> map_of (List.map_filter (\<lambda>(n, c). map_option (Pair n) (f c)) s) n =
     Option.bind (map_of s n) f"
proof (induction s)
  case (Cons kv s)
  obtain k v where kv: "kv = (k, v)" by force
  from Cons.prems have "map_wf s" "map_of s k = None"
    by (auto simp: kv map_wf_def map_of_eq_None_iff)
  with Cons.IH show ?case by (auto simp: kv map_filter_simps split: option.split)
qed (simp add: map_filter_simps)

lemma combos_after_prune:
  "map_wf s \<Longrightarrow> map_of (combos_prune_members d s) n = Option.bind (map_of s n) (prune_combo d)"
  by (cases "d = []")
    (auto simp: combos_prune_members_def map_of_map_filter prune_combo_nil bind_eq_Some_conv
      intro: option.expand split: bind_split)

text \<open>A combo is well formed when it has members, and weights for all of them or none.\<close>

definition combo_wf :: "combo \<Rightarrow> bool" where
  "combo_wf c \<longleftrightarrow> co_members c \<noteq> [] \<and>
     (co_weights c = [] \<or> length (co_weights c) = length (co_members c))"

text \<open>
  C34. Nothing dangles. Deleting a provider removes it, exactly its own aliases, every
  reference to one of them in another fallback chain or combo, and its usage events; all
  other providers, aliases and events stay as they were.
\<close>

theorem delete_provider_no_dangling:
  assumes "delete_provider name s = (None, s')" and "map_wf (mem_models s)" and "map_wf (mem_combos s)"
  shows "map_of (mem_providers s') n = (if n = name then None else map_of (mem_providers s) n)
    \<and> map_of (mem_models s') a =
        (case map_of (mem_models s) a of
           None \<Rightarrow> None
         | Some m \<Rightarrow> if ma_provider m = name then None
             else Some (m\<lparr>ma_fallback := filter (\<lambda>r. \<not> provided_by name (mem_models s) r) (ma_fallback m)\<rparr>))
    \<and> (\<forall>c. map_of (mem_combos s') n = Some c \<longrightarrow>
          (\<forall>m \<in> set (co_members c). \<not> provided_by name (mem_models s) m))
    \<and> mem_usage s' = filter (\<lambda>e. ue_provider e \<noteq> name) (mem_usage s)"
proof -
  let ?d = "fst (models_delete_provider name (mem_models s))"
  have s': "s' = s\<lparr>mem_providers := map_del name (mem_providers s),
      mem_models := snd (models_delete_provider name (mem_models s)),
      mem_combos := combos_prune_members ?d (mem_combos s),
      mem_usage := usage_delete_provider name (mem_usage s)\<rparr>"
    using assms(1) by (auto simp: delete_provider_def split: option.splits prod.splits)
  have "\<not> provided_by name (mem_models s) m"
    if "map_of (mem_combos s') n = Some c" and "m \<in> set (co_members c)" for c m
  proof -
    have "Option.bind (map_of (mem_combos s) n) (prune_combo ?d) = Some c"
      using that(1) combos_after_prune [OF assms(3), of ?d n] by (simp add: s')
    then obtain c0 where "prune_combo ?d c0 = Some c" by (auto simp: bind_eq_Some_conv)
    then have "m \<notin> set ?d"
      using that(2) by (auto simp: prune_combo_eq filter_id_conv split: if_splits)
    then show ?thesis using dropped_set [OF assms(2)] by auto
  qed
  then show ?thesis
    using assms(2) by (auto simp: s' models_after_delete usage_delete_provider_def)
qed

definition example_alias :: "string \<Rightarrow> string \<Rightarrow> string list \<Rightarrow> model_alias" where
  "example_alias a p fb = \<lparr>ma_alias = a, ma_provider = p, ma_model = a, ma_fallback = fb, ma_capabilities = [],
     ma_max_context = 0, ma_quality_tier = 0, ma_price_input = 0, ma_price_output = 0\<rparr>"

definition example_provider :: "string \<Rightarrow> provider_record" where
  "example_provider n = \<lparr>pr_id = n, pr_name = n, pr_kind = ''openai'', pr_base_url = ''https://x'',
     pr_api_key = [], pr_api_keys = [], pr_api_key_method = ''off'', pr_timeout = 0, pr_enabled = True,
     pr_group = ''custom'', pr_catalog_id = [], pr_alias_prefix = [], pr_use_proxy_pool = False,
     pr_breaker_threshold = None, pr_breaker_cooldown = None\<rparr>"

definition example_memory :: memory where
  "example_memory = new_memory\<lparr>
     mem_providers := [(''p'', example_provider ''p''), (''q'', example_provider ''q'')],
     mem_models := [(''a'', example_alias ''a'' ''p'' []), (''b'', example_alias ''b'' ''q'' [''a''])],
     mem_combos := [(''c'', \<lparr>co_name = ''c'', co_strategy = ComboWeighted, co_members = [''a'', ''b''],
        co_weights = [1, 5], co_enabled = True\<rparr>)]\<rparr>"

theorem delete_provider_no_dangling_witness:
  "map_of (mem_models (snd (delete_provider ''p'' example_memory))) ''b'' = Some (example_alias ''b'' ''q'' [])"
proof -
  let ?s = "snd (delete_provider ''p'' example_memory)"
  have d: "delete_provider ''p'' example_memory = (None, ?s)"
    by (simp add: delete_provider_def example_memory_def new_memory_def split: prod.split)
  have "map_wf (mem_models example_memory)" "map_wf (mem_combos example_memory)"
    by (simp_all add: example_memory_def map_wf_def)
  from delete_provider_no_dangling [OF d this, of "''x''" "''b''"]
  have "map_of (mem_models ?s) ''b'' =
      (case map_of (mem_models example_memory) ''b'' of
           None \<Rightarrow> None
         | Some m \<Rightarrow> if ma_provider m = ''p'' then None
             else Some (m\<lparr>ma_fallback := filter (\<lambda>r. \<not> provided_by ''p'' (mem_models example_memory) r)
               (ma_fallback m)\<rparr>))"
    by blast
  then show ?thesis
    by (simp add: example_memory_def example_alias_def provided_by_def)
qed

text \<open>
  Weights follow their members. Pruning the combos keeps each of them well formed and
  keeps every surviving member paired with its own weight; a combo disappears exactly when
  none of its members survives.
\<close>

theorem prune_combo_keeps_weights:
  assumes "combo_wf c"
  shows "(prune_combo d c = None \<longleftrightarrow> set (co_members c) \<subseteq> set d)
    \<and> (\<forall>c'. prune_combo d c = Some c' \<longrightarrow> combo_wf c'
        \<and> co_members c' = filter (\<lambda>m. m \<notin> set d) (co_members c)
        \<and> zip (co_members c') (co_weights c') =
            filter (\<lambda>(m, w). m \<notin> set d) (zip (co_members c) (co_weights c)))"
proof -
  let ?k = "keep_members d (co_members c) (co_weights c)"
  have keep: "zip (fst ?k) (snd ?k) = filter (\<lambda>(m, w). m \<notin> set d) (zip (co_members c) (co_weights c))
    \<and> (snd ?k = [] \<or> length (snd ?k) = length (fst ?k))"
    using assms keep_members_zip [of "co_weights c" "co_members c" d]
    by (auto simp: combo_wf_def keep_members_no_weights)
  moreover have "filter (\<lambda>(m, w). m \<notin> set d) (zip (co_members c) (co_weights c)) =
      zip (co_members c) (co_weights c)" if "\<forall>m \<in> set (co_members c). m \<notin> set d"
    using that by (auto simp: filter_id_conv dest: set_zip_leftD)
  ultimately show ?thesis
    using assms
    by (auto simp: prune_combo_eq combo_wf_def keep_members_fst filter_id_conv filter_empty_conv)
qed

theorem prune_combo_keeps_weights_witness:
  "\<exists>c. prune_combo [''a''] \<lparr>co_name = ''c'', co_strategy = ComboWeighted, co_members = [''a'', ''b''],
        co_weights = [1, 5], co_enabled = True\<rparr> = Some c \<and> zip (co_members c) (co_weights c) = [(''b'', 5)]"
proof -
  let ?c = "\<lparr>co_name = ''c'', co_strategy = ComboWeighted, co_members = [''a'', ''b''],
        co_weights = [1, 5], co_enabled = True\<rparr>"
  have wf: "combo_wf ?c" by (simp add: combo_wf_def)
  have "prune_combo [''a''] ?c \<noteq> None"
    using prune_combo_keeps_weights [OF wf, of "[''a'']"] by simp
  then obtain c where "prune_combo [''a''] ?c = Some c" by auto
  with prune_combo_keeps_weights [OF wf, of "[''a'']"] show ?thesis by auto
qed

section \<open>Aggregates of the usage log\<close>

lemma sum_vals_put:
  "sum_list (map (\<lambda>x. f (snd x)) (map_put k v m)) =
     sum_list (map (\<lambda>x. f (snd x)) m) - (case map_of m k of None \<Rightarrow> 0 | Some w \<Rightarrow> f w) + (f v :: 'a :: ab_group_add)"
  by (induction m) (auto split: option.split)

lemma sum_list_sort_key: "sum_list (map f (sort_key g xs)) = sum_list (map (f :: _ \<Rightarrow> 'a :: comm_monoid_add) xs)"
  by (metis mset_map mset_sort sum_mset_sum_list)

text \<open>A quantity that every event adds to its group sums to the same total over all groups.\<close>

lemma group_events_sum:
  assumes "\<And>k. f (zero_group k) = 0" and "\<And>e g. f (group_add e g) = f g + (h e :: 'a :: ab_group_add)"
  shows "sum_list (map (\<lambda>x. f (snd x)) (group_events index label es)) = sum_list (map h es)"
proof (induction es rule: rev_induct)
  case (snoc e es)
  let ?m = "group_events index label es"
  have "group_events index label (es @ [e]) =
      map_put (index e) (group_add e (case map_of ?m (index e) of Some g \<Rightarrow> g | None \<Rightarrow> zero_group (label e))) ?m"
    by (simp add: group_events_def Let_def)
  then show ?case
    using snoc by (simp add: sum_vals_put assms split: option.split)
qed (simp add: group_events_def)

lemma group_events_snoc:
  "group_events index label (es @ [e]) =
     map_put (index e)
       (group_add e (case map_of (group_events index label es) (index e) of
          Some g \<Rightarrow> g | None \<Rightarrow> zero_group (label e)))
       (group_events index label es)"
  by (simp add: group_events_def Let_def)

lemma group_events_wf: "map_wf (group_events index label es)"
  by (induction es rule: rev_induct) (simp add: group_events_def, simp add: group_events_snoc)

lemma fold_cond_add:
  "fold (\<lambda>e t. if P e then t + h e else t) es (x :: 'a :: ab_group_add) = x + sum_list (map h (filter P es))"
  by (induction es arbitrary: x) (simp_all add: algebra_simps)

lemma key_spend_sum:
  "usage_key_spend key since s = sum_list (map ue_cost (filter (\<lambda>e. ue_key_id e = key) (since_filter since s)))"
  unfolding usage_key_spend_def fold_cond_add since_filter_def filter_filter
  by (simp add: conj_commute)

lemma group_cost:
  "map_of (group_events ue_key_id ue_key_id es) k =
     (if filter (\<lambda>e. ue_key_id e = k) es = [] then None
      else Some (fold group_add (filter (\<lambda>e. ue_key_id e = k) es) (zero_group k)))"
  by (induction es rule: rev_induct) (simp add: group_events_def, auto simp: group_events_snoc)

lemma fold_group_add_cost:
  "ug_cost (fold group_add es g) = ug_cost g + sum_list (map ue_cost es)
   \<and> ug_key (fold group_add es g) = ug_key g"
  by (induction es arbitrary: g) (simp_all add: group_add_def)

text \<open>
  The two readings of a key's spend agree: the cost that \<^verbatim>\<open>ByKey\<close> reports for a key is what
  \<^verbatim>\<open>KeySpend\<close> charges against its budget, and a key \<^verbatim>\<open>ByKey\<close> does not list has spent nothing.
\<close>

theorem by_key_agrees_with_key_spend:
  "(\<forall>g \<in> set (usage_by_key since s). ug_cost g = usage_key_spend (ug_key g) since s)
   \<and> (\<forall>key. key \<notin> ug_key ` set (usage_by_key since s) \<longrightarrow> usage_key_spend key since s = 0)"
proof (intro conjI ballI allI impI)
  let ?es = "since_filter since s"
  let ?m = "group_events ue_key_id ue_key_id ?es"
  have entry: "g = fold group_add (filter (\<lambda>e. ue_key_id e = k) ?es) (zero_group k)"
    if "(k, g) \<in> set ?m" for k g
    using that map_of_in_wf [OF group_events_wf, of k g ue_key_id ue_key_id ?es]
    by (auto simp: group_cost split: if_splits)
  have key: "ug_key g = k" if "(k, g) \<in> set ?m" for k g
    using entry [OF that] by (simp add: fold_group_add_cost zero_group_def)
  show "ug_cost g = usage_key_spend (ug_key g) since s" if g: "g \<in> set (usage_by_key since s)" for g
  proof -
    obtain k where k: "(k, g) \<in> set ?m" using g by (auto simp: usage_by_key_def)
    show ?thesis
      using entry [OF k] key [OF k] by (simp add: key_spend_sum fold_group_add_cost zero_group_def)
  qed
  show "usage_key_spend k since s = 0" if "k \<notin> ug_key ` set (usage_by_key since s)" for k
  proof (rule ccontr)
    assume "usage_key_spend k since s \<noteq> 0"
    then have "filter (\<lambda>e. ue_key_id e = k) ?es \<noteq> []" by (auto simp: key_spend_sum)
    then obtain g where "(k, g) \<in> set ?m"
      using map_of_in_wf [OF group_events_wf, of k _ ue_key_id ue_key_id ?es] by (auto simp: group_cost)
    with key [OF this] that show False by (force simp: usage_by_key_def)
  qed
qed

definition example_event :: "string \<Rightarrow> instant \<Rightarrow> rat \<Rightarrow> usage_event" where
  "example_event k t c = \<lparr>ue_id = 0, ue_created_at = t, ue_key_id = k, ue_alias = ''a'', ue_provider = ''p'',
     ue_model = ''m'', ue_streamed = False, ue_status = ''ok'', ue_duration = 0, ue_prompt = 3,
     ue_completion = 4, ue_cached = 0, ue_cache_write = 0, ue_reasoning = 0, ue_cost = c\<rparr>"

theorem by_key_agrees_with_key_spend_witness:
  "\<exists>g \<in> set (usage_by_key 5 [example_event ''k'' 6 2, example_event ''k'' 4 9]).
     ug_cost g = usage_key_spend ''k'' 5 [example_event ''k'' 6 2, example_event ''k'' 4 9]"
proof -
  let ?s = "[example_event ''k'' 6 2, example_event ''k'' 4 9]"
  have "usage_key_spend ''k'' 5 ?s \<noteq> 0" by (simp add: usage_key_spend_def example_event_def)
  then have "''k'' \<in> ug_key ` set (usage_by_key 5 ?s)"
    using by_key_agrees_with_key_spend [of 5 ?s] by blast
  then show ?thesis
    using by_key_agrees_with_key_spend [of 5 ?s] by auto
qed

lemma totals_fold:
  "fold (\<lambda>e t. if ue_created_at e < since then t else totals_add e t) s t0 =
   fold totals_add (since_filter since s) t0"
  by (induction s arbitrary: t0) (simp_all add: since_filter_def)

lemma fold_totals:
  "ut_requests (fold totals_add es t) = ut_requests t + sum_list (map (\<lambda>_. 1) es)
   \<and> ut_prompt (fold totals_add es t) = ut_prompt t + sum_list (map ue_prompt es)
   \<and> ut_completion (fold totals_add es t) = ut_completion t + sum_list (map ue_completion es)
   \<and> ut_cost (fold totals_add es t) = ut_cost t + sum_list (map ue_cost es)"
  by (induction es arbitrary: t) (simp_all add: totals_add_def)

text \<open>
  Conservation. A usage series loses nothing and counts nothing twice: over any window and
  for any positive bucket width, its buckets add up to the totals of the window.
\<close>

theorem series_adds_up:
  assumes "0 < bucket"
  shows "let bs = usage_series since bucket s; t = usage_totals_since since s in
      sum_list (map ug_requests bs) = ut_requests t \<and> sum_list (map ug_prompt bs) = ut_prompt t
      \<and> sum_list (map ug_completion bs) = ut_completion t \<and> sum_list (map ug_cost bs) = ut_cost t"
proof -
  have add: "ug_requests (group_add e g) = ug_requests g + 1" "ug_prompt (group_add e g) = ug_prompt g + ue_prompt e"
    "ug_completion (group_add e g) = ug_completion g + ue_completion e" "ug_cost (group_add e g) = ug_cost g + ue_cost e"
    for e and g :: "instant usage_group"
    by (simp_all add: group_add_def)
  show ?thesis
    using assms
    by (simp add: usage_series_def usage_totals_since_def totals_fold fold_totals zero_totals_def
        sum_list_sort_key Let_def comp_def group_events_sum [OF _ add(1)] group_events_sum [OF _ add(2)]
        group_events_sum [OF _ add(3)] group_events_sum [OF _ add(4)] zero_group_def)
qed

theorem series_adds_up_witness:
  "sum_list (map ug_cost (usage_series 0 10 [example_event ''k'' 6 2, example_event ''k'' 14 9])) = 11"
  using series_adds_up [of 10 0 "[example_event ''k'' 6 2, example_event ''k'' 14 9]"]
  by (simp add: Let_def usage_totals_since_def example_event_def totals_add_def zero_totals_def)

section \<open>Renaming combos\<close>

lemma combos_rename_get:
  assumes "combos_rename old new s = (None, s')" and "old \<noteq> new"
  shows "map_of s' = (map_of s)(old := None, new := map_option (\<lambda>c. c\<lparr>co_name := new\<rparr>) (map_of s old))"
    and "map_of s old \<noteq> None" and "map_of s new = None"
  using assms by (auto simp: combos_rename_def split: option.splits if_splits)

lemma keyed_rename:
  "keyed co_name s \<Longrightarrow> keyed co_name (snd (combos_rename old new s))"
  by (auto simp: keyed_def combos_rename_def split: option.splits if_splits)

text \<open>
  Round trip. A rename that succeeds can be undone: renaming back also succeeds and lists
  exactly the combos that were listed before, in the same order.
\<close>

theorem rename_round_trip:
  assumes "keyed co_name s" and "combos_rename old new s = (None, s')"
  shows "\<exists>s''. combos_rename new old s' = (None, s'') \<and> combos_list s'' = combos_list s"
proof (cases "old = new")
  case True
  with assms(2) show ?thesis by (auto simp: combos_rename_def split: option.splits)
next
  case False
  note m = combos_rename_get [OF assms(2) False]
  obtain c where c: "map_of s old = Some c" "co_name c = old"
    using m(2) assms(1) by (auto simp: keyed_def)
  let ?s = "snd (combos_rename new old s')"
  have ok: "combos_rename new old s' = (None, ?s)"
    using m c False by (auto simp: combos_rename_def)
  have "keyed co_name ?s"
    using keyed_rename keyed_rename [OF assms(1), of old new] assms(2) by auto
  moreover have "map_of ?s = map_of s"
    using combos_rename_get(1) [OF ok] False m(1,3) c by (auto simp: fun_eq_iff)
  ultimately have "combos_list ?s = combos_list s"
    using assms(1) by (intro combos.listing_determined) (auto simp: combos_get_def mem_get_def)
  with ok show ?thesis by blast
qed

theorem rename_round_trip_witness:
  "\<exists>s. combos_rename ''d'' ''c'' (snd (combos_rename ''c'' ''d'' (mem_combos example_memory))) = (None, s)
     \<and> combos_list s = combos_list (mem_combos example_memory)"
proof -
  have "keyed co_name (mem_combos example_memory)"
    by (auto simp: keyed_def map_wf_def example_memory_def split: if_splits)
  moreover have "combos_rename ''c'' ''d'' (mem_combos example_memory) =
      (None, snd (combos_rename ''c'' ''d'' (mem_combos example_memory)))"
    by (simp add: combos_rename_def example_memory_def)
  ultimately show ?thesis by (rule rename_round_trip)
qed

section \<open>The trace log\<close>

lemma find_append: "find P (xs @ ys) = (case find P xs of None \<Rightarrow> find P ys | Some x \<Rightarrow> Some x)"
  by (induction xs) simp_all

lemma trace_get_record:
  "trace_get i (trace_record t s) =
     (if i = rt_request_id t
      then Inr (t\<lparr>rt_attempt_count := int (length (rt_attempts t)), rt_dialect := dialect_or_default (rt_dialect t)\<rparr>)
      else trace_get i s)"
proof (cases "List.extract (\<lambda>u. rt_request_id u = rt_request_id t) s")
  case None
  then have "\<forall>u \<in> set s. rt_request_id u \<noteq> rt_request_id t" by (simp add: extract_None_iff)
  then have "find (\<lambda>u. rt_request_id u = rt_request_id t) s = None" by (auto simp: find_None_iff)
  with None show ?thesis
    by (auto simp: trace_get_def trace_record_def find_append Let_def split: option.split)
next
  case (Some x)
  obtain ys y zs where x: "x = (ys, y, zs)" by (cases x)
  with extract_SomeE [OF Some [unfolded x]] have s: "s = ys @ y # zs"
    and y: "rt_request_id y = rt_request_id t" and ys: "\<forall>u \<in> set ys. rt_request_id u \<noteq> rt_request_id t"
    by auto
  then have "find (\<lambda>u. rt_request_id u = rt_request_id t) ys = None" by (auto simp: find_None_iff)
  with Some x s y show ?thesis
    by (auto simp: trace_get_def trace_record_def find_append Let_def split: option.split)
qed

lemma concat_pages:
  "concat (map (\<lambda>k. take L (drop (k * L) xs)) [0..<K]) = take (K * L) xs"
  by (induction K) (simp_all add: take_add [symmetric] add.commute)

definition all_matching :: "trace_filter \<Rightarrow> request_trace list \<Rightarrow> request_trace list" where
  "all_matching f s = sort_key (\<lambda>t. - rt_created_at t) (filter (\<lambda>t. trace_matches t f) s)"

lemma trace_list_page:
  assumes "0 < L"
  shows "trace_list (f\<lparr>tf_limit := int L, tf_offset := int (k * L)\<rparr>) s =
    (map (\<lambda>t. t\<lparr>rt_attempts := []\<rparr>) (take L (drop (k * L) (all_matching f s))),
     int (length (all_matching f s)))"
proof -
  have "trace_matches t (f\<lparr>tf_limit := int L, tf_offset := int (k * L)\<rparr>) = trace_matches t f" for t
    by (simp add: trace_matches_def)
  then have eq: "sort_key (\<lambda>t. - rt_created_at t)
      (filter (\<lambda>t. trace_matches t (f\<lparr>tf_limit := int L, tf_offset := int (k * L)\<rparr>)) s) = all_matching f s"
    by (simp only: all_matching_def)
  have limit: "tf_limit (f\<lparr>tf_limit := int L, tf_offset := int (k * L)\<rparr>) = int L"
    and offset: "tf_offset (f\<lparr>tf_limit := int L, tf_offset := int (k * L)\<rparr>) = int (k * L)"
    by simp_all
  show ?thesis
    unfolding trace_list_def eq limit offset Let_def
    using assms by (auto simp del: of_nat_mult)
qed

text \<open>
  Pagination. Reading the trace list page by page yields every matching trace exactly once,
  newest first, with the same total on each page, for any page size; no page carries the
  attempts, which only \<^verbatim>\<open>Get\<close> returns.
\<close>

theorem trace_pages_cover:
  assumes "0 < L" and "length (all_matching f s) \<le> K * L"
  shows "concat (map (\<lambda>k. fst (trace_list (f\<lparr>tf_limit := int L, tf_offset := int (k * L)\<rparr>) s)) [0..<K]) =
      map (\<lambda>t. t\<lparr>rt_attempts := []\<rparr>) (all_matching f s)
    \<and> (\<forall>k. snd (trace_list (f\<lparr>tf_limit := int L, tf_offset := int (k * L)\<rparr>) s) = int (length (all_matching f s)))
    \<and> sorted (map (\<lambda>t. - rt_created_at t) (all_matching f s))
    \<and> mset (all_matching f s) = mset (filter (\<lambda>t. trace_matches t f) s)"
proof -
  have "concat (map (\<lambda>k. fst (trace_list (f\<lparr>tf_limit := int L, tf_offset := int (k * L)\<rparr>) s)) [0..<K]) =
      map (\<lambda>t. t\<lparr>rt_attempts := []\<rparr>) (concat (map (\<lambda>k. take L (drop (k * L) (all_matching f s))) [0..<K]))"
    by (simp add: trace_list_page [OF assms(1)] map_concat comp_def del: of_nat_mult)
  also have "\<dots> = map (\<lambda>t. t\<lparr>rt_attempts := []\<rparr>) (all_matching f s)"
    using assms(2) by (simp add: concat_pages)
  finally show ?thesis
    by (simp add: trace_list_page [OF assms(1)] del: of_nat_mult) (simp add: all_matching_def)
qed

definition example_trace :: "string \<Rightarrow> instant \<Rightarrow> request_trace" where
  "example_trace i t = \<lparr>rt_request_id = i, rt_created_at = t, rt_key_id = [], rt_model = ''m'', rt_dialect = ''openai'',
     rt_streamed = False, rt_total_latency = 0, rt_total_tokens = 0, rt_total_cost = 0, rt_final_provider = [],
     rt_final_alias = [], rt_final_status = ''ok'', rt_attempts = [], rt_attempt_count = 0\<rparr>"

definition no_filter :: trace_filter where
  "no_filter = \<lparr>tf_status = [], tf_model = [], tf_provider = [], tf_key_id = [], tf_dialect = [],
     tf_limit = 0, tf_offset = 0\<rparr>"

theorem trace_pages_cover_witness:
  "let s = [example_trace ''x'' 1, example_trace ''y'' 3, example_trace ''z'' 2] in
   concat (map (\<lambda>k. fst (trace_list (no_filter\<lparr>tf_limit := int 2, tf_offset := int (k * 2)\<rparr>) s)) [0..<2]) =
   map (\<lambda>t. t\<lparr>rt_attempts := []\<rparr>) (all_matching no_filter s)"
  unfolding Let_def
  by (rule trace_pages_cover [THEN conjunct1]) (simp_all add: all_matching_def)

end
