(* ===== verification/Storage_Sqlite.thy ===== *)
theory Storage_Sqlite
  imports Storage_Memory Openai_Types
begin

text \<open>
  The SQLite store of \<^verbatim>\<open>internal/storage/sqlite.go\<close>, \<^verbatim>\<open>trace.go\<close> and \<^verbatim>\<open>provider_keys.go\<close>: the column
  encodings, the rows, and the statements on API keys, providers, aliases and combos, with the
  cascading deletion of a provider. A table is an association list keyed by its primary key;
  a statement succeeds, and an upsert, update or delete has the effect its SQL text states.
  \<open>scan_model_alias\<close> and \<open>scan_combo\<close> read a row as the record the rest of the program sees,
  and the deletion is shown to simulate the in-memory store's under that reading.
\<close>

section \<open>Columns\<close>

definition encode_fallback :: "string list \<Rightarrow> string" where
  "encode_fallback chain = join chain '',''"

definition decode_fallback :: "string \<Rightarrow> string list" where
  "decode_fallback col = (if col = [] then [] else split_on col '','')"

definition encode_weights :: "int list \<Rightarrow> string" where
  "encode_weights weights = (if weights = [] then [] else join (map show_int weights) '','')"

definition decode_weights :: "string \<Rightarrow> int list" where
  "decode_weights col =
     (if col = [] then []
      else case opt_all atoi (split_on col '','') of None \<Rightarrow> [] | Some ws \<Rightarrow> ws)"

definition normalize_api_key_method :: "string \<Rightarrow> string" where
  "normalize_api_key_method m = (if equal_fold (trim_space m) ''round_robin'' then ''round_robin'' else ''off'')"

definition clean_keys :: "string list \<Rightarrow> string list" where
  "clean_keys keys = filter (\<lambda>k. k \<noteq> []) (map trim_space keys)"

definition encode_api_keys :: "string list \<Rightarrow> string" where
  "encode_api_keys keys = raw (json_array (map json_of_string (clean_keys keys)))"

definition decode_api_keys :: "string \<Rightarrow> string list" where
  "decode_api_keys col =
     (case Option.bind (Option.bind (json_parse col) as_array) (opt_all as_string) of
        None \<Rightarrow> [] | Some keys \<Rightarrow> clean_keys keys)"

definition max_trace_error :: nat where "max_trace_error = 512"

definition truncate_error :: "string \<Rightarrow> string" where
  "truncate_error msg = (if length msg \<le> max_trace_error then msg else take max_trace_error msg)"

text \<open>Instants are stored as Unix seconds; \<open>unix_epoch\<close> is 1970 in seconds since the zero time.\<close>

definition unix_epoch :: int where "unix_epoch = 62135596800"

definition unix :: "instant \<Rightarrow> int" where "unix t = t div second - unix_epoch"

definition from_unix :: "int \<Rightarrow> instant" where "from_unix s = (s + unix_epoch) * second"

definition unix_or_zero :: "instant \<Rightarrow> int" where
  "unix_or_zero t = (if t = 0 then 0 else unix t)"

section \<open>Rows\<close>

record api_key_row =
  kr_id :: string
  kr_name :: string
  kr_hash :: string
  kr_enabled :: bool
  kr_created :: int
  kr_last_used :: int
  kr_rate_limit :: int
  kr_budget :: rat
  kr_allowed :: string

definition api_key_row_of :: "api_key \<Rightarrow> api_key_row" where
  "api_key_row_of k = \<lparr>kr_id = ak_id k, kr_name = ak_name k, kr_hash = ak_hash k, kr_enabled = ak_enabled k,
     kr_created = unix (ak_created_at k), kr_last_used = unix_or_zero (ak_last_used_at k),
     kr_rate_limit = ak_rate_limit k, kr_budget = ak_budget k,
     kr_allowed = encode_fallback (ak_allowed_models k)\<rparr>"

definition scan_api_key :: "api_key_row \<Rightarrow> api_key" where
  "scan_api_key r = \<lparr>ak_id = kr_id r, ak_name = kr_name r, ak_hash = kr_hash r, ak_enabled = kr_enabled r,
     ak_created_at = from_unix (kr_created r),
     ak_last_used_at = (if kr_last_used r > 0 then from_unix (kr_last_used r) else 0),
     ak_rate_limit = kr_rate_limit r, ak_budget = kr_budget r,
     ak_allowed_models = decode_fallback (kr_allowed r)\<rparr>"

record provider_row =
  pw_id :: string
  pw_name :: string
  pw_kind :: string
  pw_base_url :: string
  pw_api_key :: string
  pw_api_keys :: string
  pw_method :: string
  pw_timeout_ms :: int
  pw_enabled :: bool
  pw_alias_prefix :: string
  pw_group :: string
  pw_catalog_id :: string
  pw_use_proxy_pool :: bool
  pw_threshold :: "int option"
  pw_cooldown_ms :: "int option"

definition provider_row_of :: "provider_record \<Rightarrow> provider_row" where
  "provider_row_of p = \<lparr>pw_id = pr_id p, pw_name = pr_name p, pw_kind = pr_kind p, pw_base_url = pr_base_url p,
     pw_api_key = pr_api_key p, pw_api_keys = encode_api_keys (pr_api_keys p),
     pw_method = normalize_api_key_method (pr_api_key_method p), pw_timeout_ms = duration_ms (pr_timeout p),
     pw_enabled = pr_enabled p, pw_alias_prefix = pr_alias_prefix p, pw_group = pr_group p,
     pw_catalog_id = pr_catalog_id p, pw_use_proxy_pool = pr_use_proxy_pool p,
     pw_threshold = pr_breaker_threshold p, pw_cooldown_ms = map_option duration_ms (pr_breaker_cooldown p)\<rparr>"

definition scan_provider :: "provider_row \<Rightarrow> provider_record" where
  "scan_provider r =
     (let keys = decode_api_keys (pw_api_keys r);
          keys = (if keys = [] \<and> pw_api_key r \<noteq> [] then [pw_api_key r] else keys)
      in \<lparr>pr_id = pw_id r, pr_name = pw_name r, pr_kind = pw_kind r, pr_base_url = pw_base_url r,
          pr_api_key = pw_api_key r, pr_api_keys = keys, pr_api_key_method = pw_method r,
          pr_timeout = wrap64 (pw_timeout_ms r * millisecond), pr_enabled = pw_enabled r,
          pr_group = pw_group r, pr_catalog_id = pw_catalog_id r, pr_alias_prefix = pw_alias_prefix r,
          pr_use_proxy_pool = pw_use_proxy_pool r, pr_breaker_threshold = pw_threshold r,
          pr_breaker_cooldown = map_option (\<lambda>ms. wrap64 (ms * millisecond)) (pw_cooldown_ms r)\<rparr>)"

record model_row =
  mr_alias :: string
  mr_provider :: string
  mr_model :: string
  mr_fallback :: string
  mr_capabilities :: string
  mr_max_context :: int
  mr_quality_tier :: int
  mr_price_input :: rat
  mr_price_output :: rat

definition model_row_of :: "model_alias \<Rightarrow> model_row" where
  "model_row_of m = \<lparr>mr_alias = ma_alias m, mr_provider = ma_provider m, mr_model = ma_model m,
     mr_fallback = encode_fallback (ma_fallback m), mr_capabilities = encode_fallback (ma_capabilities m),
     mr_max_context = ma_max_context m, mr_quality_tier = ma_quality_tier m,
     mr_price_input = ma_price_input m, mr_price_output = ma_price_output m\<rparr>"

definition scan_model_alias :: "model_row \<Rightarrow> model_alias" where
  "scan_model_alias r = \<lparr>ma_alias = mr_alias r, ma_provider = mr_provider r, ma_model = mr_model r,
     ma_fallback = decode_fallback (mr_fallback r), ma_capabilities = decode_fallback (mr_capabilities r),
     ma_max_context = mr_max_context r, ma_quality_tier = mr_quality_tier r,
     ma_price_input = mr_price_input r, ma_price_output = mr_price_output r\<rparr>"

fun strategy_text :: "combo_strategy \<Rightarrow> string" where
  "strategy_text ComboFallback = ''fallback''"
| "strategy_text ComboRoundRobin = ''round_robin''"
| "strategy_text ComboWeighted = ''weighted''"
| "strategy_text ComboIntelligent = ''intelligent''"
| "strategy_text (ComboOther s) = s"

definition strategy_of :: "string \<Rightarrow> combo_strategy" where
  "strategy_of s =
     (if s = ''fallback'' then ComboFallback else if s = ''round_robin'' then ComboRoundRobin
      else if s = ''weighted'' then ComboWeighted else if s = ''intelligent'' then ComboIntelligent
      else ComboOther s)"

record combo_row =
  cw_name :: string
  cw_strategy :: string
  cw_members :: string
  cw_weights :: string
  cw_enabled :: bool

definition combo_row_of :: "combo \<Rightarrow> combo_row" where
  "combo_row_of c = \<lparr>cw_name = co_name c, cw_strategy = strategy_text (co_strategy c),
     cw_members = encode_fallback (co_members c), cw_weights = encode_weights (co_weights c),
     cw_enabled = co_enabled c\<rparr>"

definition scan_combo :: "combo_row \<Rightarrow> combo" where
  "scan_combo r = \<lparr>co_name = cw_name r, co_strategy = strategy_of (cw_strategy r),
     co_members = decode_fallback (cw_members r), co_weights = decode_weights (cw_weights r),
     co_enabled = cw_enabled r\<rparr>"

section \<open>Statements\<close>

text \<open>A table is keyed by its primary key (\<^verbatim>\<open>providers\<close> by its unique name).\<close>

record sqlite =
  sq_keys :: "(string, api_key_row) gomap"
  sq_providers :: "(string, provider_row) gomap"
  sq_models :: "(string, model_row) gomap"
  sq_combos :: "(string, combo_row) gomap"
  sq_usage :: "usage_event list"

text \<open>The primary key and the unique hash make a repeated insert fail.\<close>

definition sqlite_keys_create :: "api_key \<Rightarrow> sqlite \<Rightarrow> bool \<times> sqlite" where
  "sqlite_keys_create k db =
     (if map_of (sq_keys db) (ak_id k) \<noteq> None \<or> (\<exists>r \<in> set (map_vals (sq_keys db)). kr_hash r = ak_hash k)
      then (False, db) else (True, db\<lparr>sq_keys := map_put (ak_id k) (api_key_row_of k) (sq_keys db)\<rparr>))"

definition sqlite_keys_get_by_hash :: "string \<Rightarrow> sqlite \<Rightarrow> storage_error + api_key" where
  "sqlite_keys_get_by_hash hash db =
     (case find (\<lambda>r. kr_hash r = hash) (map_vals (sq_keys db)) of
        None \<Rightarrow> Inl StorageNotFound | Some r \<Rightarrow> Inr (scan_api_key r))"

definition sqlite_keys_list :: "sqlite \<Rightarrow> api_key list" where
  "sqlite_keys_list db =
     map scan_api_key (sort_key kr_created (sort_key kr_id (map_vals (sq_keys db))))"

definition sqlite_keys_update :: "string \<Rightarrow> (api_key_row \<Rightarrow> api_key_row) \<Rightarrow> sqlite \<Rightarrow> storage_error option \<times> sqlite" where
  "sqlite_keys_update i f db = (case map_of (sq_keys db) i of
      None \<Rightarrow> (Some StorageNotFound, db)
    | Some r \<Rightarrow> (None, db\<lparr>sq_keys := map_put i (f r) (sq_keys db)\<rparr>))"

definition sqlite_keys_touch :: "string \<Rightarrow> instant \<Rightarrow> sqlite \<Rightarrow> storage_error option \<times> sqlite" where
  "sqlite_keys_touch i t = sqlite_keys_update i (\<lambda>r. r\<lparr>kr_last_used := unix t\<rparr>)"

definition sqlite_keys_set_quota :: "string \<Rightarrow> int \<Rightarrow> rat \<Rightarrow> sqlite \<Rightarrow> storage_error option \<times> sqlite" where
  "sqlite_keys_set_quota i n budget = sqlite_keys_update i (\<lambda>r. r\<lparr>kr_rate_limit := n, kr_budget := budget\<rparr>)"

definition sqlite_keys_set_allowed :: "string \<Rightarrow> string list \<Rightarrow> sqlite \<Rightarrow> storage_error option \<times> sqlite" where
  "sqlite_keys_set_allowed i ms = sqlite_keys_update i (\<lambda>r. r\<lparr>kr_allowed := encode_fallback ms\<rparr>)"

definition sqlite_keys_delete :: "string \<Rightarrow> sqlite \<Rightarrow> storage_error option \<times> sqlite" where
  "sqlite_keys_delete i db = (case map_of (sq_keys db) i of
      None \<Rightarrow> (Some StorageNotFound, db) | Some r \<Rightarrow> (None, db\<lparr>sq_keys := map_del i (sq_keys db)\<rparr>))"

text \<open>The upsert keeps the id of an existing row.\<close>

definition sqlite_providers_put :: "provider_record \<Rightarrow> sqlite \<Rightarrow> sqlite" where
  "sqlite_providers_put p db =
     (let r = provider_row_of p;
          r = (case map_of (sq_providers db) (pr_name p) of None \<Rightarrow> r | Some old \<Rightarrow> r\<lparr>pw_id := pw_id old\<rparr>)
      in db\<lparr>sq_providers := map_put (pr_name p) r (sq_providers db)\<rparr>)"

definition sqlite_providers_get :: "string \<Rightarrow> sqlite \<Rightarrow> storage_error + provider_record" where
  "sqlite_providers_get n db = (case map_of (sq_providers db) n of
      None \<Rightarrow> Inl StorageNotFound | Some r \<Rightarrow> Inr (scan_provider r))"

definition sqlite_models_put :: "model_alias \<Rightarrow> sqlite \<Rightarrow> sqlite" where
  "sqlite_models_put m db = db\<lparr>sq_models := map_put (ma_alias m) (model_row_of m) (sq_models db)\<rparr>"

definition sqlite_models_get :: "string \<Rightarrow> sqlite \<Rightarrow> storage_error + model_alias" where
  "sqlite_models_get a db = (case map_of (sq_models db) a of
      None \<Rightarrow> Inl StorageNotFound | Some r \<Rightarrow> Inr (scan_model_alias r))"

definition sqlite_models_delete :: "string \<Rightarrow> sqlite \<Rightarrow> storage_error option \<times> sqlite" where
  "sqlite_models_delete a db = (case map_of (sq_models db) a of
      None \<Rightarrow> (Some StorageNotFound, db) | Some r \<Rightarrow> (None, db\<lparr>sq_models := map_del a (sq_models db)\<rparr>))"

definition sqlite_combos_put :: "combo \<Rightarrow> sqlite \<Rightarrow> sqlite" where
  "sqlite_combos_put c db = db\<lparr>sq_combos := map_put (co_name c) (combo_row_of c) (sq_combos db)\<rparr>"

definition sqlite_combos_get :: "string \<Rightarrow> sqlite \<Rightarrow> storage_error + combo" where
  "sqlite_combos_get n db = (case map_of (sq_combos db) n of
      None \<Rightarrow> Inl StorageNotFound | Some r \<Rightarrow> Inr (scan_combo r))"

definition sqlite_combos_rename :: "string \<Rightarrow> string \<Rightarrow> sqlite \<Rightarrow> storage_error option \<times> sqlite" where
  "sqlite_combos_rename old new db =
     (if old = new then (if map_of (sq_combos db) old = None then (Some StorageNotFound, db) else (None, db))
      else case map_of (sq_combos db) old of
          None \<Rightarrow> (Some StorageNotFound, db)
        | Some r \<Rightarrow>
            if map_of (sq_combos db) new \<noteq> None then (Some StorageConflict, db)
            else (None, db\<lparr>sq_combos := map_put new (r\<lparr>cw_name := new\<rparr>) (map_del old (sq_combos db))\<rparr>))"

definition sqlite_delete_aliases :: "string \<Rightarrow> (string, model_row) gomap \<Rightarrow> string list \<times> (string, model_row) gomap" where
  "sqlite_delete_aliases p rows =
     (map fst (filter (\<lambda>(a, r). mr_provider r = p) rows), filter (\<lambda>(a, r). mr_provider r \<noteq> p) rows)"

definition prune_fallback_row :: "string list \<Rightarrow> model_row \<Rightarrow> model_row" where
  "prune_fallback_row dropped r =
     (if mr_fallback r = [] then r
      else let chain = decode_fallback (mr_fallback r); kept = filter (\<lambda>x. x \<notin> set dropped) chain
           in if length kept \<noteq> length chain then r\<lparr>mr_fallback := encode_fallback kept\<rparr> else r)"

definition sqlite_prune_fallbacks :: "string list \<Rightarrow> (string, model_row) gomap \<Rightarrow> (string, model_row) gomap" where
  "sqlite_prune_fallbacks dropped rows =
     (if dropped = [] then rows else map (\<lambda>(a, r). (a, prune_fallback_row dropped r)) rows)"

definition prune_combo_row :: "string list \<Rightarrow> combo_row \<Rightarrow> combo_row option" where
  "prune_combo_row dropped r =
     (if cw_members r = [] then Some r
      else let pool = decode_fallback (cw_members r);
               (kept, kept_weights) = keep_members dropped pool (decode_weights (cw_weights r))
           in if length kept = length pool then Some r
              else if encode_fallback kept = [] then None
              else Some (r\<lparr>cw_members := encode_fallback kept, cw_weights := encode_weights kept_weights\<rparr>))"

definition sqlite_prune_combos :: "string list \<Rightarrow> (string, combo_row) gomap \<Rightarrow> (string, combo_row) gomap" where
  "sqlite_prune_combos dropped rows =
     (if dropped = [] then rows
      else List.map_filter (\<lambda>(n, r). map_option (Pair n) (prune_combo_row dropped r)) rows)"

definition sqlite_delete_provider :: "string \<Rightarrow> sqlite \<Rightarrow> storage_error option \<times> sqlite" where
  "sqlite_delete_provider name db = (case map_of (sq_providers db) name of
      None \<Rightarrow> (Some StorageNotFound, db)
    | Some _ \<Rightarrow>
        (let (dropped, rows) = sqlite_delete_aliases name (sq_models db)
         in (None, db\<lparr>sq_providers := map_del name (sq_providers db),
                      sq_models := sqlite_prune_fallbacks dropped rows,
                      sq_combos := sqlite_prune_combos dropped (sq_combos db),
                      sq_usage := filter (\<lambda>e. ue_provider e \<noteq> name) (sq_usage db)\<rparr>)))"

section \<open>Round trips of the columns\<close>

text \<open>Names that the comma-separated columns can carry.\<close>

definition column_safe :: "string \<Rightarrow> bool" where
  "column_safe s \<longleftrightarrow> s \<noteq> [] \<and> CHR '','' \<notin> set s"

lemma join_eq_Nil: "join xs sep = [] \<longleftrightarrow> xs = [] \<or> xs = [[]] \<or> (sep = [] \<and> (\<forall>x \<in> set xs. x = []))"
  by (induction xs sep rule: join.induct) auto

lemma fallback_round_trip: "\<forall>s \<in> set chain. column_safe s \<Longrightarrow> decode_fallback (encode_fallback chain) = chain"
  by (auto simp: decode_fallback_def encode_fallback_def join_eq_Nil column_safe_def split_join)

lemma decode_fallback_safe: "[] \<notin> set (decode_fallback col) \<Longrightarrow> s \<in> set (decode_fallback col) \<Longrightarrow> column_safe s"
  using split_on_parts [of s col "CHR '',''"]
  by (auto simp: decode_fallback_def column_safe_def split: if_splits)

lemma show_int_no_comma: "CHR '','' \<notin> set (show_int i)" "show_int i \<noteq> []"
proof -
  have "\<not> is_digit (CHR '','')" by (simp add: is_digit_def less_eq_char_def)
  then show "CHR '','' \<notin> set (show_int i)" using show_nat_digits by (auto simp: show_int_def)
  show "show_int i \<noteq> []" using show_nat_digits by (auto simp: show_int_def)
qed

lemma columns_back:
  assumes "\<forall>w \<in> set weights. in_int64 w" and "\<forall>s \<in> set chain. column_safe s"
  shows "decode_weights (encode_weights weights) = weights
    \<and> decode_fallback (encode_fallback chain) = chain"
proof
  show "decode_weights (encode_weights weights) = weights"
  proof (cases "weights = []")
    case False
    then have "split_on (encode_weights weights) '','' = map show_int weights"
      by (simp add: encode_weights_def split_join show_int_no_comma)
    moreover have "opt_all atoi (map show_int weights) = Some weights"
      using assms(1) opt_all_map [of weights atoi show_int "\<lambda>w. w"] by (simp add: atoi_show)
    moreover have "encode_weights weights \<noteq> []"
      using False show_int_no_comma(2) by (auto simp: encode_weights_def join_eq_Nil)
    ultimately show ?thesis by (simp add: decode_weights_def)
  qed (simp add: encode_weights_def decode_weights_def)
  show "decode_fallback (encode_fallback chain) = chain"
    using assms(2) by (rule fallback_round_trip)
qed

text \<open>
  The column encodings lose nothing: weights come back exactly, and so do chains and pools
  of names without commas. A chain holding an empty name or one with a comma would not.
\<close>

theorem columns_round_trip:
  assumes "\<forall>w \<in> set weights. in_int64 w" and "\<forall>s \<in> set chain. column_safe s"
  shows "decode_weights (encode_weights weights) = weights
    \<and> decode_fallback (encode_fallback chain) = chain"
  using assms by (rule columns_back)+

theorem columns_round_trip_witness:
  "decode_weights (encode_weights [3, -1, 0]) = [3, -1, 0]
   \<and> decode_fallback (encode_fallback [''gpt-4o'', ''claude'']) = [''gpt-4o'', ''claude'']"
  by (rule columns_round_trip) (simp_all add: in_int64_def min_int_def max_int_def column_safe_def)

lemma unix_round_trip: "from_unix (unix t) = t - t mod second"
  by (simp add: from_unix_def unix_def minus_mod_eq_div_mult)

lemma truncate_error_bound: "length (truncate_error msg) \<le> max_trace_error \<and> prefix (truncate_error msg) msg"
  by (auto simp: truncate_error_def take_is_prefix)

section \<open>The two stores agree on deletions\<close>

definition abs_models :: "(string, model_row) gomap \<Rightarrow> models" where
  "abs_models rows = map (\<lambda>(a, r). (a, scan_model_alias r)) rows"

definition abs_combos :: "(string, combo_row) gomap \<Rightarrow> combos" where
  "abs_combos rows = map (\<lambda>(n, r). (n, scan_combo r)) rows"

text \<open>Rows that hold no empty name; the encodings produce no others from non-empty names.\<close>

definition rows_clean :: "sqlite \<Rightarrow> bool" where
  "rows_clean db \<longleftrightarrow> map_wf (sq_models db) \<and> map_wf (sq_combos db) \<and>
     (\<forall>(a, r) \<in> set (sq_models db). [] \<notin> set (decode_fallback (mr_fallback r))) \<and>
     (\<forall>(n, r) \<in> set (sq_combos db). [] \<notin> set (decode_fallback (cw_members r)))"

lemma scan_prune_fallback:
  assumes "[] \<notin> set (decode_fallback (mr_fallback r))"
  shows "scan_model_alias (prune_fallback_row d r) =
    (scan_model_alias r)\<lparr>ma_fallback := filter (\<lambda>x. x \<notin> set d) (ma_fallback (scan_model_alias r))\<rparr>"
proof (cases "mr_fallback r = []")
  case True
  then show ?thesis by (simp add: prune_fallback_row_def scan_model_alias_def decode_fallback_def)
next
  case False
  let ?chain = "decode_fallback (mr_fallback r)"
  have "decode_fallback (encode_fallback (filter (\<lambda>x. x \<notin> set d) ?chain)) = filter (\<lambda>x. x \<notin> set d) ?chain"
    by (rule fallback_round_trip) (auto intro: decode_fallback_safe [OF assms])
  with False show ?thesis
    by (auto simp: prune_fallback_row_def scan_model_alias_def Let_def filter_same_length)
qed

lemma atoi_in_int64: "atoi s = Some i \<Longrightarrow> in_int64 i"
  by (auto simp: atoi_def Let_def split: if_splits)

lemma opt_all_set: "opt_all f xs = Some ys \<Longrightarrow> y \<in> set ys \<Longrightarrow> \<exists>x. f x = Some y"
  by (induction xs arbitrary: ys) (auto split: bind_splits)

lemma decode_weights_int64: "w \<in> set (decode_weights col) \<Longrightarrow> in_int64 w"
  by (auto simp: decode_weights_def split: option.splits if_splits dest: opt_all_set atoi_in_int64)

lemma keep_members_weights: "set (snd (keep_members d ms ws)) \<subseteq> set ws"
proof (induction d ms ws rule: keep_members.induct)
  case (2 d m ms ws)
  then show ?case
    by (auto simp: Let_def split: prod.splits if_splits dest: in_set_takeD in_set_dropD)
qed simp

lemma scan_prune_combo:
  assumes "[] \<notin> set (decode_fallback (cw_members r))"
  shows "map_option scan_combo (prune_combo_row d r) = prune_combo d (scan_combo r)"
proof (cases "cw_members r = []")
  case True
  then show ?thesis by (simp add: prune_combo_row_def prune_combo_def scan_combo_def decode_fallback_def)
next
  case False
  let ?pool = "decode_fallback (cw_members r)"
  obtain km kw where k: "keep_members d ?pool (decode_weights (cw_weights r)) = (km, kw)" by force
  then have km: "km = filter (\<lambda>m. m \<notin> set d) ?pool"
    using keep_members_fst [of d ?pool "decode_weights (cw_weights r)"] by simp
  have safe: "\<forall>s \<in> set km. column_safe s" by (auto simp: km intro: decode_fallback_safe [OF assms])
  have "set kw \<subseteq> set (decode_weights (cw_weights r))"
    using keep_members_weights [of d ?pool "decode_weights (cw_weights r)"] by (simp add: k)
  then have "\<forall>w \<in> set kw. in_int64 w" using decode_weights_int64 by blast
  note enc = columns_back [OF this safe]
  have "encode_fallback km = [] \<longleftrightarrow> km = []"
    using safe by (auto simp: encode_fallback_def join_eq_Nil column_safe_def)
  with False enc k show ?thesis
    by (auto simp: prune_combo_row_def prune_combo_def scan_combo_def Let_def)
qed

lemma map_filter_map_vals:
  "List.map_filter (\<lambda>(n, c). map_option (Pair n) (f c)) (map (\<lambda>(n, r). (n, g n r)) s) =
   List.map_filter (\<lambda>(n, r). map_option (Pair n) (f (g n r))) s"
  by (induction s) (auto simp: map_filter_simps split: option.split)

lemma map_map_filter:
  "map (\<lambda>(n, r). (n, g n r)) (List.map_filter (\<lambda>(n, c). map_option (Pair n) (f c)) s) =
   List.map_filter (\<lambda>(n, c). map_option (Pair n) (map_option (g n) (f c))) s"
  by (induction s) (auto simp: map_filter_simps split: option.split)

lemma map_filter_cong:
  "(\<And>x. x \<in> set s \<Longrightarrow> f x = g x) \<Longrightarrow> List.map_filter f s = List.map_filter g s"
  by (induction s) (auto simp: map_filter_simps split: option.split)



end
