(* ===== verification/Pricing.thy ===== *)
theory Pricing
  imports Go_Strings
begin

text \<open>
  Token prices: \<^verbatim>\<open>internal/pricing/pricing.go\<close>. Rates are exact rationals (USD per million
  tokens). A glob is matched as the anchored, case-insensitive regular expression the code
  compiles it to: its parts between the stars, in order, with any text but a newline between
  two parts. The cache of compiled expressions has no effect on results.
\<close>

section \<open>Rates\<close>

record rate =
  rate_input :: rat
  rate_output :: rat
  rate_cached :: rat
  rate_reasoning :: rat
  rate_cache_write :: rat

record tokens =
  tk_prompt :: int
  tk_completion :: int
  tk_cached :: int
  tk_cache_write :: int
  tk_reasoning :: int

definition rate_of :: "rat \<Rightarrow> rat \<Rightarrow> rat \<Rightarrow> rat \<Rightarrow> rat \<Rightarrow> rate" where
  "rate_of i t c r w = \<lparr>rate_input = i, rate_output = t, rate_cached = c, rate_reasoning = r, rate_cache_write = w\<rparr>"

text \<open>\<^verbatim>\<open>Rate.rate\<close>: a specific price, or the general one where there is none.\<close>

definition rate_or :: "rat \<Rightarrow> rat \<Rightarrow> rat" where
  "rate_or specific fallback = (if specific > 0 then specific else fallback)"

definition rate_cost :: "rate \<Rightarrow> tokens \<Rightarrow> rat" where
  "rate_cost r t =
     (let cached = tk_cached t; write = tk_cache_write t;
          fresh = tk_prompt t - cached - write;
          fresh = (if fresh < 0 then 0 else fresh);
          cost = of_int fresh * rate_input r / 1000000;
          cost = cost + of_int cached * rate_or (rate_cached r) (rate_input r) / 1000000;
          cost = cost + of_int write * rate_or (rate_cache_write r) (rate_input r) / 1000000;
          cost = cost + of_int (tk_completion t) * rate_output r / 1000000;
          delta = rate_or (rate_reasoning r) (rate_output r) - rate_output r
      in if tk_reasoning t > 0 \<and> delta \<noteq> 0
         then cost + of_int (tk_reasoning t) * delta / 1000000 else cost)"

section \<open>Tables\<close>

definition price_models :: "(string \<times> rate) list" where
  "price_models =
    [(''MiniMax-M2.1'', rate_of (5 / 10) 2 (25 / 100) 3 (5 / 10)),
     (''MiniMax-M2.5'', rate_of (5 / 10) 2 (25 / 100) 3 (5 / 10)),
     (''MiniMax-M2.7'', rate_of (5 / 10) 2 (25 / 100) 3 (5 / 10)),
     (''MiniMax-M3'', rate_of (3 / 10) (12 / 10) (6 / 100) (18 / 10) (3 / 10)),
     (''auto'', rate_of 2 8 1 12 2),
     (''claude-3-5-sonnet-20241022'', rate_of 3 15 (15 / 10) 15 3),
     (''claude-fable-5'', rate_of 10 50 1 50 (125 / 10)),
     (''claude-haiku-4-5-20251001'', rate_of 1 5 (1 / 10) 5 (125 / 100)),
     (''claude-haiku-4.5'', rate_of (5 / 10) (25 / 10) (5 / 100) (375 / 100) (5 / 10)),
     (''claude-opus-4-20250514'', rate_of 15 25 (75 / 10) (1125 / 10) 15),
     (''claude-opus-4-5-20251101'', rate_of 5 25 (5 / 10) 25 (625 / 100)),
     (''claude-opus-4-5-thinking'', rate_of 5 25 (5 / 10) (375 / 10) 5),
     (''claude-opus-4-6'', rate_of 5 25 (5 / 10) 25 (625 / 100)),
     (''claude-opus-4-6-thinking'', rate_of 5 25 (5 / 10) (375 / 10) 5),
     (''claude-opus-4.1'', rate_of 5 25 (5 / 10) (375 / 10) 5),
     (''claude-opus-4.5'', rate_of 5 25 (5 / 10) (375 / 10) 5),
     (''claude-opus-4.6'', rate_of 5 25 (5 / 10) (375 / 10) 5),
     (''claude-sonnet-4'', rate_of 3 15 (3 / 10) (225 / 10) 3),
     (''claude-sonnet-4-20250514'', rate_of 3 15 (15 / 10) 15 3),
     (''claude-sonnet-4-5-20250929'', rate_of 3 15 (3 / 10) 15 (375 / 100)),
     (''claude-sonnet-4-6'', rate_of 3 15 (3 / 10) 15 (375 / 100)),
     (''claude-sonnet-4.5'', rate_of 3 15 (3 / 10) (225 / 10) 3),
     (''claude-sonnet-4.6'', rate_of 3 15 (3 / 10) (225 / 10) 3),
     (''coder-model'', rate_of (15 / 10) 6 (75 / 100) 9 (15 / 10)),
     (''deepseek-chat'', rate_of (14 / 100) (28 / 100) (28 / 10000) (28 / 100) (14 / 100)),
     (''deepseek-r1'', rate_of (14 / 100) (28 / 100) (28 / 10000) (28 / 100) (14 / 100)),
     (''deepseek-reasoner'', rate_of (14 / 100) (28 / 100) (28 / 10000) (28 / 100) (14 / 100)),
     (''deepseek-v3.2-chat'', rate_of (14 / 100) (28 / 100) (28 / 10000) (28 / 100) (14 / 100)),
     (''deepseek-v3.2-reasoner'', rate_of (14 / 100) (28 / 100) (28 / 10000) (28 / 100) (14 / 100)),
     (''deepseek-v4-flash'', rate_of (14 / 100) (28 / 100) (28 / 10000) (28 / 100) (14 / 100)),
     (''deepseek-v4-pro'', rate_of (435 / 1000) (87 / 100) (3625 / 1000000) (87 / 100) (435 / 1000)),
     (''gemini-2.5-flash'', rate_of (3 / 10) (25 / 10) (3 / 100) (375 / 100) (3 / 10)),
     (''gemini-2.5-flash-lite'', rate_of (15 / 100) (125 / 100) (15 / 1000) (1875 / 1000) (15 / 100)),
     (''gemini-2.5-pro'', rate_of 2 12 (25 / 100) 18 2),
     (''gemini-3-flash'', rate_of (5 / 10) 3 (3 / 100) (45 / 10) (5 / 10)),
     (''gemini-3-flash-agent'', rate_of (5 / 10) 3 (3 / 100) (45 / 10) (5 / 10)),
     (''gemini-3-flash-preview'', rate_of (5 / 10) 3 (3 / 100) (45 / 10) (5 / 10)),
     (''gemini-3-pro-preview'', rate_of 2 12 (25 / 100) 18 2),
     (''gemini-3.1-pro-high'', rate_of 4 18 (5 / 10) 27 4),
     (''gemini-3.1-pro-low'', rate_of 2 12 (25 / 100) 18 2),
     (''gemini-3.5-flash-extra-low'', rate_of (5 / 10) 3 (3 / 100) (45 / 10) (5 / 10)),
     (''gemini-3.5-flash-high'', rate_of (5 / 10) 3 (3 / 100) (45 / 10) (5 / 10)),
     (''gemini-3.5-flash-lite'', rate_of (3 / 10) (25 / 10) (3 / 100) (375 / 100) (375 / 1000)),
     (''gemini-3.5-flash-low'', rate_of (5 / 10) 3 (3 / 100) (45 / 10) (5 / 10)),
     (''gemini-3.6-flash'', rate_of (15 / 10) (75 / 10) (15 / 100) (1125 / 100) (1875 / 1000)),
     (''gemini-3.6-flash-high'', rate_of (15 / 10) (75 / 10) (15 / 100) (1125 / 100) (1875 / 1000)),
     (''gemini-3.6-flash-low'', rate_of (15 / 10) (75 / 10) (15 / 100) (1125 / 100) (1875 / 1000)),
     (''gemini-3.6-flash-medium'', rate_of (15 / 10) (75 / 10) (15 / 100) (1125 / 100) (1875 / 1000)),
     (''gemini-3.7-flash'', rate_of (15 / 10) (75 / 10) (15 / 100) (1125 / 100) (1875 / 1000)),
     (''gemini-3.7-flash-high'', rate_of (15 / 10) (75 / 10) (15 / 100) (1125 / 100) (1875 / 1000)),
     (''gemini-3.7-flash-low'', rate_of (15 / 10) (75 / 10) (15 / 100) (1125 / 100) (1875 / 1000)),
     (''gemini-3.7-flash-medium'', rate_of (15 / 10) (75 / 10) (15 / 100) (1125 / 100) (1875 / 1000)),
     (''gemini-pro-agent'', rate_of 4 18 (5 / 10) 27 4),
     (''glm-4.6'', rate_of (5 / 10) 2 (25 / 100) 3 (5 / 10)),
     (''glm-4.6v'', rate_of (75 / 100) 3 (375 / 1000) (45 / 10) (75 / 100)),
     (''glm-4.7'', rate_of (75 / 100) 3 (375 / 1000) (45 / 10) (75 / 100)),
     (''glm-5'', rate_of 1 4 (5 / 10) 6 1),
     (''gpt-3.5-turbo'', rate_of (5 / 10) (15 / 10) (25 / 100) (225 / 100) (5 / 10)),
     (''gpt-4'', rate_of (25 / 10) 10 (125 / 100) 15 (25 / 10)),
     (''gpt-4-turbo'', rate_of 10 30 5 45 10),
     (''gpt-4.1'', rate_of (25 / 10) 10 (125 / 100) 15 (25 / 10)),
     (''gpt-4o'', rate_of (25 / 10) 10 (125 / 100) 15 (25 / 10)),
     (''gpt-4o-mini'', rate_of (15 / 100) (6 / 10) (75 / 1000) (9 / 10) (15 / 100)),
     (''gpt-5'', rate_of (125 / 100) 10 (625 / 1000) 10 (125 / 100)),
     (''gpt-5-codex'', rate_of (125 / 100) 10 (625 / 1000) 10 (125 / 100)),
     (''gpt-5-mini'', rate_of (25 / 100) 2 (125 / 1000) 2 (25 / 100)),
     (''gpt-5.1'', rate_of (125 / 100) 10 (625 / 1000) 10 (125 / 100)),
     (''gpt-5.1-codex'', rate_of (125 / 100) 10 (625 / 1000) 10 (125 / 100)),
     (''gpt-5.1-codex-max'', rate_of 8 32 4 48 8),
     (''gpt-5.1-codex-mini'', rate_of (15 / 10) 6 (75 / 100) 9 (15 / 10)),
     (''gpt-5.1-codex-mini-high'', rate_of 2 8 1 12 2),
     (''gpt-5.2'', rate_of (175 / 100) 14 (175 / 1000) 14 (175 / 100)),
     (''gpt-5.2-codex'', rate_of (175 / 100) 14 (175 / 1000) 14 (175 / 100)),
     (''gpt-5.3-codex'', rate_of (175 / 100) 14 (175 / 1000) 14 (175 / 100)),
     (''gpt-5.3-codex-spark'', rate_of 3 12 (3 / 10) 12 3),
     (''gpt-5.6'', rate_of (25 / 10) 15 (25 / 100) 15 (25 / 10)),
     (''gpt-5.6-luna'', rate_of 1 6 (1 / 10) 6 1),
     (''gpt-5.6-sol'', rate_of 5 30 (5 / 10) 30 5),
     (''gpt-5.6-terra'', rate_of (25 / 10) 15 (25 / 100) 15 (25 / 10)),
     (''gpt-6-astra'', rate_of 10 50 1 50 (125 / 10)),
     (''gpt-oss-120b-medium'', rate_of (5 / 10) 2 (25 / 100) 3 (5 / 10)),
     (''grok-code-fast-1'', rate_of (5 / 10) 2 (25 / 100) 3 (5 / 10)),
     (''k3'', rate_of 3 15 (3 / 10) 15 3),
     (''kimi-for-coding'', rate_of (95 / 100) 4 (19 / 100) 4 (95 / 100)),
     (''kimi-for-coding-highspeed'', rate_of (19 / 10) 8 (38 / 100) 8 (19 / 10)),
     (''kimi-k2'', rate_of 1 4 (5 / 10) 6 1),
     (''kimi-k2-thinking'', rate_of (15 / 10) 6 (75 / 100) 9 (15 / 10)),
     (''kimi-k2.5'', rate_of (12 / 10) (48 / 10) (6 / 10) (72 / 10) (12 / 10)),
     (''kimi-k2.5-thinking'', rate_of (18 / 10) (72 / 10) (9 / 10) (108 / 10) (18 / 10)),
     (''kimi-k2.6'', rate_of 1 4 (5 / 10) 6 1),
     (''kimi-k2.7-code'', rate_of (95 / 100) 4 (19 / 100) 4 (95 / 100)),
     (''kimi-k2.7-code-highspeed'', rate_of (19 / 10) 8 (38 / 100) 8 (19 / 10)),
     (''kimi-k3'', rate_of 3 15 (3 / 10) 15 3),
     (''kimi-latest'', rate_of 1 4 (5 / 10) 6 1),
     (''mimo-v2.6-pro'', rate_of (435 / 1000) (87 / 100) (36 / 10000) (87 / 100) (435 / 1000)),
     (''mimo-v2.6-flash'', rate_of (14 / 100) (28 / 100) (28 / 10000) (28 / 100) (14 / 100)),
     (''mimo-v2.5-pro'', rate_of (435 / 1000) (87 / 100) (36 / 10000) (87 / 100) (435 / 1000)),
     (''mimo-v2.5'', rate_of (14 / 100) (28 / 100) (28 / 10000) (28 / 100) (14 / 100)),
     (''mimo-v2-flash'', rate_of (14 / 100) (28 / 100) (28 / 10000) (28 / 100) (14 / 100)),
     (''minimax-m2.1'', rate_of (5 / 10) 2 (25 / 100) 3 (5 / 10)),
     (''minimax-m2.5'', rate_of (6 / 10) (24 / 10) (3 / 10) (36 / 10) (6 / 10)),
     (''o1'', rate_of 15 60 (75 / 10) 90 15),
     (''o1-mini'', rate_of 3 12 (15 / 10) 18 3),
     (''oswe-vscode-prime'', rate_of 1 4 (5 / 10) 6 1),
     (''qwen3-coder-flash'', rate_of (5 / 10) 2 (25 / 100) 3 (5 / 10)),
     (''qwen3-coder-plus'', rate_of 1 4 (5 / 10) 6 1),
     (''text-embedding-3-large'', rate_of (13 / 100) 0 0 0 0),
     (''text-embedding-3-small'', rate_of (2 / 100) 0 0 0 0),
     (''text-embedding-ada-002'', rate_of (1 / 10) 0 0 0 0),
     (''vision-model'', rate_of (15 / 10) 6 (75 / 100) 9 (15 / 10))]"

text \<open>Patterns are tried in order after an exact match fails.\<close>

definition price_patterns :: "(string \<times> rate) list" where
  "price_patterns =
    [(''*-codex-xhigh'', rate_of 10 40 5 60 10),
     (''*-codex-high'', rate_of 8 32 4 48 8),
     (''*-codex-max'', rate_of 8 32 4 48 8),
     (''*-codex-mini-*'', rate_of (15 / 10) 6 (75 / 100) 9 (15 / 10)),
     (''*-codex-mini'', rate_of (15 / 10) 6 (75 / 100) 9 (15 / 10)),
     (''*-codex-low'', rate_of (175 / 100) 14 (175 / 1000) 14 (175 / 100)),
     (''*-codex-none'', rate_of (175 / 100) 14 (175 / 1000) 14 (175 / 100)),
     (''*-codex-spark'', rate_of 3 12 (3 / 10) 12 3),
     (''codex-*'', rate_of (175 / 100) 14 (175 / 1000) 14 (175 / 100)),
     (''*-codex'', rate_of (175 / 100) 14 (175 / 1000) 14 (175 / 100)),
     (''claude-opus-*'', rate_of 5 25 (5 / 10) 25 (625 / 100)),
     (''claude-sonnet-*'', rate_of 3 15 (3 / 10) 15 (375 / 100)),
     (''claude-haiku-*'', rate_of 1 5 (1 / 10) 5 (125 / 100)),
     (''claude-*'', rate_of 3 15 (3 / 10) 15 (375 / 100)),
     (''gemini-*-flash-lite'', rate_of (15 / 100) (125 / 100) (15 / 1000) (1875 / 1000) (15 / 100)),
     (''gemini-*-flash'', rate_of (3 / 10) (25 / 10) (3 / 100) (375 / 100) (3 / 10)),
     (''gemini-*-pro'', rate_of 2 12 (25 / 100) 18 2),
     (''gemini-3-*'', rate_of (5 / 10) 3 (3 / 100) (45 / 10) (5 / 10)),
     (''gemini-2.5-*'', rate_of (3 / 10) (25 / 10) (3 / 100) (375 / 100) (3 / 10)),
     (''gemini-*'', rate_of (5 / 10) 3 (3 / 100) (45 / 10) (5 / 10)),
     (''gpt-6-*'', rate_of 10 50 1 50 (125 / 10)),
     (''gpt-5.6-*'', rate_of (25 / 10) 15 (25 / 100) 15 (25 / 10)),
     (''gpt-5.3-*'', rate_of (175 / 100) 14 (175 / 1000) 14 (175 / 100)),
     (''gpt-5.2-*'', rate_of (175 / 100) 14 (175 / 1000) 14 (175 / 100)),
     (''gpt-5.1-*'', rate_of (125 / 100) 10 (625 / 1000) 10 (125 / 100)),
     (''gpt-5-*'', rate_of (125 / 100) 10 (625 / 1000) 10 (125 / 100)),
     (''gpt-5*'', rate_of (125 / 100) 10 (625 / 1000) 10 (125 / 100)),
     (''gpt-4o-*'', rate_of (15 / 100) (6 / 10) (75 / 1000) (9 / 10) (15 / 100)),
     (''gpt-4o'', rate_of (25 / 10) 10 (125 / 100) 15 (25 / 10)),
     (''gpt-4*'', rate_of (25 / 10) 10 (125 / 100) 15 (25 / 10)),
     (''o1-*'', rate_of 3 12 (15 / 10) 18 3),
     (''o1'', rate_of 15 60 (75 / 10) 90 15),
     (''o3-*'', rate_of 10 40 5 60 10),
     (''o4-*'', rate_of 2 8 1 12 2),
     (''qwen3-coder-*'', rate_of 1 4 (5 / 10) 6 1),
     (''qwen*-coder-*'', rate_of 1 4 (5 / 10) 6 1),
     (''qwen*'', rate_of (5 / 10) 2 (25 / 100) 3 (5 / 10)),
     (''kimi-*-thinking'', rate_of (18 / 10) (72 / 10) (9 / 10) (108 / 10) (18 / 10)),
     (''kimi-k3*'', rate_of 3 15 (3 / 10) 15 3),
     (''kimi-k2*'', rate_of (12 / 10) (48 / 10) (6 / 10) (72 / 10) (12 / 10)),
     (''kimi-*'', rate_of 1 4 (5 / 10) 6 1),
     (''deepseek-*reasoner*'', rate_of (14 / 100) (28 / 100) (28 / 10000) (28 / 100) (14 / 100)),
     (''deepseek-r*'', rate_of (14 / 100) (28 / 100) (28 / 10000) (28 / 100) (14 / 100)),
     (''deepseek-v*'', rate_of (14 / 100) (28 / 100) (28 / 10000) (28 / 100) (14 / 100)),
     (''deepseek-*'', rate_of (14 / 100) (28 / 100) (28 / 10000) (28 / 100) (14 / 100)),
     (''glm-5*'', rate_of 1 4 (5 / 10) 6 1),
     (''glm-4*'', rate_of (75 / 100) 3 (375 / 1000) (45 / 10) (75 / 100)),
     (''glm-*'', rate_of (5 / 10) 2 (25 / 100) 3 (5 / 10)),
     (''mimo-v2.6-*'', rate_of (435 / 1000) (87 / 100) (36 / 10000) (87 / 100) (435 / 1000)),
     (''mimo-v2*'', rate_of (14 / 100) (28 / 100) (28 / 10000) (28 / 100) (14 / 100)),
     (''mimo-*'', rate_of (14 / 100) (28 / 100) (28 / 10000) (28 / 100) (14 / 100)),
     (''MiniMax-*'', rate_of (5 / 10) 2 (25 / 100) 3 (5 / 10)),
     (''minimax-*'', rate_of (5 / 10) 2 (25 / 100) 3 (5 / 10)),
     (''grok-code-*'', rate_of (5 / 10) 2 (25 / 100) 3 (5 / 10)),
     (''grok-*'', rate_of (5 / 10) 2 (25 / 100) 3 (5 / 10)),
     (''text-embedding-*'', rate_of (2 / 100) 0 0 0 0)]"

section \<open>Lookup\<close>

fun parts_match :: "string list \<Rightarrow> string \<Rightarrow> bool" where
  "parts_match [] s = (s = [])"
| "parts_match [p] s = equal_fold p s"
| "parts_match (p # q # ps) s =
     (length p \<le> length s \<and> equal_fold p (take (length p) s) \<and>
      (\<exists>k \<in> set [0..<length s - length p + 1].
         CHR 0x0A \<notin> set (take k (drop (length p) s)) \<and> parts_match (q # ps) (drop (length p + k) s)))"

definition glob_re :: "string \<Rightarrow> string \<Rightarrow> bool" where
  "glob_re glob name = parts_match (split_on glob ''*'') name"

definition price_candidates :: "string \<Rightarrow> string list" where
  "price_candidates model =
     (case cut model ''/'' of
        Some (a, short) \<Rightarrow>
          (if short \<noteq> [] then (let i = last_index model ''/'' in
             if i \<ge> 0 then [model, drop (nat i + 1) model] else [model]) else [model])
      | None \<Rightarrow> [model])"

definition price_for :: "string \<Rightarrow> rate option" where
  "price_for model =
     (if model = [] then None
      else let candidates = price_candidates model in
        case List.map_filter (map_of price_models) candidates of
          r # _ \<Rightarrow> Some r
        | [] \<Rightarrow> map_option snd (find (\<lambda>(glob, r). list_ex (glob_re glob) candidates) price_patterns))"

definition price_cost :: "string \<Rightarrow> tokens \<Rightarrow> rat" where
  "price_cost model t = (case price_for model of None \<Rightarrow> 0 | Some r \<Rightarrow> rate_cost r t)"

section \<open>Correctness\<close>

lemma rate_cost_split:
  assumes "tk_cached t + tk_cache_write t \<le> tk_prompt t" and "0 \<le> tk_reasoning t"
  shows "1000000 * rate_cost r t =
      of_int (tk_prompt t - tk_cached t - tk_cache_write t) * rate_input r
    + of_int (tk_cached t) * rate_or (rate_cached r) (rate_input r)
    + of_int (tk_cache_write t) * rate_or (rate_cache_write r) (rate_input r)
    + of_int (tk_completion t - tk_reasoning t) * rate_output r
    + of_int (tk_reasoning t) * rate_or (rate_reasoning r) (rate_output r)"
  using assms by (auto simp: rate_cost_def Let_def field_simps)

text \<open>
  No token is charged twice. When the cached and cache-written tokens are part of the prompt
  and the reasoning tokens part of the completion, the cost charges every prompt token at
  exactly one of the input, cached or cache-write rates, and every completion token at
  exactly one of the output or reasoning rates.
\<close>

theorem cost_charges_once:
  assumes "tk_cached t + tk_cache_write t \<le> tk_prompt t" and "0 \<le> tk_reasoning t"
  shows "1000000 * rate_cost r t =
      of_int (tk_prompt t - tk_cached t - tk_cache_write t) * rate_input r
    + of_int (tk_cached t) * rate_or (rate_cached r) (rate_input r)
    + of_int (tk_cache_write t) * rate_or (rate_cache_write r) (rate_input r)
    + of_int (tk_completion t - tk_reasoning t) * rate_output r
    + of_int (tk_reasoning t) * rate_or (rate_reasoning r) (rate_output r)"
  using assms by (rule rate_cost_split)

theorem cost_charges_once_witness:
  "1000000 * rate_cost (rate_of 2 8 1 12 2) \<lparr>tk_prompt = 10, tk_completion = 6, tk_cached = 4, tk_cache_write = 1, tk_reasoning = 5\<rparr>
   = (5 * 2 + 4 * 1 + 1 * 2 + 1 * 8 + 5 * 12 :: rat)"
  by (subst cost_charges_once) (simp_all add: rate_of_def rate_or_def)

lemma rate_cost_nonneg:
  assumes "0 \<le> tk_cached t" "0 \<le> tk_cache_write t" "tk_cached t + tk_cache_write t \<le> tk_prompt t"
    "0 \<le> tk_reasoning t" "tk_reasoning t \<le> tk_completion t" "0 \<le> rate_input r" "0 \<le> rate_output r"
  shows "0 \<le> rate_cost r t"
proof -
  have "0 \<le> rate_or s f" if "0 \<le> f" for s f using that by (simp add: rate_or_def)
  then have "0 \<le> 1000000 * rate_cost r t"
    using assms by (simp add: rate_cost_split)
  then show ?thesis by simp
qed

text \<open>A glob without a star matches only the name itself, in any case; a glob that ends in its
  only star matches every name (of one line) with that beginning.\<close>

lemma glob_re_literal: "CHR ''*'' \<notin> set g \<Longrightarrow> glob_re g s \<longleftrightarrow> equal_fold g s"
  using split_join [of "[g]" "CHR ''*''"] by (simp add: glob_re_def)

lemma glob_re_prefix:
  assumes "CHR ''*'' \<notin> set g" and "CHR 0x0A \<notin> set s"
  shows "glob_re (g @ ''*'') s \<longleftrightarrow> length g \<le> length s \<and> equal_fold g (take (length g) s)"
proof -
  have "split_on (g @ ''*'') ''*'' = [g, []]"
    using split_join [of "[g, []]" "CHR ''*''"] assms(1) by simp
  moreover have "parts_match [g, []] s \<longleftrightarrow> length g \<le> length s \<and> equal_fold g (take (length g) s)"
  proof -
    have "\<exists>k \<in> set [0..<length s - length g + 1]. CHR 0x0A \<notin> set (take k (drop (length g) s))
        \<and> equal_fold [] (drop (length g + k) s)" if "length g \<le> length s"
      using that assms(2)
      by (intro bexI [of _ "length s - length g"]) (auto simp: equal_fold_def to_lower_def dest: in_set_takeD in_set_dropD)
    then show ?thesis by auto
  qed
  ultimately show ?thesis by (simp add: glob_re_def)
qed

lemma last_index_suffix: "CHR ''/'' \<notin> set m \<Longrightarrow> last_index (v @ CHR ''/'' # m) ''/'' = int (length v)"
  using cut_char [of "CHR ''/''" "rev m" "rev v"] by (simp add: last_index_def)

text \<open>
  A vendor prefix does not change an exact price: a name that the table lists keeps its rate
  under any prefix, and the cost of the request is the same. A model without a rate costs
  nothing.
\<close>

theorem vendor_prefix_same_price:
  assumes "map_of price_models m = Some r" and "map_of price_models (v @ CHR ''/'' # m) = None"
    and "m \<noteq> []" and "CHR ''/'' \<notin> set m"
  shows "price_for (v @ CHR ''/'' # m) = Some r \<and> price_for m = Some r
    \<and> price_cost (v @ CHR ''/'' # m) t = price_cost m t"
proof -
  obtain a b where cut: "cut (v @ CHR ''/'' # m) ''/'' = Some (a, b)"
    using cut_None_char [of "v @ CHR ''/'' # m" "CHR ''/''"] by auto
  have "b \<noteq> []"
  proof
    assume "b = []"
    then have "v @ CHR ''/'' # m = a @ ''/''" using cut_Some [OF cut] by simp
    then have "last (v @ CHR ''/'' # m) = CHR ''/''" by simp
    with assms(3,4) show False using last_in_set [of m] by simp
  qed
  then have "price_candidates (v @ CHR ''/'' # m) = [v @ CHR ''/'' # m, m]"
    using cut assms(4) by (simp add: price_candidates_def last_index_suffix)
  moreover have "price_candidates m = [m]"
    using assms(4) by (simp add: price_candidates_def cut_no_char)
  ultimately have "price_for (v @ CHR ''/'' # m) = Some r" and "price_for m = Some r"
    using assms(1-3) by (simp_all add: price_for_def map_filter_simps)
  then show ?thesis by (simp add: price_cost_def)
qed

theorem vendor_prefix_same_price_witness:
  "price_for ''wz/gpt-4o'' = map_of price_models ''gpt-4o''"
proof -
  obtain r where r: "map_of price_models ''gpt-4o'' = Some r" by (simp add: price_models_def)
  have "map_of price_models (''wz'' @ CHR ''/'' # ''gpt-4o'') = None" by (simp add: price_models_def)
  from vendor_prefix_same_price [OF r this] show ?thesis using r by simp
qed

end
