(* ===== verification/Requirements.thy ===== *)
theory Requirements
  imports Openai_Types Capability Storage
begin

text \<open>
  What a request demands of a model, from \<^verbatim>\<open>internal/router/intelligent.go\<close>, and the token
  estimates of \<^verbatim>\<open>internal/router/usage.go\<close>. The size of a request in bytes is taken to fit 64
  bits; sums that involve a client's own token limit saturate, as in the code.
\<close>

section \<open>Token estimates\<close>

definition chars_per_token :: int where "chars_per_token = 4"

definition content_len :: "raw_message \<Rightarrow> int" where
  "content_len r = (case r of None \<Rightarrow> 0
     | Some v \<Rightarrow> (case as_string v of Some s \<Rightarrow> int (length s) | None \<Rightarrow> int (length (raw v))))"

definition tokens_from_chars :: "int \<Rightarrow> int" where
  "tokens_from_chars chars =
     (if chars \<le> 0 then 0 else wrap64 (chars + chars_per_token - 1) sdiv chars_per_token)"

definition estimate_content :: "raw_message \<Rightarrow> int" where
  "estimate_content r = tokens_from_chars (content_len r)"

definition estimate_prompt :: "chat_request \<Rightarrow> int" where
  "estimate_prompt req =
     tokens_from_chars (fold (\<lambda>m chars. chars + content_len (msg_content m)) (cr_messages req) 0)"

section \<open>Requirements\<close>

record requirements =
  need_vision :: bool
  need_tools :: bool
  need_json_mode :: bool
  need_embeddings :: bool
  need_audio :: bool
  need_streaming :: bool
  required_context :: int

definition no_requirements :: requirements where
  "no_requirements = \<lparr>need_vision = False, need_tools = False, need_json_mode = False,
     need_embeddings = False, need_audio = False, need_streaming = False, required_context = 0\<rparr>"

definition add_context_size :: "int \<Rightarrow> int \<Rightarrow> int" where
  "add_context_size acc amount = (if amount > max_int - acc then max_int else acc + amount)"

text \<open>A content part as the estimate decodes it: its type, and its text left raw.\<close>

definition decode_part :: "json \<Rightarrow> (string \<times> raw_message) option" where
  "decode_part v = do {
     ms \<leftarrow> as_object v;
     t \<leftarrow> string_of ''type'' ms;
     Some (t, raw_of ''text'' ms) }"

definition part_chars :: "string \<times> raw_message \<Rightarrow> int" where
  "part_chars part =
     (if fst part \<in> {''text'', ''input_text'', ''output_text''} then content_len (snd part)
      else 256 * chars_per_token)"

definition estimate_message_content_chars :: "raw_message \<Rightarrow> int" where
  "estimate_message_content_chars r = (case r of
      None \<Rightarrow> 0
    | Some v \<Rightarrow> (case as_array v \<bind> opt_all decode_part of
        None \<Rightarrow> content_len r
      | Some parts \<Rightarrow> fold (\<lambda>part chars. add_context_size chars (part_chars part)) parts 0))"

definition requested_output_tokens :: "chat_request \<Rightarrow> int" where
  "requested_output_tokens req =
     (case map_of (cr_extra req) ''max_completion_tokens'' \<bind> as_int of
        Some n \<Rightarrow> if n > 0 then n else
          (case cr_max_tokens req of Some k \<Rightarrow> if k > 0 then k else 0 | None \<Rightarrow> 0)
      | None \<Rightarrow> (case cr_max_tokens req of Some k \<Rightarrow> if k > 0 then k else 0 | None \<Rightarrow> 0))"

definition message_extra_keys :: "string list" where
  "message_extra_keys =
     [''tool_calls'', ''tool_call_id'', ''function_call'', ''refusal'', ''reasoning'', ''reasoning_content'']"

definition request_extra_keys :: "string list" where
  "request_extra_keys = [''tools'', ''functions'', ''response_format'']"

definition add_message_size :: "message \<Rightarrow> int \<Rightarrow> int" where
  "add_message_size m chars =
     (let chars = add_context_size chars (int (length (msg_role m)));
          chars = add_context_size chars (int (length (msg_name m)));
          chars = add_context_size chars (estimate_message_content_chars (msg_content m))
      in fold (\<lambda>key chars. add_context_size chars (raw_len (map_of (msg_extra m) key))) message_extra_keys chars)"

definition estimate_chat_context :: "chat_request \<Rightarrow> int" where
  "estimate_chat_context req =
     (let chars = fold add_message_size (cr_messages req) 0;
          chars = fold (\<lambda>key chars. add_context_size chars (raw_len (map_of (cr_extra req) key)))
                    request_extra_keys chars;
          max_chars = max_int - (chars_per_token - 1);
          chars = (if chars > max_chars then max_chars else chars)
      in add_context_size (tokens_from_chars chars) (requested_output_tokens req))"

text \<open>The kinds of the content parts; a type that is not a string reads as empty.\<close>

definition content_kinds :: "raw_message \<Rightarrow> string list" where
  "content_kinds r = (case r \<bind> as_array \<bind> opt_all as_object of
      None \<Rightarrow> []
    | Some parts \<Rightarrow> map (\<lambda>ms. case unmarshal_string (map_member ''type'' ms) of None \<Rightarrow> [] | Some s \<Rightarrow> s) parts)"

definition vision_kinds :: "string list" where
  "vision_kinds = [''image'', ''image_url'', ''input_image'']"

definition audio_kinds :: "string list" where
  "audio_kinds = [''audio'', ''input_audio'', ''audio_url'']"

definition wants_tools :: "extras \<Rightarrow> bool" where
  "wants_tools ex = (case map_of ex ''tools'' of
      None \<Rightarrow> False
    | Some v \<Rightarrow> \<not> json_is_null v \<and>
        (case as_array v of Some tools \<Rightarrow> tools \<noteq> [] | None \<Rightarrow> False))"

definition wants_json_mode :: "extras \<Rightarrow> bool" where
  "wants_json_mode ex =
     (case map_of ex ''response_format'' \<bind> as_object \<bind> string_of ''type'' of
        Some t \<Rightarrow> t = ''json_object'' \<or> t = ''json_schema'' | None \<Rightarrow> False)"

definition analyze_chat_request :: "chat_request \<Rightarrow> requirements" where
  "analyze_chat_request req =
     (let content_parts = concat (map (\<lambda>m. content_kinds (msg_content m)) (cr_messages req))
      in \<lparr>need_vision = (\<exists>k\<in>set content_parts. k \<in> set vision_kinds),
          need_tools = wants_tools (cr_extra req), need_json_mode = wants_json_mode (cr_extra req),
          need_embeddings = False, need_audio = (\<exists>k\<in>set content_parts. k \<in> set audio_kinds),
          need_streaming = cr_stream req, required_context = estimate_chat_context req\<rparr>)"

definition analyze_embedding_request :: "embedding_request \<Rightarrow> requirements" where
  "analyze_embedding_request req = no_requirements\<lparr>need_embeddings := True\<rparr>"

section \<open>Compatibility\<close>

definition candidate_compatible :: "model_alias \<Rightarrow> requirements \<Rightarrow> bool" where
  "candidate_compatible m req \<longleftrightarrow>
     (let has = (\<lambda>c. c \<in> set (ma_capabilities m)) in
       (\<not> need_vision req \<or> has cap_vision) \<and>
       (\<not> need_tools req \<or> has cap_tools) \<and>
       (\<not> need_json_mode req \<or> has cap_json_mode) \<and>
       (\<not> need_embeddings req \<or> has cap_embeddings) \<and>
       (\<not> need_audio req \<or> has cap_audio) \<and>
       (\<not> need_streaming req \<or> has cap_streaming) \<and>
       (required_context req \<le> 0 \<or> ma_max_context m \<le> 0 \<or> ma_max_context m \<ge> required_context req))"

definition capability_compatible :: "model_alias \<Rightarrow> requirements \<Rightarrow> bool" where
  "capability_compatible m req = candidate_compatible m (req\<lparr>required_context := 0\<rparr>)"

section \<open>The estimate is the exact one, saturated\<close>

lemma add_context_size_min: "add_context_size a b = min max_int (a + b)"
  by (simp add: add_context_size_def)

lemma max_int_pos [simp]: "0 < max_int" "0 \<le> max_int"
  by (simp_all add: max_int_def)

lemma saturate_add: "0 \<le> b \<Longrightarrow> min m (min m a + b) = min m (a + b)" for a b m :: int
  by (simp add: min_def)

lemma sum_map_nonneg: "(\<And>x. x \<in> set xs \<Longrightarrow> 0 \<le> f x) \<Longrightarrow> 0 \<le> sum_list (map f xs)" for f :: "'a \<Rightarrow> int"
  by (rule sum_list_nonneg) auto

lemma fold_saturates:
  assumes "\<And>x. x \<in> set xs \<Longrightarrow> 0 \<le> f x" and "c \<le> max_int"
  shows "fold (\<lambda>x c. min max_int (c + f x)) xs c = min max_int (c + sum_list (map f xs))"
  using assms
proof (induction xs arbitrary: c)
  case (Cons x xs)
  have pos: "0 \<le> f x" "0 \<le> sum_list (map f xs)"
    using Cons.prems(1) by (auto intro: sum_map_nonneg)
  have "fold (\<lambda>x c. min max_int (c + f x)) (x # xs) c =
      min max_int (min max_int (c + f x) + sum_list (map f xs))"
    using Cons by simp
  also have "\<dots> = min max_int (c + (f x + sum_list (map f xs)))"
    using pos by (simp add: min_def)
  finally show ?case by simp
qed simp

lemma raw_len_nonneg [simp]: "0 \<le> raw_len r"
  by (simp add: raw_len_def split: option.split)

lemma content_len_nonneg [simp]: "0 \<le> content_len r"
  by (simp add: content_len_def split: option.split)

lemma part_chars_nonneg [simp]: "0 \<le> part_chars part"
  by (simp add: part_chars_def chars_per_token_def)

text \<open>The sizes without a bound on integers.\<close>

definition exact_content_chars :: "raw_message \<Rightarrow> int" where
  "exact_content_chars r = (case r of
      None \<Rightarrow> 0
    | Some v \<Rightarrow> (case as_array v \<bind> opt_all decode_part of
        None \<Rightarrow> content_len r | Some parts \<Rightarrow> sum_list (map part_chars parts)))"

definition exact_message_chars :: "message \<Rightarrow> int" where
  "exact_message_chars m = int (length (msg_role m)) + int (length (msg_name m)) +
     exact_content_chars (msg_content m) +
     sum_list (map (\<lambda>key. raw_len (map_of (msg_extra m) key)) message_extra_keys)"

definition exact_request_chars :: "chat_request \<Rightarrow> int" where
  "exact_request_chars req = sum_list (map exact_message_chars (cr_messages req)) +
     sum_list (map (\<lambda>key. raw_len (map_of (cr_extra req) key)) request_extra_keys)"

lemma estimate_content_saturates:
  "estimate_message_content_chars r = exact_content_chars r \<or>
   estimate_message_content_chars r = min max_int (exact_content_chars r)"
  by (auto simp: estimate_message_content_chars_def exact_content_chars_def add_context_size_min
      fold_saturates split: option.split)

lemma exact_content_nonneg [simp]: "0 \<le> exact_content_chars r"
  by (auto simp: exact_content_chars_def intro!: sum_map_nonneg split: option.split)

lemma exact_message_nonneg [simp]: "0 \<le> exact_message_chars m"
  by (auto simp: exact_message_chars_def intro!: sum_map_nonneg add_nonneg_nonneg)

lemma add_message_saturates:
  assumes "0 \<le> c" and "c \<le> max_int"
  shows "add_message_size m c = min max_int (c + exact_message_chars m)"
proof -
  let ?r = "int (length (msg_role m))" and ?n = "int (length (msg_name m))"
    and ?e = "sum_list (map (\<lambda>key. raw_len (map_of (msg_extra m) key)) message_extra_keys)"
  have e: "0 \<le> ?e" by (auto intro!: sum_map_nonneg)
  have c: "0 \<le> exact_content_chars (msg_content m)" by simp
  have "add_message_size m c = min max_int (min max_int (min max_int (min max_int (c + ?r) + ?n)
      + estimate_message_content_chars (msg_content m)) + ?e)"
    by (simp add: add_message_size_def fold_saturates add_context_size_min Let_def)
  also have "\<dots> = min max_int (c + ?r + ?n + estimate_message_content_chars (msg_content m) + ?e)"
    using e estimate_content_saturates [of "msg_content m"] c by (auto simp: saturate_add add.assoc)
  also have "\<dots> = min max_int (c + ?r + ?n + exact_content_chars (msg_content m) + ?e)"
    using estimate_content_saturates [of "msg_content m"] c e assms(1) by (auto simp: min_def split: if_splits)
  finally show ?thesis by (simp add: exact_message_chars_def add.assoc)
qed

lemma messages_saturate:
  assumes "0 \<le> c" and "c \<le> max_int"
  shows "fold add_message_size ms c = min max_int (c + sum_list (map exact_message_chars ms))"
  using assms
proof (induction ms arbitrary: c)
  case (Cons m ms)
  have "0 \<le> exact_message_chars m" "0 \<le> sum_list (map exact_message_chars ms)"
    by (simp_all add: sum_map_nonneg)
  with Cons show ?case by (simp add: add_message_saturates saturate_add add.assoc)
qed simp

text \<open>
  The context estimate of a chat request never overflows: it is the estimate over unbounded
  integers, the prompt rounded up to whole tokens plus the reserved output, cut off at the
  largest integer.
\<close>

theorem estimate_saturates:
  "estimate_chat_context req =
     min max_int ((min (exact_request_chars req) (max_int - 3) + 3) div 4 + requested_output_tokens req)"
proof -
  let ?k = "sum_list (map (\<lambda>key. raw_len (map_of (cr_extra req) key)) request_extra_keys)"
  let ?m = "sum_list (map exact_message_chars (cr_messages req))"
  have pos: "0 \<le> ?k" "0 \<le> ?m" by (auto intro!: sum_map_nonneg)
  have "fold (\<lambda>key chars. add_context_size chars (raw_len (map_of (cr_extra req) key))) request_extra_keys
      (fold add_message_size (cr_messages req) 0) = min max_int (min max_int ?m + ?k)"
    by (simp add: messages_saturate add_context_size_min fold_saturates)
  also have "\<dots> = min max_int (exact_request_chars req)"
    using pos by (simp add: exact_request_chars_def min_def)
  finally have "estimate_chat_context req =
      add_context_size (tokens_from_chars (min (exact_request_chars req) (max_int - 3))) (requested_output_tokens req)"
    by (simp add: estimate_chat_context_def Let_def chars_per_token_def min_def)
  moreover have "tokens_from_chars (min (exact_request_chars req) (max_int - 3)) =
      (min (exact_request_chars req) (max_int - 3) + 3) div 4"
  proof -
    let ?c = "min (exact_request_chars req) (max_int - 3)"
    have c: "0 \<le> ?c" "?c \<le> max_int - 3" using pos by (simp_all add: exact_request_chars_def max_int_def)
    then have "wrap64 (?c + 3) = ?c + 3" by (intro wrap64_id) (simp add: in_int64_def min_int_def)
    then have "wrap64 (3 + ?c) = ?c + 3" by (simp only: add.commute)
    moreover have "(?c + 3) sdiv 4 = (?c + 3) div 4" using c by (intro sdiv_nonneg) simp_all
    moreover have "?c \<le> 0 \<Longrightarrow> (?c + 3) div 4 = 0" using c by (subgoal_tac "?c = 0") simp_all
    ultimately show ?thesis
      by (simp add: tokens_from_chars_def chars_per_token_def)
  qed
  ultimately show ?thesis by (simp add: add_context_size_min)
qed

end
