(* ===== verification/Routing.thy ===== *)
theory Routing
  imports Requirements Rotation Rolling_Stats Provider_Http
begin

text \<open>
  The routing table and the choice of a chain, from \<^verbatim>\<open>internal/router/router.go\<close> and
  \<^verbatim>\<open>intelligent.go\<close>. \<open>routes\<close> is the snapshot a reload installs; its cursors are the only part
  that a request changes. A client of type \<open>'c\<close> stands for a provider. Scores are exact rationals
  where the code computes in \<^verbatim>\<open>float64\<close>, so candidates whose scores differ by less than rounding
  may come in the other order. \<open>None\<close> as a choice is a run-time panic: an index that is negative
  or a division by zero.
\<close>

section \<open>The table\<close>

record route =
  rte_alias :: string
  rte_provider :: string
  rte_model :: string

record 'c routes =
  rt_models :: "(string, model_alias) gomap"
  rt_combos :: "(string, combo) gomap"
  rt_cursors :: "(string, u64) gomap"
  rt_registry :: "'c registry"

definition max_chain_attempts :: nat where "max_chain_attempts = 8"

definition add_pool :: "(string, model_alias) gomap \<Rightarrow> combo \<Rightarrow>
    (string, combo) gomap \<times> (string, u64) gomap \<Rightarrow> (string, combo) gomap \<times> (string, u64) gomap" where
  "add_pool models c pools =
     (if \<not> co_enabled c \<or> co_members c = [] then pools
      else if map_of models (co_name c) \<noteq> None then pools
      else (map_put (co_name c) c (fst pools), map_put (co_name c) 0 (snd pools)))"

definition reload :: "model_alias list \<Rightarrow> combo list \<Rightarrow> 'c registry \<Rightarrow> 'c routes" where
  "reload aliases combos registry =
     (let models = fold (\<lambda>m. map_put (ma_alias m) m) aliases [];
          (pools, cursors) = fold (add_pool models) combos ([], [])
      in \<lparr>rt_models = models, rt_combos = pools, rt_cursors = cursors, rt_registry = registry\<rparr>)"

definition aliases :: "'c routes \<Rightarrow> string list" where "aliases rt = map_keys (rt_models rt)"
definition combo_names :: "'c routes \<Rightarrow> string list" where "combo_names rt = map_keys (rt_combos rt)"

definition resolve :: "string \<Rightarrow> 'c routes \<Rightarrow> gerror + route" where
  "resolve name rt = (case map_of (rt_models rt) name of
      Some m \<Rightarrow> Inr \<lparr>rte_alias = name, rte_provider = ma_provider m, rte_model = ma_model m\<rparr>
    | None \<Rightarrow> (case map_of (rt_combos rt) name of
        None \<Rightarrow> Inl (Wrapped ErrUnknownModel name)
      | Some combo \<Rightarrow> (let name = hd (co_members combo) in case map_of (rt_models rt) name of
          Some m \<Rightarrow> Inr \<lparr>rte_alias = name, rte_provider = ma_provider m, rte_model = ma_model m\<rparr>
        | None \<Rightarrow> Inl (Wrapped ErrUnknownModel name))))"

definition pick_route :: "string \<Rightarrow> 'c routes \<Rightarrow> gerror + 'c \<times> route" where
  "pick_route alias rt = (case resolve alias rt of
      Inl err \<Rightarrow> Inl err
    | Inr route \<Rightarrow> (case registry_get (rt_registry rt) (rte_provider route) of
        Inl err \<Rightarrow> Inl err | Inr p \<Rightarrow> Inr (p, route)))"

text \<open>A lookup of an absent alias gives the zero record.\<close>

definition alias_capabilities :: "string \<Rightarrow> 'c routes \<Rightarrow> string list" where
  "alias_capabilities a rt = (case map_of (rt_models rt) a of None \<Rightarrow> [] | Some m \<Rightarrow> ma_capabilities m)"

definition alias_fallback :: "string \<Rightarrow> 'c routes \<Rightarrow> string list" where
  "alias_fallback a rt = (case map_of (rt_models rt) a of None \<Rightarrow> [] | Some m \<Rightarrow> ma_fallback m)"

definition capabilities :: "string \<Rightarrow> 'c routes \<Rightarrow> string list" where
  "capabilities name rt = (case map_of (rt_models rt) name of
      Some m \<Rightarrow> normalize_capabilities (ma_capabilities m)
    | None \<Rightarrow> (case map_of (rt_combos rt) name of
        None \<Rightarrow> []
      | Some combo \<Rightarrow>
          normalize_capabilities (concat (map (\<lambda>a. alias_capabilities a rt) (co_members combo)))))"

section \<open>Rotation and weights\<close>

definition rotate_members :: "string list \<Rightarrow> int \<Rightarrow> string list option" where
  "rotate_members members start =
     (let n = length members in
      if \<exists>i\<in>{0..<n}. (start + int i) smod int n < 0 then None
      else Some (map (\<lambda>i. members ! nat ((start + int i) smod int n)) [0..<n]))"

definition weight_at :: "int list \<Rightarrow> nat \<Rightarrow> int" where
  "weight_at weights i = (if i \<ge> length weights \<or> weights ! i < 1 then 1 else weights ! i)"

fun weighted_scan :: "int list \<Rightarrow> nat \<Rightarrow> int \<Rightarrow> nat" where
  "weighted_scan [] i offset = 0"
| "weighted_scan (w # ws) i offset =
     (let offset = wrap64 (offset - w) in if offset < 0 then i else weighted_scan ws (Suc i) offset)"

definition weighted_pick :: "string list \<Rightarrow> int list \<Rightarrow> u64 \<Rightarrow> nat option" where
  "weighted_pick members weights tick =
     (let shares = map (weight_at weights) [0..<length members];
          sum = fold (\<lambda>w t. wrap64 (t + w)) shares 0
      in if word_of_int sum = (0::u64) then None
         else Some (weighted_scan shares 0 (int_of_u64 (tick mod word_of_int sum))))"

text \<open>\<^verbatim>\<open>cursor.Add(1)-1\<close>: the value before the atomic increment.\<close>

definition cursor_of :: "string \<Rightarrow> 'c routes \<Rightarrow> u64" where
  "cursor_of name rt = (case map_of (rt_cursors rt) name of None \<Rightarrow> 0 | Some c \<Rightarrow> c)"

definition cursor_advance :: "string \<Rightarrow> 'c routes \<Rightarrow> 'c routes" where
  "cursor_advance name rt = rt\<lparr>rt_cursors := map_put name (cursor_of name rt + 1) (rt_cursors rt)\<rparr>"

section \<open>The intelligent order\<close>

definition intelligent_baseline_ms :: rat where "intelligent_baseline_ms = 2000"

definition normalize_lower :: "rat \<Rightarrow> rat \<Rightarrow> rat \<Rightarrow> rat" where
  "normalize_lower v lo hi = (if hi \<le> lo then 100 else (hi - v) * 100 / (hi - lo))"

definition candidate_latency :: "stats \<Rightarrow> string \<Rightarrow> rat" where
  "candidate_latency st a = (case stats_alias a st of
      Some s \<Rightarrow> if as_p50_ms s > 0 then of_int (as_p50_ms s) else intelligent_baseline_ms
    | None \<Rightarrow> intelligent_baseline_ms)"

definition candidate_health :: "stats \<Rightarrow> string \<Rightarrow> rat" where
  "candidate_health st a = (case stats_alias a st of Some s \<Rightarrow> as_success_rate s | None \<Rightarrow> 50)"

definition candidate_cost :: "'c routes \<Rightarrow> string \<Rightarrow> rat" where
  "candidate_cost rt a = (case map_of (rt_models rt) a of
      None \<Rightarrow> 0 | Some m \<Rightarrow> ma_price_input m + ma_price_output m)"

definition candidate_tier :: "'c routes \<Rightarrow> string \<Rightarrow> rat" where
  "candidate_tier rt a = (case map_of (rt_models rt) a of None \<Rightarrow> 0 | Some m \<Rightarrow> of_int (ma_quality_tier m))"

definition candidate_score :: "stats \<Rightarrow> 'c routes \<Rightarrow> string list \<Rightarrow> string \<Rightarrow> rat" where
  "candidate_score st rt candidates a =
     (let min_latency = fold (\<lambda>a. min (candidate_latency st a)) candidates intelligent_baseline_ms;
          max_latency = fold (\<lambda>a. max (candidate_latency st a)) candidates intelligent_baseline_ms;
          min_cost = fold (\<lambda>a. min (candidate_cost rt a)) candidates 0;
          max_cost = fold (\<lambda>a. max (candidate_cost rt a)) candidates 0
      in candidate_tier rt a * (35/100) + candidate_health st a * (30/100)
         + normalize_lower (candidate_latency st a) min_latency max_latency * (20/100)
         + normalize_lower (candidate_cost rt a) min_cost max_cost * (15/100))"

definition score_candidates :: "stats \<Rightarrow> 'c routes \<Rightarrow> string list \<Rightarrow> (string \<times> rat) list" where
  "score_candidates st rt candidates = map (\<lambda>a. (a, candidate_score st rt candidates a)) candidates"

definition member_capable :: "'c routes \<Rightarrow> requirements \<Rightarrow> string \<Rightarrow> bool" where
  "member_capable rt req a = (case map_of (rt_models rt) a of
      None \<Rightarrow> False | Some m \<Rightarrow> capability_compatible m req)"

definition member_fits :: "'c routes \<Rightarrow> requirements \<Rightarrow> string \<Rightarrow> bool" where
  "member_fits rt req a = (case map_of (rt_models rt) a of
      None \<Rightarrow> False
    | Some m \<Rightarrow> \<not> (required_context req > 0 \<and> ma_max_context m > 0 \<and> ma_max_context m < required_context req))"

text \<open>The stable sort compares scores and then positions in the pool, which are increasing.\<close>

definition intelligent_order :: "stats \<Rightarrow> combo \<Rightarrow> requirements \<Rightarrow> 'c routes \<Rightarrow> gerror + string list" where
  "intelligent_order st combo req rt =
     (let capable = filter (member_capable rt req) (co_members combo);
          candidates = filter (member_fits rt req) capable
      in if candidates = [] then
           (if capable \<noteq> [] then Inl (Sentinel ErrRouterContextExceeded)
            else Inl (Sentinel ErrNoCompatibleModel))
         else Inr (map fst (sort_key (\<lambda>(a, score). - score) (score_candidates st rt candidates))))"

section \<open>Chains\<close>

definition entrypoints ::
  "stats \<Rightarrow> string \<Rightarrow> requirements \<Rightarrow> 'c routes \<Rightarrow> (gerror + string list) option \<times> 'c routes"
where
  "entrypoints st name req rt = (case map_of (rt_combos rt) name of
      None \<Rightarrow> (Some (Inr [name]), rt)
    | Some combo \<Rightarrow> (case co_strategy combo of
        ComboRoundRobin \<Rightarrow>
          (map_option Inr (rotate_members (co_members combo)
             (int_of_u64 (cursor_of name rt) smod int (length (co_members combo)))),
           cursor_advance name rt)
      | ComboWeighted \<Rightarrow>
          (Option.bind (weighted_pick (co_members combo) (co_weights combo) (cursor_of name rt))
             (\<lambda>i. map_option Inr (rotate_members (co_members combo) (int i))),
           cursor_advance name rt)
      | ComboIntelligent \<Rightarrow> (Some (intelligent_order st combo req rt), rt)
      | _ \<Rightarrow> (Some (Inr (co_members combo)), rt)))"

definition is_intelligent :: "string \<Rightarrow> 'c routes \<Rightarrow> bool" where
  "is_intelligent name rt = (case map_of (rt_combos rt) name of
      None \<Rightarrow> False | Some combo \<Rightarrow> co_strategy combo = ComboIntelligent)"

text \<open>\<open>append_candidates\<close> is the closure of the code; its flag is False once the chain is full.\<close>

fun append_candidates :: "string list \<Rightarrow> string list \<Rightarrow> string list \<times> bool" where
  "append_candidates [] chain = (chain, True)"
| "append_candidates (c # cs) chain =
     (if c \<in> set chain then append_candidates cs chain
      else if length (chain @ [c]) < max_chain_attempts then append_candidates cs (chain @ [c])
      else (chain @ [c], False))"

definition usable_fallbacks :: "string \<Rightarrow> requirements \<Rightarrow> 'c routes \<Rightarrow> string \<Rightarrow> string list" where
  "usable_fallbacks name req rt member =
     filter (\<lambda>f. \<not> is_intelligent name rt \<or>
       (case map_of (rt_models rt) f of None \<Rightarrow> False | Some m \<Rightarrow> candidate_compatible m req))
     (alias_fallback member rt)"

fun walk_members :: "string \<Rightarrow> requirements \<Rightarrow> 'c routes \<Rightarrow> string list \<Rightarrow> string list \<Rightarrow> string list" where
  "walk_members name req rt [] chain = chain"
| "walk_members name req rt (m # ms) chain =
     (case append_candidates (m # usable_fallbacks name req rt m) chain of
        (chain, go) \<Rightarrow> if go then walk_members name req rt ms chain else chain)"

definition chain ::
  "stats \<Rightarrow> string \<Rightarrow> requirements \<Rightarrow> 'c routes \<Rightarrow> string list option \<times> 'c routes"
where
  "chain st name req rt = (case entrypoints st name req rt of
      (None, rt') \<Rightarrow> (None, rt')
    | (Some (Inl _), rt') \<Rightarrow> (Some [], rt')
    | (Some (Inr ms), rt') \<Rightarrow> (Some (walk_members name req rt ms []), rt'))"

section \<open>The table after a reload\<close>

definition routes_wf :: "'c routes \<Rightarrow> bool" where
  "routes_wf rt \<longleftrightarrow> map_wf (rt_models rt) \<and> map_wf (rt_combos rt) \<and>
     (\<forall>name c. map_of (rt_combos rt) name = Some c \<longrightarrow>
        co_name c = name \<and> co_enabled c \<and> co_members c \<noteq> [] \<and> map_of (rt_models rt) name = None)"

lemma fold_put_wf: "map_wf m \<Longrightarrow> map_wf (fold (\<lambda>x. map_put (f x) x) xs m)"
  by (induction xs arbitrary: m) simp_all

definition pools_ok :: "(string, model_alias) gomap \<Rightarrow> (string, combo) gomap \<Rightarrow> bool" where
  "pools_ok models pools \<longleftrightarrow> map_wf pools \<and> (\<forall>name c. map_of pools name = Some c \<longrightarrow>
     co_name c = name \<and> co_enabled c \<and> co_members c \<noteq> [] \<and> map_of models name = None)"

lemma add_pool_ok: "pools_ok models (fst ps) \<Longrightarrow> pools_ok models (fst (add_pool models c ps))"
  by (auto simp: add_pool_def pools_ok_def)

lemma fold_add_pool_ok: "pools_ok models (fst ps) \<Longrightarrow> pools_ok models (fst (fold (add_pool models) cs ps))"
  by (induction cs arbitrary: ps) (simp_all add: add_pool_ok)

lemma reload_wf: "routes_wf (reload as cs reg)"
proof -
  let ?m = "fold (\<lambda>m. map_put (ma_alias m) m) as []"
  have "pools_ok ?m (fst (fold (add_pool ?m) cs ([], [])))"
    by (rule fold_add_pool_ok) (simp add: pools_ok_def)
  moreover have "map_wf ?m" by (rule fold_put_wf) simp
  ultimately show ?thesis
    by (auto simp: reload_def routes_wf_def pools_ok_def Let_def split: prod.split)
qed

lemma add_pool_cursors:
  "map_of (snd (add_pool models c ps)) name = map_of (snd ps) name \<or>
   map_of (snd (add_pool models c ps)) name = Some 0"
  by (auto simp: add_pool_def)

lemma fold_add_pool_cursors:
  "map_of (snd ps) name \<in> {None, Some 0} \<Longrightarrow>
   map_of (snd (fold (add_pool models) cs ps)) name \<in> {None, Some 0}"
proof (induction cs arbitrary: ps)
  case (Cons c cs)
  have "map_of (snd (add_pool models c ps)) name \<in> {None, Some 0}"
    using add_pool_cursors [of models c ps name] Cons.prems by auto
  from Cons.IH [OF this] show ?case by simp
qed simp

lemma reload_cursor: "cursor_of name (reload as cs reg) = 0"
proof -
  let ?m = "fold (\<lambda>m. map_put (ma_alias m) m) as []"
  have "map_of (snd (fold (add_pool ?m) cs ([], []))) name \<in> {None, Some 0}"
    by (rule fold_add_pool_cursors) simp
  then show ?thesis
    by (auto simp: reload_def cursor_of_def Let_def split_def)
qed

section \<open>A chain has no repetition and at most eight routes\<close>

text \<open>Keeping the first occurrence of each element.\<close>

definition insert_new :: "string \<Rightarrow> string list \<Rightarrow> string list" where
  "insert_new c xs = (if c \<in> set xs then xs else xs @ [c])"

abbreviation extend :: "string list \<Rightarrow> string list \<Rightarrow> string list" where
  "extend xs cs \<equiv> fold insert_new cs xs"

lemma extend_distinct: "distinct xs \<Longrightarrow> distinct (extend xs cs)"
  by (induction cs arbitrary: xs) (simp_all add: insert_new_def)

lemma extend_set: "set (extend xs cs) = set xs \<union> set cs"
  by (induction cs arbitrary: xs) (auto simp: insert_new_def)

lemma extend_prefix: "\<exists>ys. extend xs cs = xs @ ys"
proof (induction cs arbitrary: xs)
  case (Cons c cs)
  from Cons [of "insert_new c xs"] show ?case by (auto simp: insert_new_def)
qed simp

lemma extend_full: "max_chain_attempts \<le> length xs \<Longrightarrow>
    take max_chain_attempts (extend xs cs) = take max_chain_attempts xs \<and> max_chain_attempts \<le> length (extend xs cs)"
  using extend_prefix [where xs = xs and cs = cs] by auto

lemma append_candidates_extend:
  "length xs < max_chain_attempts \<Longrightarrow>
   append_candidates cs xs = (take max_chain_attempts (extend xs cs), length (extend xs cs) < max_chain_attempts)"
proof (induction cs xs rule: append_candidates.induct)
  case (2 c cs xs)
  show ?case
  proof (cases "c \<in> set xs \<or> length (xs @ [c]) < max_chain_attempts")
    case True
    then show ?thesis using 2 by (auto simp: insert_new_def)
  next
    case False
    then have len: "length (xs @ [c]) = max_chain_attempts" and c: "c \<notin> set xs" using 2(3) by simp_all
    then show ?thesis using extend_full [where xs = "xs @ [c]" and cs = cs]
      by (simp, simp add: insert_new_def [of c])
  qed
qed simp

lemma walk_members_extend:
  "length xs < max_chain_attempts \<Longrightarrow>
   walk_members name req rt ms xs =
     take max_chain_attempts (extend xs (concat (map (\<lambda>m. m # usable_fallbacks name req rt m) ms)))"
proof (induction ms arbitrary: xs)
  case (Cons m ms)
  let ?ys = "extend xs (m # usable_fallbacks name req rt m)"
  show ?case
  proof (cases "length ?ys < max_chain_attempts")
    case True
    then show ?thesis
      using Cons.IH [of ?ys] Cons.prems append_candidates_extend [OF Cons.prems, of "m # usable_fallbacks name req rt m"]
      by (simp del: append_candidates.simps)
  next
    case False
    then show ?thesis
      using append_candidates_extend [OF Cons.prems, of "m # usable_fallbacks name req rt m"]
        extend_full [where xs = ?ys and cs = "concat (map (\<lambda>m. m # usable_fallbacks name req rt m) ms)"]
      by (simp del: append_candidates.simps)
  qed
qed simp

section \<open>Rotation\<close>

lemma rotate_members_eq:
  assumes "0 \<le> start"
  shows "rotate_members ms start = Some (rotate (nat start) ms)"
proof -
  let ?n = "length ms"
  have idx: "(start + int i) smod int ?n = int ((nat start + i) mod ?n)" if "i < ?n" for i
  proof -
    have "0 < int ?n" using that by (cases ms) simp_all
    then show ?thesis using assms by (simp add: smod_nonneg zmod_int)
  qed
  then have "\<not> (\<exists>i\<in>{0..<?n}. (start + int i) smod int ?n < 0)" by simp
  moreover have "map (\<lambda>i. ms ! nat ((start + int i) smod int ?n)) [0..<?n] = rotate (nat start) ms"
    using idx by (intro nth_equalityI) (simp_all add: nth_rotate)
  ultimately show ?thesis unfolding rotate_members_def Let_def by simp
qed

lemma cursor_advance_simps [simp]:
  "rt_models (cursor_advance n rt) = rt_models rt" "rt_combos (cursor_advance n rt) = rt_combos rt"
  "rt_registry (cursor_advance n rt) = rt_registry rt"
  "cursor_of n (cursor_advance n rt) = cursor_of n rt + 1"
  "n \<noteq> n' \<Longrightarrow> cursor_of n' (cursor_advance n rt) = cursor_of n' rt"
  by (simp_all add: cursor_advance_def cursor_of_def)

text \<open>The members a round-robin combo rotates, and its first choice for one request.\<close>

definition rr_members :: "string \<Rightarrow> 'c routes \<Rightarrow> string list" where
  "rr_members name rt = (case map_of (rt_combos rt) name of
      None \<Rightarrow> [] | Some c \<Rightarrow> if co_strategy c = ComboRoundRobin then co_members c else [])"

definition rr_first :: "string \<times> 'c routes \<Rightarrow> string \<times> string \<times> 'c routes" where
  "rr_first s = (case entrypoints new_stats (fst s) no_requirements (snd s) of
      (Some (Inr (m # _)), rt) \<Rightarrow> (m, fst s, rt) | (_, rt) \<Rightarrow> ([], fst s, rt))"

lemma rr_entrypoints:
  assumes "rr_members name rt \<noteq> []" and "unat (cursor_of name rt) < 2 ^ 63"
  shows "entrypoints st name req rt =
    (Some (Inr (rotate (unat (cursor_of name rt)) (rr_members name rt))), cursor_advance name rt)"
proof -
  obtain c where c: "map_of (rt_combos rt) name = Some c" "co_strategy c = ComboRoundRobin"
    "rr_members name rt = co_members c" "co_members c \<noteq> []"
    using assms(1) by (auto simp: rr_members_def split: option.splits if_splits)
  have "int_of_u64 (cursor_of name rt) smod int (length (co_members c)) =
      int (unat (cursor_of name rt) mod length (co_members c))"
    using assms(2) c(4) by (simp add: int_of_u64_small smod_nonneg zmod_int)
  then show ?thesis
    using c by (simp add: entrypoints_def rotate_members_eq rotate_conv_mod [symmetric])
qed

lemma entrypoints_combos [simp]:
  "rt_combos (snd (entrypoints st name req rt)) = rt_combos rt"
  "rt_models (snd (entrypoints st name req rt)) = rt_models rt"
  "rt_registry (snd (entrypoints st name req rt)) = rt_registry rt"
  by (auto simp: entrypoints_def split: option.split combo_strategy.split)

lemma rr_first_state: "snd (rr_first s) = (fst s, snd (entrypoints new_stats (fst s) no_requirements (snd s)))"
  by (auto simp: rr_first_def split: prod.split option.split sum.split list.split)

interpretation combo_rotation: rotation rr_first "\<lambda>s. cursor_of (fst s) (snd s)" "\<lambda>s. rr_members (fst s) (snd s)" "2 ^ 63"
proof (unfold_locales, goal_cases)
  case (2 s)
  then show ?case
    using rr_entrypoints [OF 2, of new_stats no_requirements]
    by (cases "rotate (unat (cursor_of (fst s) (snd s))) (rr_members (fst s) (snd s))")
      (auto simp: rr_first_def nth_rotate [of 0, simplified, symmetric] hd_conv_nth hd_rotate_conv_nth dest: arg_cong [of _ _ hd])
next
  case (3 s)
  have "entrypoints new_stats (fst s) no_requirements (snd s) = (x, rt') \<Longrightarrow> rt' = cursor_advance (fst s) (snd s)" for x rt'
    using 3 by (auto simp: entrypoints_def rr_members_def split: option.splits if_splits)
  then show ?case by (simp add: rr_first_state) (metis cursor_advance_simps(4) prod.collapse)
next
  case (4 s)
  show ?case by (simp add: rr_first_state) (simp add: rr_members_def)
qed simp

section \<open>Weighted choice\<close>

definition shares :: "string list \<Rightarrow> int list \<Rightarrow> int list" where
  "shares members weights = map (weight_at weights) [0..<length members]"

lemma weight_at_pos: "1 \<le> weight_at weights i"
  by (simp add: weight_at_def)

lemma shares_pos: "w \<in> set (shares members weights) \<Longrightarrow> 1 \<le> w"
  using weight_at_pos by (auto simp: shares_def)

lemma sum_pos_list: "(\<And>w. w \<in> set ws \<Longrightarrow> 1 \<le> w) \<Longrightarrow> int (length ws) \<le> sum_list ws" for ws :: "int list"
  by (induction ws) force+

lemma sum_nonneg_list: "(\<And>w. w \<in> set ws \<Longrightarrow> 1 \<le> w) \<Longrightarrow> 0 \<le> sum_list ws" for ws :: "int list"
  using sum_pos_list [of ws] by fastforce

lemma fold_wrap_sum:
  assumes "\<And>w. w \<in> set ws \<Longrightarrow> 1 \<le> w" and "0 \<le> t" and "t + sum_list ws \<le> max_int"
  shows "fold (\<lambda>w t. wrap64 (t + w)) ws t = t + sum_list ws"
  using assms
proof (induction ws arbitrary: t)
  case (Cons w ws)
  have pos: "1 \<le> w" "0 \<le> sum_list ws" using Cons.prems(1) sum_nonneg_list [of ws] by simp_all
  then have "in_int64 (t + w)" using Cons.prems(2,3) by (simp add: in_int64_def min_int_def)
  moreover have "fold (\<lambda>w t. wrap64 (t + w)) ws (t + w) = t + w + sum_list ws"
  proof (rule Cons.IH)
    show "0 \<le> t + w" using pos Cons.prems(2) by linarith
    show "t + w + sum_list ws \<le> max_int" using Cons.prems(3) by simp
  qed (use Cons.prems(1) in simp)
  ultimately show ?case by simp
qed simp

lemma shares_sum_pos: "members \<noteq> [] \<Longrightarrow> 0 < sum_list (shares members weights)"
proof -
  assume "members \<noteq> []"
  then have "0 < int (length (shares members weights))" by (simp add: shares_def)
  also have "\<dots> \<le> sum_list (shares members weights)" by (rule sum_pos_list) (rule shares_pos)
  finally show ?thesis .
qed

text \<open>The scan reads, for each offset below the total, from the list of slots.\<close>

definition slots :: "int list \<Rightarrow> nat \<Rightarrow> nat list" where
  "slots ws i = concat (map (\<lambda>j. replicate (nat (ws ! j)) (i + j)) [0..<length ws])"

lemma slots_Cons: "slots (w # ws) i = replicate (nat w) i @ slots ws (Suc i)"
  by (simp add: slots_def upt_conv_Cons map_Suc_upt [symmetric] comp_def del: upt_Suc map_Suc_upt)

lemma scan_slots:
  assumes "\<And>w. w \<in> set ws \<Longrightarrow> 1 \<le> w" and "sum_list ws \<le> max_int"
  shows "map (\<lambda>k. weighted_scan ws i (int k)) [0..<nat (sum_list ws)] = slots ws i"
  using assms
proof (induction ws arbitrary: i)
  case (Cons w ws)
  have pos: "1 \<le> w" "0 \<le> sum_list ws" using Cons.prems(1) sum_nonneg_list [of ws] by simp_all
  let ?a = "nat w" and ?b = "nat (sum_list ws)"
  have split: "[0..<nat (sum_list (w # ws))] = [0..<?a] @ map (\<lambda>k. k + ?a) [0..<?b]"
  proof -
    have "nat (sum_list (w # ws)) = ?a + ?b" using pos by (simp add: nat_add_distrib)
    moreover have "[0..<?a + ?b] = [0..<?a] @ [?a..<?a + ?b]" by (simp only: upt_add_eq_append [of 0] le0)
    ultimately show ?thesis by (simp only: map_add_upt add.commute)
  qed
  have step: "weighted_scan (w # ws) i (int k) = (if k < ?a then i else weighted_scan ws (Suc i) (int (k - ?a)))"
    if "k < ?a + ?b" for k
  proof -
    have "in_int64 (int k - w)"
      using that pos Cons.prems(2) by (simp add: in_int64_def min_int_def max_int_def)
    then show ?thesis using pos by (auto simp: Let_def of_nat_diff)
  qed
  have "map (\<lambda>k. weighted_scan (w # ws) i (int k)) [0..<?a] = replicate ?a i"
    using step by (intro nth_equalityI) (simp_all del: weighted_scan.simps)
  moreover have "map (\<lambda>k. weighted_scan (w # ws) i (int k)) (map (\<lambda>k. k + ?a) [0..<?b]) =
      map (\<lambda>k. weighted_scan ws (Suc i) (int k)) [0..<?b]"
  proof -
    have "weighted_scan (w # ws) i (int (k + ?a)) = weighted_scan ws (Suc i) (int k)" if "k < ?b" for k
      using step [of "k + ?a"] that by (simp del: weighted_scan.simps of_nat_add)
    then show ?thesis unfolding map_map comp_def by (intro map_cong refl) simp
  qed
  moreover have "map (\<lambda>k. weighted_scan ws (Suc i) (int k)) [0..<?b] = slots ws (Suc i)"
  proof (rule Cons.IH)
    show "sum_list ws \<le> max_int" using Cons.prems(2) pos by simp
  qed (use Cons.prems(1) in simp)
  ultimately show ?case by (simp only: split map_append slots_Cons)
qed (simp add: slots_def)

lemma length_slots:
  assumes "\<And>w. w \<in> set ws \<Longrightarrow> 1 \<le> w" and "sum_list ws \<le> max_int"
  shows "length (slots ws i) = nat (sum_list ws)"
  using arg_cong [OF scan_slots [OF assms, of i], of length] by simp

lemma count_slots: "j < length ws \<Longrightarrow> count_list (slots ws i) (i + j) = nat (ws ! j)"
proof (induction ws arbitrary: i j)
  case (Cons w ws)
  have rep: "count_list (replicate n x) y = (if x = y then n else 0)" for n and x y :: nat
    by (induction n) auto
  have small: "count_list (slots ws (Suc i)) i = 0" by (auto simp: slots_def count_list_0_iff)
  show ?case
  proof (cases j)
    case 0
    then show ?thesis using small by (simp add: slots_Cons rep)
  next
    case (Suc k)
    then show ?thesis using Cons.IH [of k "Suc i"] Cons.prems by (simp add: slots_Cons rep)
  qed
qed simp

lemma weighted_pick_slot:
  assumes "members \<noteq> []" and "sum_list (shares members weights) \<le> max_int"
  shows "weighted_pick members weights tick =
    Some (slots (shares members weights) 0 ! (unat tick mod length (slots (shares members weights) 0)))"
proof -
  let ?ws = "shares members weights"
  define s where "s = sum_list ?ws"
  have pos: "\<And>w. w \<in> set ?ws \<Longrightarrow> 1 \<le> w" by (rule shares_pos)
  have s: "0 < s" "s \<le> max_int"
    using shares_sum_pos assms by (auto simp: s_def)
  have sum: "fold (\<lambda>w t. wrap64 (t + w)) ?ws 0 = s"
    using fold_wrap_sum [of ?ws 0] pos assms(2) by (simp add: s_def)
  have u: "unat (word_of_int s :: u64) = nat s"
  proof -
    have "s mod 2 ^ 64 = s" using s by (simp add: max_int_def)
    then show ?thesis by (simp add: unat_eq_nat_uint uint_word_of_int)
  qed
  let ?k = "unat tick mod nat s"
  have k: "?k < nat s" using s by simp
  have "unat (tick mod word_of_int s) = ?k" by (simp add: unat_mod_distrib u)
  moreover have "nat s < 2 ^ 63" using s by (simp add: max_int_def nat_less_iff)
  ultimately have "int_of_u64 (tick mod word_of_int s) = int ?k"
    using k int_of_u64_small [of "tick mod word_of_int s"] by simp
  moreover have "(word_of_int s :: u64) \<noteq> 0" using u s by (metis nat_eq_iff2 not_less_iff_gr_or_eq unat_0 zero_less_nat_eq)
  moreover have "weighted_scan ?ws 0 (int ?k) = slots ?ws 0 ! ?k"
    using scan_slots [of ?ws 0] pos assms(2) k nth_map [of ?k "[0..<nat s]" "\<lambda>k. weighted_scan ?ws 0 (int k)"]
    by (simp add: s_def)
  moreover have "length (slots ?ws 0) = nat s" using length_slots [of ?ws 0] pos assms(2) by (simp add: s_def)
  ultimately show ?thesis
    by (simp add: weighted_pick_def Let_def sum [unfolded shares_def] flip: shares_def) (simp add: sum)
qed

text \<open>
  C11. A weighted combo serves its members in proportion: over one period of as many requests as
  the weights add up to, wherever it starts, each member is chosen exactly as often as its weight
  says (a missing or non-positive weight counts as one).
\<close>

theorem weighted_shares_exact:
  assumes "members \<noteq> []" and "sum_list (shares members weights) \<le> max_int"
    and "unat tick + nat (sum_list (shares members weights)) < 2 ^ 64" and "i < length members"
  shows "count_list (map (\<lambda>k. weighted_pick members weights (tick + of_nat k))
      [0..<nat (sum_list (shares members weights))]) (Some i) = nat (weight_at weights i)"
proof -
  let ?ws = "shares members weights"
  let ?xs = "slots ?ws 0"
  have len: "length ?xs = nat (sum_list ?ws)" by (rule length_slots [OF shares_pos assms(2)])
  have "?xs \<noteq> []"
    using len shares_sum_pos [OF assms(1), of weights] by auto
  have "unat (tick + of_nat k) = unat tick + k" if "k < length ?xs" for k
    using that assms(3) len by (simp add: unat_word_ariths unat_of_nat)
  then have "map (\<lambda>k. weighted_pick members weights (tick + of_nat k)) [0..<length ?xs] =
      map Some (map (\<lambda>k. ?xs ! ((unat tick + k) mod length ?xs)) [0..<length ?xs])"
    by (simp add: weighted_pick_slot [OF assms(1,2)])
  also have "\<dots> = map Some (rotate (unat tick mod length ?xs) ?xs)"
    by (simp only: cyclic_period [OF \<open>?xs \<noteq> []\<close>])
  finally have "count_list (map (\<lambda>k. weighted_pick members weights (tick + of_nat k)) [0..<length ?xs]) (Some i) =
      count_list (map Some (rotate (unat tick mod length ?xs) ?xs)) (Some i)" by simp
  also have "\<dots> = count_list (rotate (unat tick mod length ?xs) ?xs) i"
    by (induction "rotate (unat tick mod length ?xs) ?xs" rule: list.induct) (simp_all add: count_list_map_conv inj_def)
  also have "\<dots> = count_list ?xs i"
    by (metis count_mset mset_rotate)
  also have "\<dots> = nat (weight_at weights i)"
    using count_slots [of i ?ws 0] assms(4) by (simp add: shares_def)
  finally show ?thesis by (simp add: len)
qed

lemma weighted_shares_exact_witness:
  "count_list (map (\<lambda>k. weighted_pick [''a'', ''b'', ''c''] [3, 1, 2] (7 + of_nat k)) [0..<6]) (Some 0) = 3"
  using weighted_shares_exact [of "[''a'', ''b'', ''c'']" "[3, 1, 2]" 7 0]
  by (simp add: shares_def weight_at_def max_int_def upt_rec)

section \<open>Properties of the choice\<close>

text \<open>
  C12. A chain is bounded and free of repetition: it is the first eight distinct names of the
  sequence that starts with each entry point in turn, followed by that entry point's own fallbacks
  (for an intelligent combo only those that can serve the request).
\<close>

theorem chain_bounded:
  assumes "entrypoints st name req rt = (Some (Inr ms), rt')"
  shows "\<exists>c. chain st name req rt = (Some c, rt') \<and> length c \<le> 8 \<and> distinct c \<and>
    c = take 8 (extend [] (concat (map (\<lambda>m. m # usable_fallbacks name req rt m) ms)))"
proof -
  have "walk_members name req rt ms [] =
      take 8 (extend [] (concat (map (\<lambda>m. m # usable_fallbacks name req rt m) ms)))"
    by (subst walk_members_extend) (simp_all add: max_chain_attempts_def)
  then show ?thesis
    using assms by (simp add: chain_def extend_distinct distinct_take)
qed

text \<open>
  A round-robin combo is fair. Over as many consecutive requests as it has members, each
  member is tried first exactly once, and every request tries all members, in cyclic order. This
  holds for the first \<open>2 ^ 63\<close> requests after a reload.
\<close>

theorem round_robin_fair:
  assumes "map_of (rt_combos rt) name = Some c" and "co_strategy c = ComboRoundRobin"
    and "co_members c \<noteq> []" and "unat (cursor_of name rt) + length (co_members c) < 2 ^ 63"
  shows "mset (combo_rotation.picks (length (co_members c)) (name, rt)) = mset (co_members c) \<and>
    fst (entrypoints st name req rt) = Some (Inr (rotate (unat (cursor_of name rt)) (co_members c)))"
proof -
  have m: "rr_members name rt = co_members c" using assms(1,2) by (simp add: rr_members_def)
  have "mset (combo_rotation.picks (length (co_members c)) (name, rt)) = mset (co_members c)"
    using combo_rotation.picks_fair [of "(name, rt)"] assms(3,4) by (simp add: m)
  moreover have "fst (entrypoints st name req rt) = Some (Inr (rotate (unat (cursor_of name rt)) (co_members c)))"
    using rr_entrypoints [of name rt st req] assms(3,4) by (simp add: m)
  ultimately show ?thesis ..
qed

text \<open>The signed conversion of the cursor is the reason for the bound: past it the code panics.\<close>

lemma round_robin_panics_past_bound:
  "rotate_members [''a'', ''b'', ''c''] (int_of_u64 (2 ^ 63) smod 3) = None"
  by code_simp

section \<open>No panic while the counters last\<close>

definition combo_sane :: "combo \<Rightarrow> bool" where
  "combo_sane c \<longleftrightarrow> co_members c \<noteq> [] \<and> sum_list (shares (co_members c) (co_weights c)) \<le> max_int"

lemma entrypoints_total:
  assumes "routes_wf rt" and "unat (cursor_of name rt) < 2 ^ 63"
    and "\<And>c. map_of (rt_combos rt) name = Some c \<Longrightarrow> combo_sane c"
  shows "fst (entrypoints st name req rt) \<noteq> None"
proof (cases "map_of (rt_combos rt) name")
  case (Some c)
  have sane: "combo_sane c" using assms(3) [OF Some] .
  show ?thesis
  proof (cases "co_strategy c")
    case ComboRoundRobin
    then have "rr_members name rt \<noteq> []" using Some sane by (simp add: rr_members_def combo_sane_def)
    then show ?thesis by (simp add: rr_entrypoints [OF _ assms(2)])
  next
    case ComboWeighted
    then show ?thesis
      using Some sane by (simp add: entrypoints_def combo_sane_def weighted_pick_slot rotate_members_eq)
  qed (use Some in \<open>simp_all add: entrypoints_def\<close>)
qed (simp add: entrypoints_def)

lemma entrypoints_cursor:
  "cursor_of name' (snd (entrypoints st name req rt)) \<in> {cursor_of name' rt, cursor_of name' rt + 1}"
  by (cases "name = name'") (auto simp: entrypoints_def split: option.split combo_strategy.split)

lemma chain_state: "snd (chain st name req rt) = snd (entrypoints st name req rt)"
  by (auto simp: chain_def split: prod.split option.split sum.split)

definition serve_all :: "(stats \<times> string \<times> requirements) list \<Rightarrow> 'c routes \<Rightarrow> 'c routes" where
  "serve_all rs rt = fold (\<lambda>(st, name, req) rt. snd (chain st name req rt)) rs rt"

lemma serve_all_cursor:
  assumes "unat (cursor_of name rt) + length rs < 2 ^ 64"
  shows "unat (cursor_of name (serve_all rs rt)) \<le> unat (cursor_of name rt) + length rs"
  using assms
proof (induction rs arbitrary: rt)
  case (Cons r rs)
  obtain st n req where r: "r = (st, n, req)" by (cases r)
  let ?rt = "snd (chain st n req rt)"
  have "unat (cursor_of name rt + 1) = unat (cursor_of name rt) + 1"
    using Cons.prems by (subst unat_add_lem [THEN iffD1]) simp_all
  then have le: "unat (cursor_of name ?rt) \<le> unat (cursor_of name rt) + 1"
    using entrypoints_cursor [of name st n req rt] by (auto simp: chain_state)
  with Cons.prems have "unat (cursor_of name ?rt) + length rs < 2 ^ 64" by simp
  with Cons.IH [of ?rt] le show ?case by (simp add: serve_all_def r)
qed (simp add: serve_all_def)

lemma serve_all_table:
  "rt_models (serve_all rs rt) = rt_models rt \<and> rt_combos (serve_all rs rt) = rt_combos rt"
proof (induction rs arbitrary: rt)
  case (Cons r rs)
  then show ?case by (cases r) (simp add: serve_all_def chain_state)
qed (simp add: serve_all_def)

text \<open>
  After a reload the routing table is well formed: a combo in it is enabled, has members and
  does not shadow an alias. The choice of a chain then never panics in the first
  \<open>2 ^ 63\<close> requests, whatever they name, as long as no combo's weights add up past 64 bits.
\<close>

theorem chain_never_panics:
  assumes "\<forall>c\<in>set cs. co_members c \<noteq> [] \<longrightarrow> combo_sane c" and "length rs < 2 ^ 63"
  shows "routes_wf (reload as cs reg) \<and>
    fst (chain st name req (serve_all rs (reload as cs reg))) \<noteq> None"
proof -
  let ?rt = "serve_all rs (reload as cs reg)"
  have wf: "routes_wf (reload as cs reg)" by (rule reload_wf)
  have table: "rt_models ?rt = rt_models (reload as cs reg)" "rt_combos ?rt = rt_combos (reload as cs reg)"
    using serve_all_table by blast+
  have "unat (cursor_of name ?rt) < 2 ^ 63"
    using serve_all_cursor [of name "reload as cs reg" rs] assms(2) by (simp add: reload_cursor)
  moreover have "routes_wf ?rt" using wf by (simp add: routes_wf_def table)
  moreover have "combo_sane c" if "map_of (rt_combos ?rt) name = Some c" for c
  proof -
    have sub: "map_of (fst (fold (add_pool models) cs' ps)) name = Some c \<Longrightarrow>
        c \<in> set cs' \<or> map_of (fst ps) name = Some c" for models cs' ps
    proof (induction cs' arbitrary: ps)
      case (Cons d ds)
      from Cons.IH [of "add_pool models d ps"] Cons.prems show ?case
        by (auto simp: add_pool_def split: if_splits)
    qed simp
    have "map_of (rt_combos (reload as cs reg)) name = Some c" using that by (simp only: table)
    then have "c \<in> set cs"
      using sub [of "fold (\<lambda>m. map_put (ma_alias m) m) as []" cs "([], [])"]
      by (simp add: reload_def Let_def split_def)
    moreover have "co_members c \<noteq> []" using that wf by (auto simp: table routes_wf_def)
    ultimately show ?thesis using assms(1) by blast
  qed
  ultimately have "fst (entrypoints st name req ?rt) \<noteq> None" by (intro entrypoints_total)
  then have "fst (chain st name req ?rt) \<noteq> None"
    by (auto simp: chain_def split: prod.split option.split sum.split)
  with wf show ?thesis ..
qed

text \<open>Concrete tables for the witnesses.\<close>

definition example_alias_of :: "string \<Rightarrow> string list \<Rightarrow> model_alias" where
  "example_alias_of a fb = \<lparr>ma_alias = a, ma_provider = ''p'', ma_model = a, ma_fallback = fb,
     ma_capabilities = [cap_chat], ma_max_context = 0, ma_quality_tier = 50, ma_price_input = 1,
     ma_price_output = 2\<rparr>"

definition example_pool :: combo where
  "example_pool = \<lparr>co_name = ''pool'', co_strategy = ComboRoundRobin, co_members = [''a'', ''b''],
     co_weights = [], co_enabled = True\<rparr>"

definition example_routes :: "nat routes" where
  "example_routes =
     reload [example_alias_of ''a'' [''b'', ''c''], example_alias_of ''b'' [''a''], example_alias_of ''c'' []]
       [example_pool] [(''p'', 0)]"

lemma example_cursor: "cursor_of name example_routes = 0"
  by (simp add: example_routes_def reload_cursor)

lemma example_members: "rr_members ''pool'' example_routes = [''a'', ''b'']"
  by code_simp

lemma example_entrypoints:
  "entrypoints new_stats ''pool'' no_requirements example_routes =
     (Some (Inr [''a'', ''b'']), cursor_advance ''pool'' example_routes)"
  using rr_entrypoints [of "''pool''" example_routes] by (simp add: example_members example_cursor)

lemma chain_bounded_witness:
  "\<exists>c. chain new_stats ''pool'' no_requirements example_routes =
     (Some c, cursor_advance ''pool'' example_routes) \<and> length c \<le> 8 \<and> distinct c"
  using chain_bounded [OF example_entrypoints] by blast

lemma round_robin_fair_witness:
  "mset (combo_rotation.picks 2 (''pool'', example_routes)) = {#''a'', ''b''#}"
proof -
  have "map_of (rt_combos example_routes) ''pool'' = Some example_pool" by code_simp
  then have "mset (combo_rotation.picks (length (co_members example_pool)) (''pool'', example_routes)) = mset (co_members example_pool)"
    by (rule round_robin_fair [THEN conjunct1]) (simp_all add: example_pool_def example_cursor)
  moreover have "co_members example_pool = [''a'', ''b'']" by (simp add: example_pool_def)
  ultimately show ?thesis by (simp only: list.size) (simp add: numeral_2_eq_2)
qed

lemma chain_never_panics_witness:
  "fst (chain new_stats ''pool'' no_requirements
     (serve_all [(new_stats, ''pool'', no_requirements)] (reload [example_alias_of ''a'' []] [example_pool] [(''p'', 0::nat)]))) \<noteq> None"
  by (rule chain_never_panics [THEN conjunct2])
    (simp_all add: combo_sane_def example_pool_def shares_def weight_at_def max_int_def upt_rec)

section \<open>The intelligent order\<close>

lemma compatible_split:
  "member_capable rt req a \<and> member_fits rt req a \<longleftrightarrow>
   (\<exists>m. map_of (rt_models rt) a = Some m \<and> candidate_compatible m req)"
  by (auto simp: member_capable_def member_fits_def capability_compatible_def candidate_compatible_def
      Let_def split: option.splits)

definition compatible_members :: "combo \<Rightarrow> requirements \<Rightarrow> 'c routes \<Rightarrow> string list" where
  "compatible_members combo req rt =
     filter (\<lambda>a. \<exists>m. map_of (rt_models rt) a = Some m \<and> candidate_compatible m req) (co_members combo)"

lemma intelligent_candidates:
  "filter (member_fits rt req) (filter (member_capable rt req) (co_members combo)) = compatible_members combo req rt"
  by (auto simp: compatible_members_def compatible_split [symmetric] intro!: filter_cong)

lemma sort_scored:
  "map fst (sort_key (\<lambda>(a, score). - score) (map (\<lambda>a. (a, f a)) xs)) = sort_key (\<lambda>a. - f a) xs"
  for f :: "string \<Rightarrow> rat"
proof -
  have "insort_key (\<lambda>(a, score). - score) (x, f x) (map (\<lambda>a. (a, f a)) ys) = map (\<lambda>a. (a, f a)) (insort_key (\<lambda>a. - f a) x ys)"
    for x ys by (induction ys) simp_all
  then have "sort_key (\<lambda>(a, score). - score) (map (\<lambda>a. (a, f a)) xs) = map (\<lambda>a. (a, f a)) (sort_key (\<lambda>a. - f a) xs)"
    by (induction xs) (simp_all add: sort_key_def)
  then show ?thesis by (simp add: comp_def)
qed

text \<open>
  An intelligent combo offers exactly the members that can serve the request, best score
  first and equal scores in pool order. When there is none the error says whether some member
  had the capabilities but too small a context window.
\<close>

theorem intelligent_order_ranks:
  "let ok = compatible_members combo req rt; score = candidate_score st rt ok
   in (case intelligent_order st combo req rt of
        Inr order \<Rightarrow> ok \<noteq> [] \<and> mset order = mset ok \<and> sorted_wrt (\<lambda>a b. score b \<le> score a) order \<and>
          (\<forall>s. filter (\<lambda>a. score a = s) order = filter (\<lambda>a. score a = s) ok)
      | Inl e \<Rightarrow> ok = [] \<and> e = Sentinel
          (if \<exists>a\<in>set (co_members combo). member_capable rt req a then ErrRouterContextExceeded
           else ErrNoCompatibleModel))"
proof -
  define ok where "ok = compatible_members combo req rt"
  define score where "score = candidate_score st rt ok"
  have order: "intelligent_order st combo req rt =
      (if ok = [] then Inl (Sentinel (if \<exists>a\<in>set (co_members combo). member_capable rt req a
          then ErrRouterContextExceeded else ErrNoCompatibleModel))
       else Inr (sort_key (\<lambda>a. - score a) ok))"
    unfolding intelligent_order_def Let_def intelligent_candidates
    by (simp add: ok_def score_def score_candidates_def sort_scored filter_empty_conv)
  have "sorted (map (\<lambda>a. - score a) (sort_key (\<lambda>a. - score a) ok))" by simp
  then have "sorted_wrt (\<lambda>a b. score b \<le> score a) (sort_key (\<lambda>a. - score a) ok)"
    by (simp only: sorted_wrt_map) simp
  moreover have "filter (\<lambda>a. score a = s) (sort_key (\<lambda>a. - score a) ok) = filter (\<lambda>a. score a = s) ok" for s
    using sort_key_stable [of "\<lambda>a. - score a" "- s" ok] by simp
  ultimately show ?thesis
    by (simp add: order Let_def flip: ok_def score_def)
qed

text \<open>Scores stay on a scale of a hundred when tiers and success rates do.\<close>

lemma fold_min_le: "fold (\<lambda>a. min (f a)) xs b \<le> b" "a \<in> set xs \<Longrightarrow> fold (\<lambda>a. min (f a)) xs b \<le> f a"
  for b :: "'b::linorder"
proof -
  have "fold (\<lambda>a. min (f a)) xs b \<le> b \<and> (\<forall>a\<in>set xs. fold (\<lambda>a. min (f a)) xs b \<le> f a)" for b
  proof (induction xs arbitrary: b)
    case (Cons x xs)
    from Cons [of "min (f x) b"] show ?case by auto
  qed simp
  then show "fold (\<lambda>a. min (f a)) xs b \<le> b" "a \<in> set xs \<Longrightarrow> fold (\<lambda>a. min (f a)) xs b \<le> f a" by blast+
qed

lemma le_fold_max: "b \<le> fold (\<lambda>a. max (f a)) xs b" "a \<in> set xs \<Longrightarrow> f a \<le> fold (\<lambda>a. max (f a)) xs b"
  for b :: "'b::linorder"
proof -
  have "b \<le> fold (\<lambda>a. max (f a)) xs b \<and> (\<forall>a\<in>set xs. f a \<le> fold (\<lambda>a. max (f a)) xs b)" for b
  proof (induction xs arbitrary: b)
    case (Cons x xs)
    from Cons [of "max (f x) b"] show ?case by auto
  qed simp
  then show "b \<le> fold (\<lambda>a. max (f a)) xs b" "a \<in> set xs \<Longrightarrow> f a \<le> fold (\<lambda>a. max (f a)) xs b" by blast+
qed

lemma normalize_lower_range:
  assumes "lo \<le> v" and "v \<le> hi"
  shows "0 \<le> normalize_lower v lo hi \<and> normalize_lower v lo hi \<le> 100"
proof (cases "hi \<le> lo")
  case False
  then have "0 < hi - lo" by simp
  with assms show ?thesis
    by (simp add: normalize_lower_def divide_le_eq)
qed (simp add: normalize_lower_def)

text \<open>
  The score of every candidate lies between 0 and 100, whatever latencies and prices the other
  candidates have, as long as its quality tier and success rate do.
\<close>

theorem score_in_range:
  assumes "a \<in> set candidates" and "0 \<le> candidate_tier rt a" and "candidate_tier rt a \<le> 100"
    and "0 \<le> candidate_health st a" and "candidate_health st a \<le> 100"
  shows "0 \<le> candidate_score st rt candidates a \<and> candidate_score st rt candidates a \<le> 100"
proof -
  have "0 \<le> normalize_lower (candidate_latency st a)
      (fold (\<lambda>a. min (candidate_latency st a)) candidates intelligent_baseline_ms)
      (fold (\<lambda>a. max (candidate_latency st a)) candidates intelligent_baseline_ms) \<and>
    normalize_lower (candidate_latency st a)
      (fold (\<lambda>a. min (candidate_latency st a)) candidates intelligent_baseline_ms)
      (fold (\<lambda>a. max (candidate_latency st a)) candidates intelligent_baseline_ms) \<le> 100"
    by (rule normalize_lower_range) (rule fold_min_le(2) le_fold_max(2), rule assms(1))+
  moreover have "0 \<le> normalize_lower (candidate_cost rt a)
      (fold (\<lambda>a. min (candidate_cost rt a)) candidates 0) (fold (\<lambda>a. max (candidate_cost rt a)) candidates 0) \<and>
    normalize_lower (candidate_cost rt a)
      (fold (\<lambda>a. min (candidate_cost rt a)) candidates 0) (fold (\<lambda>a. max (candidate_cost rt a)) candidates 0) \<le> 100"
    by (rule normalize_lower_range) (rule fold_min_le(2) le_fold_max(2), rule assms(1))+
  ultimately show ?thesis
    using assms(2-5) by (simp add: candidate_score_def Let_def)
qed

lemma score_in_range_witness:
  "0 \<le> candidate_score new_stats example_routes [''a'', ''b''] ''a''"
  using score_in_range [of "''a''" "[''a'', ''b'']" example_routes new_stats]
proof -
  have "candidate_tier example_routes ''a'' = 50" "candidate_health new_stats ''a'' = 50" by code_simp+
  then show ?thesis using score_in_range [of "''a''" "[''a'', ''b'']" example_routes new_stats] by simp
qed

end
