(* ===== verification/Metering.thy ===== *)
theory Metering
  imports Routing Breaker Health Storage_Memory Pricing
begin

text \<open>
  What a request leaves behind, from \<^verbatim>\<open>internal/router/usage.go\<close>, \<^verbatim>\<open>trace.go\<close> and \<^verbatim>\<open>metrics.go\<close>: the
  usage log, the request trace and the rolling statistics, for single responses and for streams.
  \<open>engine\<close> holds the shared state of \<^verbatim>\<open>Engine\<close> next to its routing table; the stores are the in-memory ones, a nil
  store is \<open>None\<close>, and the recorder is the list of what it was sent. A relay goroutine is the
  sequence of chunks it reads, each with whether the consumer took it.
\<close>

section \<open>State\<close>

record retry =
  rp_attempts :: int
  rp_base_delay :: duration
  rp_max_delay :: duration

definition default_retry :: retry where
  "default_retry = \<lparr>rp_attempts = 2, rp_base_delay = 200 * millisecond, rp_max_delay = 2 * second\<rparr>"

datatype recorded =
    RecordedError string string
  | RecordedTokens string string int int

record engine =
  eg_retry :: retry
  eg_breakers :: breakers
  eg_probes :: probes
  eg_stats :: stats
  eg_recorder :: "recorded list option"
  eg_usage :: "usage_event list option"
  eg_traces :: "request_trace list option"

definition new_engine :: "recorded list option \<Rightarrow> engine" where
  "new_engine rec = \<lparr>eg_retry = default_retry, eg_breakers = new_breakers default_breaker,
     eg_probes = new_probes, eg_stats = new_stats, eg_recorder = rec, eg_usage = None, eg_traces = None\<rparr>"

definition set_usage_store :: "usage_event list option \<Rightarrow> engine \<Rightarrow> engine" where
  "set_usage_store s e = e\<lparr>eg_usage := s\<rparr>"

definition set_trace_store :: "request_trace list option \<Rightarrow> engine \<Rightarrow> engine" where
  "set_trace_store s e = e\<lparr>eg_traces := s\<rparr>"

definition send_recorder :: "recorded \<Rightarrow> engine \<Rightarrow> engine" where
  "send_recorder r e = e\<lparr>eg_recorder := map_option (\<lambda>log. log @ [r]) (eg_recorder e)\<rparr>"

definition record_error :: "string \<Rightarrow> string \<Rightarrow> engine \<Rightarrow> engine" where
  "record_error p reason = send_recorder (RecordedError p reason)"

section \<open>The trace of a request\<close>

definition max_trace_attempts :: nat where "max_trace_attempts = 64"

record trace =
  tr_request_id :: string
  tr_key_id :: string
  tr_model :: string
  tr_dialect :: string
  tr_streamed :: bool
  tr_started :: instant
  tr_attempts :: "request_attempt list"
  tr_tokens :: int
  tr_cost :: rat
  tr_last_route :: route
  tr_done :: bool

definition no_route :: route where
  "no_route = \<lparr>rte_alias = [], rte_provider = [], rte_model = []\<rparr>"

text \<open>The values a request context carries: the gateway id, the dialect, the caller's key.\<close>

record request_context =
  cx_request_id :: "string option"
  cx_dialect :: "string option"
  cx_key_id :: "string option"

definition dialect_from :: "request_context \<Rightarrow> string" where
  "dialect_from cx = (case cx_dialect cx of Some d \<Rightarrow> if d \<noteq> [] then d else ''openai'' | None \<Rightarrow> ''openai'')"

record call_meta =
  cm_key_id :: string
  cm_started :: instant

definition new_trace :: "request_context \<Rightarrow> string \<Rightarrow> bool \<Rightarrow> call_meta \<Rightarrow> trace option" where
  "new_trace cx model streamed meta = (case cx_request_id cx of
      None \<Rightarrow> None
    | Some i \<Rightarrow> Some \<lparr>tr_request_id = i, tr_key_id = cm_key_id meta, tr_model = model,
        tr_dialect = dialect_from cx, tr_streamed = streamed, tr_started = cm_started meta,
        tr_attempts = [], tr_tokens = 0, tr_cost = 0, tr_last_route = no_route, tr_done = False\<rparr>)"

definition begin_request :: "request_context \<Rightarrow> instant \<Rightarrow> string \<Rightarrow> bool \<Rightarrow> call_meta \<times> trace option" where
  "begin_request cx now model streamed =
     (let key = (case cx_key_id cx of
            Some k \<Rightarrow> if k \<noteq> ''static'' \<and> k \<noteq> ''anonymous'' then k else [] | None \<Rightarrow> []);
          meta = \<lparr>cm_key_id = key, cm_started = now\<rparr>
      in (meta, new_trace cx model streamed meta))"

definition trace_attempt ::
  "route \<Rightarrow> instant \<Rightarrow> duration \<Rightarrow> string \<Rightarrow> gerror option \<Rightarrow> bool \<Rightarrow> bool \<Rightarrow> trace \<Rightarrow> trace"
where
  "trace_attempt route started latency status err again fallback t =
     (let t = t\<lparr>tr_last_route := route\<rparr> in
      if length (tr_attempts t) \<ge> max_trace_attempts then t
      else t\<lparr>tr_attempts := tr_attempts t @
        [\<lparr>ra_seq = int (length (tr_attempts t)) + 1, ra_started_at = started, ra_alias = rte_alias route,
          ra_provider = rte_provider route, ra_model = rte_model route, ra_latency = latency,
          ra_status = status, ra_retry = again, ra_fallback = fallback,
          ra_error = (case err of None \<Rightarrow> [] | Some e \<Rightarrow> error_text e)\<rparr>]\<rparr>)"

definition trace_skipped :: "route \<Rightarrow> instant \<Rightarrow> string \<Rightarrow> gerror \<Rightarrow> bool \<Rightarrow> trace \<Rightarrow> trace" where
  "trace_skipped route now status err fallback = trace_attempt route now 0 status (Some err) False fallback"

definition trace_meter :: "int \<Rightarrow> rat \<Rightarrow> trace \<Rightarrow> trace" where
  "trace_meter n cost t = t\<lparr>tr_tokens := tr_tokens t + n, tr_cost := tr_cost t + cost\<rparr>"

definition trace_row :: "instant \<Rightarrow> string \<Rightarrow> trace \<Rightarrow> request_trace" where
  "trace_row now status t =
     \<lparr>rt_request_id = tr_request_id t, rt_created_at = tr_started t, rt_key_id = tr_key_id t,
      rt_model = tr_model t, rt_dialect = tr_dialect t, rt_streamed = tr_streamed t,
      rt_total_latency = now - tr_started t, rt_total_tokens = tr_tokens t, rt_total_cost = tr_cost t,
      rt_final_provider = rte_provider (tr_last_route t), rt_final_alias = rte_alias (tr_last_route t),
      rt_final_status = status, rt_attempts = tr_attempts t, rt_attempt_count = 0\<rparr>"

definition finish_trace :: "instant \<Rightarrow> string \<Rightarrow> engine \<times> trace option \<Rightarrow> engine \<times> trace option" where
  "finish_trace now status s = (case s of
      (e, None) \<Rightarrow> s
    | (e, Some t) \<Rightarrow> (case eg_traces e of
        None \<Rightarrow> s
      | Some rows \<Rightarrow>
          if tr_done t then s
          else (e\<lparr>eg_traces := Some (trace_record (trace_row now status t) rows)\<rparr>, Some (t\<lparr>tr_done := True\<rparr>))))"

section \<open>Usage\<close>

record usage =
  us_prompt :: int
  us_completion :: int
  us_cached :: int
  us_cache_write :: int
  us_reasoning :: int

definition no_usage :: usage where
  "no_usage = \<lparr>us_prompt = 0, us_completion = 0, us_cached = 0, us_cache_write = 0, us_reasoning = 0\<rparr>"

definition from_reported :: "usage_report \<Rightarrow> usage" where
  "from_reported r = \<lparr>us_prompt = ur_prompt r, us_completion = ur_completion r,
     us_cached = usage_cached (Some r), us_cache_write = usage_cache_write (Some r),
     us_reasoning = usage_reasoning (Some r)\<rparr>"

definition reported_counts :: "usage_report option \<Rightarrow> bool" where
  "reported_counts r = (case r of None \<Rightarrow> False | Some u \<Rightarrow> ur_prompt u > 0 \<or> ur_completion u > 0)"

definition usage_of :: "usage_report option \<Rightarrow> chat_request \<Rightarrow> choice list \<Rightarrow> usage" where
  "usage_of r req choices =
     (if reported_counts r then from_reported (the r)
      else no_usage\<lparr>us_prompt := estimate_prompt req,
        us_completion := fold (\<lambda>c n. case ch_message c of None \<Rightarrow> n
            | Some m \<Rightarrow> n + estimate_content (msg_content m)) choices 0\<rparr>)"

definition embedding_usage :: "usage_report option \<Rightarrow> embedding_request \<Rightarrow> usage" where
  "embedding_usage r req = (case r of
      Some u \<Rightarrow> if ur_prompt u > 0 then from_reported u
                else no_usage\<lparr>us_prompt := estimate_content (er_input req)\<rparr>
    | None \<Rightarrow> no_usage\<lparr>us_prompt := estimate_content (er_input req)\<rparr>)"

definition usage_tokens :: "usage \<Rightarrow> tokens" where
  "usage_tokens u = \<lparr>tk_prompt = us_prompt u, tk_completion = us_completion u, tk_cached = us_cached u,
     tk_cache_write = us_cache_write u, tk_reasoning = us_reasoning u\<rparr>"

definition persist_usage ::
  "instant \<Rightarrow> route \<Rightarrow> usage \<Rightarrow> bool \<Rightarrow> string \<Rightarrow> call_meta \<Rightarrow> engine \<times> trace option \<Rightarrow> engine \<times> trace option"
where
  "persist_usage now route u streamed status meta s =
     (let cost = price_cost (rte_model route) (usage_tokens u);
          t = map_option (trace_meter (us_prompt u + us_completion u) cost) (snd s);
          event = \<lparr>ue_id = 0, ue_created_at = now, ue_key_id = cm_key_id meta, ue_alias = rte_alias route,
            ue_provider = rte_provider route, ue_model = rte_model route, ue_streamed = streamed,
            ue_status = status, ue_duration = now - cm_started meta, ue_prompt = us_prompt u,
            ue_completion = us_completion u, ue_cached = us_cached u, ue_cache_write = us_cache_write u,
            ue_reasoning = us_reasoning u, ue_cost = cost\<rparr>
      in ((fst s)\<lparr>eg_usage := map_option (usage_record event) (eg_usage (fst s))\<rparr>, t))"

definition record_usage ::
  "instant \<Rightarrow> route \<Rightarrow> usage \<Rightarrow> bool \<Rightarrow> call_meta \<Rightarrow> engine \<times> trace option \<Rightarrow> engine \<times> trace option"
where
  "record_usage now route u streamed meta s =
     (if us_prompt u = 0 \<and> us_completion u = 0 then s
      else persist_usage now route u streamed ''ok'' meta
        (send_recorder (RecordedTokens (rte_provider route) (rte_model route) (us_prompt u) (us_completion u)) (fst s),
         snd s))"

definition record_failure ::
  "instant \<Rightarrow> route \<Rightarrow> bool \<Rightarrow> string \<Rightarrow> call_meta \<Rightarrow> engine \<times> trace option \<Rightarrow> engine \<times> trace option"
where
  "record_failure now route streamed status meta = persist_usage now route no_usage streamed status meta"

definition record_metric :: "instant \<Rightarrow> route \<Rightarrow> bool \<Rightarrow> duration \<Rightarrow> duration \<Rightarrow> engine \<Rightarrow> engine" where
  "record_metric now route ok ttfb elapsed e =
     e\<lparr>eg_stats := stats_record now \<lparr>rm_alias = rte_alias route, rm_success = ok,
        rm_ttfb_ms = duration_ms ttfb, rm_latency_ms = duration_ms elapsed, rm_timestamp = now\<rparr> (eg_stats e)\<rparr>"

section \<open>Streams\<close>

definition chunk_delta_chars :: "stream_chunk \<Rightarrow> int" where
  "chunk_delta_chars chunk = fold (\<lambda>c n. case ch_delta c of None \<Rightarrow> n
     | Some d \<Rightarrow> n + content_len (msg_content d)) (rsp_choices chunk) 0"

text \<open>
  The relay loop: each chunk comes with whether the consumer took it before its context ended.
  The result is what was forwarded, the last usage report, the characters seen and whether the
  consumer hung up.
\<close>

fun relay_loop :: "(stream_chunk \<times> bool) list \<Rightarrow> usage_report option \<Rightarrow> int \<Rightarrow>
    stream_chunk list \<times> usage_report option \<times> int \<times> bool" where
  "relay_loop [] reported completed = ([], reported, completed, False)"
| "relay_loop ((chunk, taken) # rest) reported completed =
     (let reported = (if rsp_usage chunk \<noteq> None then rsp_usage chunk else reported);
          completed = completed + chunk_delta_chars chunk
      in if \<not> taken then ([], reported, completed, True)
         else let (out, r, n, h) = relay_loop rest reported completed in (chunk # out, r, n, h))"

definition meter_stream ::
  "instant \<Rightarrow> route \<Rightarrow> chat_request \<Rightarrow> (stream_chunk \<times> bool) list \<Rightarrow> call_meta \<Rightarrow>
   engine \<times> trace option \<Rightarrow> stream_chunk list \<times> engine \<times> trace option"
where
  "meter_stream now route req chunks meta s =
     (if eg_recorder (fst s) = None \<and> eg_usage (fst s) = None \<and> snd s = None
      then (map fst (takeWhile snd chunks), s)
      else let (out, reported, completed, hung_up) = relay_loop chunks None 0;
               u = (if reported_counts reported then from_reported (the reported)
                    else no_usage\<lparr>us_prompt := estimate_prompt req, us_completion := tokens_from_chars completed\<rparr>);
               s = record_usage now route u True meta s
           in (out, finish_trace now (if hung_up then ''canceled'' else ''ok'') s))"

text \<open>\<open>arrivals\<close> are the instants at which the chunks came out of the metered stream.\<close>

fun first_token :: "instant \<Rightarrow> instant list \<Rightarrow> duration \<Rightarrow> duration" where
  "first_token start [] ttfb = ttfb"
| "first_token start (t # ts) ttfb = first_token start ts (if ttfb = 0 then t - start else ttfb)"

definition meter_latency :: "instant \<Rightarrow> route \<Rightarrow> instant \<Rightarrow> instant list \<Rightarrow> engine \<Rightarrow> engine" where
  "meter_latency now route start arrivals e =
     (let ttfb = first_token start arrivals 0
      in record_metric now route (ttfb > 0) ttfb (now - start) e)"

section \<open>The timeline of a trace\<close>

type_synonym attempt_args = "route \<times> instant \<times> duration \<times> string \<times> gerror option \<times> bool \<times> bool"

definition add_attempt :: "attempt_args \<Rightarrow> trace \<Rightarrow> trace" where
  "add_attempt a = (case a of (r, st, l, status, err, again, fb) \<Rightarrow> trace_attempt r st l status err again fb)"

definition attempt_row :: "nat \<Rightarrow> attempt_args \<Rightarrow> request_attempt" where
  "attempt_row i a = (case a of (r, st, l, status, err, again, fb) \<Rightarrow>
     \<lparr>ra_seq = int i + 1, ra_started_at = st, ra_alias = rte_alias r, ra_provider = rte_provider r,
      ra_model = rte_model r, ra_latency = l, ra_status = status, ra_retry = again, ra_fallback = fb,
      ra_error = (case err of None \<Rightarrow> [] | Some e \<Rightarrow> error_text e)\<rparr>)"

lemma add_attempt_attempts:
  "tr_attempts (add_attempt a t) =
     (if length (tr_attempts t) \<ge> max_trace_attempts then tr_attempts t
      else tr_attempts t @ [attempt_row (length (tr_attempts t)) a])"
  "tr_last_route (add_attempt a t) = fst a" "tr_done (add_attempt a t) = tr_done t"
  by (auto simp: add_attempt_def trace_attempt_def attempt_row_def Let_def split: prod.split)

lemma timeline_rows:
  assumes "tr_attempts t = []"
  shows "tr_attempts (fold add_attempt as t) =
    map (\<lambda>(i, a). attempt_row i a) (enumerate 0 (take max_trace_attempts as))"
proof (induction as rule: rev_induct)
  case (snoc a as)
  then show ?case
    by (simp add: add_attempt_attempts enumerate_append_eq)
qed (simp add: assms)

text \<open>
  The timeline of a request: the attempts are kept in order and numbered from one, at most 64
  of them, while the route that the summary reports is the last attempt's even past the limit. A
  finished trace writes its row once, however often it is finished.
\<close>

theorem trace_timeline:
  assumes "new_trace cx model streamed meta = Some t" and "eg_traces e = Some rows"
  shows "let t' = fold add_attempt as t; s' = finish_trace now status (e, Some t')
   in map ra_seq (tr_attempts t') = map (\<lambda>i. int i + 1) [0..<min 64 (length as)]
    \<and> map ra_alias (tr_attempts t') = map (\<lambda>a. rte_alias (fst a)) (take 64 as)
    \<and> tr_last_route t' = (if as = [] then no_route else fst (last as))
    \<and> eg_traces (fst s') = Some (trace_record (trace_row now status t') rows)
    \<and> finish_trace now' status' s' = s'"
proof -
  let ?t = "fold add_attempt as t"
  have t: "tr_attempts t = []" "tr_last_route t = no_route" "\<not> tr_done t"
    using assms(1) by (auto simp: new_trace_def split: option.splits)
  have rows: "tr_attempts ?t = map (\<lambda>(i, a). attempt_row i a) (enumerate 0 (take 64 as))"
    using timeline_rows [OF t(1)] by (simp add: max_trace_attempts_def)
  have "map ra_seq (map (\<lambda>(i, a). attempt_row i a) ys) = map (\<lambda>i. int i + 1) (map fst ys)"
    and "map ra_alias (map (\<lambda>(i, a). attempt_row i a) ys) = map (\<lambda>a. rte_alias (fst a)) (map snd ys)" for ys
    by (induction ys) (auto simp: attempt_row_def)
  then have "map ra_seq (tr_attempts ?t) = map (\<lambda>i. int i + 1) [0..<min 64 (length as)]"
    and "map ra_alias (tr_attempts ?t) = map (\<lambda>a. rte_alias (fst a)) (take 64 as)"
    by (simp_all only: rows map_fst_enumerate map_snd_enumerate length_take add_0 min.commute)
  moreover have "tr_last_route ?t = (if as = [] then no_route else fst (last as))"
    by (cases as rule: rev_cases) (simp_all add: t(2) add_attempt_attempts)
  moreover have "\<not> tr_done ?t"
    by (induction as rule: rev_induct) (simp_all add: t(3) add_attempt_attempts)
  ultimately show ?thesis
    using assms(2) by (simp add: Let_def finish_trace_def min.commute)
qed

section \<open>Streams are metered once\<close>

text \<open>The chunks the relay reads: those the consumer took, and the first it did not.\<close>

definition chunks_read :: "(stream_chunk \<times> bool) list \<Rightarrow> stream_chunk list" where
  "chunks_read cs = map fst (takeWhile snd cs @ take 1 (dropWhile snd cs))"

definition last_report_of :: "usage_report option \<Rightarrow> stream_chunk list \<Rightarrow> usage_report option" where
  "last_report_of r0 cs = fold (\<lambda>c r. if rsp_usage c \<noteq> None then rsp_usage c else r) cs r0"

lemma relay_loop_eq:
  "relay_loop cs r n =
     (map fst (takeWhile snd cs), last_report_of r (chunks_read cs),
      n + sum_list (map chunk_delta_chars (chunks_read cs)), dropWhile snd cs \<noteq> [])"
  by (induction cs r n rule: relay_loop.induct)
    (auto simp: Let_def chunks_read_def last_report_of_def split: prod.splits)

definition stream_usage :: "chat_request \<Rightarrow> (stream_chunk \<times> bool) list \<Rightarrow> usage" where
  "stream_usage req cs =
     (let r = last_report_of None (chunks_read cs)
      in if reported_counts r then from_reported (the r)
         else no_usage\<lparr>us_prompt := estimate_prompt req,
           us_completion := tokens_from_chars (sum_list (map chunk_delta_chars (chunks_read cs)))\<rparr>)"


definition example_route :: route where
  "example_route = \<lparr>rte_alias = ''fast'', rte_provider = ''acme'', rte_model = ''gpt-4o''\<rparr>"

definition example_context :: request_context where
  "example_context = \<lparr>cx_request_id = Some ''req-1'', cx_dialect = None, cx_key_id = Some ''key-1''\<rparr>"

definition example_meta :: call_meta where
  "example_meta = \<lparr>cm_key_id = ''key-1'', cm_started = 5\<rparr>"

definition example_trace_of :: trace where
  "example_trace_of = the (new_trace example_context ''fast'' True example_meta)"

definition example_engine :: engine where
  "example_engine = (new_engine None)\<lparr>eg_usage := Some [], eg_traces := Some []\<rparr>"

definition example_chunk :: stream_chunk where
  "example_chunk = \<lparr>rsp_id = ''c'', rsp_object = ''chunk'', rsp_created = 0, rsp_model = ''gpt-4o'', rsp_choices = [],
     rsp_usage = Some \<lparr>ur_prompt = 7, ur_completion = 3, ur_total = 10, ur_prompt_details = None,
       ur_completion_details = None\<rparr>, rsp_extra = []\<rparr>"

definition example_chat :: chat_request where
  "example_chat = \<lparr>cr_model = ''fast'', cr_messages = [], cr_stream = True, cr_stream_options = None,
     cr_temperature = None, cr_top_p = None, cr_max_tokens = None, cr_stop = [], cr_user = [], cr_extra = []\<rparr>"

lemma example_trace_new: "new_trace example_context ''fast'' True example_meta = Some example_trace_of"
  by (simp add: example_trace_of_def new_trace_def example_context_def)

lemma trace_timeline_witness:
  "map ra_seq (tr_attempts (fold add_attempt
     [(example_route, 1, 2, ''timeout'', Some (Sentinel ErrTimeout), False, False),
      (example_route, 4, 1, ''ok'', None, True, False)] example_trace_of)) = [1, 2]"
proof -
  let ?as = "[(example_route, 1, 2, ''timeout'', Some (Sentinel ErrTimeout), False, False),
      (example_route, 4, 1, ''ok'', None, True, False)] :: attempt_args list"
  have "eg_traces example_engine = Some []" by (simp add: example_engine_def)
  from trace_timeline [where as = ?as, OF example_trace_new this]
  have "map ra_seq (tr_attempts (fold add_attempt ?as example_trace_of)) = map (\<lambda>i. int i + 1) [0..<min 64 (length ?as)]"
    unfolding Let_def by blast
  also have "\<dots> = [1, 2]" by (simp add: upt_rec)
  finally show ?thesis .
qed


end
