(* ===== verification/Dispatch.thy ===== *)
theory Dispatch
  imports Metering
begin

text \<open>
  Dispatching a request over its chain, from \<^verbatim>\<open>internal/router/router.go\<close>: \<open>attempt\<close> with its
  retries and \<open>backoff\<close>, \<open>dispatch\<close> with the circuit and health checks, and the three entry points.

  What is outside is the environment \<open>env\<close>: the provider calls, the sleeps, the clock, the random
  jitter, and the cancellation of the client's context. A call and a sleep take time, in which
  other requests run; they are given the engine and return it as they leave it, so everything
  proved below holds under any interleaving at those points. The other steps are taken to follow
  each other without delay, and the clock only moves in calls and sleeps.

  \<open>di_log\<close> is what the request did, in order: what it asked of and reported to the breakers, and
  the calls it made with their outcome.
\<close>

section \<open>Environment and state\<close>

datatype dispatch_event =
    Admission string bool
  | Called route "gerror option"
  | SuccessReported string
  | FailureReported string
  | Slept duration

record 'w dispatching =
  di_engine :: engine
  di_trace :: "trace option"
  di_world :: 'w
  di_first_byte :: first_byte
  di_log :: "dispatch_event list"

type_synonym ('q, 'r, 'c, 'w) provider_call =
  "'c \<Rightarrow> 'q \<Rightarrow> engine \<times> first_byte \<times> 'w \<Rightarrow> (gerror + 'r) \<times> engine \<times> first_byte \<times> 'w"

record ('c, 'w) env =
  ev_chat :: "(chat_request, chat_response, 'c, 'w) provider_call"
  ev_stream :: "(chat_request, (stream_chunk \<times> bool) list, 'c, 'w) provider_call"
  ev_embed :: "(embedding_request, embedding_response, 'c, 'w) provider_call"
  ev_wait :: "duration \<Rightarrow> engine \<times> 'w \<Rightarrow> gerror option \<times> engine \<times> 'w"
  ev_ctx_err :: "'w \<Rightarrow> gerror option"
  ev_now :: "'w \<Rightarrow> instant"
  ev_rand :: "int \<Rightarrow> 'w \<Rightarrow> int \<times> 'w"

definition log_event :: "dispatch_event \<Rightarrow> 'w dispatching \<Rightarrow> 'w dispatching" where
  "log_event ev s = s\<lparr>di_log := di_log s @ [ev]\<rparr>"

definition now_of :: "('c, 'w) env \<Rightarrow> 'w dispatching \<Rightarrow> instant" where
  "now_of env s = ev_now env (di_world s)"

text \<open>Steps on the engine and the trace together.\<close>

definition with_meter :: "(engine \<times> trace option \<Rightarrow> engine \<times> trace option) \<Rightarrow> 'w dispatching \<Rightarrow> 'w dispatching" where
  "with_meter f s = (let (e, t) = f (di_engine s, di_trace s) in s\<lparr>di_engine := e, di_trace := t\<rparr>)"

definition on_engine :: "(engine \<Rightarrow> engine) \<Rightarrow> 'w dispatching \<Rightarrow> 'w dispatching" where
  "on_engine f s = s\<lparr>di_engine := f (di_engine s)\<rparr>"

definition on_trace :: "(trace \<Rightarrow> trace) \<Rightarrow> 'w dispatching \<Rightarrow> 'w dispatching" where
  "on_trace f s = s\<lparr>di_trace := map_option f (di_trace s)\<rparr>"

definition ask_breaker :: "('c, 'w) env \<Rightarrow> string \<Rightarrow> 'w dispatching \<Rightarrow> bool \<times> 'w dispatching" where
  "ask_breaker env p s =
     (let (ok, b) = allow (now_of env s) p (eg_breakers (di_engine s))
      in (ok, log_event (Admission p ok) (on_engine (\<lambda>e. e\<lparr>eg_breakers := b\<rparr>) s)))"

definition report_success :: "string \<Rightarrow> 'w dispatching \<Rightarrow> 'w dispatching" where
  "report_success p s = log_event (SuccessReported p)
     (on_engine (\<lambda>e. e\<lparr>eg_breakers := success p (eg_breakers e)\<rparr>) s)"

definition report_failure :: "('c, 'w) env \<Rightarrow> string \<Rightarrow> 'w dispatching \<Rightarrow> 'w dispatching" where
  "report_failure env p s = log_event (FailureReported p)
     (on_engine (\<lambda>e. e\<lparr>eg_breakers := failure (now_of env s) p (eg_breakers e)\<rparr>) s)"

section \<open>Backoff\<close>

text \<open>The doubling loop, with the remaining number of doublings.\<close>

fun double_delay :: "nat \<Rightarrow> duration \<Rightarrow> duration \<Rightarrow> duration" where
  "double_delay 0 max_delay delay = delay"
| "double_delay (Suc k) max_delay delay =
     (let delay = wrap64 (delay * 2)
      in if max_delay > 0 \<and> delay \<ge> max_delay then max_delay else double_delay k max_delay delay)"

definition backoff :: "('c, 'w) env \<Rightarrow> retry \<Rightarrow> nat \<Rightarrow> 'w \<Rightarrow> duration \<times> 'w" where
  "backoff env rp n w =
     (if rp_base_delay rp \<le> 0 then (0, w)
      else let delay = double_delay (n - 1) (rp_max_delay rp) (rp_base_delay rp);
               half = delay sdiv 2
           in if half \<le> 0 then (delay, w)
              else let (r, w) = ev_rand env (half + 1) w in (half + r, w))"

definition sleep_for :: "('c, 'w) env \<Rightarrow> duration \<Rightarrow> 'w dispatching \<Rightarrow> gerror option \<times> 'w dispatching" where
  "sleep_for env d s =
     (if d \<le> 0 then (ev_ctx_err env (di_world s), s)
      else let (err, e, w) = ev_wait env d (di_engine s, di_world s)
           in (err, log_event (Slept d) (s\<lparr>di_engine := e, di_world := w\<rparr>)))"

section \<open>Attempts\<close>

definition note_failure ::
  "('c, 'w) env \<Rightarrow> route \<Rightarrow> instant \<Rightarrow> bool \<Rightarrow> bool \<Rightarrow> gerror \<Rightarrow> 'w dispatching \<Rightarrow> 'w dispatching"
where
  "note_failure env route started again fallback err s =
     (let s = log_event (Called route (Some err)) s;
          s = (if retryable err then report_failure env (rte_provider route) s else s);
          s = on_engine (record_error (rte_provider route) (classify err)) s
      in on_trace (trace_attempt route started (now_of env s - started) (classify err) (Some err) again fallback) s)"

text \<open>
  \<open>attempt_loop\<close> has \<open>left\<close> tries left, the next being number \<open>i\<close>; the retry budget is read once,
  before the first.
\<close>

fun attempt_loop ::
  "('c, 'w) env \<Rightarrow> retry \<Rightarrow> ('w dispatching \<Rightarrow> (gerror + 'r) \<times> 'w dispatching) \<Rightarrow> route \<Rightarrow> bool \<Rightarrow>
   nat \<Rightarrow> nat \<Rightarrow> gerror \<Rightarrow> 'w dispatching \<Rightarrow> (gerror + 'r) \<times> 'w dispatching"
where
  "attempt_loop env rp call route fallback 0 i last_err s = (Inl last_err, s)"
| "attempt_loop env rp call route fallback (Suc left) i last_err s =
     (let started = now_of env s in
      case call s of
        (Inr r, s) \<Rightarrow>
          let s = report_success (rte_provider route) (log_event (Called route None) s)
          in (Inr r, on_trace (trace_attempt route started (now_of env s - started) ''ok'' None (i > 1) fallback) s)
      | (Inl err, s) \<Rightarrow>
          let s = note_failure env route started (i > 1) fallback err s
          in if \<not> retryable err \<or> left = 0 then (Inl err, s)
             else let (d, w) = backoff env rp i (di_world s)
                  in (case sleep_for env d (s\<lparr>di_world := w\<rparr>) of
                        (Some err, s) \<Rightarrow> (Inl err, s)
                      | (None, s) \<Rightarrow> attempt_loop env rp call route fallback left (Suc i) err s))"

definition retry_budget :: "retry \<Rightarrow> nat" where
  "retry_budget rp = nat (max (rp_attempts rp) 1)"

definition attempt ::
  "('c, 'w) env \<Rightarrow> ('w dispatching \<Rightarrow> (gerror + 'r) \<times> 'w dispatching) \<Rightarrow> route \<Rightarrow> bool \<Rightarrow>
   'w dispatching \<Rightarrow> (gerror + 'r) \<times> 'w dispatching"
where
  "attempt env call route fallback s =
     attempt_loop env (eg_retry (di_engine s)) call route fallback
       (retry_budget (eg_retry (di_engine s))) 1 (Opaque []) s"

section \<open>Dispatch\<close>

text \<open>The call of an entry point: it is given when the route's measurement started.\<close>

type_synonym ('c, 'r, 'w) route_call =
  "instant \<Rightarrow> 'c \<Rightarrow> route \<Rightarrow> 'w dispatching \<Rightarrow> (gerror + 'r) \<times> 'w dispatching"

definition finish :: "('c, 'w) env \<Rightarrow> string \<Rightarrow> 'w dispatching \<Rightarrow> 'w dispatching" where
  "finish env status s = with_meter (finish_trace (now_of env s) status) s"

definition fail_route :: "('c, 'w) env \<Rightarrow> call_meta \<Rightarrow> bool \<Rightarrow> route \<Rightarrow> gerror \<Rightarrow> 'w dispatching \<Rightarrow> 'w dispatching" where
  "fail_route env meta streamed route err s =
     finish env (classify err)
       (with_meter (record_failure (now_of env s) route streamed (classify err) meta) s)"

definition measure_route :: "('c, 'w) env \<Rightarrow> route \<Rightarrow> bool \<Rightarrow> instant \<Rightarrow> 'w dispatching \<Rightarrow> 'w dispatching" where
  "measure_route env route ok start s =
     on_engine (record_metric (now_of env s) route ok
       (first_byte_since start (di_first_byte s)) (now_of env s - start)) s"

definition skip_route :: "('c, 'w) env \<Rightarrow> route \<Rightarrow> string \<Rightarrow> gerror \<Rightarrow> bool \<Rightarrow> 'w dispatching \<Rightarrow> 'w dispatching" where
  "skip_route env route reason err fallback s =
     on_trace (trace_skipped route (now_of env s) reason err fallback)
       (on_engine (record_error (rte_provider route) reason) s)"

definition exhausted :: "('c, 'w) env \<Rightarrow> call_meta \<Rightarrow> bool \<Rightarrow> string \<Rightarrow> 'c routes \<Rightarrow>
    gerror option \<Rightarrow> route option \<Rightarrow> 'w dispatching \<Rightarrow> (gerror + 'r) \<times> 'w dispatching" where
  "exhausted env meta streamed model rt last_err last_route s = (case last_err of
      None \<Rightarrow> (let err = Wrapped ErrUnknownModel model in (Inl err, finish env (classify err) s))
    | Some err \<Rightarrow>
        let s = (case last_route of None \<Rightarrow> finish env (classify err) s
                  | Some route \<Rightarrow> fail_route env meta streamed route err s)
        in (Inl (Chained (if is_intelligent model rt then ErrNoHealthyModel else ErrChainExhausted) err), s))"

text \<open>
  The loop over the chain. \<open>fallback\<close> is false for the first alias only, \<open>last_route\<close> is the
  last route that was tried.
\<close>

fun dispatch_chain ::
  "('c, 'w) env \<Rightarrow> ('c, 'r, 'w) route_call \<Rightarrow> call_meta \<Rightarrow> bool \<Rightarrow> string \<Rightarrow> 'c routes \<Rightarrow>
   string list \<Rightarrow> bool \<Rightarrow> gerror option \<Rightarrow> route option \<Rightarrow> 'w dispatching \<Rightarrow>
   (gerror + 'r) \<times> 'w dispatching"
where
  "dispatch_chain env call meta streamed model rt [] fallback last_err last_route s =
     exhausted env meta streamed model rt last_err last_route s"
| "dispatch_chain env call meta streamed model rt (alias # rest) fallback last_err last_route s =
     (case pick_route alias rt of
        Inl err \<Rightarrow>
          if alias = model then (Inl err, finish env (classify err) s)
          else dispatch_chain env call meta streamed model rt rest True (Some err) last_route s
      | Inr (p, route) \<Rightarrow>
          (case ask_breaker env (rte_provider route) s of
             (False, s) \<Rightarrow>
               let err = Wrapped ErrCircuitOpen (rte_provider route);
                   s = skip_route env route ''circuit_open'' err fallback s
               in dispatch_chain env call meta streamed model rt rest True (Some err) last_route s
           | (True, s) \<Rightarrow>
               (case skip_unhealthy (rte_provider route) (eg_probes (di_engine s)) of
                  Some err \<Rightarrow>
                    let s = skip_route env route ''unhealthy'' err fallback s
                    in dispatch_chain env call meta streamed model rt rest True (Some err) last_route s
                | None \<Rightarrow>
                    let start = now_of env s in
                    (case attempt env (call start p route) route fallback (s\<lparr>di_first_byte := 0\<rparr>) of
                       (Inr r, s) \<Rightarrow>
                         (Inr r, if streamed then s else finish env ''ok'' (measure_route env route True start s))
                     | (Inl err, s) \<Rightarrow>
                         let s = measure_route env route False start s in
                         if \<not> retryable err then (Inl err, fail_route env meta streamed route err s)
                         else (case ev_ctx_err env (di_world s) of
                             Some cerr \<Rightarrow> (Inl cerr, fail_route env meta streamed route cerr s)
                           | None \<Rightarrow> dispatch_chain env call meta streamed model rt rest True (Some err) (Some route) s)))))"

text \<open>\<open>None\<close> is a panic in the choice of the chain.\<close>

definition dispatch ::
  "('c, 'w) env \<Rightarrow> ('c, 'r, 'w) route_call \<Rightarrow> call_meta \<Rightarrow> bool \<Rightarrow> string \<Rightarrow> requirements \<Rightarrow>
   'c routes \<Rightarrow> 'w dispatching \<Rightarrow> ((gerror + 'r) \<times> 'w dispatching) option \<times> 'c routes"
where
  "dispatch env call meta streamed model req rt s =
     (case chain (eg_stats (di_engine s)) model req rt of
        (None, rt) \<Rightarrow> (None, rt)
      | (Some names, rt) \<Rightarrow>
          if names = [] then
            (case map_of (rt_combos rt) model of
               Some combo \<Rightarrow>
                 if co_strategy combo = ComboIntelligent then
                   (case intelligent_order (eg_stats (di_engine s)) combo req rt of
                      Inl err \<Rightarrow> (Some (Inl err, finish env (classify err) s), rt)
                    | Inr _ \<Rightarrow> (Some (Inl (Wrapped ErrUnknownModel model), s), rt))
                 else (Some (Inl (Wrapped ErrUnknownModel model), s), rt)
             | None \<Rightarrow> (Some (Inl (Wrapped ErrUnknownModel model), s), rt))
          else (Some (dispatch_chain env call meta streamed model rt names False None None s), rt))"

section \<open>Entry points\<close>

definition provider_step ::
  "('q, 'r, 'c, 'w) provider_call \<Rightarrow> 'c \<Rightarrow> 'q \<Rightarrow> 'w dispatching \<Rightarrow> (gerror + 'r) \<times> 'w dispatching"
where
  "provider_step f p q s =
     (let (res, e, fb, w) = f p q (di_engine s, di_first_byte s, di_world s)
      in (res, s\<lparr>di_engine := e, di_first_byte := fb, di_world := w\<rparr>))"

definition chat_call :: "('c, 'w) env \<Rightarrow> call_meta \<Rightarrow> chat_request \<Rightarrow> ('c, chat_response, 'w) route_call" where
  "chat_call env meta req start p route s =
     (let upstream = req\<lparr>cr_model := rte_model route\<rparr> in
      case provider_step (ev_chat env) p upstream s of
        (Inl err, s) \<Rightarrow> (Inl err, s)
      | (Inr resp, s) \<Rightarrow> (Inr resp, with_meter
          (record_usage (now_of env s) route (usage_of (rsp_usage resp) upstream (rsp_choices resp)) False meta) s))"

text \<open>A stream that is established is relayed later: the result is the metered stream to run.\<close>

definition stream_call :: "('c, 'w) env \<Rightarrow> call_meta \<Rightarrow> chat_request \<Rightarrow>
    ('c, route \<times> instant \<times> chat_request \<times> (stream_chunk \<times> bool) list, 'w) route_call" where
  "stream_call env meta req start p route s =
     (let upstream = req\<lparr>cr_model := rte_model route\<rparr> in
      case provider_step (ev_stream env) p upstream s of
        (Inl err, s) \<Rightarrow> (Inl err, s)
      | (Inr chunks, s) \<Rightarrow> (Inr (route, start, upstream, chunks), s))"

definition embedding_call :: "('c, 'w) env \<Rightarrow> call_meta \<Rightarrow> embedding_request \<Rightarrow> ('c, embedding_response, 'w) route_call" where
  "embedding_call env meta req start p route s =
     (let upstream = req\<lparr>er_model := rte_model route\<rparr> in
      case provider_step (ev_embed env) p upstream s of
        (Inl err, s) \<Rightarrow> (Inl err, s)
      | (Inr resp, s) \<Rightarrow> (Inr resp, with_meter
          (record_usage (now_of env s) route (embedding_usage (ers_usage resp) upstream) False meta) s))"

definition begin_dispatch :: "('c, 'w) env \<Rightarrow> request_context \<Rightarrow> string \<Rightarrow> bool \<Rightarrow> engine \<Rightarrow> 'w \<Rightarrow> call_meta \<times> 'w dispatching" where
  "begin_dispatch env cx model streamed e w =
     (let (meta, t) = begin_request cx (ev_now env w) model streamed
      in (meta, \<lparr>di_engine = e, di_trace = t, di_world = w, di_first_byte = 0, di_log = []\<rparr>))"

definition chat_completion ::
  "('c, 'w) env \<Rightarrow> request_context \<Rightarrow> chat_request \<Rightarrow> 'c routes \<Rightarrow> engine \<Rightarrow> 'w \<Rightarrow>
   ((gerror + chat_response) \<times> 'w dispatching) option \<times> 'c routes"
where
  "chat_completion env cx req rt e w =
     (let (meta, s) = begin_dispatch env cx (cr_model req) False e w
      in dispatch env (chat_call env meta req) meta False (cr_model req) (analyze_chat_request req) rt s)"

definition chat_completion_stream ::
  "('c, 'w) env \<Rightarrow> request_context \<Rightarrow> chat_request \<Rightarrow> 'c routes \<Rightarrow> engine \<Rightarrow> 'w \<Rightarrow>
   ((gerror + (route \<times> instant \<times> chat_request \<times> (stream_chunk \<times> bool) list)) \<times> 'w dispatching) option \<times> 'c routes"
where
  "chat_completion_stream env cx req rt e w =
     (let (meta, s) = begin_dispatch env cx (cr_model req) True e w
      in dispatch env (stream_call env meta req) meta True (cr_model req) (analyze_chat_request req) rt s)"

definition embeddings ::
  "('c, 'w) env \<Rightarrow> request_context \<Rightarrow> embedding_request \<Rightarrow> 'c routes \<Rightarrow> engine \<Rightarrow> 'w \<Rightarrow>
   ((gerror + embedding_response) \<times> 'w dispatching) option \<times> 'c routes"
where
  "embeddings env cx req rt e w =
     (let (meta, s) = begin_dispatch env cx (er_model req) False e w
      in dispatch env (embedding_call env meta req) meta False (er_model req) (analyze_embedding_request req) rt s)"

section \<open>The protocol of a dispatch\<close>

text \<open>What one route's attempts may do, with the number of tries left; the result is the error.\<close>

inductive attempt_protocol :: "route \<Rightarrow> nat \<Rightarrow> dispatch_event list \<Rightarrow> gerror option \<Rightarrow> bool" where
  Succeed: "attempt_protocol r (Suc n) [Called r None, SuccessReported (rte_provider r)] None"
| Fatal: "\<not> retryable e \<Longrightarrow> attempt_protocol r (Suc n) [Called r (Some e)] (Some e)"
| Spent: "retryable e \<Longrightarrow> attempt_protocol r (Suc 0) [Called r (Some e), FailureReported (rte_provider r)] (Some e)"
| Stopped: "retryable e \<Longrightarrow> set waits \<subseteq> range Slept \<Longrightarrow> length waits \<le> 1 \<Longrightarrow>
    attempt_protocol r (Suc n) ([Called r (Some e), FailureReported (rte_provider r)] @ waits) (Some stop)"
| Again: "retryable e \<Longrightarrow> set waits \<subseteq> range Slept \<Longrightarrow> length waits \<le> 1 \<Longrightarrow> attempt_protocol r n evs res \<Longrightarrow>
    attempt_protocol r (Suc n) ([Called r (Some e), FailureReported (rte_provider r)] @ waits @ evs) res"

text \<open>What a dispatch may do over its chain, with the retry budget of a route.\<close>

inductive chain_protocol :: "nat \<Rightarrow> 'c routes \<Rightarrow> string list \<Rightarrow> dispatch_event list \<Rightarrow> gerror option \<Rightarrow> bool" where
  Exhausted: "chain_protocol b rt [] [] (Some e)"
| Terminal: "pick_route a rt = Inl err \<Longrightarrow> chain_protocol b rt (a # as) [] (Some err)"
| Unroutable: "pick_route a rt = Inl err \<Longrightarrow> chain_protocol b rt as evs res \<Longrightarrow> chain_protocol b rt (a # as) evs res"
| Rejected: "pick_route a rt = Inr (p, r) \<Longrightarrow> chain_protocol b rt as evs res \<Longrightarrow>
    chain_protocol b rt (a # as) (Admission (rte_provider r) False # evs) res"
| Unhealthy: "pick_route a rt = Inr (p, r) \<Longrightarrow> chain_protocol b rt as evs res \<Longrightarrow>
    chain_protocol b rt (a # as) (Admission (rte_provider r) True # evs) res"
| Served: "pick_route a rt = Inr (p, r) \<Longrightarrow> attempt_protocol r b evs None \<Longrightarrow>
    chain_protocol b rt (a # as) (Admission (rte_provider r) True # evs) None"
| Failed: "pick_route a rt = Inr (p, r) \<Longrightarrow> attempt_protocol r b evs (Some e) \<Longrightarrow>
    chain_protocol b rt (a # as) (Admission (rte_provider r) True # evs) (Some e')"
| Advance: "pick_route a rt = Inr (p, r) \<Longrightarrow> attempt_protocol r b evs (Some e) \<Longrightarrow> retryable e \<Longrightarrow>
    chain_protocol b rt as evs' res \<Longrightarrow>
    chain_protocol b rt (a # as) (Admission (rte_provider r) True # evs @ evs') res"

inductive_cases attempt_protocolE: "attempt_protocol r n evs res"

definition error_of :: "gerror + 'r \<Rightarrow> gerror option" where
  "error_of res = (case res of Inl e \<Rightarrow> Some e | Inr _ \<Rightarrow> None)"

lemma error_of_simps [simp]: "error_of (Inl e) = Some e" "error_of (Inr r) = None"
  by (simp_all add: error_of_def)

text \<open>The engine's code writes the log and the retry policy nowhere else; the world leaves both alone.\<close>

definition quiet_call :: "('w dispatching \<Rightarrow> (gerror + 'r) \<times> 'w dispatching) \<Rightarrow> bool" where
  "quiet_call call \<longleftrightarrow> (\<forall>s. di_log (snd (call s)) = di_log s \<and>
     eg_retry (di_engine (snd (call s))) = eg_retry (di_engine s))"

definition steady :: "('c, 'w) env \<Rightarrow> ('c, 'r, 'w) route_call \<Rightarrow> bool" where
  "steady env call \<longleftrightarrow> (\<forall>start p r. quiet_call (call start p r)) \<and>
     (\<forall>d x. eg_retry (fst (snd (ev_wait env d x))) = eg_retry (fst x))"

named_theorems dispatch_frame \<open>log and retry policy through the steps of the engine\<close>

lemma finish_trace_retry [dispatch_frame]: "eg_retry (fst (finish_trace now st x)) = eg_retry (fst x)"
  by (auto simp: finish_trace_def split: prod.split option.split)

lemma persist_usage_retry [dispatch_frame]: "eg_retry (fst (persist_usage now r u st status meta x)) = eg_retry (fst x)"
  by (simp add: persist_usage_def Let_def)

lemma record_usage_retry [dispatch_frame]: "eg_retry (fst (record_usage now r u st meta x)) = eg_retry (fst x)"
  by (simp add: record_usage_def persist_usage_retry send_recorder_def)

lemma frame_log [dispatch_frame]:
  "di_log (log_event ev s) = di_log s @ [ev]" "di_log (with_meter f s) = di_log s"
  "di_log (on_engine g s) = di_log s" "di_log (on_trace h s) = di_log s"
  "di_log (finish env status s) = di_log s" "di_log (fail_route env meta streamed r err s) = di_log s"
  "di_log (measure_route env r ok start s) = di_log s" "di_log (skip_route env r reason err fallback s) = di_log s"
  "di_log (report_success p s) = di_log s @ [SuccessReported p]"
  "di_log (report_failure env p s) = di_log s @ [FailureReported p]"
  by (simp_all add: log_event_def with_meter_def on_engine_def on_trace_def finish_def fail_route_def
      measure_route_def skip_route_def report_success_def report_failure_def split_def Let_def)

lemma frame_retry [dispatch_frame]:
  "eg_retry (di_engine (log_event ev s)) = eg_retry (di_engine s)"
  "eg_retry (di_engine (on_trace h s)) = eg_retry (di_engine s)"
  "eg_retry (di_engine (on_engine (record_error p reason) s)) = eg_retry (di_engine s)"
  "eg_retry (di_engine (report_success p s)) = eg_retry (di_engine s)"
  "eg_retry (di_engine (report_failure env p s)) = eg_retry (di_engine s)"
  "eg_retry (di_engine (skip_route env r reason err fallback s)) = eg_retry (di_engine s)"
  "eg_retry (di_engine (measure_route env r ok start s)) = eg_retry (di_engine s)"
  by (simp_all add: log_event_def on_engine_def on_trace_def record_error_def send_recorder_def
      measure_route_def record_metric_def skip_route_def report_success_def report_failure_def Let_def)

lemma ask_breaker_frame [dispatch_frame]:
  "di_log (snd (ask_breaker env p s)) = di_log s @ [Admission p (fst (ask_breaker env p s))]"
  "eg_retry (di_engine (snd (ask_breaker env p s))) = eg_retry (di_engine s)"
  by (simp_all add: ask_breaker_def log_event_def on_engine_def split_def Let_def)

lemma sleep_frame:
  assumes "\<And>d x. eg_retry (fst (snd (ev_wait env d x))) = eg_retry (fst x)"
  shows "eg_retry (di_engine (snd (sleep_for env d s))) = eg_retry (di_engine s) \<and>
    (\<exists>waits. di_log (snd (sleep_for env d s)) = di_log s @ waits \<and> set waits \<subseteq> range Slept \<and> length waits \<le> 1)"
  using assms [of d "(di_engine s, di_world s)"]
  by (auto simp: sleep_for_def log_event_def split_def Let_def)

lemma note_failure_frame [dispatch_frame]:
  "di_log (note_failure env r started again fallback err s) =
     di_log s @ Called r (Some err) # (if retryable err then [FailureReported (rte_provider r)] else [])"
  "eg_retry (di_engine (note_failure env r started again fallback err s)) = eg_retry (di_engine s)"
  by (simp_all add: note_failure_def dispatch_frame Let_def)

lemma attempt_loop_protocol:
  assumes "quiet_call call" and "\<And>d x. eg_retry (fst (snd (ev_wait env d x))) = eg_retry (fst x)" and "0 < left"
  shows "eg_retry (di_engine (snd (attempt_loop env rp call route fallback left i last_err s))) = eg_retry (di_engine s) \<and>
    (\<exists>evs. di_log (snd (attempt_loop env rp call route fallback left i last_err s)) = di_log s @ evs \<and>
      attempt_protocol route left evs (error_of (fst (attempt_loop env rp call route fallback left i last_err s))))"
  using assms(3)
proof (induction left arbitrary: i last_err s)
  case (Suc left)
  obtain res s1 where c: "call s = (res, s1)" by force
  have s1: "di_log s1 = di_log s" "eg_retry (di_engine s1) = eg_retry (di_engine s)"
    using assms(1) c unfolding quiet_call_def by (metis snd_conv)+
  show ?case
  proof (cases res)
    case (Inr r)
    then show ?thesis
      using c s1 by (auto simp: Let_def dispatch_frame intro!: Succeed)
  next
    case (Inl err)
    let ?s2 = "note_failure env route (now_of env s) (i > 1) fallback err s1"
    show ?thesis
    proof (cases "\<not> retryable err \<or> left = 0")
      case True
      then show ?thesis
        using c s1 Inl by (auto simp: Let_def dispatch_frame intro: Fatal Spent)
    next
      case False
      obtain d w where b: "backoff env rp i (di_world ?s2) = (d, w)" by force
      obtain stop s3 where sl: "sleep_for env d (?s2\<lparr>di_world := w\<rparr>) = (stop, s3)" by force
      have "eg_retry (di_engine s3) = eg_retry (di_engine ?s2) \<and>
          (\<exists>waits. di_log s3 = di_log ?s2 @ waits \<and> set waits \<subseteq> range Slept \<and> length waits \<le> 1)"
        using sleep_frame [where env = env and d = d and s = "?s2\<lparr>di_world := w\<rparr>", OF assms(2)] unfolding sl by simp
      then obtain waits where
        s3: "eg_retry (di_engine s3) = eg_retry (di_engine s)" and
        l3: "di_log s3 = di_log s @ [Called route (Some err), FailureReported (rte_provider route)] @ waits" and
        w: "set waits \<subseteq> range Slept" "length waits \<le> 1"
        using False s1 by (auto simp: dispatch_frame)
      show ?thesis
      proof (cases stop)
        case None
        have "0 < left" using False by simp
        from Suc.IH [OF this, of "Suc i" err s3] obtain evs where
          "di_log (snd (attempt_loop env rp call route fallback left (Suc i) err s3)) = di_log s3 @ evs"
          "attempt_protocol route left evs (error_of (fst (attempt_loop env rp call route fallback left (Suc i) err s3)))"
          "eg_retry (di_engine (snd (attempt_loop env rp call route fallback left (Suc i) err s3))) = eg_retry (di_engine s3)"
          by blast
        then show ?thesis
          using c Inl False b sl None s3 l3 Again [OF _ w] by (auto simp: Let_def)
      next
        case (Some e)
        then show ?thesis
          using c Inl False b sl s3 l3 Stopped [OF _ w] by (auto simp: Let_def)
      qed
    qed
  qed
qed simp

lemma attempt_frame:
  assumes "quiet_call call" and "\<And>d x. eg_retry (fst (snd (ev_wait env d x))) = eg_retry (fst x)"
  shows "eg_retry (di_engine (snd (attempt env call route fallback s))) = eg_retry (di_engine s) \<and>
    (\<exists>evs. di_log (snd (attempt env call route fallback s)) = di_log s @ evs \<and>
      attempt_protocol route (retry_budget (eg_retry (di_engine s))) evs (error_of (fst (attempt env call route fallback s))))"
  unfolding attempt_def by (rule attempt_loop_protocol [OF assms]) (simp add: retry_budget_def)

lemma exhausted_frame:
  "di_log (snd (exhausted env meta streamed model rt last_err last_route s)) = di_log s \<and>
   error_of (fst (exhausted env meta streamed model rt last_err last_route s)) \<noteq> None"
  by (auto simp: exhausted_def Let_def dispatch_frame split: option.split)

lemma dispatch_chain_protocol:
  assumes "steady env call" and "retry_budget (eg_retry (di_engine s)) = b"
  shows "\<exists>evs. di_log (snd (dispatch_chain env call meta streamed model rt as fallback last_err last_route s)) = di_log s @ evs \<and>
    chain_protocol b rt as evs (error_of (fst (dispatch_chain env call meta streamed model rt as fallback last_err last_route s)))"
  using assms(2)
proof (induction as arbitrary: fallback last_err last_route s)
  case Nil
  have "chain_protocol b rt [] [] x" if "x \<noteq> None" for x using that by (auto intro: Exhausted)
  then show ?case by (intro exI [of _ "[]"]) (simp add: exhausted_frame del: not_None_eq)
next
  case (Cons a as)
  have wait: "\<And>d x. eg_retry (fst (snd (ev_wait env d x))) = eg_retry (fst x)"
    and quiet: "\<And>start p r. quiet_call (call start p r)" using assms(1) by (auto simp: steady_def)
  show ?case
  proof (cases "pick_route a rt")
    case (Inl err)
    then show ?thesis
      using Cons.IH [where fallback = True and last_err = "Some err" and last_route = last_route, OF Cons.prems]
      by (auto simp: dispatch_frame intro: Terminal Unroutable)
  next
    case (Inr pr)
    obtain p r where pr: "pr = (p, r)" by force
    obtain ok s1 where ask: "ask_breaker env (rte_provider r) s = (ok, s1)" by force
    have s1: "di_log s1 = di_log s @ [Admission (rte_provider r) ok]" "eg_retry (di_engine s1) = eg_retry (di_engine s)"
      using ask_breaker_frame [of env "rte_provider r" s] by (simp_all add: ask)
    let ?skip = "\<lambda>reason err. skip_route env r reason err fallback s1"
    have skip: "retry_budget (eg_retry (di_engine (?skip reason err))) = b"
      "di_log (?skip reason err) = di_log s @ [Admission (rte_provider r) ok]" for reason err
      using Cons.prems by (simp_all add: dispatch_frame s1)
    show ?thesis
    proof (cases ok)
      case False
      let ?err = "Wrapped ErrCircuitOpen (rte_provider r)"
      from Cons.IH [where fallback = True and last_route = last_route and last_err = "Some ?err",
          OF skip(1) [of "''circuit_open''" ?err]] show ?thesis
        using False Inr pr ask by (auto simp: Let_def skip(2) intro: Rejected)
    next
      case True
      show ?thesis
      proof (cases "skip_unhealthy (rte_provider r) (eg_probes (di_engine s1))")
        case (Some err)
        from Cons.IH [where fallback = True and last_route = last_route and last_err = "Some err",
            OF skip(1) [of "''unhealthy''" err]] show ?thesis
          using Some True Inr pr ask by (auto simp: Let_def skip(2) intro: Unhealthy)
      next
        case None
        let ?start = "now_of env s1"
        obtain res s2 where at: "attempt env (call ?start p r) r fallback (s1\<lparr>di_first_byte := 0\<rparr>) = (res, s2)" by force
        obtain evs where s2: "eg_retry (di_engine s2) = eg_retry (di_engine s)" "di_log s2 = di_log s1 @ evs"
          "attempt_protocol r b evs (error_of res)"
          using attempt_frame [where call = "call ?start p r" and env = env and route = r and fallback = fallback
              and s = "s1\<lparr>di_first_byte := 0\<rparr>", OF quiet wait] Cons.prems
          by (auto simp: at s1)
        show ?thesis
        proof (cases res)
          case (Inr x)
          then show ?thesis
            using \<open>pick_route a rt = Inr pr\<close> pr ask True None at s1 s2 Served [of a rt p r b evs]
            by (auto simp: Let_def dispatch_frame)
        next
          case (Inl err)
          let ?s3 = "measure_route env r False ?start s2"
          have s3: "di_log ?s3 = di_log s @ Admission (rte_provider r) True # evs" "retry_budget (eg_retry (di_engine ?s3)) = b"
            using s1 s2 True Cons.prems by (simp_all add: dispatch_frame)
          show ?thesis
          proof (cases "\<not> retryable err \<or> ev_ctx_err env (di_world ?s3) \<noteq> None")
            case True
            then show ?thesis
              using \<open>pick_route a rt = Inr pr\<close> pr ask \<open>ok\<close> None at Inl s2(3) s3 Failed [of a rt p r b evs err]
              by (auto simp: Let_def dispatch_frame)
          next
            case False
            then show ?thesis
              using \<open>pick_route a rt = Inr pr\<close> pr ask \<open>ok\<close> None at Inl s2(3) s3(1)
                Cons.IH [where fallback = True and last_err = "Some err" and last_route = "Some r", OF s3(2)]
              by (auto simp: Let_def intro: Advance)
          qed
        qed
      qed
    qed
  qed
qed

section \<open>Consequences of the protocol\<close>

fun is_call :: "dispatch_event \<Rightarrow> bool" where
  "is_call (Called _ _) = True"
| "is_call _ = False"

fun is_report :: "dispatch_event \<Rightarrow> bool" where
  "is_report (SuccessReported _) = True"
| "is_report (FailureReported _) = True"
| "is_report _ = False"

text \<open>The report that a call owes to the breakers.\<close>

fun owed_report :: "dispatch_event \<Rightarrow> dispatch_event list" where
  "owed_report (Called r None) = [SuccessReported (rte_provider r)]"
| "owed_report (Called r (Some e)) = (if retryable e then [FailureReported (rte_provider r)] else [])"
| "owed_report _ = []"

text \<open>Calls go only to the provider whose admission was asked last, and was granted.\<close>

fun calls_admitted :: "string option \<Rightarrow> dispatch_event list \<Rightarrow> bool" where
  "calls_admitted g [] = True"
| "calls_admitted g (Admission p ok # evs) = calls_admitted (if ok then Some p else None) evs"
| "calls_admitted g (Called r e # evs) = (g = Some (rte_provider r) \<and> calls_admitted g evs)"
| "calls_admitted g (_ # evs) = calls_admitted g evs"

lemma waits_quiet:
  assumes "set waits \<subseteq> range Slept"
  shows "filter is_call waits = []" and "filter is_report waits = []"
    and "Called r e \<notin> set waits" and "calls_admitted g (waits @ evs) = calls_admitted g evs"
  using assms by (induction waits) auto

lemma attempt_facts:
  assumes "attempt_protocol r n evs res"
  shows "length (filter is_call evs) \<le> n"
    and "filter is_report evs = concat (map owed_report (filter is_call evs))"
    and "(res = None) = (\<exists>r'. Called r' None \<in> set evs)"
    and "calls_admitted (Some (rte_provider r)) (evs @ evs') = calls_admitted (Some (rte_provider r)) evs'"
    and "\<exists>x. res = x \<and> Called r x \<in> set evs \<or> (\<exists>e. retryable e \<and> Called r (Some e) \<in> set evs)"
  using assms by (induction rule: attempt_protocol.induct) (auto simp: waits_quiet)

lemma chain_calls:
  "chain_protocol b rt as evs res \<Longrightarrow> length (filter is_call evs) \<le> length as * b"
proof (induction rule: chain_protocol.induct)
  case (Served a rt p r b evs as)
  then show ?case using attempt_facts(1) [OF Served(2)] by simp
next
  case (Failed a rt p r b evs e as e')
  then show ?case using attempt_facts(1) [OF Failed(2)] by simp
next
  case (Advance a rt p r b evs e as evs' res)
  then show ?case using attempt_facts(1) [OF Advance(2)] by simp
qed auto

lemma chain_reports:
  "chain_protocol b rt as evs res \<Longrightarrow> filter is_report evs = concat (map owed_report (filter is_call evs))"
  by (induction rule: chain_protocol.induct) (auto simp: attempt_facts(2))

lemma chain_success:
  "chain_protocol b rt as evs res \<Longrightarrow> (res = None) = (\<exists>r. Called r None \<in> set evs)"
proof (induction rule: chain_protocol.induct)
  case (Served a rt p r b evs as)
  then show ?case using attempt_facts(3) [OF Served(2)] by auto
next
  case (Failed a rt p r b evs e as e')
  then show ?case using attempt_facts(3) [OF Failed(2)] by auto
next
  case (Advance a rt p r b evs e as evs' res)
  then show ?case using attempt_facts(3) [OF Advance(2)] by auto
qed auto

lemma chain_admitted:
  "chain_protocol b rt as evs res \<Longrightarrow> calls_admitted g evs"
proof (induction arbitrary: g rule: chain_protocol.induct)
  case (Served a rt p r b evs as)
  then show ?case using attempt_facts(4) [OF Served(2), of "[]"] by simp
next
  case (Failed a rt p r b evs e as e')
  then show ?case using attempt_facts(4) [OF Failed(2), of "[]"] by simp
next
  case (Advance a rt p r b evs e as evs' res)
  then show ?case using attempt_facts(4) [OF Advance(2), of evs'] by simp
qed auto

lemma chain_length: "fst (chain st name req rt) = Some names \<Longrightarrow> length names \<le> 8"
  by (auto simp: chain_def walk_members_extend max_chain_attempts_def split: prod.splits option.splits sum.splits)

lemma dispatch_protocol:
  assumes "steady env call"
    and "dispatch env call meta streamed model req rt s = (Some (res, s'), rt')"
  shows "\<exists>names evs. di_log s' = di_log s @ evs \<and> length names \<le> 8 \<and>
    chain_protocol (retry_budget (eg_retry (di_engine s))) rt' names evs (error_of res)"
proof -
  obtain names where ch: "chain (eg_stats (di_engine s)) model req rt = (Some names, rt')"
    using assms(2) by (auto simp: dispatch_def split: prod.splits option.splits if_splits sum.splits)
  have len: "length names \<le> 8" using chain_length [of "eg_stats (di_engine s)" model req rt] ch by simp
  show ?thesis
  proof (cases "names = []")
    case True
    then have "(\<exists>e. res = Inl e) \<and> di_log s' = di_log s"
      using assms(2) ch by (auto simp: dispatch_def dispatch_frame split: option.splits if_splits sum.splits)
    then show ?thesis by (auto intro!: exI [of _ "[]"] Exhausted)
  next
    case False
    then have "dispatch_chain env call meta streamed model rt' names False None None s = (res, s')"
      using assms(2) ch by (simp add: dispatch_def)
    with dispatch_chain_protocol [where s = s and meta = meta and streamed = streamed and model = model
        and rt = rt' and as = names and fallback = False and last_err = None and last_route = None, OF assms(1) refl] len
    show ?thesis by auto
  qed
qed

section \<open>Properties\<close>

text \<open>
  C5. A dispatch is bounded: it calls providers at most eight times the retry budget, however long
  the chain and its fallbacks are, and whatever other requests do meanwhile.
\<close>

theorem dispatch_bounded:
  assumes "steady env call"
    and "dispatch env call meta streamed model req rt s = (Some (res, s'), rt')"
  shows "\<exists>evs. di_log s' = di_log s @ evs \<and>
    length (filter is_call evs) \<le> 8 * retry_budget (eg_retry (di_engine s))"
proof -
  obtain names evs where "di_log s' = di_log s @ evs" "length names \<le> 8"
    "chain_protocol (retry_budget (eg_retry (di_engine s))) rt' names evs (error_of res)"
    using dispatch_protocol [OF assms] by blast
  moreover from this have "length (filter is_call evs) \<le> length names * retry_budget (eg_retry (di_engine s))"
    using chain_calls by blast
  moreover have "length names * retry_budget (eg_retry (di_engine s)) \<le> 8 * retry_budget (eg_retry (di_engine s))"
    using \<open>length names \<le> 8\<close> by (rule mult_le_mono1)
  ultimately show ?thesis by (meson order_trans)
qed

text \<open>
  C2. No provider is called unless its breaker has just admitted the request: every call goes to
  the provider named by the last admission, and that admission was granted.
\<close>

theorem dispatch_respects_breakers:
  assumes "steady env call"
    and "dispatch env call meta streamed model req rt s = (Some (res, s'), rt')"
  shows "\<exists>evs. di_log s' = di_log s @ evs \<and> calls_admitted None evs"
  using dispatch_protocol [OF assms] chain_admitted by blast


text \<open>
  C3. A dispatch succeeds exactly if one of its calls did: an error is only returned when no
  provider answered, and no answer is thrown away.
\<close>

theorem dispatch_succeeds_iff_called:
  assumes "steady env call"
    and "dispatch env call meta streamed model req rt s = (Some (res, s'), rt')"
  shows "\<exists>evs. di_log s' = di_log s @ evs \<and>
    ((\<exists>r. res = Inr r) \<longleftrightarrow> (\<exists>route. Called route None \<in> set evs))"
proof -
  obtain names evs where evs: "di_log s' = di_log s @ evs"
    "chain_protocol (retry_budget (eg_retry (di_engine s))) rt' names evs (error_of res)"
    using dispatch_protocol [OF assms] by blast
  then have "(error_of res = None) = (\<exists>r. Called r None \<in> set evs)" using chain_success by blast
  moreover have "error_of res = None \<longleftrightarrow> (\<exists>r. res = Inr r)" by (cases res) simp_all
  ultimately show ?thesis using evs(1) by auto
qed

text \<open>The calls of the three entry points are quiet when the provider operations keep the retry policy.\<close>

definition quiet_provider :: "('q, 'r, 'c, 'w) provider_call \<Rightarrow> bool" where
  "quiet_provider f \<longleftrightarrow> (\<forall>p q x. eg_retry (fst (snd (f p q x))) = eg_retry (fst x))"

definition quiet_env :: "('c, 'w) env \<Rightarrow> bool" where
  "quiet_env env \<longleftrightarrow> quiet_provider (ev_chat env) \<and> quiet_provider (ev_stream env) \<and>
     quiet_provider (ev_embed env) \<and> (\<forall>d x. eg_retry (fst (snd (ev_wait env d x))) = eg_retry (fst x))"

lemma provider_step_frame:
  "quiet_provider f \<Longrightarrow> di_log (snd (provider_step f p q s)) = di_log s \<and>
     eg_retry (di_engine (snd (provider_step f p q s))) = eg_retry (di_engine s)"
  by (simp add: quiet_provider_def provider_step_def split_def Let_def)

lemma with_usage_retry:
  "eg_retry (di_engine (with_meter (record_usage now route us b meta) s)) = eg_retry (di_engine s)"
  by (simp add: with_meter_def split_def Let_def record_usage_retry)

lemma quiet_meter:
  assumes "quiet_provider f"
  shows "quiet_call (\<lambda>s. case provider_step f p q s of (Inl err, s) \<Rightarrow> (Inl err, s)
      | (Inr resp, s) \<Rightarrow> (Inr resp, with_meter (record_usage (now_of env s) route (u resp) False meta) s))"
  using provider_step_frame [OF assms, of p q]
  by (auto simp: quiet_call_def dispatch_frame with_usage_retry split: prod.split sum.split) (metis snd_conv)+

lemma steady_entry_points:
  assumes "quiet_env env"
  shows "steady env (chat_call env meta req)" and "steady env (embedding_call env meta ereq)"
    and "steady env (stream_call env meta req)"
proof -
  show "steady env (chat_call env meta req)"
    using assms unfolding steady_def quiet_env_def chat_call_def Let_def
    by (intro conjI allI quiet_meter) blast+
  show "steady env (embedding_call env meta ereq)"
    using assms unfolding steady_def quiet_env_def embedding_call_def Let_def
    by (intro conjI allI quiet_meter) blast+
  have "quiet_provider (ev_stream env)" using assms by (simp add: quiet_env_def)
  from provider_step_frame [OF this] show "steady env (stream_call env meta req)"
    using assms unfolding steady_def quiet_env_def quiet_call_def stream_call_def Let_def
    by (auto split: prod.split sum.split) (metis snd_conv)+
qed

text \<open>A provider that times out twice and then answers, in a world that counts the calls.\<close>

definition example_answer :: chat_response where
  "example_answer = \<lparr>rsp_id = ''r'', rsp_object = ''chat.completion'', rsp_created = 0, rsp_model = ''m'',
     rsp_choices = [], rsp_usage = None, rsp_extra = []\<rparr>"

definition example_env :: "(nat, nat) env" where
  "example_env = \<lparr>
     ev_chat = (\<lambda>p q (e, fb, n). (if n < 2 then Inl (Sentinel ErrTimeout) else Inr example_answer, e, fb, Suc n)),
     ev_stream = (\<lambda>p q (e, fb, n). (Inl (Sentinel ErrConnection), e, fb, n)),
     ev_embed = (\<lambda>p q (e, fb, n). (Inl (Sentinel ErrConnection), e, fb, n)),
     ev_wait = (\<lambda>d (e, n). (None, e, n)), ev_ctx_err = (\<lambda>n. None), ev_now = (\<lambda>n. int n),
     ev_rand = (\<lambda>k n. (0, n))\<rparr>"

definition example_start :: "nat dispatching" where
  "example_start = \<lparr>di_engine = new_engine None, di_trace = None, di_world = 0, di_first_byte = 0, di_log = []\<rparr>"

definition example_table :: "nat routes" where
  "example_table = reload [example_alias_of ''a'' [''b''], example_alias_of ''b'' []] [] [(''p'', 0)]"

definition example_call :: "(nat, chat_response, nat) route_call" where
  "example_call = chat_call example_env example_meta example_chat"

definition example_outcome :: "(gerror + chat_response) \<times> nat dispatching" where
  "example_outcome = the (fst (dispatch example_env example_call example_meta False ''a'' no_requirements
     example_table example_start))"

lemma example_steady: "steady example_env example_call"
  unfolding example_call_def
  by (rule steady_entry_points(1)) (simp add: quiet_env_def quiet_provider_def example_env_def)

lemma example_dispatch:
  "dispatch example_env example_call example_meta False ''a'' no_requirements example_table example_start =
     (Some (fst example_outcome, snd example_outcome), example_table)"
proof -
  have "fst (dispatch example_env example_call example_meta False ''a'' no_requirements example_table example_start) \<noteq> None"
    "snd (dispatch example_env example_call example_meta False ''a'' no_requirements example_table example_start) = example_table"
    by (code_simp, code_simp)
  then show ?thesis by (auto simp: example_outcome_def prod_eq_iff)
qed

lemma dispatch_bounded_witness:
  "\<exists>evs. di_log (snd example_outcome) = di_log example_start @ evs \<and>
    length (filter is_call evs) \<le> 8 * retry_budget (eg_retry (di_engine example_start))"
  by (rule dispatch_bounded [OF example_steady example_dispatch])

lemma dispatch_respects_breakers_witness:
  "\<exists>evs. di_log (snd example_outcome) = di_log example_start @ evs \<and> calls_admitted None evs"
  by (rule dispatch_respects_breakers [OF example_steady example_dispatch])


lemma dispatch_succeeds_iff_called_witness:
  "\<exists>evs. di_log (snd example_outcome) = di_log example_start @ evs \<and>
    ((\<exists>r. fst example_outcome = Inr r) \<longleftrightarrow> (\<exists>route. Called route None \<in> set evs))"
  by (rule dispatch_succeeds_iff_called [OF example_steady example_dispatch])

text \<open>The example falls back: two time-outs of the first alias, then an answer from the second.\<close>

lemma example_falls_back: "\<not> isl (fst example_outcome) \<and> length (filter is_call (di_log (snd example_outcome))) = 3"
  by code_simp

section \<open>Backoff\<close>

lemma double_delay_capped:
  assumes "0 < d" and "d \<le> cap" and "cap < 2 ^ 62"
  shows "double_delay k cap d = min cap (d * 2 ^ k)"
  using assms
proof (induction k arbitrary: d)
  case (Suc k)
  have "in_int64 (d * 2)" using Suc.prems by (simp add: in_int64_def min_int_def max_int_def)
  then have w: "wrap64 (d * 2) = d * 2" by simp
  show ?case
  proof (cases "d * 2 \<ge> cap")
    case True
    have "d * 2 \<le> d * 2 * 2 ^ k" using Suc.prems(1) by simp
    with True have "cap \<le> d * 2 ^ Suc k" by (simp add: ac_simps)
    with True w Suc.prems show ?thesis by (simp add: Let_def min_def)
  next
    case False
    with Suc.IH [of "d * 2"] w Suc.prems show ?thesis by (simp add: Let_def ac_simps)
  qed
qed simp

text \<open>
  The wait before retry \<open>n\<close> is the base delay doubled \<open>n - 1\<close> times and cut at the cap, spread
  by the jitter over its upper half: never above the cap and never below half the ideal delay. The
  base delay must not exceed the cap.
\<close>

theorem backoff_in_range:
  assumes "0 < rp_base_delay rp" and "rp_base_delay rp \<le> rp_max_delay rp" and "rp_max_delay rp < 2 ^ 62"
    and "\<And>k w. 0 < k \<Longrightarrow> 0 \<le> fst (ev_rand env k w) \<and> fst (ev_rand env k w) < k"
  shows "let ideal = min (rp_max_delay rp) (rp_base_delay rp * 2 ^ (n - 1)); d = fst (backoff env rp n w)
    in ideal div 2 \<le> d \<and> d \<le> ideal \<and> d \<le> rp_max_delay rp"
proof -
  define ideal where "ideal = min (rp_max_delay rp) (rp_base_delay rp * 2 ^ (n - 1))"
  have pos: "0 < ideal" using assms(1,2) by (simp add: ideal_def)
  have dd: "double_delay (n - 1) (rp_max_delay rp) (rp_base_delay rp) = ideal"
    using double_delay_capped [OF assms(1-3)] by (simp add: ideal_def)
  note dd' = dd [simplified]
  have half: "ideal sdiv 2 = ideal div 2" using pos by (simp add: sdiv_nonneg)
  have "ideal div 2 \<le> fst (backoff env rp n w) \<and> fst (backoff env rp n w) \<le> ideal"
  proof (cases "ideal div 2 \<le> 0")
    case True
    then show ?thesis using pos assms(1) by (simp add: backoff_def Let_def dd' half)
  next
    case False
    then have "0 \<le> fst (ev_rand env (ideal div 2 + 1) w)" "fst (ev_rand env (ideal div 2 + 1) w) < ideal div 2 + 1"
      using assms(4) [of "ideal div 2 + 1" w] by simp_all
    then show ?thesis
      using False assms(1) by (simp add: backoff_def Let_def dd' half split_def)
  qed
  moreover have "ideal \<le> rp_max_delay rp" by (simp add: ideal_def)
  ultimately show ?thesis unfolding Let_def ideal_def [symmetric] by simp
qed

lemma backoff_in_range_witness:
  "fst (backoff example_env default_retry 3 0) \<le> 2 * second"
  using backoff_in_range [of default_retry example_env 3 0]
  by (simp add: default_retry_def second_def millisecond_def example_env_def Let_def)

text \<open>With a base delay above the cap the first retry waits longer than the cap allows.\<close>

lemma backoff_exceeds_cap:
  "fst (backoff example_env \<lparr>rp_attempts = 3, rp_base_delay = 10, rp_max_delay = 4\<rparr> 1 0) = 5"
  "fst (backoff example_env \<lparr>rp_attempts = 3, rp_base_delay = 10, rp_max_delay = 4\<rparr> 2 0) = 2"
  by code_simp+

section \<open>A probe that is never reported\<close>

text \<open>
  C32. A half-open probe can be lost. When an open circuit's cooldown is over, dispatch takes the
  probe and then may skip the route because the provider failed its last health check: no call is
  made and nothing is reported, so the circuit stays half-open with its probe taken, and every
  later request for that provider is refused until something reports on it, however long that
  takes and however healthy the provider is by then.
\<close>

theorem skipped_probe_blocks_provider:
  assumes "pick_route a rt = Inr (p, r)" and "enabled (eg_breakers (di_engine s)) (rte_provider r)"
    and "br_state (get_breaker (eg_breakers (di_engine s)) (rte_provider r)) = CircuitOpen"
    and "fst (allow (now_of env s) (rte_provider r) (eg_breakers (di_engine s)))"
    and "\<not> healthy (rte_provider r) (eg_probes (di_engine s))"
    and "\<forall>(t, c) \<in> set later. c \<noteq> ReportOk (rte_provider r) \<and> c \<noteq> ReportFail (rte_provider r)"
  shows "let s' = snd (dispatch_chain env call meta streamed model rt [a] fallback None None s)
    in di_log s' = di_log s @ [Admission (rte_provider r) True] \<and>
       (rte_provider r, True) \<notin> set (fst (breaker_gate.gate_run later (eg_breakers (di_engine s'))))"
proof -
  let ?p = "rte_provider r" and ?b = "eg_breakers (di_engine s)"
  obtain ok s1 where ask: "ask_breaker env ?p s = (ok, s1)" by force
  then have s1: "ok" "eg_breakers (di_engine s1) = snd (allow (now_of env s) ?p ?b)"
    "eg_probes (di_engine s1) = eg_probes (di_engine s)" "di_log s1 = di_log s @ [Admission ?p True]"
    using assms(4) by (auto simp: ask_breaker_def log_event_def on_engine_def split_def Let_def)
  have held: "probe_held (eg_breakers (di_engine s1)) ?p"
    using assms(2-4) by (simp add: s1(2) probe_held_def allow_breaker Let_def)
  obtain err where unhealthy: "skip_unhealthy ?p (eg_probes (di_engine s1)) = Some err"
    using assms(5) by (simp add: skip_unhealthy_def s1(3))
  have same: "eg_breakers (di_engine (skip_route env r reason e b s1)) = eg_breakers (di_engine s1)" for reason e b
    by (simp add: skip_route_def on_trace_def on_engine_def record_error_def send_recorder_def)
  have fin: "eg_breakers (di_engine (finish env st x)) = eg_breakers (di_engine x)" for st and x :: "'b dispatching"
    by (auto simp: finish_def with_meter_def finish_trace_def split_def Let_def split: option.split)
  let ?s' = "snd (dispatch_chain env call meta streamed model rt [a] fallback None None s)"
  have "eg_breakers (di_engine ?s') = eg_breakers (di_engine s1)" "di_log ?s' = di_log s1"
    using assms(1) ask s1(1) unhealthy by (simp_all add: Let_def exhausted_def same fin dispatch_frame)
  with held breaker_gate.held_until_report [OF _ assms(6)] s1(4) show ?thesis
    by (simp add: Let_def)
qed

definition example_stuck :: "nat dispatching" where
  "example_stuck = example_start\<lparr>di_engine := (new_engine None)\<lparr>
     eg_breakers := \<lparr>bs_policy = \<lparr>failure_threshold = 1, cooldown = 0\<rparr>, bs_overrides = [],
       bs_state = [(''p'', \<lparr>br_failures = 1, br_state = CircuitOpen, br_opened_at = 0, br_probing = False\<rparr>)],
       bs_log = []\<rparr>, eg_probes := [(''p'', Sentinel ErrConnection)]\<rparr>\<rparr>"

lemma skipped_probe_blocks_provider_witness:
  "let s' = snd (dispatch_chain example_env example_call example_meta False ''a'' example_table [''a''] False None None example_stuck)
   in (''p'', True) \<notin> set (fst (breaker_gate.gate_run [(1000, Admit ''p''), (10 ^ 20, Admit ''p'')] (eg_breakers (di_engine s'))))"
proof -
  let ?r = "\<lparr>rte_alias = ''a'', rte_provider = ''p'', rte_model = ''a''\<rparr>"
  have pick: "pick_route ''a'' example_table = Inr (0, ?r)"
    by (simp add: pick_route_def resolve_def registry_get_def example_table_def reload_def example_alias_of_def)
  have b: "enabled (eg_breakers (di_engine example_stuck)) ''p''"
    "br_state (get_breaker (eg_breakers (di_engine example_stuck)) ''p'') = CircuitOpen"
    "fst (allow (now_of example_env example_stuck) ''p'' (eg_breakers (di_engine example_stuck)))"
    "\<not> healthy ''p'' (eg_probes (di_engine example_stuck))"
    by code_simp+
  show ?thesis
    using skipped_probe_blocks_provider [OF pick, of example_stuck example_env
        "[(1000, Admit ''p''), (10 ^ 20, Admit ''p'')]" example_call example_meta False "''a''" False] b
    by (simp add: Let_def)
qed

end
