(* ===== verification/Go_Crypto.thy ===== *)
theory Go_Crypto
  imports Go_Strings
begin

text \<open>
  The part of Go's \<^verbatim>\<open>crypto/sha256\<close> and \<^verbatim>\<open>encoding/hex\<close> that the router uses: the SHA-256
  digest of a byte string (FIPS 180-4) on 32-bit words, and its hexadecimal spelling.
  \<^verbatim>\<open>subtle.ConstantTimeCompare\<close> returns one exactly for equal strings.
\<close>

unbundle bit_operations_syntax

type_synonym u32 = "32 word"

definition sha_rounds :: "u32 list" where
  "sha_rounds = [
    1116352408, 1899447441, 3049323471, 3921009573, 961987163, 1508970993,
    2453635748, 2870763221, 3624381080, 310598401, 607225278, 1426881987,
    1925078388, 2162078206, 2614888103, 3248222580, 3835390401, 4022224774,
    264347078, 604807628, 770255983, 1249150122, 1555081692, 1996064986,
    2554220882, 2821834349, 2952996808, 3210313671, 3336571891, 3584528711,
    113926993, 338241895, 666307205, 773529912, 1294757372, 1396182291,
    1695183700, 1986661051, 2177026350, 2456956037, 2730485921, 2820302411,
    3259730800, 3345764771, 3516065817, 3600352804, 4094571909, 275423344,
    430227734, 506948616, 659060556, 883997877, 958139571, 1322822218,
    1537002063, 1747873779, 1955562222, 2024104815, 2227730452, 2361852424,
    2428436474, 2756734187, 3204031479, 3329325298]"

definition sha_init :: "u32 list" where
  "sha_init = [
    1779033703, 3144134277, 1013904242, 2773480762,
    1359893119, 2600822924, 528734635, 1541459225]"

definition rot_right :: "nat \<Rightarrow> u32 \<Rightarrow> u32" where
  "rot_right n x = drop_bit n x OR push_bit (32 - n) x"

definition byte_of :: "char \<Rightarrow> u32" where "byte_of c = word_of_nat (of_char c)"

fun pack_words :: "u32 list \<Rightarrow> u32 list" where
  "pack_words (a # b # c # d # bs) = (push_bit 24 a OR push_bit 16 b OR push_bit 8 c OR d) # pack_words bs"
| "pack_words bs = []"

definition length_bytes :: "nat \<Rightarrow> u32 list" where
  "length_bytes n = map (\<lambda>i. word_of_nat (8 * n div 256 ^ i mod 256)) [7, 6, 5, 4, 3, 2, 1, 0]"

definition sha_pad :: "string \<Rightarrow> u32 list" where
  "sha_pad s = map byte_of s @ [0x80] @ replicate ((119 - length s mod 64) mod 64) 0 @ length_bytes (length s)"

text \<open>The message schedule, newest word first.\<close>

fun sha_extend :: "nat \<Rightarrow> u32 list \<Rightarrow> u32 list" where
  "sha_extend 0 ws = ws"
| "sha_extend (Suc n) ws =
     (let a = ws ! 14; b = ws ! 1;
          s0 = rot_right 7 a XOR rot_right 18 a XOR drop_bit 3 a;
          s1 = rot_right 17 b XOR rot_right 19 b XOR drop_bit 10 b
      in sha_extend n ((ws ! 15 + s0 + ws ! 6 + s1) # ws))"

fun sha_round :: "u32 \<times> u32 \<Rightarrow> u32 list \<Rightarrow> u32 list" where
  "sha_round (k, w) [a, b, c, d, e, f, g, h] =
     (let t1 = h + (rot_right 6 e XOR rot_right 11 e XOR rot_right 25 e)
                 + ((e AND f) XOR (NOT e AND g)) + k + w;
          t2 = (rot_right 2 a XOR rot_right 13 a XOR rot_right 22 a)
                 + ((a AND b) XOR (a AND c) XOR (b AND c))
      in [t1 + t2, a, b, c, d + t1, e, f, g])"
| "sha_round kw s = s"

fun sha_blocks :: "u32 list \<Rightarrow> u32 list \<Rightarrow> u32 list" where
  "sha_blocks s ws = (if length ws < 16 then s else
     sha_blocks (map2 (+) s (fold sha_round (zip sha_rounds (rev (sha_extend 48 (rev (take 16 ws))))) s))
       (drop 16 ws))"

declare sha_blocks.simps [simp del]

definition sha256 :: "string \<Rightarrow> u32 list" where
  "sha256 s = sha_blocks sha_init (pack_words (sha_pad s))"

definition hex_digit :: "nat \<Rightarrow> char" where
  "hex_digit d = (if d < 10 then char_of (48 + d) else char_of (87 + d))"

definition hex_word :: "u32 \<Rightarrow> string" where
  "hex_word w = map (\<lambda>i. hex_digit (unat w div 16 ^ i mod 16)) [7, 6, 5, 4, 3, 2, 1, 0]"

definition sha256_hex :: "string \<Rightarrow> string" where
  "sha256_hex s = concat (map hex_word (sha256 s))"

text \<open>A digest is 32 bytes, spelt in 64 digits.\<close>

lemma length_sha_round [simp]: "length (sha_round kw s) = length s"
  by (cases "(kw, s)" rule: sha_round.cases) (simp_all add: Let_def)

lemma length_sha_rounds [simp]: "length (fold sha_round kws s) = length s"
  by (induction kws arbitrary: s) simp_all

lemma length_sha_blocks [simp]: "length (sha_blocks s ws) = length s"
proof (induction s ws rule: sha_blocks.induct)
  case (1 s ws)
  then show ?case by (subst sha_blocks.simps) simp
qed

lemma length_sha256_hex [simp]: "length (sha256_hex s) = 64"
proof -
  have "length (concat (map hex_word ws)) = 8 * length ws" for ws
    by (induction ws) (simp_all add: hex_word_def)
  then show ?thesis by (simp add: sha256_hex_def sha256_def sha_init_def)
qed

end
