(* ===== verification/Authentication.thy ===== *)
theory Authentication
  imports Storage_Memory Go_Crypto
begin

text \<open>
  Caller authentication (\<^verbatim>\<open>internal/auth/auth.go\<close>, \<^verbatim>\<open>admin.go\<close>, \<^verbatim>\<open>keys.go\<close>). A service holds the
  hashes of the configured static keys and reads a key store through its \<^verbatim>\<open>GetByHash\<close>, which is
  an argument here, so the lemmas cover both stores. The background write of the last use is a
  step of its own: \<open>authenticate\<close> returns the identifier of the key whose goroutine it starts.
  Randomness is a stream of draws from \<^verbatim>\<open>rand.Int\<close>; a draw may fail.
\<close>

section \<open>Identities\<close>

datatype auth_error = ErrUnauthorized

record identity =
  id_key :: string
  id_name :: string
  id_rate_limit :: int
  id_budget :: rat
  id_allowed_models :: "string list"

definition named_identity :: "string \<Rightarrow> identity" where
  "named_identity n = \<lparr>id_key = n, id_name = n, id_rate_limit = 0, id_budget = 0, id_allowed_models = []\<rparr>"

definition allows :: "identity \<Rightarrow> string \<Rightarrow> bool" where
  "allows i m = (if id_allowed_models i = [] then True else m \<in> set (id_allowed_models i))"

definition key_hash :: "string \<Rightarrow> string" where
  "key_hash raw = sha256_hex raw"

definition bearer_token :: "string \<Rightarrow> string" where
  "bearer_token header =
     (if length header \<le> length ''Bearer '' \<or> \<not> equal_fold (take (length ''Bearer '') header) ''Bearer ''
      then [] else trim_space (drop (length ''Bearer '') header))"

section \<open>Gateway keys\<close>

record auth_service =
  sv_enabled :: bool
  sv_static :: "string list"
  sv_keys :: "(string \<Rightarrow> storage_error + api_key) option"

definition set_static_keys :: "string list \<Rightarrow> auth_service \<Rightarrow> auth_service" where
  "set_static_keys ks sv = sv\<lparr>sv_static := remdups (map key_hash ks)\<rparr>"

definition new_service :: "bool \<Rightarrow> string list \<Rightarrow> (string \<Rightarrow> storage_error + api_key) option \<Rightarrow> auth_service" where
  "new_service on ks keys = set_static_keys ks \<lparr>sv_enabled = on, sv_static = [], sv_keys = keys\<rparr>"

text \<open>The comparison runs over every known hash, or-ing the outcomes.\<close>

definition match_static :: "string \<Rightarrow> auth_service \<Rightarrow> bool" where
  "match_static h sv = (foldl (\<lambda>m known. m \<or> known = h) False (sv_static sv))"

definition key_identity :: "api_key \<Rightarrow> identity" where
  "key_identity k = \<lparr>id_key = ak_id k, id_name = ak_name k, id_rate_limit = ak_rate_limit k,
     id_budget = ak_budget k, id_allowed_models = ak_allowed_models k\<rparr>"

definition authenticate :: "auth_service \<Rightarrow> string \<Rightarrow> (auth_error + identity) \<times> string option" where
  "authenticate sv raw =
     (if \<not> sv_enabled sv then (Inr (named_identity ''anonymous''), None)
      else if raw = [] then (Inl ErrUnauthorized, None)
      else let h = key_hash raw in
        if match_static h sv then (Inr (named_identity ''static''), None)
        else (case sv_keys sv of
            None \<Rightarrow> (Inl ErrUnauthorized, None)
          | Some get_by_hash \<Rightarrow> (case get_by_hash h of
                Inl _ \<Rightarrow> (Inl ErrUnauthorized, None)
              | Inr k \<Rightarrow> if ak_enabled k then (Inr (key_identity k), Some (ak_id k))
                         else (Inl ErrUnauthorized, None))))"

text \<open>The goroutine started for a key writes the last use; a failure is only logged.\<close>

definition touch :: "string \<Rightarrow> instant \<Rightarrow> api_keys \<Rightarrow> api_keys" where
  "touch i now s = snd (keys_touch_last_used i now s)"

definition from_request :: "(string \<Rightarrow> string) \<Rightarrow> string" where
  "from_request header = bearer_token (header ''Authorization'')"

section \<open>The administrative token\<close>

record admin_service =
  ad_enabled :: bool
  ad_token :: string

definition set_token :: "string \<Rightarrow> admin_service \<Rightarrow> admin_service" where
  "set_token t s = s\<lparr>ad_token := t\<rparr>"

definition new_admin_service :: "bool \<Rightarrow> string \<Rightarrow> admin_service" where
  "new_admin_service on t = set_token t \<lparr>ad_enabled = on, ad_token = []\<rparr>"

definition admin_authenticate :: "admin_service \<Rightarrow> string \<Rightarrow> auth_error + identity" where
  "admin_authenticate s raw =
     (if \<not> ad_enabled s then Inl ErrUnauthorized
      else if ad_token s = [] \<or> raw = [] then Inl ErrUnauthorized
      else if ad_token s \<noteq> raw then Inl ErrUnauthorized
      else Inr (named_identity ''admin''))"

section \<open>Generated keys\<close>

definition key_prefix :: string where "key_prefix = ''zr_''"

definition secret_bytes :: nat where "secret_bytes = 32"

definition base62 :: string where
  "base62 = ''0123456789ABCDEFGHIJKLMNOPQRSTUVWXYZabcdefghijklmnopqrstuvwxyz''"

type_synonym 'w entropy = "int \<Rightarrow> 'w \<Rightarrow> int option \<times> 'w"

fun random_base62 :: "'w entropy \<Rightarrow> nat \<Rightarrow> 'w \<Rightarrow> string option \<times> 'w" where
  "random_base62 rand 0 w = (Some [], w)"
| "random_base62 rand (Suc n) w = (case rand (int (length base62)) w of
      (None, w') \<Rightarrow> (None, w')
    | (Some i, w') \<Rightarrow> (case random_base62 rand n w' of
          (None, w'') \<Rightarrow> (None, w'')
        | (Some s, w'') \<Rightarrow> (Some (base62 ! nat i # s), w'')))"

definition generate_key :: "'w entropy \<Rightarrow> instant \<Rightarrow> string \<Rightarrow> 'w \<Rightarrow> (string \<times> api_key) option \<times> 'w" where
  "generate_key rand now n w = (case random_base62 rand secret_bytes w of
      (None, w') \<Rightarrow> (None, w')
    | (Some secret, w') \<Rightarrow> (case random_base62 rand 12 w' of
          (None, w'') \<Rightarrow> (None, w'')
        | (Some i, w'') \<Rightarrow>
            (let raw = key_prefix @ secret
             in (Some (raw, \<lparr>ak_id = i, ak_name = n, ak_hash = key_hash raw, ak_enabled = True,
                   ak_created_at = now, ak_last_used_at = 0, ak_rate_limit = 0, ak_budget = 0,
                   ak_allowed_models = []\<rparr>), w''))))"

section \<open>Who gets in\<close>

lemma match_static_iff: "match_static h sv \<longleftrightarrow> h \<in> set (sv_static sv)"
proof -
  have "foldl (\<lambda>m known. m \<or> known = h) b xs \<longleftrightarrow> b \<or> h \<in> set xs" for b xs
    by (induction xs arbitrary: b) auto
  then show ?thesis by (simp add: match_static_def)
qed

lemma static_of_new [simp]:
  "sv_enabled (new_service on ks keys) = on"
  "set (sv_static (new_service on ks keys)) = key_hash ` set ks"
  "sv_keys (new_service on ks keys) = keys"
  by (simp_all add: new_service_def set_static_keys_def)

lemma reload_replaces_static:
  "match_static h (set_static_keys ks sv) \<longleftrightarrow> h \<in> key_hash ` set ks"
  by (simp add: match_static_iff set_static_keys_def)

text \<open>The complete decision table, for any key store.\<close>

theorem authenticate_decision:
  "authenticate sv raw =
     (if \<not> sv_enabled sv then (Inr (named_identity ''anonymous''), None)
      else if raw = [] then (Inl ErrUnauthorized, None)
      else if key_hash raw \<in> set (sv_static sv) then (Inr (named_identity ''static''), None)
      else (case map_option (\<lambda>get. get (key_hash raw)) (sv_keys sv) of
          Some (Inr k) \<Rightarrow> if ak_enabled k then (Inr (key_identity k), Some (ak_id k))
                          else (Inl ErrUnauthorized, None)
        | _ \<Rightarrow> (Inl ErrUnauthorized, None)))"
  by (auto simp: authenticate_def Let_def match_static_iff split: option.split sum.split)

text \<open>The dashboard fails closed: an unset token admits nobody.\<close>

lemma admin_only_with_token:
  "admin_authenticate s raw = Inr i \<longleftrightarrow>
     ad_enabled s \<and> raw \<noteq> [] \<and> raw = ad_token s \<and> i = named_identity ''admin''"
  by (auto simp: admin_authenticate_def)

lemma token_rotation_revokes:
  "raw \<noteq> t \<Longrightarrow> admin_authenticate (set_token t s) raw = Inl ErrUnauthorized"
  by (simp add: admin_authenticate_def set_token_def)

section \<open>Bearer headers\<close>

lemma bearer_token_round_trip:
  assumes "raw \<noteq> []" and "\<forall>c \<in> set raw. \<not> is_space c" and "equal_fold scheme ''Bearer ''"
  shows "bearer_token (scheme @ raw) = raw"
proof -
  have len: "length scheme = length ''Bearer ''"
    using assms(3) by (metis equal_fold_def length_to_lower)
  have "trim_space raw = raw"
    using assms(1,2) by (intro trim_space_trimmed) (auto simp: hd_in_set)
  with assms(1,3) len show ?thesis
    by (simp add: bearer_token_def)
qed

lemma bearer_token_prefix_only: "bearer_token ''Bearer '' = []" "bearer_token ''Basic abcdef'' = []"
  by code_simp+

section \<open>The life of a generated key\<close>

definition fair_draws :: "'w entropy \<Rightarrow> bool" where
  "fair_draws rand \<longleftrightarrow> (\<forall>n w i w'. 0 < n \<and> rand n w = (Some i, w') \<longrightarrow> 0 \<le> i \<and> i < n)"

lemma base62_no_space: "c \<in> set base62 \<Longrightarrow> \<not> is_space c"
  by (auto simp: base62_def is_space_def less_eq_char_def)

lemma base62_pos: "0 < int (length base62)"
  by (simp add: base62_def)

lemma random_base62_chars:
  assumes "fair_draws rand"
  shows "random_base62 rand n w = (Some s, w') \<Longrightarrow> length s = n \<and> set s \<subseteq> set base62"
proof (induction n arbitrary: w s)
  case (Suc n)
  from Suc.prems obtain i w1 t where d: "rand (int (length base62)) w = (Some i, w1)"
    "random_base62 rand n w1 = (Some t, w')" "s = base62 ! nat i # t"
    by (auto split: prod.splits option.splits)
  with assms have "0 \<le> i" "i < int (length base62)"
    unfolding fair_draws_def by (metis base62_pos)+
  then have "base62 ! nat i \<in> set base62" by (intro nth_mem) simp
  with d Suc.IH [OF d(2)] show ?case by simp
qed simp

lemma generate_key_props:
  assumes "fair_draws rand" and "generate_key rand now n w = (Some (raw, rec), w')"
  shows "length raw = 35" and "prefix key_prefix raw" and "\<forall>c \<in> set raw. \<not> is_space c"
    and "ak_hash rec = key_hash raw" and "ak_enabled rec" and "ak_name rec = n"
    and "ak_allowed_models rec = []"
proof -
  obtain secret w1 where s: "random_base62 rand secret_bytes w = (Some secret, w1)"
    and raw: "raw = key_prefix @ secret"
    and rec: "ak_hash rec = key_hash raw \<and> ak_enabled rec \<and> ak_name rec = n \<and> ak_allowed_models rec = []"
    using assms(2) by (auto simp: generate_key_def Let_def split: prod.splits option.splits)
  note p = random_base62_chars [OF assms(1) s]
  show "length raw = 35" using p raw by (simp add: key_prefix_def secret_bytes_def)
  show "prefix key_prefix raw" by (simp add: raw)
  have "\<not> is_space c" if "c \<in> set key_prefix" for c
    using that by (auto simp: key_prefix_def is_space_def less_eq_char_def)
  then show "\<forall>c \<in> set raw. \<not> is_space c"
    using p raw base62_no_space by auto
  show "ak_hash rec = key_hash raw" "ak_enabled rec" "ak_name rec = n" "ak_allowed_models rec = []"
    using rec by blast+
qed

lemma vals_put: "set (map_vals (map_put k v m)) \<subseteq> insert v (set (map_vals m))"
  by (induction m) auto

lemma get_by_hash_created:
  assumes "\<forall>k \<in> set (map_vals s). ak_hash k \<noteq> ak_hash rec"
  shows "keys_get_by_hash (ak_hash rec) (keys_create rec s) = Inr rec"
proof -
  let ?vs = "map_vals (map_put (ak_id rec) rec s)"
  have only: "v = rec" if "v \<in> set ?vs" "ak_hash v = ak_hash rec" for v
    using that assms vals_put [of "ak_id rec" rec s] by (metis insertE subset_iff)
  have "map_of (map_put (ak_id rec) rec s) (ak_id rec) = Some rec" by simp
  then have "rec \<in> set ?vs" by (metis map_of_SomeD snd_conv image_eqI list.set_map)
  then obtain v where "find (\<lambda>k. ak_hash k = ak_hash rec) ?vs = Some v"
    by (metis (mono_tags, lifting) find_None_iff not_Some_eq)
  moreover from this have "v = rec" using only by (auto simp: find_Some_iff)
  ultimately show ?thesis by (simp add: keys_get_by_hash_def keys_create_def)
qed

lemma get_by_hash_deleted:
  assumes "\<forall>k \<in> set (map_vals s). ak_hash k \<noteq> ak_hash rec"
  shows "keys_get_by_hash (ak_hash rec) (snd (keys_delete (ak_id rec) (keys_create rec s))) = Inl StorageNotFound"
proof -
  have "map_del (ak_id rec) (map_put (ak_id rec) rec s) = map_del (ak_id rec) s"
    by (rule AList.delete_update_same)
  moreover have "set (map_del (ak_id rec) s) \<subseteq> set s"
    by (auto simp: AList.delete_eq)
  then have "\<forall>k \<in> set (map_vals (map_del (ak_id rec) s)). ak_hash k \<noteq> ak_hash rec"
    using assms(1) by auto
  then have "find (\<lambda>k. ak_hash k = ak_hash rec) (map_vals (map_del (ak_id rec) s)) = None"
    by (simp add: find_None_iff)
  ultimately show ?thesis
    by (simp add: keys_get_by_hash_def keys_create_def keys_delete_def mem_delete_def)
qed

lemma touch_keeps_key:
  assumes "map_of s i = Some k"
  shows "map_of (touch i now s) i = Some (k\<lparr>ak_last_used_at := now\<rparr>)"
  using assms by (simp add: touch_def keys_touch_last_used_def keys_update_def)

text \<open>A login with an \<^verbatim>\<open>Authorization\<close> header, against a store and the static keys.\<close>

definition login :: "string list \<Rightarrow> string \<Rightarrow> api_keys \<Rightarrow> (auth_error + identity) \<times> string option" where
  "login ks header store =
     authenticate (new_service True ks (Some (\<lambda>h. keys_get_by_hash h store))) (bearer_token header)"

text \<open>
  Round trip. A generated key, stored in a store that knows no key of that hash, admits the
  caller who presents it as a bearer token, under any spelling of the scheme: as the identity the
  record describes, free to address every model, with the last use written in the background,
  a write that leaves the key admitting as before. Deleting the record ends the access.
\<close>

theorem generated_key_admits:
  assumes "fair_draws rand" and "generate_key rand now n w = (Some (raw, rec), w')"
    and "key_hash raw \<notin> key_hash ` set ks"
    and "\<forall>k \<in> set (map_vals s). ak_hash k \<noteq> key_hash raw"
    and "equal_fold scheme ''Bearer ''"
  shows "login ks (scheme @ raw) (keys_create rec s) = (Inr (key_identity rec), Some (ak_id rec))
    \<and> id_name (key_identity rec) = n \<and> allows (key_identity rec) m
    \<and> fst (login ks (scheme @ raw) (touch (ak_id rec) later (keys_create rec s))) = Inr (key_identity rec)
    \<and> login ks (scheme @ raw) (snd (keys_delete (ak_id rec) (keys_create rec s))) = (Inl ErrUnauthorized, None)"
proof (intro conjI)
  note p = generate_key_props [OF assms(1,2)]
  have raw: "raw \<noteq> []" using p(1) by auto
  have tok: "bearer_token (scheme @ raw) = raw"
    by (rule bearer_token_round_trip [OF raw p(3) assms(5)])
  have fresh: "\<forall>k \<in> set (map_vals s). ak_hash k \<noteq> ak_hash rec"
    using assms(4) p(4) by simp
  let ?rec = "rec\<lparr>ak_last_used_at := later\<rparr>"
  have touched: "touch (ak_id rec) later (keys_create rec s) = keys_create ?rec s"
    by (simp add: touch_def keys_touch_last_used_def keys_update_def keys_create_def)
  show "login ks (scheme @ raw) (keys_create rec s) = (Inr (key_identity rec), Some (ak_id rec))"
    using get_by_hash_created [OF fresh] p(4,5) raw assms(3)
    by (simp add: login_def tok authenticate_decision)
  show "id_name (key_identity rec) = n" "allows (key_identity rec) m"
    by (simp_all add: key_identity_def allows_def p)
  show "fst (login ks (scheme @ raw) (touch (ak_id rec) later (keys_create rec s))) = Inr (key_identity rec)"
    using get_by_hash_created [of s ?rec] fresh p(4,5) raw assms(3)
    by (simp add: login_def tok authenticate_decision touched key_identity_def)
  show "login ks (scheme @ raw) (snd (keys_delete (ak_id rec) (keys_create rec s))) = (Inl ErrUnauthorized, None)"
    using get_by_hash_deleted [OF fresh] p(4) raw assms(3)
    by (simp add: login_def tok authenticate_decision)
qed

definition example_rand :: "nat entropy" where
  "example_rand n w = (Some (int w mod n), w + 1)"

lemma example_rand_fair: "fair_draws example_rand"
  by (auto simp: fair_draws_def example_rand_def)

lemma example_rand_total: "\<exists>s w'. random_base62 example_rand n w = (Some s, w')"
proof (induction n arbitrary: w)
  case (Suc n)
  obtain s w' where "random_base62 example_rand n (w + 1) = (Some s, w')" using Suc by blast
  moreover have "\<exists>i. example_rand (int (length base62)) w = (Some i, w + 1)"
    by (simp add: example_rand_def)
  ultimately show ?case by auto
qed simp

theorem generated_key_admits_witness:
  "\<exists>raw rec w'. generate_key example_rand 5 ''ci'' 0 = (Some (raw, rec), w')
     \<and> authenticate (new_service True [] (Some (\<lambda>h. keys_get_by_hash h (keys_create rec []))))
         (bearer_token (''bearer '' @ raw)) = (Inr (key_identity rec), Some (ak_id rec))"
proof -
  obtain secret w1 where "random_base62 example_rand secret_bytes 0 = (Some secret, w1)"
    using example_rand_total by blast
  moreover obtain i w2 where "random_base62 example_rand 12 w1 = (Some i, w2)"
    using example_rand_total by blast
  ultimately obtain raw rec where g: "generate_key example_rand 5 ''ci'' 0 = (Some (raw, rec), w2)"
    by (simp add: generate_key_def Let_def)
  have "equal_fold ''bearer '' ''Bearer ''" by code_simp
  from generated_key_admits [OF example_rand_fair g, of "[]" "[]", simplified, OF this, THEN conjunct1]
  show ?thesis using g unfolding login_def by blast
qed

end
