(* ===== verification/Quota.thy ===== *)
theory Quota
  imports Authentication
begin

text \<open>
  Per-key quotas (\<^verbatim>\<open>internal/auth/quota.go\<close>): a sliding minute of admitted requests per key, and
  a cached monthly spend. Every lock section is one step; the two readings of the clock in a
  call of \<^verbatim>\<open>Allow\<close> are two arguments. The spend query of the usage store is an argument too,
  \<open>None\<close> standing for an error or the read time-out. Calendar months are computed as Go's
  \<^verbatim>\<open>time\<close> package does, from the proleptic Gregorian calendar.
\<close>

section \<open>The calendar\<close>

definition day :: duration where "day = 24 * 60 * minute"

definition is_leap :: "int \<Rightarrow> bool" where
  "is_leap y \<longleftrightarrow> y mod 4 = 0 \<and> (y mod 100 \<noteq> 0 \<or> y mod 400 = 0)"

text \<open>Days before the first of January, and before the first of each month.\<close>

definition year_day :: "int \<Rightarrow> int" where
  "year_day y = 365 * (y - 1) + (y - 1) div 4 - (y - 1) div 100 + (y - 1) div 400"

definition month_days :: "int \<Rightarrow> int list" where
  "month_days y = (let l = (if is_leap y then 1 else 0) in
     [0, 31, 59 + l, 90 + l, 120 + l, 151 + l, 181 + l, 212 + l, 243 + l, 273 + l, 304 + l, 334 + l])"

text \<open>The year of a day number: 400-, 100-, 4- and 1-year cycles are split off in turn.\<close>

definition year_of :: "int \<Rightarrow> int" where
  "year_of d =
     (let a = d div 146097; d1 = d mod 146097;
          b = d1 div 36524 - d1 div 36524 div 4; d2 = d1 - 36524 * b;
          c = d2 div 1461; d3 = d2 mod 1461;
          e = d3 div 365 - d3 div 365 div 4
      in 400 * a + 100 * b + 4 * c + e + 1)"

definition month_start :: "instant \<Rightarrow> instant" where
  "month_start t =
     (let d = t div day; y = year_of d; yd = d - year_day y
      in day * (year_day y + last (filter (\<lambda>m. m \<le> yd) (month_days y))))"

section \<open>State\<close>

datatype quota_error = ErrRateLimited | ErrBudgetExceeded

record spend =
  sp_usd :: rat
  sp_refreshed :: instant

record quota =
  qt_windows :: "(string, instant list) gomap"
  qt_spending :: "(string, spend) gomap"

definition spend_ttl :: duration where "spend_ttl = 30 * second"

definition new_quota :: quota where
  "new_quota = \<lparr>qt_windows = [], qt_spending = []\<rparr>"

section \<open>Operations\<close>

definition window_of :: "string \<Rightarrow> quota \<Rightarrow> instant list" where
  "window_of k q = (case map_of (qt_windows q) k of None \<Rightarrow> [] | Some w \<Rightarrow> w)"

definition take_slot :: "string \<Rightarrow> int \<Rightarrow> instant \<Rightarrow> quota \<Rightarrow> (bool \<times> int) \<times> quota" where
  "take_slot k limit now q =
     (let cutoff = now - minute;
          hits = dropWhile (\<lambda>h. \<not> h > cutoff) (window_of k q)
      in if int (length hits) \<ge> limit
         then ((False, 0), q\<lparr>qt_windows := map_put k hits (qt_windows q)\<rparr>)
         else ((True, limit - int (length (hits @ [now]))),
               q\<lparr>qt_windows := map_put k (hits @ [now]) (qt_windows q)\<rparr>))"

definition spent_this_month ::
    "(string \<Rightarrow> instant \<Rightarrow> rat option) \<Rightarrow> string \<Rightarrow> instant \<Rightarrow> quota \<Rightarrow> rat \<times> quota" where
  "spent_this_month key_spend k now q =
     (case map_of (qt_spending q) k of
        Some s \<Rightarrow> if now - sp_refreshed s < spend_ttl then (sp_usd s, q)
          else (case key_spend k (month_start now) of
              None \<Rightarrow> (0, q)
            | Some usd \<Rightarrow> (usd, q\<lparr>qt_spending := map_put k \<lparr>sp_usd = usd, sp_refreshed = now\<rparr> (qt_spending q)\<rparr>))
      | None \<Rightarrow> (case key_spend k (month_start now) of
              None \<Rightarrow> (0, q)
            | Some usd \<Rightarrow> (usd, q\<lparr>qt_spending := map_put k \<lparr>sp_usd = usd, sp_refreshed = now\<rparr> (qt_spending q)\<rparr>)))"

definition unmetered :: "identity \<Rightarrow> bool" where
  "unmetered i \<longleftrightarrow> id_key i = [] \<or> id_key i = ''static'' \<or> id_key i = ''anonymous''"

text \<open>\<^verbatim>\<open>Allow\<close>, on a quota that may be nil and a usage store that may be nil.\<close>

definition quota_allow ::
    "(string \<Rightarrow> instant \<Rightarrow> rat option) option \<Rightarrow> identity \<Rightarrow> instant \<Rightarrow> instant \<Rightarrow> quota option
       \<Rightarrow> (int \<times> quota_error option) \<times> quota option" where
  "quota_allow usage i now now' q0 = (case q0 of
      None \<Rightarrow> ((0, None), None)
    | Some q \<Rightarrow>
        if unmetered i then ((0, None), Some q)
        else
          let ((ok, left), q1) = (if id_rate_limit i > 0 then take_slot (id_key i) (id_rate_limit i) now q
                                  else ((True, 0), q))
          in if \<not> ok then ((0, Some ErrRateLimited), Some q1)
             else (case usage of
                 None \<Rightarrow> ((left, None), Some q1)
               | Some key_spend \<Rightarrow>
                   if id_budget i > 0 then
                     let (spent, q2) = spent_this_month key_spend (id_key i) now' q1
                     in if spent \<ge> id_budget i then ((left, Some ErrBudgetExceeded), Some q2)
                        else ((left, None), Some q2)
                   else ((left, None), Some q1)))"

definition forget :: "string \<Rightarrow> quota option \<Rightarrow> quota option" where
  "forget k q0 = (case q0 of None \<Rightarrow> None
     | Some q \<Rightarrow> Some (q\<lparr>qt_windows := map_del k (qt_windows q), qt_spending := map_del k (qt_spending q)\<rparr>))"

section \<open>The sliding minute\<close>

lemma dropWhile_sorted:
  "sorted xs \<Longrightarrow> dropWhile (\<lambda>h. \<not> h > c) xs = filter (\<lambda>h. h > c) xs" for c :: int
proof (induction xs)
  case (Cons x xs)
  then have "c < x \<Longrightarrow> filter (\<lambda>h. h > c) xs = xs" by (auto simp: filter_id_conv)
  with Cons show ?case by simp
qed simp

lemma window_take_slot:
  "window_of k' (snd (take_slot k limit now q)) =
     (if k' = k then
        (let hits = dropWhile (\<lambda>h. \<not> h > now - minute) (window_of k q)
         in if int (length hits) \<ge> limit then hits else hits @ [now])
      else window_of k' q)"
  by (simp add: take_slot_def window_of_def Let_def)

lemma take_slot_ok:
  "fst (fst (take_slot k limit now q)) \<longleftrightarrow>
     int (length (dropWhile (\<lambda>h. \<not> h > now - minute) (window_of k q))) < limit"
  by (simp add: take_slot_def Let_def not_le)

text \<open>Requests of any keys, in the order in which they take the lock, each with the clock reading
  it brought, and the decisions they meet.\<close>

type_synonym decision = "string \<times> instant \<times> bool"

fun slot_run :: "(string \<Rightarrow> int) \<Rightarrow> (string \<times> instant) list \<Rightarrow> quota \<Rightarrow> decision list" where
  "slot_run cap [] q = []"
| "slot_run cap ((k, t) # es) q =
     (case take_slot k (cap k) t q of ((ok, left), q') \<Rightarrow> (k, t, ok) # slot_run cap es q')"

definition admitted :: "string \<Rightarrow> decision list \<Rightarrow> instant list" where
  "admitted k h = map (\<lambda>(k', t, ok). t) (filter (\<lambda>(k', t, ok). k' = k \<and> ok) h)"

text \<open>The specification: a request fits when fewer than the limit of its key's requests were
  admitted in the minute before it, counted over the whole history.\<close>

fun ideal_run :: "(string \<Rightarrow> int) \<Rightarrow> (string \<times> instant) list \<Rightarrow> decision list \<Rightarrow> decision list" where
  "ideal_run cap [] h = []"
| "ideal_run cap ((k, t) # es) h =
     (let d = (k, t, int (length (filter (\<lambda>s. t - minute < s) (admitted k h))) < cap k)
      in d # ideal_run cap es (h @ [d]))"

lemma admitted_snoc:
  "admitted k (h @ [(k', t, ok)]) = admitted k h @ (if k' = k \<and> ok then [t] else [])"
  by (simp add: admitted_def)

definition window_inv :: "instant \<Rightarrow> quota \<Rightarrow> decision list \<Rightarrow> bool" where
  "window_inv since_last q h \<longleftrightarrow> (\<forall>k. sorted (window_of k q) \<and> (\<forall>s \<in> set (window_of k q). s \<le> since_last)
     \<and> (\<forall>c \<ge> since_last - minute. filter (\<lambda>s. c < s) (window_of k q) = filter (\<lambda>s. c < s) (admitted k h)))"

lemma window_inv_step:
  assumes inv: "window_inv since_last q h" and le: "since_last \<le> t"
    and step: "take_slot k (cap k) t q = ((ok, left), q')"
  shows "ok \<longleftrightarrow> int (length (filter (\<lambda>s. t - minute < s) (admitted k h))) < cap k"
    and "window_inv t q' (h @ [(k, t, ok)])"
proof -
  let ?w = "filter (\<lambda>s. t - minute < s) (window_of k q)"
  have w: "sorted (window_of k q)" "\<forall>s \<in> set (window_of k q). s \<le> since_last"
    "\<And>k c. since_last - minute \<le> c \<Longrightarrow>
       filter (\<lambda>s. c < s) (window_of k q) = filter (\<lambda>s. c < s) (admitted k h)"
    using inv by (auto simp: window_inv_def)
  have drop: "dropWhile (\<lambda>h. \<not> h > t - minute) (window_of k q) = ?w"
    using w(1) by (rule dropWhile_sorted)
  have eq: "?w = filter (\<lambda>s. t - minute < s) (admitted k h)"
    using le by (intro w(3)) simp
  show ok: "ok \<longleftrightarrow> int (length (filter (\<lambda>s. t - minute < s) (admitted k h))) < cap k"
    using take_slot_ok [of k "cap k" t q] step by (simp only: drop eq fst_conv)
  have new: "window_of k' q' = (if k' = k then (if ok then ?w @ [t] else ?w) else window_of k' q)" for k'
    using window_take_slot [of k' k "cap k" t q] step ok by (simp add: drop eq Let_def not_le)
  have old: "sorted (window_of j q) \<and> (\<forall>s \<in> set (window_of j q). s \<le> t)" for j
    using inv le unfolding window_inv_def by (meson order_trans)
  have "sorted ?w \<and> (\<forall>s \<in> set ?w. s \<le> t)"
    using old by (auto simp: sorted_wrt_filter)
  with old have "sorted (window_of k' q') \<and> (\<forall>s \<in> set (window_of k' q'). s \<le> t)" for k'
    unfolding new by (auto simp: sorted_append)
  moreover have "filter (\<lambda>s. c < s) (window_of k' q') =
      filter (\<lambda>s. c < s) (admitted k' (h @ [(k, t, ok)]))" if "t - minute \<le> c" for k' c
  proof -
    have "filter (\<lambda>s. c < s) (window_of k' q) = filter (\<lambda>s. c < s) (admitted k' h)"
      using that le by (intro w(3)) simp
    moreover have "filter (\<lambda>s. c < s) ?w = filter (\<lambda>s. c < s) (window_of k q)"
      using that by (auto intro: filter_cong)
    ultimately show ?thesis by (auto simp: new admitted_snoc)
  qed
  ultimately show "window_inv t q' (h @ [(k, t, ok)])" by (simp add: window_inv_def)
qed

lemma slot_run_ideal:
  "window_inv since_last q h \<Longrightarrow> sorted (map snd es) \<Longrightarrow> (\<forall>e \<in> set es. since_last \<le> snd e) \<Longrightarrow>
     slot_run cap es q = ideal_run cap es h"
proof (induction es arbitrary: since_last q h)
  case (Cons e es)
  obtain k t where e: "e = (k, t)" by force
  obtain ok left q' where step: "take_slot k (cap k) t q = ((ok, left), q')"
    by (metis prod.collapse)
  note s = window_inv_step [where cap = cap, OF Cons.prems(1) _ step]
  have "slot_run cap es q' = ideal_run cap es (h @ [(k, t, ok)])"
    using Cons.prems e by (intro Cons.IH [of t]) (auto intro: s(2))
  moreover have "ok \<longleftrightarrow> int (length (filter (\<lambda>s. t - minute < s) (admitted k h))) < cap k"
    using Cons.prems e by (intro s(1)) simp
  ultimately show ?case by (simp add: e step Let_def)
qed simp

lemma window_inv_new: "window_inv since_last new_quota []"
  by (simp add: window_inv_def new_quota_def window_of_def admitted_def)

text \<open>What the specification promises of every stretch of a minute.\<close>

definition within_limits :: "(string \<Rightarrow> int) \<Rightarrow> decision list \<Rightarrow> bool" where
  "within_limits cap h \<longleftrightarrow>
     (\<forall>k t. int (length (filter (\<lambda>s. t - minute < s \<and> s \<le> t) (admitted k h))) \<le> cap k)"

lemma filter_length_mono:
  "(\<And>x. P x \<Longrightarrow> Q x) \<Longrightarrow> length (filter P xs) \<le> length (filter Q xs)"
  by (induction xs) auto

lemma within_limits_step:
  assumes "within_limits cap h"
    and "ok \<longleftrightarrow> int (length (filter (\<lambda>s. t - minute < s) (admitted k h))) < cap k"
  shows "within_limits cap (h @ [(k, t, ok)])"
proof -
  have "int (length (filter (\<lambda>s. u - minute < s \<and> s \<le> u) (admitted k h @ [t]))) \<le> cap k"
    if ok and "t \<le> u" for u
  proof -
    have "length (filter (\<lambda>s. u - minute < s \<and> s \<le> u) (admitted k h))
        \<le> length (filter (\<lambda>s. t - minute < s) (admitted k h))"
      using that(2) by (intro filter_length_mono) auto
    with assms(2) that show ?thesis by auto
  qed
  with assms(1) show ?thesis
    by (fastforce simp: within_limits_def admitted_snoc)
qed

lemma ideal_run_within:
  "within_limits cap h \<Longrightarrow> within_limits cap (h @ ideal_run cap es h)"
proof (induction es arbitrary: h)
  case (Cons e es)
  obtain k t where e: "e = (k, t)" by force
  let ?d = "(k, t, int (length (filter (\<lambda>s. t - minute < s) (admitted k h))) < cap k)"
  from Cons.IH [OF within_limits_step [OF Cons.prems, of _ t k]] show ?case
    by (simp add: e Let_def)
qed simp

text \<open>
  C22. The rolling minute is exact. Whatever keys make requests and in whatever order, as long as
  the clock readings are taken in that order, \<open>take_slot\<close> admits a request exactly when fewer than
  the limit of its key's requests were admitted in the minute before it, counted over the
  entire history; so no stretch of a minute, wherever it starts, ever holds more admitted
  requests of a key than its limit, and one key's requests never cost another a slot.
\<close>

theorem rolling_minute_exact:
  assumes "sorted (map snd es)" and "\<forall>k. 0 \<le> cap k"
  shows "slot_run cap es new_quota = ideal_run cap es []
    \<and> within_limits cap (slot_run cap es new_quota)"
proof -
  have "\<forall>e \<in> set es. Min (snd ` set es) \<le> snd e" by simp
  then have eq: "slot_run cap es new_quota = ideal_run cap es []"
    using assms(1) window_inv_new by (intro slot_run_ideal)
  have "within_limits cap []"
    using assms(2) by (simp add: within_limits_def admitted_def)
  then show ?thesis using ideal_run_within [of cap "[]" es] eq by simp
qed

theorem rolling_minute_exact_witness:
  "within_limits (\<lambda>_. 2) (slot_run (\<lambda>_. 2)
     [(''a'', 0), (''a'', 1), (''b'', 2), (''a'', 3), (''a'', 2 * minute)] new_quota)"
  by (rule conjunct2 [OF rolling_minute_exact]) (simp_all add: minute_def second_def millisecond_def)

text \<open>The reading of the clock is not inside the lock, so two calls may append out of order. Then an
  expired hit can hide behind a later one: with a limit of two, the third request is refused although
  only one was admitted in the minute before it.\<close>

lemma late_hit_lingers:
  "slot_run (\<lambda>_. 2) [(''a'', 10 * second), (''a'', 0), (''a'', 65 * second)] new_quota
     = [(''a'', 10 * second, True), (''a'', 0, True), (''a'', 65 * second, False)]"
  "ideal_run (\<lambda>_. 2) [(''a'', 10 * second), (''a'', 0), (''a'', 65 * second)] []
     = [(''a'', 10 * second, True), (''a'', 0, True), (''a'', 65 * second, True)]"
  by code_simp+

section \<open>The cached spend\<close>

text \<open>Readings of one key's spend at successive instants, each with the store's answers then.\<close>

fun spend_run :: "string \<Rightarrow> (instant \<times> (string \<Rightarrow> instant \<Rightarrow> rat option)) list \<Rightarrow> quota \<Rightarrow> rat list" where
  "spend_run k [] q = []"
| "spend_run k ((t, store) # es) q =
     (case spent_this_month store k t q of (v, q') \<Rightarrow> v # spend_run k es q')"

definition read_at :: "string \<Rightarrow> instant \<times> (string \<Rightarrow> instant \<Rightarrow> rat option) \<Rightarrow> rat option" where
  "read_at k e = snd e k (month_start (fst e))"

definition spend_inv :: "string \<Rightarrow> quota \<Rightarrow> (instant \<times> (string \<Rightarrow> instant \<Rightarrow> rat option)) list \<Rightarrow> bool" where
  "spend_inv k q past \<longleftrightarrow> (\<forall>s. map_of (qt_spending q) k = Some s \<longrightarrow>
     (\<exists>e \<in> set past. fst e = sp_refreshed s \<and> read_at k e = Some (sp_usd s)))"

lemma spend_step:
  assumes "spend_inv k q past" and "spent_this_month store k t q = (v, q')"
  shows "spend_inv k q' (past @ [(t, store)])"
    and "v = 0 \<and> read_at k (t, store) = None
      \<or> (\<exists>e \<in> set (past @ [(t, store)]). t - fst e < spend_ttl \<and> read_at k e = Some v)"
proof -
  have ttl: "0 < spend_ttl" by (simp add: spend_ttl_def)
  have "spend_inv k q' (past @ [(t, store)]) \<and> (v = 0 \<and> read_at k (t, store) = None
      \<or> (\<exists>e \<in> set (past @ [(t, store)]). t - fst e < spend_ttl \<and> read_at k e = Some v))"
  proof (cases "\<exists>s. map_of (qt_spending q) k = Some s \<and> t - sp_refreshed s < spend_ttl")
    case True
    then obtain s where s: "map_of (qt_spending q) k = Some s" "t - sp_refreshed s < spend_ttl" by blast
    with assms(1) obtain e where "e \<in> set past" "fst e = sp_refreshed s" "read_at k e = Some (sp_usd s)"
      by (auto simp: spend_inv_def)
    moreover have "v = sp_usd s" "q' = q" using assms(2) s by (auto simp: spent_this_month_def)
    ultimately show ?thesis using assms(1) s by (auto simp: spend_inv_def)
  next
    case False
    then have "spent_this_month store k t q = (case read_at k (t, store) of
        None \<Rightarrow> (0, q)
      | Some usd \<Rightarrow> (usd, q\<lparr>qt_spending := map_put k \<lparr>sp_usd = usd, sp_refreshed = t\<rparr> (qt_spending q)\<rparr>))"
      by (auto simp: spent_this_month_def read_at_def split: option.split)
    with assms ttl show ?thesis
      by (auto simp: spend_inv_def split: option.splits)
  qed
  then show "spend_inv k q' (past @ [(t, store)])"
    and "v = 0 \<and> read_at k (t, store) = None
      \<or> (\<exists>e \<in> set (past @ [(t, store)]). t - fst e < spend_ttl \<and> read_at k e = Some v)" by blast+
qed

text \<open>
  A stale spend is at most thirty seconds old. Along any readings of a key's spend, in any
  order, each answer is either a figure the usage log itself reported, for the month of its own
  reading, no thirty seconds or more before, or it is zero and the log could not be read at that
  moment.
\<close>

theorem spend_is_fresh:
  "\<forall>i < length es. let v = spend_run k es new_quota ! i in
     v = 0 \<and> read_at k (es ! i) = None
     \<or> (\<exists>j \<le> i. fst (es ! i) - fst (es ! j) < spend_ttl \<and> read_at k (es ! j) = Some v)"
proof -
  have "spend_inv k q past \<Longrightarrow> i < length es \<Longrightarrow>
      (let v = spend_run k es q ! i in v = 0 \<and> read_at k (es ! i) = None
      \<or> (\<exists>e \<in> set (past @ take (Suc i) es). fst (es ! i) - fst e < spend_ttl \<and> read_at k e = Some v))"
    for q past i
  proof (induction es arbitrary: q past i)
    case (Cons e es)
    obtain t store where e: "e = (t, store)" by force
    obtain v q' where step: "spent_this_month store k t q = (v, q')" by force
    note s = spend_step [OF Cons.prems(1) step]
    show ?case
    proof (cases i)
      case 0
      then show ?thesis using s(2) by (simp add: e step)
    next
      case (Suc j)
      then show ?thesis using Cons.IH [OF s(1), of j] Cons.prems(2) by (simp add: e step)
    qed
  qed simp
  moreover have "spend_inv k new_quota []" by (simp add: spend_inv_def new_quota_def)
  ultimately have *: "i < length es \<Longrightarrow> (let v = spend_run k es new_quota ! i in v = 0 \<and> read_at k (es ! i) = None
      \<or> (\<exists>e \<in> set (take (Suc i) es). fst (es ! i) - fst e < spend_ttl \<and> read_at k e = Some v))" for i
    by fastforce
  have mem: "e \<in> set (take (Suc i) es) \<Longrightarrow> \<exists>j \<le> i. e = es ! j" for e i
    by (auto simp: in_set_conv_nth less_Suc_eq_le)
  show ?thesis using * mem unfolding Let_def by blast
qed

text \<open>Two readings ten seconds apart, of which only the first finds the log readable.\<close>

definition example_reads :: "(instant \<times> (string \<Rightarrow> instant \<Rightarrow> rat option)) list" where
  "example_reads = [(0, \<lambda>k since. Some 5), (10 * second, \<lambda>k since. None)]"

theorem spend_is_fresh_witness:
  "\<exists>j \<le> 1. fst (example_reads ! 1) - fst (example_reads ! j) < spend_ttl
     \<and> read_at ''k'' (example_reads ! j) = Some (spend_run ''k'' example_reads new_quota ! 1)"
proof -
  have "spend_run ''k'' example_reads new_quota ! 1 = 5" by code_simp
  then show ?thesis using spend_is_fresh [of example_reads "''k''"] by (force simp: example_reads_def Let_def)
qed

section \<open>The whole check\<close>

lemma quota_allow_unmetered: "unmetered i \<Longrightarrow> quota_allow usage i t t' q = ((0, None), q)"
  by (simp add: quota_allow_def split: option.split)

text \<open>A request refused for its rate never reads the usage log and leaves the spend cache alone.\<close>

lemma rate_before_budget:
  assumes "quota_allow usage i t t' (Some q) = ((left, Some ErrRateLimited), q')"
  shows "map_option qt_spending q' = Some (qt_spending q)"
  using assms by (auto simp: quota_allow_def take_slot_def Let_def split: prod.splits if_splits option.splits)

lemma forget_clears:
  assumes "forget k (Some q) = Some q'"
  shows "window_of k q' = []" and "map_of (qt_spending q') k = None"
    and "k' \<noteq> k \<Longrightarrow> window_of k' q' = window_of k' q"
  using assms by (auto simp: forget_def window_of_def)

section \<open>Months\<close>

lemma cycle_split:
  fixes d1 :: int
  assumes "0 \<le> d1" and "d1 < 4 * n + 1" and "0 < n"
  defines "b \<equiv> d1 div n - d1 div n div 4"
  shows "0 \<le> b" and "b \<le> 3" and "0 \<le> d1 - n * b" and "b < 3 \<Longrightarrow> d1 - n * b < n" and "d1 - n * b \<le> n"
proof -
  let ?q = "d1 div n"
  have q: "n * ?q + d1 mod n = d1" "0 \<le> d1 mod n" "d1 mod n < n" "0 \<le> ?q"
    using assms by (auto simp: pos_imp_zdiv_nonneg_iff)
  have "?q \<le> 4"
  proof (rule ccontr)
    assume "\<not> ?q \<le> 4"
    then have "n * 5 \<le> n * ?q" using assms(3) by (intro mult_left_mono) auto
    with q assms(2,3) show False by linarith
  qed
  then consider "?q \<le> 3" | "?q = 4" using q(4) by linarith
  then have "0 \<le> b \<and> b \<le> 3 \<and> 0 \<le> d1 - n * b \<and> (b < 3 \<longrightarrow> d1 - n * b < n) \<and> d1 - n * b \<le> n"
  proof cases
    case 1
    then have "b = ?q" using q(4) by (simp add: b_def)
    moreover have "d1 - n * ?q = d1 mod n" using q(1) by linarith
    ultimately have "d1 - n * b = d1 mod n" "b \<le> 3" "0 \<le> b" using 1 q(4) by auto
    then show ?thesis using q(2,3) by auto
  next
    case 2
    then have "b = 3" by (simp add: b_def)
    moreover have "d1 mod n = 0" using 2 q assms(2) by simp
    ultimately show ?thesis using 2 q(1) assms(3) by simp
  qed
  then show "0 \<le> b" "b \<le> 3" "0 \<le> d1 - n * b" "b < 3 \<Longrightarrow> d1 - n * b < n" "d1 - n * b \<le> n" by blast+
qed

lemma year_day_cycles:
  assumes "0 \<le> b" "b \<le> 3" "0 \<le> c" "c \<le> 24" "0 \<le> e" "e \<le> 3"
  shows "year_day (400 * a + 100 * b + 4 * c + e + 1) = 146097 * a + 36524 * b + 1461 * c + 365 * e"
proof -
  have div: "(n * q + r) div n = q" if "0 \<le> r" "r < n" for n q r :: int
    using that by simp
  have "(400 * a + 100 * b + 4 * c + e) div 4 = 100 * a + 25 * b + c"
    using div [of e 4 "100 * a + 25 * b + c"] assms by (simp add: algebra_simps)
  moreover have "(400 * a + 100 * b + 4 * c + e) div 100 = 4 * a + b"
    using div [of "4 * c + e" 100 "4 * a + b"] assms by (simp add: algebra_simps)
  moreover have "(400 * a + 100 * b + 4 * c + e) div 400 = a"
    using div [of "100 * b + 4 * c + e" 400 a] assms by (simp add: algebra_simps)
  ultimately show ?thesis by (simp add: year_day_def)
qed

lemma year_of_bounds: "year_day (year_of d) \<le> d" "d - year_day (year_of d) \<le> 365"
proof -
  define a where "a = d div 146097"
  define d1 where "d1 = d mod 146097"
  define b where "b = d1 div 36524 - d1 div 36524 div 4"
  define d2 where "d2 = d1 - 36524 * b"
  define c where "c = d2 div 1461"
  define d3 where "d3 = d2 mod 1461"
  define e where "e = d3 div 365 - d3 div 365 div 4"
  have y: "year_of d = 400 * a + 100 * b + 4 * c + e + 1"
    unfolding year_of_def Let_def a_def e_def d3_def c_def d2_def b_def d1_def by (rule refl)
  have d1: "0 \<le> d1" "d1 < 4 * 36524 + 1" by (simp_all add: d1_def)
  note b = cycle_split [OF d1, folded b_def d2_def, simplified]
  have c: "0 \<le> c" "c \<le> 24"
    using b(3,5) by (simp_all add: c_def pos_imp_zdiv_nonneg_iff)
  have d3: "0 \<le> d3" "d3 < 4 * 365 + 1" by (simp_all add: d3_def)
  note e = cycle_split [OF d3, folded e_def, simplified]
  have "d = 146097 * a + d1" "d1 = 36524 * b + d2" "d2 = 1461 * c + d3"
    unfolding a_def d1_def d2_def c_def d3_def by (simp_all only: mult_div_mod_eq diff_add_cancel add_diff_cancel_left' le_add_diff_inverse add_diff_eq)
  moreover have "year_day (year_of d) = 146097 * a + 36524 * b + 1461 * c + 365 * e"
    unfolding y using b c e by (intro year_day_cycles)
  ultimately have "d - year_day (year_of d) = d3 - 365 * e" by linarith
  with e show "year_day (year_of d) \<le> d" "d - year_day (year_of d) \<le> 365" by linarith+
qed

lemma last_filter_le:
  fixes v :: int
  assumes "xs \<noteq> []" and "hd xs \<le> v" and "v < last xs + g" and "sorted xs"
    and "successively (\<lambda>a b. b - a \<le> g) xs"
  shows "last (filter (\<lambda>m. m \<le> v) xs) \<le> v \<and> v < last (filter (\<lambda>m. m \<le> v) xs) + g"
  using assms
proof (induction xs rule: induct_list012)
  case (3 x y ys)
  show ?case
  proof (cases "y \<le> v")
    case True
    have "last (filter (\<lambda>m. m \<le> v) (x # y # ys)) = last (filter (\<lambda>m. m \<le> v) (y # ys))"
      using True 3(4) by simp
    then show ?thesis using 3 True by (simp del: filter.simps)
  next
    case False
    with 3 have "filter (\<lambda>m. m \<le> v) (y # ys) = []" by (auto simp: filter_empty_conv)
    with 3 False show ?thesis by simp
  qed
qed auto

text \<open>The month of a budget starts at or before the instant, at a day boundary, and less than 32 days
  before it.\<close>

lemma month_start_bounds:
  "month_start t \<le> t" "t < month_start t + 32 * day" "month_start t mod day = 0"
proof -
  let ?d = "t div day" let ?y = "year_of ?d" let ?yd = "?d - year_day ?y"
  have yd: "0 \<le> ?yd" "?yd \<le> 365" using year_of_bounds [of ?d] by linarith+
  let ?m = "last (filter (\<lambda>m. m \<le> ?yd) (month_days ?y))"
  have "?m \<le> ?yd \<and> ?yd < ?m + 32"
    using last_filter_le [of "month_days ?y" 32 ?yd] yd
    by (cases "is_leap ?y") (simp_all add: month_days_def Let_def)
  moreover have ms: "month_start t = day * (year_day ?y + ?m)" by (simp add: month_start_def Let_def)
  moreover have day: "0 < day" by (simp add: day_def)
  ultimately have "year_day ?y + ?m \<le> ?d \<and> ?d + 1 \<le> year_day ?y + ?m + 32" by linarith
  then have "day * (year_day ?y + ?m) \<le> day * ?d" "day * (?d + 1) \<le> day * (year_day ?y + ?m + 32)"
    using day by (intro mult_left_mono; linarith)+
  moreover have "day * ?d \<le> t" "t < day * (?d + 1)"
    using mult_div_mod_eq [of day t] pos_mod_sign [OF day, of t] pos_mod_bound [OF day, of t]
    unfolding distrib_left by linarith+
  ultimately show "month_start t \<le> t" "t < month_start t + 32 * day" 
    by (simp_all add: ms algebra_simps)
  show "month_start t mod day = 0" by (simp add: ms)
qed

end
