(* ===== verification/Anthropic_Types.thy ===== *)
theory Anthropic_Types
  imports Openai_Types
begin

text \<open>
  The wire types of the Anthropic Messages dialect (\<^verbatim>\<open>pkg/anthropic/types.go\<close>) with their JSON
  decoding and encoding, and \<^verbatim>\<open>SystemText\<close>. The translations of \<^verbatim>\<open>internal/provider\<close> (the upstream
  speaks this dialect) and of \<^verbatim>\<open>internal/api\<close> (the client does) both rest on them. Floating-point
  parameters are kept as the text of the JSON number.
\<close>

section \<open>Types\<close>

record a_source =
  so_type :: string
  so_media_type :: string
  so_data :: string
  so_url :: string

record content_block =
  cb_type :: string
  cb_text :: string
  cb_id :: string
  cb_name :: string
  cb_input :: raw_message
  cb_tool_use_id :: string
  cb_content :: raw_message
  cb_is_error :: bool
  cb_source :: "a_source option"

record a_message =
  am_role :: string
  am_content :: raw_message

record a_tool =
  at_name :: string
  at_description :: string
  at_schema :: raw_message

record tool_choice =
  tc_type :: string
  tc_name :: string

record a_usage =
  au_input :: int
  au_output :: int
  au_cache_read :: int
  au_cache_creation :: int

record a_request =
  aq_model :: string
  aq_messages :: "a_message list"
  aq_system :: raw_message
  aq_max_tokens :: int
  aq_stream :: bool
  aq_temperature :: "string option"
  aq_top_p :: "string option"
  aq_stop_seqs :: "string list"
  aq_tools :: "a_tool list"
  aq_tool_choice :: "tool_choice option"

record a_response =
  ap_id :: string
  ap_type :: string
  ap_role :: string
  ap_model :: string
  ap_content :: "content_block list"
  ap_stop_reason :: "string option"
  ap_stop_seq :: "string option"
  ap_usage :: "a_usage option"

record a_delta =
  ad_type :: string
  ad_text :: string
  ad_partial_json :: string
  ad_stop_reason :: string

record a_event =
  ae_type :: string
  ae_index :: int
  ae_delta :: "a_delta option"
  ae_block :: "content_block option"
  ae_message :: "a_response option"
  ae_usage :: "a_usage option"

definition anthropic_version :: string where "anthropic_version = ''2023-06-01''"

definition zero_usage :: a_usage where
  "zero_usage = \<lparr>au_input = 0, au_output = 0, au_cache_read = 0, au_cache_creation = 0\<rparr>"

definition empty_block :: content_block where
  "empty_block = \<lparr>cb_type = [], cb_text = [], cb_id = [], cb_name = [], cb_input = None,
     cb_tool_use_id = [], cb_content = None, cb_is_error = False, cb_source = None\<rparr>"

section \<open>Decoding\<close>

definition decode_source :: "json \<Rightarrow> a_source option" where
  "decode_source v = do {
     ms \<leftarrow> as_object v;
     t \<leftarrow> string_of ''type'' ms; m \<leftarrow> string_of ''media_type'' ms;
     d \<leftarrow> string_of ''data'' ms; u \<leftarrow> string_of ''url'' ms;
     Some \<lparr>so_type = t, so_media_type = m, so_data = d, so_url = u\<rparr> }"

definition decode_block :: "json \<Rightarrow> content_block option" where
  "decode_block v = do {
     ms \<leftarrow> as_object v;
     t \<leftarrow> string_of ''type'' ms; tx \<leftarrow> string_of ''text'' ms;
     i \<leftarrow> string_of ''id'' ms; n \<leftarrow> string_of ''name'' ms; tu \<leftarrow> string_of ''tool_use_id'' ms;
     e \<leftarrow> field_or False as_bool ''is_error'' ms;
     s \<leftarrow> pointer_field decode_source ''source'' ms;
     Some \<lparr>cb_type = t, cb_text = tx, cb_id = i, cb_name = n, cb_input = raw_of ''input'' ms,
           cb_tool_use_id = tu, cb_content = raw_of ''content'' ms, cb_is_error = e, cb_source = s\<rparr> }"

definition decode_a_message :: "json \<Rightarrow> a_message option" where
  "decode_a_message v = do {
     ms \<leftarrow> as_object v; r \<leftarrow> string_of ''role'' ms;
     Some \<lparr>am_role = r, am_content = raw_of ''content'' ms\<rparr> }"

definition decode_a_tool :: "json \<Rightarrow> a_tool option" where
  "decode_a_tool v = do {
     ms \<leftarrow> as_object v; n \<leftarrow> string_of ''name'' ms; d \<leftarrow> string_of ''description'' ms;
     Some \<lparr>at_name = n, at_description = d, at_schema = raw_of ''input_schema'' ms\<rparr> }"

definition decode_tool_choice :: "json \<Rightarrow> tool_choice option" where
  "decode_tool_choice v = do {
     ms \<leftarrow> as_object v; t \<leftarrow> string_of ''type'' ms; n \<leftarrow> string_of ''name'' ms;
     Some \<lparr>tc_type = t, tc_name = n\<rparr> }"

definition decode_a_usage :: "json \<Rightarrow> a_usage option" where
  "decode_a_usage v = do {
     ms \<leftarrow> as_object v;
     i \<leftarrow> int_of ''input_tokens'' ms; ot \<leftarrow> int_of ''output_tokens'' ms;
     r \<leftarrow> int_of ''cache_read_input_tokens'' ms; c \<leftarrow> int_of ''cache_creation_input_tokens'' ms;
     Some \<lparr>au_input = i, au_output = ot, au_cache_read = r, au_cache_creation = c\<rparr> }"

definition decode_a_request :: "json \<Rightarrow> a_request option" where
  "decode_a_request v = do {
     ms \<leftarrow> as_object v;
     m \<leftarrow> string_of ''model'' ms;
     xs \<leftarrow> slice_field decode_a_message ''messages'' ms;
     mt \<leftarrow> int_of ''max_tokens'' ms;
     st \<leftarrow> field_or False as_bool ''stream'' ms;
     te \<leftarrow> pointer_field as_number ''temperature'' ms;
     tp \<leftarrow> pointer_field as_number ''top_p'' ms;
     ss \<leftarrow> slice_field as_string ''stop_sequences'' ms;
     ts \<leftarrow> slice_field decode_a_tool ''tools'' ms;
     tc \<leftarrow> pointer_field decode_tool_choice ''tool_choice'' ms;
     Some \<lparr>aq_model = m, aq_messages = xs, aq_system = raw_of ''system'' ms, aq_max_tokens = mt,
           aq_stream = st, aq_temperature = te, aq_top_p = tp, aq_stop_seqs = ss, aq_tools = ts,
           aq_tool_choice = tc\<rparr> }"

definition decode_a_response :: "json \<Rightarrow> a_response option" where
  "decode_a_response v = do {
     ms \<leftarrow> as_object v;
     i \<leftarrow> string_of ''id'' ms; t \<leftarrow> string_of ''type'' ms; r \<leftarrow> string_of ''role'' ms;
     m \<leftarrow> string_of ''model'' ms;
     c \<leftarrow> slice_field decode_block ''content'' ms;
     sr \<leftarrow> pointer_field as_string ''stop_reason'' ms;
     sq \<leftarrow> pointer_field as_string ''stop_sequence'' ms;
     u \<leftarrow> pointer_field decode_a_usage ''usage'' ms;
     Some \<lparr>ap_id = i, ap_type = t, ap_role = r, ap_model = m, ap_content = c, ap_stop_reason = sr,
           ap_stop_seq = sq, ap_usage = u\<rparr> }"

definition decode_delta :: "json \<Rightarrow> a_delta option" where
  "decode_delta v = do {
     ms \<leftarrow> as_object v;
     t \<leftarrow> string_of ''type'' ms; x \<leftarrow> string_of ''text'' ms;
     p \<leftarrow> string_of ''partial_json'' ms; s \<leftarrow> string_of ''stop_reason'' ms;
     Some \<lparr>ad_type = t, ad_text = x, ad_partial_json = p, ad_stop_reason = s\<rparr> }"

definition decode_event :: "json \<Rightarrow> a_event option" where
  "decode_event v = do {
     ms \<leftarrow> as_object v;
     t \<leftarrow> string_of ''type'' ms; i \<leftarrow> int_of ''index'' ms;
     d \<leftarrow> pointer_field decode_delta ''delta'' ms;
     b \<leftarrow> pointer_field decode_block ''content_block'' ms;
     m \<leftarrow> pointer_field decode_a_response ''message'' ms;
     u \<leftarrow> pointer_field decode_a_usage ''usage'' ms;
     Some \<lparr>ae_type = t, ae_index = i, ae_delta = d, ae_block = b, ae_message = m, ae_usage = u\<rparr> }"

section \<open>Encoding\<close>

definition encode_source :: "a_source \<Rightarrow> json" where
  "encode_source s = json_object ((''type'', json_of_string (so_type s))
     # omit_empty ''media_type'' (so_media_type s) @ omit_empty ''data'' (so_data s)
     @ omit_empty ''url'' (so_url s))"

definition encode_block :: "content_block \<Rightarrow> json" where
  "encode_block b = json_object ((''type'', json_of_string (cb_type b))
     # omit_empty ''text'' (cb_text b) @ omit_empty ''id'' (cb_id b) @ omit_empty ''name'' (cb_name b)
     @ omit_nil ''input'' (cb_input b) @ omit_empty ''tool_use_id'' (cb_tool_use_id b)
     @ omit_nil ''content'' (cb_content b)
     @ (if cb_is_error b then [(''is_error'', json_of_bool True)] else [])
     @ omit_nil ''source'' (map_option encode_source (cb_source b)))"

definition encode_a_message :: "a_message \<Rightarrow> json" where
  "encode_a_message m = json_object [(''role'', json_of_string (am_role m)),
     (''content'', raw_or_null (am_content m))]"

definition encode_a_tool :: "a_tool \<Rightarrow> json" where
  "encode_a_tool t = json_object ((''name'', json_of_string (at_name t))
     # omit_empty ''description'' (at_description t)
     @ [(''input_schema'', raw_or_null (at_schema t))])"

definition encode_tool_choice :: "tool_choice \<Rightarrow> json" where
  "encode_tool_choice c = json_object ((''type'', json_of_string (tc_type c))
     # omit_empty ''name'' (tc_name c))"

definition encode_a_usage :: "a_usage \<Rightarrow> json" where
  "encode_a_usage u = json_object
     [(''input_tokens'', json_of_int (au_input u)), (''output_tokens'', json_of_int (au_output u)),
      (''cache_read_input_tokens'', json_of_int (au_cache_read u)),
      (''cache_creation_input_tokens'', json_of_int (au_cache_creation u))]"

definition encode_a_request :: "a_request \<Rightarrow> json" where
  "encode_a_request r = json_object
     ([(''model'', json_of_string (aq_model r)),
       (''messages'', json_array (map encode_a_message (aq_messages r)))]
      @ omit_nil ''system'' (aq_system r)
      @ [(''max_tokens'', json_of_int (aq_max_tokens r))]
      @ (if aq_stream r then [(''stream'', json_of_bool True)] else [])
      @ omit_nil ''temperature'' (map_option JNum (aq_temperature r))
      @ omit_nil ''top_p'' (map_option JNum (aq_top_p r))
      @ (if aq_stop_seqs r = [] then []
         else [(''stop_sequences'', json_array (map json_of_string (aq_stop_seqs r)))])
      @ (if aq_tools r = [] then [] else [(''tools'', json_array (map encode_a_tool (aq_tools r)))])
      @ omit_nil ''tool_choice'' (map_option encode_tool_choice (aq_tool_choice r)))"

definition encode_a_response :: "a_response \<Rightarrow> json" where
  "encode_a_response r = json_object
     ((''id'', json_of_string (ap_id r))
      # omit_empty ''type'' (ap_type r) @ omit_empty ''role'' (ap_role r)
      @ [(''model'', json_of_string (ap_model r)),
         (''content'', json_array (map encode_block (ap_content r))),
         (''stop_reason'', raw_or_null (map_option json_of_string (ap_stop_reason r)))]
      @ omit_nil ''stop_sequence'' (map_option json_of_string (ap_stop_seq r))
      @ omit_nil ''usage'' (map_option encode_a_usage (ap_usage r)))"

definition encode_delta :: "a_delta \<Rightarrow> json" where
  "encode_delta d = json_object (omit_empty ''type'' (ad_type d) @ omit_empty ''text'' (ad_text d)
     @ omit_empty ''partial_json'' (ad_partial_json d) @ omit_empty ''stop_reason'' (ad_stop_reason d))"

definition encode_a_error :: "string \<Rightarrow> string \<Rightarrow> json" where
  "encode_a_error kind msg = json_object [(''type'', json_of_string ''error''),
     (''error'', json_object [(''type'', json_of_string kind), (''message'', json_of_string msg)])]"

section \<open>Reading raw content\<close>

text \<open>An array of blocks; absent input and any other shape are an error, \<^verbatim>\<open>null\<close> is no blocks.\<close>

definition unmarshal_list :: "(json \<Rightarrow> 'a option) \<Rightarrow> raw_message \<Rightarrow> 'a list option" where
  "unmarshal_list dec r = Option.bind (Option.bind r as_array) (opt_all dec)"

definition system_text :: "raw_message \<Rightarrow> string" where
  "system_text r = (case r of None \<Rightarrow> []
     | Some v \<Rightarrow> (case as_string v of Some t \<Rightarrow> t
         | None \<Rightarrow> (case unmarshal_list decode_block r of None \<Rightarrow> []
             | Some bs \<Rightarrow> join (map cb_text (filter (\<lambda>b. cb_type b = ''text'' \<and> cb_text b \<noteq> []) bs))
                 [CHR 0x0A, CHR 0x0A])))"

end
