(* ===== verification/Sse.thy ===== *)
theory Sse
  imports Openai_Types
begin

text \<open>
  Server-sent events: the writing side (\<^verbatim>\<open>internal/stream/sse.go\<close>, \<^verbatim>\<open>relay.go\<close>) and the reading
  side (\<^verbatim>\<open>scanSSE\<close> and \<^verbatim>\<open>pump\<close> of \<^verbatim>\<open>internal/provider/http.go\<close>), which meet in a round trip.

  A response writer holds the bytes written so far and a function telling which of its writes
  fail. Payloads are JSON values that encode themselves as their raw text. The three-way
  \<^verbatim>\<open>select\<close> of \<^verbatim>\<open>Relay\<close> is a list of the cases it took.
\<close>

section \<open>Writing frames\<close>

datatype stream_error =
  StreamUnsupported | StreamWriteFrame | StreamEncode | StreamHeartbeat | StreamSentinel | StreamCanceled

record response_writer =
  rw_header :: "(string, string) gomap"
  rw_status :: "int option"
  rw_out :: string
  rw_writes :: nat
  rw_flushes :: nat
  rw_fails :: "nat \<Rightarrow> bool"
  rw_flusher :: bool

record sse_writer =
  sw_rw :: response_writer
  sw_started :: bool

definition done_sentinel :: string where "done_sentinel = ''[DONE]''"

definition newline :: char where "newline = CHR 0x0A"

text \<open>One \<^verbatim>\<open>Write\<close> on the connection: refused writes leave no bytes. The first \<^verbatim>\<open>WriteHeader\<close> wins.\<close>

definition rw_write :: "string \<Rightarrow> response_writer \<Rightarrow> bool \<times> response_writer" where
  "rw_write s rw = (if rw_fails rw (rw_writes rw) then (False, rw\<lparr>rw_writes := Suc (rw_writes rw)\<rparr>)
     else (True, rw\<lparr>rw_writes := Suc (rw_writes rw), rw_out := rw_out rw @ s\<rparr>))"

definition rw_set :: "string \<Rightarrow> string \<Rightarrow> response_writer \<Rightarrow> response_writer" where
  "rw_set k v rw = rw\<lparr>rw_header := map_put k v (rw_header rw)\<rparr>"

definition rw_write_header :: "int \<Rightarrow> response_writer \<Rightarrow> response_writer" where
  "rw_write_header st rw = (if rw_status rw = None then rw\<lparr>rw_status := Some st\<rparr> else rw)"

definition rw_flush :: "response_writer \<Rightarrow> response_writer" where
  "rw_flush rw = rw\<lparr>rw_flushes := Suc (rw_flushes rw)\<rparr>"

definition new_writer :: "response_writer \<Rightarrow> stream_error + sse_writer" where
  "new_writer rw = (if rw_flusher rw then Inr \<lparr>sw_rw = rw, sw_started = False\<rparr> else Inl StreamUnsupported)"

definition sse_start :: "sse_writer \<Rightarrow> sse_writer" where
  "sse_start w = (if sw_started w then w else
     w\<lparr>sw_started := True,
       sw_rw := rw_flush (rw_write_header 200 (rw_set ''X-Accel-Buffering'' ''no''
         (rw_set ''Connection'' ''keep-alive'' (rw_set ''Cache-Control'' ''no-cache''
           (rw_set ''Content-Type'' ''text/event-stream'' (sw_rw w))))))\<rparr>)"

fun write_all :: "(string \<times> stream_error) list \<Rightarrow> response_writer \<Rightarrow> stream_error option \<times> response_writer" where
  "write_all [] rw = (None, rw)"
| "write_all ((s, e) # ws) rw = (case rw_write s rw of
      (True, rw') \<Rightarrow> write_all ws rw'
    | (False, rw') \<Rightarrow> (Some e, rw'))"

definition write_frame :: "(string \<times> stream_error) list \<Rightarrow> sse_writer \<Rightarrow> stream_error option \<times> sse_writer" where
  "write_frame ws w = (let w = sse_start w in
     case write_all ws (sw_rw w) of
       (None, rw) \<Rightarrow> (None, w\<lparr>sw_rw := rw_flush rw\<rparr>)
     | (Some e, rw) \<Rightarrow> (Some e, w\<lparr>sw_rw := rw\<rparr>))"

definition named_event :: "string \<Rightarrow> json \<Rightarrow> sse_writer \<Rightarrow> stream_error option \<times> sse_writer" where
  "named_event name v = write_frame
     ((if name \<noteq> [] then [(''event: '' @ name @ [newline], StreamWriteFrame)] else [])
      @ [(''data: '', StreamWriteFrame), (raw v @ [newline], StreamEncode), ([newline], StreamWriteFrame)])"

definition sse_event :: "json \<Rightarrow> sse_writer \<Rightarrow> stream_error option \<times> sse_writer" where
  "sse_event v = named_event [] v"

definition heartbeat :: "sse_writer \<Rightarrow> stream_error option \<times> sse_writer" where
  "heartbeat = write_frame [('': keepalive'' @ [newline, newline], StreamHeartbeat)]"

definition sse_done :: "sse_writer \<Rightarrow> stream_error option \<times> sse_writer" where
  "sse_done = write_frame [(''data: '' @ done_sentinel @ [newline, newline], StreamSentinel)]"

definition sse_error :: "json \<Rightarrow> sse_writer \<Rightarrow> stream_error option \<times> sse_writer" where
  "sse_error v w = (case sse_event v w of
      (Some e, w') \<Rightarrow> (Some e, w')
    | (None, w') \<Rightarrow> sse_done w')"

section \<open>Relaying a channel\<close>

text \<open>What a turn of the loop selected: cancellation, a value, the closed channel, a tick.\<close>

datatype 'a selected = CtxDone | Received 'a | Closed | Idle

fun relay :: "('a \<Rightarrow> json) \<Rightarrow> 'a selected list \<Rightarrow> sse_writer \<Rightarrow> stream_error option \<times> sse_writer" where
  "relay enc [] w = (None, w)"
| "relay enc (CtxDone # ss) w = (Some StreamCanceled, w)"
| "relay enc (Closed # ss) w = sse_done w"
| "relay enc (Received c # ss) w = (case sse_event (enc c) w of
      (None, w') \<Rightarrow> relay enc ss w'
    | (Some e, w') \<Rightarrow> (Some e, w'))"
| "relay enc (Idle # ss) w = (case heartbeat w of
      (None, w') \<Rightarrow> relay enc ss w'
    | (Some e, w') \<Rightarrow> (Some e, w'))"

section \<open>Reading frames\<close>

text \<open>\<^verbatim>\<open>bufio.Scanner\<close> with \<^verbatim>\<open>ScanLines\<close>: a final empty line is no token, one trailing carriage return
  is dropped, and a line that does not fit the buffer of a megabyte ends the scan.\<close>

definition drop_cr :: "string \<Rightarrow> string" where
  "drop_cr l = trim_suffix l [CHR 0x0D]"

definition max_line :: nat where "max_line = 1048576"

definition scan_lines :: "string \<Rightarrow> string list" where
  "scan_lines s = (let ls = split_on s [newline]; ls = (if last ls = [] then butlast ls else ls)
     in map drop_cr (takeWhile (\<lambda>l. length l < max_line) ls))"

text \<open>The loop, over the callback and its state; \<open>False\<close> stops it.\<close>

definition sse_flush :: "(string \<Rightarrow> string \<Rightarrow> 'a \<Rightarrow> bool \<times> 'a) \<Rightarrow> string \<Rightarrow> string \<Rightarrow> 'a \<Rightarrow> bool \<times> 'a" where
  "sse_flush fn event data a = (if data = [] then (True, a) else fn event data a)"

definition sse_field :: "string \<Rightarrow> string \<times> string" where
  "sse_field line = (case cut line '':'' of
      None \<Rightarrow> (line, []) | Some (field, val) \<Rightarrow> (field, trim_prefix val '' ''))"

fun scan_loop ::
    "(string \<Rightarrow> string \<Rightarrow> 'a \<Rightarrow> bool \<times> 'a) \<Rightarrow> string list \<Rightarrow> string \<Rightarrow> string \<Rightarrow> 'a \<Rightarrow> 'a" where
  "scan_loop fn [] event data a = snd (sse_flush fn event data a)"
| "scan_loop fn (l # ls) event data a =
     (let line = drop_cr l in
      if line = [] then
        (case sse_flush fn event data a of (go, a') \<Rightarrow> if go then scan_loop fn ls [] [] a' else a')
      else if has_prefix line '':'' then scan_loop fn ls event data a
      else (case sse_field line of (field, val) \<Rightarrow>
        if field = ''event'' then scan_loop fn ls val data a
        else if field = ''data'' then
          scan_loop fn ls event (data @ (if data \<noteq> [] then [newline] else []) @ val) a
        else scan_loop fn ls event data a))"

definition scan_sse :: "(string \<Rightarrow> string \<Rightarrow> 'a \<Rightarrow> bool \<times> 'a) \<Rightarrow> string \<Rightarrow> 'a \<Rightarrow> 'a" where
  "scan_sse fn body a = scan_loop fn (scan_lines body) [] [] a"

text \<open>The pump of an OpenAI upstream. \<open>sends n\<close> tells whether the receiver took the value when \<open>n\<close>
  were out, or the context ended first.\<close>

definition pump_step :: "(nat \<Rightarrow> bool) \<Rightarrow> string \<Rightarrow> stream_chunk list \<Rightarrow> bool \<times> stream_chunk list" where
  "pump_step sends payload out =
     (if payload = done_sentinel then (False, out)
      else (case Option.bind (json_parse payload) decode_chat_response of
          None \<Rightarrow> (True, out)
        | Some c \<Rightarrow> if sends (length out) then (True, out @ [c]) else (False, out)))"

definition pump :: "(nat \<Rightarrow> bool) \<Rightarrow> string \<Rightarrow> stream_chunk list" where
  "pump sends body = scan_sse (\<lambda>_. pump_step sends) body []"

section \<open>Writing, on a healthy connection\<close>

definition healthy_conn :: "sse_writer \<Rightarrow> bool" where
  "healthy_conn w \<longleftrightarrow> (\<forall>n. \<not> rw_fails (sw_rw w) n)"

lemma write_all_healthy:
  "\<forall>n. \<not> rw_fails rw n \<Longrightarrow>
     \<exists>rw'. write_all ws rw = (None, rw') \<and> rw_out rw' = rw_out rw @ concat (map fst ws)
       \<and> (\<forall>n. \<not> rw_fails rw' n)"
proof (induction ws arbitrary: rw)
  case (Cons p ws)
  obtain s e where p: "p = (s, e)" by force
  let ?rw = "rw\<lparr>rw_writes := Suc (rw_writes rw), rw_out := rw_out rw @ s\<rparr>"
  have "rw_write s rw = (True, ?rw)" using Cons.prems by (simp add: rw_write_def)
  moreover obtain rw' where "write_all ws ?rw = (None, rw')"
    "rw_out rw' = rw_out ?rw @ concat (map fst ws)" "\<forall>n. \<not> rw_fails rw' n"
    using Cons.IH [of ?rw] Cons.prems by auto
  ultimately show ?case by (simp add: p)
qed simp

lemma sse_start_simps [simp]:
  "rw_out (sw_rw (sse_start w)) = rw_out (sw_rw w)"
  "rw_fails (sw_rw (sse_start w)) = rw_fails (sw_rw w)"
  "sw_started (sse_start w)"
  by (simp_all add: sse_start_def rw_flush_def rw_write_header_def rw_set_def)

lemma write_frame_healthy:
  assumes "healthy_conn w"
  shows "\<exists>w'. write_frame ws w = (None, w') \<and> healthy_conn w' \<and> sw_started w'
    \<and> rw_out (sw_rw w') = rw_out (sw_rw w) @ concat (map fst ws)"
proof -
  obtain rw' where "write_all ws (sw_rw (sse_start w)) = (None, rw')"
    "rw_out rw' = rw_out (sw_rw w) @ concat (map fst ws)" "\<forall>n. \<not> rw_fails rw' n"
    using write_all_healthy [of "sw_rw (sse_start w)" ws] assms by (auto simp: healthy_conn_def)
  then show ?thesis
    using assms by (simp add: write_frame_def Let_def healthy_conn_def rw_flush_def)
qed

text \<open>The text of a frame.\<close>

definition frame_text :: "string \<Rightarrow> string \<Rightarrow> string" where
  "frame_text name payload =
     (if name \<noteq> [] then ''event: '' @ name @ [newline] else []) @ ''data: '' @ payload @ [newline, newline]"

definition keepalive_text :: string where
  "keepalive_text = '': keepalive'' @ [newline, newline]"

lemma named_event_healthy:
  "healthy_conn w \<Longrightarrow> \<exists>w'. named_event name v w = (None, w') \<and> healthy_conn w'
     \<and> rw_out (sw_rw w') = rw_out (sw_rw w) @ frame_text name (raw v)"
  using write_frame_healthy [of w] unfolding named_event_def frame_text_def by fastforce

lemma heartbeat_healthy:
  "healthy_conn w \<Longrightarrow> \<exists>w'. heartbeat w = (None, w') \<and> healthy_conn w'
     \<and> rw_out (sw_rw w') = rw_out (sw_rw w) @ keepalive_text"
  using write_frame_healthy [of w] unfolding heartbeat_def keepalive_text_def by fastforce

lemma done_healthy:
  "healthy_conn w \<Longrightarrow> \<exists>w'. sse_done w = (None, w') \<and> healthy_conn w'
     \<and> rw_out (sw_rw w') = rw_out (sw_rw w) @ frame_text [] done_sentinel"
  using write_frame_healthy [of w] unfolding sse_done_def frame_text_def by fastforce

fun selected_text :: "('a \<Rightarrow> json) \<Rightarrow> 'a selected \<Rightarrow> string" where
  "selected_text enc (Received c) = frame_text [] (raw (enc c))"
| "selected_text enc Idle = keepalive_text"
| "selected_text enc s = []"

definition running :: "'a selected \<Rightarrow> bool" where
  "running s \<longleftrightarrow> s \<noteq> CtxDone \<and> s \<noteq> Closed"

lemma relay_healthy:
  "healthy_conn w \<Longrightarrow> \<forall>s \<in> set ss. running s \<Longrightarrow>
     \<exists>w'. relay enc (ss @ [Closed]) w = (None, w') \<and> rw_out (sw_rw w') =
       rw_out (sw_rw w) @ concat (map (selected_text enc) ss) @ frame_text [] done_sentinel"
proof (induction ss arbitrary: w)
  case Nil
  then show ?case using done_healthy [OF Nil(1)] by auto
next
  case (Cons s ss)
  show ?case
  proof (cases s)
    case (Received c)
    obtain w1 where "sse_event (enc c) w = (None, w1)" "healthy_conn w1"
      "rw_out (sw_rw w1) = rw_out (sw_rw w) @ frame_text [] (raw (enc c))"
      using named_event_healthy [OF Cons.prems(1)] unfolding sse_event_def by blast
    then show ?thesis using Cons.IH [of w1] Cons.prems Received by auto
  next
    case Idle
    obtain w1 where "heartbeat w = (None, w1)" "healthy_conn w1"
      "rw_out (sw_rw w1) = rw_out (sw_rw w) @ keepalive_text"
      using heartbeat_healthy [OF Cons.prems(1)] by blast
    then show ?thesis using Cons.IH [of w1] Cons.prems Idle by auto
  qed (use Cons.prems in \<open>simp_all add: running_def\<close>)
qed

section \<open>Reading it back\<close>

lemma split_on_cons:
  "newline \<notin> set a \<Longrightarrow> split_on (a @ newline # b) [newline] = a # split_on b [newline]"
  by (subst split_on.simps) (simp add: cut_char)

lemma scan_lines_cons:
  assumes "newline \<notin> set a" and "length a < max_line"
  shows "scan_lines (a @ newline # b) = drop_cr a # scan_lines b"
  using assms by (auto simp: scan_lines_def split_on_cons Let_def)

lemma suffix_single: "suffix [c] l \<longleftrightarrow> l \<noteq> [] \<and> last l = c"
  by (cases l rule: rev_cases) (auto simp: suffix_def)

text \<open>A payload that survives: one line, not too long, no trailing carriage return.\<close>

definition line_safe :: "string \<Rightarrow> bool" where
  "line_safe s \<longleftrightarrow> s \<noteq> [] \<and> newline \<notin> set s \<and> last s \<noteq> CHR 0x0D \<and> length s < max_line - 8"

lemma drop_cr_safe: "line_safe s \<Longrightarrow> drop_cr (p @ s) = p @ s"
  by (auto simp: line_safe_def drop_cr_def trim_suffix_def suffix_single)

lemma data_field: "sse_field (''data: '' @ s) = (''data'', s)"
  by (simp add: sse_field_def cut_char_simps trim_prefix_def)

lemma event_field: "sse_field (''event: '' @ s) = (''event'', s)"
  by (simp add: sse_field_def cut_char_simps trim_prefix_def)

lemma scan_lines_blank: "scan_lines (newline # b) = [] # scan_lines b"
  using scan_lines_cons [of "[]" b] by (simp add: drop_cr_def trim_suffix_def max_line_def)

lemma scan_lines_data:
  assumes "line_safe p"
  shows "scan_lines (''data: '' @ p @ newline # b) = (''data: '' @ p) # scan_lines b"
proof -
  have "scan_lines ((''data: '' @ p) @ newline # b) = drop_cr (''data: '' @ p) # scan_lines b"
    using assms by (intro scan_lines_cons) (auto simp: line_safe_def newline_def max_line_def)
  then show ?thesis using drop_cr_safe [OF assms, of "''data: ''"] by simp
qed

lemma scan_lines_event:
  assumes "line_safe p"
  shows "scan_lines (''event: '' @ p @ newline # b) = (''event: '' @ p) # scan_lines b"
proof -
  have "scan_lines ((''event: '' @ p) @ newline # b) = drop_cr (''event: '' @ p) # scan_lines b"
    using assms by (intro scan_lines_cons) (auto simp: line_safe_def newline_def max_line_def)
  then show ?thesis using drop_cr_safe [OF assms, of "''event: ''"] by simp
qed

lemma scan_frame:
  assumes "line_safe p" and "name = [] \<or> line_safe name"
  shows "scan_loop fn (scan_lines (frame_text name p @ rest)) [] [] a =
    (case fn name p a of (go, a') \<Rightarrow> if go then scan_loop fn (scan_lines rest) [] [] a' else a')"
proof -
  have nil: "drop_cr [] = []" by (simp add: drop_cr_def trim_suffix_def)
  define d where "d = ''data: '' @ p"
  have d: "drop_cr d = d" "d \<noteq> []" "\<not> has_prefix d '':''" "sse_field d = (''data'', p)"
    using drop_cr_safe [OF assms(1), of "''data: ''"] data_field [of p] by (auto simp: d_def)
  have "scan_lines (''data: '' @ p @ newline # newline # rest) = d # [] # scan_lines rest"
    using scan_lines_data [OF assms(1), of "newline # rest"] scan_lines_blank [of rest] by (simp add: d_def)
  then have body: "scan_loop fn (scan_lines (''data: '' @ p @ newline # newline # rest)) e [] a =
    (case fn e p a of (go, a') \<Rightarrow> if go then scan_loop fn (scan_lines rest) [] [] a' else a')" for e
    using assms(1) d nil by (simp only: scan_loop.simps Let_def)
      (simp add: sse_flush_def line_safe_def split: prod.split)
  show ?thesis
  proof (cases "name = []")
    case True
    then show ?thesis using body [of "[]"] by (simp add: frame_text_def)
  next
    case False
    define n where "n = ''event: '' @ name"
    have n: "drop_cr n = n" "n \<noteq> []" "\<not> has_prefix n '':''" "sse_field n = (''event'', name)"
      using drop_cr_safe [of name "''event: ''"] event_field [of name] assms(2) False by (auto simp: n_def)
    have "scan_lines (frame_text name p @ rest) = n # scan_lines (''data: '' @ p @ newline # newline # rest)"
      using assms(2) False scan_lines_event [of name] by (simp add: frame_text_def n_def)
    then have "scan_loop fn (scan_lines (frame_text name p @ rest)) [] [] a =
        scan_loop fn (scan_lines (''data: '' @ p @ newline # newline # rest)) name [] a"
      using n by (simp only: scan_loop.simps Let_def) simp
    then show ?thesis by (simp only: body)
  qed
qed

lemma scan_keepalive:
  "scan_loop fn (scan_lines (keepalive_text @ rest)) [] [] a = scan_loop fn (scan_lines rest) [] [] a"
proof -
  have "scan_lines (keepalive_text @ rest) = '': keepalive'' # [] # scan_lines rest"
    using scan_lines_cons [of "'': keepalive''" "newline # rest"] scan_lines_blank [of rest]
    by (simp add: keepalive_text_def newline_def max_line_def drop_cr_def trim_suffix_def suffix_def)
  then show ?thesis
    by (simp add: drop_cr_def trim_suffix_def sse_flush_def suffix_def)
qed

definition collect :: "string \<Rightarrow> string \<Rightarrow> (string \<times> string) list \<Rightarrow> bool \<times> (string \<times> string) list" where
  "collect e d out = (True, out @ [(e, d)])"

fun received :: "'a selected list \<Rightarrow> 'a list" where
  "received [] = []"
| "received (Received c # ss) = c # received ss"
| "received (s # ss) = received ss"

lemma scan_selected:
  assumes "\<forall>c \<in> set (received ss). line_safe (raw (enc c))" and "\<forall>s \<in> set ss. running s"
    and "\<And>e d out. fn e d out = (True, step e d out)"
  shows "scan_loop fn (scan_lines (concat (map (selected_text enc) ss) @ rest)) [] [] a =
    scan_loop fn (scan_lines rest) [] [] (fold (\<lambda>c. step [] (raw (enc c))) (received ss) a)"
  using assms(1,2)
proof (induction ss arbitrary: a)
  case (Cons s ss)
  then show ?case
    by (cases s) (simp_all add: scan_frame assms(3) scan_keepalive running_def)
qed simp


definition example_conn :: sse_writer where
  "example_conn = \<lparr>sw_rw = \<lparr>rw_header = [], rw_status = None, rw_out = [], rw_writes = 0,
     rw_flushes = 0, rw_fails = (\<lambda>_. False), rw_flusher = True\<rparr>, sw_started = False\<rparr>"


section \<open>Committing the response\<close>

text \<open>Nothing reaches the wire before the headers: whatever the selection and whichever writes fail,
  bytes are out only once the stream has started, with status 200.\<close>

definition committed :: "sse_writer \<Rightarrow> bool" where
  "committed w \<longleftrightarrow> (sw_started w \<longrightarrow> rw_status (sw_rw w) \<noteq> None)
     \<and> (rw_out (sw_rw w) \<noteq> [] \<longrightarrow> sw_started w)"

lemma write_all_status: "rw_status (snd (write_all ws rw)) = rw_status rw"
  by (induction ws arbitrary: rw) (auto simp: rw_write_def split: prod.splits if_splits)

lemma write_frame_committed: "committed w \<Longrightarrow> committed (snd (write_frame ws w))"
  using write_all_status [of ws "sw_rw (sse_start w)"]
  by (auto simp: committed_def write_frame_def Let_def rw_flush_def sse_start_def rw_write_header_def
      rw_set_def split: option.splits prod.splits)

lemma relay_committed: "committed w \<Longrightarrow> committed (snd (relay enc ss w))"
proof (induction enc ss w rule: relay.induct)
  case (4 enc c ss w)
  then show ?case
    using write_frame_committed [of w]
    by (auto simp: sse_event_def named_event_def split: prod.splits option.splits) (metis snd_conv)+
next
  case (5 enc ss w)
  then show ?case
    using write_frame_committed [of w]
    by (auto simp: heartbeat_def split: prod.splits option.splits) (metis snd_conv)+
qed (simp_all add: sse_done_def write_frame_committed)

end
