(* ===== verification/Anthropic_Provider.thy ===== *)
theory Anthropic_Provider
  imports Anthropic_Types Provider_Http Sse
begin

text \<open>
  The provider for an Anthropic-compatible upstream (\<^verbatim>\<open>internal/provider/anthropic.go\<close> and
  \<^verbatim>\<open>anthropic_tools.go\<close>): requests go out in the Messages dialect, responses and streams come
  back in the OpenAI one. Raw JSON fields are parsed values, so \<^verbatim>\<open>mustMarshal\<close> cannot fail and is
  the encoding itself; a map literal is written with its keys in order, as the encoder does.
\<close>

section \<open>Tools\<close>

definition json_text_part :: "string \<Rightarrow> json" where
  "json_text_part t = json_object [(''text'', json_of_string t), (''type'', json_of_string ''text'')]"

record openai_tool_call =
  oc_index :: "int option"
  oc_id :: string
  oc_type :: string
  oc_name :: string
  oc_arguments :: string

definition decode_function :: "string \<Rightarrow> (string \<times> json) list \<Rightarrow> (string \<times> json) list option" where
  "decode_function k ms = field_or [] as_object k ms"

definition decode_tool_call :: "json \<Rightarrow> openai_tool_call option" where
  "decode_tool_call v = do {
     ms \<leftarrow> as_object v;
     ix \<leftarrow> pointer_field as_int ''index'' ms;
     i \<leftarrow> string_of ''id'' ms; t \<leftarrow> string_of ''type'' ms;
     fs \<leftarrow> decode_function ''function'' ms;
     n \<leftarrow> string_of ''name'' fs; a \<leftarrow> string_of ''arguments'' fs;
     Some \<lparr>oc_index = ix, oc_id = i, oc_type = t, oc_name = n, oc_arguments = a\<rparr> }"

definition encode_tool_call :: "openai_tool_call \<Rightarrow> json" where
  "encode_tool_call c = json_object (omit_nil ''index'' (map_option json_of_int (oc_index c))
     @ [(''id'', json_of_string (oc_id c)), (''type'', json_of_string (oc_type c)),
        (''function'', json_object [(''name'', json_of_string (oc_name c)),
           (''arguments'', json_of_string (oc_arguments c))])])"

definition empty_schema :: json where
  "empty_schema = json_object [(''type'', json_of_string ''object''), (''properties'', json_object [])]"

definition to_anthropic_tool :: "json \<Rightarrow> a_tool option option" where
  "to_anthropic_tool v = do {
     ms \<leftarrow> as_object v;
     t \<leftarrow> string_of ''type'' ms;
     fs \<leftarrow> decode_function ''function'' ms;
     n \<leftarrow> string_of ''name'' fs; d \<leftarrow> string_of ''description'' fs;
     Some (if (t \<noteq> [] \<and> t \<noteq> ''function'') \<or> n = [] then None
           else Some \<lparr>at_name = n, at_description = d,
             at_schema = (case raw_of ''parameters'' fs of None \<Rightarrow> Some empty_schema | r \<Rightarrow> r)\<rparr>) }"

definition to_anthropic_tools :: "raw_message \<Rightarrow> a_tool list" where
  "to_anthropic_tools r = (case unmarshal_list to_anthropic_tool r of
      None \<Rightarrow> [] | Some ts \<Rightarrow> List.map_filter id ts)"

definition to_anthropic_tool_choice :: "json \<Rightarrow> tool_choice option" where
  "to_anthropic_tool_choice v = (case as_string v of
      Some s \<Rightarrow>
        if s = ''auto'' then Some \<lparr>tc_type = ''auto'', tc_name = []\<rparr>
        else if s = ''none'' then Some \<lparr>tc_type = ''none'', tc_name = []\<rparr>
        else if s = ''required'' \<or> s = ''any'' then Some \<lparr>tc_type = ''any'', tc_name = []\<rparr>
        else None
    | None \<Rightarrow> (case do { ms \<leftarrow> as_object v; t \<leftarrow> string_of ''type'' ms;
                       fs \<leftarrow> decode_function ''function'' ms; string_of ''name'' fs } of
          None \<Rightarrow> None
        | Some n \<Rightarrow> if n = [] then None else Some \<lparr>tc_type = ''tool'', tc_name = n\<rparr>))"

section \<open>Content\<close>

definition to_anthropic_source :: "string \<Rightarrow> a_source option" where
  "to_anthropic_source url =
     (if url = [] then None
      else if has_prefix url ''data:'' then
        (case cut (trim_prefix url ''data:'') '','' of
           None \<Rightarrow> None
         | Some (meta, d) \<Rightarrow>
             if has_suffix meta '';base64'' then
               Some \<lparr>so_type = ''base64'', so_media_type = trim_suffix meta '';base64'', so_data = d, so_url = []\<rparr>
             else None)
      else Some \<lparr>so_type = ''url'', so_media_type = [], so_data = [], so_url = url\<rparr>)"

text \<open>One part of array content: its type, text and image URL.\<close>

definition decode_content_part :: "json \<Rightarrow> (string \<times> string \<times> string option) option" where
  "decode_content_part v = do {
     ms \<leftarrow> as_object v;
     t \<leftarrow> string_of ''type'' ms; x \<leftarrow> string_of ''text'' ms;
     u \<leftarrow> pointer_field (\<lambda>d. do { ds \<leftarrow> as_object d; string_of ''url'' ds }) ''image_url'' ms;
     Some (t, x, u) }"

definition part_block :: "string \<times> string \<times> string option \<Rightarrow> json option" where
  "part_block p = (case p of (t, x, u) \<Rightarrow>
     if t = ''text'' then Some (json_text_part x)
     else if t = ''image_url'' then
       (case Option.bind u to_anthropic_source of
          None \<Rightarrow> None
        | Some s \<Rightarrow> Some (json_object [(''source'', encode_source s), (''type'', json_of_string ''image'')]))
     else None)"

definition to_anthropic_content :: "raw_message \<Rightarrow> json" where
  "to_anthropic_content content = (case content of
      None \<Rightarrow> json_of_string []
    | Some v \<Rightarrow> (case as_string v of Some _ \<Rightarrow> v
        | None \<Rightarrow> (case unmarshal_list decode_content_part content of
              None \<Rightarrow> v
            | Some ps \<Rightarrow> (case List.map_filter part_block ps of
                  [] \<Rightarrow> json_of_string [] | bs \<Rightarrow> json_array bs))))"

definition decode_tool_calls :: "raw_message \<Rightarrow> openai_tool_call list" where
  "decode_tool_calls r = (case unmarshal_list decode_tool_call r of None \<Rightarrow> [] | Some cs \<Rightarrow> cs)"

definition valid_or_empty :: "string \<Rightarrow> json" where
  "valid_or_empty args = (case json_parse args of None \<Rightarrow> json_object [] | Some v \<Rightarrow> v)"

definition to_anthropic_assistant :: "message \<Rightarrow> json" where
  "to_anthropic_assistant m =
     (case decode_tool_calls (map_of (msg_extra m) ''tool_calls'') of
        [] \<Rightarrow> to_anthropic_content (msg_content m)
      | calls \<Rightarrow> json_array
          ((case message_text m of None \<Rightarrow> [] | Some t \<Rightarrow> if t \<noteq> [] then [json_text_part t] else [])
           @ map (\<lambda>c. json_object [(''id'', json_of_string (oc_id c)), (''input'', valid_or_empty (oc_arguments c)),
                (''name'', json_of_string (oc_name c)), (''type'', json_of_string ''tool_use'')]) calls))"

definition to_anthropic_tool_result :: "message \<Rightarrow> a_message option" where
  "to_anthropic_tool_result m =
     (let i = (case unmarshal_string (map_of (msg_extra m) ''tool_call_id'') of None \<Rightarrow> [] | Some s \<Rightarrow> s)
      in if i = [] then None
         else let content = (case message_text m of Some t \<Rightarrow> t
                | None \<Rightarrow> (case msg_content m of None \<Rightarrow> [] | Some v \<Rightarrow> raw v))
              in Some \<lparr>am_role = ''user'', am_content = Some (json_array [json_object
                   [(''content'', json_of_string content), (''tool_use_id'', json_of_string i),
                    (''type'', json_of_string ''tool_result'')]])\<rparr>)"

section \<open>Requests\<close>

definition default_max_tokens :: int where "default_max_tokens = 4096"

definition is_bearer_token :: "string \<Rightarrow> bool" where
  "is_bearer_token key \<longleftrightarrow> has_prefix key ''sk-ant-oat'' \<or> has_prefix key ''oauth-''"

definition new_anthropic :: "options \<Rightarrow> http_provider" where
  "new_anthropic opts =
     (let opts = (if op_name opts = [] then opts\<lparr>op_name := ''anthropic''\<rparr> else opts);
          opts = (if op_auth_header opts = [] \<and> \<not> is_bearer_token (op_api_key opts)
                  then opts\<lparr>op_auth_header := ''x-api-key''\<rparr> else opts)
      in new_http_provider opts [(''anthropic-version'', anthropic_version)])"

definition convert_message :: "message \<Rightarrow> a_message option" where
  "convert_message m =
     (if msg_role m \<in> {''system'', ''developer''} then None
      else if msg_role m \<in> {''tool'', ''function''} then to_anthropic_tool_result m
      else if msg_role m = ''assistant''
        then Some \<lparr>am_role = ''assistant'', am_content = Some (to_anthropic_assistant m)\<rparr>
      else Some \<lparr>am_role = msg_role m, am_content = Some (to_anthropic_content (msg_content m))\<rparr>)"

definition system_parts :: "message list \<Rightarrow> string list" where
  "system_parts ms = List.map_filter
     (\<lambda>m. if msg_role m \<in> {''system'', ''developer''} then message_text m else None) ms"

definition to_anthropic :: "chat_request \<Rightarrow> bool \<Rightarrow> a_request" where
  "to_anthropic req stream =
     (let tools = (case map_of (cr_extra req) ''tools'' of
             None \<Rightarrow> [] | Some v \<Rightarrow> to_anthropic_tools (Some v));
          choice = (case map_of (cr_extra req) ''tool_choice'' of
             None \<Rightarrow> None | Some v \<Rightarrow> if tools \<noteq> [] then to_anthropic_tool_choice v else None);
          system = system_parts (cr_messages req)
      in \<lparr>aq_model = cr_model req,
          aq_messages = List.map_filter convert_message (cr_messages req),
          aq_system = (if system = [] then None
             else Some (json_of_string (join system [CHR 0x0A, CHR 0x0A]))),
          aq_max_tokens = (case cr_max_tokens req of
             Some n \<Rightarrow> if n > 0 then n else default_max_tokens | None \<Rightarrow> default_max_tokens),
          aq_stream = stream, aq_temperature = cr_temperature req, aq_top_p = cr_top_p req,
          aq_stop_seqs = cr_stop req, aq_tools = tools, aq_tool_choice = choice\<rparr>)"

section \<open>Responses\<close>

definition finish_reason :: "string \<Rightarrow> string" where
  "finish_reason r =
     (if r = ''max_tokens'' then ''length'' else if r = ''tool_use'' then ''tool_calls''
      else if r = [] then [] else ''stop'')"

definition arguments_of :: "raw_message \<Rightarrow> string" where
  "arguments_of r = (case r of None \<Rightarrow> ''{}'' | Some v \<Rightarrow> if raw v = ''null'' then ''{}'' else raw v)"

fun number_calls :: "int \<Rightarrow> content_block list \<Rightarrow> openai_tool_call list" where
  "number_calls n [] = []"
| "number_calls n (b # bs) =
     (if cb_type b \<noteq> ''tool_use'' then number_calls n bs
      else \<lparr>oc_index = Some n, oc_id = cb_id b, oc_type = ''function'', oc_name = cb_name b,
            oc_arguments = arguments_of (cb_input b)\<rparr> # number_calls (n + 1) bs)"

definition tool_calls_from :: "content_block list \<Rightarrow> json option" where
  "tool_calls_from content = (case number_calls 0 content of
      [] \<Rightarrow> None | calls \<Rightarrow> Some (json_array (map encode_tool_call calls)))"

definition from_anthropic_usage :: "a_usage option \<Rightarrow> usage_report option" where
  "from_anthropic_usage u = map_option (\<lambda>u.
     let p = au_input u + au_cache_read u + au_cache_creation u
     in \<lparr>ur_prompt = p, ur_completion = au_output u, ur_total = p + au_output u,
         ur_prompt_details = (if au_cache_read u > 0 \<or> au_cache_creation u > 0
            then Some (au_cache_read u, au_cache_creation u) else None),
         ur_completion_details = None\<rparr>) u"

definition from_anthropic :: "a_response \<Rightarrow> chat_response" where
  "from_anthropic r =
     (let text = concat (map cb_text (filter (\<lambda>b. cb_type b = ''text'') (ap_content r)));
          reason = (case ap_stop_reason r of None \<Rightarrow> [] | Some s \<Rightarrow> finish_reason s);
          msg = \<lparr>msg_role = ''assistant'', msg_content = Some (json_of_string text), msg_name = [],
                 msg_extra = (case tool_calls_from (ap_content r) of None \<Rightarrow> [] | Some c \<Rightarrow> [(''tool_calls'', c)]),
                 msg_tool_error = False\<rparr>
      in \<lparr>rsp_id = ap_id r, rsp_object = ''chat.completion'', rsp_created = 0, rsp_model = ap_model r,
          rsp_choices = [\<lparr>ch_index = 0, ch_message = Some msg, ch_delta = None,
             ch_finish_reason = Some reason, ch_extra = []\<rparr>],
          rsp_usage = from_anthropic_usage (ap_usage r), rsp_extra = []\<rparr>)"

section \<open>Calls\<close>

definition post_messages ::
  "'w net \<Rightarrow> chat_request \<Rightarrow> bool \<Rightarrow> http_provider \<Rightarrow> 'w \<Rightarrow> (gerror + http_response) \<times> http_provider \<times> 'w"
where
  "post_messages net req stream p w =
     provider_do net ''messages'' (raw (encode_a_request (to_anthropic req stream))) stream p w"

definition anthropic_chat_completion ::
  "'w net \<Rightarrow> chat_request \<Rightarrow> http_provider \<Rightarrow> 'w \<Rightarrow> (gerror + chat_response) \<times> http_provider \<times> 'w"
where
  "anthropic_chat_completion net req p w =
     decode_response net (map_option from_anthropic \<circ> decode_a_response) (post_messages net req False p w)"

definition anthropic_chat_stream ::
  "'w net \<Rightarrow> chat_request \<Rightarrow> http_provider \<Rightarrow> 'w \<Rightarrow> (gerror + http_response) \<times> http_provider \<times> 'w"
where
  "anthropic_chat_stream net req p w = post_messages net req True p w"

definition anthropic_embeddings :: "http_provider \<Rightarrow> gerror" where
  "anthropic_embeddings p = Upstream \<lparr>pe_provider = op_name (hp_opts p), pe_status = 0,
     pe_kind = Some ErrUnsupported, pe_message = ''the Anthropic API has no embeddings endpoint'', pe_code = []\<rparr>"

section \<open>Streams\<close>

record tool_stream =
  ts_index :: "(int, int) gomap"
  ts_next :: int

definition new_tool_stream :: tool_stream where
  "new_tool_stream = \<lparr>ts_index = [], ts_next = 0\<rparr>"

definition tool_start :: "int \<Rightarrow> string \<Rightarrow> string \<Rightarrow> tool_stream \<Rightarrow> json \<times> tool_stream" where
  "tool_start block i n s =
     (json_array [encode_tool_call \<lparr>oc_index = Some (ts_next s), oc_id = i, oc_type = ''function'',
        oc_name = n, oc_arguments = []\<rparr>],
      \<lparr>ts_index = map_put block (ts_next s) (ts_index s), ts_next = ts_next s + 1\<rparr>)"

definition tool_delta :: "int \<Rightarrow> string \<Rightarrow> tool_stream \<Rightarrow> json option" where
  "tool_delta block partial s = (case map_of (ts_index s) block of
      None \<Rightarrow> None
    | Some ix \<Rightarrow> Some (json_array [encode_tool_call \<lparr>oc_index = Some ix, oc_id = [], oc_type = [],
        oc_name = [], oc_arguments = partial\<rparr>]))"

definition positive_or :: "int \<Rightarrow> int \<Rightarrow> int" where
  "positive_or new old = (if new > 0 then new else old)"

definition merge_usage :: "a_usage option \<Rightarrow> a_usage \<Rightarrow> a_usage" where
  "merge_usage src dst = (case src of None \<Rightarrow> dst | Some u \<Rightarrow>
     \<lparr>au_input = positive_or (au_input u) (au_input dst),
      au_output = positive_or (au_output u) (au_output dst),
      au_cache_read = positive_or (au_cache_read u) (au_cache_read dst),
      au_cache_creation = positive_or (au_cache_creation u) (au_cache_creation dst)\<rparr>)"

record a_pump =
  pa_id :: string
  pa_model :: string
  pa_usage :: a_usage
  pa_tools :: tool_stream
  pa_out :: "stream_chunk list"

definition new_pump :: "string \<Rightarrow> a_pump" where
  "new_pump model = \<lparr>pa_id = [], pa_model = model, pa_usage = zero_usage, pa_tools = new_tool_stream,
     pa_out = []\<rparr>"

definition empty_delta :: message where
  "empty_delta = \<lparr>msg_role = [], msg_content = None, msg_name = [], msg_extra = [], msg_tool_error = False\<rparr>"

definition pa_emit ::
  "(nat \<Rightarrow> bool) \<Rightarrow> message \<Rightarrow> string option \<Rightarrow> usage_report option \<Rightarrow> a_pump \<Rightarrow> bool \<times> a_pump"
where
  "pa_emit sends d fr us s =
     (if sends (length (pa_out s)) then
        (True, s\<lparr>pa_out := pa_out s @
           [\<lparr>rsp_id = pa_id s, rsp_object = ''chat.completion.chunk'', rsp_created = 0,
             rsp_model = pa_model s,
             rsp_choices = [\<lparr>ch_index = 0, ch_message = None, ch_delta = Some d, ch_finish_reason = fr, ch_extra = []\<rparr>],
             rsp_usage = us, rsp_extra = []\<rparr>]\<rparr>)
      else (False, s))"

definition pa_event :: "(nat \<Rightarrow> bool) \<Rightarrow> a_event \<Rightarrow> a_pump \<Rightarrow> bool \<times> a_pump" where
  "pa_event sends ev s =
     (if ae_type ev = ''message_start'' then
        (True, case ae_message ev of None \<Rightarrow> s | Some m \<Rightarrow>
           s\<lparr>pa_id := ap_id m, pa_model := (if ap_model m \<noteq> [] then ap_model m else pa_model s),
             pa_usage := merge_usage (ap_usage m) (pa_usage s)\<rparr>)
      else if ae_type ev = ''content_block_start'' then
        (case ae_block ev of
           None \<Rightarrow> (True, s)
         | Some b \<Rightarrow> if cb_type b \<noteq> ''tool_use'' then (True, s)
             else (case tool_start (ae_index ev) (cb_id b) (cb_name b) (pa_tools s) of (calls, ts) \<Rightarrow>
                pa_emit sends (empty_delta\<lparr>msg_role := ''assistant'', msg_extra := [(''tool_calls'', calls)]\<rparr>)
                  None None (s\<lparr>pa_tools := ts\<rparr>)))
      else if ae_type ev = ''content_block_delta'' then
        (case ae_delta ev of
           None \<Rightarrow> (True, s)
         | Some d \<Rightarrow>
             if ad_type d = ''input_json_delta'' then
               (case tool_delta (ae_index ev) (ad_partial_json d) (pa_tools s) of
                  None \<Rightarrow> (True, s)
                | Some calls \<Rightarrow> pa_emit sends (empty_delta\<lparr>msg_extra := [(''tool_calls'', calls)]\<rparr>) None None s)
             else if ad_text d = [] then (True, s)
             else pa_emit sends (empty_delta\<lparr>msg_role := ''assistant'',
                    msg_content := Some (json_of_string (ad_text d))\<rparr>) None None s)
      else if ae_type ev = ''message_delta'' then
        (let u = merge_usage (ae_usage ev) (pa_usage s);
             reason = (case ae_delta ev of None \<Rightarrow> [] | Some d \<Rightarrow> finish_reason (ad_stop_reason d))
         in pa_emit sends empty_delta (Some reason) (from_anthropic_usage (Some u)) (s\<lparr>pa_usage := u\<rparr>))
      else if ae_type ev = ''message_stop'' then (False, s)
      else if ae_type ev = ''error'' then (False, s)
      else (True, s))"

definition pa_payload :: "(nat \<Rightarrow> bool) \<Rightarrow> string \<Rightarrow> a_pump \<Rightarrow> bool \<times> a_pump" where
  "pa_payload sends payload s = (case Option.bind (json_parse payload) decode_event of
      None \<Rightarrow> (True, s) | Some ev \<Rightarrow> pa_event sends ev s)"

definition pump_anthropic :: "(nat \<Rightarrow> bool) \<Rightarrow> string \<Rightarrow> string \<Rightarrow> stream_chunk list" where
  "pump_anthropic sends model body = pa_out (scan_sse (\<lambda>_. pa_payload sends) body (new_pump model))"

end
