(* ===== verification/Messages_Api.thy ===== *)
theory Messages_Api
  imports Anthropic_Provider
begin

text \<open>
  The Messages dialect on the client's side (\<^verbatim>\<open>internal/api/messages.go\<close> and
  \<^verbatim>\<open>messages_stream.go\<close>): a request becomes an OpenAI one, a response comes back as a message,
  and a stream of chunks as the named events of the dialect. The handler itself is in the theory
  of the HTTP handlers.
\<close>

section \<open>Requests\<close>

definition decode_blocks :: "raw_message \<Rightarrow> content_block list option" where
  "decode_blocks r = unmarshal_list decode_block r"

definition image_url_of :: "a_source option \<Rightarrow> string" where
  "image_url_of src = (case src of None \<Rightarrow> []
     | Some s \<Rightarrow>
         if so_type s = ''base64'' then
           (if so_data s = [] then []
            else ''data:'' @ (if so_media_type s = [] then ''image/png'' else so_media_type s)
                   @ '';base64,'' @ so_data s)
         else if so_type s = ''url'' then so_url s else [])"

definition image_part :: "string \<Rightarrow> json" where
  "image_part url = json_object [(''image_url'', json_object [(''url'', json_of_string url)]),
     (''type'', json_of_string ''image_url'')]"

definition call_object :: "nat \<Rightarrow> content_block \<Rightarrow> json" where
  "call_object n b = json_object
     [(''function'', json_object [(''arguments'', json_of_string (arguments_of (cb_input b))),
         (''name'', json_of_string (cb_name b))]),
      (''id'', json_of_string (cb_id b)), (''index'', json_of_int (int n)),
      (''type'', json_of_string ''function'')]"

text \<open>The parts of a tool result; \<open>None\<close> when a block of another type makes the code keep the raw body.\<close>

fun result_parts :: "content_block list \<Rightarrow> json list option" where
  "result_parts [] = Some []"
| "result_parts (b # bs) =
     (if cb_type b = ''text'' then map_option (Cons (json_text_part (cb_text b))) (result_parts bs)
      else if cb_type b = ''image'' then
        (if image_url_of (cb_source b) \<noteq> []
         then map_option (Cons (image_part (image_url_of (cb_source b)))) (result_parts bs)
         else result_parts bs)
      else None)"

definition part_text :: "json \<Rightarrow> string option" where
  "part_text v = do { ms \<leftarrow> as_object v; t \<leftarrow> string_of ''Type'' ms; x \<leftarrow> string_of ''Text'' ms;
     (if t = ''text'' then Some x else None) }"

definition tool_result_content :: "raw_message \<Rightarrow> raw_message" where
  "tool_result_content r = (case r of None \<Rightarrow> None
     | Some v \<Rightarrow> (case as_string v of Some _ \<Rightarrow> r
         | None \<Rightarrow> (case Option.bind (decode_blocks r) result_parts of
               None \<Rightarrow> r
             | Some [] \<Rightarrow> r
             | Some [p] \<Rightarrow> (case part_text p of Some x \<Rightarrow> Some (json_of_string x) | None \<Rightarrow> Some (json_array [p]))
             | Some ps \<Rightarrow> Some (json_array ps))))"

record turn =
  tu_out :: "message list"
  tu_parts :: "json list"
  tu_calls :: "json list"
  tu_text :: string

definition turn_block :: "content_block \<Rightarrow> turn \<Rightarrow> turn" where
  "turn_block b t =
     (if cb_type b = ''text'' then
        t\<lparr>tu_text := tu_text t @ cb_text b, tu_parts := tu_parts t @ [json_text_part (cb_text b)]\<rparr>
      else if cb_type b = ''image'' then
        (if image_url_of (cb_source b) \<noteq> []
         then t\<lparr>tu_parts := tu_parts t @ [image_part (image_url_of (cb_source b))]\<rparr> else t)
      else if cb_type b = ''tool_use'' then
        t\<lparr>tu_calls := tu_calls t @ [call_object (length (tu_calls t)) b]\<rparr>
      else if cb_type b = ''tool_result'' then
        t\<lparr>tu_out := tu_out t @
          [\<lparr>msg_role = ''tool'', msg_content = tool_result_content (cb_content b), msg_name = [],
            msg_extra = [(''tool_call_id'', json_of_string (cb_tool_use_id b))],
            msg_tool_error = cb_is_error b\<rparr>]\<rparr>
      else t)"

definition plain_message :: "string \<Rightarrow> raw_message \<Rightarrow> message" where
  "plain_message role content = \<lparr>msg_role = role, msg_content = content, msg_name = [], msg_extra = [],
     msg_tool_error = False\<rparr>"

definition to_openai_messages :: "a_message \<Rightarrow> message list" where
  "to_openai_messages m = (case decode_blocks (am_content m) of
      None \<Rightarrow> [plain_message (am_role m) (am_content m)]
    | Some bs \<Rightarrow>
        (let t = fold turn_block bs \<lparr>tu_out = [], tu_parts = [], tu_calls = [], tu_text = []\<rparr>
         in if tu_calls t \<noteq> [] then
              tu_out t @ [(plain_message ''assistant''
                  (if tu_text t \<noteq> [] then Some (json_of_string (tu_text t)) else None))
                \<lparr>msg_extra := [(''tool_calls'', json_array (tu_calls t))]\<rparr>]
            else if tu_parts t \<noteq> [] then
              tu_out t @ [plain_message (am_role m)
                (Some (if length (tu_parts t) = 1 \<and> tu_text t \<noteq> [] then json_of_string (tu_text t)
                       else json_array (tu_parts t)))]
            else tu_out t))"

definition to_openai_tools :: "a_tool list \<Rightarrow> json option" where
  "to_openai_tools ts = (case filter (\<lambda>t. at_name t \<noteq> []) ts of
      [] \<Rightarrow> None
    | ts \<Rightarrow> Some (json_array (map (\<lambda>t. json_object
        [(''function'', json_object (omit_empty ''description'' (at_description t)
            @ [(''name'', json_of_string (at_name t))] @ omit_nil ''parameters'' (at_schema t))),
         (''type'', json_of_string ''function'')]) ts)))"

definition to_openai_tool_choice :: "tool_choice option \<Rightarrow> json option" where
  "to_openai_tool_choice c = (case c of None \<Rightarrow> None
     | Some c \<Rightarrow>
         if tc_type c = ''auto'' then Some (json_of_string ''auto'')
         else if tc_type c = ''none'' then Some (json_of_string ''none'')
         else if tc_type c = ''any'' then Some (json_of_string ''required'')
         else if tc_type c = ''tool'' then
           (if tc_name c = [] then None
            else Some (json_object [(''function'', json_object [(''name'', json_of_string (tc_name c))]),
                (''type'', json_of_string ''function'')]))
         else None)"

definition to_openai_request :: "a_request \<Rightarrow> chat_request" where
  "to_openai_request req =
     \<lparr>cr_model = aq_model req,
      cr_messages =
        (if system_text (aq_system req) \<noteq> []
         then [plain_message ''system'' (Some (json_of_string (system_text (aq_system req))))] else [])
        @ concat (map to_openai_messages (aq_messages req)),
      cr_stream = aq_stream req, cr_stream_options = None,
      cr_temperature = aq_temperature req, cr_top_p = aq_top_p req,
      cr_max_tokens = (if aq_max_tokens req > 0 then Some (aq_max_tokens req) else None),
      cr_stop = aq_stop_seqs req, cr_user = [],
      cr_extra = (case to_openai_tools (aq_tools req) of None \<Rightarrow> []
        | Some ts \<Rightarrow> (''tools'', ts) # omit_nil ''tool_choice'' (to_openai_tool_choice (aq_tool_choice req)))\<rparr>"

section \<open>Responses\<close>

definition stop_reason :: "string \<Rightarrow> string" where
  "stop_reason r =
     (if r = ''length'' then ''max_tokens''
      else if r = ''tool_calls'' \<or> r = ''function_call'' then ''tool_use''
      else if r = [] then [] else ''end_turn'')"

definition to_anthropic_usage :: "usage_report option \<Rightarrow> a_usage option" where
  "to_anthropic_usage u = map_option (\<lambda>r.
     let cached = usage_cached u; written = usage_cache_write u;
         inp = ur_prompt r - cached - written
     in \<lparr>au_input = (if inp < 0 then 0 else inp), au_output = ur_completion r,
         au_cache_read = cached, au_cache_creation = written\<rparr>) u"

definition tool_use_block :: "openai_tool_call \<Rightarrow> content_block" where
  "tool_use_block c = empty_block\<lparr>cb_type := ''tool_use'', cb_id := oc_id c, cb_name := oc_name c,
     cb_input := Some (valid_or_empty (oc_arguments c))\<rparr>"

text \<open>The struct of this package has no \<^verbatim>\<open>index\<close> and \<^verbatim>\<open>type\<close>; what they hold is not looked at.\<close>

definition decode_plain_call :: "json \<Rightarrow> openai_tool_call option" where
  "decode_plain_call v = do {
     ms \<leftarrow> as_object v;
     i \<leftarrow> string_of ''id'' ms;
     fs \<leftarrow> decode_function ''function'' ms;
     n \<leftarrow> string_of ''name'' fs; a \<leftarrow> string_of ''arguments'' fs;
     Some \<lparr>oc_index = None, oc_id = i, oc_type = [], oc_name = n, oc_arguments = a\<rparr> }"

definition tool_use_blocks :: "raw_message \<Rightarrow> content_block list" where
  "tool_use_blocks r = (case unmarshal_list decode_plain_call r of
      None \<Rightarrow> [] | Some cs \<Rightarrow> map tool_use_block cs)"

definition to_anthropic_response :: "chat_response \<Rightarrow> a_response" where
  "to_anthropic_response r =
     (let base = \<lparr>ap_id = rsp_id r, ap_type = ''message'', ap_role = ''assistant'', ap_model = rsp_model r,
            ap_content = [], ap_stop_reason = None, ap_stop_seq = None,
            ap_usage = to_anthropic_usage (rsp_usage r)\<rparr>
      in case rsp_choices r of [] \<Rightarrow> base
       | c # _ \<Rightarrow> base\<lparr>ap_content := (case ch_message c of None \<Rightarrow> []
             | Some m \<Rightarrow>
                 (case message_text m of None \<Rightarrow> [] | Some t \<Rightarrow>
                    if t \<noteq> [] then [empty_block\<lparr>cb_type := ''text'', cb_text := t\<rparr>] else [])
                 @ tool_use_blocks (map_of (msg_extra m) ''tool_calls'')),
           ap_stop_reason := (case ch_finish_reason c of None \<Rightarrow> None
             | Some f \<Rightarrow> if f = [] then None else Some (stop_reason f))\<rparr>)"

section \<open>Streams\<close>

text \<open>The events the state machine emits, with the payload fields that vary.\<close>

datatype m_event =
    MessageStart string string            \<comment> \<open>id and model\<close>
  | BlockStart int content_block          \<comment> \<open>index and opening block\<close>
  | TextDelta int string
  | JsonDelta int string
  | BlockStop int
  | MessageDelta string "a_usage"         \<comment> \<open>stop reason and usage\<close>
  | MessageStop
  | Ping

definition typed_event :: "string \<Rightarrow> (string \<times> json) list \<Rightarrow> string \<times> json" where
  "typed_event name fs = (name, json_object (sort_key fst (fs @ [(''type'', json_of_string name)])))"

text \<open>The opening payload of a text block writes its empty text, which \<^verbatim>\<open>ContentBlock\<close> would omit.\<close>

definition opening_block :: "content_block \<Rightarrow> json" where
  "opening_block b = (if cb_type b = ''text''
     then json_object [(''text'', json_of_string []), (''type'', json_of_string ''text'')]
     else encode_block b)"

fun event_frame :: "m_event \<Rightarrow> string \<times> json" where
  "event_frame (MessageStart i m) = typed_event ''message_start''
     [(''message'', encode_a_response \<lparr>ap_id = i, ap_type = ''message'', ap_role = ''assistant'',
        ap_model = m, ap_content = [], ap_stop_reason = None, ap_stop_seq = None, ap_usage = Some zero_usage\<rparr>)]"
| "event_frame (BlockStart ix b) = typed_event ''content_block_start''
     [(''index'', json_of_int ix), (''content_block'', opening_block b)]"
| "event_frame (TextDelta ix t) = typed_event ''content_block_delta''
     [(''index'', json_of_int ix), (''delta'', encode_delta
        \<lparr>ad_type = ''text_delta'', ad_text = t, ad_partial_json = [], ad_stop_reason = []\<rparr>)]"
| "event_frame (JsonDelta ix p) = typed_event ''content_block_delta''
     [(''index'', json_of_int ix), (''delta'', encode_delta
        \<lparr>ad_type = ''input_json_delta'', ad_text = [], ad_partial_json = p, ad_stop_reason = []\<rparr>)]"
| "event_frame (BlockStop ix) = typed_event ''content_block_stop'' [(''index'', json_of_int ix)]"
| "event_frame (MessageDelta r u) = typed_event ''message_delta''
     [(''delta'', json_object [(''stop_reason'', json_of_string r), (''stop_sequence'', json_null)]),
      (''usage'', encode_a_usage u)]"
| "event_frame MessageStop = typed_event ''message_stop'' []"
| "event_frame Ping = typed_event ''ping'' []"

datatype block_kind = TextBlock | ToolBlock

record message_stream =
  ms_id :: string
  ms_model :: string
  ms_started :: bool
  ms_opened :: bool
  ms_block_open :: bool
  ms_block_kind :: "block_kind option"
  ms_block_index :: int
  ms_tool_blocks :: "(int, int) gomap"
  ms_stop_reason :: string
  ms_usage :: "usage_report option"

definition new_message_stream :: "string \<Rightarrow> message_stream" where
  "new_message_stream model = \<lparr>ms_id = [], ms_model = model, ms_started = False, ms_opened = False,
     ms_block_open = False, ms_block_kind = None, ms_block_index = 0, ms_tool_blocks = [],
     ms_stop_reason = [], ms_usage = None\<rparr>"

text \<open>Each step returns the events it frames and the next state; the writer stops at the first failing
  frame (\<open>emit\<close> below).\<close>

type_synonym 's stepped = "m_event list \<times> 's"

definition ms_start :: "string \<Rightarrow> string \<Rightarrow> message_stream \<Rightarrow> message_stream stepped" where
  "ms_start i model s =
     (if ms_started s then ([], s)
      else let s' = s\<lparr>ms_started := True, ms_id := i, ms_model := (if model \<noteq> [] then model else ms_model s)\<rparr>
           in ([MessageStart (ms_id s') (ms_model s')], s'))"

definition ms_close_block :: "message_stream \<Rightarrow> message_stream stepped" where
  "ms_close_block s = (if \<not> ms_block_open s then ([], s)
     else ([BlockStop (ms_block_index s)], s\<lparr>ms_block_open := False\<rparr>))"

definition ms_open_block :: "block_kind \<Rightarrow> content_block \<Rightarrow> message_stream \<Rightarrow> message_stream stepped" where
  "ms_open_block kind b s =
     (if ms_block_open s \<and> ms_block_kind s = Some kind \<and> kind = TextBlock then ([], s)
      else (case ms_close_block s of (es, s') \<Rightarrow>
        let ix = (if ms_opened s' then ms_block_index s' + 1 else ms_block_index s');
            s'' = s'\<lparr>ms_block_index := ix, ms_opened := True, ms_block_open := True, ms_block_kind := Some kind\<rparr>
        in (es @ [BlockStart ix b], s'')))"

definition text_opening :: content_block where
  "text_opening = empty_block\<lparr>cb_type := ''text''\<rparr>"

definition tool_opening :: "string \<Rightarrow> string \<Rightarrow> content_block" where
  "tool_opening i n = empty_block\<lparr>cb_type := ''tool_use'', cb_id := i, cb_name := n, cb_input := Some (json_object [])\<rparr>"

record stream_tool_call =
  sc_index :: "int option"
  sc_id :: string
  sc_name :: string
  sc_arguments :: string

definition decode_stream_call :: "json \<Rightarrow> stream_tool_call option" where
  "decode_stream_call v = do {
     ms \<leftarrow> as_object v;
     ix \<leftarrow> pointer_field as_int ''index'' ms;
     i \<leftarrow> string_of ''id'' ms;
     fs \<leftarrow> decode_function ''function'' ms;
     n \<leftarrow> string_of ''name'' fs; a \<leftarrow> string_of ''arguments'' fs;
     Some \<lparr>sc_index = ix, sc_id = i, sc_name = n, sc_arguments = a\<rparr> }"

definition stream_tool_calls :: "raw_message \<Rightarrow> stream_tool_call list" where
  "stream_tool_calls r = (case unmarshal_list decode_stream_call r of None \<Rightarrow> [] | Some cs \<Rightarrow> cs)"

definition call_index :: "stream_tool_call \<Rightarrow> int" where
  "call_index c = (case sc_index c of None \<Rightarrow> 0 | Some i \<Rightarrow> i)"

definition ms_tool_call :: "stream_tool_call \<Rightarrow> message_stream \<Rightarrow> message_stream stepped" where
  "ms_tool_call c s =
     (let ix = call_index c;
          (es, s1) = (case map_of (ms_tool_blocks s) ix of
              Some _ \<Rightarrow> ([], s)
            | None \<Rightarrow> (case ms_open_block ToolBlock (tool_opening (sc_id c) (sc_name c)) s of (es, s') \<Rightarrow>
                (es, s'\<lparr>ms_tool_blocks := map_put ix (ms_block_index s') (ms_tool_blocks s')\<rparr>)))
      in if sc_arguments c = [] then (es, s1)
         else (es @ [JsonDelta (the (map_of (ms_tool_blocks s1) ix)) (sc_arguments c)], s1))"

fun ms_tool_deltas :: "stream_tool_call list \<Rightarrow> message_stream \<Rightarrow> message_stream stepped" where
  "ms_tool_deltas [] s = ([], s)"
| "ms_tool_deltas (c # cs) s = (case ms_tool_call c s of (es, s') \<Rightarrow>
     (case ms_tool_deltas cs s' of (es', s'') \<Rightarrow> (es @ es', s'')))"

definition ms_text :: "string \<Rightarrow> message_stream \<Rightarrow> message_stream stepped" where
  "ms_text t s = (case ms_open_block TextBlock text_opening s of (es, s') \<Rightarrow>
     (es @ [TextDelta (ms_block_index s') t], s'))"

definition ms_delta :: "message \<Rightarrow> message_stream \<Rightarrow> message_stream stepped" where
  "ms_delta d s =
     (case (case message_text d of Some t \<Rightarrow> if t \<noteq> [] then ms_text t s else ([], s) | None \<Rightarrow> ([], s)) of
        (es, s') \<Rightarrow> (case ms_tool_deltas (stream_tool_calls (map_of (msg_extra d) ''tool_calls'')) s' of
          (es', s'') \<Rightarrow> (es @ es', s'')))"

definition ms_choice :: "choice \<Rightarrow> message_stream \<Rightarrow> message_stream stepped" where
  "ms_choice c s =
     (case (case ch_delta c of None \<Rightarrow> ([], s) | Some d \<Rightarrow> ms_delta d s) of (es, s') \<Rightarrow>
        (es, case ch_finish_reason c of
           Some f \<Rightarrow> if f \<noteq> [] then s'\<lparr>ms_stop_reason := stop_reason f\<rparr> else s'
         | None \<Rightarrow> s'))"

fun ms_choices :: "choice list \<Rightarrow> message_stream \<Rightarrow> message_stream stepped" where
  "ms_choices [] s = ([], s)"
| "ms_choices (c # cs) s = (case ms_choice c s of (es, s') \<Rightarrow>
     (case ms_choices cs s' of (es', s'') \<Rightarrow> (es @ es', s'')))"

definition ms_chunk :: "stream_chunk \<Rightarrow> message_stream \<Rightarrow> message_stream stepped" where
  "ms_chunk c s =
     (let s = (case rsp_usage c of None \<Rightarrow> s | Some u \<Rightarrow> s\<lparr>ms_usage := Some u\<rparr>)
      in case ms_start (rsp_id c) (rsp_model c) s of (es, s') \<Rightarrow>
         (case ms_choices (rsp_choices c) s' of (es', s'') \<Rightarrow> (es @ es', s'')))"

definition ms_finish :: "message_stream \<Rightarrow> message_stream stepped" where
  "ms_finish s =
     (case (if ms_started s then ([], s) else ms_start [] (ms_model s) s) of (es, s1) \<Rightarrow>
      (case ms_close_block s1 of (es', s2) \<Rightarrow>
        (es @ es' @
          [MessageDelta (if ms_stop_reason s2 = [] then ''end_turn'' else ms_stop_reason s2)
             (case to_anthropic_usage (ms_usage s2) of None \<Rightarrow> zero_usage | Some u \<Rightarrow> u),
           MessageStop], s2)))"

text \<open>The relay: frames until one fails, the context ends or the channel closes.\<close>

fun emit :: "m_event list \<Rightarrow> sse_writer \<Rightarrow> stream_error option \<times> sse_writer" where
  "emit [] w = (None, w)"
| "emit (e # es) w = (case named_event (fst (event_frame e)) (snd (event_frame e)) w of
      (None, w') \<Rightarrow> emit es w'
    | (Some err, w') \<Rightarrow> (Some err, w'))"

fun relay_messages ::
  "stream_chunk selected list \<Rightarrow> message_stream \<Rightarrow> sse_writer \<Rightarrow> stream_error option \<times> sse_writer"
where
  "relay_messages [] s w = (None, w)"
| "relay_messages (CtxDone # ss) s w = (Some StreamCanceled, w)"
| "relay_messages (Closed # ss) s w = emit (fst (ms_finish s)) w"
| "relay_messages (Received c # ss) s w = (case ms_chunk c s of (es, s') \<Rightarrow>
     (case emit es w of (None, w') \<Rightarrow> relay_messages ss s' w' | (Some e, w') \<Rightarrow> (Some e, w')))"
| "relay_messages (Idle # ss) s w = (case emit [Ping] w of
      (None, w') \<Rightarrow> relay_messages ss s w' | (Some e, w') \<Rightarrow> (Some e, w'))"

section \<open>The stream, part by part\<close>

text \<open>Only the texts and the tool calls of a chunk produce events; the choices merely group them.\<close>

datatype part = PText string | PCall stream_tool_call

definition delta_parts :: "message \<Rightarrow> part list" where
  "delta_parts d = (case message_text d of Some t \<Rightarrow> if t \<noteq> [] then [PText t] else [] | None \<Rightarrow> [])
     @ map PCall (stream_tool_calls (map_of (msg_extra d) ''tool_calls''))"

definition chunk_parts :: "stream_chunk \<Rightarrow> part list" where
  "chunk_parts c = concat (map (\<lambda>ch. case ch_delta ch of None \<Rightarrow> [] | Some d \<Rightarrow> delta_parts d) (rsp_choices c))"

fun part_step :: "part \<Rightarrow> message_stream \<Rightarrow> message_stream stepped" where
  "part_step (PText t) s = ms_text t s"
| "part_step (PCall c) s = ms_tool_call c s"

fun run_parts :: "part list \<Rightarrow> message_stream \<Rightarrow> message_stream stepped" where
  "run_parts [] s = ([], s)"
| "run_parts (p # ps) s = (case part_step p s of (es, s') \<Rightarrow>
     (case run_parts ps s' of (es', s'') \<Rightarrow> (es @ es', s'')))"

lemma run_parts_append:
  "run_parts (ps @ qs) s = (case run_parts ps s of (es, s') \<Rightarrow>
     (case run_parts qs s' of (es', s'') \<Rightarrow> (es @ es', s'')))"
  by (induction ps arbitrary: s) (auto split: prod.splits)

text \<open>What the finishing events need, the stop reason and the usage, is carried along untouched.\<close>

definition set_tail :: "string \<Rightarrow> usage_report option \<Rightarrow> message_stream \<Rightarrow> message_stream" where
  "set_tail r u s = s\<lparr>ms_stop_reason := r, ms_usage := u\<rparr>"

lemma set_tail_again [simp]: "set_tail r u (set_tail r' u' s) = set_tail r u s"
  by (simp add: set_tail_def)

lemma part_step_tail: "part_step p (set_tail r u s) = apsnd (set_tail r u) (part_step p s)"
  by (cases p) (auto simp: set_tail_def ms_text_def ms_tool_call_def ms_open_block_def ms_close_block_def
      Let_def split: prod.splits option.splits)

lemma run_parts_tail: "run_parts ps (set_tail r u s) = apsnd (set_tail r u) (run_parts ps s)"
  by (induction ps arbitrary: s) (auto simp: part_step_tail split: prod.splits)

lemma ms_tool_deltas_parts: "ms_tool_deltas cs s = run_parts (map PCall cs) s"
  by (induction cs arbitrary: s) (auto split: prod.splits)

lemma ms_delta_parts: "ms_delta d s = run_parts (delta_parts d) s"
  by (auto simp: ms_delta_def delta_parts_def ms_tool_deltas_parts split: prod.splits option.splits)

lemma ms_choices_parts:
  "\<exists>r u. ms_choices cs s = apsnd (set_tail r u)
     (run_parts (concat (map (\<lambda>ch. case ch_delta ch of None \<Rightarrow> [] | Some d \<Rightarrow> delta_parts d) cs)) s)"
proof (induction cs arbitrary: s)
  case Nil
  show ?case by (rule exI [of _ "ms_stop_reason s"], rule exI [of _ "ms_usage s"]) (simp add: set_tail_def)
next
  case (Cons c cs)
  obtain es s1 where d: "(case ch_delta c of None \<Rightarrow> ([], s) | Some d \<Rightarrow> ms_delta d s) = (es, s1)" by force
  then have d': "run_parts (case ch_delta c of None \<Rightarrow> [] | Some d \<Rightarrow> delta_parts d) s = (es, s1)"
    by (auto simp: ms_delta_parts split: option.splits)
  define r1 where "r1 = (case ch_finish_reason c of
      Some f \<Rightarrow> if f \<noteq> [] then stop_reason f else ms_stop_reason s1 | None \<Rightarrow> ms_stop_reason s1)"
  have c: "ms_choice c s = (es, set_tail r1 (ms_usage s1) s1)"
    unfolding ms_choice_def d prod.case
    by (cases s1) (simp add: set_tail_def r1_def split: option.split)
  obtain r u where "ms_choices cs (set_tail r1 (ms_usage s1) s1) = apsnd (set_tail r u) (run_parts
      (concat (map (\<lambda>ch. case ch_delta ch of None \<Rightarrow> [] | Some d \<Rightarrow> delta_parts d) cs))
      (set_tail r1 (ms_usage s1) s1))"
    using Cons.IH by blast
  then have "ms_choices (c # cs) s = apsnd (set_tail r u) (run_parts (concat (map (\<lambda>ch. case ch_delta ch of
      None \<Rightarrow> [] | Some d \<Rightarrow> delta_parts d) (c # cs))) s)"
    using c d' by (simp add: run_parts_append run_parts_tail split: prod.splits)
  then show ?case by blast
qed

definition whole_stream :: "string \<Rightarrow> stream_chunk list \<Rightarrow> m_event list" where
  "whole_stream model cs = (case fold (\<lambda>c (es, s). case ms_chunk c s of (es', s') \<Rightarrow> (es @ es', s'))
       cs ([], new_message_stream model) of
     (es, s) \<Rightarrow> es @ fst (ms_finish s))"

definition all_parts :: "stream_chunk list \<Rightarrow> part list" where
  "all_parts cs = concat (map chunk_parts cs)"

definition begun :: "string \<Rightarrow> string \<Rightarrow> message_stream \<Rightarrow> message_stream" where
  "begun i m s = s\<lparr>ms_started := True, ms_id := i, ms_model := m\<rparr>"

lemma part_step_started: "ms_started (snd (part_step p s)) = ms_started s"
  by (cases p) (auto simp: ms_text_def ms_tool_call_def ms_open_block_def ms_close_block_def
      Let_def split: prod.splits option.splits)

lemma run_parts_started: "ms_started (snd (run_parts ps s)) = ms_started s"
  by (induction ps arbitrary: s) (simp_all add: split_def part_step_started)

lemma ms_chunk_started:
  assumes "ms_started s"
  shows "\<exists>r u. ms_chunk c s = apsnd (set_tail r u) (run_parts (chunk_parts c) s)"
proof -
  let ?s = "case rsp_usage c of None \<Rightarrow> s | Some u \<Rightarrow> s\<lparr>ms_usage := Some u\<rparr>"
  have t: "?s = set_tail (ms_stop_reason s) (ms_usage ?s) s"
    by (cases s) (simp add: set_tail_def split: option.split)
  obtain r u where "ms_choices (rsp_choices c) ?s = apsnd (set_tail r u) (run_parts (chunk_parts c) ?s)"
    using ms_choices_parts unfolding chunk_parts_def by blast
  moreover have "ms_started ?s" using assms by (simp split: option.split)
  ultimately have "ms_chunk c s = apsnd (set_tail r u) (run_parts (chunk_parts c) ?s)"
    by (simp add: ms_chunk_def ms_start_def Let_def split: prod.splits)
  also have "\<dots> = apsnd (set_tail r u) (run_parts (chunk_parts c) s)"
    by (subst t) (simp add: run_parts_tail split_def apsnd_def map_prod_def)
  finally show ?thesis by blast
qed

abbreviation chunk_fold :: "stream_chunk \<Rightarrow> m_event list \<times> message_stream \<Rightarrow> m_event list \<times> message_stream" where
  "chunk_fold \<equiv> \<lambda>c (es, s). case ms_chunk c s of (es', s') \<Rightarrow> (es @ es', s')"

lemma chunks_started:
  "ms_started s \<Longrightarrow> \<exists>r u. fold chunk_fold cs (es, s) =
     (case run_parts (all_parts cs) s of (es', s') \<Rightarrow> (es @ es', set_tail r u s'))"
proof (induction cs arbitrary: es s)
  case Nil
  show ?case
    by (rule exI [of _ "ms_stop_reason s"], rule exI [of _ "ms_usage s"])
      (cases s, simp add: set_tail_def all_parts_def)
next
  case (Cons c cs)
  obtain r u where c: "ms_chunk c s = apsnd (set_tail r u) (run_parts (chunk_parts c) s)"
    using ms_chunk_started [OF Cons.prems] by blast
  obtain es1 s1 where p: "run_parts (chunk_parts c) s = (es1, s1)" by force
  then have "ms_started (set_tail r u s1)"
    using run_parts_started [of "chunk_parts c" s] Cons.prems by (simp add: set_tail_def)
  from Cons.IH [OF this, of "es @ es1"] obtain r' u' where
    "fold chunk_fold cs (es @ es1, set_tail r u s1) =
      (case run_parts (all_parts cs) (set_tail r u s1) of (es', s') \<Rightarrow> (es @ es1 @ es', set_tail r' u' s'))"
    by auto
  then have "fold chunk_fold (c # cs) (es, s) =
     (case run_parts (all_parts (c # cs)) s of (es', s') \<Rightarrow> (es @ es', set_tail r' u' s'))"
    by (simp add: c p all_parts_def run_parts_append run_parts_tail split_def apsnd_def map_prod_def)
  then show ?case by blast
qed

text \<open>The normal form of a whole stream.\<close>

lemma whole_stream_form:
  "\<exists>i m r u. whole_stream model cs =
     (case run_parts (all_parts cs) (begun i m (new_message_stream model)) of
       (es, s) \<Rightarrow> MessageStart i m # es @ fst (ms_close_block s) @ [MessageDelta r u, MessageStop])"
proof (cases cs)
  case Nil
  then show ?thesis
    by (auto simp: whole_stream_def ms_finish_def ms_start_def all_parts_def begun_def
        new_message_stream_def ms_close_block_def)
next
  case (Cons c cs')
  let ?s0 = "new_message_stream model"
  let ?m = "if rsp_model c \<noteq> [] then rsp_model c else model"
  let ?s1 = "begun (rsp_id c) ?m ?s0"
  have "\<exists>r u. ms_chunk c ?s0 = (case run_parts (chunk_parts c) ?s1 of
      (es, s) \<Rightarrow> (MessageStart (rsp_id c) ?m # es, set_tail r u s))"
  proof -
    let ?s2 = "begun (rsp_id c) ?m (case rsp_usage c of None \<Rightarrow> ?s0 | Some u \<Rightarrow> ?s0\<lparr>ms_usage := Some u\<rparr>)"
    have t: "?s2 = set_tail [] (rsp_usage c) ?s1"
      by (simp add: set_tail_def begun_def new_message_stream_def split: option.split)
    have "ms_chunk c ?s0 = (case ms_choices (rsp_choices c) ?s2 of
        (es, s) \<Rightarrow> (MessageStart (rsp_id c) ?m # es, s))"
      by (simp add: ms_chunk_def ms_start_def begun_def new_message_stream_def Let_def split: option.split)
    moreover obtain r u where "ms_choices (rsp_choices c) ?s2 = apsnd (set_tail r u) (run_parts (chunk_parts c) ?s2)"
      using ms_choices_parts unfolding chunk_parts_def by blast
    ultimately have "ms_chunk c ?s0 = (case apsnd (set_tail r u) (run_parts (chunk_parts c) ?s1) of
        (es, s) \<Rightarrow> (MessageStart (rsp_id c) ?m # es, s))"
      unfolding t run_parts_tail by (simp add: split_def)
    then show ?thesis
      by (intro exI [of _ r] exI [of _ u]) (simp add: split_def)
  qed
  then obtain r u where c: "ms_chunk c ?s0 = (case run_parts (chunk_parts c) ?s1 of
      (es, s) \<Rightarrow> (MessageStart (rsp_id c) ?m # es, set_tail r u s))" by blast
  obtain es s where p: "run_parts (chunk_parts c) ?s1 = (es, s)" by force
  then have st: "ms_started s"
    using run_parts_started [of "chunk_parts c" ?s1] by (simp add: begun_def)
  then obtain r' u' where f: "fold chunk_fold cs' (MessageStart (rsp_id c) ?m # es, set_tail r u s) =
     (case run_parts (all_parts cs') (set_tail r u s) of
        (es', s') \<Rightarrow> (MessageStart (rsp_id c) ?m # es @ es', set_tail r' u' s'))"
    using chunks_started [of "set_tail r u s" cs' "MessageStart (rsp_id c) ?m # es"]
    by (auto simp: set_tail_def)
  obtain es' s' where q: "run_parts (all_parts cs') s = (es', s')" by force
  then have st': "ms_started s'" using run_parts_started [of "all_parts cs'" s] st by simp
  have "fold chunk_fold cs ([], ?s0) = (MessageStart (rsp_id c) ?m # es @ es', set_tail r' u' s')"
    using f q by (simp add: Cons c p run_parts_tail)
  then have "whole_stream model cs = MessageStart (rsp_id c) ?m # es @ es' @ fst (ms_finish (set_tail r' u' s'))"
    by (simp add: whole_stream_def)
  moreover have "\<exists>r u. fst (ms_finish (set_tail r' u' s')) = fst (ms_close_block s') @ [MessageDelta r u, MessageStop]"
    using st' by (auto simp: ms_finish_def set_tail_def ms_close_block_def split: prod.splits)
  moreover have "run_parts (all_parts cs) ?s1 = (es @ es', s')"
    using p q by (simp add: all_parts_def Cons run_parts_append)
  ultimately show ?thesis by (metis (no_types, lifting) append.assoc append_Cons prod.case)
qed

section \<open>The protocol of the dialect\<close>

text \<open>What a client's parser tracks: the phase, the next block index, the tool blocks seen. A strict
  parser takes argument fragments for the open block only.\<close>

datatype parse_phase = Fresh | Between | InBlock block_kind | Reported | Over

record parser =
  ps_phase :: parse_phase
  ps_next :: int
  ps_tools :: "int set"

definition fresh_parser :: parser where
  "fresh_parser = \<lparr>ps_phase = Fresh, ps_next = 0, ps_tools = {}\<rparr>"

definition kind_of :: "content_block \<Rightarrow> block_kind" where
  "kind_of b = (if cb_type b = ''text'' then TextBlock else ToolBlock)"

fun parse_event :: "bool \<Rightarrow> m_event \<Rightarrow> parser \<Rightarrow> parser option" where
  "parse_event strict (MessageStart i m) p =
     (if ps_phase p = Fresh then Some (p\<lparr>ps_phase := Between\<rparr>) else None)"
| "parse_event strict (BlockStart ix b) p =
     (if ps_phase p = Between \<and> ix = ps_next p then
        Some (p\<lparr>ps_phase := InBlock (kind_of b),
                ps_tools := (if kind_of b = ToolBlock then insert ix (ps_tools p) else ps_tools p)\<rparr>)
      else None)"
| "parse_event strict (TextDelta ix t) p =
     (if ps_phase p = InBlock TextBlock \<and> ix = ps_next p then Some p else None)"
| "parse_event strict (JsonDelta ix j) p =
     (if ix \<in> ps_tools p \<and> ps_phase p \<notin> {Fresh, Reported, Over}
         \<and> (strict \<longrightarrow> ps_phase p = InBlock ToolBlock \<and> ix = ps_next p) then Some p else None)"
| "parse_event strict (BlockStop ix) p =
     (if (ps_phase p = InBlock TextBlock \<or> ps_phase p = InBlock ToolBlock) \<and> ix = ps_next p
      then Some (p\<lparr>ps_phase := Between, ps_next := ps_next p + 1\<rparr>) else None)"
| "parse_event strict (MessageDelta r u) p =
     (if ps_phase p = Between then Some (p\<lparr>ps_phase := Reported\<rparr>) else None)"
| "parse_event strict MessageStop p =
     (if ps_phase p = Reported then Some (p\<lparr>ps_phase := Over\<rparr>) else None)"
| "parse_event strict Ping p = Some p"

fun parse_events :: "bool \<Rightarrow> m_event list \<Rightarrow> parser \<Rightarrow> parser option" where
  "parse_events strict [] p = Some p"
| "parse_events strict (e # es) p = Option.bind (parse_event strict e p) (parse_events strict es)"

lemma parse_events_append:
  "parse_events strict (xs @ ys) p = Option.bind (parse_events strict xs p) (parse_events strict ys)"
  by (induction xs arbitrary: p) (auto split: bind_splits)

text \<open>An upstream that finishes one tool call before it turns to anything else.\<close>

fun sequential :: "int set \<Rightarrow> int option \<Rightarrow> part list \<Rightarrow> bool" where
  "sequential seen cur [] = True"
| "sequential seen cur (PText t # ps) = sequential seen None ps"
| "sequential seen cur (PCall c # ps) =
     (if call_index c \<in> seen then (cur = Some (call_index c) \<or> sc_arguments c = []) \<and> sequential seen cur ps
      else sequential (insert (call_index c) seen) (Some (call_index c)) ps)"

definition parser_of :: "message_stream \<Rightarrow> parser" where
  "parser_of s = \<lparr>ps_phase = (if ms_block_open s then InBlock (the (ms_block_kind s)) else Between),
     ps_next = (if ms_opened s then if ms_block_open s then ms_block_index s else ms_block_index s + 1 else 0),
     ps_tools = ran (map_of (ms_tool_blocks s))\<rparr>"

definition stream_inv :: "int set \<Rightarrow> int option \<Rightarrow> message_stream \<Rightarrow> bool" where
  "stream_inv seen cur s \<longleftrightarrow> ms_started s \<and> seen = dom (map_of (ms_tool_blocks s))
     \<and> (ms_block_open s \<longrightarrow> ms_opened s \<and> ms_block_kind s \<noteq> None) \<and> (\<not> ms_opened s \<longrightarrow> ms_block_index s = 0)
     \<and> (\<forall>i. cur = Some i \<longrightarrow> ms_block_open s \<and> ms_block_kind s = Some ToolBlock
          \<and> map_of (ms_tool_blocks s) i = Some (ms_block_index s))"

lemma open_block_step:
  assumes "stream_inv seen cur s" and "ms_open_block k b s = (es, s')" and "kind_of b = k"
    and "k = ToolBlock \<or> \<not> (ms_block_open s \<and> ms_block_kind s = Some TextBlock)"
  shows "parse_events strict es (parser_of s) =
      Some ((parser_of s')\<lparr>ps_tools := (if k = ToolBlock then insert (ms_block_index s') (ps_tools (parser_of s))
                                     else ps_tools (parser_of s))\<rparr>)"
    and "ms_started s' \<and> ms_block_open s' \<and> ms_opened s' \<and> ms_block_kind s' = Some k
      \<and> ms_tool_blocks s' = ms_tool_blocks s"
proof -
  have guard: "\<not> (ms_block_open s \<and> ms_block_kind s = Some k \<and> k = TextBlock)"
    using assms(4) by auto
  let ?ix = "if ms_opened s then ms_block_index s + 1 else ms_block_index s"
  let ?s' = "s\<lparr>ms_block_index := ?ix, ms_opened := True, ms_block_open := True, ms_block_kind := Some k\<rparr>"
  have "ms_open_block k b s =
      ((if ms_block_open s then [BlockStop (ms_block_index s)] else []) @ [BlockStart ?ix b], ?s')"
    unfolding ms_open_block_def if_not_P [OF guard]
    by (cases "ms_block_open s") (simp_all add: ms_close_block_def Let_def)
  with assms(2) have s': "s' = ?s'"
    and es: "es = (if ms_block_open s then [BlockStop (ms_block_index s)] else []) @ [BlockStart ?ix b]"
    by simp_all
  show "ms_started s' \<and> ms_block_open s' \<and> ms_opened s' \<and> ms_block_kind s' = Some k
      \<and> ms_tool_blocks s' = ms_tool_blocks s"
    using assms(1) by (simp add: s' stream_inv_def)
  show "parse_events strict es (parser_of s) =
      Some ((parser_of s')\<lparr>ps_tools := (if k = ToolBlock then insert (ms_block_index s') (ps_tools (parser_of s))
                                     else ps_tools (parser_of s))\<rparr>)"
  proof (cases "ms_block_open s")
    case True
    then obtain j where "ms_opened s" "ms_block_kind s = Some j" using assms(1) by (auto simp: stream_inv_def)
    with True show ?thesis
      by (cases j) (simp_all add: es s' parser_of_def assms(3))
  next
    case False
    with assms(1) show ?thesis
      by (simp add: es s' parser_of_def assms(3) stream_inv_def)
  qed
qed

lemma text_step:
  assumes "stream_inv seen cur s" and "ms_text t s = (es, s')"
  shows "parse_events strict es (parser_of s) = Some (parser_of s') \<and> stream_inv seen None s'"
proof (cases "ms_block_open s \<and> ms_block_kind s = Some TextBlock")
  case True
  then show ?thesis using assms
    by (auto simp: ms_text_def ms_open_block_def stream_inv_def parser_of_def)
next
  case False
  obtain es1 s1 where o: "ms_open_block TextBlock text_opening s = (es1, s1)" by force
  have k: "kind_of text_opening = TextBlock" by (simp add: kind_of_def text_opening_def)
  note st = open_block_step [OF assms(1) o k disjI2 [OF False]]
  have "s' = s1" "es = es1 @ [TextDelta (ms_block_index s1) t]" using assms(2) o by (auto simp: ms_text_def)
  then show ?thesis
    using st(1) [of strict] st(2) assms(1)
    by (auto simp: parse_events_append parser_of_def stream_inv_def)
qed

lemma call_step:
  assumes inv: "stream_inv seen cur s" and step: "ms_tool_call c s = (es, s')"
    and seq: "strict \<longrightarrow> call_index c \<in> seen \<longrightarrow> cur = Some (call_index c) \<or> sc_arguments c = []"
  shows "parse_events strict es (parser_of s) = Some (parser_of s')
    \<and> stream_inv (insert (call_index c) seen) (if call_index c \<in> seen then cur else Some (call_index c)) s'"
proof (cases "map_of (ms_tool_blocks s) (call_index c)")
  case (Some ix)
  then have "call_index c \<in> seen" using inv by (auto simp: stream_inv_def)
  moreover have "ix \<in> ran (map_of (ms_tool_blocks s))" using Some by (rule ranI)
  ultimately show ?thesis
    using Some assms by (auto simp: ms_tool_call_def Let_def parser_of_def stream_inv_def insert_absorb split: if_splits)
next
  case None
  then have new: "call_index c \<notin> seen" using inv by (auto simp: stream_inv_def)
  obtain es1 s1 where o: "ms_open_block ToolBlock (tool_opening (sc_id c) (sc_name c)) s = (es1, s1)" by force
  have k: "kind_of (tool_opening (sc_id c) (sc_name c)) = ToolBlock"
    by (simp add: kind_of_def tool_opening_def)
  note st = open_block_step [OF inv o k disjI1 [OF refl]]
  define s2 where "s2 = s1\<lparr>ms_tool_blocks := map_put (call_index c) (ms_block_index s1) (ms_tool_blocks s1)\<rparr>"
  have s': "s' = s2" and es: "es = es1 @ (if sc_arguments c = [] then []
      else [JsonDelta (ms_block_index s1) (sc_arguments c)])"
    using step None o by (auto simp: ms_tool_call_def Let_def s2_def split: if_splits)
  have ran: "ran (map_of (ms_tool_blocks s2)) = insert (ms_block_index s1) (ran (map_of (ms_tool_blocks s)))"
    using None st(2) by (simp add: s2_def)
  then have "(parser_of s1)\<lparr>ps_tools := insert (ms_block_index s1) (ps_tools (parser_of s))\<rparr> = parser_of s2"
    by (simp add: parser_of_def s2_def)
  then have "parse_events strict es1 (parser_of s) = Some (parser_of s2)" using st(1) [of strict] by simp
  moreover have "parse_events strict [JsonDelta (ms_block_index s1) a] (parser_of s2) = Some (parser_of s2)" for a
    using st(2) ran by (auto simp: parser_of_def s2_def)
  moreover have "stream_inv (insert (call_index c) seen) (Some (call_index c)) s2"
    using st(2) inv by (auto simp: stream_inv_def s2_def)
  ultimately show ?thesis using new by (auto simp: s' es parse_events_append)
qed

lemma run_parts_parse:
  "stream_inv seen cur s \<Longrightarrow> run_parts ps s = (es, s') \<Longrightarrow> (strict \<longrightarrow> sequential seen cur ps) \<Longrightarrow>
     parse_events strict es (parser_of s) = Some (parser_of s') \<and> (\<exists>seen' cur'. stream_inv seen' cur' s')"
proof (induction ps arbitrary: seen cur s es)
  case (Cons p ps)
  obtain es1 s1 es2 where st: "part_step p s = (es1, s1)" "run_parts ps s1 = (es2, s')" "es = es1 @ es2"
    using Cons.prems(2) by (auto split: prod.splits)
  show ?case
  proof (cases p)
    case (PText t)
    with st Cons.prems have "parse_events strict es1 (parser_of s) = Some (parser_of s1)" "stream_inv seen None s1"
      using text_step [OF Cons.prems(1)] by auto
    with Cons.IH [OF this(2) st(2)] Cons.prems(3) PText show ?thesis
      by (simp add: st(3) parse_events_append)
  next
    case (PCall c)
    let ?cur = "if call_index c \<in> seen then cur else Some (call_index c)"
    have "parse_events strict es1 (parser_of s) = Some (parser_of s1)"
      "stream_inv (insert (call_index c) seen) ?cur s1"
      using call_step [OF Cons.prems(1), of c es1 s1 strict] st(1) Cons.prems(3) PCall by auto
    moreover have "strict \<longrightarrow> sequential (insert (call_index c) seen) ?cur ps"
      using Cons.prems(3) PCall by (auto simp: insert_absorb)
    ultimately show ?thesis
      using Cons.IH [OF _ st(2)] by (simp add: st(3) parse_events_append)
  qed
qed auto

text \<open>
  C16. Every stream is well formed. Whatever chunks an upstream sends, the events an Anthropic client
  receives are one message: \<^verbatim>\<open>message_start\<close>, content blocks numbered from zero that open and close
  one after another without overlapping, text only inside text blocks, one
  \<^verbatim>\<open>message_delta\<close> and one \<^verbatim>\<open>message_stop\<close>; argument fragments always name a tool block that was
  opened. If moreover the upstream finishes a tool call before it turns to another part, every
  fragment arrives inside its own block, while that is open.
\<close>

theorem stream_is_well_formed:
  "\<exists>p. parse_events (sequential {} None (all_parts cs)) (whole_stream model cs) fresh_parser = Some p
     \<and> ps_phase p = Over"
proof -
  let ?strict = "sequential {} None (all_parts cs)"
  obtain i m r u es s where form: "run_parts (all_parts cs) (begun i m (new_message_stream model)) = (es, s)"
    "whole_stream model cs = MessageStart i m # es @ fst (ms_close_block s) @ [MessageDelta r u, MessageStop]"
    using whole_stream_form [of model cs] by (metis (no_types, lifting) prod.case prod.collapse)
  let ?s0 = "begun i m (new_message_stream model)"
  have inv0: "stream_inv {} None ?s0" by (simp add: stream_inv_def begun_def new_message_stream_def)
  have start: "parse_event ?strict (MessageStart i m) fresh_parser = Some (parser_of ?s0)"
    by (simp add: fresh_parser_def parser_of_def begun_def new_message_stream_def)
  have run: "parse_events ?strict es (parser_of ?s0) = Some (parser_of s)" "\<exists>seen cur. stream_inv seen cur s"
    using run_parts_parse [OF inv0 form(1), of ?strict] by auto
  then obtain p where "parse_events ?strict (fst (ms_close_block s)) (parser_of s) = Some p" "ps_phase p = Between"
    by (cases "ms_block_open s"; cases "the (ms_block_kind s)")
      (auto simp: ms_close_block_def parser_of_def stream_inv_def)
  with start run(1) form(2) show ?thesis by (simp add: parse_events_append)
qed

section \<open>Nothing is lost\<close>

fun event_text :: "m_event \<Rightarrow> string" where
  "event_text (TextDelta ix t) = t"
| "event_text e = []"

fun event_json :: "int \<Rightarrow> m_event \<Rightarrow> string" where
  "event_json ix (JsonDelta ix' p) = (if ix' = ix then p else [])"
| "event_json ix e = []"

fun part_text_of :: "part \<Rightarrow> string" where
  "part_text_of (PText t) = t"
| "part_text_of (PCall c) = []"

fun part_args :: "int \<Rightarrow> part \<Rightarrow> string" where
  "part_args i (PText t) = []"
| "part_args i (PCall c) = (if call_index c = i then sc_arguments c else [])"

definition blocks_inj :: "message_stream \<Rightarrow> bool" where
  "blocks_inj s \<longleftrightarrow> inj_on (map_of (ms_tool_blocks s)) (dom (map_of (ms_tool_blocks s)))
     \<and> (\<forall>v \<in> ran (map_of (ms_tool_blocks s)). v \<le> ms_block_index s) \<and>
     (ms_tool_blocks s \<noteq> [] \<longrightarrow> ms_opened s)"

lemma open_block_facts:
  assumes "ms_open_block k b s = (es, s')"
  shows "ms_tool_blocks s' = ms_tool_blocks s" and "ms_opened s \<or> k = ToolBlock \<Longrightarrow> ms_opened s'"
    and "concat (map event_text es) = []" and "concat (map (event_json ix) es) = []"
    and "ms_opened s \<Longrightarrow> ms_block_index s \<le> ms_block_index s'"
    and "k = ToolBlock \<Longrightarrow> ms_opened s \<Longrightarrow> ms_block_index s < ms_block_index s'"
    and "k = ToolBlock \<Longrightarrow> BlockStart (ms_block_index s') b \<in> set es"
  using assms
  by (auto simp: ms_open_block_def ms_close_block_def Let_def split: if_splits)

lemma ran_le_put:
  fixes n :: int
  assumes "inj_on m (dom m)" and "\<forall>v \<in> ran m. v < n" and "m k = None"
  shows "inj_on (m(k \<mapsto> n)) (dom (m(k \<mapsto> n)))"
  using assms by (auto simp: inj_on_def ran_def)

lemma call_blocks:
  assumes inv: "blocks_inj s" and step: "ms_tool_call c s = (es, s')"
  shows "blocks_inj s'" and "map_of (ms_tool_blocks s) \<subseteq>\<^sub>m map_of (ms_tool_blocks s')"
    and "concat (map event_text es) = []"
    and "\<exists>v. map_of (ms_tool_blocks s') (call_index c) = Some v
      \<and> (\<forall>ix. concat (map (event_json ix) es) = (if ix = v then sc_arguments c else []))"
proof -
  have "blocks_inj s' \<and> map_of (ms_tool_blocks s) \<subseteq>\<^sub>m map_of (ms_tool_blocks s') \<and> concat (map event_text es) = []
    \<and> (\<exists>v. map_of (ms_tool_blocks s') (call_index c) = Some v
      \<and> (\<forall>ix. concat (map (event_json ix) es) = (if ix = v then sc_arguments c else [])))"
  proof (cases "map_of (ms_tool_blocks s) (call_index c)")
    case (Some ix)
    then show ?thesis using assms by (auto simp: ms_tool_call_def Let_def split: if_splits)
  next
    case None
    obtain es1 s1 where o: "ms_open_block ToolBlock (tool_opening (sc_id c) (sc_name c)) s = (es1, s1)" by force
    note f = open_block_facts [OF o]
    let ?m = "map_of (ms_tool_blocks s)"
    have s': "s' = s1\<lparr>ms_tool_blocks := map_put (call_index c) (ms_block_index s1) (ms_tool_blocks s1)\<rparr>"
      and es: "es = es1 @ (if sc_arguments c = [] then [] else [JsonDelta (ms_block_index s1) (sc_arguments c)])"
      using step None o by (auto simp: ms_tool_call_def Let_def split: if_splits)
    have small: "\<forall>v \<in> ran ?m. v < ms_block_index s1"
    proof
      fix v assume v: "v \<in> ran ?m"
      then have "ms_opened s" using inv by (auto simp: blocks_inj_def)
      then show "v < ms_block_index s1" using f(6) inv v by (fastforce simp: blocks_inj_def)
    qed
    have "blocks_inj s'"
      using ran_le_put [of ?m "ms_block_index s1" "call_index c"] small inv None f(1,2)
      by (auto simp: blocks_inj_def s' ran_map_upd)
    moreover have "?m \<subseteq>\<^sub>m map_of (ms_tool_blocks s')"
      using None f(1) by (auto simp: s' map_le_def)
    ultimately show ?thesis using f by (simp add: s' es)
  qed
  then show "blocks_inj s'" "map_of (ms_tool_blocks s) \<subseteq>\<^sub>m map_of (ms_tool_blocks s')"
    "concat (map event_text es) = []"
    "\<exists>v. map_of (ms_tool_blocks s') (call_index c) = Some v
      \<and> (\<forall>ix. concat (map (event_json ix) es) = (if ix = v then sc_arguments c else []))" by blast+
qed

lemma text_blocks:
  assumes inv: "blocks_inj s" and step: "ms_text t s = (es, s')"
  shows "blocks_inj s' \<and> ms_tool_blocks s' = ms_tool_blocks s
    \<and> concat (map event_text es) = t \<and> concat (map (event_json ix) es) = []"
proof -
  obtain es1 s1 where o: "ms_open_block TextBlock text_opening s = (es1, s1)" by force
  note f = open_block_facts [OF o]
  have "ms_tool_blocks s \<noteq> [] \<Longrightarrow> ms_block_index s \<le> ms_block_index s1"
    using f(5) inv by (simp add: blocks_inj_def)
  then have "\<forall>v \<in> ran (map_of (ms_tool_blocks s)). v \<le> ms_block_index s1"
    using inv by (cases "ms_tool_blocks s = []") (fastforce simp: blocks_inj_def)+
  then show ?thesis using step o f(1-4) inv by (auto simp: ms_text_def blocks_inj_def)
qed

lemma run_parts_content:
  "blocks_inj s \<Longrightarrow> run_parts ps s = (es, s') \<Longrightarrow>
     blocks_inj s' \<and> map_of (ms_tool_blocks s) \<subseteq>\<^sub>m map_of (ms_tool_blocks s')
     \<and> concat (map event_text es) = concat (map part_text_of ps)
     \<and> (\<forall>i \<in> dom (map_of (ms_tool_blocks s')).
          concat (map (event_json (the (map_of (ms_tool_blocks s') i))) es) = concat (map (part_args i) ps))
     \<and> (\<forall>c. PCall c \<in> set ps \<longrightarrow> call_index c \<in> dom (map_of (ms_tool_blocks s')))"
proof (induction ps arbitrary: s es)
  case (Cons p ps)
  obtain es1 s1 es2 where st: "part_step p s = (es1, s1)" "run_parts ps s1 = (es2, s')" "es = es1 @ es2"
    using Cons.prems(2) by (auto split: prod.splits)
  show ?case
  proof (cases p)
    case (PText t)
    have t: "blocks_inj s1 \<and> ms_tool_blocks s1 = ms_tool_blocks s
        \<and> concat (map event_text es1) = t \<and> concat (map (event_json ix) es1) = []" for ix
      using text_blocks [OF Cons.prems(1)] st(1) PText by simp
    show ?thesis using Cons.IH [OF _ st(2)] t PText by (simp add: st(3))
  next
    case (PCall c)
    note k = call_blocks [OF Cons.prems(1), of c es1 s1]
    obtain v where v: "map_of (ms_tool_blocks s1) (call_index c) = Some v"
      "\<And>ix. concat (map (event_json ix) es1) = (if ix = v then sc_arguments c else [])"
      using k(4) st(1) PCall by auto
    note ih = Cons.IH [OF k(1) st(2)]
    let ?m = "map_of (ms_tool_blocks s')"
    have v': "?m (call_index c) = Some v"
      using ih v(1) st(1) PCall by (auto simp: map_le_def dom_def)
    have inj: "inj_on ?m (dom ?m)" using ih st(1) PCall by (simp add: blocks_inj_def)
    have "concat (map (event_json (the (?m i))) es1) = part_args i p" if "i \<in> dom ?m" for i
    proof (cases "i = call_index c")
      case True
      then show ?thesis using v(2) v' PCall by simp
    next
      case False
      then have "the (?m i) \<noteq> v" using inj v' that unfolding inj_on_def by (metis domI domD option.sel)
      with False show ?thesis using v(2) PCall by simp
    qed
    moreover have "map_of (ms_tool_blocks s) \<subseteq>\<^sub>m ?m"
      using k(2) ih st(1) PCall by (auto intro: map_le_trans)
    ultimately show ?thesis
      using ih k(3) v' st(1) PCall by (auto simp: st(3))
  qed
qed simp


text \<open>A stream of two chunks that carry one call.\<close>

definition call_chunk :: "string \<Rightarrow> stream_chunk" where
  "call_chunk args = \<lparr>rsp_id = ''r'', rsp_object = ''chat.completion.chunk'', rsp_created = 0, rsp_model = ''m'',
     rsp_choices = [\<lparr>ch_index = 0, ch_message = None, ch_delta = Some \<lparr>msg_role = [], msg_content = None,
        msg_name = [], msg_extra = [(''tool_calls'', json_array [json_object [(''index'', json_of_int 0),
          (''id'', json_of_string ''c1''), (''function'', json_object [(''name'', json_of_string ''find''),
          (''arguments'', json_of_string args)])]])], msg_tool_error = False\<rparr>,
        ch_finish_reason = None, ch_extra = []\<rparr>],
     rsp_usage = None, rsp_extra = []\<rparr>"

lemma call_chunk_parts:
  "all_parts [call_chunk ''{'', call_chunk ''}''] =
     [PCall \<lparr>sc_index = Some 0, sc_id = ''c1'', sc_name = ''find'', sc_arguments = ''{''\<rparr>,
      PCall \<lparr>sc_index = Some 0, sc_id = ''c1'', sc_name = ''find'', sc_arguments = ''}''\<rparr>]"
  by code_simp


text \<open>An upstream that alternates between two calls does make fragments arrive outside their block: the
  strict parser gives up on the stream, the lenient one reads it to the end.\<close>

definition call_part :: "int \<Rightarrow> string \<Rightarrow> part" where
  "call_part i a = PCall \<lparr>sc_index = Some i, sc_id = ''c'', sc_name = ''f'', sc_arguments = a\<rparr>"

lemma interleaved_calls_leave_block:
  "let s0 = begun ''m'' ''x'' (new_message_stream ''x'');
       es = fst (run_parts [call_part 0 ''a'', call_part 1 ''b'', call_part 0 ''c''] s0)
   in parse_events True es (parser_of s0) = None
      \<and> es = [BlockStart 0 (tool_opening ''c'' ''f''), JsonDelta 0 ''a'', BlockStop 0,
               BlockStart 1 (tool_opening ''c'' ''f''), JsonDelta 1 ''b'', JsonDelta 0 ''c'']"
  by (simp add: call_part_def ms_tool_call_def ms_open_block_def ms_close_block_def begun_def
      new_message_stream_def call_index_def parser_of_def tool_opening_def empty_block_def kind_of_def)

section \<open>Round trips between the dialects\<close>

text \<open>The usage of an Anthropic upstream, billed in the OpenAI shape, reaches an Anthropic client as it
  was reported.\<close>

definition usage_nonneg :: "a_usage \<Rightarrow> bool" where
  "usage_nonneg u \<longleftrightarrow> 0 \<le> au_input u \<and> 0 \<le> au_output u \<and> 0 \<le> au_cache_read u \<and> 0 \<le> au_cache_creation u"

lemma usage_round_trip:
  "usage_nonneg u \<Longrightarrow> to_anthropic_usage (from_anthropic_usage (Some u)) = Some u"
  by (cases u) (auto simp: to_anthropic_usage_def from_anthropic_usage_def usage_cached_def
      usage_cache_write_def usage_nonneg_def Let_def)

text \<open>\<open>stop_reason\<close> undoes \<open>finish_reason\<close> on the reasons OpenAI can express; any other is told to the
  client as \<^verbatim>\<open>end_turn\<close>. In the other direction only these three survive.\<close>

lemma stop_reason_round_trip:
  "stop_reason (finish_reason r) = (if r \<in> {''max_tokens'', ''tool_use'', []} then r else ''end_turn'')"
  by (auto simp: stop_reason_def finish_reason_def)

lemma finish_reason_round_trip:
  "finish_reason (stop_reason r) = r \<longleftrightarrow> r \<in> {''length'', ''tool_calls'', ''stop'', []}"
  by (auto simp: stop_reason_def finish_reason_def)

lemma image_round_trip:
  assumes "to_anthropic_source url = Some src"
    and "has_prefix url ''data:'' \<Longrightarrow> so_data src \<noteq> [] \<and> so_media_type src \<noteq> []"
  shows "image_url_of (Some src) = url"
proof (cases "has_prefix url ''data:''")
  case True
  then obtain rest where url: "url = ''data:'' @ rest" by (auto simp: prefix_def)
  obtain meta d where c: "cut rest '','' = Some (meta, d)" "has_suffix meta '';base64''"
    "src = \<lparr>so_type = ''base64'', so_media_type = trim_suffix meta '';base64'', so_data = d, so_url = []\<rparr>"
    using assms(1) by (auto simp: url to_anthropic_source_def trim_prefix_def split: option.splits if_splits)
  obtain media where m: "meta = media @ '';base64''" using c(2) by (auto simp: suffix_def)
  then have "trim_suffix meta '';base64'' = media" by (simp add: trim_suffix_def suffix_def)
  then show ?thesis
    using assms(2) [OF True] cut_Some [OF c(1)] by (simp add: c(3) image_url_of_def url m)
next
  case False
  then show ?thesis using assms(1)
    by (auto simp: to_anthropic_source_def image_url_of_def split: if_splits)
qed

text \<open>Reading a struct whose keys are in lower case is a plain lookup.\<close>

definition lower_key :: "string \<Rightarrow> bool" where
  "lower_key k \<longleftrightarrow> to_lower k = k"

lemma struct_member_lower:
  assumes "\<forall>k' \<in> fst ` set ms. lower_key k'" and "lower_key k"
  shows "struct_member k ms = map_of (rev ms) k"
proof -
  have "map_option snd (find (\<lambda>(k', v). equal_fold k' k) xs) = map_of xs k"
    if "\<forall>k' \<in> fst ` set xs. lower_key k'" for xs :: "(string \<times> json) list"
    using that assms(2) by (induction xs) (auto simp: equal_fold_def lower_key_def)
  then show ?thesis using assms(1) by (simp add: struct_member_def)
qed

lemma lower_keys:
  "lower_key ''index''" "lower_key ''id''" "lower_key ''type''" "lower_key ''function''"
  "lower_key ''name''" "lower_key ''arguments''"
  by code_simp+

lemma json_is_null_object [simp]: "\<not> json_is_null (json_object ms)"
  by (simp add: json_object_def)

lemma decode_plain_call_encode:
  "decode_plain_call (encode_tool_call c) = Some (c\<lparr>oc_index := None, oc_type := []\<rparr>)"
proof -
  define fs where "fs = [(''name'', json_of_string (oc_name c)), (''arguments'', json_of_string (oc_arguments c))]"
  define ms where "ms = omit_nil ''index'' (map_option json_of_int (oc_index c))
     @ [(''id'', json_of_string (oc_id c)), (''type'', json_of_string (oc_type c)), (''function'', json_object fs)]"
  have fs: "\<forall>k' \<in> fst ` set fs. lower_key k'" by (simp add: fs_def lower_keys)
  have ms: "\<forall>k' \<in> fst ` set ms. lower_key k'"
    by (auto simp: ms_def omit_nil_def lower_keys split: option.split)
  have "struct_member ''id'' ms = Some (json_of_string (oc_id c))"
    "struct_member ''function'' ms = Some (json_object fs)"
    using struct_member_lower [OF ms, of "''id''"] struct_member_lower [OF ms, of "''function''"]
    by (simp_all add: lower_keys ms_def)
  moreover have "struct_member ''name'' fs = Some (json_of_string (oc_name c))"
    "struct_member ''arguments'' fs = Some (json_of_string (oc_arguments c))"
    using struct_member_lower [OF fs, of "''name''"] struct_member_lower [OF fs, of "''arguments''"]
    by (simp_all add: lower_keys fs_def)
  ultimately show ?thesis
    unfolding decode_plain_call_def encode_tool_call_def fs_def [symmetric] ms_def [symmetric]
    by (cases c) (simp add: string_of_def field_or_def decode_function_def)
qed

text \<open>A message as Anthropic models produce it: one text, if any, and then tool uses whose inputs are
  JSON objects as the router's parser reads them.\<close>

definition tool_block_ok :: "content_block \<Rightarrow> bool" where
  "tool_block_ok b \<longleftrightarrow> (\<exists>i n v. json_parse (raw v) = Some v \<and> raw v \<noteq> ''null''
     \<and> b = empty_block\<lparr>cb_type := ''tool_use'', cb_id := i, cb_name := n, cb_input := Some v\<rparr>)"

definition model_message :: "string \<Rightarrow> content_block list \<Rightarrow> a_response \<Rightarrow> bool" where
  "model_message text tools r \<longleftrightarrow>
     ap_content r = (if text = [] then [] else [empty_block\<lparr>cb_type := ''text'', cb_text := text\<rparr>]) @ tools
     \<and> (\<forall>b \<in> set tools. tool_block_ok b) \<and> ap_type r = ''message'' \<and> ap_role r = ''assistant''
     \<and> (\<forall>u. ap_usage r = Some u \<longrightarrow> usage_nonneg u) \<and> ap_stop_seq r = None
     \<and> ap_stop_reason r \<in> {None, Some ''end_turn'', Some ''max_tokens'', Some ''tool_use''}"

lemma tool_blocks_back:
  assumes "\<forall>b \<in> set tools. tool_block_ok b"
  shows "map tool_use_block (map (\<lambda>c. c\<lparr>oc_index := None, oc_type := []\<rparr>) (number_calls n tools)) = tools"
  using assms
proof (induction tools arbitrary: n)
  case (Cons b tools)
  then obtain i k v where v: "json_parse (raw v) = Some v" "raw v \<noteq> ''null''"
    and b: "b = empty_block\<lparr>cb_type := ''tool_use'', cb_id := i, cb_name := k, cb_input := Some v\<rparr>"
    by (auto simp: tool_block_ok_def)
  have "arguments_of (Some v) = raw v" using v(2) by (simp add: arguments_of_def)
  then show ?case
    using Cons v(1) by (simp add: b tool_use_block_def valid_or_empty_def)
qed simp

lemma number_calls_none: "\<forall>b \<in> set tools. tool_block_ok b \<Longrightarrow> number_calls n tools = [] \<longleftrightarrow> tools = []"
  by (cases tools) (auto simp: tool_block_ok_def)


definition example_message :: a_response where
  "example_message = \<lparr>ap_id = ''msg_1'', ap_type = ''message'', ap_role = ''assistant'', ap_model = ''claude'',
     ap_content = [empty_block\<lparr>cb_type := ''text'', cb_text := ''Looking it up.''\<rparr>,
       empty_block\<lparr>cb_type := ''tool_use'', cb_id := ''t1'', cb_name := ''find'', cb_input := Some (JObj ''{}'' [])\<rparr>],
     ap_stop_reason = Some ''tool_use'', ap_stop_seq = None,
     ap_usage = Some \<lparr>au_input = 10, au_output = 5, au_cache_read = 100, au_cache_creation = 0\<rparr>\<rparr>"


end
