(* ===== verification/Responses_Api.thy ===== *)
theory Responses_Api
  imports Messages_Api
begin

text \<open>
  The Responses dialect: its wire types (\<^verbatim>\<open>pkg/openai/responses.go\<close>) and the translations of
  \<^verbatim>\<open>internal/api/responses.go\<close> and \<^verbatim>\<open>responses_stream.go\<close>. A conversation is a list of items instead
  of messages; a stream is a sequence of numbered events that bracket the response and its
  items. The handler is in the theory of the HTTP handlers.
\<close>

section \<open>Wire types\<close>

record response_tool =
  rt_type :: string
  rt_name :: string
  rt_description :: string
  rt_parameters :: raw_message
  rt_strict :: "bool option"

record response_item =
  ri_type :: string
  ri_id :: string
  ri_role :: string
  ri_content :: raw_message
  ri_call_id :: string
  ri_name :: string
  ri_arguments :: string
  ri_output :: raw_message
  ri_status :: string

record response_request =
  rq_model :: string
  rq_input :: raw_message
  rq_instructions :: string
  rq_max_output_tokens :: "int option"
  rq_stream :: bool
  rq_temperature :: "string option"
  rq_top_p :: "string option"
  rq_tools :: "response_tool list option"
  rq_tool_choice :: raw_message
  rq_user :: string
  rq_previous_response_id :: string

record response_usage =
  ru_input :: int
  ru_input_details :: "(int \<times> int) option"
  ru_output :: int
  ru_output_details :: "int option"
  ru_total :: int

record response =
  re_id :: string
  re_created_at :: int
  re_status :: string
  re_model :: string
  re_output :: "response_item list"
  re_usage :: "response_usage option"
  re_incomplete :: "string option"
  re_instructions :: string
  re_max_output_tokens :: "int option"
  re_temperature :: "string option"
  re_top_p :: "string option"
  re_tools :: "response_tool list"
  re_tool_choice :: raw_message

definition empty_item :: response_item where
  "empty_item = \<lparr>ri_type = [], ri_id = [], ri_role = [], ri_content = None, ri_call_id = [], ri_name = [],
     ri_arguments = [], ri_output = None, ri_status = []\<rparr>"

definition decode_response_tool :: "json \<Rightarrow> response_tool option" where
  "decode_response_tool v = do {
     ms \<leftarrow> as_object v;
     t \<leftarrow> string_of ''type'' ms; n \<leftarrow> string_of ''name'' ms; d \<leftarrow> string_of ''description'' ms;
     s \<leftarrow> pointer_field as_bool ''strict'' ms;
     Some \<lparr>rt_type = t, rt_name = n, rt_description = d, rt_parameters = raw_of ''parameters'' ms, rt_strict = s\<rparr> }"

definition decode_response_item :: "json \<Rightarrow> response_item option" where
  "decode_response_item v = do {
     ms \<leftarrow> as_object v;
     t \<leftarrow> string_of ''type'' ms; i \<leftarrow> string_of ''id'' ms; r \<leftarrow> string_of ''role'' ms;
     ci \<leftarrow> string_of ''call_id'' ms; n \<leftarrow> string_of ''name'' ms; a \<leftarrow> string_of ''arguments'' ms;
     s \<leftarrow> string_of ''status'' ms;
     Some \<lparr>ri_type = t, ri_id = i, ri_role = r, ri_content = raw_of ''content'' ms, ri_call_id = ci,
           ri_name = n, ri_arguments = a, ri_output = raw_of ''output'' ms, ri_status = s\<rparr> }"

definition decode_response_request :: "json \<Rightarrow> response_request option" where
  "decode_response_request v = do {
     ms \<leftarrow> as_object v;
     m \<leftarrow> string_of ''model'' ms; is \<leftarrow> string_of ''instructions'' ms;
     mt \<leftarrow> pointer_field as_int ''max_output_tokens'' ms;
     st \<leftarrow> field_or False as_bool ''stream'' ms;
     te \<leftarrow> pointer_field as_number ''temperature'' ms; tp \<leftarrow> pointer_field as_number ''top_p'' ms;
     ts \<leftarrow> pointer_field (\<lambda>d. as_array d \<bind> opt_all decode_response_tool) ''tools'' ms;
     u \<leftarrow> string_of ''user'' ms; p \<leftarrow> string_of ''previous_response_id'' ms;
     Some \<lparr>rq_model = m, rq_input = raw_of ''input'' ms, rq_instructions = is, rq_max_output_tokens = mt,
           rq_stream = st, rq_temperature = te, rq_top_p = tp, rq_tools = ts,
           rq_tool_choice = raw_of ''tool_choice'' ms, rq_user = u, rq_previous_response_id = p\<rparr> }"

definition encode_response_tool :: "response_tool \<Rightarrow> json" where
  "encode_response_tool t = json_object ((''type'', json_of_string (rt_type t))
     # omit_empty ''name'' (rt_name t) @ omit_empty ''description'' (rt_description t)
     @ omit_nil ''parameters'' (rt_parameters t) @ omit_nil ''strict'' (map_option json_of_bool (rt_strict t)))"

definition encode_response_item :: "response_item \<Rightarrow> json" where
  "encode_response_item i = json_object
     (omit_empty ''type'' (ri_type i) @ omit_empty ''id'' (ri_id i) @ omit_empty ''role'' (ri_role i)
      @ omit_nil ''content'' (ri_content i) @ omit_empty ''call_id'' (ri_call_id i)
      @ omit_empty ''name'' (ri_name i) @ omit_empty ''arguments'' (ri_arguments i)
      @ omit_nil ''output'' (ri_output i) @ omit_empty ''status'' (ri_status i))"

definition encode_response_usage :: "response_usage \<Rightarrow> json" where
  "encode_response_usage u = json_object
     ([(''input_tokens'', json_of_int (ru_input u))]
      @ omit_nil ''input_tokens_details'' (map_option (\<lambda>(x, y). json_object
          ((''cached_tokens'', json_of_int x) # omit_zero ''cache_write_tokens'' y)) (ru_input_details u))
      @ [(''output_tokens'', json_of_int (ru_output u))]
      @ omit_nil ''output_tokens_details'' (map_option (\<lambda>x. json_object
          [(''reasoning_tokens'', json_of_int x)]) (ru_output_details u))
      @ [(''total_tokens'', json_of_int (ru_total u))])"

definition encode_response :: "response \<Rightarrow> json" where
  "encode_response r = json_object
     ([(''id'', json_of_string (re_id r)), (''object'', json_of_string ''response''),
       (''created_at'', json_of_int (re_created_at r)), (''status'', json_of_string (re_status r)),
       (''model'', json_of_string (re_model r)),
       (''output'', json_array (map encode_response_item (re_output r)))]
      @ omit_nil ''usage'' (map_option encode_response_usage (re_usage r))
      @ [(''incomplete_details'', raw_or_null (map_option (\<lambda>s. json_object [(''reason'', json_of_string s)])
            (re_incomplete r))),
         (''error'', json_null)]
      @ omit_empty ''instructions'' (re_instructions r)
      @ omit_nil ''max_output_tokens'' (map_option json_of_int (re_max_output_tokens r))
      @ omit_nil ''temperature'' (map_option JNum (re_temperature r))
      @ omit_nil ''top_p'' (map_option JNum (re_top_p r))
      @ [(''tools'', json_array (map encode_response_tool (re_tools r)))]
      @ omit_nil ''tool_choice'' (re_tool_choice r))"

section \<open>Requests\<close>

text \<open>\<^verbatim>\<open>InputItems\<close> quotes a bare string with \<^verbatim>\<open>strconv.Quote\<close>, whose escapes are Go's. Where they are
  not JSON's the raw content is malformed: its text is kept, in a number that no decoder of a
  string, an array or an object accepts, as none accepts the malformed text.\<close>

definition quoted_content :: "string \<Rightarrow> json" where
  "quoted_content s = (case json_parse (go_quote s) of None \<Rightarrow> JNum (go_quote s) | Some v \<Rightarrow> v)"

definition input_items :: "response_request \<Rightarrow> response_item list option" where
  "input_items r = (case rq_input r of
      None \<Rightarrow> None
    | Some v \<Rightarrow> (case as_string v of
          Some t \<Rightarrow> Some [empty_item\<lparr>ri_type := ''message'', ri_role := ''user'',
                       ri_content := Some (quoted_content t)\<rparr>]
        | None \<Rightarrow> unmarshal_list decode_response_item (Some v)))"

definition arguments_or_empty :: "string \<Rightarrow> string" where
  "arguments_or_empty a = (if a = [] then ''{}'' else a)"

text \<open>One content part: its type, text, image URL and detail.\<close>

definition decode_response_part :: "json \<Rightarrow> (string \<times> string \<times> string \<times> string) option" where
  "decode_response_part v = do {
     ms \<leftarrow> as_object v;
     t \<leftarrow> string_of ''type'' ms; x \<leftarrow> string_of ''text'' ms;
     u \<leftarrow> string_of ''image_url'' ms; d \<leftarrow> string_of ''detail'' ms;
     as \<leftarrow> field_or [] as_array ''annotations'' ms;
     Some (t, x, u, d) }"

definition text_part_type :: "string \<Rightarrow> bool" where
  "text_part_type t \<longleftrightarrow> t \<in> {''input_text'', ''output_text'', ''text''}"

text \<open>The converted parts with the joined text and whether all are texts; \<open>None\<close> for a part that makes the
  code keep the raw content.\<close>

fun convert_parts :: "(string \<times> string \<times> string \<times> string) list \<Rightarrow> (json list \<times> string \<times> bool) option" where
  "convert_parts [] = Some ([], [], True)"
| "convert_parts ((t, x, u, d) # ps) =
     (if text_part_type t then
        map_option (\<lambda>(js, s, only). (json_text_part x # js, x @ s, only)) (convert_parts ps)
      else if t = ''input_image'' then
        (if u = [] then None
         else map_option (\<lambda>(js, s, only).
            (json_object [(''image_url'', json_object (omit_empty ''detail'' d @ [(''url'', json_of_string u)])),
               (''type'', json_of_string ''image_url'')] # js, s, False)) (convert_parts ps))
      else None)"

definition content_to_chat :: "raw_message \<Rightarrow> raw_message" where
  "content_to_chat r = (case r of None \<Rightarrow> None
     | Some v \<Rightarrow> (case as_string v of Some _ \<Rightarrow> r
         | None \<Rightarrow> (case Option.bind (unmarshal_list decode_response_part r) convert_parts of
               None \<Rightarrow> r
             | Some (js, s, only) \<Rightarrow>
                 if js = [] then None else if only then Some (json_of_string s) else Some (json_array js))))"

definition item_to_message :: "response_item \<Rightarrow> message option" where
  "item_to_message i =
     (if ri_type i \<in> {''message'', []} then
        (if ri_role i = [] then None else Some (plain_message (ri_role i) (content_to_chat (ri_content i))))
      else if ri_type i = ''function_call'' then
        Some ((plain_message ''assistant'' None)\<lparr>msg_extra := [(''tool_calls'', json_array [json_object
          [(''function'', json_object [(''arguments'', json_of_string (arguments_or_empty (ri_arguments i))),
              (''name'', json_of_string (ri_name i))]),
           (''id'', json_of_string (ri_call_id i)), (''type'', json_of_string ''function'')]])]\<rparr>)
      else if ri_type i = ''function_call_output'' then
        Some ((plain_message ''tool'' (content_to_chat (ri_output i)))
          \<lparr>msg_extra := [(''tool_call_id'', json_of_string (ri_call_id i))],
           msg_tool_error := (ri_status i = ''failed'')\<rparr>)
      else None)"

definition response_tools_to_chat :: "response_tool list \<Rightarrow> json option" where
  "response_tools_to_chat ts = (case filter (\<lambda>t. rt_type t = ''function'' \<and> rt_name t \<noteq> []) ts of
      [] \<Rightarrow> None
    | ts \<Rightarrow> Some (json_array (map (\<lambda>t. json_object
        [(''function'', json_object (omit_empty ''description'' (rt_description t)
            @ [(''name'', json_of_string (rt_name t))] @ omit_nil ''parameters'' (rt_parameters t)
            @ omit_nil ''strict'' (map_option json_of_bool (rt_strict t)))),
         (''type'', json_of_string ''function'')]) ts)))"

definition response_tool_choice_to_chat :: "raw_message \<Rightarrow> raw_message" where
  "response_tool_choice_to_chat r = (case r of None \<Rightarrow> None
     | Some v \<Rightarrow> (case as_string v of
           Some s \<Rightarrow> if s \<in> {''auto'', ''none'', ''required''} then r else None
         | None \<Rightarrow> (case do { ms \<leftarrow> as_object v; t \<leftarrow> string_of ''type'' ms; n \<leftarrow> string_of ''name'' ms; Some (t, n) } of
               None \<Rightarrow> None
             | Some (t, n) \<Rightarrow> if t \<noteq> ''function'' \<or> n = [] then None
                 else Some (json_object [(''function'', json_object [(''name'', json_of_string n)]),
                   (''type'', json_of_string ''function'')]))))"

definition responses_to_chat_request :: "response_request \<Rightarrow> string + chat_request" where
  "responses_to_chat_request req = (case input_items req of
      None \<Rightarrow> Inl ''field 'input' must be a string or an array of input items''
    | Some items \<Rightarrow> Inr
        \<lparr>cr_model = rq_model req,
         cr_messages = (if rq_instructions req \<noteq> []
             then [plain_message ''system'' (Some (json_of_string (rq_instructions req)))] else [])
           @ List.map_filter item_to_message items,
         cr_stream = rq_stream req, cr_stream_options = None, cr_temperature = rq_temperature req,
         cr_top_p = rq_top_p req, cr_max_tokens = rq_max_output_tokens req, cr_stop = [],
         cr_user = rq_user req,
         cr_extra = omit_nil ''tools'' (response_tools_to_chat (case rq_tools req of None \<Rightarrow> [] | Some ts \<Rightarrow> ts))
           @ omit_nil ''tool_choice'' (response_tool_choice_to_chat (rq_tool_choice req))\<rparr>)"

section \<open>Responses\<close>

definition response_id :: "string \<Rightarrow> string" where
  "response_id i = (if i = [] then ''resp_unknown'' else if has_prefix i ''resp_'' then i else ''resp_'' @ i)"

definition to_response_usage :: "usage_report option \<Rightarrow> response_usage option" where
  "to_response_usage u = map_option (\<lambda>u. \<lparr>ru_input = ur_prompt u, ru_input_details = ur_prompt_details u,
     ru_output = ur_completion u, ru_output_details = ur_completion_details u, ru_total = ur_total u\<rparr>) u"

definition output_text_content :: "string \<Rightarrow> json" where
  "output_text_content t = json_array [json_object ((''type'', json_of_string ''output_text'')
     # omit_empty ''text'' t @ [(''annotations'', json_array [])])]"

definition text_item :: "string \<Rightarrow> string \<Rightarrow> response_item" where
  "text_item i t = empty_item\<lparr>ri_type := ''message'', ri_id := i, ri_role := ''assistant'',
     ri_status := ''completed'', ri_content := Some (output_text_content t)\<rparr>"

fun call_items :: "string \<Rightarrow> nat \<Rightarrow> openai_tool_call list \<Rightarrow> response_item list" where
  "call_items i n [] = []"
| "call_items i n (c # cs) = empty_item\<lparr>ri_type := ''function_call'',
       ri_id := ''fc_'' @ i @ ''_'' @ show_nat n, ri_call_id := oc_id c, ri_name := oc_name c,
       ri_arguments := arguments_or_empty (oc_arguments c), ri_status := ''completed''\<rparr>
     # call_items i (n + 1) cs"

definition plain_calls :: "raw_message \<Rightarrow> openai_tool_call list" where
  "plain_calls r = (case unmarshal_list decode_plain_call r of None \<Rightarrow> [] | Some cs \<Rightarrow> cs)"

definition output_items :: "string \<Rightarrow> message \<Rightarrow> response_item list" where
  "output_items i m =
     (case message_text m of Some t \<Rightarrow> if t \<noteq> [] then [text_item (''msg_'' @ i) t] else [] | None \<Rightarrow> [])
     @ call_items i 0 (plain_calls (map_of (msg_extra m) ''tool_calls''))"

text \<open>The envelope echoes parameters of the request.\<close>

definition envelope :: "response_request \<Rightarrow> string \<Rightarrow> int \<Rightarrow> string \<Rightarrow> string \<Rightarrow> response_item list \<Rightarrow> response" where
  "envelope req i created status model output =
     \<lparr>re_id = i, re_created_at = created, re_status = status, re_model = model, re_output = output,
      re_usage = None, re_incomplete = None, re_instructions = rq_instructions req,
      re_max_output_tokens = rq_max_output_tokens req, re_temperature = rq_temperature req,
      re_top_p = rq_top_p req, re_tools = (case rq_tools req of None \<Rightarrow> [] | Some ts \<Rightarrow> ts),
      re_tool_choice = rq_tool_choice req\<rparr>"

definition chat_to_response :: "response_request \<Rightarrow> chat_response \<Rightarrow> response" where
  "chat_to_response req r =
     (let out = (envelope req (response_id (rsp_id r)) (rsp_created r) ''completed'' (rsp_model r) [])
            \<lparr>re_usage := to_response_usage (rsp_usage r)\<rparr>
      in case rsp_choices r of [] \<Rightarrow> out
       | c # _ \<Rightarrow>
           (let out = (case ch_message c of None \<Rightarrow> out | Some m \<Rightarrow> out\<lparr>re_output := output_items (rsp_id r) m\<rparr>)
            in if ch_finish_reason c = Some ''length''
               then out\<lparr>re_status := ''incomplete'', re_incomplete := Some ''max_output_tokens''\<rparr> else out))"

section \<open>Streams\<close>

datatype r_event =
    Created response
  | InProgress response
  | ItemAdded int response_item
  | OutputTextDelta string int string
  | OutputTextDone string int string
  | ArgumentsDelta string int string
  | ArgumentsDone string int string
  | ItemDone int response_item
  | Completed response
  | Incomplete response

fun r_name :: "r_event \<Rightarrow> string" where
  "r_name (Created r) = ''response.created''"
| "r_name (InProgress r) = ''response.in_progress''"
| "r_name (ItemAdded ix i) = ''response.output_item.added''"
| "r_name (OutputTextDelta i ix t) = ''response.output_text.delta''"
| "r_name (OutputTextDone i ix t) = ''response.output_text.done''"
| "r_name (ArgumentsDelta i ix a) = ''response.function_call_arguments.delta''"
| "r_name (ArgumentsDone i ix a) = ''response.function_call_arguments.done''"
| "r_name (ItemDone ix i) = ''response.output_item.done''"
| "r_name (Completed r) = ''response.completed''"
| "r_name (Incomplete r) = ''response.incomplete''"

fun r_fields :: "r_event \<Rightarrow> (string \<times> json) list" where
  "r_fields (Created r) = [(''response'', encode_response r)]"
| "r_fields (InProgress r) = [(''response'', encode_response r)]"
| "r_fields (ItemAdded ix i) = [(''output_index'', json_of_int ix), (''item'', encode_response_item i)]"
| "r_fields (OutputTextDelta i ix t) = [(''item_id'', json_of_string i), (''output_index'', json_of_int ix),
     (''content_index'', json_of_int 0), (''delta'', json_of_string t)]"
| "r_fields (OutputTextDone i ix t) = [(''item_id'', json_of_string i), (''output_index'', json_of_int ix),
     (''content_index'', json_of_int 0), (''text'', json_of_string t)]"
| "r_fields (ArgumentsDelta i ix a) = [(''item_id'', json_of_string i), (''output_index'', json_of_int ix),
     (''delta'', json_of_string a)]"
| "r_fields (ArgumentsDone i ix a) = [(''item_id'', json_of_string i), (''output_index'', json_of_int ix),
     (''arguments'', json_of_string a)]"
| "r_fields (ItemDone ix i) = [(''output_index'', json_of_int ix), (''item'', encode_response_item i)]"
| "r_fields (Completed r) = [(''response'', encode_response r)]"
| "r_fields (Incomplete r) = [(''response'', encode_response r)]"

definition r_frame :: "int \<times> r_event \<Rightarrow> string \<times> json" where
  "r_frame e = (case e of (n, ev) \<Rightarrow>
     typed_event (r_name ev) (r_fields ev @ [(''sequence_number'', json_of_int n)]))"

record response_stream =
  rs_req :: response_request
  rs_id :: string
  rs_model :: string
  rs_created :: int
  rs_seq :: int
  rs_started :: bool
  rs_item_open :: bool
  rs_item_index :: int
  rs_opened :: bool
  rs_item :: response_item
  rs_text :: string
  rs_args :: string
  rs_tool_items :: "(int, int) gomap"
  rs_done :: "response_item list"
  rs_finish :: string
  rs_usage :: "usage_report option"

definition new_response_stream :: "response_request \<Rightarrow> response_stream" where
  "new_response_stream req = \<lparr>rs_req = req, rs_id = [], rs_model = rq_model req, rs_created = 0, rs_seq = 0,
     rs_started = False, rs_item_open = False, rs_item_index = 0, rs_opened = False, rs_item = empty_item,
     rs_text = [], rs_args = [], rs_tool_items = [], rs_done = [], rs_finish = [], rs_usage = None\<rparr>"

type_synonym r_stepped = "(int \<times> r_event) list \<times> response_stream"

text \<open>An event takes the next number. Steps are chained by \<open>andthen\<close>.\<close>

definition r_emit :: "r_event \<Rightarrow> response_stream \<Rightarrow> r_stepped" where
  "r_emit e s = ([(rs_seq s + 1, e)], s\<lparr>rs_seq := rs_seq s + 1\<rparr>)"

definition andthen :: "r_stepped \<Rightarrow> (response_stream \<Rightarrow> r_stepped) \<Rightarrow> r_stepped" where
  "andthen r f = (case r of (es, s) \<Rightarrow> (case f s of (es', s') \<Rightarrow> (es @ es', s')))"

definition snapshot :: "string \<Rightarrow> response_item list \<Rightarrow> response_stream \<Rightarrow> response" where
  "snapshot status output s = envelope (rs_req s) (rs_id s) (rs_created s) status (rs_model s) output"

definition rs_start :: "string \<Rightarrow> int \<Rightarrow> string \<Rightarrow> response_stream \<Rightarrow> r_stepped" where
  "rs_start i created model s =
     (if rs_started s then ([], s)
      else let s' = s\<lparr>rs_started := True, rs_id := response_id i, rs_created := created,
                      rs_model := (if model \<noteq> [] then model else rs_model s)\<rparr>;
               snap = snapshot ''in_progress'' [] s'
           in andthen (r_emit (Created snap) s') (r_emit (InProgress snap)))"

definition rs_close_item :: "response_stream \<Rightarrow> r_stepped" where
  "rs_close_item s =
     (if \<not> rs_item_open s then ([], s)
      else let s0 = s\<lparr>rs_item_open := False\<rparr>;
               it = rs_item s0;
               r = (if ri_type it = ''message'' then
                      (case r_emit (OutputTextDone (ri_id it) (rs_item_index s0) (rs_text s0)) s0 of (es, s1) \<Rightarrow>
                        (es, s1\<lparr>rs_item := it\<lparr>ri_status := ''completed'',
                                ri_content := Some (output_text_content (rs_text s0))\<rparr>\<rparr>))
                    else if ri_type it = ''function_call'' then
                      (case r_emit (ArgumentsDone (ri_id it) (rs_item_index s0) (arguments_or_empty (rs_args s0))) s0 of
                         (es, s1) \<Rightarrow> (es, s1\<lparr>rs_item := it\<lparr>ri_status := ''completed'',
                                ri_arguments := arguments_or_empty (rs_args s0)\<rparr>\<rparr>))
                    else ([], s0))
           in case andthen r (\<lambda>s1. r_emit (ItemDone (rs_item_index s1) (rs_item s1)) s1) of
                (es, s2) \<Rightarrow> (es, s2\<lparr>rs_done := rs_done s2 @ [rs_item s2]\<rparr>))"

definition rs_advance :: "response_stream \<Rightarrow> response_stream" where
  "rs_advance s = s\<lparr>rs_item_index := (if rs_opened s then rs_item_index s + 1 else rs_item_index s),
     rs_opened := True, rs_item_open := True\<rparr>"

definition rs_item_added :: "response_stream \<Rightarrow> r_stepped" where
  "rs_item_added s = r_emit (ItemAdded (rs_item_index s) (rs_item s)) s"

definition rs_open_text :: "response_stream \<Rightarrow> r_stepped" where
  "rs_open_text s =
     (if rs_item_open s \<and> ri_type (rs_item s) = ''message'' then ([], s)
      else andthen (rs_close_item s) (\<lambda>s.
        rs_item_added ((rs_advance s)\<lparr>rs_item := empty_item\<lparr>ri_type := ''message'', ri_id := ''msg_'' @ rs_id s,
          ri_role := ''assistant'', ri_status := ''in_progress''\<rparr>, rs_text := []\<rparr>)))"

definition rs_output_text :: "string \<Rightarrow> response_stream \<Rightarrow> r_stepped" where
  "rs_output_text t s = andthen (rs_open_text s) (\<lambda>s.
     let s = s\<lparr>rs_text := rs_text s @ t\<rparr>
     in r_emit (OutputTextDelta (ri_id (rs_item s)) (rs_item_index s) t) s)"

definition rs_open_call :: "int \<Rightarrow> stream_tool_call \<Rightarrow> response_stream \<Rightarrow> r_stepped" where
  "rs_open_call ix c s = andthen (rs_close_item s) (\<lambda>s.
     let s = rs_advance s
     in rs_item_added (s\<lparr>rs_item := empty_item\<lparr>ri_type := ''function_call'', ri_id := ''fc_'' @ rs_id s,
          ri_call_id := sc_id c, ri_name := sc_name c, ri_status := ''in_progress''\<rparr>, rs_args := [],
          rs_tool_items := map_put ix (rs_item_index s) (rs_tool_items s)\<rparr>))"

definition rs_tool_call :: "stream_tool_call \<Rightarrow> response_stream \<Rightarrow> r_stepped" where
  "rs_tool_call c s =
     (let ix = call_index c
      in andthen (if map_of (rs_tool_items s) ix = None then rs_open_call ix c s else ([], s)) (\<lambda>s.
           if sc_arguments c = [] then ([], s)
           else let s = s\<lparr>rs_args := rs_args s @ sc_arguments c\<rparr>
                in r_emit (ArgumentsDelta (ri_id (rs_item s)) (the (map_of (rs_tool_items s) ix)) (sc_arguments c)) s))"

fun rs_tool_deltas :: "stream_tool_call list \<Rightarrow> response_stream \<Rightarrow> r_stepped" where
  "rs_tool_deltas [] s = ([], s)"
| "rs_tool_deltas (c # cs) s = andthen (rs_tool_call c s) (rs_tool_deltas cs)"

definition rs_delta :: "message \<Rightarrow> response_stream \<Rightarrow> r_stepped" where
  "rs_delta d s = andthen
     (case message_text d of Some t \<Rightarrow> if t \<noteq> [] then rs_output_text t s else ([], s) | None \<Rightarrow> ([], s))
     (rs_tool_deltas (stream_tool_calls (map_of (msg_extra d) ''tool_calls'')))"

definition rs_choice :: "choice \<Rightarrow> response_stream \<Rightarrow> r_stepped" where
  "rs_choice c s =
     (case (case ch_delta c of None \<Rightarrow> ([], s) | Some d \<Rightarrow> rs_delta d s) of (es, s') \<Rightarrow>
        (es, case ch_finish_reason c of Some f \<Rightarrow> if f \<noteq> [] then s'\<lparr>rs_finish := f\<rparr> else s' | None \<Rightarrow> s'))"

fun rs_choices :: "choice list \<Rightarrow> response_stream \<Rightarrow> r_stepped" where
  "rs_choices [] s = ([], s)"
| "rs_choices (c # cs) s = andthen (rs_choice c s) (rs_choices cs)"

definition rs_chunk :: "stream_chunk \<Rightarrow> response_stream \<Rightarrow> r_stepped" where
  "rs_chunk c s =
     (let s = (case rsp_usage c of None \<Rightarrow> s | Some u \<Rightarrow> s\<lparr>rs_usage := Some u\<rparr>)
      in andthen (rs_start (rsp_id c) (rsp_created c) (rsp_model c) s) (rs_choices (rsp_choices c)))"

definition rs_conclude :: "response_stream \<Rightarrow> r_stepped" where
  "rs_conclude s = andthen (rs_close_item s) (\<lambda>s.
     let final = (snapshot ''completed'' (rs_done s) s)\<lparr>re_usage := to_response_usage (rs_usage s)\<rparr>
     in if rs_finish s = ''length'' then
          r_emit (Incomplete (final\<lparr>re_status := ''incomplete'', re_incomplete := Some ''max_output_tokens''\<rparr>)) s
        else r_emit (Completed final) s)"

definition rs_finish_stream :: "response_stream \<Rightarrow> r_stepped" where
  "rs_finish_stream s = andthen (if rs_started s then ([], s) else rs_start [] 0 (rs_model s) s) rs_conclude"

fun emit_responses :: "(int \<times> r_event) list \<Rightarrow> sse_writer \<Rightarrow> stream_error option \<times> sse_writer" where
  "emit_responses [] w = (None, w)"
| "emit_responses (e # es) w = (case named_event (fst (r_frame e)) (snd (r_frame e)) w of
      (None, w') \<Rightarrow> emit_responses es w'
    | (Some err, w') \<Rightarrow> (Some err, w'))"

fun relay_responses ::
  "stream_chunk selected list \<Rightarrow> response_stream \<Rightarrow> sse_writer \<Rightarrow> stream_error option \<times> sse_writer"
where
  "relay_responses [] s w = (None, w)"
| "relay_responses (CtxDone # ss) s w = (Some StreamCanceled, w)"
| "relay_responses (Closed # ss) s w = emit_responses (fst (rs_finish_stream s)) w"
| "relay_responses (Received c # ss) s w = (case rs_chunk c s of (es, s') \<Rightarrow>
     (case emit_responses es w of (None, w') \<Rightarrow> relay_responses ss s' w' | (Some e, w') \<Rightarrow> (Some e, w')))"
| "relay_responses (Idle # ss) s w = (case heartbeat w of
      (None, w') \<Rightarrow> relay_responses ss s w' | (Some e, w') \<Rightarrow> (Some e, w'))"

section \<open>What a client reads\<close>

text \<open>A client's reader: it counts the items, joins the fragments of the one that is open and compares
  them with what the closing events report. A strict one takes argument fragments for the
  open call only.\<close>

datatype r_phase = RFresh | RCreated | RIdle | RText string | RCall string | ROver

record r_reader =
  rp_phase :: r_phase
  rp_next :: int
  rp_done :: "response_item list"

definition fresh_reader :: r_reader where
  "fresh_reader = \<lparr>rp_phase = RFresh, rp_next = 0, rp_done = []\<rparr>"

definition guard :: "bool \<Rightarrow> 'a \<Rightarrow> 'a option" where
  "guard b x = (if b then Some x else None)"

fun read_event :: "bool \<Rightarrow> r_event \<Rightarrow> r_reader \<Rightarrow> r_reader option" where
  "read_event strict (Created r) p =
     guard (rp_phase p = RFresh \<and> re_output r = []) (p\<lparr>rp_phase := RCreated\<rparr>)"
| "read_event strict (InProgress r) p =
     guard (rp_phase p = RCreated \<and> re_output r = []) (p\<lparr>rp_phase := RIdle\<rparr>)"
| "read_event strict (ItemAdded ix i) p =
     guard (rp_phase p = RIdle \<and> ix = rp_next p)
       (p\<lparr>rp_phase := (if ri_type i = ''message'' then RText [] else RCall [])\<rparr>)"
| "read_event strict (OutputTextDelta i ix t) p = (case rp_phase p of
      RText acc \<Rightarrow> guard (ix = rp_next p) (p\<lparr>rp_phase := RText (acc @ t)\<rparr>) | _ \<Rightarrow> None)"
| "read_event strict (OutputTextDone i ix t) p = (case rp_phase p of
      RText acc \<Rightarrow> guard (ix = rp_next p \<and> t = acc) p | _ \<Rightarrow> None)"
| "read_event strict (ArgumentsDelta i ix a) p = (case rp_phase p of
      RCall acc \<Rightarrow> guard (strict \<longrightarrow> ix = rp_next p) (p\<lparr>rp_phase := RCall (acc @ a)\<rparr>)
    | RText acc \<Rightarrow> guard (\<not> strict) p | _ \<Rightarrow> None)"
| "read_event strict (ArgumentsDone i ix a) p = (case rp_phase p of
      RCall acc \<Rightarrow> guard (ix = rp_next p \<and> a = arguments_or_empty acc) p | _ \<Rightarrow> None)"
| "read_event strict (ItemDone ix i) p = (case rp_phase p of
      RText acc \<Rightarrow> guard (ix = rp_next p \<and> ri_type i = ''message'' \<and> ri_content i = Some (output_text_content acc))
        (p\<lparr>rp_phase := RIdle, rp_next := rp_next p + 1, rp_done := rp_done p @ [i]\<rparr>)
    | RCall acc \<Rightarrow> guard (ix = rp_next p \<and> ri_type i = ''function_call'' \<and> ri_arguments i = arguments_or_empty acc)
        (p\<lparr>rp_phase := RIdle, rp_next := rp_next p + 1, rp_done := rp_done p @ [i]\<rparr>)
    | _ \<Rightarrow> None)"
| "read_event strict (Completed r) p =
     guard (rp_phase p = RIdle \<and> re_output r = rp_done p \<and> re_status r = ''completed'') (p\<lparr>rp_phase := ROver\<rparr>)"
| "read_event strict (Incomplete r) p =
     guard (rp_phase p = RIdle \<and> re_output r = rp_done p \<and> re_status r = ''incomplete'') (p\<lparr>rp_phase := ROver\<rparr>)"

fun read_events :: "bool \<Rightarrow> (int \<times> r_event) list \<Rightarrow> r_reader \<Rightarrow> r_reader option" where
  "read_events strict [] p = Some p"
| "read_events strict (e # es) p = Option.bind (read_event strict (snd e) p) (read_events strict es)"

lemma read_events_append:
  "read_events strict (xs @ ys) p = Option.bind (read_events strict xs p) (read_events strict ys)"
  by (induction xs arbitrary: p) (auto split: bind_splits)

section \<open>Every step keeps reader and stream together\<close>

definition reader_of :: "response_stream \<Rightarrow> r_reader" where
  "reader_of s = \<lparr>rp_phase = (if \<not> rs_item_open s then RIdle
        else if ri_type (rs_item s) = ''message'' then RText (rs_text s) else RCall (rs_args s)),
     rp_next = (if rs_opened s then if rs_item_open s then rs_item_index s else rs_item_index s + 1 else 0),
     rp_done = rs_done s\<rparr>"

definition r_inv :: "int set \<Rightarrow> int option \<Rightarrow> response_stream \<Rightarrow> bool" where
  "r_inv seen cur s \<longleftrightarrow> rs_started s \<and> seen = dom (map_of (rs_tool_items s))
     \<and> (rs_item_open s \<longrightarrow> rs_opened s \<and> ri_type (rs_item s) \<in> {''message'', ''function_call''})
     \<and> (\<not> rs_opened s \<longrightarrow> rs_item_index s = 0) \<and> (seen \<noteq> {} \<longrightarrow> rs_item_open s)
     \<and> (\<forall>i. cur = Some i \<longrightarrow> rs_item_open s \<and> ri_type (rs_item s) = ''function_call''
          \<and> map_of (rs_tool_items s) i = Some (rs_item_index s))"

text \<open>The parts a sequential upstream has sent leave it with these calls seen and this one current.\<close>

fun seq_end :: "int set \<times> int option \<Rightarrow> part list \<Rightarrow> int set \<times> int option" where
  "seq_end q [] = q"
| "seq_end (seen, cur) (PText t # ps) = seq_end (seen, None) ps"
| "seq_end (seen, cur) (PCall c # ps) =
     (if call_index c \<in> seen then seq_end (seen, cur) ps
      else seq_end (insert (call_index c) seen, Some (call_index c)) ps)"

lemma sequential_append:
  "sequential seen cur (ps @ qs) \<longleftrightarrow> sequential seen cur ps
     \<and> sequential (fst (seq_end (seen, cur) ps)) (snd (seq_end (seen, cur) ps)) qs"
  by (induction "(seen, cur)" ps arbitrary: seen cur rule: seq_end.induct) auto

lemma seq_end_append: "seq_end q (ps @ qs) = seq_end (seq_end q ps) qs"
  by (induction q ps rule: seq_end.induct) auto

definition numbered :: "r_stepped \<Rightarrow> response_stream \<Rightarrow> bool" where
  "numbered r s \<longleftrightarrow> rs_seq s \<le> rs_seq (snd r) \<and> map fst (fst r) = [rs_seq s + 1 .. rs_seq (snd r)]"

lemma numbered_andthen:
  assumes "numbered r s" and "numbered (f (snd r)) (snd r)"
  shows "numbered (andthen r f) s"
proof -
  have "[a + 1 .. b] @ [b + 1 .. c] = [a + 1 .. c]" if "a \<le> b" "b \<le> c" for a b c :: int
    using that by (cases "a = b") (simp_all add: upto_split2 [of "a + 1" b c, symmetric])
  with assms show ?thesis by (auto simp: numbered_def andthen_def split: prod.splits)
qed

text \<open>A step that handles the parts \<open>ps\<close> correctly.\<close>

definition step_ok :: "bool \<Rightarrow> part list \<Rightarrow> (response_stream \<Rightarrow> r_stepped) \<Rightarrow> bool" where
  "step_ok strict ps f \<longleftrightarrow> (\<forall>seen cur s. r_inv seen cur s \<longrightarrow> (strict \<longrightarrow> sequential seen cur ps) \<longrightarrow>
     read_events strict (fst (f s)) (reader_of s) = Some (reader_of (snd (f s)))
     \<and> r_inv (fst (seq_end (seen, cur) ps)) (snd (seq_end (seen, cur) ps)) (snd (f s))
     \<and> numbered (f s) s)"

lemma step_okI:
  assumes "\<And>seen cur s. r_inv seen cur s \<Longrightarrow> (strict \<longrightarrow> sequential seen cur ps) \<Longrightarrow>
     read_events strict (fst (f s)) (reader_of s) = Some (reader_of (snd (f s)))
     \<and> r_inv (fst (seq_end (seen, cur) ps)) (snd (seq_end (seen, cur) ps)) (snd (f s)) \<and> numbered (f s) s"
  shows "step_ok strict ps f"
  using assms by (simp add: step_ok_def)

lemma step_ok_skip: "step_ok strict [] (\<lambda>s. ([], s))"
  by (simp add: step_ok_def numbered_def)

lemma step_ok_andthen:
  assumes "step_ok strict ps f" and "step_ok strict qs g"
  shows "step_ok strict (ps @ qs) (\<lambda>s. andthen (f s) g)"
proof (rule step_okI)
  fix seen cur s
  assume a: "r_inv seen cur s" "strict \<longrightarrow> sequential seen cur (ps @ qs)"
  note 1 = assms(1) [unfolded step_ok_def, rule_format, OF a(1)]
  let ?q = "seq_end (seen, cur) ps"
  have f: "read_events strict (fst (f s)) (reader_of s) = Some (reader_of (snd (f s)))"
    "r_inv (fst ?q) (snd ?q) (snd (f s))" "numbered (f s) s"
    using 1 a(2) by (auto simp: sequential_append)
  have g: "read_events strict (fst (g (snd (f s)))) (reader_of (snd (f s))) = Some (reader_of (snd (g (snd (f s)))))"
    "r_inv (fst (seq_end ?q qs)) (snd (seq_end ?q qs)) (snd (g (snd (f s))))" "numbered (g (snd (f s))) (snd (f s))"
    using assms(2) [unfolded step_ok_def, rule_format, OF f(2)] a(2) by (auto simp: sequential_append)
  have "andthen (f s) g = (fst (f s) @ fst (g (snd (f s))), snd (g (snd (f s))))"
    by (simp add: andthen_def split_def)
  then show "read_events strict (fst (andthen (f s) g)) (reader_of s) = Some (reader_of (snd (andthen (f s) g)))
    \<and> r_inv (fst (seq_end (seen, cur) (ps @ qs))) (snd (seq_end (seen, cur) (ps @ qs))) (snd (andthen (f s) g))
    \<and> numbered (andthen (f s) g) s"
    using f g numbered_andthen [OF f(3), of g] by (simp add: read_events_append seq_end_append)
qed

section \<open>The steps\<close>

lemma close_item_cases:
  assumes "r_inv seen cur s" and "rs_item_open s"
  shows "ri_type (rs_item s) = ''message'' \<and>
      rs_close_item s = (let it = (rs_item s)\<lparr>ri_status := ''completed'', ri_content := Some (output_text_content (rs_text s))\<rparr>
        in ([(rs_seq s + 1, OutputTextDone (ri_id (rs_item s)) (rs_item_index s) (rs_text s)),
             (rs_seq s + 2, ItemDone (rs_item_index s) it)],
            s\<lparr>rs_item_open := False, rs_item := it, rs_seq := rs_seq s + 2, rs_done := rs_done s @ [it]\<rparr>))
    \<or> ri_type (rs_item s) = ''function_call'' \<and>
      rs_close_item s = (let it = (rs_item s)\<lparr>ri_status := ''completed'', ri_arguments := arguments_or_empty (rs_args s)\<rparr>
        in ([(rs_seq s + 1, ArgumentsDone (ri_id (rs_item s)) (rs_item_index s) (arguments_or_empty (rs_args s))),
             (rs_seq s + 2, ItemDone (rs_item_index s) it)],
            s\<lparr>rs_item_open := False, rs_item := it, rs_seq := rs_seq s + 2, rs_done := rs_done s @ [it]\<rparr>))"
proof -
  from assms have "ri_type (rs_item s) = ''message'' \<or> ri_type (rs_item s) = ''function_call''"
    by (simp add: r_inv_def)
  then show ?thesis
  proof
    assume "ri_type (rs_item s) = ''message''"
    with assms(2) show ?thesis
      by (cases s) (simp add: rs_close_item_def r_emit_def andthen_def Let_def)
  next
    assume "ri_type (rs_item s) = ''function_call''"
    with assms(2) show ?thesis
      by (cases s) (simp add: rs_close_item_def r_emit_def andthen_def Let_def)
  qed
qed

lemma upto_two: "[a + 1 .. a + 2] = [a + 1, a + 2 :: int]"
  by (simp add: upto.simps)

lemma close_item_reads:
  assumes "r_inv seen cur s"
  shows "read_events strict (fst (rs_close_item s)) (reader_of s) = Some (reader_of (snd (rs_close_item s)))"
    and "numbered (rs_close_item s) s"
    and "\<not> rs_item_open (snd (rs_close_item s))"
    and "rs_tool_items (snd (rs_close_item s)) = rs_tool_items s"
    and "rs_opened (snd (rs_close_item s)) = rs_opened s"
    and "rs_item_index (snd (rs_close_item s)) = rs_item_index s"
    and "rs_started (snd (rs_close_item s)) = rs_started s"
    and "rs_id (snd (rs_close_item s)) = rs_id s"
proof -
  have "read_events strict (fst (rs_close_item s)) (reader_of s) = Some (reader_of (snd (rs_close_item s)))
    \<and> numbered (rs_close_item s) s \<and> \<not> rs_item_open (snd (rs_close_item s))
    \<and> rs_tool_items (snd (rs_close_item s)) = rs_tool_items s
    \<and> rs_opened (snd (rs_close_item s)) = rs_opened s
    \<and> rs_item_index (snd (rs_close_item s)) = rs_item_index s
    \<and> rs_started (snd (rs_close_item s)) = rs_started s \<and> rs_id (snd (rs_close_item s)) = rs_id s"
  proof (cases "rs_item_open s")
    case False
    then show ?thesis by (simp add: rs_close_item_def numbered_def)
  next
    case True
    then have "rs_opened s" using assms by (simp add: r_inv_def)
    from close_item_cases [OF assms True] show ?thesis
    proof
      assume "ri_type (rs_item s) = ''message'' \<and> rs_close_item s = (let it = (rs_item s)\<lparr>ri_status := ''completed'', ri_content := Some (output_text_content (rs_text s))\<rparr>
        in ([(rs_seq s + 1, OutputTextDone (ri_id (rs_item s)) (rs_item_index s) (rs_text s)),
             (rs_seq s + 2, ItemDone (rs_item_index s) it)],
            s\<lparr>rs_item_open := False, rs_item := it, rs_seq := rs_seq s + 2, rs_done := rs_done s @ [it]\<rparr>))"
      then show ?thesis using True \<open>rs_opened s\<close>
        by (simp add: Let_def reader_of_def guard_def numbered_def upto_two)
    next
      assume "ri_type (rs_item s) = ''function_call'' \<and> rs_close_item s = (let it = (rs_item s)\<lparr>ri_status := ''completed'', ri_arguments := arguments_or_empty (rs_args s)\<rparr>
        in ([(rs_seq s + 1, ArgumentsDone (ri_id (rs_item s)) (rs_item_index s) (arguments_or_empty (rs_args s))),
             (rs_seq s + 2, ItemDone (rs_item_index s) it)],
            s\<lparr>rs_item_open := False, rs_item := it, rs_seq := rs_seq s + 2, rs_done := rs_done s @ [it]\<rparr>))"
      then show ?thesis using True \<open>rs_opened s\<close>
        by (simp add: Let_def reader_of_def guard_def numbered_def upto_two)
    qed
  qed
  then show "read_events strict (fst (rs_close_item s)) (reader_of s) = Some (reader_of (snd (rs_close_item s)))"
    and "numbered (rs_close_item s) s" and "\<not> rs_item_open (snd (rs_close_item s))"
    and "rs_tool_items (snd (rs_close_item s)) = rs_tool_items s"
    and "rs_opened (snd (rs_close_item s)) = rs_opened s"
    and "rs_item_index (snd (rs_close_item s)) = rs_item_index s"
    and "rs_started (snd (rs_close_item s)) = rs_started s"
    and "rs_id (snd (rs_close_item s)) = rs_id s" by blast+
qed

lemma upto_one: "[a + 1 .. a + 1] = [a + 1 :: int]"
  by (simp add: upto.simps)

lemma added_reads:
  assumes "\<not> rs_item_open s" and "\<not> rs_opened s \<longrightarrow> rs_item_index s = 0"
    and "s' = (rs_advance s)\<lparr>rs_item := it, rs_text := (if ri_type it = ''message'' then [] else rs_text s),
        rs_args := (if ri_type it = ''message'' then rs_args s else []), rs_tool_items := ti\<rparr>"
  shows "read_events strict (fst (rs_item_added s')) (reader_of s) = Some (reader_of (snd (rs_item_added s')))"
    and "numbered (rs_item_added s') s"
  using assms
  by (auto simp: rs_item_added_def r_emit_def reader_of_def guard_def rs_advance_def numbered_def upto_one)

lemma read_andthen:
  assumes "read_events strict (fst r) p = Some q"
    and "read_events strict (fst (f (snd r))) q = Some q'"
  shows "read_events strict (fst (andthen r f)) p = Some q'"
  using assms by (simp add: andthen_def split_def read_events_append)

lemma snd_andthen: "snd (andthen r f) = snd (f (snd r))"
  by (simp add: andthen_def split_def)

lemma seq_text_end: "seq_end (seen, cur) [PText t] = (seen, None)"
  by simp

lemma output_text_ok: "step_ok strict [PText t] (rs_output_text t)"
proof (rule step_okI)
  fix seen cur s
  assume inv: "r_inv seen cur s"
  let ?r = "rs_open_text s"
  have o: "read_events strict (fst ?r) (reader_of s) = Some (reader_of (snd ?r)) \<and> numbered ?r s
    \<and> rs_item_open (snd ?r) \<and> rs_opened (snd ?r) \<and> ri_type (rs_item (snd ?r)) = ''message''
    \<and> rs_tool_items (snd ?r) = rs_tool_items s \<and> rs_started (snd ?r)"
  proof (cases "rs_item_open s \<and> ri_type (rs_item s) = ''message''")
    case True
    then show ?thesis using inv by (auto simp: rs_open_text_def numbered_def r_inv_def)
  next
    case False
    note c = close_item_reads [OF inv]
    let ?s1 = "snd (rs_close_item s)"
    let ?it = "empty_item\<lparr>ri_type := ''message'', ri_id := ''msg_'' @ rs_id ?s1, ri_role := ''assistant'',
      ri_status := ''in_progress''\<rparr>"
    let ?s2 = "(rs_advance ?s1)\<lparr>rs_item := ?it, rs_text := []\<rparr>"
    have s2: "?s2 = (rs_advance ?s1)\<lparr>rs_item := ?it,
        rs_text := (if ri_type ?it = ''message'' then [] else rs_text ?s1),
        rs_args := (if ri_type ?it = ''message'' then rs_args ?s1 else []), rs_tool_items := rs_tool_items ?s1\<rparr>"
      by (cases ?s1) (simp add: rs_advance_def)
    have z: "\<not> rs_opened ?s1 \<longrightarrow> rs_item_index ?s1 = 0" using c(5,6) inv by (simp add: r_inv_def)
    note a = added_reads [OF c(3) z s2]
    have r: "?r = andthen (rs_close_item s) (\<lambda>s. rs_item_added ((rs_advance s)\<lparr>rs_item :=
        empty_item\<lparr>ri_type := ''message'', ri_id := ''msg_'' @ rs_id s, ri_role := ''assistant'',
          ri_status := ''in_progress''\<rparr>, rs_text := []\<rparr>))"
      using False unfolding rs_open_text_def by (rule if_not_P)
    show ?thesis
      unfolding r
      by (intro conjI read_andthen [OF c(1)] numbered_andthen [OF c(2)])
        (use a c inv in \<open>simp_all add: snd_andthen rs_item_added_def r_emit_def rs_advance_def r_inv_def\<close>)
  qed
  let ?s2 = "snd ?r"
  let ?f = "\<lambda>s. let s = s\<lparr>rs_text := rs_text s @ t\<rparr>
     in r_emit (OutputTextDelta (ri_id (rs_item s)) (rs_item_index s) t) s"
  have "read_events strict (fst (?f ?s2)) (reader_of ?s2) = Some (reader_of (snd (?f ?s2)))" "numbered (?f ?s2) ?s2"
    using o by (simp_all add: r_emit_def reader_of_def guard_def numbered_def upto_one Let_def)
  moreover have "r_inv seen None (snd (?f ?s2))"
    using o inv by (auto simp: r_inv_def r_emit_def Let_def)
  ultimately show "read_events strict (fst (rs_output_text t s)) (reader_of s) = Some (reader_of (snd (rs_output_text t s)))
     \<and> r_inv (fst (seq_end (seen, cur) [PText t])) (snd (seq_end (seen, cur) [PText t])) (snd (rs_output_text t s))
     \<and> numbered (rs_output_text t s) s"
    unfolding rs_output_text_def snd_andthen
    using o by (simp add: read_andthen numbered_andthen)
qed

lemma open_call_reads:
  fixes c :: stream_tool_call
  assumes inv: "r_inv seen cur s" and new: "ix \<notin> seen"
  defines "r \<equiv> rs_open_call ix c s"
  shows "read_events strict (fst r) (reader_of s) = Some (reader_of (snd r))" and "numbered r s"
    and "r_inv (insert ix seen) (Some ix) (snd r)"
proof -
  note cl = close_item_reads [OF inv]
  let ?s1 = "snd (rs_close_item s)"
  let ?it = "empty_item\<lparr>ri_type := ''function_call'', ri_id := ''fc_'' @ rs_id ?s1, ri_call_id := sc_id c,
    ri_name := sc_name c, ri_status := ''in_progress''\<rparr>"
  let ?ti = "map_put ix (rs_item_index (rs_advance ?s1)) (rs_tool_items ?s1)"
  let ?s2 = "(rs_advance ?s1)\<lparr>rs_item := ?it, rs_args := [], rs_tool_items := ?ti\<rparr>"
  let ?f = "\<lambda>s. let s = rs_advance s in rs_item_added (s\<lparr>rs_item := empty_item\<lparr>ri_type := ''function_call'',
      ri_id := ''fc_'' @ rs_id s, ri_call_id := sc_id c, ri_name := sc_name c, ri_status := ''in_progress''\<rparr>,
      rs_args := [], rs_tool_items := map_put ix (rs_item_index s) (rs_tool_items s)\<rparr>)"
  have f: "?f ?s1 = rs_item_added ?s2" by (simp add: Let_def rs_advance_def)
  have s2: "?s2 = (rs_advance ?s1)\<lparr>rs_item := ?it,
      rs_text := (if ri_type ?it = ''message'' then [] else rs_text ?s1),
      rs_args := (if ri_type ?it = ''message'' then rs_args ?s1 else []), rs_tool_items := ?ti\<rparr>"
    by (cases ?s1) (simp add: rs_advance_def)
  have z: "\<not> rs_opened ?s1 \<longrightarrow> rs_item_index ?s1 = 0" using cl(5,6) inv by (simp add: r_inv_def)
  note a = added_reads [OF cl(3) z s2]
  have r: "r = andthen (rs_close_item s) ?f" by (simp add: r_def rs_open_call_def)
  show "read_events strict (fst r) (reader_of s) = Some (reader_of (snd r))"
    unfolding r snd_andthen by (rule read_andthen [OF cl(1)]) (simp only: f a(1))
  show "numbered r s" unfolding r by (rule numbered_andthen [OF cl(2)]) (simp only: f a(2))
  have "snd r = snd (rs_item_added ?s2)" unfolding r snd_andthen by (simp only: f)
  then show "r_inv (insert ix seen) (Some ix) (snd r)"
    using cl(4,7) inv by (auto simp: r_inv_def rs_item_added_def r_emit_def rs_advance_def)
qed

lemma tool_call_ok: "step_ok strict [PCall c] (rs_tool_call c)"
proof (rule step_okI)
  fix seen cur s
  assume inv: "r_inv seen cur s" and seq: "strict \<longrightarrow> sequential seen cur [PCall c]"
  let ?ix = "call_index c"
  let ?r = "if map_of (rs_tool_items s) ?ix = None then rs_open_call ?ix c s else ([], s)"
  let ?cur = "if ?ix \<in> seen then cur else Some ?ix"
  have o: "read_events strict (fst ?r) (reader_of s) = Some (reader_of (snd ?r)) \<and> numbered ?r s
    \<and> r_inv (insert ?ix seen) ?cur (snd ?r)"
  proof (cases "?ix \<in> seen")
    case True
    then obtain y where "map_of (rs_tool_items s) ?ix = Some y" using inv by (auto simp: r_inv_def)
    then show ?thesis using inv True by (simp add: numbered_def insert_absorb)
  next
    case False
    then have "map_of (rs_tool_items s) ?ix = None" using inv by (auto simp: r_inv_def)
    then show ?thesis using open_call_reads [where c = c, OF inv False] False by simp
  qed
  have s': "strict \<longrightarrow> sc_arguments c \<noteq> [] \<longrightarrow> ?cur = Some ?ix" using seq by auto
  let ?f = "\<lambda>s. if sc_arguments c = [] then ([], s)
           else let s = s\<lparr>rs_args := rs_args s @ sc_arguments c\<rparr>
                in r_emit (ArgumentsDelta (ri_id (rs_item s)) (the (map_of (rs_tool_items s) ?ix)) (sc_arguments c)) s"
  let ?s2 = "snd ?r"
  have inv2: "r_inv (insert ?ix seen) ?cur ?s2" using o by blast
  have t: "ri_type (rs_item ?s2) = ''message'' \<or> ri_type (rs_item ?s2) = ''function_call''"
    "rs_item_open ?s2" "rs_opened ?s2" using inv2 by (auto simp: r_inv_def)
  have k: "?cur = Some ?ix \<Longrightarrow> ri_type (rs_item ?s2) = ''function_call''
      \<and> map_of (rs_tool_items ?s2) ?ix = Some (rs_item_index ?s2)"
    using inv2 by (simp add: r_inv_def)
  have "read_events strict (fst (?f ?s2)) (reader_of ?s2) = Some (reader_of (snd (?f ?s2)))"
  proof (cases "sc_arguments c = []")
    case False
    then have "strict \<longrightarrow> ri_type (rs_item ?s2) = ''function_call'' \<and> the (map_of (rs_tool_items ?s2) ?ix) = rs_item_index ?s2"
      using s' k by simp
    then show ?thesis
      using t False by (auto simp: r_emit_def reader_of_def guard_def Let_def)
  qed simp
  moreover have "numbered (?f ?s2) ?s2"
    by (simp add: r_emit_def numbered_def upto_one Let_def)
  moreover have "r_inv (insert ?ix seen) ?cur (snd (?f ?s2))"
    using inv2 by (auto simp: r_inv_def r_emit_def Let_def)
  moreover have "seq_end (seen, cur) [PCall c] = (insert ?ix seen, ?cur)" by (simp add: insert_absorb)
  moreover have "rs_tool_call c s = andthen ?r ?f" by (simp add: rs_tool_call_def Let_def)
  ultimately show "read_events strict (fst (rs_tool_call c s)) (reader_of s) = Some (reader_of (snd (rs_tool_call c s)))
     \<and> r_inv (fst (seq_end (seen, cur) [PCall c])) (snd (seq_end (seen, cur) [PCall c])) (snd (rs_tool_call c s))
     \<and> numbered (rs_tool_call c s) s"
    using o by (simp only: snd_andthen fst_conv snd_conv) (blast intro: read_andthen numbered_andthen)
qed

lemma tool_deltas_ok: "step_ok strict (map PCall cs) (rs_tool_deltas cs)"
proof (induction cs)
  case Nil
  show ?case using step_ok_skip by (simp add: step_ok_def)
next
  case (Cons c cs)
  from step_ok_andthen [OF tool_call_ok Cons] show ?case by (simp add: step_ok_def)
qed

lemma delta_ok: "step_ok strict (delta_parts d) (rs_delta d)"
proof -
  have "step_ok strict (case message_text d of Some t \<Rightarrow> if t \<noteq> [] then [PText t] else [] | None \<Rightarrow> [])
    (\<lambda>s. case message_text d of Some t \<Rightarrow> if t \<noteq> [] then rs_output_text t s else ([], s) | None \<Rightarrow> ([], s))"
    using output_text_ok step_ok_skip by (auto split: option.split simp: step_ok_def)
  from step_ok_andthen [OF this tool_deltas_ok] show ?thesis
    by (simp add: rs_delta_def [abs_def] delta_parts_def)
qed

text \<open>The finish reason and the usage play no part in the events before the end.\<close>

lemma reader_of_tail [simp]:
  "reader_of (s\<lparr>rs_finish := f\<rparr>) = reader_of s" "r_inv seen cur (s\<lparr>rs_finish := f\<rparr>) = r_inv seen cur s"
  "reader_of (s\<lparr>rs_usage := u\<rparr>) = reader_of s" "r_inv seen cur (s\<lparr>rs_usage := u\<rparr>) = r_inv seen cur s"
  by (simp_all add: reader_of_def r_inv_def)

lemma step_ok_post:
  assumes "step_ok strict ps f"
    and "\<And>s. reader_of (g s) = reader_of s" and "\<And>s seen cur. r_inv seen cur (g s) = r_inv seen cur s"
    and "\<And>s. rs_seq (g s) = rs_seq s"
  shows "step_ok strict ps (\<lambda>s. apsnd g (f s))"
  using assms(1) unfolding step_ok_def numbered_def by (simp add: assms(2-4))

lemma choice_ok:
  "step_ok strict (case ch_delta c of None \<Rightarrow> [] | Some d \<Rightarrow> delta_parts d) (rs_choice c)"
proof -
  have "step_ok strict (case ch_delta c of None \<Rightarrow> [] | Some d \<Rightarrow> delta_parts d)
    (\<lambda>s. case ch_delta c of None \<Rightarrow> ([], s) | Some d \<Rightarrow> rs_delta d s)"
    using delta_ok step_ok_skip by (auto split: option.split simp: step_ok_def)
  from step_ok_post [OF this, of "\<lambda>s. case ch_finish_reason c of
      Some f \<Rightarrow> if f \<noteq> [] then s\<lparr>rs_finish := f\<rparr> else s | None \<Rightarrow> s"]
  show ?thesis by (simp add: rs_choice_def [abs_def] apsnd_def map_prod_def split_def split: option.split)
qed

lemma choices_ok:
  "step_ok strict (concat (map (\<lambda>ch. case ch_delta ch of None \<Rightarrow> [] | Some d \<Rightarrow> delta_parts d) cs)) (rs_choices cs)"
proof (induction cs)
  case Nil
  show ?case using step_ok_skip by (simp add: step_ok_def)
next
  case (Cons c cs)
  from step_ok_andthen [OF choice_ok Cons] show ?case by (simp add: step_ok_def)
qed

section \<open>Whole streams\<close>

definition run_chunks :: "stream_chunk list \<Rightarrow> response_stream \<Rightarrow> r_stepped" where
  "run_chunks cs s = fold (\<lambda>c r. andthen r (rs_chunk c)) cs ([], s)"

definition whole_response :: "response_request \<Rightarrow> stream_chunk list \<Rightarrow> (int \<times> r_event) list" where
  "whole_response req cs = fst (andthen (run_chunks cs (new_response_stream req)) rs_finish_stream)"

lemma chunk_ok: "step_ok strict (chunk_parts c) (rs_chunk c)"
proof -
  let ?u = "\<lambda>s. case rsp_usage c of None \<Rightarrow> s | Some u \<Rightarrow> s\<lparr>rs_usage := Some u\<rparr>"
  have u: "reader_of (?u s) = reader_of s" "r_inv seen cur (?u s) = r_inv seen cur s"
    "rs_seq (?u s) = rs_seq s" "rs_started (?u s) = rs_started s" for s seen cur
    by (simp_all split: option.split)
  have eq: "rs_chunk c s = rs_choices (rsp_choices c) (?u s)" if "r_inv seen cur s" for seen cur s
    using that u(4) by (simp add: rs_chunk_def rs_start_def andthen_def Let_def r_inv_def)
  show ?thesis
  proof (rule step_okI)
    fix seen cur s
    assume a: "r_inv seen cur s" "strict \<longrightarrow> sequential seen cur (chunk_parts c)"
    define t where "t = ?u s"
    have t: "reader_of t = reader_of s" "r_inv seen cur t" "rs_seq t = rs_seq s"
      unfolding t_def u by (rule refl a(1))+
    have t4: "rs_chunk c s = rs_choices (rsp_choices c) t"
      unfolding t_def by (rule eq [OF a(1)])
    from choices_ok [of strict "rsp_choices c", folded chunk_parts_def, unfolded step_ok_def, rule_format,
        OF t(2)] a(2)
    show "read_events strict (fst (rs_chunk c s)) (reader_of s) = Some (reader_of (snd (rs_chunk c s)))
      \<and> r_inv (fst (seq_end (seen, cur) (chunk_parts c))) (snd (seq_end (seen, cur) (chunk_parts c))) (snd (rs_chunk c s))
      \<and> numbered (rs_chunk c s) s"
      unfolding t4 numbered_def t(1,3) by blast
  qed
qed

lemma andthen_assoc: "andthen (andthen r f) g = andthen r (\<lambda>s. andthen (f s) g)"
  by (simp add: andthen_def split_def)

lemma andthen_nil [simp]: "andthen r (\<lambda>s. ([], s)) = r" "andthen ([], s) f = f s"
  by (simp_all add: andthen_def split_def)

lemma run_chunks_from: "fold (\<lambda>c r. andthen r (rs_chunk c)) cs r = andthen r (run_chunks cs)"
proof (induction cs arbitrary: r)
  case Nil
  then show ?case by (simp add: run_chunks_def [abs_def])
next
  case (Cons c cs)
  have "run_chunks (c # cs) s = fold (\<lambda>c r. andthen r (rs_chunk c)) cs (rs_chunk c s)" for s
    by (simp add: run_chunks_def)
  then have "run_chunks (c # cs) = (\<lambda>s. andthen (rs_chunk c s) (run_chunks cs))"
    by (simp only: Cons.IH fun_eq_iff) simp
  then show ?case
    by (simp only: fold.simps comp_def Cons.IH andthen_assoc)
qed

lemma run_chunks_Cons: "run_chunks (c # cs) s = andthen (rs_chunk c s) (run_chunks cs)"
  using run_chunks_from [of cs "rs_chunk c s"] by (simp add: run_chunks_def)

lemma chunks_ok: "step_ok strict (all_parts cs) (run_chunks cs)"
proof (induction cs)
  case Nil
  show ?case using step_ok_skip by (simp add: all_parts_def run_chunks_def [abs_def])
next
  case (Cons c cs)
  from step_ok_andthen [OF chunk_ok Cons] show ?case
    by (simp add: all_parts_def run_chunks_Cons [abs_def])
qed

text \<open>The start: both opening events, and a stream with no part behind it.\<close>

definition fresh_stream :: "response_stream \<Rightarrow> bool" where
  "fresh_stream s \<longleftrightarrow> \<not> rs_started s \<and> \<not> rs_opened s \<and> \<not> rs_item_open s \<and> rs_item_index s = 0
     \<and> rs_tool_items s = [] \<and> rs_done s = [] \<and> rs_seq s = 0"

lemma start_reads:
  fixes i model :: string and created :: int
  assumes "fresh_stream s"
  defines "r \<equiv> rs_start i created model s"
  shows "read_events strict (fst r) fresh_reader = Some (reader_of (snd r))"
    and "r_inv {} None (snd r)" and "numbered r s"
  using assms
  by (simp_all add: rs_start_def r_emit_def andthen_def Let_def fresh_stream_def fresh_reader_def reader_of_def
      guard_def r_inv_def numbered_def upto_two [of 0, simplified] snapshot_def envelope_def)

lemma conclude_reads:
  assumes "r_inv seen cur s"
  shows "\<exists>p. read_events strict (fst (rs_conclude s)) (reader_of s) = Some p \<and> rp_phase p = ROver"
    and "numbered (rs_conclude s) s"
proof -
  note c = close_item_reads [OF assms]
  let ?s = "snd (rs_close_item s)"
  let ?f = "\<lambda>s. let final = (snapshot ''completed'' (rs_done s) s)\<lparr>re_usage := to_response_usage (rs_usage s)\<rparr>
        in if rs_finish s = ''length'' then
             r_emit (Incomplete (final\<lparr>re_status := ''incomplete'', re_incomplete := Some ''max_output_tokens''\<rparr>)) s
           else r_emit (Completed final) s"
  have "read_events strict (fst (?f ?s)) (reader_of ?s) = Some ((reader_of ?s)\<lparr>rp_phase := ROver\<rparr>)"
    using c(3) by (simp add: r_emit_def reader_of_def guard_def snapshot_def envelope_def Let_def)
  then have "read_events strict (fst (rs_conclude s)) (reader_of s) = Some ((reader_of ?s)\<lparr>rp_phase := ROver\<rparr>)"
    unfolding rs_conclude_def by (rule read_andthen [OF c(1)])
  then show "\<exists>p. read_events strict (fst (rs_conclude s)) (reader_of s) = Some p \<and> rp_phase p = ROver"
    by (auto simp: r_reader.simps)
  have "numbered (?f ?s) ?s" by (simp add: r_emit_def numbered_def upto_one Let_def)
  then show "numbered (rs_conclude s) s" unfolding rs_conclude_def by (rule numbered_andthen [OF c(2)])
qed

lemma finish_started: "rs_started s \<Longrightarrow> rs_finish_stream s = rs_conclude s"
  by (simp add: rs_finish_stream_def)


text \<open>An upstream that alternates between calls: the fragment of the first call that comes last is told
  under the first item's index but with the second item's identifier, and it ends up in the
  arguments of the second item. Both items carry the same identifier.\<close>

lemma interleaved_arguments_misfiled:
  "let s0 = snd (rs_start ''r'' 0 ''m'' (new_response_stream
       \<lparr>rq_model = ''m'', rq_input = None, rq_instructions = [], rq_max_output_tokens = None, rq_stream = True,
        rq_temperature = None, rq_top_p = None, rq_tools = None, rq_tool_choice = None, rq_user = [],
        rq_previous_response_id = []\<rparr>));
     call = (\<lambda>i a. \<lparr>sc_index = Some i, sc_id = ''c'', sc_name = ''f'', sc_arguments = a\<rparr>);
     s1 = snd (rs_tool_deltas [call 0 ''a'', call 1 ''b'', call 0 ''c''] s0)
   in map (\<lambda>i. (ri_id i, ri_arguments i)) (rs_done (snd (rs_close_item s1)))
        = [(''fc_resp_r'', ''a''), (''fc_resp_r'', ''bc'')]"
  by code_simp

section \<open>A bare input string\<close>

text \<open>Quoting the Go way is not quoting the JSON way: with a control character the content of the
  message is no JSON, so nothing downstream can read it and the request cannot be encoded.\<close>

lemma bare_input_misquoted:
  "json_parse (go_quote [CHR 0x01]) = None"
  "json_parse (go_quote ''say \"hi\"'') = Some (JStr (go_quote ''say \"hi\"'') ''say \"hi\"'')"
  by code_simp+

end
