(* ===== verification/Response_Cache.thy ===== *)
theory Response_Cache
  imports Go_Strings "HOL-Library.Multiset"
begin

text \<open>
  The response cache of \<^verbatim>\<open>internal/cache/cache.go\<close>: a least-recently-used list with a lifetime
  per entry. \<open>rc_elems\<close> is the heap of list elements (an element is the address of its node),
  \<open>rc_order\<close> the linked list of addresses, front first, and \<open>rc_entries\<close> the map from keys to
  elements. Each method runs under the mutex and is one atomic step that is given the clock. A nil
  cache is \<open>None\<close>. The SHA-256 of a cache key is a parameter. The specification \<open>lru_step\<close> is a
  plain list of nodes, most recently used first.
\<close>

section \<open>Data\<close>

record entry =
  en_body :: string
  en_model :: string
  en_stored_at :: instant

record node =
  nd_key :: string
  nd_entry :: entry
  nd_expires :: instant

record cache =
  rc_ttl :: duration
  rc_capacity :: int
  rc_entries :: "string \<rightharpoonup> nat"
  rc_elems :: "nat \<Rightarrow> node"
  rc_next :: nat
  rc_order :: "nat list"
  rc_hits :: int
  rc_misses :: int
  rc_stores :: int
  rc_evictions :: int

record cache_stats =
  cs_entries :: int
  cs_capacity :: int
  cs_hits :: int
  cs_misses :: int
  cs_stores :: int
  cs_evictions :: int

section \<open>Operations\<close>

definition no_node :: node where
  "no_node = \<lparr>nd_key = [], nd_entry = \<lparr>en_body = [], en_model = [], en_stored_at = 0\<rparr>, nd_expires = 0\<rparr>"

definition new_cache :: "duration \<Rightarrow> int \<Rightarrow> cache option" where
  "new_cache ttl capacity =
     (if ttl \<le> 0 \<or> capacity \<le> 0 then None
      else Some \<lparr>rc_ttl = ttl, rc_capacity = capacity, rc_entries = Map.empty, rc_elems = (\<lambda>_. no_node),
                 rc_next = 0, rc_order = [], rc_hits = 0, rc_misses = 0, rc_stores = 0, rc_evictions = 0\<rparr>)"

definition cache_enabled :: "cache option \<Rightarrow> bool" where
  "cache_enabled c \<longleftrightarrow> c \<noteq> None"

definition cache_key :: "(string \<Rightarrow> string) \<Rightarrow> string \<Rightarrow> string \<Rightarrow> string \<Rightarrow> string" where
  "cache_key sha256_hex endpoint model body = sha256_hex (endpoint @ [CHR 0x00] @ model @ [CHR 0x00] @ body)"

text \<open>\<open>list.MoveToFront\<close> and the method \<open>remove\<close>; both leave a list without the element alone.\<close>

definition move_to_front :: "nat \<Rightarrow> nat list \<Rightarrow> nat list" where
  "move_to_front el xs = (if el \<in> set xs then el # remove1 el xs else xs)"

definition cache_remove :: "nat \<Rightarrow> cache \<Rightarrow> cache" where
  "cache_remove el c = c\<lparr>rc_entries := (rc_entries c)(nd_key (rc_elems c el) := None),
                         rc_order := remove1 el (rc_order c)\<rparr>"

definition cache_get1 :: "instant \<Rightarrow> string \<Rightarrow> cache \<Rightarrow> entry option \<times> cache" where
  "cache_get1 now key c = (case rc_entries c key of
      None \<Rightarrow> (None, c\<lparr>rc_misses := rc_misses c + 1\<rparr>)
    | Some el \<Rightarrow>
        if \<not> now < nd_expires (rc_elems c el)
        then (None, (cache_remove el c)\<lparr>rc_misses := rc_misses c + 1\<rparr>)
        else (Some (nd_entry (rc_elems c el)),
              c\<lparr>rc_order := move_to_front el (rc_order c), rc_hits := rc_hits c + 1\<rparr>))"

text \<open>The eviction loop drops the back while the list is too long.\<close>

function evict :: "cache \<Rightarrow> cache" where
  "evict c = (if int (length (rc_order c)) > rc_capacity c \<and> rc_order c \<noteq> []
     then (let c' = cache_remove (last (rc_order c)) c in evict (c'\<lparr>rc_evictions := rc_evictions c' + 1\<rparr>))
     else c)"
  by auto
termination
  by (relation "measure (\<lambda>c. length (rc_order c))")
    (auto simp: cache_remove_def length_remove1)

declare evict.simps [simp del]

definition cache_put1 :: "instant \<Rightarrow> string \<Rightarrow> entry \<Rightarrow> cache \<Rightarrow> cache" where
  "cache_put1 now key e c =
     (let e = e\<lparr>en_stored_at := now\<rparr>;
          c = c\<lparr>rc_stores := rc_stores c + 1\<rparr>;
          n = \<lparr>nd_key = key, nd_entry = e, nd_expires = now + rc_ttl c\<rparr>
      in case rc_entries c key of
          Some el \<Rightarrow> c\<lparr>rc_elems := (rc_elems c)(el := n), rc_order := move_to_front el (rc_order c)\<rparr>
        | None \<Rightarrow> evict (c\<lparr>rc_elems := (rc_elems c)(rc_next c := n), rc_next := Suc (rc_next c),
                           rc_entries := (rc_entries c)(key \<mapsto> rc_next c),
                           rc_order := rc_next c # rc_order c\<rparr>))"

definition cache_purge1 :: "cache \<Rightarrow> int \<times> cache" where
  "cache_purge1 c = (int (length (rc_order c)), c\<lparr>rc_entries := Map.empty, rc_order := []\<rparr>)"

definition cache_get :: "instant \<Rightarrow> string \<Rightarrow> cache option \<Rightarrow> entry option \<times> cache option" where
  "cache_get now key c = (case c of None \<Rightarrow> (None, None)
     | Some c \<Rightarrow> (let (r, c') = cache_get1 now key c in (r, Some c')))"

definition cache_put :: "instant \<Rightarrow> string \<Rightarrow> entry \<Rightarrow> cache option \<Rightarrow> cache option" where
  "cache_put now key e c = map_option (cache_put1 now key e) c"

definition cache_purge :: "cache option \<Rightarrow> int \<times> cache option" where
  "cache_purge c = (case c of None \<Rightarrow> (0, None) | Some c \<Rightarrow> (let (n, c') = cache_purge1 c in (n, Some c')))"

definition cache_stats_of :: "cache option \<Rightarrow> cache_stats" where
  "cache_stats_of c = (case c of
      None \<Rightarrow> \<lparr>cs_entries = 0, cs_capacity = 0, cs_hits = 0, cs_misses = 0, cs_stores = 0, cs_evictions = 0\<rparr>
    | Some c \<Rightarrow> \<lparr>cs_entries = int (length (rc_order c)), cs_capacity = rc_capacity c, cs_hits = rc_hits c,
                 cs_misses = rc_misses c, cs_stores = rc_stores c, cs_evictions = rc_evictions c\<rparr>)"

definition cache_ttl :: "cache option \<Rightarrow> duration" where
  "cache_ttl c = (case c of None \<Rightarrow> 0 | Some c \<Rightarrow> rc_ttl c)"

definition hit_rate :: "cache_stats \<Rightarrow> rat" where
  "hit_rate s = (if cs_hits s + cs_misses s = 0 then 0
     else of_int (cs_hits s) / of_int (cs_hits s + cs_misses s))"

section \<open>Specification: a bounded list of nodes\<close>

definition find_node :: "string \<Rightarrow> node list \<Rightarrow> node option" where
  "find_node key xs = find (\<lambda>n. nd_key n = key) xs"

definition remove_node :: "string \<Rightarrow> node list \<Rightarrow> node list" where
  "remove_node key xs = filter (\<lambda>n. nd_key n \<noteq> key) xs"

definition lru_get :: "instant \<Rightarrow> string \<Rightarrow> node list \<Rightarrow> entry option \<times> node list" where
  "lru_get now k xs = (case find_node k xs of
      None \<Rightarrow> (None, xs)
    | Some n \<Rightarrow> if now < nd_expires n then (Some (nd_entry n), n # remove_node k xs)
                else (None, remove_node k xs))"

definition new_node :: "duration \<Rightarrow> instant \<Rightarrow> string \<Rightarrow> entry \<Rightarrow> node" where
  "new_node ttl now k e = \<lparr>nd_key = k, nd_entry = e\<lparr>en_stored_at := now\<rparr>, nd_expires = now + ttl\<rparr>"

definition lru_put :: "int \<Rightarrow> duration \<Rightarrow> instant \<Rightarrow> string \<Rightarrow> entry \<Rightarrow> node list \<Rightarrow> node list" where
  "lru_put cap ttl now k e xs = take (nat cap) (new_node ttl now k e # remove_node k xs)"

datatype cache_op = Lookup string | Keep string entry | Purge

type_synonym cache_event = "instant \<times> cache_op"

fun cache_step :: "cache_event \<Rightarrow> cache \<Rightarrow> entry option \<times> cache" where
  "cache_step (now, Lookup k) c = cache_get1 now k c"
| "cache_step (now, Keep k e) c = (None, cache_put1 now k e c)"
| "cache_step (now, Purge) c = (None, snd (cache_purge1 c))"

fun lru_step :: "int \<Rightarrow> duration \<Rightarrow> cache_event \<Rightarrow> node list \<Rightarrow> entry option \<times> node list" where
  "lru_step cap ttl (now, Lookup k) xs = lru_get now k xs"
| "lru_step cap ttl (now, Keep k e) xs = (None, lru_put cap ttl now k e xs)"
| "lru_step cap ttl (now, Purge) xs = (None, [])"

definition cache_run :: "cache_event list \<Rightarrow> cache \<Rightarrow> cache" where
  "cache_run evs c = fold (\<lambda>ev c. snd (cache_step ev c)) evs c"

definition lru_run :: "int \<Rightarrow> duration \<Rightarrow> cache_event list \<Rightarrow> node list \<Rightarrow> node list" where
  "lru_run cap ttl evs xs = fold (\<lambda>ev xs. snd (lru_step cap ttl ev xs)) evs xs"

section \<open>The linked list implements it\<close>

definition cache_nodes :: "cache \<Rightarrow> node list" where
  "cache_nodes c = map (rc_elems c) (rc_order c)"

text \<open>
  The elements of the list are distinct and allocated, their keys are distinct, and the map holds
  exactly them.
\<close>

definition cache_wf :: "cache \<Rightarrow> bool" where
  "cache_wf c \<longleftrightarrow> distinct (rc_order c) \<and> (\<forall>el\<in>set (rc_order c). el < rc_next c) \<and>
     inj_on (\<lambda>el. nd_key (rc_elems c el)) (set (rc_order c)) \<and>
     (\<forall>k el. rc_entries c k = Some el \<longleftrightarrow> el \<in> set (rc_order c) \<and> nd_key (rc_elems c el) = k)"

definition cache_inv :: "cache \<Rightarrow> bool" where
  "cache_inv c \<longleftrightarrow> cache_wf c \<and> 0 < rc_capacity c \<and> int (length (rc_order c)) \<le> rc_capacity c"

lemma find_node_None: "find_node k xs = None \<longleftrightarrow> k \<notin> nd_key ` set xs"
  by (auto simp: find_node_def find_None_iff)

lemma find_node_Some: "find_node k xs = Some n \<Longrightarrow> n \<in> set xs \<and> nd_key n = k"
  by (auto simp: find_node_def find_Some_iff)

lemma remove_node_absent: "k \<notin> nd_key ` set xs \<Longrightarrow> remove_node k xs = xs"
  by (auto simp: remove_node_def filter_id_conv)

lemma keys_remove_node [simp]: "nd_key ` set (remove_node k xs) = nd_key ` set xs - {k}"
  by (auto simp: remove_node_def)

lemma remove_node_elems:
  assumes "distinct xs" and "el \<in> set xs" and "inj_on (\<lambda>el. nd_key (f el)) (set xs)"
  shows "remove_node (nd_key (f el)) (map f xs) = map f (remove1 el xs)"
proof -
  have "remove_node (nd_key (f el)) (map f xs) = map f (filter (\<lambda>x. nd_key (f x) \<noteq> nd_key (f el)) xs)"
    by (simp add: remove_node_def filter_map comp_def)
  also have "filter (\<lambda>x. nd_key (f x) \<noteq> nd_key (f el)) xs = filter (\<lambda>x. x \<noteq> el) xs"
    using assms(2,3) by (auto intro!: filter_cong dest: inj_onD)
  also have "filter (\<lambda>x. x \<noteq> el) xs = remove1 el xs"
    using assms(1) by (simp add: distinct_remove1_removeAll removeAll_filter_not_eq neq_commute)
  finally show ?thesis .
qed

lemma find_node_elems:
  assumes "el \<in> set xs" and "inj_on (\<lambda>el. nd_key (f el)) (set xs)"
  shows "find_node (nd_key (f el)) (map f xs) = Some (f el)"
  using assms
proof (induction xs)
  case (Cons x xs)
  show ?case
  proof (cases "nd_key (f x) = nd_key (f el)")
    case True
    then have "x = el" using Cons.prems by (auto dest: inj_onD)
    then show ?thesis by (simp add: find_node_def)
  next
    case False
    then have "el \<in> set xs" using Cons.prems by auto
    with False Cons show ?thesis by (simp add: find_node_def)
  qed
qed simp

lemma cache_wfD:
  assumes "cache_wf c"
  shows "distinct (rc_order c)" and "\<And>el. el \<in> set (rc_order c) \<Longrightarrow> el < rc_next c"
    and "inj_on (\<lambda>el. nd_key (rc_elems c el)) (set (rc_order c))"
    and "\<And>k el. rc_entries c k = Some el \<longleftrightarrow> el \<in> set (rc_order c) \<and> nd_key (rc_elems c el) = k"
  using assms unfolding cache_wf_def by simp_all

lemma cache_entries_None:
  assumes "cache_wf c" and "rc_entries c k = None"
  shows "find_node k (cache_nodes c) = None" and "k \<notin> nd_key ` rc_elems c ` set (rc_order c)"
proof -
  show "k \<notin> nd_key ` rc_elems c ` set (rc_order c)"
  proof
    assume "k \<in> nd_key ` rc_elems c ` set (rc_order c)"
    then obtain el where "el \<in> set (rc_order c)" "nd_key (rc_elems c el) = k" by blast
    then have "rc_entries c k = Some el" using cache_wfD(4) [OF assms(1)] by simp
    then show False using assms(2) by simp
  qed
  then show "find_node k (cache_nodes c) = None" by (simp add: find_node_None cache_nodes_def)
qed

lemma cache_entries_Some:
  assumes "cache_wf c" and "rc_entries c k = Some el"
  shows "el \<in> set (rc_order c)" and "nd_key (rc_elems c el) = k" and "el < rc_next c"
    and "find_node k (cache_nodes c) = Some (rc_elems c el)"
    and "remove_node k (cache_nodes c) = map (rc_elems c) (remove1 el (rc_order c))"
proof -
  show el: "el \<in> set (rc_order c)" and k: "nd_key (rc_elems c el) = k" and "el < rc_next c"
    using cache_wfD(4) [OF assms(1)] cache_wfD(2) [OF assms(1)] assms(2) by simp_all
  show "find_node k (cache_nodes c) = Some (rc_elems c el)"
    using find_node_elems [OF el cache_wfD(3) [OF assms(1)]] by (simp add: cache_nodes_def k)
  show "remove_node k (cache_nodes c) = map (rc_elems c) (remove1 el (rc_order c))"
    using remove_node_elems [OF cache_wfD(1) [OF assms(1)] el cache_wfD(3) [OF assms(1)]] by (simp add: cache_nodes_def k)
qed


text \<open>Removing an element, and moving one to the front, on the invariant and on the list of nodes.\<close>

lemma cache_wf_remove:
  assumes "cache_wf c" and "el \<in> set (rc_order c)"
  shows "cache_wf (cache_remove el c)"
proof -
  note inv = cache_wfD [OF assms(1)]
  have eq: "nd_key (rc_elems c x) = nd_key (rc_elems c el) \<longleftrightarrow> x = el" if "x \<in> set (rc_order c)" for x
    using inv(3) that assms(2) by (auto dest: inj_onD)
  have len: "length (remove1 el (rc_order c)) \<le> length (rc_order c)" by (simp add: length_remove1)
  show ?thesis
    unfolding cache_wf_def cache_remove_def
    using inv eq len set_remove1_eq [OF inv(1), of el]
    by (auto intro: inj_on_subset)
qed

lemma cache_nodes_remove: "cache_nodes (cache_remove el c) = map (rc_elems c) (remove1 el (rc_order c))"
  by (simp add: cache_nodes_def cache_remove_def)

lemma cache_wf_counters:
  "cache_wf (c\<lparr>rc_hits := a\<rparr>) = cache_wf c" "cache_wf (c\<lparr>rc_misses := a\<rparr>) = cache_wf c"
  "cache_wf (c\<lparr>rc_stores := a\<rparr>) = cache_wf c" "cache_wf (c\<lparr>rc_evictions := a\<rparr>) = cache_wf c"
  "cache_nodes (c\<lparr>rc_hits := a\<rparr>) = cache_nodes c" "cache_nodes (c\<lparr>rc_misses := a\<rparr>) = cache_nodes c"
  "cache_nodes (c\<lparr>rc_stores := a\<rparr>) = cache_nodes c" "cache_nodes (c\<lparr>rc_evictions := a\<rparr>) = cache_nodes c"
  by (simp_all add: cache_wf_def cache_nodes_def)

lemma mset_front: "mset (move_to_front el xs) = mset xs"
  by (simp add: move_to_front_def)

lemmas front_facts = mset_front [THEN mset_eq_setD] mset_front [THEN mset_eq_length]
  mset_front [THEN mset_eq_imp_distinct_iff]

lemma cache_wf_front: "cache_wf c \<Longrightarrow> cache_wf (c\<lparr>rc_order := move_to_front el (rc_order c)\<rparr>)"
  by (simp add: cache_wf_def front_facts)

text \<open>Each step refines the step of the specification and keeps the invariant.\<close>

lemma get_refines:
  assumes "cache_inv c"
  shows "cache_inv (snd (cache_get1 now k c)) \<and>
    fst (cache_get1 now k c) = fst (lru_get now k (cache_nodes c)) \<and>
    cache_nodes (snd (cache_get1 now k c)) = snd (lru_get now k (cache_nodes c))"
proof (cases "rc_entries c k")
  case None
  then show ?thesis
    using assms cache_entries_None [of c k]
    by (simp add: cache_get1_def lru_get_def cache_wf_counters cache_inv_def)
next
  case (Some el)
  have wf: "cache_wf c" using assms by (simp add: cache_inv_def)
  note el = cache_entries_Some [OF wf Some]
  have len: "length (remove1 el (rc_order c)) \<le> length (rc_order c)" by (simp add: length_remove1)
  show ?thesis
  proof (cases "now < nd_expires (rc_elems c el)")
    case True
    then show ?thesis
      using Some el assms cache_wf_counters(1) [where c = "c\<lparr>rc_order := move_to_front el (rc_order c)\<rparr>"]
        cache_wf_front [OF wf, of el]
      by (simp add: cache_get1_def lru_get_def cache_inv_def front_facts)
        (simp add: cache_nodes_def move_to_front_def)
  next
    case False
    then show ?thesis
      using Some el len assms cache_wf_remove [OF wf el(1)] cache_nodes_remove [of el c]
      by (simp add: cache_get1_def lru_get_def cache_inv_def cache_wf_counters)
        (simp add: cache_remove_def)
  qed
qed

lemma evict_one:
  assumes "int (length (rc_order c)) \<le> rc_capacity c + 1" and "0 < rc_capacity c" and "cache_wf c"
  shows "cache_inv (evict c) \<and> cache_nodes (evict c) = take (nat (rc_capacity c)) (cache_nodes c)"
proof (cases "int (length (rc_order c)) \<le> rc_capacity c")
  case True
  then have "evict c = c" by (subst evict.simps) simp
  with True assms show ?thesis by (simp add: cache_inv_def cache_nodes_def)
next
  case False
  define d where "d = cache_remove (last (rc_order c)) c"
  have ne: "rc_order c \<noteq> []" using False assms(2) by auto
  have dist: "distinct (rc_order c)" using cache_wfD(1) [OF assms(3)] .
  have ord: "rc_order d = butlast (rc_order c)"
  proof -
    obtain ys y where xs: "rc_order c = ys @ [y]" using ne by (metis append_butlast_last_id)
    with dist have "y \<notin> set ys" by simp
    then show ?thesis by (simp add: d_def cache_remove_def xs remove1_append)
  qed
  have cap: "rc_capacity d = rc_capacity c" by (simp add: d_def cache_remove_def)
  have len: "int (length (rc_order d)) = rc_capacity c"
    using assms(1) False ne by (simp add: ord of_nat_diff Suc_leI)
  have "evict c = evict (d\<lparr>rc_evictions := rc_evictions d + 1\<rparr>)"
    using False ne by (subst evict.simps) (simp add: d_def Let_def)
  also have "\<dots> = d\<lparr>rc_evictions := rc_evictions d + 1\<rparr>"
    using len cap by (subst evict.simps) simp
  finally have ev: "evict c = d\<lparr>rc_evictions := rc_evictions d + 1\<rparr>" .
  have wf: "cache_wf d" using cache_wf_remove [OF assms(3)] ne by (simp add: d_def)
  have "nat (rc_capacity c) = length (rc_order c) - 1" using assms(1) False by linarith
  then have "cache_nodes d = take (nat (rc_capacity c)) (cache_nodes c)"
    by (simp add: cache_nodes_def ord butlast_conv_take take_map)
      (simp add: d_def cache_remove_def)
  with ev wf len cap assms(2) show ?thesis
    by (simp add: cache_inv_def cache_wf_counters)
qed

lemma put_refines:
  assumes "cache_inv c"
  shows "cache_inv (cache_put1 now k e c) \<and>
    cache_nodes (cache_put1 now k e c) = lru_put (rc_capacity c) (rc_ttl c) now k e (cache_nodes c)"
proof (cases "rc_entries c k")
  case None
  define n where "n = new_node (rc_ttl c) now k e"
  define d where "d = c\<lparr>rc_stores := rc_stores c + 1, rc_elems := (rc_elems c)(rc_next c := n),
    rc_next := Suc (rc_next c), rc_entries := (rc_entries c)(k \<mapsto> rc_next c), rc_order := rc_next c # rc_order c\<rparr>"
  have wfc: "cache_wf c" and bound: "0 < rc_capacity c" "int (length (rc_order c)) \<le> rc_capacity c"
    using assms by (simp_all add: cache_inv_def)
  note inv = cache_wfD [OF wfc] and none = cache_entries_None [OF wfc None]
  have fresh: "rc_next c \<notin> set (rc_order c)" using inv(2) by blast
  have nkey: "nd_key (rc_elems c x) \<noteq> k" if "x \<in> set (rc_order c)" for x
    using none(2) that by blast
  have nk: "nd_key n = k" by (simp add: n_def new_node_def)
  have same: "((rc_elems c)(rc_next c := n)) el = rc_elems c el" if "el \<in> set (rc_order c)" for el
    using fresh that by auto
  have wf: "cache_wf d"
    unfolding cache_wf_def
  proof (intro conjI allI ballI)
    show "distinct (rc_order d)" using inv(1) fresh by (simp add: d_def)
    show "el < rc_next d" if "el \<in> set (rc_order d)" for el
      using inv(2) [of el] that by (auto simp: d_def)
    show "inj_on (\<lambda>el. nd_key (rc_elems d el)) (set (rc_order d))"
    proof (rule inj_onI)
      fix x y
      assume "x \<in> set (rc_order d)" "y \<in> set (rc_order d)" "nd_key (rc_elems d x) = nd_key (rc_elems d y)"
      then show "x = y"
        using nkey [of x] nkey [of y] inj_onD [OF inv(3), of x y] nk fresh
        by (auto simp: d_def split: if_splits)
    qed
    show "rc_entries d k' = Some el \<longleftrightarrow> el \<in> set (rc_order d) \<and> nd_key (rc_elems d el) = k'" for k' el
      using nkey [of el] inv(4) [of k' el] nk fresh by (auto simp: d_def)
  qed
  have put: "cache_put1 now k e c = evict d"
    using None by (simp add: cache_put1_def Let_def d_def n_def new_node_def)
  have nodes: "cache_nodes d = n # cache_nodes c"
    using same by (simp add: d_def cache_nodes_def)
  have "k \<notin> nd_key ` set (cache_nodes c)" using none(2) by (simp add: cache_nodes_def)
  then have rem: "remove_node k (cache_nodes c) = cache_nodes c" by (rule remove_node_absent)
  have "rc_capacity d = rc_capacity c" and "int (length (rc_order d)) \<le> rc_capacity d + 1"
    using bound by (simp_all add: d_def)
  with evict_one [of d] wf bound show ?thesis
    by (simp add: put nodes lru_put_def rem n_def)
next
  case (Some el)
  define n where "n = new_node (rc_ttl c) now k e"
  define d where "d = c\<lparr>rc_stores := rc_stores c + 1, rc_elems := (rc_elems c)(el := n),
    rc_order := move_to_front el (rc_order c)\<rparr>"
  have wf: "cache_wf c" and bound: "0 < rc_capacity c" "int (length (rc_order c)) \<le> rc_capacity c"
    using assms by (simp_all add: cache_inv_def)
  note el = cache_entries_Some [OF wf Some] and inv = cache_wfD [OF wf]
  have put: "cache_put1 now k e c = d"
    using Some by (simp add: cache_put1_def Let_def d_def n_def new_node_def)
  have key: "nd_key (((rc_elems c)(el := n)) x) = nd_key (rc_elems c x)" for x
    using el(2) by (simp add: n_def new_node_def)
  have len: "length (rc_order d) = length (rc_order c)"
    by (simp add: d_def front_facts)
  have "cache_wf d"
    using cache_wf_front [OF wf, of el] key by (simp add: cache_wf_def d_def)
  moreover have "el \<notin> set (remove1 el (rc_order c))" using inv(1) by simp
  then have "map ((rc_elems c)(el := n)) (remove1 el (rc_order c)) = map (rc_elems c) (remove1 el (rc_order c))"
    by (simp add: map_fun_upd)
  then have "cache_nodes d = n # remove_node k (cache_nodes c)"
    using el(1,5) by (simp add: cache_nodes_def d_def move_to_front_def)
  moreover have "length (cache_nodes d) = length (rc_order c)" using len by (simp add: cache_nodes_def)
  ultimately show ?thesis
    using bound len by (simp add: put cache_inv_def lru_put_def n_def d_def)
qed

lemma evict_fields: "rc_capacity (evict c) = rc_capacity c \<and> rc_ttl (evict c) = rc_ttl c"
proof (induction c rule: evict.induct)
  case (1 c)
  then show ?case by (subst (1 2) evict.simps) (simp add: Let_def cache_remove_def)
qed

lemma step_fields:
  "rc_capacity (snd (cache_step ev c)) = rc_capacity c \<and> rc_ttl (snd (cache_step ev c)) = rc_ttl c"
  by (cases "(ev, c)" rule: cache_step.cases)
    (simp_all add: cache_get1_def cache_put1_def cache_purge1_def cache_remove_def Let_def evict_fields split: option.split)

lemma step_refines:
  assumes "cache_inv c"
  shows "cache_inv (snd (cache_step ev c)) \<and>
    fst (cache_step ev c) = fst (lru_step (rc_capacity c) (rc_ttl c) ev (cache_nodes c)) \<and>
    cache_nodes (snd (cache_step ev c)) = snd (lru_step (rc_capacity c) (rc_ttl c) ev (cache_nodes c))"
  using assms
  by (cases "(ev, c)" rule: cache_step.cases)
    (simp_all add: get_refines put_refines,
     simp_all add: cache_purge1_def cache_inv_def cache_wf_def cache_nodes_def)

section \<open>Histories\<close>

lemma run_refines:
  assumes "cache_inv c"
  shows "cache_inv (cache_run evs c) \<and>
    cache_nodes (cache_run evs c) = lru_run (rc_capacity c) (rc_ttl c) evs (cache_nodes c) \<and>
    rc_capacity (cache_run evs c) = rc_capacity c \<and> rc_ttl (cache_run evs c) = rc_ttl c"
  using assms
proof (induction evs arbitrary: c)
  case (Cons ev evs)
  then show ?case
    using Cons.IH [of "snd (cache_step ev c)"] step_refines [of c ev] step_fields [of ev c]
    by (simp add: cache_run_def lru_run_def)
qed (simp add: cache_run_def lru_run_def)

lemma new_cache_Some:
  assumes "new_cache ttl cap = Some c"
  shows "cache_inv c" "cache_nodes c = []" "rc_capacity c = cap" "rc_ttl c = ttl" "0 < cap" "0 < ttl"
  using assms by (auto simp: new_cache_def cache_inv_def cache_wf_def cache_nodes_def split: if_splits)

lemma run_new:
  assumes "new_cache ttl cap = Some c"
  shows "cache_inv (cache_run evs c)" "cache_nodes (cache_run evs c) = lru_run cap ttl evs []"
    "rc_capacity (cache_run evs c) = cap" "rc_ttl (cache_run evs c) = ttl"
  using run_refines [of c evs] new_cache_Some [OF assms] by simp_all

text \<open>What the list holds after a history: each node is the last store under its key.\<close>

fun touches :: "string \<Rightarrow> cache_event \<Rightarrow> bool" where
  "touches k (_, Lookup _) = False"
| "touches k (_, Keep k' _) = (k' = k)"
| "touches k (_, Purge) = True"

lemma lru_get_subset: "set (snd (lru_get now k xs)) \<subseteq> set xs"
  by (auto simp: lru_get_def remove_node_def dest: find_node_Some split: option.split)

lemma lru_run_snoc: "lru_run cap ttl (evs @ [ev]) xs = snd (lru_step cap ttl ev (lru_run cap ttl evs xs))"
  by (simp add: lru_run_def)

lemma lru_nodes_origin:
  "n \<in> set (lru_run cap ttl evs []) \<Longrightarrow>
   \<exists>pre t e post. evs = pre @ (t, Keep (nd_key n) e) # post \<and> n = new_node ttl t (nd_key n) e \<and>
     (\<forall>ev\<in>set post. \<not> touches (nd_key n) ev)"
proof (induction evs rule: rev_induct)
  case Nil
  then show ?case by (simp add: lru_run_def)
next
  case (snoc ev evs)
  have old: ?case if "n \<in> set (lru_run cap ttl evs [])" "\<not> touches (nd_key n) ev"
  proof -
    from snoc.IH [OF that(1)] obtain pre t e post where
      "evs = pre @ (t, Keep (nd_key n) e) # post" "n = new_node ttl t (nd_key n) e"
      "\<forall>ev\<in>set post. \<not> touches (nd_key n) ev" by blast
    with that(2) have "evs @ [ev] = pre @ (t, Keep (nd_key n) e) # (post @ [ev])"
      "\<forall>x\<in>set (post @ [ev]). \<not> touches (nd_key n) x" by auto
    with \<open>n = _\<close> show ?thesis by blast
  qed
  obtain now op where ev: "ev = (now, op)" by (cases ev)
  show ?case
  proof (cases op)
    case (Lookup k)
    then show ?thesis
      using old snoc.prems lru_get_subset [of now k "lru_run cap ttl evs []"] by (auto simp: lru_run_snoc ev)
  next
    case (Keep k e)
    then have "n = new_node ttl now k e \<or> n \<in> set (lru_run cap ttl evs []) \<and> nd_key n \<noteq> k"
      using snoc.prems by (auto simp: lru_run_snoc ev lru_put_def remove_node_def dest!: in_set_takeD)
    then show ?thesis
    proof
      assume n: "n = new_node ttl now k e"
      then have "nd_key n = k" by (simp add: new_node_def)
      with n Keep ev show ?thesis by force
    qed (use old ev Keep in auto)
  next
    case Purge
    with snoc.prems show ?thesis by (simp add: lru_run_snoc ev)
  qed
qed

text \<open>A key used since which fewer than capacity others were used is still in the list.\<close>

fun used_key :: "cache_event \<Rightarrow> string set" where
  "used_key (_, Lookup k) = {k}"
| "used_key (_, Keep k _) = {k}"
| "used_key (_, Purge) = {}"

definition near_front :: "node \<Rightarrow> string set \<Rightarrow> node list \<Rightarrow> bool" where
  "near_front n ks xs \<longleftrightarrow> distinct (map nd_key xs) \<and> (\<exists>ys zs. xs = ys @ n # zs \<and> nd_key ` set ys \<subseteq> ks)"

lemma distinct_remove_node: "distinct (map nd_key xs) \<Longrightarrow> distinct (map nd_key (remove_node k xs))"
  by (induction xs) (auto simp: remove_node_def)

lemma near_front_use:
  assumes "near_front n ks xs" and "nd_key n \<notin> ks" and "nd_key m \<in> ks" and "finite ks" and "card ks < c"
  shows "near_front n ks (take c (m # remove_node (nd_key m) xs))"
proof -
  let ?k = "nd_key m"
  obtain ys zs where xs: "xs = ys @ n # zs" and ys: "nd_key ` set ys \<subseteq> ks" and d: "distinct (map nd_key xs)"
    using assms(1) by (auto simp: near_front_def)
  let ?ys = "m # remove_node ?k ys"
  have ne: "nd_key n \<noteq> ?k" using assms(2,3) by metis
  have eq: "m # remove_node ?k xs = ?ys @ n # remove_node ?k zs" by (simp add: xs remove_node_def ne)
  have dist: "distinct (map nd_key (m # remove_node ?k xs))"
    using distinct_remove_node [OF d, of ?k] by simp
  have sub: "nd_key ` set ?ys \<subseteq> ks" using ys assms(3) by auto
  have "length ?ys = card (nd_key ` set ?ys)"
    using dist distinct_card [of "map nd_key ?ys"] by (simp only: eq) simp
  also have "\<dots> \<le> card ks" using sub assms(4) by (rule card_mono [rotated])
  finally have len: "length ?ys < c" using assms(5) by linarith
  have "take c (m # remove_node ?k xs) = ?ys @ n # take (c - Suc (length ?ys)) (remove_node ?k zs)"
    using len by (simp only: eq take_append) (simp add: take_Cons')
  moreover have "distinct (map nd_key (take c (m # remove_node ?k xs)))"
    using dist distinct_take [of "map nd_key (m # remove_node ?k xs)" c] by (simp only: take_map)
  ultimately show ?thesis using sub unfolding near_front_def by blast
qed

lemma near_frontI:
  "distinct (map nd_key xs) \<Longrightarrow> xs = ys @ n # zs \<Longrightarrow> nd_key ` set ys \<subseteq> ks \<Longrightarrow> near_front n ks xs"
  unfolding near_front_def by blast

lemma near_front_lookup:
  assumes "near_front n ks xs" and "nd_key n \<notin> ks" and "k \<in> ks" and "finite ks"
  shows "near_front n ks (snd (lru_get now k xs))"
proof (cases "find_node k xs")
  case None
  then show ?thesis using assms(1) by (simp add: lru_get_def)
next
  case (Some m)
  then have m: "nd_key m = k" using find_node_Some by blast
  show ?thesis
  proof (cases "now < nd_expires m")
    case True
    let ?c = "Suc (length xs + card ks)"
    have "length (remove_node k xs) \<le> length xs" by (simp add: remove_node_def)
    then have "take ?c (m # remove_node k xs) = m # remove_node k xs" by simp
    with near_front_use [OF assms(1,2), of m ?c] True Some m assms(3,4) show ?thesis
      by (simp add: lru_get_def)
  next
    case False
    obtain ys zs where xs: "xs = ys @ n # zs" and ys: "nd_key ` set ys \<subseteq> ks" and d: "distinct (map nd_key xs)"
      using assms(1) by (auto simp: near_front_def)
    have "nd_key n \<noteq> k" using assms(2,3) by metis
    then have "remove_node k xs = remove_node k ys @ n # remove_node k zs" by (simp add: xs remove_node_def)
    moreover have "nd_key ` set (remove_node k ys) \<subseteq> ks" using ys by auto
    ultimately have "near_front n ks (remove_node k xs)"
      using near_frontI [OF distinct_remove_node [OF d]] by blast
    then show ?thesis using False Some by (simp add: lru_get_def)
  qed
qed

lemma near_front_touch:
  assumes "near_front n ks xs" and "now < nd_expires n"
  shows "near_front n {} (snd (lru_get now (nd_key n) xs))" and "fst (lru_get now (nd_key n) xs) = Some (nd_entry n)"
proof -
  obtain ys zs where xs: "xs = ys @ n # zs" and d: "distinct (map nd_key xs)"
    using assms(1) by (auto simp: near_front_def)
  have "n \<in> set xs" using xs by simp
  moreover have "inj_on nd_key (set xs)" using d by (simp only: distinct_map)
  ultimately have f: "find_node (nd_key n) xs = Some n"
    using find_node_elems [of n xs "\<lambda>x. x"] by simp
  with assms(2) show "fst (lru_get now (nd_key n) xs) = Some (nd_entry n)"
    by (simp add: lru_get_def)
  have "near_front n {} (n # remove_node (nd_key n) xs)"
    by (rule near_frontI [of _ "[]"]) (simp_all add: distinct_remove_node [OF d])
  with f assms(2) show "near_front n {} (snd (lru_get now (nd_key n) xs))"
    by (simp add: lru_get_def)
qed

lemma near_front_mono: "near_front n ks xs \<Longrightarrow> ks \<subseteq> ls \<Longrightarrow> near_front n ls xs"
  unfolding near_front_def by (metis order_trans)

lemma near_front_run:
  assumes "near_front n ks xs" and "nd_key n \<notin> ks" and "finite ks" and "card ks < nat cap"
    and "\<forall>ev\<in>set evs. fst ev < nd_expires n \<and> \<not> touches (nd_key n) ev \<and> used_key ev \<subseteq> insert (nd_key n) ks"
  shows "near_front n ks (lru_run cap ttl evs xs)"
  using assms
proof (induction evs arbitrary: xs)
  case Nil
  then show ?case by (simp add: lru_run_def)
next
  case (Cons ev evs)
  obtain now op where ev: "ev = (now, op)" by (cases ev)
  have "near_front n ks (snd (lru_step cap ttl ev xs))"
  proof (cases op)
    case (Lookup k)
    show ?thesis
    proof (cases "k = nd_key n")
      case True
      with near_front_touch(1) [OF Cons.prems(1), of now] Cons.prems(5) show ?thesis
        by (auto simp: ev Lookup intro: near_front_mono)
    next
      case False
      then have "k \<in> ks" using Cons.prems(5) by (auto simp: ev Lookup)
      with near_front_lookup [OF Cons.prems(1,2)] Cons.prems(3) show ?thesis by (simp add: ev Lookup)
    qed
  next
    case (Keep k e)
    then have "k \<in> ks" using Cons.prems(5) by (auto simp: ev)
    with near_front_use [OF Cons.prems(1,2), of "new_node ttl now k e" "nat cap"] Cons.prems(3,4) show ?thesis
      by (simp add: ev Keep lru_put_def new_node_def)
  next
    case Purge
    with Cons.prems(5) show ?thesis by (simp add: ev)
  qed
  with Cons show ?case by (simp add: lru_run_def)
qed

lemma run_append: "cache_run (xs @ ys) c = cache_run ys (cache_run xs c)"
  by (simp add: cache_run_def)

lemma lru_run_append: "lru_run cap ttl (xs @ ys) zs = lru_run cap ttl ys (lru_run cap ttl xs zs)"
  by (simp add: lru_run_def)

lemma put_near_front:
  assumes "distinct (map nd_key xs)" and "0 < cap"
  shows "near_front (new_node ttl now k e) {} (lru_put cap ttl now k e xs)"
proof -
  let ?n = "new_node ttl now k e"
  have key: "nd_key ?n = k" by (simp add: new_node_def)
  have "distinct (map nd_key (?n # remove_node k xs))" using distinct_remove_node [OF assms(1)] key by simp
  then have "distinct (map nd_key (take (nat cap) (?n # remove_node k xs)))" by (metis distinct_take take_map)
  moreover obtain m where "nat cap = Suc m" using assms(2) by (metis gr0_conv_Suc zero_less_nat_eq)
  ultimately show ?thesis
    unfolding lru_put_def by (intro near_frontI [of _ "[]"]) simp_all
qed

lemma nodes_distinct: "cache_inv c \<Longrightarrow> distinct (map nd_key (cache_nodes c))"
  by (simp add: cache_inv_def cache_wf_def cache_nodes_def distinct_map comp_inj_on_iff comp_def)

section \<open>Properties\<close>

text \<open>
  C19. The cache refines a bounded list of nodes, most recently used first: after any history on a
  new cache the linked list and the map agree and there are at most capacity entries, and the next
  operation gives the result, and leaves the nodes, of the specification.
\<close>

theorem cache_refines_lru:
  assumes "new_cache ttl cap = Some c"
  shows "cache_inv (cache_run evs c) \<and> cs_entries (cache_stats_of (Some (cache_run evs c))) \<le> cap \<and>
    fst (cache_step ev (cache_run evs c)) = fst (lru_step cap ttl ev (lru_run cap ttl evs [])) \<and>
    cache_nodes (snd (cache_step ev (cache_run evs c))) = lru_run cap ttl (evs @ [ev]) []"
  using step_refines [of "cache_run evs c" ev] run_new [OF assms, of evs]
  by (simp add: lru_run_snoc cache_stats_of_def cache_inv_def)

text \<open>
  A hit is the last store under that key since the last purge, stamped with the time of the
  store, and is younger than the lifetime.
\<close>

theorem cache_hit_sound:
  assumes "new_cache ttl cap = Some c"
    and "fst (cache_get1 now k (cache_run evs c)) = Some e"
  shows "\<exists>pre t e0 post. evs = pre @ (t, Keep k e0) # post \<and> e = e0\<lparr>en_stored_at := t\<rparr> \<and>
    now < t + ttl \<and> (\<forall>ev\<in>set post. \<not> touches k ev)"
proof -
  have "fst (lru_get now k (lru_run cap ttl evs [])) = Some e"
    using get_refines [of "cache_run evs c" now k] run_new [OF assms(1), of evs] assms(2) by simp
  then obtain n where n: "find_node k (lru_run cap ttl evs []) = Some n" "now < nd_expires n" "nd_entry n = e"
    by (auto simp: lru_get_def split: option.splits if_splits)
  have m: "n \<in> set (lru_run cap ttl evs [])" and k: "nd_key n = k"
    using find_node_Some [OF n(1)] by simp_all
  from lru_nodes_origin [OF m] obtain pre t e0 post where
    "evs = pre @ (t, Keep k e0) # post" "n = new_node ttl t k e0" "\<forall>ev\<in>set post. \<not> touches k ev"
    unfolding k by blast
  with n(2,3) show ?thesis by (auto simp: new_node_def)
qed

text \<open>
  Eviction takes the least recently used entry: an entry whose lifetime has not passed hits as
  long as fewer than capacity other keys were used since it was stored.
\<close>

theorem cache_keeps_recent:
  assumes "new_cache ttl cap = Some c"
    and "\<forall>ev\<in>set post. fst ev < t + ttl \<and> \<not> touches k ev" and "now < t + ttl"
    and "int (card ((\<Union>ev\<in>set post. used_key ev) - {k})) < cap"
  shows "fst (cache_get1 now k (cache_run (pre @ (t, Keep k e) # post) c)) = Some (e\<lparr>en_stored_at := t\<rparr>)"
proof -
  let ?n = "new_node ttl t k e" and ?ks = "(\<Union>ev\<in>set post. used_key ev) - {k}"
  let ?xs = "lru_run cap ttl pre []"
  have key: "nd_key ?n = k" and exp: "nd_expires ?n = t + ttl" by (simp_all add: new_node_def)
  have fin: "finite (used_key ev)" for ev by (cases ev rule: used_key.cases) simp_all
  have "distinct (map nd_key ?xs)"
    using nodes_distinct [OF run_new(1) [OF assms(1), of pre]] by (simp add: run_new(2) [OF assms(1)])
  then have "near_front ?n {} (lru_put cap ttl t k e ?xs)"
    using put_near_front new_cache_Some(5) [OF assms(1)] by blast
  then have "near_front ?n ?ks (lru_put cap ttl t k e ?xs)" by (rule near_front_mono) simp
  then have "near_front ?n ?ks (lru_run cap ttl post (lru_put cap ttl t k e ?xs))"
    using assms(2,4) by (intro near_front_run) (auto simp: key exp fin)
  then have "near_front ?n ?ks (lru_run cap ttl (pre @ (t, Keep k e) # post) [])"
    by (simp add: lru_run_append) (simp add: lru_run_def)
  from near_front_touch(2) [OF this, of now] have
    "fst (lru_get now k (lru_run cap ttl (pre @ (t, Keep k e) # post) [])) = Some (e\<lparr>en_stored_at := t\<rparr>)"
    using assms(3) by (simp add: key exp) (simp add: new_node_def)
  then show ?thesis
    using get_refines [OF run_new(1) [OF assms(1)]] by (simp add: run_new(2) [OF assms(1)])
qed

definition example_entry :: entry where
  "example_entry = \<lparr>en_body = ''{}'', en_model = ''gpt-5'', en_stored_at = 0\<rparr>"

definition example_cache :: cache where
  "example_cache = the (new_cache 60 2)"

definition example_events :: "cache_event list" where
  "example_events = [(1, Keep ''a'' example_entry), (2, Keep ''b'' example_entry), (3, Lookup ''a'')]"

lemma example_cache_new: "new_cache 60 2 = Some example_cache"
  by (simp add: example_cache_def new_cache_def)

lemma cache_refines_lru_witness:
  "fst (cache_step (4, Lookup ''b'') (cache_run example_events example_cache)) =
   fst (lru_step 2 60 (4, Lookup ''b'') (lru_run 2 60 example_events []))"
  using cache_refines_lru [OF example_cache_new, of example_events "(4, Lookup ''b'')"] by simp

lemma cache_hit_sound_witness:
  "\<exists>pre t e0 post. example_events = pre @ (t, Keep ''a'' e0) # post \<and> (4::int) < t + 60"
proof -
  have "fst (cache_get1 4 ''a'' (cache_run example_events example_cache)) = Some (example_entry\<lparr>en_stored_at := 1\<rparr>)"
    by code_simp
  from cache_hit_sound [OF example_cache_new this] show ?thesis by metis
qed

lemma cache_keeps_recent_witness:
  "fst (cache_get1 4 ''a'' (cache_run ([] @ (1, Keep ''a'' example_entry) #
     [(2, Keep ''b'' example_entry), (3, Lookup ''a'')]) example_cache)) = Some (example_entry\<lparr>en_stored_at := 1\<rparr>)"
  by (rule cache_keeps_recent [OF example_cache_new]) simp_all

end
