(* ===== verification/Ponytail_Text.thy ===== *)
theory Ponytail_Text
  imports Openai_Types
begin

text \<open>
  The text level of the context optimiser: the token estimate of
  \<^verbatim>\<open>internal/ponytail/token.go\<close> and the compression heuristics of
  \<^verbatim>\<open>internal/ponytail/compress.go\<close>. A Go string is a list of bytes; the two places where Go
  walks over runes (counting them, splitting sentences) decode UTF-8 as Go does, an invalid
  byte being one rune, written back as U+FFFD. Upper and lower case are those of ASCII,
  and \<^verbatim>\<open>json.Marshal\<close> keeps every byte: its U+FFFD for a rune cut in half is not modelled.
\<close>

section \<open>Runes\<close>

definition byte_in :: "nat \<Rightarrow> nat \<Rightarrow> char \<Rightarrow> bool" where
  "byte_in lo hi c = (lo \<le> of_char c \<and> of_char c \<le> hi)"

text \<open>The number of bytes of the rune a string begins with; \<open>None\<close> for an invalid byte.\<close>

definition rune_width :: "string \<Rightarrow> nat option" where
  "rune_width s = (case s of
      [] \<Rightarrow> None
    | b # bs \<Rightarrow>
        let tail_ok = list_all (byte_in 0x80 0xBF);
            two = (case bs of b1 # _ \<Rightarrow> tail_ok [b1] | _ \<Rightarrow> False);
            three = (\<lambda>lo hi. case bs of b1 # b2 # _ \<Rightarrow> byte_in lo hi b1 \<and> tail_ok [b2] | _ \<Rightarrow> False);
            four = (\<lambda>lo hi. case bs of b1 # b2 # b3 # _ \<Rightarrow> byte_in lo hi b1 \<and> tail_ok [b2, b3] | _ \<Rightarrow> False)
        in if byte_in 0 0x7F b then Some 1
           else if byte_in 0xC2 0xDF b \<and> two then Some 2
           else if byte_in 0xE0 0xE0 b \<and> three 0xA0 0xBF then Some 3
           else if byte_in 0xED 0xED b \<and> three 0x80 0x9F then Some 3
           else if byte_in 0xE1 0xEF b \<and> \<not> byte_in 0xED 0xED b \<and> three 0x80 0xBF then Some 3
           else if byte_in 0xF0 0xF0 b \<and> four 0x90 0xBF then Some 4
           else if byte_in 0xF1 0xF3 b \<and> four 0x80 0xBF then Some 4
           else if byte_in 0xF4 0xF4 b \<and> four 0x80 0x8F then Some 4
           else None)"

lemma rune_width_pos: "rune_width s = Some n \<Longrightarrow> 0 < n"
  by (auto simp: rune_width_def Let_def split: list.splits if_splits)

text \<open>The runes of a string, each as the bytes \<^verbatim>\<open>WriteRune\<close> appends for it.\<close>

function rune_list :: "string \<Rightarrow> string list" where
  "rune_list s =
     (if s = [] then []
      else case rune_width s of
          None \<Rightarrow> utf8_encode 0xFFFD # rune_list (tl s)
        | Some n \<Rightarrow> take n s # rune_list (drop n s))"
  by pat_completeness auto
termination
  by (relation "measure length") (auto dest: rune_width_pos)

declare rune_list.simps [simp del]

definition rune_count :: "string \<Rightarrow> int" where
  "rune_count s = int (length (rune_list s))"

section \<open>Token estimates\<close>

definition estimate_tokens_text :: "string \<Rightarrow> int" where
  "estimate_tokens_text t =
     (if t = [] then 0
      else let n = rune_count t; tokens = (n + 3) div 4 in if tokens < 1 then 1 else tokens)"

text \<open>An array of parts; each member of the struct must decode, \<^verbatim>\<open>null\<close> leaves its zero value.\<close>

definition part_texts :: "(json \<Rightarrow> string option) \<Rightarrow> json \<Rightarrow> string option" where
  "part_texts dec v = map_option concat (Option.bind (as_array v) (opt_all dec))"

definition typed_part_text :: "json \<Rightarrow> string option" where
  "typed_part_text v = do {
     ms \<leftarrow> as_object v; _ \<leftarrow> string_of ''type'' ms; string_of ''text'' ms }"

definition plain_part_text :: "json \<Rightarrow> string option" where
  "plain_part_text v = do { ms \<leftarrow> as_object v; string_of ''text'' ms }"

definition extract_text :: "raw_message \<Rightarrow> string" where
  "extract_text r = (case r of
      None \<Rightarrow> []
    | Some v \<Rightarrow> (case as_string v of
        Some s \<Rightarrow> s
      | None \<Rightarrow> (case part_texts typed_part_text v of None \<Rightarrow> [] | Some s \<Rightarrow> s)))"

section \<open>Blank lines\<close>

fun collapse_from :: "int \<Rightarrow> int \<Rightarrow> string list \<Rightarrow> string list" where
  "collapse_from keep blanks [] = []"
| "collapse_from keep blanks (line # lines) =
     (if trim_space line = [] then
        (if blanks + 1 \<le> keep then [line] else []) @ collapse_from keep (blanks + 1) lines
      else line # collapse_from keep 0 lines)"

definition collapse_line_blanks :: "string list \<Rightarrow> int \<Rightarrow> string list" where
  "collapse_line_blanks lines keep = collapse_from keep 0 lines"

definition line_break :: string where "line_break = [CHR 0x0A]"

definition collapse_blank_lines :: "string \<Rightarrow> int \<Rightarrow> string" where
  "collapse_blank_lines t keep = join (collapse_line_blanks (split_on t line_break) keep) line_break"

section \<open>Sentences\<close>

definition ends_sentence :: "string \<Rightarrow> bool" where
  "ends_sentence r = (r = ''.'' \<or> r = ''!'' \<or> r = ''?'')"

definition sentence_gap :: "string list \<Rightarrow> bool" where
  "sentence_gap rest = (case rest of [] \<Rightarrow> True | r # _ \<Rightarrow> r = '' '' \<or> r = line_break \<or> r = [CHR 0x0D])"

definition flush_sentence :: "string \<Rightarrow> string list" where
  "flush_sentence cur = (let s = trim_space cur in if s = [] then [] else [s])"

fun sentences_from :: "string \<Rightarrow> string list \<Rightarrow> string list" where
  "sentences_from cur [] = flush_sentence cur"
| "sentences_from cur (r # rest) =
     (let cur = cur @ r in
      if ends_sentence r \<and> sentence_gap rest
      then flush_sentence cur @ sentences_from [] rest
      else sentences_from cur rest)"

definition split_sentences :: "string \<Rightarrow> string list" where
  "split_sentences t = sentences_from [] (rune_list t)"

section \<open>Compressing prose\<close>

definition compress_conservative :: "string \<Rightarrow> string" where
  "compress_conservative t =
     (let t = collapse_blank_lines t 2 in
      if length t > 2000
      then take 1500 t @ line_break @ line_break @ ''[...truncated for context optimization...]'' else t)"

definition compress_balanced :: "string \<Rightarrow> string" where
  "compress_balanced t =
     (let t = collapse_blank_lines t 1 in
      if length t \<le> 500 then t
      else (let ss = split_sentences t in
            if length ss \<le> 2 then t
            else ss ! 0 @ '' '' @ ss ! 1 @ line_break @ ''[...]'' @ line_break @ last ss))"

definition key_words :: "string list" where
  "key_words = [''IMPORTANT'', ''NOTE'', ''WARNING'', ''ERROR'', ''FIXME'', ''TODO'', ''HACK'', ''BUG'']"

definition is_key_line :: "string \<Rightarrow> bool" where
  "is_key_line line =
     (if prefix ''- '' line \<or> prefix ''* '' line \<or> prefix ''#'' line
         \<or> (length line > 2 \<and> CHR ''1'' \<le> line ! 0 \<and> line ! 0 \<le> CHR ''9'' \<and> line ! 1 = CHR ''.'')
      then True
      else (let up = to_upper line in list_ex (contains up) key_words))"

definition aggressive_bullets :: "string \<Rightarrow> string list" where
  "aggressive_bullets t =
     map (\<lambda>line. ''- '' @ line)
       (filter (\<lambda>line. line \<noteq> [] \<and> is_key_line line) (map trim_space (split_on t line_break)))"

definition compress_aggressive :: "string \<Rightarrow> string" where
  "compress_aggressive t =
     (let t = collapse_blank_lines t 0 in
      if length t \<le> 200 then t
      else (let bullets = aggressive_bullets t in
        if bullets = [] then
          (let ss = split_sentences t in
           if length ss > 1 then ss ! 0 @ '' [...] '' @ last ss else take (min 200 (length t)) t)
        else (let r = join bullets line_break in
          if length r > 600 then take 600 r @ line_break @ ''- [...truncated...]'' else r)))"

definition compress_text :: "string \<Rightarrow> string \<Rightarrow> string" where
  "compress_text t mode =
     (if mode = ''aggressive'' then compress_aggressive t
      else if mode = ''balanced'' then compress_balanced t
      else compress_conservative t)"

section \<open>Compressing code\<close>

record code_section =
  sec_text :: string
  sec_code :: bool

definition fence :: string where "fence = ''```''"

definition fence_line :: "string \<Rightarrow> bool" where "fence_line line = prefix fence (trim_space line)"

text \<open>The loop over the lines: what is collected, and whether it is inside a fence.\<close>

fun sections_from :: "string \<Rightarrow> bool \<Rightarrow> string list \<Rightarrow> code_section list" where
  "sections_from cur in_code [] = (if cur \<noteq> [] then [\<lparr>sec_text = cur, sec_code = in_code\<rparr>] else [])"
| "sections_from cur in_code (line # lines) =
     (if fence_line line then
        (if in_code
         then \<lparr>sec_text = cur @ line @ line_break, sec_code = True\<rparr> # sections_from [] False lines
         else (if cur \<noteq> [] then [\<lparr>sec_text = cur, sec_code = False\<rparr>] else [])
                @ sections_from (line @ line_break) True lines)
      else sections_from (cur @ line @ line_break) in_code lines)"

definition split_code_sections :: "string \<Rightarrow> code_section list" where
  "split_code_sections t = sections_from [] False (split_on t line_break)"

definition is_comment :: "string \<Rightarrow> bool" where
  "is_comment line = (prefix ''//'' line \<or> prefix ''#'' line \<or> prefix ''/*'' line \<or> prefix ''*'' line
     \<or> prefix ''<!--'' line)"

definition is_important_comment :: "string \<Rightarrow> bool" where
  "is_important_comment line = (is_comment line \<and> contains (to_upper line) ''IMPORTANT'')"

definition signature_words :: "string list" where
  "signature_words = [
     ''func '', ''function '', ''async function '', ''def '', ''class '', ''interface '',
     ''type '', ''struct '', ''enum '', ''impl '', ''pub fn '', ''pub async fn '',
     ''export '', ''export default '', ''export async '',
     ''public '', ''private '', ''protected '']"

definition is_signature_line :: "string \<Rightarrow> bool" where
  "is_signature_line line =
     (list_ex (\<lambda>kw. prefix kw (to_lower line)) signature_words
      \<or> suffix ''{'' line \<or> suffix '':'' line)"

definition is_import_line :: "string \<Rightarrow> bool" where
  "is_import_line line =
     (let low = to_lower (trim_space line) in
      prefix ''import '' low \<or> prefix ''from '' low \<or> prefix ''require('' low
      \<or> prefix ''#include'' low \<or> prefix ''use '' low \<or> prefix ''package '' low)"

definition filter_conservative :: "string list \<Rightarrow> string list" where
  "filter_conservative lines = collapse_line_blanks lines 1"

fun filter_balanced :: "bool \<Rightarrow> string list \<Rightarrow> string list" where
  "filter_balanced prev_blank [] = []"
| "filter_balanced prev_blank (line # lines) =
     (let t = trim_space line in
      if t = [] then (if prev_blank then [] else [line]) @ filter_balanced True lines
      else (if is_comment t \<and> \<not> contains (to_upper t) ''IMPORTANT'' then [] else [line])
             @ filter_balanced False lines)"

definition filter_aggressive :: "string list \<Rightarrow> string list" where
  "filter_aggressive lines =
     filter (\<lambda>line. let t = trim_space line in
       t \<noteq> [] \<and> (is_signature_line t \<or> is_import_line t \<or> is_important_comment t)) lines"

definition compress_code :: "string \<Rightarrow> string \<Rightarrow> string" where
  "compress_code t mode =
     (let lines = split_on t line_break in
      if length lines \<le> 2 then t
      else (let body = tl lines;
                closed = body \<noteq> [] \<and> trim_space (last body) = fence;
                close_fence = (if closed then last body else []);
                body = (if closed then butlast body else body);
                filtered = (if mode = ''balanced'' then filter_balanced False body
                            else if mode = ''aggressive'' then filter_aggressive body
                            else filter_conservative body)
            in hd lines @ line_break @ concat (map (\<lambda>line. line @ line_break) filtered) @ close_fence))"

definition compress_code_blocks :: "string \<Rightarrow> string \<Rightarrow> string" where
  "compress_code_blocks t mode =
     concat (map (\<lambda>sec. if sec_code sec then compress_code (sec_text sec) mode else sec_text sec)
       (split_code_sections t))"

section \<open>Message content\<close>

text \<open>The text of a message and whether it has one.\<close>

definition extract_message_text :: "raw_message \<Rightarrow> string option" where
  "extract_message_text r = (case r of
      None \<Rightarrow> None
    | Some v \<Rightarrow> (case as_string v of Some s \<Rightarrow> Some s | None \<Rightarrow> part_texts plain_part_text v))"

definition marshal_text :: "string \<Rightarrow> raw_message" where
  "marshal_text t = Some (json_of_string t)"

section \<open>What the text heuristics do\<close>

text \<open>Blank lines are only dropped, never moved, and no other line is touched.\<close>

lemma collapse_from_subseq: "subseq (collapse_from keep b ls) ls"
  by (induction keep b ls rule: collapse_from.induct) auto

lemma collapse_from_keeps_text:
  "filter (\<lambda>l. trim_space l \<noteq> []) (collapse_from keep b ls) = filter (\<lambda>l. trim_space l \<noteq> []) ls"
  by (induction keep b ls rule: collapse_from.induct) auto

lemma length_join: "ls \<noteq> [] \<Longrightarrow> length (join ls sep) + length sep = sum_list (map (\<lambda>l. length l + length sep) ls)"
  by (induction ls sep rule: join.induct) auto

lemma subseq_sum_le: "subseq xs ys \<Longrightarrow> sum_list (map f xs) \<le> sum_list (map f ys)" for f :: "'a \<Rightarrow> nat"
  by (induction rule: list_emb.induct) auto

lemma collapse_shorter: "length (collapse_blank_lines t keep) \<le> length t"
proof (cases "collapse_line_blanks (split_on t line_break) keep = []")
  case False
  have "subseq (collapse_line_blanks (split_on t line_break) keep) (split_on t line_break)"
    by (simp add: collapse_line_blanks_def collapse_from_subseq)
  then have "length (collapse_blank_lines t keep) + length line_break
      \<le> length (join (split_on t line_break) line_break) + length line_break"
    unfolding collapse_blank_lines_def length_join [OF False] length_join [OF split_on_nonempty]
    by (rule subseq_sum_le)
  then show ?thesis by (simp add: join_split)
qed (simp add: collapse_blank_lines_def)

lemma conservative_bounded: "length (compress_conservative t) \<le> min (length t) 2000"
proof -
  have "length (line_break @ line_break @ ''[...truncated for context optimization...]'') < 500" by code_simp
  then show ?thesis
    using collapse_shorter [of t 2] by (auto simp: compress_conservative_def Let_def min_def)
qed

text \<open>Splitting into sections loses nothing, but every line, the last one included, gains its
  line break: what has no code comes back one byte longer, hence never equal to the input.\<close>

lemma sections_text:
  "concat (map sec_text (sections_from cur b ls)) = cur @ concat (map (\<lambda>l. l @ line_break) ls)"
  by (induction cur b ls rule: sections_from.induct) auto

lemma concat_lines: "ls \<noteq> [] \<Longrightarrow> concat (map (\<lambda>l. l @ sep) ls) = join ls sep @ sep"
  by (induction ls sep rule: join.induct) auto

lemma sections_lose_nothing: "concat (map sec_text (split_code_sections t)) = t @ line_break"
  by (simp add: split_code_sections_def sections_text concat_lines join_split)

lemma sections_no_fence:
  "list_all (\<lambda>l. \<not> fence_line l) ls \<Longrightarrow> \<not> b \<Longrightarrow> sec \<in> set (sections_from cur b ls) \<Longrightarrow> \<not> sec_code sec"
  by (induction cur b ls rule: sections_from.induct) (auto split: if_splits)

lemma plain_text_gains_newline:
  assumes "list_all (\<lambda>l. \<not> fence_line l) (split_on t line_break)"
  shows "compress_code_blocks t mode = t @ line_break"
proof -
  have "map (\<lambda>sec. if sec_code sec then compress_code (sec_text sec) mode else sec_text sec)
      (split_code_sections t) = map sec_text (split_code_sections t)"
    using assms by (auto simp: split_code_sections_def dest: sections_no_fence [rotated 2])
  then show ?thesis unfolding compress_code_blocks_def by (simp only: sections_lose_nothing)
qed

text \<open>A closed block ends in a line break, so its last line is the empty one after the fence: the
  fence is taken for code, and the aggressive filter drops it.\<close>

definition fenced_example :: string where
  "fenced_example = join [''```go'', ''x := 1'', ''func f() {'', ''```'', ''done''] line_break"

lemma aggressive_loses_fence:
  "compress_code_blocks fenced_example ''aggressive'' =
     join [''```go'', ''func f() {'', ''done'', []] line_break"
  by code_simp

text \<open>The estimate never undercounts to nothing.\<close>

lemma estimate_nonneg [simp]: "0 \<le> estimate_tokens_text t"
  by (simp add: estimate_tokens_text_def Let_def)

lemma rune_list_nonempty: "t \<noteq> [] \<Longrightarrow> rune_list t \<noteq> []"
  by (subst rune_list.simps) (auto split: option.split)

lemma length_rune_list: "length (rune_list t) \<le> length t"
proof (induction t rule: rune_list.induct)
  case (1 s)
  show ?case
  proof (cases "s = []")
    case False
    show ?thesis
    proof (cases "rune_width s")
      case None
      have "rune_list s = utf8_encode 0xFFFD # rune_list (tl s)"
        using False None by (subst rune_list.simps) simp
      with False 1(1) [OF False None] show ?thesis by (cases s) simp_all
    next
      case (Some n)
      then have "length (drop n s) + 1 \<le> length s" using False rune_width_pos [OF Some] by (cases s) auto
      with False Some 1(2) show ?thesis by (simp add: rune_list.simps [of s])
    qed
  qed (simp add: rune_list.simps)
qed

lemma estimate_bounds:
  "4 * estimate_tokens_text t \<le> int (length t) + 3" "t \<noteq> [] \<Longrightarrow> 1 \<le> estimate_tokens_text t"
  using length_rune_list [of t] rune_list_nonempty [of t]
  by (auto simp: estimate_tokens_text_def rune_count_def Let_def Suc_le_eq)

end
