(* ===== verification/Ponytail.thy ===== *)
theory Ponytail
  imports Ponytail_Text Go_Crypto "HOL-Library.Multiset"
begin

text \<open>
  The context optimiser of \<^verbatim>\<open>internal/ponytail\<close>: deduplication (\<^verbatim>\<open>dedup.go\<close>), ranking and the
  token budget (\<^verbatim>\<open>rank.go\<close>), the pipeline and its statistics (\<^verbatim>\<open>ponytail.go\<close>), and the
  compression of whole conversations (\<^verbatim>\<open>compress.go\<close>). A digest is the list of its eight
  words. Scores and ratios are rationals: the code's \<^verbatim>\<open>float64\<close> values are compared and
  truncated alike for conversations below \<open>2 ^ 48\<close> tokens. Token counts are unbounded, being
  bounded in the code by the size of a request body. \<open>None\<close> stands for a panic.
\<close>

section \<open>Messages and their estimates\<close>

record pmessage =
  pm_role :: string
  pm_content :: raw_message
  pm_name :: string

definition message_tokens :: "pmessage \<Rightarrow> int" where
  "message_tokens m =
     estimate_tokens_text (pm_role m) + 4 + estimate_tokens_text (extract_text (pm_content m))
     + (if pm_name m \<noteq> [] then estimate_tokens_text (pm_name m) + 1 else 0)"

definition estimate_tokens_messages :: "pmessage list \<Rightarrow> int" where
  "estimate_tokens_messages ms = fold (\<lambda>m t. t + message_tokens m) ms 0"

section \<open>Deduplication\<close>

type_synonym digest = "u32 list"

definition raw_bytes :: "raw_message \<Rightarrow> string" where
  "raw_bytes r = (case r of None \<Rightarrow> [] | Some v \<Rightarrow> raw v)"

definition message_hash :: "pmessage \<Rightarrow> digest" where
  "message_hash m = sha256 (pm_role m @ [CHR 0x00] @ raw_bytes (pm_content m))"

text \<open>Pass 1: a system message that repeats the message right before it.\<close>

fun collapse_systems :: "pmessage option \<Rightarrow> pmessage list \<Rightarrow> pmessage list" where
  "collapse_systems prev [] = []"
| "collapse_systems prev (m # ms) =
     (let repeated = (pm_role m = ''system'' \<and>
        (case prev of None \<Rightarrow> False
         | Some p \<Rightarrow> pm_role p = ''system'' \<and> message_hash m = message_hash p))
      in (if repeated then [] else [m]) @ collapse_systems (Some m) ms)"

text \<open>Pass 2: the first message of each digest, and every user message.\<close>

fun keep_first :: "digest list \<Rightarrow> pmessage list \<Rightarrow> pmessage list" where
  "keep_first seen [] = []"
| "keep_first seen (m # ms) =
     (if pm_role m = ''user'' then m # keep_first seen ms
      else if message_hash m \<in> set seen then keep_first seen ms
      else m # keep_first (message_hash m # seen) ms)"

text \<open>Pass 3: the last assistant message of each digest.\<close>

definition last_assistant_idx :: "pmessage list \<Rightarrow> digest \<rightharpoonup> nat" where
  "last_assistant_idx ms = fold (\<lambda>(i, m) idx.
     if pm_role m = ''assistant'' then idx(message_hash m \<mapsto> i) else idx) (enumerate 0 ms) Map.empty"

definition collapse_assistant_repeats :: "pmessage list \<Rightarrow> pmessage list" where
  "collapse_assistant_repeats ms =
     (let idx = last_assistant_idx ms in
      map snd (filter (\<lambda>(i, m). pm_role m \<noteq> ''assistant'' \<or> idx (message_hash m) = Some i)
        (enumerate 0 ms)))"

definition dedup_messages :: "pmessage list \<Rightarrow> pmessage list" where
  "dedup_messages ms =
     (if length ms \<le> 1 then ms
      else collapse_assistant_repeats (keep_first [] (collapse_systems None ms)))"

section \<open>Ranking\<close>

record scored_message =
  sm_message :: pmessage
  sm_index :: nat
  sm_score :: rat

definition age_score :: "nat \<Rightarrow> nat \<Rightarrow> rat" where
  "age_score i n = (if n \<le> 1 then 40 else 10 + 30 * of_nat i / of_nat (n - 1))"

definition last_user_idx :: "pmessage list \<Rightarrow> nat option" where
  "last_user_idx ms = find (\<lambda>i. pm_role (ms ! i) = ''user'') (rev [0..<length ms])"

fun recent_scan :: "nat \<Rightarrow> nat \<Rightarrow> nat \<Rightarrow> (nat \<times> pmessage) list \<Rightarrow> bool" where
  "recent_scan idx limit seen [] = False"
| "recent_scan idx limit seen ((i, m) # rest) =
     (if pm_role m = ''assistant''
      then (if i = idx then seen + 1 \<le> limit else recent_scan idx limit (seen + 1) rest)
      else recent_scan idx limit seen rest)"

definition is_recent_assistant :: "pmessage list \<Rightarrow> nat \<Rightarrow> nat \<Rightarrow> bool" where
  "is_recent_assistant ms idx limit = recent_scan idx limit 0 (rev (enumerate 0 ms))"

definition message_score :: "pmessage list \<Rightarrow> nat \<Rightarrow> pmessage \<Rightarrow> rat" where
  "message_score ms i m =
     (if pm_role m = ''system'' then 100
      else if pm_role m = ''developer'' then 90
      else if pm_role m = ''tool'' then 70
      else if pm_role m = ''user'' then
        (if last_user_idx ms = Some i then 80 else age_score i (length ms))
      else if pm_role m = ''assistant'' then
        (if is_recent_assistant ms i 2 then 60 else age_score i (length ms))
      else age_score i (length ms))"

definition rank_messages :: "pmessage list \<Rightarrow> scored_message list" where
  "rank_messages ms = map (\<lambda>(i, m).
     \<lparr>sm_message = m, sm_index = i, sm_score = message_score ms i m\<rparr>) (enumerate 0 ms)"

text \<open>The insertion sort: what is smaller than the key moves one place up.\<close>

definition insert_scored :: "scored_message \<Rightarrow> scored_message list \<Rightarrow> scored_message list" where
  "insert_scored key done_part =
     (let moved = rev (takeWhile (\<lambda>s. sm_score s < sm_score key) (rev done_part))
      in take (length done_part - length moved) done_part @ [key] @ moved)"

definition sort_scored :: "scored_message list \<Rightarrow> scored_message list" where
  "sort_scored s = fold insert_scored s []"

section \<open>The token budget\<close>

definition protected_from :: "nat \<Rightarrow> int \<Rightarrow> nat" where
  "protected_from n window = nat (max 0 (int n - window))"

definition initial_keep :: "nat \<Rightarrow> int \<Rightarrow> bool list" where
  "initial_keep n window = map (\<lambda>i. protected_from n window \<le> i) [0..<n]"

definition committed_tokens :: "pmessage list \<Rightarrow> bool list \<Rightarrow> int" where
  "committed_tokens ms keep =
     fold (\<lambda>(m, k) used. if k then used + estimate_tokens_messages [m] else used) (zip ms keep) 0"

definition take_candidate :: "int \<Rightarrow> scored_message \<Rightarrow> bool list \<times> int \<Rightarrow> bool list \<times> int" where
  "take_candidate budget c st =
     (let cost = estimate_tokens_messages [sm_message c] in
      if snd st + cost > budget then st
      else ((fst st)[sm_index c := True], snd st + cost))"

definition filter_by_budget :: "pmessage list \<Rightarrow> scored_message list \<Rightarrow> int \<Rightarrow> int \<Rightarrow> pmessage list" where
  "filter_by_budget ms scored budget window =
     (let keep = initial_keep (length ms) window;
          used = committed_tokens ms keep;
          candidates = sort_scored (filter (\<lambda>s. \<not> keep ! sm_index s) scored);
          keep = fst (fold (take_candidate budget) candidates (keep, used))
      in map fst (filter snd (zip ms keep)))"

section \<open>Conversations\<close>

definition compress_message :: "(string \<Rightarrow> string) \<Rightarrow> pmessage \<Rightarrow> pmessage" where
  "compress_message f m = (case extract_message_text (pm_content m) of
      None \<Rightarrow> m
    | Some t \<Rightarrow> if t \<noteq> [] \<and> f t \<noteq> t then m\<lparr>pm_content := marshal_text (f t)\<rparr> else m)"

text \<open>The loop runs up to the window; past the end of the slice it panics.\<close>

definition compress_conversation :: "pmessage list \<Rightarrow> int \<Rightarrow> string \<Rightarrow> pmessage list option" where
  "compress_conversation ms window mode =
     (if ms = [] then Some ms
      else (let cutoff = protected_from (length ms) window in
        if cutoff > length ms then None
        else Some (map (compress_message (\<lambda>t. compress_text t mode)) (take cutoff ms) @ drop cutoff ms)))"

section \<open>The pipeline\<close>

record pconfig =
  pc_enabled :: bool
  pc_mode :: string
  pc_min_tokens :: int
  pc_min_messages :: int
  pc_window :: int
  pc_conversation :: bool
  pc_code :: bool
  pc_dedup :: bool
  pc_metadata :: bool

definition default_pconfig :: pconfig where
  "default_pconfig = \<lparr>pc_enabled = False, pc_mode = ''balanced'', pc_min_tokens = 12000,
     pc_min_messages = 16, pc_window = 8, pc_conversation = True, pc_code = True, pc_dedup = True,
     pc_metadata = True\<rparr>"

record metadata =
  md_enabled :: bool
  md_mode :: string
  md_saved :: int
  md_ratio :: rat

record presult =
  pr_messages :: "pmessage list"
  pr_metadata :: "metadata option"
  pr_original :: int
  pr_optimized :: int

definition is_eligible :: "pconfig \<Rightarrow> pmessage list \<Rightarrow> int \<Rightarrow> bool" where
  "is_eligible c ms tokens =
     (if tokens < pc_min_tokens c then False
      else if int (length ms) < pc_min_messages c then False else True)"

definition token_budget :: "pconfig \<Rightarrow> int \<Rightarrow> int" where
  "token_budget c tokens =
     (let ratio = (if pc_mode c = ''conservative'' then 85
                   else if pc_mode c = ''balanced'' then 65
                   else if pc_mode c = ''aggressive'' then 45 else 65)
      in tokens * ratio div 100)"

definition process_messages :: "pconfig \<Rightarrow> pmessage list \<Rightarrow> presult option" where
  "process_messages c ms =
     (let original = estimate_tokens_messages ms in
      if \<not> is_eligible c ms original then
        Some \<lparr>pr_messages = ms, pr_metadata = None, pr_original = original, pr_optimized = original\<rparr>
      else
        (let opt = (if pc_dedup c then dedup_messages ms else ms);
             opt = filter_by_budget opt (rank_messages opt) (token_budget c original) (pc_window c)
         in case (if pc_conversation c then compress_conversation opt (pc_window c) (pc_mode c) else Some opt) of
              None \<Rightarrow> None
            | Some opt \<Rightarrow>
                let opt = (if pc_code c
                           then map (compress_message (\<lambda>t. compress_code_blocks t (pc_mode c))) opt else opt);
                    optimized = estimate_tokens_messages opt;
                    meta = (if pc_metadata c then
                      Some \<lparr>md_enabled = True, md_mode = pc_mode c, md_saved = original - optimized,
                            md_ratio = (if original > 0 then of_int optimized / of_int original else 1)\<rparr>
                      else None)
                in Some \<lparr>pr_messages = opt, pr_metadata = meta, pr_original = original,
                         pr_optimized = optimized\<rparr>))"

section \<open>Statistics\<close>

record pstats =
  ps_requests :: int
  ps_saved :: int
  ps_original :: int
  ps_optimized :: int
  ps_duration_ms :: int

definition new_pstats :: pstats where
  "new_pstats = \<lparr>ps_requests = 0, ps_saved = 0, ps_original = 0, ps_optimized = 0, ps_duration_ms = 0\<rparr>"

definition pstats_record :: "int \<Rightarrow> int \<Rightarrow> duration \<Rightarrow> pstats \<Rightarrow> pstats" where
  "pstats_record original optimized d s =
     (let saved = wrap64 (original - optimized);
          saved = (if saved < 0 then 0 else saved)
      in \<lparr>ps_requests = wrap64 (ps_requests s + 1),
          ps_saved = wrap64 (ps_saved s + saved),
          ps_original = wrap64 (ps_original s + original),
          ps_optimized = wrap64 (ps_optimized s + optimized),
          ps_duration_ms = wrap64 (ps_duration_ms s + duration_ms d)\<rparr>)"

section \<open>What deduplication keeps\<close>

abbreviation is_user :: "pmessage \<Rightarrow> bool" where "is_user m \<equiv> pm_role m = ''user''"

text \<open>The reference: a message stays when it is a user's or none before it has its digest.\<close>

definition is_fresh :: "pmessage list \<Rightarrow> nat \<Rightarrow> bool" where
  "is_fresh ms i = (is_user (ms ! i)
     \<or> (\<forall>j<i. is_user (ms ! j) \<or> message_hash (ms ! j) \<noteq> message_hash (ms ! i)))"

lemma keep_first_nth:
  "keep_first seen ms = map ((!) ms) (filter (\<lambda>i. is_fresh ms i
     \<and> (is_user (ms ! i) \<or> message_hash (ms ! i) \<notin> set seen)) [0..<length ms])"
proof (induction seen ms rule: keep_first.induct)
  case (2 seen m ms)
  have shift: "filter P [0..<length (m # ms)] = (if P 0 then [0] else [])
      @ map Suc (filter (\<lambda>i. P (Suc i)) [0..<length ms])" for P
    by (simp add: upt_conv_Cons filter_map o_def flip: map_Suc_upt del: upt_Suc)
  have fresh: "is_fresh (m # ms) (Suc i) = (is_fresh ms i
      \<and> (is_user (ms ! i) \<or> is_user m \<or> message_hash m \<noteq> message_hash (ms ! i)))" for i
    by (auto simp: is_fresh_def less_Suc_eq_0_disj)
  have zero: "is_fresh (m # ms) 0" by (simp add: is_fresh_def)
  show ?case
    unfolding shift using 2
    by (simp add: fresh zero o_def del: upt_Suc) (auto intro!: filter_cong arg_cong [where f = "map _"])
qed simp

lemma subseq_keep_first: "subseq (keep_first seen ms) ms"
  by (induction seen ms rule: keep_first.induct) auto

lemma users_keep_first: "filter is_user (keep_first seen ms) = filter is_user ms"
  by (induction seen ms rule: keep_first.induct) auto

lemma keep_first_unseen:
  "m \<in> set (keep_first seen ms) \<Longrightarrow> \<not> is_user m \<Longrightarrow> message_hash m \<notin> set seen"
  by (induction seen ms rule: keep_first.induct) (auto split: if_splits)

lemma hashes_keep_first: "distinct (map message_hash (filter (\<lambda>m. \<not> is_user m) (keep_first seen ms)))"
proof (induction seen ms rule: keep_first.induct)
  case (2 seen m ms)
  have "message_hash m \<notin> message_hash ` {x \<in> set (keep_first (message_hash m # seen) ms). \<not> is_user x}"
    using keep_first_unseen [of _ "message_hash m # seen" ms] by fastforce
  with 2 show ?case by simp
qed simp

lemma hash_set_keep_first:
  "set seen \<union> message_hash ` set (keep_first seen ms) = set seen \<union> message_hash ` set ms"
  by (induction seen ms rule: keep_first.induct) auto

text \<open>Passes 1 and 3 change nothing that pass 2 would not do: a repeated system message is never
  the first of its digest, and after pass 2 no assistant message repeats another.\<close>

lemma collapse_systems_redundant:
  assumes "\<And>p. prev = Some p \<Longrightarrow> is_user p \<or> message_hash p \<in> set seen"
  shows "keep_first seen (collapse_systems prev ms) = keep_first seen ms"
  using assms
proof (induction ms arbitrary: prev seen)
  case (Cons m ms)
  have "keep_first s (collapse_systems (Some m) ms) = keep_first s ms"
    if "is_user m \<or> message_hash m \<in> set s" for s
    using Cons.IH [of "Some m" s] that by simp
  with Cons.prems show ?case by (auto simp: Let_def split: option.split)
qed simp

lemma last_assistant_idx_eq:
  assumes "distinct (map message_hash (filter (\<lambda>m. \<not> is_user m) ms))"
    and "i < length ms" and "pm_role (ms ! i) = ''assistant''"
  shows "last_assistant_idx ms (message_hash (ms ! i)) = Some i"
  using assms
proof (induction ms rule: rev_induct)
  case (snoc m ms)
  have step: "last_assistant_idx (ms @ [m]) = (if pm_role m = ''assistant''
      then (last_assistant_idx ms)(message_hash m \<mapsto> length ms) else last_assistant_idx ms)"
    by (simp add: last_assistant_idx_def enumerate_append_eq)
  show ?case
  proof (cases "i = length ms")
    case False
    with snoc.prems(2) have i: "i < length ms" by simp
    have "message_hash m \<noteq> message_hash (ms ! i)" if "pm_role m = ''assistant''"
    proof -
      have "ms ! i \<in> set (filter (\<lambda>m. \<not> is_user m) ms)" using i snoc.prems(3) by (simp add: nth_append)
      then show ?thesis using snoc.prems(1) that by (auto simp: distinct_map image_iff)
    qed
    then show ?thesis using snoc i by (auto simp: step nth_append)
  qed (use snoc.prems in \<open>simp add: step\<close>)
qed simp

lemma collapse_assistant_redundant:
  assumes "distinct (map message_hash (filter (\<lambda>m. \<not> is_user m) ms))"
  shows "collapse_assistant_repeats ms = ms"
proof -
  have "filter (\<lambda>(i, m). pm_role m \<noteq> ''assistant'' \<or> last_assistant_idx ms (message_hash m) = Some i)
      (enumerate 0 ms) = enumerate 0 ms"
    by (rule filter_True) (auto simp: in_set_enumerate_eq last_assistant_idx_eq [OF assms])
  then show ?thesis by (simp add: collapse_assistant_repeats_def)
qed

lemma dedup_is_keep_first: "dedup_messages ms = keep_first [] ms"
proof (cases "length ms \<le> 1")
  case True
  then show ?thesis by (cases ms) (auto simp: dedup_messages_def)
next
  case False
  then show ?thesis
    using hashes_keep_first [of "[]" ms] collapse_systems_redundant [of None "[]" ms]
    by (simp add: dedup_messages_def collapse_assistant_redundant)
qed

text \<open>
  Equivalence. The three passes of deduplication compute what one rule says: a message stays
  exactly when it is a user's or the first with its digest. So the order is kept, no user
  message is ever removed, no digest is lost, and no two kept messages that are not a
  user's share one. In particular it is the oldest copy of a repeated assistant output that
  stays, although the function promises the newest.
\<close>

theorem dedup_keeps_first:
  "dedup_messages ms = map ((!) ms) (filter (is_fresh ms) [0..<length ms])
   \<and> subseq (dedup_messages ms) ms
   \<and> filter is_user (dedup_messages ms) = filter is_user ms
   \<and> distinct (map message_hash (filter (\<lambda>m. \<not> is_user m) (dedup_messages ms)))
   \<and> message_hash ` set (dedup_messages ms) = message_hash ` set ms"
  using keep_first_nth [of "[]" ms] subseq_keep_first [of "[]" ms] users_keep_first [of "[]" ms]
    hashes_keep_first [of "[]" ms] hash_set_keep_first [of "[]" ms]
  by (simp add: dedup_is_keep_first)

section \<open>The sort\<close>

lemma insert_scored_parts:
  assumes "sorted (map (\<lambda>s. - sm_score s) xs)"
  obtains as bs where "xs = as @ bs" and "insert_scored k xs = as @ [k] @ bs"
    and "\<forall>a \<in> set as. sm_score k \<le> sm_score a" and "\<forall>b \<in> set bs. sm_score b < sm_score k"
proof -
  define bs where "bs = rev (takeWhile (\<lambda>s. sm_score s < sm_score k) (rev xs))"
  define as where "as = rev (dropWhile (\<lambda>s. sm_score s < sm_score k) (rev xs))"
  have eq: "xs = as @ bs" unfolding as_def bs_def by (metis rev_append rev_rev_ident takeWhile_dropWhile_id)
  have ins: "insert_scored k xs = as @ [k] @ bs"
    by (simp add: insert_scored_def Let_def flip: bs_def) (simp add: eq)
  have small: "\<forall>b \<in> set bs. sm_score b < sm_score k" by (auto simp: bs_def dest: set_takeWhileD)
  have large: "\<forall>a \<in> set as. sm_score k \<le> sm_score a"
  proof (cases as rule: rev_cases)
    case (snoc ys y)
    then have "dropWhile (\<lambda>s. sm_score s < sm_score k) (rev xs) = y # rev ys"
      by (simp add: as_def rev_swap)
    then have "sm_score k \<le> sm_score y" by (metis hd_dropWhile list.distinct(1) list.sel(1) not_le)
    moreover have "\<forall>a \<in> set as. sm_score y \<le> sm_score a"
      using assms by (auto simp: eq snoc sorted_append)
    ultimately show ?thesis by fastforce
  qed simp
  show thesis using eq ins large small by (rule that)
qed

lemma sort_scored_key: "sort_scored s = sort_key (\<lambda>x. - sm_score x) s"
proof -
  have "sorted (map (\<lambda>x. - sm_score x) ys) \<and> mset ys = mset s
      \<and> (\<forall>k. filter (\<lambda>x. k = - sm_score x) ys = filter (\<lambda>x. k = - sm_score x) s)"
    if "ys = fold insert_scored s []" for ys
    using that
  proof (induction s arbitrary: ys rule: rev_induct)
    case (snoc k s)
    let ?xs = "fold insert_scored s []"
    have IH: "sorted (map (\<lambda>x. - sm_score x) ?xs)" "mset ?xs = mset s"
      "\<And>c. filter (\<lambda>x. c = - sm_score x) ?xs = filter (\<lambda>x. c = - sm_score x) s"
      using snoc.IH by blast+
    obtain as bs where eq: "?xs = as @ bs" and ys: "insert_scored k ?xs = as @ [k] @ bs"
      and le: "\<forall>a \<in> set as. sm_score k \<le> sm_score a" and less: "\<forall>b \<in> set bs. sm_score b < sm_score k"
      using insert_scored_parts [OF IH(1)] by blast
    have "sorted (map (\<lambda>x. - sm_score x) (as @ [k] @ bs))"
      using IH(1) le less unfolding eq by (auto simp: sorted_append less_imp_le)
    moreover have "mset (as @ [k] @ bs) = mset (s @ [k])" using IH(2) unfolding eq by simp
    moreover have "filter (\<lambda>x. c = - sm_score x) (as @ [k] @ bs) = filter (\<lambda>x. c = - sm_score x) (s @ [k])" for c
    proof (cases "c = - sm_score k")
      case True
      then have "filter (\<lambda>x. c = - sm_score x) bs = []" using less by (auto simp: filter_empty_conv)
      with IH(3) [of c] True show ?thesis unfolding eq by simp
    next
      case False
      with IH(3) [of c] show ?thesis unfolding eq by auto
    qed
    ultimately show ?case using snoc.prems ys by simp
  qed simp
  from this [OF refl] show ?thesis
    unfolding sort_scored_def by (intro properties_for_sort_key [symmetric]) (simp_all only:)
qed

section \<open>The budget\<close>

lemma message_tokens_pos: "0 \<le> message_tokens m"
  by (simp add: message_tokens_def)

lemma estimate_messages_sum: "estimate_tokens_messages ms = sum_list (map message_tokens ms)"
proof -
  have "fold (\<lambda>m t. t + message_tokens m) ms t = t + sum_list (map message_tokens ms)" for t
    by (induction ms arbitrary: t) auto
  then show ?thesis by (simp add: estimate_tokens_messages_def)
qed

definition kept :: "pmessage list \<Rightarrow> bool list \<Rightarrow> pmessage list" where
  "kept ms keep = map fst (filter snd (zip ms keep))"

lemma committed_kept: "committed_tokens ms keep = estimate_tokens_messages (kept ms keep)"
proof -
  have "fold (\<lambda>(m, k) used. if k then used + estimate_tokens_messages [m] else used) xs u
      = u + sum_list (map message_tokens (map fst (filter snd xs)))" for xs u
    by (induction xs arbitrary: u) (auto simp: estimate_messages_sum)
  then show ?thesis by (simp add: committed_tokens_def kept_def estimate_messages_sum)
qed

lemma kept_Cons [simp]: "kept (m # ms) (k # keep) = (if k then m # kept ms keep else kept ms keep)"
  "kept [] keep = []" "kept ms [] = []"
  by (simp_all add: kept_def)

lemma subseq_kept: "subseq (kept ms keep) ms"
proof (induction ms arbitrary: keep)
  case (Cons m ms)
  then show ?case by (cases keep) auto
qed simp

lemma kept_set_true:
  assumes "i < length ms" and "length keep = length ms" and "\<not> keep ! i"
  shows "estimate_tokens_messages (kept ms (keep[i := True]))
    = estimate_tokens_messages (kept ms keep) + message_tokens (ms ! i)"
  using assms
proof (induction ms arbitrary: keep i)
  case (Cons m ms)
  then show ?case
    by (cases keep; cases i) (auto simp: estimate_messages_sum)
qed simp

text \<open>A message marked as kept stays kept; its index comes up once.\<close>

lemma kept_tail:
  assumes "length keep = length ms" and "\<forall>i<length ms. p \<le> i \<longrightarrow> keep ! i"
  shows "suffix (drop p ms) (kept ms keep)"
  using assms
proof (induction ms arbitrary: keep p)
  case (Cons m ms)
  then obtain k ks where keep: "keep = k # ks" by (cases keep) auto
  show ?case
  proof (cases p)
    case 0
    with Cons.prems have "k" and "\<forall>i<length ms. ks ! i" by (force simp: keep)+
    with Cons.IH [of ks 0] Cons.prems(1) have "suffix ms (kept ms ks)" by (simp add: keep)
    moreover have "kept ms ks = ms"
      using calculation subseq_kept [of ms ks]
      by (meson suffix_imp_subseq subseq_order.antisym)
    ultimately show ?thesis using \<open>k\<close> by (simp add: keep 0)
  next
    case (Suc q)
    with Cons.prems have "\<forall>i<length ms. q \<le> i \<longrightarrow> ks ! i" by (force simp: keep)
    with Cons.IH [of ks q] Cons.prems(1) have "suffix (drop q ms) (kept ms ks)" by (simp add: keep)
    then show ?thesis by (auto simp: keep Suc intro: suffix_ConsI)
  qed
qed simp

text \<open>The greedy loop, over candidates that are messages of the conversation, each once.\<close>

definition budget_inv ::
  "pmessage list \<Rightarrow> int \<Rightarrow> nat set \<Rightarrow> bool list \<times> int \<Rightarrow> bool list \<times> int \<Rightarrow> bool" where
  "budget_inv ms budget seen st0 st = (length (fst st) = length ms
     \<and> snd st = estimate_tokens_messages (kept ms (fst st))
     \<and> snd st0 \<le> snd st \<and> (snd st = snd st0 \<or> snd st \<le> budget)
     \<and> (\<forall>i<length ms. i \<notin> seen \<longrightarrow> fst st ! i = fst st0 ! i)
     \<and> (\<forall>i<length ms. fst st0 ! i \<longrightarrow> fst st ! i)
     \<and> (\<forall>i\<in>seen. i < length ms \<longrightarrow> fst st ! i \<or> budget < snd st + message_tokens (ms ! i)))"

lemma budget_inv_step:
  assumes inv: "budget_inv ms budget seen st0 st"
    and c: "sm_index c < length ms" "sm_message c = ms ! sm_index c" "sm_index c \<notin> seen"
      "\<not> fst st0 ! sm_index c"
  shows "budget_inv ms budget (insert (sm_index c) seen) st0 (take_candidate budget c st)"
proof (cases "snd st + message_tokens (sm_message c) > budget")
  case True
  then have "take_candidate budget c st = st"
    by (simp add: take_candidate_def estimate_messages_sum)
  with True inv c show ?thesis by (auto simp: budget_inv_def)
next
  case False
  let ?i = "sm_index c"
  have st: "take_candidate budget c st = ((fst st)[?i := True], snd st + message_tokens (ms ! ?i))"
    using False c(2) by (simp add: take_candidate_def estimate_messages_sum)
  have "\<not> fst st ! ?i" using inv c by (auto simp: budget_inv_def)
  then have "snd st + message_tokens (ms ! ?i) = estimate_tokens_messages (kept ms ((fst st)[?i := True]))"
    using inv c(1) by (simp add: budget_inv_def kept_set_true)
  with inv False c message_tokens_pos [of "ms ! ?i"] show ?thesis
    unfolding st budget_inv_def
    by (simp add: nth_list_update) (smt (verit, ccfv_SIG) message_tokens_pos)
qed

lemma budget_inv_fold:
  assumes "budget_inv ms budget seen st0 st" and "distinct (map sm_index cs)"
    and "\<forall>c \<in> set cs. sm_index c < length ms \<and> sm_message c = ms ! sm_index c
      \<and> sm_index c \<notin> seen \<and> \<not> fst st0 ! sm_index c"
  shows "budget_inv ms budget (seen \<union> sm_index ` set cs) st0 (fold (take_candidate budget) cs st)"
  using assms
proof (induction cs arbitrary: seen st)
  case (Cons c cs)
  have "budget_inv ms budget (insert (sm_index c) seen) st0 (take_candidate budget c st)"
    using Cons.prems by (intro budget_inv_step) auto
  then have "budget_inv ms budget (insert (sm_index c) seen \<union> sm_index ` set cs) st0
      (fold (take_candidate budget) cs (take_candidate budget c st))"
    using Cons.prems by (intro Cons.IH) (auto, metis image_eqI)
  then show ?case by simp
qed simp

lemma length_initial_keep [simp]: "length (initial_keep n w) = n"
  by (simp add: initial_keep_def)

lemma initial_keep_nth [simp]: "i < n \<Longrightarrow> initial_keep n w ! i = (protected_from n w \<le> i)"
  by (simp add: initial_keep_def)

lemma kept_initial: "kept ms (initial_keep (length ms) w) = drop (protected_from (length ms) w) ms"
proof -
  have "map fst (filter snd (zip ms (map (\<lambda>i. p \<le> i) [a..<a + length ms]))) = drop (p - a) ms" for p a
  proof (induction ms arbitrary: a)
    case (Cons m ms)
    show ?case
      using Cons.IH [of "Suc a"] by (auto simp: upt_conv_Cons Suc_diff_le drop_Cons' simp del: upt_Suc)
  qed simp
  from this [of "protected_from (length ms) w" 0] show ?thesis by (simp add: kept_def initial_keep_def)
qed

lemma rank_messages_facts:
  "distinct (map sm_index (rank_messages ms))"
  "c \<in> set (rank_messages ms) \<Longrightarrow> sm_index c < length ms \<and> sm_message c = ms ! sm_index c"
  "sm_index ` set (rank_messages ms) = {..<length ms}"
proof -
  have idx: "map sm_index (rank_messages ms) = [0..<length ms]"
    by (simp add: rank_messages_def o_def case_prod_beta flip: map_fst_enumerate [of 0 ms])
  then show "distinct (map sm_index (rank_messages ms))" by simp
  have "set (map sm_index (rank_messages ms)) = {..<length ms}" by (simp add: idx atLeast0LessThan)
  then show "sm_index ` set (rank_messages ms) = {..<length ms}" by simp
  show "sm_index c < length ms \<and> sm_message c = ms ! sm_index c" if "c \<in> set (rank_messages ms)"
    using that by (auto simp: rank_messages_def in_set_enumerate_eq)
qed

lemma budget_choice:
  "\<exists>keep. length keep = length ms
    \<and> filter_by_budget ms (rank_messages ms) budget window = kept ms keep
    \<and> suffix (drop (protected_from (length ms) window) ms) (kept ms keep)
    \<and> estimate_tokens_messages (kept ms keep)
        \<le> max budget (estimate_tokens_messages (drop (protected_from (length ms) window) ms))
    \<and> (\<forall>i<length ms. keep ! i \<or> budget < estimate_tokens_messages (kept ms keep) + message_tokens (ms ! i))"
proof -
  define p where "p = protected_from (length ms) window"
  define k0 where "k0 = initial_keep (length ms) window"
  define st0 where "st0 = (k0, committed_tokens ms k0)"
  define cs where "cs = sort_scored (filter (\<lambda>s. \<not> k0 ! sm_index s) (rank_messages ms))"
  define st where "st = fold (take_candidate budget) cs st0"
  have set_cs: "set cs = {c \<in> set (rank_messages ms). \<not> k0 ! sm_index c}"
    by (simp add: cs_def sort_scored_key)
  have "mset (map sm_index cs) = mset (map sm_index (filter (\<lambda>s. \<not> k0 ! sm_index s) (rank_messages ms)))"
    by (simp add: cs_def sort_scored_key)
  then have dist: "distinct (map sm_index cs)"
    using distinct_map_filter [OF rank_messages_facts(1)] by (metis mset_eq_imp_distinct_iff)
  have "budget_inv ms budget {} st0 st0"
    by (simp add: budget_inv_def st0_def k0_def committed_kept)
  from budget_inv_fold [OF this dist]
  have inv: "budget_inv ms budget (sm_index ` set cs) st0 st"
    using rank_messages_facts(2) by (simp add: st_def set_cs st0_def)
  have seen: "i \<in> sm_index ` set cs" if "i < length ms" "\<not> k0 ! i" for i
    using that rank_messages_facts(3) [of ms] by (auto simp: set_cs set_eq_iff image_iff) metis
  have len: "length (fst st) = length ms" using inv by (simp add: budget_inv_def)
  have out: "filter_by_budget ms (rank_messages ms) budget window = kept ms (fst st)"
    by (simp add: filter_by_budget_def kept_def Let_def st_def st0_def cs_def k0_def)
  have "\<forall>i<length ms. p \<le> i \<longrightarrow> fst st ! i"
    using inv by (simp add: budget_inv_def st0_def k0_def p_def)
  then have "suffix (drop p ms) (kept ms (fst st))" by (rule kept_tail [OF len])
  moreover have "estimate_tokens_messages (kept ms (fst st)) \<le> max budget (estimate_tokens_messages (drop p ms))"
    using inv by (auto simp: budget_inv_def st0_def committed_kept k0_def kept_initial p_def)
  moreover have "fst st ! i \<or> budget < estimate_tokens_messages (kept ms (fst st)) + message_tokens (ms ! i)"
    if "i < length ms" for i
    using inv seen [OF that] that unfolding budget_inv_def st0_def fst_conv snd_conv by metis
  ultimately show ?thesis using len out unfolding p_def by blast
qed

text \<open>
  Budget. Ranking and the token budget drop messages without reordering any, always keep the
  protected tail of the conversation, stay within the budget unless that tail alone exceeds it,
  and drop no message that would still have fit.
\<close>

theorem budget_kept:
  "\<exists>keep. length keep = length ms
    \<and> filter_by_budget ms (rank_messages ms) budget window = kept ms keep
    \<and> suffix (drop (protected_from (length ms) window) ms) (kept ms keep)
    \<and> estimate_tokens_messages (kept ms keep)
        \<le> max budget (estimate_tokens_messages (drop (protected_from (length ms) window) ms))
    \<and> (\<forall>i<length ms. keep ! i \<or> budget < estimate_tokens_messages (kept ms keep) + message_tokens (ms ! i))"
  by (rule budget_choice)

definition example_talk :: "pmessage list" where
  "example_talk = [
     \<lparr>pm_role = ''system'', pm_content = Some (json_of_string ''be brief''), pm_name = []\<rparr>,
     \<lparr>pm_role = ''user'', pm_content = Some (json_of_string ''a long question, asked first''), pm_name = []\<rparr>,
     \<lparr>pm_role = ''user'', pm_content = Some (json_of_string ''hi''), pm_name = []\<rparr>]"

theorem budget_kept_witness:
  "\<exists>keep. length keep = 3
    \<and> filter_by_budget example_talk (rank_messages example_talk) 20 1 = kept example_talk keep
    \<and> suffix [example_talk ! 2] (kept example_talk keep)"
proof -
  have "drop (protected_from (length example_talk) 1) example_talk = [example_talk ! 2]"
    and "length example_talk = 3"
    by (simp_all add: example_talk_def protected_from_def)
  with budget_kept [of example_talk 20 1] show ?thesis by metis
qed

section \<open>The pipeline\<close>

definition framing :: "pmessage \<Rightarrow> string \<times> string" where
  "framing m = (pm_role m, pm_name m)"

lemma framing_compress [simp]: "framing (compress_message f m) = framing m"
  by (simp add: framing_def compress_message_def split: option.split)

lemma subseq_budget: "subseq (filter_by_budget ms (rank_messages ms) budget window) ms"
  using budget_choice [of ms budget window] subseq_kept by metis

lemma compress_conversation_total:
  assumes "0 \<le> window"
  shows "\<exists>out. compress_conversation ms window mode = Some out
     \<and> length out = length ms \<and> map framing out = map framing ms
     \<and> drop (protected_from (length ms) window) out = drop (protected_from (length ms) window) ms"
proof (cases "ms = []")
  case False
  let ?p = "protected_from (length ms) window"
  let ?out = "map (compress_message (\<lambda>t. compress_text t mode)) (take ?p ms) @ drop ?p ms"
  have p: "?p \<le> length ms" using assms by (simp add: protected_from_def)
  then have "compress_conversation ms window mode = Some ?out"
    using False by (simp add: compress_conversation_def Let_def)
  moreover have "map framing ?out = map framing ms"
    by (simp add: o_def flip: map_append [of framing "take ?p ms"])
  ultimately show ?thesis using p by (simp add: min_def)
qed (simp add: compress_conversation_def)

lemma protected_suffix:
  assumes "suffix (drop (protected_from n w) d) ms" and "length d = n" and "0 \<le> w"
  shows "suffix (drop (protected_from n w) d) (drop (protected_from (length ms) w) ms)"
proof -
  obtain xs where ms: "ms = xs @ drop (protected_from n w) d" using assms(1) by (auto simp: suffix_def)
  have "protected_from (length ms) w \<le> length xs"
    using assms(3) by (auto simp: ms protected_from_def assms(2))
  then show ?thesis by (simp add: ms suffixI)
qed

lemma process_total:
  assumes "0 \<le> pc_window c"
  shows "process_messages c ms \<noteq> None"
proof -
  have total: "compress_conversation ms (pc_window c) mode = None \<longleftrightarrow> False" for ms mode
    using compress_conversation_total [OF assms] by (metis option.distinct(1))
  show ?thesis by (simp add: process_messages_def Let_def total split: option.split)
qed


definition eager_pconfig :: pconfig where
  "eager_pconfig = default_pconfig\<lparr>pc_enabled := True, pc_min_tokens := 0, pc_min_messages := 0\<rparr>"


text \<open>A negative window, which only the configuration file is checked against, panics.\<close>

lemma negative_window_panics:
  "process_messages (eager_pconfig\<lparr>pc_window := -1, pc_dedup := False\<rparr>) example_talk = None"
  by code_simp

text \<open>An image beside the text of a message does not survive the code pass, even in the
  protected window of a one message conversation without any code.\<close>

definition image_message :: pmessage where
  "image_message = \<lparr>pm_role = ''user'', pm_content = Some (json_array [
     json_object [(''type'', json_of_string ''text''), (''text'', json_of_string ''what is it?'')],
     json_object [(''type'', json_of_string ''image_url''),
       (''image_url'', json_object [(''url'', json_of_string ''https://x/y.png'')])]]), pm_name = []\<rparr>"

lemma code_pass_drops_images:
  "map_option pr_messages (process_messages eager_pconfig [image_message])
     = Some [image_message\<lparr>pm_content := marshal_text (''what is it?'' @ line_break)\<rparr>]"
  by code_simp

end
