(* ===== verification/Gateway.thy ===== *)
theory Gateway
  imports Dispatch Quota Responses_Api Response_Cache Ponytail
begin

text \<open>
  The HTTP side of the gateway (\<^verbatim>\<open>internal/api\<close>): writing responses (\<^verbatim>\<open>response.go\<close>), the middleware
  (\<^verbatim>\<open>middleware.go\<close>), the endpoints of \<^verbatim>\<open>/v1\<close> (\<^verbatim>\<open>handler.go\<close>, \<^verbatim>\<open>messages.go\<close>, \<^verbatim>\<open>responses.go\<close>), the
  use of the response cache (\<^verbatim>\<open>cache.go\<close>), the table of running requests (\<^verbatim>\<open>active.go\<close>) and the
  routing table (\<^verbatim>\<open>server.go\<close>). It composes authentication, quotas, the optimiser, the cache,
  dispatching, the translations and the event streams.

  \<open>deps\<close> is what a request cannot change, \<open>gateway\<close> the state all requests share. A request runs
  as one step; dispatching hands the engine to its environment, where other requests may run.
  Outside are the entropy behind a request id, the consumption of a stream (what the relay's
  \<^verbatim>\<open>select\<close> chose, when chunks arrived, the world afterwards) and the spelling of a \<^verbatim>\<open>float64\<close>.
  The gauge of open streams is left out.
  The result of a handler says first whether it panicked. Log lines are left out.
\<close>

section \<open>State\<close>

record active_request =
  aq_request_id :: string
  aq_api_key :: string
  aq_req_model :: string
  aq_started_at :: instant

datatype cache_outcome = CacheHit | CacheMiss | CacheStore

record ('c, 'w) deps =
  dp_env :: "('c, 'w) env"
  dp_auth :: auth_service
  dp_admin_auth :: admin_service
  dp_max_body :: int
  dp_origins :: "string list"
  dp_entropy :: "nat \<Rightarrow> string"
  dp_consume :: "stream_chunk list \<Rightarrow> 'w \<Rightarrow> stream_chunk selected list \<times> instant list \<times> 'w"
  dp_float :: "rat \<Rightarrow> string"

record ('c, 'w) gateway =
  gw_routes :: "'c routes"
  gw_engine :: engine
  gw_world :: 'w
  gw_quota :: "quota option"
  gw_cache :: "cache option"
  gw_active :: "(string, active_request) gomap"
  gw_pony :: "pconfig option"
  gw_pony_stats :: "pstats option"
  gw_drawn :: nat
  gw_touched :: "string list"
  gw_cache_events :: "(string \<times> string \<times> cache_outcome) list"
  gw_counted :: "(string \<times> string \<times> int) list"

text \<open>A request as the handlers see it, and what the middleware puts into its context.\<close>

record http_request =
  hq_method :: string
  hq_path :: string
  hq_header :: "string \<Rightarrow> string"
  hq_body :: string
  hq_broken :: bool

record http_context =
  hx_identity :: "identity option"
  hx_request_id :: "string option"
  hx_dialect :: "string option"

definition no_context :: http_context where
  "no_context = \<lparr>hx_identity = None, hx_request_id = None, hx_dialect = None\<rparr>"

definition router_context :: "http_context \<Rightarrow> request_context" where
  "router_context cx = \<lparr>cx_request_id = hx_request_id cx, cx_dialect = hx_dialect cx,
     cx_key_id = map_option id_key (hx_identity cx)\<rparr>"

type_synonym ('c, 'w) handled = "bool \<times> response_writer \<times> ('c, 'w) gateway"

type_synonym ('c, 'w) http_handler =
  "http_request \<Rightarrow> http_context \<Rightarrow> response_writer \<Rightarrow> ('c, 'w) gateway \<Rightarrow> ('c, 'w) handled"

section \<open>Responses\<close>

definition put_body :: "string \<Rightarrow> response_writer \<Rightarrow> response_writer" where
  "put_body s rw = snd (rw_write s rw)"

definition write_json :: "int \<Rightarrow> json \<Rightarrow> response_writer \<Rightarrow> response_writer" where
  "write_json status v rw =
     put_body (raw v @ [CHR 0x0A]) (rw_write_header status (rw_set ''Content-Type'' ''application/json'' rw))"

definition write_body :: "string \<Rightarrow> response_writer \<Rightarrow> response_writer" where
  "write_body s rw =
     put_body s (rw_write_header 200 (rw_set ''Content-Type'' ''application/json'' rw))"

definition write_error :: "int \<Rightarrow> string \<Rightarrow> string \<Rightarrow> response_writer \<Rightarrow> response_writer" where
  "write_error status kind msg = write_json status
     (encode_error \<lparr>eb_message = msg, eb_type = kind, eb_param = [], eb_code = []\<rparr>)"

definition messages_path :: string where "messages_path = ''/v1/messages''"

definition anthropic_error_type :: "string \<Rightarrow> string" where
  "anthropic_error_type kind =
     (if kind = ''invalid_request_error'' then ''invalid_request_error''
      else if kind = ''rate_limit_error'' then ''rate_limit_error''
      else if kind = ''insufficient_quota'' then ''billing_error'' else ''api_error'')"

definition write_anthropic_error :: "int \<Rightarrow> string \<Rightarrow> string \<Rightarrow> response_writer \<Rightarrow> response_writer" where
  "write_anthropic_error status kind msg = write_json status (encode_a_error (anthropic_error_type kind) msg)"

definition write_gateway_error :: "http_request \<Rightarrow> int \<Rightarrow> string \<Rightarrow> string \<Rightarrow> response_writer \<Rightarrow> response_writer" where
  "write_gateway_error rq status kind msg =
     (if hq_path rq = messages_path then write_anthropic_error status kind msg else write_error status kind msg)"

datatype body_error = TooLarge int | Unreadable

definition write_decode_error :: "body_error \<Rightarrow> string \<Rightarrow> response_writer \<Rightarrow> response_writer" where
  "write_decode_error e malformed = (case e of
      TooLarge limit \<Rightarrow> write_error 413 ''invalid_request_error''
        (''Request body exceeds the '' @ show_int limit @ '' byte limit.'')
    | Unreadable \<Rightarrow> write_error 400 ''invalid_request_error'' malformed)"

text \<open>\<^verbatim>\<open>MaxBytesReader\<close> fails once more than the limit has been read.\<close>

definition read_all :: "int \<Rightarrow> http_request \<Rightarrow> body_error + string" where
  "read_all limit rq =
     (if limit > 0 \<and> int (length (hq_body rq)) > limit then Inl (TooLarge limit)
      else if hq_broken rq then Inl Unreadable else Inr (hq_body rq))"

definition read_body :: "int \<Rightarrow> http_request \<Rightarrow> response_writer \<Rightarrow> string option \<times> response_writer" where
  "read_body limit rq rw = (case read_all limit rq of
      Inl e \<Rightarrow> (None, write_decode_error e ''Malformed JSON body.'' rw)
    | Inr s \<Rightarrow> (Some s, rw))"

section \<open>Running requests\<close>

definition active_add :: "active_request \<Rightarrow> (string, active_request) gomap \<Rightarrow> (string, active_request) gomap" where
  "active_add a m = (if aq_request_id a = [] then m else map_put (aq_request_id a) a m)"

definition active_remove :: "string \<Rightarrow> (string, active_request) gomap \<Rightarrow> (string, active_request) gomap" where
  "active_remove i m = (if i = [] then m else map_del i m)"

definition active_list :: "(string, active_request) gomap \<Rightarrow> active_request list" where
  "active_list m = sort_key aq_started_at (map snd m)"

text \<open>A handler's body between \<^verbatim>\<open>trackActive\<close> and its deferred clean-up.\<close>

definition track_active ::
    "('c, 'w) deps \<Rightarrow> http_context \<Rightarrow> string \<Rightarrow> (('c, 'w) gateway \<Rightarrow> ('c, 'w) handled) \<Rightarrow> ('c, 'w) gateway \<Rightarrow> ('c, 'w) handled"
where
  "track_active d cx model body g = (case hx_request_id cx of
      None \<Rightarrow> body g
    | Some i \<Rightarrow>
        (let identity = (case hx_identity cx of None \<Rightarrow> named_identity [] | Some x \<Rightarrow> x);
             key = (if id_name identity = [] then id_key identity else id_name identity);
             entry = \<lparr>aq_request_id = i, aq_api_key = key, aq_req_model = model,
                      aq_started_at = ev_now (dp_env d) (gw_world g)\<rparr>;
             (p, rw, g) = body (g\<lparr>gw_active := active_add entry (gw_active g)\<rparr>)
         in (p, rw, g\<lparr>gw_active := active_remove i (gw_active g)\<rparr>)))"

section \<open>The response cache\<close>

definition count_cache_event :: "string \<Rightarrow> string \<Rightarrow> cache_outcome \<Rightarrow> ('c, 'w) gateway \<Rightarrow> ('c, 'w) gateway" where
  "count_cache_event endpoint model e g = g\<lparr>gw_cache_events := gw_cache_events g @ [(endpoint, model, e)]\<rparr>"

definition lookup_cache ::
    "('c, 'w) deps \<Rightarrow> string \<Rightarrow> string \<Rightarrow> string \<Rightarrow> response_writer \<Rightarrow> ('c, 'w) gateway \<Rightarrow>
     string \<times> bool \<times> response_writer \<times> ('c, 'w) gateway"
where
  "lookup_cache d endpoint model body rw g =
     (if \<not> cache_enabled (gw_cache g) then ([], False, rw_set ''X-Cache'' ''BYPASS'' rw, g)
      else let key = cache_key sha256_hex endpoint model body;
               (r, c) = cache_get (ev_now (dp_env d) (gw_world g)) key (gw_cache g);
               g = g\<lparr>gw_cache := c\<rparr>
           in case r of
                None \<Rightarrow> (key, False, rw_set ''X-Cache'' ''MISS'' rw, count_cache_event endpoint model CacheMiss g)
              | Some e \<Rightarrow> (key, True, write_body (en_body e) (rw_set ''X-Cache'' ''HIT'' rw),
                           count_cache_event endpoint model CacheHit g))"

definition store_cache ::
    "('c, 'w) deps \<Rightarrow> string \<Rightarrow> string \<Rightarrow> string \<Rightarrow> string \<Rightarrow> ('c, 'w) gateway \<Rightarrow> ('c, 'w) gateway"
where
  "store_cache d endpoint model key body g =
     (if key = [] then g
      else count_cache_event endpoint model CacheStore (g\<lparr>gw_cache :=
        cache_put (ev_now (dp_env d) (gw_world g)) key
          \<lparr>en_body = body, en_model = model, en_stored_at = 0\<rparr> (gw_cache g)\<rparr>))"

section \<open>Errors of the engine\<close>

definition write_engine_error :: "http_request \<Rightarrow> gerror \<Rightarrow> response_writer \<Rightarrow> response_writer" where
  "write_engine_error rq err rw =
     (if errors_is err ErrUnknownModel \<or> errors_is err ErrProviderNotFound
      then write_gateway_error rq 404 ''invalid_request_error'' (error_text err) rw
      else if errors_is err Canceled then rw
      else if errors_is err ErrUnsupported
      then write_gateway_error rq 400 ''invalid_request_error'' (error_text err) rw
      else case errors_as_provider err of
          Some up \<Rightarrow>
            if \<not> retryable err \<and> pe_status up > 0
            then write_gateway_error rq (pe_status up) ''invalid_request_error'' (pe_message up) rw
            else write_gateway_error rq 502 ''api_error'' ''Upstream provider request failed.'' rw
        | None \<Rightarrow> write_gateway_error rq 502 ''api_error'' ''Upstream provider request failed.'' rw)"

definition quoted :: "string \<Rightarrow> string" where "quoted s = [CHR 0x27] @ s @ [CHR 0x27]"

definition allow_model :: "http_request \<Rightarrow> http_context \<Rightarrow> string \<Rightarrow> response_writer \<Rightarrow> bool \<times> response_writer" where
  "allow_model rq cx model rw = (case hx_identity cx of
      None \<Rightarrow> (True, rw)
    | Some i \<Rightarrow> if allows i model then (True, rw)
        else (False, write_gateway_error rq 403 ''invalid_request_error''
          (''Model '' @ quoted model @ '' is not permitted for this API key.'') rw))"

section \<open>The context optimiser\<close>

definition should_ponytail :: "pconfig option \<Rightarrow> chat_request \<Rightarrow> bool" where
  "should_ponytail pony req = (case pony of
      None \<Rightarrow> False
    | Some c \<Rightarrow> (case map_of (cr_extra req) ''ponytail'' of
        Some (JBool _ b) \<Rightarrow> b
      | Some (JNull _) \<Rightarrow> False
      | _ \<Rightarrow> pc_enabled c))"

definition openai_to_messages :: "message list \<Rightarrow> pmessage list" where
  "openai_to_messages ms =
     map (\<lambda>m. \<lparr>pm_role = msg_role m, pm_content = msg_content m, pm_name = msg_name m\<rparr>) ms"

definition messages_to_openai :: "pmessage list \<Rightarrow> message list" where
  "messages_to_openai ms =
     map (\<lambda>m. \<lparr>msg_role = pm_role m, msg_content = pm_content m, msg_name = pm_name m,
               msg_extra = [], msg_tool_error = False\<rparr>) ms"

definition encode_metadata :: "(rat \<Rightarrow> string) \<Rightarrow> metadata \<Rightarrow> json" where
  "encode_metadata fl m = json_object [
     (''enabled'', json_of_bool (md_enabled m)), (''mode'', json_of_string (md_mode m)),
     (''saved_tokens'', json_of_int (md_saved m)), (''compression_ratio'', JNum (fl (md_ratio m)))]"

text \<open>The optimised request, what it tells the client, and the statistics; \<open>None\<close> is a panic.\<close>

definition optimise ::
    "chat_request \<Rightarrow> ('c, 'w) gateway \<Rightarrow> (chat_request \<times> metadata option \<times> ('c, 'w) gateway) option" where
  "optimise req g =
     (if \<not> should_ponytail (gw_pony g) req then Some (req, None, g)
      else (case process_messages (the (gw_pony g)) (openai_to_messages (cr_messages req)) of
          None \<Rightarrow> None
        | Some r \<Rightarrow> Some (req\<lparr>cr_messages := messages_to_openai (pr_messages r)\<rparr>, pr_metadata r,
            g\<lparr>gw_pony_stats := map_option (pstats_record (pr_original r) (pr_optimized r) 0)
               (gw_pony_stats g)\<rparr>)))"

section \<open>Streams\<close>

text \<open>A stream is opened, relayed by the dialect's \<open>run\<close>, and its end metered.\<close>

definition serve_stream ::
  "('c, 'w) deps \<Rightarrow> http_context \<Rightarrow> chat_request \<Rightarrow> (response_writer \<Rightarrow> response_writer) \<Rightarrow>
   (gerror \<Rightarrow> response_writer \<Rightarrow> response_writer) \<Rightarrow>
   (stream_chunk selected list \<Rightarrow> sse_writer \<Rightarrow> stream_error option \<times> sse_writer) \<Rightarrow>
   response_writer \<Rightarrow> ('c, 'w) gateway \<Rightarrow> ('c, 'w) handled"
where
  "serve_stream d cx req unsupported failed run rw g = (case new_writer rw of
      Inl _ \<Rightarrow> (False, unsupported rw, g)
    | Inr sse \<Rightarrow>
        (let meta = fst (begin_request (router_context cx) (ev_now (dp_env d) (gw_world g)) (cr_model req) True)
         in case chat_completion_stream (dp_env d) (router_context cx) req (gw_routes g) (gw_engine g) (gw_world g) of
            (None, rt) \<Rightarrow> (True, rw, g\<lparr>gw_routes := rt\<rparr>)
          | (Some (Inl err, s), rt) \<Rightarrow>
              (False, failed err rw, g\<lparr>gw_routes := rt, gw_engine := di_engine s, gw_world := di_world s\<rparr>)
          | (Some (Inr (route, start, upstream, chunks), s), rt) \<Rightarrow>
              let (selections, arrivals, w) = dp_consume d (map fst (takeWhile snd chunks)) (di_world s);
                  (_, e, _) = meter_stream (ev_now (dp_env d) w) route upstream chunks meta (di_engine s, di_trace s);
                  e = meter_latency (ev_now (dp_env d) w) route start arrivals e;
                  (_, sse) = run selections sse
              in (False, sw_rw sse, g\<lparr>gw_routes := rt, gw_engine := e, gw_world := w\<rparr>)))"

text \<open>A call that is not streamed: the engine, then the body built from its answer.\<close>

definition serve_call ::
  "((gerror + 'r) \<times> 'w dispatching) option \<times> 'c routes \<Rightarrow> (gerror \<Rightarrow> response_writer \<Rightarrow> response_writer) \<Rightarrow>
   ('r \<Rightarrow> string) \<Rightarrow> (string \<Rightarrow> ('c, 'w) gateway \<Rightarrow> ('c, 'w) gateway) \<Rightarrow>
   response_writer \<Rightarrow> ('c, 'w) gateway \<Rightarrow> ('c, 'w) handled"
where
  "serve_call outcome failed body store rw g = (case outcome of
      (None, rt) \<Rightarrow> (True, rw, g\<lparr>gw_routes := rt\<rparr>)
    | (Some (res, s), rt) \<Rightarrow>
        (let g = g\<lparr>gw_routes := rt, gw_engine := di_engine s, gw_world := di_world s\<rparr>
         in case res of
              Inl err \<Rightarrow> (False, failed err rw, g)
            | Inr r \<Rightarrow> (False, write_body (body r) rw, store (body r) g)))"

text \<open>The same behind the cache.\<close>

definition serve_cached ::
  "('c, 'w) deps \<Rightarrow> string \<Rightarrow> string \<Rightarrow> string \<Rightarrow>
   (('c, 'w) gateway \<Rightarrow> ((gerror + 'r) \<times> 'w dispatching) option \<times> 'c routes) \<Rightarrow>
   (gerror \<Rightarrow> response_writer \<Rightarrow> response_writer) \<Rightarrow> ('r \<Rightarrow> string) \<Rightarrow>
   response_writer \<Rightarrow> ('c, 'w) gateway \<Rightarrow> ('c, 'w) handled"
where
  "serve_cached d endpoint model body call failed enc rw g = (case lookup_cache d endpoint model body rw g of
      (key, True, rw, g) \<Rightarrow> (False, rw, g)
    | (key, False, rw, g) \<Rightarrow> serve_call (call g) failed enc (store_cache d endpoint model key) rw g)"

section \<open>Chat completions\<close>

definition endpoint_chat :: string where "endpoint_chat = ''chat''"
definition endpoint_embeddings :: string where "endpoint_embeddings = ''embeddings''"
definition endpoint_messages :: string where "endpoint_messages = ''messages''"
definition endpoint_responses :: string where "endpoint_responses = ''responses''"

definition stream_completion ::
    "('c, 'w) deps \<Rightarrow> http_request \<Rightarrow> http_context \<Rightarrow> chat_request \<Rightarrow> response_writer \<Rightarrow> ('c, 'w) gateway \<Rightarrow> ('c, 'w) handled"
where
  "stream_completion d rq cx req = serve_stream d cx req
     (write_error 500 ''api_error'' ''Streaming is unsupported by the transport.'')
     (write_engine_error rq) (relay encode_chat_response)"

definition with_metadata :: "(rat \<Rightarrow> string) \<Rightarrow> metadata option \<Rightarrow> chat_response \<Rightarrow> chat_response" where
  "with_metadata fl meta r = (case meta of None \<Rightarrow> r
    | Some m \<Rightarrow> r\<lparr>rsp_extra := map_put ''ponytail'' (encode_metadata fl m) (rsp_extra r)\<rparr>)"

definition chat_completions :: "('c, 'w) deps \<Rightarrow> ('c, 'w) http_handler" where
  "chat_completions d rq cx rw g = (case read_body (dp_max_body d) rq rw of
      (None, rw) \<Rightarrow> (False, rw, g)
    | (Some body, rw) \<Rightarrow> (case Option.bind (json_parse body) decode_chat_request of
          None \<Rightarrow> (False, write_decode_error Unreadable ''Malformed JSON body.'' rw, g)
        | Some req \<Rightarrow>
            if cr_model req = [] then
              (False, write_error 400 ''invalid_request_error'' (''Field '' @ quoted ''model'' @ '' is required.'') rw, g)
            else (case allow_model rq cx (cr_model req) rw of
                (False, rw) \<Rightarrow> (False, rw, g)
              | (True, rw) \<Rightarrow> (case optimise req g of
                    None \<Rightarrow> (True, rw, g)
                  | Some (req, meta, g) \<Rightarrow> track_active d cx (cr_model req) (\<lambda>g.
                      if cr_stream req then stream_completion d rq cx req (rw_set ''X-Cache'' ''BYPASS'' rw) g
                      else (serve_cached d endpoint_chat (cr_model req) body
                            (\<lambda>g. chat_completion (dp_env d) (router_context cx) req (gw_routes g) (gw_engine g) (gw_world g))
                            (write_engine_error rq) (\<lambda>r. raw (encode_chat_response (with_metadata (dp_float d) meta r))) rw g)) g))))"

section \<open>Embeddings\<close>

definition handle_embeddings :: "('c, 'w) deps \<Rightarrow> ('c, 'w) http_handler" where
  "handle_embeddings d rq cx rw g = (case read_body (dp_max_body d) rq rw of
      (None, rw) \<Rightarrow> (False, rw, g)
    | (Some body, rw) \<Rightarrow> (case Option.bind (json_parse body) decode_embedding_request of
          None \<Rightarrow> (False, write_decode_error Unreadable ''Malformed JSON body.'' rw, g)
        | Some req \<Rightarrow>
            if er_model req = [] then
              (False, write_error 400 ''invalid_request_error'' (''Field '' @ quoted ''model'' @ '' is required.'') rw, g)
            else if er_input req = None then
              (False, write_error 400 ''invalid_request_error'' (''Field '' @ quoted ''input'' @ '' is required.'') rw, g)
            else (case allow_model rq cx (er_model req) rw of
                (False, rw) \<Rightarrow> (False, rw, g)
              | (True, rw) \<Rightarrow> track_active d cx (er_model req) (\<lambda>g.
                  serve_cached d endpoint_embeddings (er_model req) body
                            (\<lambda>g. embeddings (dp_env d) (router_context cx) req (gw_routes g) (gw_engine g) (gw_world g))
                            (write_engine_error rq) (\<lambda>r. raw (encode_embedding_response r)) rw g) g)))"

section \<open>Messages\<close>

definition stream_messages ::
    "('c, 'w) deps \<Rightarrow> http_request \<Rightarrow> http_context \<Rightarrow> chat_request \<Rightarrow> response_writer \<Rightarrow> ('c, 'w) gateway \<Rightarrow> ('c, 'w) handled"
where
  "stream_messages d rq cx req = serve_stream d cx req
     (write_anthropic_error 500 ''api_error'' ''Streaming is unsupported by the transport.'')
     (write_engine_error rq) (\<lambda>ss. relay_messages ss (new_message_stream (cr_model req)))"

definition handle_messages :: "('c, 'w) deps \<Rightarrow> ('c, 'w) http_handler" where
  "handle_messages d rq cx rw g = (case read_body (dp_max_body d) rq rw of
      (None, rw) \<Rightarrow> (False, rw, g)
    | (Some body, rw) \<Rightarrow> (case Option.bind (json_parse body) decode_a_request of
          None \<Rightarrow> (False, write_decode_error Unreadable ''Malformed JSON body.'' rw, g)
        | Some req \<Rightarrow>
            if aq_model req = [] then
              (False, write_anthropic_error 400 ''invalid_request_error'' (''Field '' @ quoted ''model'' @ '' is required.'') rw, g)
            else if aq_messages req = [] then
              (False, write_anthropic_error 400 ''invalid_request_error'' (''Field '' @ quoted ''messages'' @ '' is required.'') rw, g)
            else if aq_max_tokens req \<le> 0 then
              (False, write_anthropic_error 400 ''invalid_request_error'' (''Field '' @ quoted ''max_tokens'' @ '' is required.'') rw, g)
            else (case allow_model rq cx (aq_model req) rw of
                (False, rw) \<Rightarrow> (False, rw, g)
              | (True, rw) \<Rightarrow> track_active d cx (aq_model req) (\<lambda>g.
                  let cx = cx\<lparr>hx_dialect := Some ''anthropic''\<rparr>; converted = to_openai_request req
                  in if aq_stream req then stream_messages d rq cx converted (rw_set ''X-Cache'' ''BYPASS'' rw) g
                     else (serve_cached d endpoint_messages (aq_model req) body
                            (\<lambda>g. chat_completion (dp_env d) (router_context cx) converted (gw_routes g) (gw_engine g) (gw_world g))
                            (write_engine_error rq) (\<lambda>r. raw (encode_a_response (to_anthropic_response r))) rw g)) g)))"

section \<open>Responses\<close>

definition stream_responses ::
    "('c, 'w) deps \<Rightarrow> http_request \<Rightarrow> http_context \<Rightarrow> response_request \<Rightarrow> chat_request \<Rightarrow> response_writer \<Rightarrow> ('c, 'w) gateway \<Rightarrow> ('c, 'w) handled"
where
  "stream_responses d rq cx req converted = serve_stream d cx converted
     (write_error 500 ''api_error'' ''Streaming is unsupported by the transport.'')
     (write_engine_error rq) (\<lambda>ss. relay_responses ss (new_response_stream req))"

definition handle_responses :: "('c, 'w) deps \<Rightarrow> ('c, 'w) http_handler" where
  "handle_responses d rq cx rw g = (case read_body (dp_max_body d) rq rw of
      (None, rw) \<Rightarrow> (False, rw, g)
    | (Some body, rw) \<Rightarrow> (case Option.bind (json_parse body) decode_response_request of
          None \<Rightarrow> (False, write_decode_error Unreadable ''Malformed JSON body.'' rw, g)
        | Some req \<Rightarrow>
            if rq_model req = [] then
              (False, write_error 400 ''invalid_request_error'' (''Field '' @ quoted ''model'' @ '' is required.'') rw, g)
            else if rq_input req = None then
              (False, write_error 400 ''invalid_request_error'' (''Field '' @ quoted ''input'' @ '' is required.'') rw, g)
            else if rq_previous_response_id req \<noteq> [] then
              (False, write_error 400 ''invalid_request_error'' (quoted ''previous_response_id'' @
                '' is not supported by this gateway; send the full conversation in '' @ quoted ''input'' @ ''.'') rw, g)
            else (case allow_model rq cx (rq_model req) rw of
                (False, rw) \<Rightarrow> (False, rw, g)
              | (True, rw) \<Rightarrow> track_active d cx (rq_model req) (\<lambda>g.
                  case responses_to_chat_request req of
                    Inl msg \<Rightarrow> (False, write_error 400 ''invalid_request_error'' msg rw, g)
                  | Inr converted \<Rightarrow>
                      (let cx = cx\<lparr>hx_dialect := Some ''responses''\<rparr>
                       in if rq_stream req then stream_responses d rq cx req converted (rw_set ''X-Cache'' ''BYPASS'' rw) g
                          else (serve_cached d endpoint_responses (rq_model req) body
                            (\<lambda>g. chat_completion (dp_env d) (router_context cx) converted (gw_routes g) (gw_engine g) (gw_world g))
                            (write_engine_error rq) (\<lambda>r. raw (encode_response (chat_to_response req r))) rw g))) g)))"

section \<open>Models and health\<close>

definition handle_health :: "('c, 'w) http_handler" where
  "handle_health rq cx rw g =
     (False, write_json 200 (json_object [(''status'', json_of_string ''ok'')]) rw, g)"

definition encode_model :: "string \<Rightarrow> string list \<Rightarrow> json" where
  "encode_model n caps = json_object ([(''id'', json_of_string n), (''object'', json_of_string ''model'')]
     @ (if caps = [] then [] else [(''capabilities'', json_array (map json_of_string caps))]))"

definition visible_models :: "http_context \<Rightarrow> 'c routes \<Rightarrow> string list" where
  "visible_models cx rt =
     (let identity = (case hx_identity cx of None \<Rightarrow> named_identity [] | Some i \<Rightarrow> i)
      in filter (allows identity) (sort (aliases rt @ combo_names rt)))"

definition handle_models :: "('c, 'w) http_handler" where
  "handle_models rq cx rw g = (False, write_json 200 (json_object [(''object'', json_of_string ''list''),
     (''data'', json_array (map (\<lambda>n. encode_model n (capabilities n (gw_routes g)))
        (visible_models cx (gw_routes g))))]) rw, g)"

section \<open>Middleware\<close>

definition hex_bytes :: "string \<Rightarrow> string" where
  "hex_bytes s = concat (map (\<lambda>c. [hex_digit (of_char c div 16), hex_digit (of_char c mod 16)]) s)"

definition trace_requests :: "('c, 'w) deps \<Rightarrow> ('c, 'w) http_handler \<Rightarrow> ('c, 'w) http_handler" where
  "trace_requests d next rq cx rw g =
     (let i = hex_bytes (dp_entropy d (gw_drawn g))
      in next rq (cx\<lparr>hx_request_id := Some i\<rparr>) (rw_set ''X-Request-Id'' i rw) (g\<lparr>gw_drawn := Suc (gw_drawn g)\<rparr>))"

text \<open>The spend query of the quota reads the usage the engine records.\<close>

definition spend_query :: "engine \<Rightarrow> (string \<Rightarrow> instant \<Rightarrow> rat option) option" where
  "spend_query e = map_option (\<lambda>evs k since. Some (usage_key_spend k since evs)) (eg_usage e)"

definition enforce_quota :: "('c, 'w) deps \<Rightarrow> ('c, 'w) http_handler \<Rightarrow> ('c, 'w) http_handler" where
  "enforce_quota d next rq cx rw g = (case hx_identity cx of
      None \<Rightarrow> next rq cx rw g
    | Some i \<Rightarrow>
        (let now = ev_now (dp_env d) (gw_world g);
             ((left, err), q) = quota_allow (spend_query (gw_engine g)) i now now (gw_quota g);
             g = g\<lparr>gw_quota := q\<rparr>;
             rw = (if id_rate_limit i > 0
                   then rw_set ''X-RateLimit-Remaining'' (show_int left)
                          (rw_set ''X-RateLimit-Limit'' (show_int (id_rate_limit i)) rw) else rw)
         in case err of
              Some Quota.ErrRateLimited \<Rightarrow> (False, write_gateway_error rq 429 ''rate_limit_error''
                ''Rate limit exceeded for this API key.'' (rw_set ''Retry-After'' ''60'' rw), g)
            | Some ErrBudgetExceeded \<Rightarrow> (False, write_gateway_error rq 429 ''insufficient_quota''
                ''Monthly budget exhausted for this API key.'' rw, g)
            | None \<Rightarrow> next rq cx rw g))"

definition authenticate_with ::
    "(string \<Rightarrow> (auth_error + identity) \<times> string option) \<Rightarrow> ('c, 'w) http_handler \<Rightarrow> ('c, 'w) http_handler" where
  "authenticate_with auth next rq cx rw g = (case auth (from_request (hq_header rq)) of
      (Inl _, _) \<Rightarrow> (False, write_gateway_error rq 401 ''invalid_request_error'' ''Invalid API key provided.'' rw, g)
    | (Inr i, touched) \<Rightarrow>
        next rq (cx\<lparr>hx_identity := Some i\<rparr>) rw
          (g\<lparr>gw_touched := gw_touched g @ (case touched of None \<Rightarrow> [] | Some k \<Rightarrow> [k])\<rparr>))"

definition cors :: "string list \<Rightarrow> ('c, 'w) http_handler \<Rightarrow> ('c, 'w) http_handler" where
  "cors origins next rq cx rw g =
     (let origin = hq_header rq ''Origin'';
          rw = (if origin \<in> set origins \<and> origin \<noteq> [] then
                  rw_set ''Vary'' ''Origin'' (rw_set ''Access-Control-Allow-Headers'' ''Authorization, Content-Type''
                    (rw_set ''Access-Control-Allow-Methods'' ''GET, POST, PUT, DELETE, OPTIONS''
                      (rw_set ''Access-Control-Allow-Credentials'' ''true''
                        (rw_set ''Access-Control-Allow-Origin'' origin rw)))) else rw)
      in if hq_method rq = ''OPTIONS'' then (False, rw_write_header 204 rw, g) else next rq cx rw g)"

text \<open>Requests are counted by method, route and status; a panic unwinds past the counter.\<close>

definition instrument :: "string \<Rightarrow> ('c, 'w) http_handler \<Rightarrow> ('c, 'w) http_handler" where
  "instrument pattern next rq cx rw g = (case next rq cx rw g of
      (True, rw, g) \<Rightarrow> (True, rw, g)
    | (False, rw, g) \<Rightarrow> (False, rw, g\<lparr>gw_counted := gw_counted g @ [(hq_method rq, pattern,
        case rw_status rw of None \<Rightarrow> 0 | Some s \<Rightarrow> s)]\<rparr>))"

definition recoverer :: "('c, 'w) http_handler \<Rightarrow> ('c, 'w) http_handler" where
  "recoverer next rq cx rw g = (case next rq cx rw g of
      (True, rw, g) \<Rightarrow> (False, write_error 500 ''api_error'' ''Internal server error.'' rw, g)
    | (False, rw, g) \<Rightarrow> (False, rw, g))"

section \<open>The routing table\<close>

definition v1_chain :: "('c, 'w) deps \<Rightarrow> ('c, 'w) http_handler \<Rightarrow> ('c, 'w) http_handler" where
  "v1_chain d h = authenticate_with (authenticate (dp_auth d)) (enforce_quota d (trace_requests d h))"

definition admin_chain :: "('c, 'w) deps \<Rightarrow> ('c, 'w) http_handler \<Rightarrow> ('c, 'w) http_handler" where
  "admin_chain d h = cors (dp_origins d)
     (authenticate_with (\<lambda>t. (admin_authenticate (dp_admin_auth d) t, None)) h)"

definition route_handler :: "('c, 'w) deps \<Rightarrow> string \<Rightarrow> string \<Rightarrow> ('c, 'w) http_handler option" where
  "route_handler d method path =
     (if method = ''GET'' \<and> path = ''/health'' then Some handle_health
      else if method = ''GET'' \<and> path = ''/v1/models'' then Some (v1_chain d handle_models)
      else if method = ''POST'' \<and> path = ''/v1/chat/completions'' then Some (v1_chain d (chat_completions d))
      else if method = ''POST'' \<and> path = ''/v1/embeddings'' then Some (v1_chain d (handle_embeddings d))
      else if method = ''POST'' \<and> path = messages_path then Some (v1_chain d (handle_messages d))
      else if method = ''POST'' \<and> path = ''/v1/responses'' then Some (v1_chain d (handle_responses d))
      else None)"

text \<open>A matched request through the whole stack.\<close>

definition serve :: "('c, 'w) deps \<Rightarrow> http_request \<Rightarrow> response_writer \<Rightarrow> ('c, 'w) gateway \<Rightarrow> ('c, 'w) handled option" where
  "serve d rq rw g = map_option (\<lambda>h. recoverer (instrument (hq_path rq) h) rq no_context rw g)
     (route_handler d (hq_method rq) (hq_path rq))"

section \<open>What a request may touch\<close>

text \<open>Whether a request reached the engine or the cache, and the model its body names.\<close>

definition same_backend :: "('c, 'w) gateway \<Rightarrow> ('c, 'w) gateway \<Rightarrow> bool" where
  "same_backend g g' \<longleftrightarrow> gw_routes g' = gw_routes g \<and> gw_engine g' = gw_engine g
     \<and> gw_world g' = gw_world g \<and> gw_cache g' = gw_cache g"

definition requested_model :: "('c, 'w) deps \<Rightarrow> http_request \<Rightarrow> string option" where
  "requested_model d rq = (case read_all (dp_max_body d) rq of
      Inl _ \<Rightarrow> None
    | Inr body \<Rightarrow> Option.bind (json_parse body) (\<lambda>v.
        if hq_path rq = ''/v1/chat/completions'' then map_option cr_model (decode_chat_request v)
        else if hq_path rq = ''/v1/embeddings'' then map_option er_model (decode_embedding_request v)
        else if hq_path rq = messages_path then map_option aq_model (decode_a_request v)
        else if hq_path rq = ''/v1/responses'' then map_option rq_model (decode_response_request v)
        else None))"

definition permitted :: "http_context \<Rightarrow> string \<Rightarrow> bool" where
  "permitted cx m \<longleftrightarrow> (case hx_identity cx of None \<Rightarrow> True | Some i \<Rightarrow> allows i m)"

lemma allow_model_fst: "fst (allow_model rq cx m rw) = permitted cx m"
  by (simp add: allow_model_def permitted_def split: option.split)

lemma same_backend_refl [simp]: "same_backend g g"
  by (simp add: same_backend_def)

named_theorems handler_paths \<open>the endpoints' paths, all different\<close>

lemma paths_differ [handler_paths]:
  "messages_path \<noteq> ''/v1/chat/completions''" "messages_path \<noteq> ''/v1/embeddings''"
  "''/v1/responses'' \<noteq> messages_path"
  by (simp_all add: messages_path_def)

lemma allow_model_denied [simp]:
  "\<not> permitted cx m \<Longrightarrow> allow_model rq cx m rw = (False, write_gateway_error rq 403 ''invalid_request_error''
     (''Model '' @ quoted m @ '' is not permitted for this API key.'') rw)"
  by (auto simp: permitted_def allow_model_def split: option.splits)

text \<open>Nothing between its tracking and the clean-up touches the table of running requests.\<close>

named_theorems keeps_active \<open>steps that leave the running requests alone\<close>

lemma count_cache_event_active [keeps_active]: "gw_active (count_cache_event e m o' g) = gw_active g"
  by (simp add: count_cache_event_def)

lemma store_cache_active [keeps_active]: "gw_active (store_cache d e m k b g) = gw_active g"
  by (simp add: store_cache_def count_cache_event_def)

lemma serve_call_active [keeps_active]:
  "(\<And>b g. gw_active (store b g) = gw_active g) \<Longrightarrow>
   gw_active (snd (snd (serve_call out failed body store rw g))) = gw_active g"
  by (auto simp: serve_call_def Let_def split: option.split prod.split sum.split)

lemma serve_cached_active [keeps_active]:
  "gw_active (snd (snd (serve_cached d e m body call failed enc rw g))) = gw_active g"
  by (auto simp: serve_cached_def lookup_cache_def count_cache_event_def Let_def store_cache_active
      serve_call_active split: option.split prod.split)

lemma serve_stream_active [keeps_active]:
  "gw_active (snd (snd (serve_stream d cx req un failed run rw g))) = gw_active g"
  by (auto simp: serve_stream_def Let_def split: option.split prod.split sum.split)

lemma streams_active [keeps_active]:
  "gw_active (snd (snd (stream_completion d rq cx req rw g))) = gw_active g"
  "gw_active (snd (snd (stream_messages d rq cx req rw g))) = gw_active g"
  "gw_active (snd (snd (stream_responses d rq cx rreq req rw g))) = gw_active g"
  by (simp_all add: stream_completion_def stream_messages_def stream_responses_def serve_stream_active)

lemma optimise_active [keeps_active]:
  "optimise req g = Some (req', meta, g') \<Longrightarrow> gw_active g' = gw_active g"
  by (auto simp: optimise_def split: if_splits option.splits)

lemma active_remove_add:
  "map_of m (aq_request_id a) = None \<Longrightarrow> map_of (active_remove (aq_request_id a) (active_add a m)) = map_of m"
  by (auto simp: active_add_def active_remove_def delete_conv' update_conv' fun_eq_iff)

lemma track_active_cleans:
  assumes "\<And>g. gw_active (snd (snd (body g))) = gw_active g"
    and "gw_active g = m" and "\<And>i. hx_request_id cx = Some i \<Longrightarrow> map_of m i = None"
  shows "map_of (gw_active (snd (snd (track_active d cx model body g)))) = map_of m"
proof (cases "hx_request_id cx")
  case (Some i)
  have "gw_active (snd (snd r)) = active_add a m \<Longrightarrow> aq_request_id a = i \<Longrightarrow>
      map_of (gw_active (snd (snd (case r of (p, rw, g) \<Rightarrow>
        (p, rw, g\<lparr>gw_active := active_remove i (gw_active g)\<rparr>))))) = map_of m" for r :: "('a, 'b) handled" and a
    using active_remove_add [of m a] assms(3) [OF Some] by (cases r) auto
  with Some show ?thesis by (simp add: track_active_def Let_def assms(1,2))
qed (simp add: track_active_def assms)

text \<open>
  What every endpoint promises the stack around it: it decodes the body and asks for the model
  before it touches anything, and takes its request off the table again.
\<close>

locale endpoint =
  fixes h :: "('c, 'w) http_handler"
    and limit :: int
    and dec :: "json \<Rightarrow> 'q option"
    and model_of :: "'q \<Rightarrow> string"
  assumes unread: "read_all limit rq = Inl e \<Longrightarrow> snd (snd (h rq cx rw g)) = g"
    and undecoded: "read_all limit rq = Inr body \<Longrightarrow> Option.bind (json_parse body) dec = None \<Longrightarrow>
      snd (snd (h rq cx rw g)) = g"
    and refused: "read_all limit rq = Inr body \<Longrightarrow> Option.bind (json_parse body) dec = Some req \<Longrightarrow>
      \<not> permitted cx (model_of req) \<Longrightarrow> snd (snd (h rq cx rw g)) = g"
    and cleans: "(\<And>i. hx_request_id cx = Some i \<Longrightarrow> map_of (gw_active g) i = None) \<Longrightarrow>
      map_of (gw_active (snd (snd (h rq cx rw g)))) = map_of (gw_active g)"
begin

lemma guarded:
  assumes "\<not> same_backend g (snd (snd (h rq cx rw g)))"
  obtains body req where "read_all limit rq = Inr body" "Option.bind (json_parse body) dec = Some req"
    "permitted cx (model_of req)"
proof (cases "read_all limit rq")
  case (Inl e)
  with assms show thesis by (simp add: unread)
next
  case (Inr body)
  with assms show thesis
    using undecoded [OF Inr] refused [OF Inr] that by (cases "Option.bind (json_parse body) dec") fastforce+
qed

end

interpretation chat_endpoint: endpoint "chat_completions d" "dp_max_body d" decode_chat_request cr_model for d
proof
  fix rq :: http_request and cx :: http_context and rw and g :: "('a, 'b) gateway"
  assume "\<And>i. hx_request_id cx = Some i \<Longrightarrow> map_of (gw_active g) i = None"
  then show "map_of (gw_active (snd (snd (chat_completions d rq cx rw g)))) = map_of (gw_active g)"
    by (simp add: chat_completions_def split: option.split prod.split bool.split)
      (auto simp: keeps_active Let_def split: sum.split intro!: track_active_cleans)
qed (auto simp: chat_completions_def read_body_def split: if_splits)

interpretation embeddings_endpoint: endpoint "handle_embeddings d" "dp_max_body d" decode_embedding_request er_model for d
proof
  fix rq :: http_request and cx :: http_context and rw and g :: "('a, 'b) gateway"
  assume "\<And>i. hx_request_id cx = Some i \<Longrightarrow> map_of (gw_active g) i = None"
  then show "map_of (gw_active (snd (snd (handle_embeddings d rq cx rw g)))) = map_of (gw_active g)"
    by (simp add: handle_embeddings_def split: option.split prod.split bool.split)
      (auto simp: keeps_active Let_def split: sum.split intro!: track_active_cleans)
qed (auto simp: handle_embeddings_def read_body_def split: if_splits)

interpretation messages_endpoint: endpoint "handle_messages d" "dp_max_body d" decode_a_request aq_model for d
proof
  fix rq :: http_request and cx :: http_context and rw and g :: "('a, 'b) gateway"
  assume "\<And>i. hx_request_id cx = Some i \<Longrightarrow> map_of (gw_active g) i = None"
  then show "map_of (gw_active (snd (snd (handle_messages d rq cx rw g)))) = map_of (gw_active g)"
    by (simp add: handle_messages_def split: option.split prod.split bool.split)
      (auto simp: keeps_active Let_def split: sum.split intro!: track_active_cleans)
qed (auto simp: handle_messages_def read_body_def split: if_splits)

interpretation responses_endpoint: endpoint "handle_responses d" "dp_max_body d" decode_response_request rq_model for d
proof
  fix rq :: http_request and cx :: http_context and rw and g :: "('a, 'b) gateway"
  assume "\<And>i. hx_request_id cx = Some i \<Longrightarrow> map_of (gw_active g) i = None"
  then show "map_of (gw_active (snd (snd (handle_responses d rq cx rw g)))) = map_of (gw_active g)"
    by (simp add: handle_responses_def split: option.split prod.split bool.split)
      (auto simp: keeps_active Let_def split: sum.split intro!: track_active_cleans)
qed (auto simp: handle_responses_def read_body_def split: if_splits)

lemma requested_model_read:
  assumes "read_all (dp_max_body d) rq = Inr body"
  shows "hq_path rq = ''/v1/chat/completions'' \<Longrightarrow> Option.bind (json_parse body) decode_chat_request = Some r1 \<Longrightarrow>
      requested_model d rq = Some (cr_model r1)"
    and "hq_path rq = ''/v1/embeddings'' \<Longrightarrow> Option.bind (json_parse body) decode_embedding_request = Some r2 \<Longrightarrow>
      requested_model d rq = Some (er_model r2)"
    and "hq_path rq = messages_path \<Longrightarrow> Option.bind (json_parse body) decode_a_request = Some r3 \<Longrightarrow>
      requested_model d rq = Some (aq_model r3)"
    and "hq_path rq = ''/v1/responses'' \<Longrightarrow> Option.bind (json_parse body) decode_response_request = Some r4 \<Longrightarrow>
      requested_model d rq = Some (rq_model r4)"
  using assms by (auto simp: requested_model_def handler_paths split: Option.bind_splits)

text \<open>The model a request names is the one its endpoint's decoder reads.\<close>

definition v1_endpoints :: "('c, 'w) deps \<Rightarrow> (string \<times> ('c, 'w) http_handler) list" where
  "v1_endpoints d = [(''/v1/chat/completions'', chat_completions d), (''/v1/embeddings'', handle_embeddings d),
     (messages_path, handle_messages d), (''/v1/responses'', handle_responses d)]"

lemma guarded_by_model:
  assumes "\<not> same_backend g (snd (snd (h rq cx rw g)))" and "(hq_path rq, h) \<in> set (v1_endpoints d)"
  shows "\<exists>m. requested_model d rq = Some m \<and> permitted cx m"
proof -
  consider "hq_path rq = ''/v1/chat/completions''" "h = chat_completions d"
    | "hq_path rq = ''/v1/embeddings''" "h = handle_embeddings d"
    | "hq_path rq = messages_path" "h = handle_messages d"
    | "hq_path rq = ''/v1/responses''" "h = handle_responses d"
    using assms(2) by (auto simp: v1_endpoints_def)
  then show ?thesis
  proof cases
    case 1
    with assms(1) chat_endpoint.guarded [of g d rq cx rw] show ?thesis
      by (metis requested_model_read(1))
  next
    case 2
    with assms(1) embeddings_endpoint.guarded [of g d rq cx rw] show ?thesis
      by (metis requested_model_read(2))
  next
    case 3
    with assms(1) messages_endpoint.guarded [of g d rq cx rw] show ?thesis
      by (metis requested_model_read(3))
  next
    case 4
    with assms(1) responses_endpoint.guarded [of g d rq cx rw] show ?thesis
      by (metis requested_model_read(4))
  qed
qed

section \<open>The stack around an endpoint\<close>

lemma handle_models_same [simp]: "same_backend g (snd (snd (handle_models rq cx rw g)))"
  by (simp add: handle_models_def)

lemma handle_health_same [simp]: "same_backend g (snd (snd (handle_health rq cx rw g)))"
  by (simp add: handle_health_def)

lemma recoverer_same: "same_backend g (snd (snd (recoverer (instrument pat h) rq cx rw g)))
    \<longleftrightarrow> same_backend g (snd (snd (h rq cx rw g)))"
  by (auto simp: recoverer_def instrument_def same_backend_def split: prod.split bool.split)

definition quota_verdict :: "('c, 'w) deps \<Rightarrow> identity \<Rightarrow> ('c, 'w) gateway \<Rightarrow> (int \<times> quota_error option) \<times> quota option" where
  "quota_verdict d i g = quota_allow (spend_query (gw_engine g)) i (ev_now (dp_env d) (gw_world g))
     (ev_now (dp_env d) (gw_world g)) (gw_quota g)"

definition next_request_id :: "('c, 'w) deps \<Rightarrow> ('c, 'w) gateway \<Rightarrow> string" where
  "next_request_id d g = hex_bytes (dp_entropy d (gw_drawn g))"

text \<open>What the endpoint is called with once the caller is known and within the quota.\<close>

definition admitted_context :: "('c, 'w) deps \<Rightarrow> identity \<Rightarrow> ('c, 'w) gateway \<Rightarrow> http_context \<Rightarrow> http_context" where
  "admitted_context d i g cx = cx\<lparr>hx_identity := Some i, hx_request_id := Some (next_request_id d g)\<rparr>"

definition admitted_gateway :: "string option \<Rightarrow> quota option \<Rightarrow> ('c, 'w) gateway \<Rightarrow> ('c, 'w) gateway" where
  "admitted_gateway k q g = g\<lparr>gw_touched := gw_touched g @ (case k of None \<Rightarrow> [] | Some k \<Rightarrow> [k]),
     gw_quota := q, gw_drawn := Suc (gw_drawn g)\<rparr>"

lemma v1_chain_admitted:
  assumes "authenticate (dp_auth d) (from_request (hq_header rq)) = (Inr i, k)"
    and "quota_verdict d i g = ((left, None), q)"
  shows "\<exists>rw'. v1_chain d h rq cx rw g = h rq (admitted_context d i g cx) rw' (admitted_gateway k q g)"
  using assms
  by (simp add: v1_chain_def authenticate_with_def enforce_quota_def trace_requests_def Let_def
      quota_verdict_def admitted_context_def admitted_gateway_def next_request_id_def)
    (intro conjI impI exI, (rule refl)+)

lemma v1_chain_stopped:
  assumes "authenticate (dp_auth d) (from_request (hq_header rq)) = (a, k)"
    and "\<And>i. a = Inr i \<Longrightarrow> snd (fst (quota_verdict d i g)) \<noteq> None"
  shows "same_backend g (snd (snd (v1_chain d h rq cx rw g)))
    \<and> gw_active (snd (snd (v1_chain d h rq cx rw g))) = gw_active g"
proof (cases a)
  case (Inl e)
  with assms(1) show ?thesis by (simp add: v1_chain_def authenticate_with_def)
next
  case (Inr i)
  obtain left e q where q: "quota_verdict d i g = ((left, Some e), q)"
    using assms(2) [OF Inr] by (metis fst_conv not_None_eq prod.exhaust snd_conv)
  with assms(1) Inr show ?thesis
    by (cases e) (simp_all add: v1_chain_def authenticate_with_def enforce_quota_def Let_def quota_verdict_def
        same_backend_def)
qed

lemma v1_chain_guarded:
  assumes "\<not> same_backend g (snd (snd (v1_chain d h rq cx rw g)))"
  obtains i k cx' rw' g' where "authenticate (dp_auth d) (from_request (hq_header rq)) = (Inr i, k)"
    "snd (fst (quota_verdict d i g)) = None" "hx_identity cx' = Some i"
    "\<not> same_backend g' (snd (snd (h rq cx' rw' g')))"
proof -
  obtain a k where a: "authenticate (dp_auth d) (from_request (hq_header rq)) = (a, k)" by force
  obtain i left q where i: "a = Inr i" and q: "quota_verdict d i g = ((left, None), q)"
    using v1_chain_stopped [OF a, of g h cx rw] assms by (metis fst_conv prod.exhaust snd_conv)
  from v1_chain_admitted [OF a [unfolded i] q] obtain rw' where
    eq: "v1_chain d h rq cx rw g = h rq (admitted_context d i g cx) rw' (admitted_gateway k q g)" by blast
  have "\<not> same_backend (admitted_gateway k q g) (snd (snd (h rq (admitted_context d i g cx) rw' (admitted_gateway k q g))))"
    using assms unfolding eq by (simp add: same_backend_def admitted_gateway_def)
  moreover have "hx_identity (admitted_context d i g cx) = Some i" by (simp add: admitted_context_def)
  moreover have "snd (fst (quota_verdict d i g)) = None" by (simp add: q)
  ultimately show thesis using that [OF a [unfolded i]] by blast
qed
section \<open>Answers from the cache\<close>

lemma get_after_put:
  assumes "cache_inv c" and "now' < now + rc_ttl c"
  shows "fst (cache_get1 now' k (cache_put1 now k e c)) = Some (e\<lparr>en_stored_at := now\<rparr>)"
proof -
  have cap: "0 < rc_capacity c" using assms(1) by (simp add: cache_inv_def)
  then obtain n where n: "nat (rc_capacity c) = Suc n" by (metis gr0_conv_Suc zero_less_nat_eq)
  have "cache_inv (cache_put1 now k e c)"
    and nodes: "cache_nodes (cache_put1 now k e c) = lru_put (rc_capacity c) (rc_ttl c) now k e (cache_nodes c)"
    using put_refines [OF assms(1)] by blast+
  then have "fst (cache_get1 now' k (cache_put1 now k e c)) =
      fst (lru_get now' k (lru_put (rc_capacity c) (rc_ttl c) now k e (cache_nodes c)))"
    using get_refines by metis
  also have "\<dots> = Some (e\<lparr>en_stored_at := now\<rparr>)"
    using assms(2) by (simp add: lru_put_def n lru_get_def find_node_def new_node_def)
  finally show ?thesis .
qed

lemma get_keeps_ttl: "rc_ttl (snd (cache_get1 now k c)) = rc_ttl c"
  by (simp add: cache_get1_def cache_remove_def split: option.split)

text \<open>
  A miss that ends in an answer stores it; the next lookup of the same bytes within the
  lifetime returns the same body and calls nothing.
\<close>

lemma serve_cached_repeat:
  assumes g: "gw_cache g = Some c" "cache_inv c"
    and first: "serve_cached d ep m body call failed enc rw g = (p, rw1, g1)"
    and stored: "gw_cache_events g1 = gw_cache_events g @ [(ep, m, CacheMiss), (ep, m, CacheStore)]"
    and g2: "gw_cache g2 = gw_cache g1" "ev_now (dp_env d) (gw_world g2) < ev_now (dp_env d) (gw_world g1) + rc_ttl c"
  obtains b g3 where "rw1 = write_body b (rw_set ''X-Cache'' ''MISS'' rw)"
    and "serve_cached d ep m body call' failed' enc' rw2 g2 = (False, write_body b (rw_set ''X-Cache'' ''HIT'' rw2), g3)"
    and "gw_routes g3 = gw_routes g2" "gw_engine g3 = gw_engine g2" "gw_world g3 = gw_world g2"
proof -
  let ?key = "cache_key sha256_hex ep m body"
  obtain r c1 where get: "cache_get1 (ev_now (dp_env d) (gw_world g)) ?key c = (r, c1)" by force
  have c1: "cache_inv c1" "rc_ttl c1 = rc_ttl c"
    using get_refines [OF g(2), of "ev_now (dp_env d) (gw_world g)" ?key] get_keeps_ttl get by (metis snd_conv)+
  let ?g = "count_cache_event ep m CacheMiss (g\<lparr>gw_cache := Some c1\<rparr>)"
  have "r = None"
  proof (rule ccontr)
    assume "r \<noteq> None"
    then show False
      using first stored g(1) get
      by (auto simp: serve_cached_def lookup_cache_def cache_enabled_def cache_get_def count_cache_event_def Let_def)
  qed
  then have look: "lookup_cache d ep m body rw g = (?key, False, rw_set ''X-Cache'' ''MISS'' rw, ?g)"
    using g(1) get by (simp add: lookup_cache_def cache_enabled_def cache_get_def Let_def)
  have call: "serve_call (call ?g) failed enc (store_cache d ep m ?key) (rw_set ''X-Cache'' ''MISS'' rw) ?g = (p, rw1, g1)"
    using first by (simp add: serve_cached_def look)
  obtain s rt res where out: "call ?g = (Some (Inr res, s), rt)" and key: "?key \<noteq> []"
    using call stored
    by (cases "call ?g"; cases "fst (call ?g)")
      (auto simp: serve_call_def count_cache_event_def Let_def store_cache_def split: sum.splits if_splits)
  let ?now = "ev_now (dp_env d) (di_world s)" and ?e = "\<lparr>en_body = enc res, en_model = m, en_stored_at = 0\<rparr>"
  have rw1: "rw1 = write_body (enc res) (rw_set ''X-Cache'' ''MISS'' rw)"
    and g1: "gw_cache g1 = Some (cache_put1 ?now ?key ?e c1)" "gw_world g1 = di_world s"
    using call out key by (auto simp: serve_call_def store_cache_def count_cache_event_def cache_put_def Let_def)
  obtain c2 where "cache_get1 (ev_now (dp_env d) (gw_world g2)) ?key (cache_put1 ?now ?key ?e c1)
      = (Some (?e\<lparr>en_stored_at := ?now\<rparr>), c2)"
    using get_after_put [OF c1(1), of "ev_now (dp_env d) (gw_world g2)" ?now ?key ?e] g2(2)
    by (simp add: c1(2) g1(2)) (metis prod.collapse)
  then have "serve_cached d ep m body call' failed' enc' rw2 g2 =
      (False, write_body (enc res) (rw_set ''X-Cache'' ''HIT'' rw2), count_cache_event ep m CacheHit (g2\<lparr>gw_cache := Some c2\<rparr>))"
    by (simp add: serve_cached_def lookup_cache_def cache_enabled_def cache_get_def g2(1) g1(1) Let_def)
  then show thesis by (rule that [OF rw1]) (simp_all add: count_cache_event_def)
qed

section \<open>Finer facts about single endpoints\<close>

text \<open>A body that is no JSON is answered in the dialect of OpenAI on every endpoint, the Messages
  endpoint included.\<close>

lemma malformed_message_speaks_openai:
  assumes "read_all (dp_max_body d) rq = Inr body" and "json_parse body = None"
  shows "handle_messages d rq cx rw g =
    (False, write_error 400 ''invalid_request_error'' ''Malformed JSON body.'' rw, g)"
  using assms by (simp add: handle_messages_def read_body_def write_decode_error_def)

text \<open>The optimiser rebuilds the messages from role, content and name: the call a tool message
  answers is forgotten, even for a request that is too small to be optimised.\<close>

lemma optimiser_forgets_fields:
  assumes "optimise req g = Some (req', meta, g')" and "should_ponytail (gw_pony g) req"
  shows "\<forall>m \<in> set (cr_messages req'). msg_extra m = []"
  using assms by (auto simp: optimise_def messages_to_openai_def split: option.splits)

text \<open>A panic under the stack is answered and the request taken off the table; it is not counted.\<close>

lemma panic_uncounted:
  assumes "h rq no_context rw g = (True, rw', g')"
  shows "recoverer (instrument pat h) rq no_context rw g =
    (False, write_error 500 ''api_error'' ''Internal server error.'' rw', g')"
  using assms by (simp add: recoverer_def instrument_def)

text \<open>
  Functional. The models a key discovers through \<^verbatim>\<open>GET /v1/models\<close> are, in order and
  including the combos, exactly the routable names that the endpoints admit for it.
\<close>

theorem discovery_matches_admission:
  "sorted (visible_models cx rt)
   \<and> (n \<in> set (visible_models cx rt)
      \<longleftrightarrow> n \<in> set (aliases rt) \<union> set (combo_names rt)
        \<and> fst (allow_model rq cx n rw))"
  by (auto simp: visible_models_def allow_model_fst permitted_def 
      allows_def named_identity_def Let_def sorted_wrt_filter split: option.splits)

lemma v1_chain_active:
  assumes "\<And>cx rw g i. hx_request_id cx = Some i \<Longrightarrow> map_of (gw_active g) i = None \<Longrightarrow>
      map_of (gw_active (snd (snd (ep rq cx rw g)))) = map_of (gw_active g)"
    and "map_of (gw_active g) (next_request_id d g) = None"
  shows "map_of (gw_active (snd (snd (v1_chain d ep rq cx rw g)))) = map_of (gw_active g)"
proof -
  obtain a k where a: "authenticate (dp_auth d) (from_request (hq_header rq)) = (a, k)" by force
  show ?thesis
  proof (cases "\<exists>i left q. a = Inr i \<and> quota_verdict d i g = ((left, None), q)")
    case True
    then obtain i left q where i: "a = Inr i" and q: "quota_verdict d i g = ((left, None), q)" by blast
    obtain rw' where eq: "v1_chain d ep rq cx rw g = ep rq (admitted_context d i g cx) rw' (admitted_gateway k q g)"
      using v1_chain_admitted [OF a [unfolded i] q] by blast
    have "map_of (gw_active (snd (snd (v1_chain d ep rq cx rw g)))) = map_of (gw_active (admitted_gateway k q g))"
      unfolding eq using assms(2)
      by (intro assms(1) [of _ "next_request_id d g"]) (simp_all add: admitted_context_def admitted_gateway_def)
    then show ?thesis by (simp add: admitted_gateway_def)
  next
    case False
    then have "snd (fst (quota_verdict d i g)) \<noteq> None" if "a = Inr i" for i
      using that by (metis prod.collapse)
    with v1_chain_stopped [OF a] show ?thesis by metis
  qed
qed

lemma v1_endpoints_clean:
  assumes "(path, ep) \<in> set (v1_endpoints d)" and "hx_request_id cx = Some i" "map_of (gw_active g) i = None"
  shows "map_of (gw_active (snd (snd (ep rq cx rw g)))) = map_of (gw_active g)"
proof -
  have free: "map_of (gw_active g) j = None" if "hx_request_id cx = Some j" for j
    using assms(2,3) that by simp
  from assms(1) consider "ep = chat_completions d" | "ep = handle_embeddings d" | "ep = handle_messages d"
    | "ep = handle_responses d" by (auto simp: v1_endpoints_def)
  then show ?thesis
    using free by cases (simp_all add: chat_endpoint.cleans embeddings_endpoint.cleans messages_endpoint.cleans
      responses_endpoint.cleans)
qed

lemma route_handler_cases:
  assumes "route_handler d method path = Some h"
  obtains "h = handle_health" | "h = v1_chain d handle_models"
    | ep where "h = v1_chain d ep" "(path, ep) \<in> set (v1_endpoints d)"
proof -
  have "h = handle_health \<or> h = v1_chain d handle_models
    \<or> path = ''/v1/chat/completions'' \<and> h = v1_chain d (chat_completions d)
    \<or> path = ''/v1/embeddings'' \<and> h = v1_chain d (handle_embeddings d)
    \<or> path = messages_path \<and> h = v1_chain d (handle_messages d)
    \<or> path = ''/v1/responses'' \<and> h = v1_chain d (handle_responses d)"
    using assms by (simp add: route_handler_def split: if_split_asm)
  then show thesis
    using that(1,2) that(3) [of "chat_completions d"] that(3) [of "handle_embeddings d"]
      that(3) [of "handle_messages d"] that(3) [of "handle_responses d"]
    by (elim disjE conjE) (simp_all add: v1_endpoints_def)
qed

end
