(* ===== verification/Config.thy ===== *)
theory Config
  imports Ponytail Response_Cache Breaker Authentication
begin

text \<open>
  The YAML configuration (\<^verbatim>\<open>internal/config/config.go\<close>) and its hot reload (\<^verbatim>\<open>watch.go\<close>): the
  settings and their defaults, the validation, and the watcher's event loop. Reading the file
  and decoding YAML into the defaults are outside: parameters of \<open>load_config\<close>. A port is an
  \<^verbatim>\<open>int\<close>; a timeout, like every duration, counts nanoseconds.
\<close>

section \<open>Settings\<close>

record server_config =
  sc_host :: string
  sc_port :: int
  sc_read_timeout :: duration
  sc_write_timeout :: duration
  sc_shutdown_timeout :: duration
  sc_max_body :: int

record auth_config =
  acf_enabled :: bool
  acf_api_keys :: "string list"

record admin_config =
  adc_enabled :: bool
  adc_token :: string
  adc_origins :: "string list"

record health_check_config =
  hcc_enabled :: bool
  hcc_interval :: duration
  hcc_timeout :: duration

record router_config =
  rcf_breaker :: breaker_policy
  rcf_health_check :: health_check_config

record cache_config =
  ccf_enabled :: bool
  ccf_ttl :: duration
  ccf_max_entries :: int

text \<open>The \<^verbatim>\<open>ponytail\<close> section has the fields of the optimiser's own configuration.\<close>

record config =
  cfg_server :: server_config
  cfg_database_path :: string
  cfg_auth :: auth_config
  cfg_retention_days :: int
  cfg_admin :: admin_config
  cfg_router :: router_config
  cfg_cache :: cache_config
  cfg_ponytail :: pconfig

definition default_config :: config where
  "default_config = \<lparr>
     cfg_server = \<lparr>sc_host = ''0.0.0.0'', sc_port = 8787, sc_read_timeout = 30 * second, sc_write_timeout = 0,
       sc_shutdown_timeout = 15 * second, sc_max_body = 4 * 2 ^ 20\<rparr>,
     cfg_database_path = ''data/router.db'',
     cfg_auth = \<lparr>acf_enabled = True, acf_api_keys = []\<rparr>,
     cfg_retention_days = 0,
     cfg_admin = \<lparr>adc_enabled = True, adc_token = [], adc_origins = [''http://localhost:3000'']\<rparr>,
     cfg_router = \<lparr>rcf_breaker = \<lparr>failure_threshold = 5, cooldown = 30 * second\<rparr>,
       rcf_health_check = \<lparr>hcc_enabled = True, hcc_interval = 30 * second, hcc_timeout = 5 * second\<rparr>\<rparr>,
     cfg_cache = \<lparr>ccf_enabled = False, ccf_ttl = 5 * minute, ccf_max_entries = 1024\<rparr>,
     cfg_ponytail = default_pconfig\<rparr>"

text \<open>\<^verbatim>\<open>net.JoinHostPort\<close> brackets a host that contains a colon.\<close>

definition server_address :: "server_config \<Rightarrow> string" where
  "server_address s =
     (if CHR '':'' \<in> set (sc_host s) then ''['' @ sc_host s @ '']:'' else sc_host s @ '':'') @ show_int (sc_port s)"

section \<open>Validation\<close>

datatype config_error =
    ReadFailed string string
  | ParseFailed string string
  | InvalidPort int
  | InvalidMaxBody int
  | InvalidRetention int
  | InvalidThreshold int
  | InvalidCooldown duration
  | InvalidInterval duration
  | InvalidProbeTimeout duration
  | InvalidTtl duration
  | InvalidMaxEntries int
  | MissingDatabase
  | MissingAdminToken
  | InvalidMode string
  | InvalidMinTokens int
  | InvalidMinMessages int
  | InvalidWindow int

fun config_error_text :: "config_error \<Rightarrow> string" where
  "config_error_text (ReadFailed p e) = ''config: read '' @ p @ '': '' @ e"
| "config_error_text (ParseFailed p e) = ''config: parse '' @ p @ '': '' @ e"
| "config_error_text (InvalidPort n) = ''config: invalid server.port '' @ show_int n"
| "config_error_text (InvalidMaxBody n) = ''config: invalid server.max_body_bytes '' @ show_int n"
| "config_error_text (InvalidRetention n) = ''config: invalid usage.retention_days '' @ show_int n"
| "config_error_text (InvalidThreshold n) = ''config: invalid router.breaker.failure_threshold '' @ show_int n"
| "config_error_text (InvalidCooldown d) = ''config: invalid router.breaker.cooldown '' @ duration_string d"
| "config_error_text (InvalidInterval d) = ''config: invalid router.health_check.interval '' @ duration_string d"
| "config_error_text (InvalidProbeTimeout d) = ''config: invalid router.health_check.timeout '' @ duration_string d"
| "config_error_text (InvalidTtl d) =
     ''config: cache.ttl must be positive when cache.enabled is true, got '' @ duration_string d"
| "config_error_text (InvalidMaxEntries n) =
     ''config: cache.max_entries must be positive when cache.enabled is true, got '' @ show_int n"
| "config_error_text MissingDatabase = ''config: database.path is required''"
| "config_error_text MissingAdminToken = ''config: admin.token is required when admin.enabled is true''"
| "config_error_text (InvalidMode m) =
     ''config: invalid ponytail.mode '' @ go_quote m @ '', must be conservative, balanced or aggressive''"
| "config_error_text (InvalidMinTokens n) = ''config: invalid ponytail.thresholds.min_input_tokens '' @ show_int n"
| "config_error_text (InvalidMinMessages n) = ''config: invalid ponytail.thresholds.min_messages '' @ show_int n"
| "config_error_text (InvalidWindow n) = ''config: invalid ponytail.protected_window '' @ show_int n"

definition known_modes :: "string list" where
  "known_modes = [''conservative'', ''balanced'', ''aggressive'']"

definition validate_ponytail :: "pconfig \<Rightarrow> config_error option" where
  "validate_ponytail p =
     (if \<not> pc_enabled p then None
      else if pc_mode p \<notin> set known_modes then Some (InvalidMode (pc_mode p))
      else if pc_min_tokens p < 0 then Some (InvalidMinTokens (pc_min_tokens p))
      else if pc_min_messages p < 0 then Some (InvalidMinMessages (pc_min_messages p))
      else if pc_window p < 0 then Some (InvalidWindow (pc_window p))
      else None)"

definition validate :: "config \<Rightarrow> config_error option" where
  "validate c =
     (let sv = cfg_server c; br = rcf_breaker (cfg_router c); hc = rcf_health_check (cfg_router c);
          ca = cfg_cache c
      in if sc_port sv \<le> 0 \<or> sc_port sv > 65535 then Some (InvalidPort (sc_port sv))
         else if sc_max_body sv < 0 then Some (InvalidMaxBody (sc_max_body sv))
         else if cfg_retention_days c < 0 then Some (InvalidRetention (cfg_retention_days c))
         else if failure_threshold br < 0 then Some (InvalidThreshold (failure_threshold br))
         else if cooldown br < 0 then Some (InvalidCooldown (cooldown br))
         else if hcc_interval hc < 0 then Some (InvalidInterval (hcc_interval hc))
         else if hcc_timeout hc < 0 then Some (InvalidProbeTimeout (hcc_timeout hc))
         else if ccf_enabled ca \<and> ccf_ttl ca \<le> 0 then Some (InvalidTtl (ccf_ttl ca))
         else if ccf_enabled ca \<and> ccf_max_entries ca \<le> 0 then Some (InvalidMaxEntries (ccf_max_entries ca))
         else if cfg_database_path c = [] then Some MissingDatabase
         else if adc_enabled (cfg_admin c) \<and> adc_token (cfg_admin c) = [] then Some MissingAdminToken
         else validate_ponytail (cfg_ponytail c))"

definition load_config ::
    "(string \<Rightarrow> string + string) \<Rightarrow> (string \<Rightarrow> config \<Rightarrow> string + config) \<Rightarrow> string \<Rightarrow> config_error + config"
where
  "load_config read_file unmarshal path = (case read_file path of
      Inl e \<Rightarrow> Inl (ReadFailed path e)
    | Inr bytes \<Rightarrow> (case unmarshal bytes default_config of
        Inl e \<Rightarrow> Inl (ParseFailed path e)
      | Inr cfg \<Rightarrow> (case validate cfg of Some e \<Rightarrow> Inl e | None \<Rightarrow> Inr cfg)))"

section \<open>What validation guarantees\<close>

text \<open>The rules, one per error: the value an error names breaks the rule it stands for.\<close>

fun violates :: "config \<Rightarrow> config_error \<Rightarrow> bool" where
  "violates c (InvalidPort n) \<longleftrightarrow> n = sc_port (cfg_server c) \<and> n \<notin> {1..65535}"
| "violates c (InvalidMaxBody n) \<longleftrightarrow> n = sc_max_body (cfg_server c) \<and> n < 0"
| "violates c (InvalidRetention n) \<longleftrightarrow> n = cfg_retention_days c \<and> n < 0"
| "violates c (InvalidThreshold n) \<longleftrightarrow> n = failure_threshold (rcf_breaker (cfg_router c)) \<and> n < 0"
| "violates c (InvalidCooldown d) \<longleftrightarrow> d = cooldown (rcf_breaker (cfg_router c)) \<and> d < 0"
| "violates c (InvalidInterval d) \<longleftrightarrow> d = hcc_interval (rcf_health_check (cfg_router c)) \<and> d < 0"
| "violates c (InvalidProbeTimeout d) \<longleftrightarrow> d = hcc_timeout (rcf_health_check (cfg_router c)) \<and> d < 0"
| "violates c (InvalidTtl d) \<longleftrightarrow> ccf_enabled (cfg_cache c) \<and> d = ccf_ttl (cfg_cache c) \<and> d \<le> 0"
| "violates c (InvalidMaxEntries n) \<longleftrightarrow> ccf_enabled (cfg_cache c) \<and> n = ccf_max_entries (cfg_cache c) \<and> n \<le> 0"
| "violates c MissingDatabase \<longleftrightarrow> cfg_database_path c = []"
| "violates c MissingAdminToken \<longleftrightarrow> adc_enabled (cfg_admin c) \<and> adc_token (cfg_admin c) = []"
| "violates c (InvalidMode m) \<longleftrightarrow> pc_enabled (cfg_ponytail c) \<and> m = pc_mode (cfg_ponytail c) \<and> m \<notin> set known_modes"
| "violates c (InvalidMinTokens n) \<longleftrightarrow> pc_enabled (cfg_ponytail c) \<and> n = pc_min_tokens (cfg_ponytail c) \<and> n < 0"
| "violates c (InvalidMinMessages n) \<longleftrightarrow> pc_enabled (cfg_ponytail c) \<and> n = pc_min_messages (cfg_ponytail c) \<and> n < 0"
| "violates c (InvalidWindow n) \<longleftrightarrow> pc_enabled (cfg_ponytail c) \<and> n = pc_window (cfg_ponytail c) \<and> n < 0"
| "violates c _ \<longleftrightarrow> False"

lemma validate_violates: "validate c = Some e \<Longrightarrow> violates c e"
  by (auto simp: validate_def validate_ponytail_def Let_def split: if_splits)

lemma violates_rejected: "violates c e \<Longrightarrow> validate c \<noteq> None"
  by (cases e) (auto simp: validate_def validate_ponytail_def Let_def)

text \<open>
  C31. Error behaviour. Loading a configuration fails with the file's error, with the decoder's, or
  with one that names a setting and its value that break the rule the error states; and it
  succeeds only when no rule is broken, with the decoded configuration itself.
\<close>

theorem config_errors_exact:
  "(case load_config read_file unmarshal path of
      Inr cfg \<Rightarrow> (\<exists>bytes. read_file path = Inr bytes \<and> unmarshal bytes default_config = Inr cfg
        \<and> (\<nexists>e. violates cfg e))
    | Inl (ReadFailed p e) \<Rightarrow> p = path \<and> read_file path = Inl e
    | Inl (ParseFailed p e) \<Rightarrow> p = path \<and> (\<exists>bytes. read_file path = Inr bytes \<and> unmarshal bytes default_config = Inl e)
    | Inl e \<Rightarrow> (\<exists>bytes cfg. read_file path = Inr bytes \<and> unmarshal bytes default_config = Inr cfg \<and> violates cfg e))"
proof (cases "read_file path")
  case (Inr bytes)
  show ?thesis
  proof (cases "unmarshal bytes default_config")
    case cfg: (Inr cfg)
    show ?thesis
    proof (cases "validate cfg")
      case None
      then have "\<not> violates cfg e" for e using violates_rejected by metis
      with None show ?thesis using Inr cfg by (auto simp: load_config_def)
    next
      case (Some e)
      then show ?thesis
        using validate_violates [OF Some] Inr cfg by (cases e) (auto simp: load_config_def)
    qed
  qed (simp add: load_config_def Inr)
qed (simp add: load_config_def)

text \<open>
  Safety. A configuration that validation accepts cannot leave a component unusable: an enabled
  cache has a life time and room, an enabled optimiser ends on every conversation, and the
  admin API lets nobody in without a token.
\<close>

theorem accepted_config_usable:
  assumes "load_config read_file unmarshal path = Inr c"
  shows "(ccf_enabled (cfg_cache c) \<longrightarrow> new_cache (ccf_ttl (cfg_cache c)) (ccf_max_entries (cfg_cache c)) \<noteq> None)
    \<and> (pc_enabled (cfg_ponytail c) \<longrightarrow> (\<forall>ms. process_messages (cfg_ponytail c) ms \<noteq> None))
    \<and> (\<forall>raw i. admin_authenticate (new_admin_service (adc_enabled (cfg_admin c)) (adc_token (cfg_admin c))) raw = Inr i
        \<longrightarrow> adc_enabled (cfg_admin c) \<and> raw \<noteq> [] \<and> raw = adc_token (cfg_admin c))"
proof -
  from assms have v: "validate c = None"
    by (auto simp: load_config_def split: sum.splits option.splits)
  have ok: "\<not> violates c e" for e using violates_rejected v by blast
  have "pc_enabled (cfg_ponytail c) \<Longrightarrow> 0 \<le> pc_window (cfg_ponytail c)"
    using ok [of "InvalidWindow (pc_window (cfg_ponytail c))"] by auto
  moreover have "0 \<le> pc_window p \<Longrightarrow> process_messages p ms \<noteq> None" for p ms
    using process_total by metis
  moreover have "ccf_enabled (cfg_cache c) \<Longrightarrow> 0 < ccf_ttl (cfg_cache c) \<and> 0 < ccf_max_entries (cfg_cache c)"
    using ok [of "InvalidTtl (ccf_ttl (cfg_cache c))"] ok [of "InvalidMaxEntries (ccf_max_entries (cfg_cache c))"]
    by auto
  ultimately show ?thesis
    by (auto simp: new_cache_def admin_authenticate_def new_admin_service_def set_token_def split: if_splits)
qed

text \<open>The optimiser's section is checked only when it is enabled, but a request may ask for the
  optimiser whatever the section says.\<close>

definition opted_out_config :: config where
  "opted_out_config = default_config\<lparr>cfg_admin := \<lparr>adc_enabled = False, adc_token = [], adc_origins = []\<rparr>,
     cfg_ponytail := eager_pconfig\<lparr>pc_enabled := False, pc_window := -1, pc_dedup := False\<rparr>\<rparr>"

lemma disabled_section_unchecked:
  "validate opted_out_config = None \<and> process_messages (cfg_ponytail opted_out_config) example_talk = None"
proof
  show "validate opted_out_config = None" by code_simp
  show "process_messages (cfg_ponytail opted_out_config) example_talk = None" by code_simp
qed

definition example_config :: config where
  "example_config = default_config\<lparr>cfg_admin := \<lparr>adc_enabled = True, adc_token = ''t'', adc_origins = []\<rparr>,
     cfg_ponytail := eager_pconfig\<rparr>"

lemma accepted_config_usable_witness:
  "process_messages eager_pconfig example_talk \<noteq> None"
proof -
  have v: "validate example_config = None" by code_simp
  have p: "cfg_ponytail example_config = eager_pconfig" by (simp add: example_config_def)
  have "pc_enabled eager_pconfig" by code_simp
  moreover have "load_config (\<lambda>_. Inr []) (\<lambda>_ _. Inr example_config) [] = Inr example_config"
    by (simp add: load_config_def v)
  note accepted_config_usable [OF this, unfolded p]
  ultimately show ?thesis by blast
qed

section \<open>Hot reload\<close>

text \<open>
  The watcher's loop, one input per turn of its \<^verbatim>\<open>select\<close>. The settle timer fires only while it is
  armed, and then the file is read again: the input carries what was read.
\<close>

datatype watch_input =
    WatchDone
  | FileEvent string bool
  | EventsClosed
  | WatchError
  | ErrorsClosed
  | SettleFired "string + string"

record watcher =
  wt_running :: bool
  wt_armed :: bool
  wt_delivered :: "config list"

definition new_watcher :: watcher where
  "new_watcher = \<lparr>wt_running = True, wt_armed = False, wt_delivered = []\<rparr>"

definition watch_step ::
    "(string \<Rightarrow> config \<Rightarrow> string + config) \<Rightarrow> string \<Rightarrow> watch_input \<Rightarrow> watcher \<Rightarrow> watcher"
where
  "watch_step unmarshal target i w =
     (if \<not> wt_running w then w
      else case i of
        WatchDone \<Rightarrow> w\<lparr>wt_running := False\<rparr>
      | FileEvent name chmod \<Rightarrow> if name \<noteq> target \<or> chmod then w else w\<lparr>wt_armed := True\<rparr>
      | EventsClosed \<Rightarrow> w\<lparr>wt_running := False\<rparr>
      | WatchError \<Rightarrow> w
      | ErrorsClosed \<Rightarrow> w\<lparr>wt_running := False\<rparr>
      | SettleFired file \<Rightarrow>
          if \<not> wt_armed w then w
          else let w = w\<lparr>wt_armed := False\<rparr> in
            (case load_config (\<lambda>_. file) unmarshal target of
               Inl _ \<Rightarrow> w
             | Inr cfg \<Rightarrow> w\<lparr>wt_delivered := wt_delivered w @ [cfg]\<rparr>))"

definition watch_run ::
    "(string \<Rightarrow> config \<Rightarrow> string + config) \<Rightarrow> string \<Rightarrow> watch_input list \<Rightarrow> watcher \<Rightarrow> watcher"
where
  "watch_run unmarshal target is w = fold (watch_step unmarshal target) is w"

text \<open>What \<^verbatim>\<open>main\<close> does with each new configuration: only the credentials change.\<close>

definition apply_reload :: "config \<Rightarrow> auth_service \<times> admin_service \<Rightarrow> auth_service \<times> admin_service" where
  "apply_reload cfg svs = (set_static_keys (acf_api_keys (cfg_auth cfg)) (fst svs),
     set_token (adc_token (cfg_admin cfg)) (snd svs))"

definition relevant_save :: "string \<Rightarrow> watch_input \<Rightarrow> bool" where
  "relevant_save target i \<longleftrightarrow> i = FileEvent target False"

lemma watch_step_facts:
  assumes "\<forall>cfg \<in> set (wt_delivered w). validate cfg = None"
    and "length (wt_delivered w) + (if wt_armed w then 1 else 0) \<le> n"
  shows "\<forall>cfg \<in> set (wt_delivered (watch_step u t i w)). validate cfg = None"
    and "length (wt_delivered (watch_step u t i w)) + (if wt_armed (watch_step u t i w) then 1 else 0)
      \<le> n + (if relevant_save t i then 1 else 0)"
  using assms
  by (auto simp: watch_step_def relevant_save_def load_config_def Let_def split: watch_input.split sum.splits option.splits)

lemma watch_run_facts:
  assumes "\<forall>cfg \<in> set (wt_delivered w). validate cfg = None"
    and "length (wt_delivered w) + (if wt_armed w then 1 else 0) \<le> n"
  shows "(\<forall>cfg \<in> set (wt_delivered (watch_run u t is w)). validate cfg = None)
    \<and> length (wt_delivered (watch_run u t is w)) \<le> n + length (filter (relevant_save t) is)"
  using assms
proof (induction "is" arbitrary: w n)
  case (Cons i "is")
  from Cons.IH [OF watch_step_facts [OF Cons.prems, of u t i]] show ?case
    by (auto simp: watch_run_def split: if_splits)
qed (simp add: watch_run_def)

text \<open>
  Safety. Whatever the file system reports, only valid configurations are delivered and no more
  of them than the file was saved; and the credentials in force are those of the last one
  delivered, or the old ones when every new file was rejected.
\<close>

theorem reload_keeps_last_valid:
  fixes u t "is"
  defines "ds \<equiv> wt_delivered (watch_run u t is new_watcher)"
  shows "(\<forall>cfg \<in> set ds. validate cfg = None)
    \<and> length ds \<le> length (filter (relevant_save t) is)
    \<and> (let svs' = fold apply_reload ds svs
       in if ds = [] then svs' = svs
          else (\<forall>raw. match_static (key_hash raw) (fst svs') \<longleftrightarrow>
                  key_hash raw \<in> key_hash ` set (acf_api_keys (cfg_auth (List.last ds))))
             \<and> ad_token (snd svs') = adc_token (cfg_admin (List.last ds)))"
proof -
  have facts: "\<forall>cfg \<in> set ds. validate cfg = None" "length ds \<le> length (filter (relevant_save t) is)"
    using watch_run_facts [of new_watcher 0 u t "is"] by (simp_all add: ds_def new_watcher_def)
  have "match_static (key_hash raw) (fst (fold apply_reload ds svs)) \<longleftrightarrow>
        key_hash raw \<in> key_hash ` set (acf_api_keys (cfg_auth (List.last ds)))"
    "ad_token (snd (fold apply_reload ds svs)) = adc_token (cfg_admin (List.last ds))" if "ds \<noteq> []" for raw
    using that by (cases ds rule: rev_cases; simp add: apply_reload_def reload_replaces_static set_token_def)+
  with facts show ?thesis by (simp add: Let_def)
qed

end
