(* ===== verification/Go_Url.thy ===== *)
theory Go_Url
  imports Go_Strings
begin

text \<open>
  The part of Go's \<^verbatim>\<open>net/url\<close> that the router uses: \<^verbatim>\<open>Parse\<close>, \<^verbatim>\<open>URL.String\<close>, \<^verbatim>\<open>URL.Port\<close>,
  \<^verbatim>\<open>UserPassword\<close> and \<^verbatim>\<open>PathUnescape\<close>. IPv6 zones (\<^verbatim>\<open>%25\<close> inside brackets) are not told apart
  from the rest of a host.
\<close>

section \<open>Escapes\<close>

datatype url_part = PathPart | HostPart | UserPart | FragmentPart | SegmentPart

definition unreserved :: "char \<Rightarrow> bool" where
  "unreserved c \<longleftrightarrow> is_upper c \<or> is_lower c \<or> is_digit c"

fun should_escape :: "url_part \<Rightarrow> char \<Rightarrow> bool" where
  "should_escape m c =
     (if unreserved c then False
      else if m = HostPart \<and> c \<in> set (''!$&'' @ [CHR 0x27] @ ''()*+,;=:[]<>'' @ [CHR 0x22]) then False
      else if c \<in> set ''-_.~'' then False
      else if c \<in> set ''$&+,/:;=?@'' then
        (case m of
           PathPart \<Rightarrow> c = CHR ''?''
         | SegmentPart \<Rightarrow> c \<in> set ''/;,?''
         | UserPart \<Rightarrow> c \<in> set ''@/?:''
         | FragmentPart \<Rightarrow> False
         | HostPart \<Rightarrow> True)
      else \<not> (m = FragmentPart \<and> c \<in> set ''!()*''))"

definition unhex :: "char \<Rightarrow> nat option" where
  "unhex c =
     (if is_digit c then Some (of_char c - 48)
      else if CHR ''a'' \<le> c \<and> c \<le> CHR ''f'' then Some (of_char c - 87)
      else if CHR ''A'' \<le> c \<and> c \<le> CHR ''F'' then Some (of_char c - 55)
      else None)"

definition upper_hex :: "nat \<Rightarrow> char" where
  "upper_hex n = (if n < 10 then char_of (48 + n) else char_of (55 + n))"

definition escape_char :: "url_part \<Rightarrow> char \<Rightarrow> string" where
  "escape_char m c =
     (if should_escape m c
      then [CHR ''%'', upper_hex (of_char c div 16), upper_hex (of_char c mod 16)] else [c])"

definition url_escape :: "url_part \<Rightarrow> string \<Rightarrow> string" where
  "url_escape m s = concat (map (escape_char m) s)"

text \<open>In a host only the bytes above ASCII, and a percent sign itself, may be written as escapes.\<close>

fun url_unescape :: "url_part \<Rightarrow> string \<Rightarrow> string option" where
  "url_unescape m [] = Some []"
| "url_unescape m (c # s) =
     (if c = CHR ''%'' then
        (case s of
           a # b # t \<Rightarrow>
             (case (unhex a, unhex b) of
                (Some x, Some y) \<Rightarrow>
                  if m = HostPart \<and> x < 8 \<and> \<not> (a = CHR ''2'' \<and> b = CHR ''5'') then None
                  else map_option (Cons (char_of (16 * x + y))) (url_unescape m t)
              | _ \<Rightarrow> None)
         | _ \<Rightarrow> None)
      else if m = HostPart \<and> c < CHR 0x80 \<and> should_escape m c then None
      else map_option (Cons c) (url_unescape m s))"

section \<open>URLs\<close>

record go_url =
  ul_scheme :: string
  ul_opaque :: string
  ul_user :: "(string \<times> string option) option"
  ul_host :: string
  ul_path :: string
  ul_raw_path :: string
  ul_omit_host :: bool
  ul_force_query :: bool
  ul_raw_query :: string
  ul_fragment :: string
  ul_raw_fragment :: string

definition empty_url :: go_url where
  "empty_url = \<lparr>ul_scheme = [], ul_opaque = [], ul_user = None, ul_host = [], ul_path = [], ul_raw_path = [],
     ul_omit_host = False, ul_force_query = False, ul_raw_query = [], ul_fragment = [], ul_raw_fragment = []\<rparr>"

text \<open>The scheme and the rest; \<open>None\<close> is a missing scheme before a colon.\<close>

fun scheme_end :: "bool \<Rightarrow> string \<Rightarrow> nat option" where
  "scheme_end first [] = None"
| "scheme_end first (c # s) =
     (if is_upper c \<or> is_lower c then map_option Suc (scheme_end False s)
      else if is_digit c \<or> c \<in> set ''+-.'' then (if first then None else map_option Suc (scheme_end False s))
      else if c = CHR '':'' then Some 0
      else None)"

definition get_scheme :: "string \<Rightarrow> (string \<times> string) option" where
  "get_scheme s = (case scheme_end True s of
      None \<Rightarrow> Some ([], s)
    | Some i \<Rightarrow> if i = 0 then None else Some (take i s, drop (Suc i) s))"

definition valid_optional_port :: "string \<Rightarrow> bool" where
  "valid_optional_port p \<longleftrightarrow> p = [] \<or> (hd p = CHR '':'' \<and> (\<forall>c \<in> set (tl p). is_digit c))"

definition valid_userinfo :: "string \<Rightarrow> bool" where
  "valid_userinfo s \<longleftrightarrow> (\<forall>c \<in> set s. unreserved c
     \<or> c \<in> set (''-._:~!$&'' @ [CHR 0x27] @ ''()*+,;=%@''))"

text \<open>Everything from the last occurrence of a character on, or nothing.\<close>

definition from_last :: "char \<Rightarrow> string \<Rightarrow> string" where
  "from_last c s = (if c \<in> set s then c # rev (takeWhile (\<lambda>x. x \<noteq> c) (rev s)) else [])"

definition before_last :: "char \<Rightarrow> string \<Rightarrow> string" where
  "before_last c s = take (length s - length (from_last c s)) s"

definition parse_host :: "string \<Rightarrow> string option" where
  "parse_host host =
     (if has_prefix host ''['' then
        (if CHR '']'' \<notin> set host then None
         else if valid_optional_port (tl (from_last CHR '']'' host)) then url_unescape HostPart host else None)
      else if CHR '':'' \<in> set host \<and> \<not> valid_optional_port (from_last CHR '':'' host) then None
      else url_unescape HostPart host)"

definition parse_authority :: "string \<Rightarrow> ((string \<times> string option) option \<times> string) option" where
  "parse_authority a =
     (if CHR ''@'' \<notin> set a then map_option (Pair None) (parse_host a)
      else (case parse_host (tl (from_last CHR ''@'' a)) of
          None \<Rightarrow> None
        | Some host \<Rightarrow>
            let info = before_last CHR ''@'' a in
            if \<not> valid_userinfo info then None
            else (case cut info '':'' of
                None \<Rightarrow> map_option (\<lambda>u. (Some (u, None), host)) (url_unescape UserPart info)
              | Some (u, p) \<Rightarrow>
                  (case (url_unescape UserPart u, url_unescape UserPart p) of
                     (Some u, Some p) \<Rightarrow> Some (Some (u, Some p), host)
                   | _ \<Rightarrow> None))))"

definition set_path :: "string \<Rightarrow> go_url \<Rightarrow> go_url option" where
  "set_path p u = map_option (\<lambda>path. u\<lparr>ul_path := path,
     ul_raw_path := (if url_escape PathPart path = p then [] else p)\<rparr>) (url_unescape PathPart p)"

definition split_query :: "string \<Rightarrow> bool \<times> string \<times> string" where
  "split_query s =
     (if has_suffix s ''?'' \<and> length (filter (\<lambda>c. c = CHR ''?'') s) = 1 then (True, butlast s, [])
      else (case cut s ''?'' of None \<Rightarrow> (False, s, []) | Some (a, q) \<Rightarrow> (False, a, q)))"

definition parse_rest :: "string \<Rightarrow> go_url \<Rightarrow> go_url option" where
  "parse_rest rest u =
     (if \<not> has_prefix rest ''/'' \<and> ul_scheme u \<noteq> [] then Some (u\<lparr>ul_opaque := rest\<rparr>)
      else if \<not> has_prefix rest ''/'' \<and> CHR '':'' \<in> set (takeWhile (\<lambda>c. c \<noteq> CHR ''/'') rest) then None
      else if (ul_scheme u \<noteq> [] \<or> \<not> has_prefix rest ''///'') \<and> has_prefix rest ''//'' then
        (let a = drop 2 rest;
             authority = takeWhile (\<lambda>c. c \<noteq> CHR ''/'') a
         in case parse_authority authority of
              None \<Rightarrow> None
            | Some (user, host) \<Rightarrow>
                set_path (drop (length authority) a) (u\<lparr>ul_user := user, ul_host := host\<rparr>))
      else set_path rest (u\<lparr>ul_omit_host := (ul_scheme u \<noteq> [] \<and> has_prefix rest ''/'')\<rparr>))"

definition parse_url_part :: "string \<Rightarrow> go_url option" where
  "parse_url_part s =
     (if list_ex (\<lambda>c. c < CHR '' '' \<or> c = CHR 0x7F) s then None
      else if s = ''*'' then Some (empty_url\<lparr>ul_path := ''*''\<rparr>)
      else (case get_scheme s of
          None \<Rightarrow> None
        | Some (scheme, rest) \<Rightarrow>
            (case split_query rest of (force, rest, q) \<Rightarrow>
               parse_rest rest (empty_url\<lparr>ul_scheme := to_lower scheme, ul_force_query := force, ul_raw_query := q\<rparr>))))"

definition url_parse :: "string \<Rightarrow> go_url option" where
  "url_parse s = (case cut s ''#'' of
      None \<Rightarrow> parse_url_part s
    | Some (a, f) \<Rightarrow> (case parse_url_part a of
        None \<Rightarrow> None
      | Some u \<Rightarrow> if f = [] then Some u
          else map_option (\<lambda>fr. u\<lparr>ul_fragment := fr,
            ul_raw_fragment := (if url_escape FragmentPart fr = f then [] else f)\<rparr>)
              (url_unescape FragmentPart f)))"

definition user_string :: "string \<times> string option \<Rightarrow> string" where
  "user_string u = (case u of (name, pw) \<Rightarrow>
     if name = [] \<and> (pw = None \<or> pw = Some []) then []
     else url_escape UserPart name @ (case pw of None \<Rightarrow> [] | Some p \<Rightarrow> '':'' @ url_escape UserPart p))"

text \<open>A raw path or fragment is only ever set by the parser, and then it is a valid encoding.\<close>

definition url_string :: "go_url \<Rightarrow> string" where
  "url_string u =
     (let scheme = (if ul_scheme u \<noteq> [] then ul_scheme u @ '':'' else []);
          front = (if ul_scheme u \<noteq> [] \<or> ul_host u \<noteq> [] \<or> ul_user u \<noteq> None then
              (if ul_omit_host u \<and> ul_host u = [] \<and> ul_user u = None then []
               else (if ul_host u \<noteq> [] \<or> ul_path u \<noteq> [] \<or> ul_user u \<noteq> None then ''//'' else [])
                 @ (case ul_user u of None \<Rightarrow> [] | Some i \<Rightarrow> user_string i @ ''@'')
                 @ url_escape HostPart (ul_host u)) else []);
          path = (if ul_raw_path u \<noteq> [] then ul_raw_path u
                  else if ul_path u = ''*'' then ''*'' else url_escape PathPart (ul_path u));
          slash = (if path \<noteq> [] \<and> hd path \<noteq> CHR ''/'' \<and> ul_host u \<noteq> [] then ''/'' else []);
          dot = (if scheme @ front @ slash = [] \<and> CHR '':'' \<in> set (takeWhile (\<lambda>c. c \<noteq> CHR ''/'') path)
                 then ''./'' else []);
          rest = (if ul_opaque u \<noteq> [] then ul_opaque u else front @ slash @ dot @ path);
          query = (if ul_force_query u \<or> ul_raw_query u \<noteq> [] then ''?'' @ ul_raw_query u else []);
          fragment = (if ul_fragment u = [] then [] else ''#'' @
             (if ul_raw_fragment u \<noteq> [] then ul_raw_fragment u else url_escape FragmentPart (ul_fragment u)))
      in scheme @ rest @ query @ fragment)"

definition url_port :: "go_url \<Rightarrow> string" where
  "url_port u =
     (let h = (if CHR '':'' \<in> set (ul_host u) \<and> valid_optional_port (from_last CHR '':'' (ul_host u))
               then tl (from_last CHR '':'' (ul_host u)) else []) in h)"

definition path_unescape :: "string \<Rightarrow> string option" where
  "path_unescape s = url_unescape SegmentPart s"

end
