(* ===== verification/Loader.thy ===== *)
theory Loader
  imports Go_Url Gateway Storage_Memory
begin

text \<open>
  The loader (\<^verbatim>\<open>internal/router/loader.go\<close>), which publishes the stored routing records as the
  engine's table, and the proxy pool (\<^verbatim>\<open>proxypool.go\<close>). A client here is what
  \<^verbatim>\<open>NewProviderClient\<close> decides: the dialect, its options and how it dials. The three dialects
  keep one shape, the shared HTTP provider.
\<close>

section \<open>The proxy pool\<close>

record proxy_pool =
  pp_urls :: "go_url list"
  pp_next :: u64

definition pool_url :: "proxy \<Rightarrow> go_url option" where
  "pool_url rec =
     (if \<not> px_enabled rec then None
      else (case url_parse (px_url rec) of
          None \<Rightarrow> None
        | Some u \<Rightarrow> if ul_scheme u = [] \<or> ul_host u = [] then None else Some u))"

definition new_proxy_pool :: "proxy list \<Rightarrow> proxy_pool" where
  "new_proxy_pool recs = \<lparr>pp_urls = List.map_filter pool_url recs, pp_next = 0\<rparr>"

definition pool_size :: "proxy_pool option \<Rightarrow> int" where
  "pool_size p = (case p of None \<Rightarrow> 0 | Some p \<Rightarrow> int (length (pp_urls p)))"

definition pool_pick :: "proxy_pool \<Rightarrow> go_url option \<times> proxy_pool" where
  "pool_pick p =
     (if pool_size (Some p) = 0 then (None, p)
      else (Some (pp_urls p ! (unat (pp_next p) mod length (pp_urls p))), p\<lparr>pp_next := pp_next p + 1\<rparr>))"

text \<open>How a client connects: directly with bounded phases, or through the next proxy.\<close>

datatype transport =
    DirectTransport duration
  | PoolTransport

definition pool_transport :: "proxy_pool option \<Rightarrow> transport option" where
  "pool_transport p = (if pool_size p = 0 then None else Some PoolTransport)"

interpretation proxy_rotation: rotation pool_pick pp_next "\<lambda>p. map Some (pp_urls p)" "2 ^ 64"
  by unfold_locales (auto simp: pool_pick_def pool_size_def split: if_splits)

section \<open>Clients\<close>

datatype dialect = CommandCodeClient | AnthropicClient | OpenAIClient

record client =
  cl_dialect :: dialect
  cl_provider :: http_provider
  cl_transport :: transport

definition is_command_code_record :: "provider_record \<Rightarrow> bool" where
  "is_command_code_record rec \<longleftrightarrow> pr_name rec = ''commandcode'' \<or> pr_name rec = ''cmc''
     \<or> pr_catalog_id rec = ''commandcode'' \<or> pr_catalog_id rec = ''cmc''"

definition bearer :: "string \<Rightarrow> string" where
  "bearer t = (if t = [] \<or> has_prefix t ''Bearer '' then t else ''Bearer '' @ t)"

definition new_command_code :: "options \<Rightarrow> http_provider" where
  "new_command_code opts =
     (let opts = (if op_name opts = [] then opts\<lparr>op_name := ''commandcode''\<rparr> else opts);
          opts = (if op_base_url opts = [] then opts\<lparr>op_base_url := ''https://api.commandcode.ai''\<rparr> else opts)
      in new_http_provider opts [])"

definition new_provider_client :: "provider_record \<Rightarrow> proxy_pool \<Rightarrow> client" where
  "new_provider_client rec pool =
     (let conn = (if pr_timeout rec \<le> 0 then 30 * second else pr_timeout rec);
          transport = (if pr_use_proxy_pool rec
            then (case pool_transport (Some pool) of None \<Rightarrow> DirectTransport conn | Some t \<Rightarrow> t)
            else DirectTransport conn);
          opts = \<lparr>op_name = pr_name rec, op_base_url = pr_base_url rec, op_api_key = pr_api_key rec,
            op_api_keys = pr_api_keys rec, op_api_key_method = pr_api_key_method rec, op_auth_header = []\<rparr>
      in if is_command_code_record rec
         then \<lparr>cl_dialect = CommandCodeClient, cl_provider = new_command_code opts, cl_transport = transport\<rparr>
         else let opts = (if pr_group rec = group_oauth
                then opts\<lparr>op_auth_header := ''Authorization'', op_api_key := bearer (pr_api_key rec),
                          op_api_keys := map bearer (pr_api_keys rec)\<rparr> else opts)
           in if normalize_kind (pr_kind rec) = kind_anthropic
              then \<lparr>cl_dialect = AnthropicClient, cl_provider = new_anthropic opts, cl_transport = transport\<rparr>
              else \<lparr>cl_dialect = OpenAIClient, cl_provider = new_openai opts, cl_transport = transport\<rparr>)"

definition client_name :: "client \<Rightarrow> string" where
  "client_name c = op_name (hp_opts (cl_provider c))"

section \<open>Loading\<close>

definition build_registry :: "provider_record list \<Rightarrow> proxy_pool \<Rightarrow> client registry" where
  "build_registry recs pool =
     new_registry client_name (map (\<lambda>r. new_provider_client r pool) (filter pr_enabled recs))"

definition override_policy :: "breaker_policy \<Rightarrow> provider_record \<Rightarrow> breaker_policy option" where
  "override_policy base rec =
     (if pr_breaker_threshold rec = None \<and> pr_breaker_cooldown rec = None then None
      else Some \<lparr>failure_threshold = (case pr_breaker_threshold rec of None \<Rightarrow> failure_threshold base | Some t \<Rightarrow> t),
                 cooldown = (case pr_breaker_cooldown rec of None \<Rightarrow> cooldown base | Some d \<Rightarrow> d)\<rparr>)"

definition breaker_overrides :: "provider_record list \<Rightarrow> breaker_policy \<Rightarrow> (string, breaker_policy) gomap" where
  "breaker_overrides recs base =
     fold (\<lambda>rec m. case override_policy base rec of None \<Rightarrow> m | Some p \<Rightarrow> map_put (pr_name rec) p m) recs []"

text \<open>The two publications of \<^verbatim>\<open>Load\<close>, once the four tables have been read.\<close>

definition publish ::
    "provider_record list \<Rightarrow> model_alias list \<Rightarrow> combo list \<Rightarrow> proxy list \<Rightarrow>
     client routes \<times> engine \<Rightarrow> client routes \<times> engine"
where
  "publish providers models combos proxies re =
     (reload models combos (build_registry providers (new_proxy_pool proxies)),
      (snd re)\<lparr>eg_breakers := set_overrides
         (breaker_overrides providers (bs_policy (eg_breakers (snd re)))) (eg_breakers (snd re))\<rparr>)"

section \<open>What is published\<close>

lemma new_client_name:
  assumes "pr_name rec \<noteq> []"
  shows "client_name (new_provider_client rec pool) = pr_name rec"
  using assms
  by (auto simp: client_name_def new_provider_client_def new_command_code_def new_anthropic_def new_openai_def
      new_http_provider_def Let_def)

lemma fold_registry:
  "map_of (fold (\<lambda>p m. map_put (name_of p) p m) ps m0) n =
     (case List.find (\<lambda>p. name_of p = n) (rev ps) of None \<Rightarrow> map_of m0 n | Some p \<Rightarrow> Some p)"
  by (induction ps arbitrary: m0 rule: rev_induct) (auto split: option.split)

lemma find_rev_unique:
  assumes "distinct (map f xs)" and "x \<in> set xs"
  shows "List.find (\<lambda>y. f y = f x) (rev xs) = Some x"
proof -
  have "\<exists>y. List.find (\<lambda>y. f y = f x) (rev xs) = Some y"
    using assms(2) by (cases "List.find (\<lambda>y. f y = f x) (rev xs)") (auto simp: find_None_iff)
  then obtain y where y: "List.find (\<lambda>y. f y = f x) (rev xs) = Some y" ..
  then have "f y = f x" "y \<in> set xs" by (auto simp: find_Some_iff) (metis length_rev nth_mem set_rev)
  with assms y show ?thesis by (auto dest: inj_onD simp: distinct_map)
qed

lemma overrides_lookup:
  assumes "distinct (map pr_name recs)"
  shows "map_of (breaker_overrides recs base) n =
    (case List.find (\<lambda>r. pr_name r = n) recs of None \<Rightarrow> None | Some r \<Rightarrow> override_policy base r)"
proof -
  have "map_of (fold (\<lambda>rec m. case override_policy base rec of None \<Rightarrow> m | Some p \<Rightarrow> map_put (pr_name rec) p m) recs m0) n =
    (case List.find (\<lambda>r. pr_name r = n) recs of None \<Rightarrow> map_of m0 n
      | Some r \<Rightarrow> (case override_policy base r of None \<Rightarrow> map_of m0 n | Some p \<Rightarrow> Some p))" for m0
    using assms
  proof (induction recs arbitrary: m0)
    case (Cons r recs)
    have none: "List.find (\<lambda>s. pr_name s = pr_name r) recs = None"
      using Cons.prems by (auto simp: find_None_iff image_iff)
    show ?case
      using Cons.IH [of "case override_policy base r of None \<Rightarrow> m0 | Some p \<Rightarrow> map_put (pr_name r) p m0"] Cons.prems none
      by (auto split: option.splits)
  qed simp
  from this [of "[]"] show ?thesis by (auto simp: breaker_overrides_def split: option.split)
qed

lemma registry_lookup:
  assumes "distinct (map pr_name recs)" and "[] \<notin> pr_name ` set recs"
  shows "map_of (build_registry recs pool) n =
    (case List.find (\<lambda>r. pr_name r = n) recs of
       Some r \<Rightarrow> if pr_enabled r then Some (new_provider_client r pool) else None | None \<Rightarrow> None)"
proof -
  let ?on = "filter pr_enabled recs" and ?mk = "\<lambda>r. new_provider_client r pool"
  have names: "client_name (?mk r) = pr_name r" if "r \<in> set recs" for r
    using assms(2) that by (intro new_client_name) (metis imageI)
  have find_map: "List.find (\<lambda>p. client_name p = n) (rev (map ?mk rs)) =
      map_option ?mk (List.find (\<lambda>r. pr_name r = n) (rev rs))" if "set rs \<subseteq> set recs" for rs
    using that by (induction rs rule: rev_induct) (auto simp: names)
  show ?thesis
  proof (cases "List.find (\<lambda>r. pr_name r = n) recs")
    case None
    then have "List.find (\<lambda>r. pr_name r = n) (rev ?on) = None" by (auto simp: find_None_iff)
    with None find_map [of ?on] show ?thesis by (simp add: build_registry_def new_registry_def fold_registry)
  next
    case (Some r)
    then have r: "r \<in> set recs" "pr_name r = n" by (auto simp: find_Some_iff)
    have d: "distinct (map pr_name ?on)" using assms(1) by (rule distinct_map_filter)
    have "List.find (\<lambda>r. pr_name r = n) (rev ?on) = (if pr_enabled r then Some r else None)"
    proof (cases "pr_enabled r")
      case True
      with r find_rev_unique [OF d, of r] show ?thesis by simp
    next
      case False
      then have "pr_name s \<noteq> n" if "s \<in> set ?on" for s
        using that r assms(1) by (auto dest: inj_onD simp: distinct_map)
      then have "List.find (\<lambda>r. pr_name r = n) (rev ?on) = None" by (auto simp: find_None_iff)
      with False show ?thesis by simp
    qed
    with Some find_map [of ?on] show ?thesis
      by (simp add: build_registry_def new_registry_def fold_registry)
  qed
qed

end
