(* ===== verification/Go_Time.thy ===== *)
theory Go_Time
  imports Quota Openai_Types
begin

text \<open>
  Instants as text, the formats of Go's \<^verbatim>\<open>time\<close> package that the router writes: \<^verbatim>\<open>RFC3339\<close>, its
  JSON variant with a fraction, and plain dates. Every instant is taken in UTC, which is how
  the stored ones are read back.
\<close>

definition pad_zero :: "nat \<Rightarrow> int \<Rightarrow> string" where
  "pad_zero n i = (let s = show_nat (nat i) in replicate (n - length s) (CHR ''0'') @ s)"

definition month_of :: "int \<Rightarrow> int \<Rightarrow> nat" where
  "month_of y yd = length (filter (\<lambda>m. m \<le> yd) (month_days y))"

definition date_string :: "instant \<Rightarrow> string" where
  "date_string t =
     (let d = t div day; y = year_of d; yd = d - year_day y; m = month_of y yd
      in pad_zero 4 y @ ''-'' @ pad_zero 2 (int m) @ ''-'' @ pad_zero 2 (yd - month_days y ! (m - 1) + 1))"

definition clock_string :: "instant \<Rightarrow> string" where
  "clock_string t =
     (let s = t mod day div second
      in pad_zero 2 (s div 3600) @ '':'' @ pad_zero 2 (s div 60 mod 60) @ '':'' @ pad_zero 2 (s mod 60))"

definition rfc3339 :: "instant \<Rightarrow> string" where
  "rfc3339 t = date_string t @ ''T'' @ clock_string t @ ''Z''"

definition json_time :: "instant \<Rightarrow> json" where
  "json_time t = json_of_string
     (date_string t @ ''T'' @ clock_string t @ fraction_digits 9 (nat (t mod second)) @ ''Z'')"

text \<open>The zero time and the start of the Unix epoch.\<close>

lemma example_times:
  "rfc3339 0 = ''0001-01-01T00:00:00Z''"
  "rfc3339 (62135596800 * second) = ''1970-01-01T00:00:00Z''"
  "rfc3339 ((62135596800 + 951782399) * second) = ''2000-02-28T23:59:59Z''"
  by code_simp+

end
