(* ===== verification/Admin_State.thy ===== *)
theory Admin_State
  imports Loader Go_Time
begin

text \<open>
  What the handlers of the admin API (\<^verbatim>\<open>internal/api/admin.go\<close>) share: their state, calls of the
  store that may fail, early returns, and the decoding of bodies and path parameters.

  The store is the in-memory one; its usage and trace logs are those the engine writes to.
  Whether the next calls of the store fail with a driver error is a script, \<open>am_faults\<close>: a failed
  call has no effect. Log lines are left out.
\<close>

section \<open>State\<close>

record 'w admin =
  am_gateway :: "(client, 'w) gateway"
  am_memory :: memory
  am_faults :: "bool list"

record 'w admin_env =
  ae_deps :: "(client, 'w) deps"
  ae_rand :: "'w entropy"
  ae_uuid :: "'w \<Rightarrow> string \<times> 'w"
  ae_models :: "client \<Rightarrow> 'w \<Rightarrow> (gerror + upstream_model list) \<times> 'w"
  ae_streams :: rat

text \<open>A request with the path and query parameters that the router and \<^verbatim>\<open>net/url\<close> took from it.\<close>

record admin_call =
  ca_request :: Gateway.http_request
  ca_param :: "string \<Rightarrow> string"
  ca_query :: "string \<Rightarrow> string"

definition am_engine :: "'w admin \<Rightarrow> engine" where "am_engine s = gw_engine (am_gateway s)"
definition am_world :: "'w admin \<Rightarrow> 'w" where "am_world s = gw_world (am_gateway s)"
definition am_routes :: "'w admin \<Rightarrow> client routes" where "am_routes s = gw_routes (am_gateway s)"

definition on_gateway :: "((client, 'w) gateway \<Rightarrow> (client, 'w) gateway) \<Rightarrow> 'w admin \<Rightarrow> 'w admin" where
  "on_gateway f s = s\<lparr>am_gateway := f (am_gateway s)\<rparr>"

definition set_world :: "'w \<Rightarrow> 'w admin \<Rightarrow> 'w admin" where
  "set_world w = on_gateway (\<lambda>g. g\<lparr>gw_world := w\<rparr>)"

definition admin_now :: "'w admin_env \<Rightarrow> 'w admin \<Rightarrow> instant" where
  "admin_now env s = ev_now (dp_env (ae_deps env)) (am_world s)"

definition the_store :: "'w admin \<Rightarrow> memory" where
  "the_store s = (am_memory s)\<lparr>
     mem_usage := (case eg_usage (am_engine s) of None \<Rightarrow> mem_usage (am_memory s) | Some u \<Rightarrow> u),
     mem_traces := (case eg_traces (am_engine s) of None \<Rightarrow> mem_traces (am_memory s) | Some t \<Rightarrow> t)\<rparr>"

definition put_store :: "memory \<Rightarrow> 'w admin \<Rightarrow> 'w admin" where
  "put_store m s = on_gateway (\<lambda>g. g\<lparr>gw_engine := (gw_engine g)\<lparr>
       eg_usage := map_option (\<lambda>_. mem_usage m) (eg_usage (gw_engine g)),
       eg_traces := map_option (\<lambda>_. mem_traces m) (eg_traces (gw_engine g))\<rparr>\<rparr>) (s\<lparr>am_memory := m\<rparr>)"

section \<open>Answers\<close>

datatype answer =
    Answer int json
  | NoContent

definition write_answer :: "answer \<Rightarrow> response_writer \<Rightarrow> response_writer" where
  "write_answer a rw = (case a of
      Answer status v \<Rightarrow> write_json status v rw
    | NoContent \<Rightarrow> rw_write_header 204 rw)"

definition refuse :: "int \<Rightarrow> string \<Rightarrow> string \<Rightarrow> answer" where
  "refuse status kind msg =
     Answer status (encode_error \<lparr>eb_message = msg, eb_type = kind, eb_param = [], eb_code = []\<rparr>)"

definition bad_request :: "string \<Rightarrow> answer" where
  "bad_request msg = refuse 400 ''invalid_request_error'' msg"

definition required_field :: "string \<Rightarrow> answer" where
  "required_field name = bad_request (''Field '' @ quoted name @ '' is required.'')"

definition conflict :: "string \<Rightarrow> answer" where
  "conflict msg = refuse 409 ''invalid_request_error'' msg"

fun status_of :: "answer \<Rightarrow> int" where
  "status_of (Answer status _) = status"
| "status_of NoContent = 204"

section \<open>Steps that may return early\<close>

type_synonym ('a, 'w) act = "'w admin \<Rightarrow> (answer + 'a) \<times> 'w admin"

definition give :: "'a \<Rightarrow> ('a, 'w) act" where "give x s = (Inr x, s)"
definition stop :: "answer \<Rightarrow> ('a, 'w) act" where "stop a s = (Inl a, s)"

definition and_then :: "('a, 'w) act \<Rightarrow> ('a \<Rightarrow> ('b, 'w) act) \<Rightarrow> ('b, 'w) act" where
  "and_then m f s = (case m s of (Inl a, s) \<Rightarrow> (Inl a, s) | (Inr x, s) \<Rightarrow> f x s)"

definition ensure :: "bool \<Rightarrow> answer \<Rightarrow> (unit, 'w) act" where
  "ensure b a = (if b then give () else stop a)"

definition look :: "('w admin \<Rightarrow> 'a) \<Rightarrow> ('a, 'w) act" where "look f s = (Inr (f s), s)"
definition change :: "('w admin \<Rightarrow> 'w admin) \<Rightarrow> (unit, 'w) act" where "change f s = (Inr (), f s)"

text \<open>A handler ends with an answer on every path.\<close>

definition handle :: "(answer, 'w) act \<Rightarrow> 'w admin \<Rightarrow> answer \<times> 'w admin" where
  "handle m s = (case m s of (Inl a, s) \<Rightarrow> (a, s) | (Inr a, s) \<Rightarrow> (a, s))"

section \<open>Calls of the store\<close>

datatype db_error = Stored storage_error | DriverFailure

type_synonym 'a store_op = "memory \<Rightarrow> (storage_error + 'a) \<times> memory"

definition reading :: "(memory \<Rightarrow> storage_error + 'a) \<Rightarrow> 'a store_op" where "reading f m = (f m, m)"
definition listing :: "(memory \<Rightarrow> 'a) \<Rightarrow> 'a store_op" where "listing f m = (Inr (f m), m)"
definition writing :: "(memory \<Rightarrow> memory) \<Rightarrow> unit store_op" where "writing f m = (Inr (), f m)"

definition updating :: "(memory \<Rightarrow> storage_error option \<times> memory) \<Rightarrow> unit store_op" where
  "updating f m = (case f m of (Some e, m) \<Rightarrow> (Inl e, m) | (None, m) \<Rightarrow> (Inr (), m))"

definition db :: "'a store_op \<Rightarrow> 'w admin \<Rightarrow> (db_error + 'a) \<times> 'w admin" where
  "db op s = (let s' = s\<lparr>am_faults := drop 1 (am_faults s)\<rparr> in
     if am_faults s \<noteq> [] \<and> hd (am_faults s) then (Inl DriverFailure, s')
     else (case op (the_store s) of
         (Inl e, m) \<Rightarrow> (Inl (Stored e), put_store m s')
       | (Inr x, m) \<Rightarrow> (Inr x, put_store m s')))"

definition fail :: "db_error \<Rightarrow> answer" where
  "fail e = (if e = Stored StorageNotFound then refuse 404 ''invalid_request_error'' ''Resource not found.''
             else refuse 500 ''api_error'' ''Internal server error.'')"

text \<open>The call fails the handler, or its error is looked at.\<close>

definition must :: "'a store_op \<Rightarrow> ('a, 'w) act" where
  "must op s = (case db op s of (Inl e, s) \<Rightarrow> (Inl (fail e), s) | (Inr x, s) \<Rightarrow> (Inr x, s))"

definition ask :: "'a store_op \<Rightarrow> (db_error + 'a, 'w) act" where
  "ask op s = (case db op s of (r, s) \<Rightarrow> (Inr r, s))"

text \<open>A record that may be missing; any other error fails the handler.\<close>

definition ask_record :: "(memory \<Rightarrow> storage_error + 'a) \<Rightarrow> ('a option, 'w) act" where
  "ask_record f = and_then (ask (reading f)) (\<lambda>r. case r of
      Inr x \<Rightarrow> give (Some x)
    | Inl e \<Rightarrow> if e = Stored StorageNotFound then give None else stop (fail e))"

abbreviation stored_providers :: "memory \<Rightarrow> provider_record list" where
  "stored_providers m \<equiv> providers_list (mem_providers m)"
abbreviation stored_models :: "memory \<Rightarrow> model_alias list" where
  "stored_models m \<equiv> models_list (mem_models m)"
abbreviation stored_combos :: "memory \<Rightarrow> combo list" where
  "stored_combos m \<equiv> combos_list (mem_combos m)"
abbreviation stored_proxies :: "memory \<Rightarrow> proxy list" where
  "stored_proxies m \<equiv> proxies_list (mem_proxies m)"

section \<open>Publishing the routing table\<close>

definition republish ::
    "provider_record list \<Rightarrow> model_alias list \<Rightarrow> combo list \<Rightarrow> proxy list \<Rightarrow> 'w admin \<Rightarrow> 'w admin"
where
  "republish ps ms cs xs = on_gateway (\<lambda>g.
     (case publish ps ms cs xs (gw_routes g, gw_engine g) of (rt, e) \<Rightarrow> g\<lparr>gw_routes := rt, gw_engine := e\<rparr>))"

definition load :: "(unit, 'w) act" where
  "load = and_then (must (listing stored_providers)) (\<lambda>ps.
     and_then (must (listing stored_models)) (\<lambda>ms.
     and_then (must (listing stored_combos)) (\<lambda>cs.
     and_then (must (listing stored_proxies)) (\<lambda>xs.
     change (republish ps ms cs xs)))))"

section \<open>Requests\<close>

text \<open>
  \<^verbatim>\<open>json.Decoder.Decode\<close> reads one value and ignores what follows. Of a body over the limit it
  sees the part within; that the code would answer 400 instead of 413 where that part is already
  malformed is left out.
\<close>

definition read_value :: "int \<Rightarrow> Gateway.http_request \<Rightarrow> body_error + json" where
  "read_value limit rq =
     (let over = (limit > 0 \<and> int (length (hq_body rq)) > limit);
          seen = (if over then take (nat limit) (hq_body rq) else hq_body rq)
      in case json_value (2 * length seen + 2) seen of
           Some (v, _) \<Rightarrow> Inr v
         | None \<Rightarrow> Inl (if over then TooLarge limit else Unreadable))"

definition decode_failure :: "body_error \<Rightarrow> answer" where
  "decode_failure e = (case e of
      TooLarge limit \<Rightarrow> refuse 413 ''invalid_request_error''
        (''Request body exceeds the '' @ show_int limit @ '' byte limit.'')
    | Unreadable \<Rightarrow> bad_request ''Request body is not valid JSON.'')"

definition decode_body :: "'w admin_env \<Rightarrow> ((string \<times> json) list \<Rightarrow> 'a option) \<Rightarrow> admin_call \<Rightarrow> ('a, 'w) act" where
  "decode_body env dec c = (case read_value (dp_max_body (ae_deps env)) (ca_request c) of
      Inl e \<Rightarrow> stop (decode_failure e)
    | Inr v \<Rightarrow> (case Option.bind (as_object v) dec of
        None \<Rightarrow> stop (decode_failure Unreadable)
      | Some x \<Rightarrow> give x))"

definition url_param :: "admin_call \<Rightarrow> string \<Rightarrow> string" where
  "url_param c key = (case path_unescape (ca_param c key) of None \<Rightarrow> ca_param c key | Some s \<Rightarrow> s)"

abbreviation json_strings :: "string list \<Rightarrow> json" where
  "json_strings ss \<equiv> json_array (map json_of_string ss)"

definition json_float :: "'w admin_env \<Rightarrow> rat \<Rightarrow> json" where
  "json_float env x = JNum (dp_float (ae_deps env) x)"

end
