(* ===== verification/Admin_Keys.thy ===== *)
theory Admin_Keys
  imports Admin_State Rolling_Stats
begin

text \<open>
  The admin API's overview, its response cache and its API keys (\<^verbatim>\<open>internal/api/admin.go\<close>), and the
  counters that the overview reads (\<^verbatim>\<open>internal/metrics/metrics.go\<close>). A nil slice is an empty list
  here, and an empty allow-list is written as \<^verbatim>\<open>null\<close>.
\<close>

section \<open>Response cache\<close>

definition encode_cache_stats :: "'w admin_env \<Rightarrow> cache option \<Rightarrow> json" where
  "encode_cache_stats env c = (let st = cache_stats_of c in json_object [
     (''entries'', json_of_int (cs_entries st)), (''capacity'', json_of_int (cs_capacity st)),
     (''hits'', json_of_int (cs_hits st)), (''misses'', json_of_int (cs_misses st)),
     (''stores'', json_of_int (cs_stores st)), (''evictions'', json_of_int (cs_evictions st)),
     (''enabled'', json_of_bool (cache_enabled c)),
     (''ttl'', json_of_string (duration_string (cache_ttl c))),
     (''hit_rate'', json_float env (hit_rate st))])"

definition handle_cache_stats :: "'w admin_env \<Rightarrow> (answer, 'w) act" where
  "handle_cache_stats env = look (\<lambda>s. Answer 200 (encode_cache_stats env (gw_cache (am_gateway s))))"

definition handle_purge_cache :: "(answer, 'w) act" where
  "handle_purge_cache = and_then (look (\<lambda>s. cache_purge (gw_cache (am_gateway s)))) (\<lambda>(dropped, c).
     and_then (change (on_gateway (\<lambda>g. g\<lparr>gw_cache := c\<rparr>))) (\<lambda>_.
     give (Answer 200 (json_object [(''purged'', json_of_int dropped)]))))"

section \<open>Running requests\<close>

definition encode_active :: "active_request \<Rightarrow> json" where
  "encode_active a = json_object [
     (''request_id'', json_of_string (aq_request_id a)), (''api_key'', json_of_string (aq_api_key a)),
     (''model'', json_of_string (aq_req_model a)), (''started_at'', json_time (aq_started_at a))]"

definition handle_active_requests :: "(answer, 'w) act" where
  "handle_active_requests = look (\<lambda>s.
     Answer 200 (json_array (map encode_active (active_list (gw_active (am_gateway s))))))"

section \<open>Overview\<close>

record metrics_snapshot =
  sn_requests :: rat
  sn_request_errors :: rat
  sn_provider_errors :: rat
  sn_streams :: rat

text \<open>The counters are the logs of what was counted; the gauge of open streams is given.\<close>

definition is_error_status :: "int \<Rightarrow> bool" where "is_error_status status \<longleftrightarrow> status \<ge> 400"

definition snapshot_metrics :: "rat \<Rightarrow> ('c, 'w) gateway \<Rightarrow> metrics_snapshot" where
  "snapshot_metrics streams g = \<lparr>
     sn_requests = of_nat (length (gw_counted g)),
     sn_request_errors = of_nat (length (filter (\<lambda>(m, p, status). is_error_status status) (gw_counted g))),
     sn_provider_errors = (case eg_recorder (gw_engine g) of None \<Rightarrow> 0
       | Some evs \<Rightarrow> of_nat (length (filter (\<lambda>e. case e of RecordedError _ _ \<Rightarrow> True | _ \<Rightarrow> False) evs))),
     sn_streams = streams\<rparr>"

definition positive_int :: "string \<Rightarrow> int option" where
  "positive_int s = (case atoi s of None \<Rightarrow> None | Some n \<Rightarrow> if n > 0 then Some n else None)"

definition hour :: duration where "hour = 60 * minute"
definition max_hours :: int where "max_hours = 24 * 90"

definition overview_since :: "instant \<Rightarrow> string \<Rightarrow> instant" where
  "overview_since now hours = (case positive_int hours of
      None \<Rightarrow> 0 | Some n \<Rightarrow> now - min n max_hours * hour)"

definition encode_overview :: "'w admin_env \<Rightarrow> metrics_snapshot \<Rightarrow> nat list \<Rightarrow> usage_totals \<Rightarrow> json" where
  "encode_overview env sn counts t = json_object [
     (''requests'', json_float env (sn_requests sn)), (''errors'', json_float env (sn_provider_errors sn)),
     (''error_rate'', json_float env (if sn_requests sn > 0 then sn_request_errors sn / sn_requests sn else 0)),
     (''active_streams'', json_float env (sn_streams sn)),
     (''providers'', json_of_int (int (counts ! 0))), (''models'', json_of_int (int (counts ! 1))),
     (''combos'', json_of_int (int (counts ! 2))), (''api_keys'', json_of_int (int (counts ! 3))),
     (''total_requests'', json_of_int (ut_requests t)), (''prompt_tokens'', json_of_int (ut_prompt t)),
     (''cached_tokens'', json_of_int (ut_cached t)), (''completion_tokens'', json_of_int (ut_completion t)),
     (''cost_usd'', json_float env (ut_cost t))]"

definition handle_overview :: "'w admin_env \<Rightarrow> admin_call \<Rightarrow> (answer, 'w) act" where
  "handle_overview env c =
     and_then (must (listing stored_providers)) (\<lambda>ps.
     and_then (must (listing stored_models)) (\<lambda>ms.
     and_then (must (listing stored_combos)) (\<lambda>cs.
     and_then (must (listing (\<lambda>m. keys_list (mem_keys m)))) (\<lambda>ks.
     and_then (look (\<lambda>s. (snapshot_metrics (ae_streams env) (am_gateway s),
        overview_since (admin_now env s) (ca_query c ''hours'')))) (\<lambda>(sn, since).
     and_then (ask (listing (\<lambda>m. usage_totals_since since (mem_usage m)))) (\<lambda>r.
     give (Answer 200 (encode_overview env sn [length ps, length ms, length cs, length ks]
       (case r of Inl _ \<Rightarrow> zero_totals | Inr t \<Rightarrow> t)))))))))"

section \<open>Keys\<close>

record key_usage =
  ku_requests :: int
  ku_in :: int
  ku_out :: int
  ku_cost :: rat
  ku_month :: rat

definition unused_key :: key_usage where
  "unused_key = \<lparr>ku_requests = 0, ku_in = 0, ku_out = 0, ku_cost = 0, ku_month = 0\<rparr>"

definition api_key_fields :: "'w admin_env \<Rightarrow> api_key \<Rightarrow> key_usage \<Rightarrow> (string \<times> json) list" where
  "api_key_fields env k u = [
     (''id'', json_of_string (ak_id k)), (''name'', json_of_string (ak_name k)),
     (''enabled'', json_of_bool (ak_enabled k)), (''created_at'', json_time (ak_created_at k)),
     (''last_used_at'', if ak_last_used_at k = 0 then json_null else json_time (ak_last_used_at k)),
     (''rate_limit_per_min'', json_of_int (ak_rate_limit k)),
     (''monthly_budget_usd'', json_float env (ak_budget k)),
     (''allowed_models'', if ak_allowed_models k = [] then json_null else json_strings (ak_allowed_models k)),
     (''month_spend_usd'', json_float env (ku_month u)), (''requests'', json_of_int (ku_requests u)),
     (''tokens_in'', json_of_int (ku_in u)), (''tokens_out'', json_of_int (ku_out u)),
     (''cost_usd'', json_float env (ku_cost u))]"

definition find_group :: "string \<Rightarrow> string usage_group list \<Rightarrow> string usage_group option" where
  "find_group k rows = List.find (\<lambda>g. ug_key g = k) rows"

definition key_usage_of :: "string usage_group list \<Rightarrow> string usage_group list \<Rightarrow> string \<Rightarrow> key_usage" where
  "key_usage_of lifetime month k =
     (let u = (case find_group k lifetime of None \<Rightarrow> unused_key
                | Some g \<Rightarrow> unused_key\<lparr>ku_requests := ug_requests g, ku_in := ug_prompt g,
                    ku_out := ug_completion g, ku_cost := ug_cost g\<rparr>)
      in u\<lparr>ku_month := (case find_group k month of None \<Rightarrow> 0 | Some g \<Rightarrow> ug_cost g)\<rparr>)"

definition rows_or_none :: "(db_error + 'a list, 'w) act \<Rightarrow> ('a list, 'w) act" where
  "rows_or_none m = and_then m (\<lambda>r. give (case r of Inl _ \<Rightarrow> [] | Inr rows \<Rightarrow> rows))"

definition handle_list_keys :: "'w admin_env \<Rightarrow> (answer, 'w) act" where
  "handle_list_keys env =
     and_then (must (listing (\<lambda>m. keys_list (mem_keys m)))) (\<lambda>ks.
     and_then (rows_or_none (ask (listing (\<lambda>m. usage_by_key 0 (mem_usage m))))) (\<lambda>lifetime.
     and_then (look (\<lambda>s. month_start (admin_now env s))) (\<lambda>since.
     and_then (rows_or_none (ask (listing (\<lambda>m. usage_by_key since (mem_usage m))))) (\<lambda>month.
     give (Answer 200 (json_array
       (map (\<lambda>k. json_object (api_key_fields env k (key_usage_of lifetime month (ak_id k)))) ks)))))))"

text \<open>An allow-list is trimmed, and each of its names must be one the engine serves.\<close>

fun check_names :: "string list \<Rightarrow> string list \<Rightarrow> string list \<Rightarrow> string + string list" where
  "check_names known seen [] = Inr []"
| "check_names known seen (n # ns) =
     (let n = trim_space n in
      if n = [] then check_names known seen ns
      else if n \<notin> set known then Inl n
      else if n \<in> set seen then check_names known seen ns
      else (case check_names known (n # seen) ns of Inl e \<Rightarrow> Inl e | Inr out \<Rightarrow> Inr (n # out)))"

definition check_models :: "string list \<Rightarrow> (string list, 'w) act" where
  "check_models models s =
     (if models = [] then (Inr [], s)
      else (case check_names (aliases (am_routes s) @ combo_names (am_routes s)) [] models of
          Inl n \<Rightarrow> (Inl (bad_request (''Unknown model '' @ quoted n @ ''.'')), s)
        | Inr out \<Rightarrow> (Inr out, s)))"

record create_key_request =
  ck_name :: string
  ck_rate_limit :: int
  ck_budget :: rat
  ck_models :: "string list"

definition decode_create_key :: "(string \<times> json) list \<Rightarrow> create_key_request option" where
  "decode_create_key ms = do {
     n \<leftarrow> string_of ''name'' ms; r \<leftarrow> int_of ''rate_limit_per_min'' ms;
     b \<leftarrow> field_or 0 as_float ''monthly_budget_usd'' ms; a \<leftarrow> slice_field as_string ''allowed_models'' ms;
     Some \<lparr>ck_name = n, ck_rate_limit = r, ck_budget = b, ck_models = a\<rparr> }"

definition draw_key :: "'w admin_env \<Rightarrow> string \<Rightarrow> (string \<times> api_key, 'w) act" where
  "draw_key env name s = (case generate_key (ae_rand env) (admin_now env s) name (am_world s) of
      (None, w) \<Rightarrow> (Inl (fail DriverFailure), set_world w s)
    | (Some p, w) \<Rightarrow> (Inr p, set_world w s))"

definition handle_create_key :: "'w admin_env \<Rightarrow> admin_call \<Rightarrow> (answer, 'w) act" where
  "handle_create_key env c =
     and_then (decode_body env decode_create_key c) (\<lambda>rq.
     and_then (ensure (ck_name rq \<noteq> []) (required_field ''name'')) (\<lambda>_.
     and_then (draw_key env (ck_name rq)) (\<lambda>(raw, rec).
     and_then (check_models (ck_models rq)) (\<lambda>allowed.
     let rec = rec\<lparr>ak_rate_limit := ck_rate_limit rq, ak_budget := ck_budget rq, ak_allowed_models := allowed\<rparr> in
     and_then (must (writing (\<lambda>m. m\<lparr>mem_keys := keys_create rec (mem_keys m)\<rparr>))) (\<lambda>_.
     give (Answer 201 (json_object (api_key_fields env rec unused_key @ [(''key'', json_of_string raw)]))))))))"

definition on_keys :: "(api_keys \<Rightarrow> storage_error option \<times> api_keys) \<Rightarrow> memory \<Rightarrow> storage_error option \<times> memory" where
  "on_keys f m = (case f (mem_keys m) of (e, ks) \<Rightarrow> (e, m\<lparr>mem_keys := ks\<rparr>))"

definition forget_quota :: "string \<Rightarrow> 'w admin \<Rightarrow> 'w admin" where
  "forget_quota i = on_gateway (\<lambda>g. g\<lparr>gw_quota := forget i (gw_quota g)\<rparr>)"

definition handle_delete_key :: "admin_call \<Rightarrow> (answer, 'w) act" where
  "handle_delete_key c = (let i = url_param c ''id'' in
     and_then (must (updating (on_keys (keys_delete i)))) (\<lambda>_.
     and_then (change (forget_quota i)) (\<lambda>_.
     give NoContent)))"

definition decode_quota :: "(string \<times> json) list \<Rightarrow> (int \<times> rat) option" where
  "decode_quota ms = do {
     r \<leftarrow> int_of ''rate_limit_per_min'' ms; b \<leftarrow> field_or 0 as_float ''monthly_budget_usd'' ms;
     Some (r, b) }"

definition handle_put_key_quota :: "'w admin_env \<Rightarrow> admin_call \<Rightarrow> (answer, 'w) act" where
  "handle_put_key_quota env c =
     and_then (decode_body env decode_quota c) (\<lambda>(per_min, budget).
     and_then (ensure (\<not> (per_min < 0 \<or> budget < 0)) (bad_request ''Quota values must not be negative.'')) (\<lambda>_.
     let i = url_param c ''id'' in
     and_then (must (updating (on_keys (keys_set_quota i per_min budget)))) (\<lambda>_.
     and_then (change (forget_quota i)) (\<lambda>_.
     give NoContent))))"

definition decode_allowlist :: "(string \<times> json) list \<Rightarrow> string list option" where
  "decode_allowlist = slice_field as_string ''allowed_models''"

definition handle_put_key_models :: "'w admin_env \<Rightarrow> admin_call \<Rightarrow> (answer, 'w) act" where
  "handle_put_key_models env c =
     and_then (decode_body env decode_allowlist c) (\<lambda>models.
     and_then (check_models models) (\<lambda>allowed.
     and_then (must (updating (on_keys (keys_set_allowed_models (url_param c ''id'') allowed)))) (\<lambda>_.
     give NoContent)))"

end
