(* ===== verification/Admin_Providers.thy ===== *)
theory Admin_Providers
  imports Admin_Keys Capability Health
begin

text \<open>
  Providers, their credentials and their rolling metrics in the admin API
  (\<^verbatim>\<open>internal/api/admin.go\<close>).
\<close>

section \<open>Providers\<close>

fun circuit_string :: "circuit_state \<Rightarrow> string" where
  "circuit_string CircuitClosed = ''closed''"
| "circuit_string CircuitOpen = ''open''"
| "circuit_string CircuitHalfOpen = ''half_open''"

definition encode_provider :: "provider_record \<Rightarrow> provider_health option \<Rightarrow> json" where
  "encode_provider p health = (let h = (case health of None \<Rightarrow> zero_health | Some h \<Rightarrow> h) in json_object (
     [(''name'', json_of_string (pr_name p)), (''group'', json_of_string (pr_group p))]
     @ omit_empty ''catalog_id'' (pr_catalog_id p)
     @ [(''kind'', json_of_string (pr_kind p)), (''base_url'', json_of_string (pr_base_url p)),
        (''has_api_key'', json_of_bool (pr_api_key p \<noteq> [] \<or> pr_api_keys p \<noteq> [])),
        (''api_key_count'', json_of_int (int (length (pr_api_keys p)))),
        (''api_key_method'', json_of_string (pr_api_key_method p)),
        (''timeout_ms'', json_of_int (duration_ms (pr_timeout p))), (''enabled'', json_of_bool (pr_enabled p)),
        (''alias_prefix'', json_of_string (pr_alias_prefix p)),
        (''use_proxy_pool'', json_of_bool (pr_use_proxy_pool p)),
        (''circuit'', json_of_string (circuit_string (ph_state h)))]
     @ omit_empty ''circuit_retry_at'' (if ph_retry_at h = 0 then [] else rfc3339 (ph_retry_at h))
     @ [(''breaker_threshold'', raw_or_null (map_option json_of_int (pr_breaker_threshold p))),
        (''breaker_cooldown_ms'', raw_or_null (map_option (\<lambda>d. json_of_int (duration_ms d)) (pr_breaker_cooldown p)))]))"

definition health_of :: "'w admin \<Rightarrow> (string, provider_health) gomap" where
  "health_of s = engine_health (eg_breakers (am_engine s)) (eg_probes (am_engine s))"

definition provider_answer :: "provider_record \<Rightarrow> (answer, 'w) act" where
  "provider_answer p = look (\<lambda>s. Answer 200 (encode_provider p (map_of (health_of s) (pr_name p))))"

definition handle_list_providers :: "(answer, 'w) act" where
  "handle_list_providers =
     and_then (must (listing stored_providers)) (\<lambda>ps.
     look (\<lambda>s. Answer 200 (json_array (map (\<lambda>p. encode_provider p (map_of (health_of s) (pr_name p))) ps))))"

definition encode_catalog_entry :: "catalog_entry \<Rightarrow> json" where
  "encode_catalog_entry e = json_object (
     [(''id'', json_of_string (ce_id e)), (''label'', json_of_string (ce_label e)),
      (''group'', json_of_string (ce_group e)), (''kind'', json_of_string (ce_kind e)),
      (''base_url'', json_of_string (ce_base_url e)), (''alias_prefix'', json_of_string (ce_alias_prefix e))]
     @ omit_empty ''docs'' (ce_docs e))"

definition unknown_group :: "string \<Rightarrow> answer" where
  "unknown_group g = bad_request (''Unknown provider group '' @ quoted g @ ''.'')"

definition handle_catalog_presets :: "admin_call \<Rightarrow> (answer, 'w) act" where
  "handle_catalog_presets c = (let g = ca_query c ''group'' in
     and_then (ensure (g = [] \<or> valid_group g) (unknown_group g)) (\<lambda>_.
     give (Answer 200 (json_array (map encode_catalog_entry (catalog_of g))))))"

definition find_catalog_entry :: "string \<Rightarrow> catalog_entry option" where
  "find_catalog_entry i = (if i = [] then None else List.find (\<lambda>e. ce_id e = i) (catalog_of []))"

record provider_request =
  pq_group :: string
  pq_catalog_id :: string
  pq_kind :: string
  pq_base_url :: string
  pq_api_key :: string
  pq_api_keys :: "string list"
  pq_method :: string
  pq_timeout_ms :: int
  pq_enabled :: bool
  pq_alias_prefix :: string
  pq_use_proxy_pool :: bool
  pq_threshold :: "int option"
  pq_cooldown_ms :: "int option"

definition decode_provider_request :: "(string \<times> json) list \<Rightarrow> provider_request option" where
  "decode_provider_request ms = do {
     g \<leftarrow> string_of ''group'' ms; ci \<leftarrow> string_of ''catalog_id'' ms; k \<leftarrow> string_of ''kind'' ms;
     u \<leftarrow> string_of ''base_url'' ms; ak \<leftarrow> string_of ''api_key'' ms;
     aks \<leftarrow> slice_field as_string ''api_keys'' ms; me \<leftarrow> string_of ''api_key_method'' ms;
     t \<leftarrow> int_of ''timeout_ms'' ms; e \<leftarrow> field_or False as_bool ''enabled'' ms;
     ap \<leftarrow> string_of ''alias_prefix'' ms; up \<leftarrow> field_or False as_bool ''use_proxy_pool'' ms;
     th \<leftarrow> pointer_field as_int ''breaker_threshold'' ms; co \<leftarrow> pointer_field as_int ''breaker_cooldown_ms'' ms;
     Some \<lparr>pq_group = g, pq_catalog_id = ci, pq_kind = k, pq_base_url = u, pq_api_key = ak, pq_api_keys = aks,
       pq_method = me, pq_timeout_ms = t, pq_enabled = e, pq_alias_prefix = ap, pq_use_proxy_pool = up,
       pq_threshold = th, pq_cooldown_ms = co\<rparr> }"

definition requested_group :: "provider_request \<Rightarrow> string" where
  "requested_group rq = (let g = trim_space (pq_group rq) in if g = [] then group_custom else g)"

definition milliseconds :: "int \<Rightarrow> duration" where "milliseconds n = wrap64 (n * millisecond)"

definition trimmed_keys :: "string list \<Rightarrow> string list" where
  "trimmed_keys ks = filter (\<lambda>k. k \<noteq> []) (map trim_space ks)"

text \<open>The record a request describes, before the stored credentials are consulted.\<close>

definition requested_provider :: "string \<Rightarrow> provider_request \<Rightarrow> provider_record" where
  "requested_provider name rq =
     (let ks = trimmed_keys (pq_api_keys rq @ [pq_api_key rq]);
          cid = trim_space (pq_catalog_id rq);
          preset = find_catalog_entry cid;
          url = (if pq_base_url rq = [] then (case preset of None \<Rightarrow> [] | Some e \<Rightarrow> ce_base_url e) else pq_base_url rq);
          kind = (if pq_kind rq = [] then (case preset of None \<Rightarrow> [] | Some e \<Rightarrow> ce_kind e) else pq_kind rq)
      in \<lparr>pr_id = name, pr_name = name,
          pr_kind = normalize_kind (if kind = [] then kind_openai else kind), pr_base_url = url,
          pr_api_key = (case ks of [] \<Rightarrow> pq_api_key rq | k # _ \<Rightarrow> k), pr_api_keys = ks,
          pr_api_key_method = (if equal_fold (trim_space (pq_method rq)) ''round_robin'' then ''round_robin'' else []),
          pr_timeout = milliseconds (pq_timeout_ms rq), pr_enabled = pq_enabled rq,
          pr_group = requested_group rq, pr_catalog_id = cid, pr_alias_prefix = trim_space (pq_alias_prefix rq),
          pr_use_proxy_pool = pq_use_proxy_pool rq, pr_breaker_threshold = pq_threshold rq,
          pr_breaker_cooldown = map_option milliseconds (pq_cooldown_ms rq)\<rparr>)"

text \<open>A request without a key keeps the stored ones; a single key is also the list of keys.\<close>

definition with_stored_keys :: "db_error + provider_record \<Rightarrow> provider_record \<Rightarrow> provider_record" where
  "with_stored_keys existing p = (case existing of
      Inl _ \<Rightarrow> p
    | Inr old \<Rightarrow> p\<lparr>pr_api_key := pr_api_key old, pr_api_keys := pr_api_keys old,
                    pr_api_key_method := pr_api_key_method old\<rparr>)"

definition with_key_list :: "provider_record \<Rightarrow> provider_record" where
  "with_key_list p = (if pr_api_keys p = [] \<and> pr_api_key p \<noteq> [] then p\<lparr>pr_api_keys := [pr_api_key p]\<rparr> else p)"

definition get_provider :: "string \<Rightarrow> memory \<Rightarrow> storage_error + provider_record" where
  "get_provider name m = providers_get name (mem_providers m)"

definition put_provider :: "provider_record \<Rightarrow> memory \<Rightarrow> memory" where
  "put_provider p m = m\<lparr>mem_providers := providers_put p (mem_providers m)\<rparr>"

definition save_provider :: "provider_record \<Rightarrow> (unit, 'w) act" where
  "save_provider p = and_then (must (writing (put_provider p))) (\<lambda>_. load)"

definition handle_put_provider :: "'w admin_env \<Rightarrow> admin_call \<Rightarrow> (answer, 'w) act" where
  "handle_put_provider env c = (let name = url_param c ''name'' in
     and_then (decode_body env decode_provider_request c) (\<lambda>rq.
     let p = requested_provider name rq in
     and_then (ensure (valid_group (pr_group p)) (unknown_group (pr_group p))) (\<lambda>_.
     and_then (ensure (\<not> (case pq_threshold rq of None \<Rightarrow> False | Some t \<Rightarrow> t < 0))
       (bad_request (''Field '' @ quoted ''breaker_threshold'' @ '' must be zero or greater; 0 disables the breaker.''))) (\<lambda>_.
     and_then (ensure (\<not> (case pq_cooldown_ms rq of None \<Rightarrow> False | Some t \<Rightarrow> t < 0))
       (bad_request (''Field '' @ quoted ''breaker_cooldown_ms'' @ '' must be zero or greater.''))) (\<lambda>_.
     and_then (ensure (pr_base_url p \<noteq> []) (required_field ''base_url'')) (\<lambda>_.
     and_then (if pr_api_key p \<noteq> [] then give p
               else and_then (ask (reading (get_provider name))) (\<lambda>r. give (with_stored_keys r p))) (\<lambda>p.
     let p = with_key_list p in
     and_then (ensure (\<not> (pr_group p \<noteq> group_custom \<and> pr_api_keys p = []))
       (bad_request (''Field '' @ quoted ''api_key'' @ '' or '' @ quoted ''api_keys'' @ '' is required for ''
          @ pr_group p @ '' providers.''))) (\<lambda>_.
     and_then (save_provider p) (\<lambda>_.
     provider_answer p)))))))))"

definition handle_delete_provider :: "admin_call \<Rightarrow> (answer, 'w) act" where
  "handle_delete_provider c =
     and_then (must (updating (delete_provider (url_param c ''name'')))) (\<lambda>_.
     and_then load (\<lambda>_.
     give NoContent))"

section \<open>Credentials\<close>

definition bullets :: "nat \<Rightarrow> string" where
  "bullets n = concat (replicate n [CHR 0xE2, CHR 0x80, CHR 0xA2])"

definition mask_provider_key :: "string \<Rightarrow> string" where
  "mask_provider_key key =
     (let k = trim_space key; n = length k in
      if n \<le> 8 then bullets n else take 4 k @ bullets (n - 8) @ drop (n - 4) k)"

definition encode_provider_keys :: "string list \<Rightarrow> json" where
  "encode_provider_keys ks = json_array (map (\<lambda>(i, k). json_object
     [(''id'', json_of_string (show_nat i)), (''masked'', json_of_string (mask_provider_key k))]) (enumerate 0 ks))"

definition set_keys :: "string list \<Rightarrow> provider_record \<Rightarrow> provider_record" where
  "set_keys ks p = p\<lparr>pr_api_keys := ks, pr_api_key := (case ks of [] \<Rightarrow> [] | k # _ \<Rightarrow> k)\<rparr>"

definition mutate_provider_keys :: "admin_call \<Rightarrow> (string list \<Rightarrow> string list option) \<Rightarrow> (answer, 'w) act" where
  "mutate_provider_keys c mutate =
     and_then (must (reading (get_provider (url_param c ''name'')))) (\<lambda>p.
     case mutate (pr_api_keys p) of
       None \<Rightarrow> stop (bad_request ''provider key not found'')
     | Some ks \<Rightarrow>
         and_then (ensure (\<not> (ks = [] \<and> pr_group p \<noteq> group_custom))
           (bad_request ''Provider must retain at least one API key.'')) (\<lambda>_.
         and_then (save_provider (set_keys ks p)) (\<lambda>_.
         give (Answer 200 (encode_provider_keys ks)))))"

definition handle_list_provider_keys :: "admin_call \<Rightarrow> (answer, 'w) act" where
  "handle_list_provider_keys c =
     and_then (must (reading (get_provider (url_param c ''name'')))) (\<lambda>p.
     give (Answer 200 (encode_provider_keys (pr_api_keys p))))"

definition decode_key :: "(string \<times> json) list \<Rightarrow> string option" where
  "decode_key ms = map_option trim_space (string_of ''key'' ms)"

definition handle_create_provider_key :: "'w admin_env \<Rightarrow> admin_call \<Rightarrow> (answer, 'w) act" where
  "handle_create_provider_key env c =
     and_then (decode_body env decode_key c) (\<lambda>key.
     and_then (ensure (key \<noteq> []) (required_field ''key'')) (\<lambda>_.
     mutate_provider_keys c (\<lambda>ks. Some (ks @ [key]))))"

definition key_index :: "admin_call \<Rightarrow> (int, 'w) act" where
  "key_index c = (case atoi (url_param c ''index'') of
      None \<Rightarrow> stop (bad_request ''Provider key id must be a numeric index.'')
    | Some i \<Rightarrow> give i)"

definition in_range :: "int \<Rightarrow> 'a list \<Rightarrow> bool" where
  "in_range i xs \<longleftrightarrow> \<not> (i < 0 \<or> i \<ge> int (length xs))"

definition handle_put_provider_key :: "'w admin_env \<Rightarrow> admin_call \<Rightarrow> (answer, 'w) act" where
  "handle_put_provider_key env c =
     and_then (decode_body env decode_key c) (\<lambda>key.
     and_then (ensure (key \<noteq> []) (required_field ''key'')) (\<lambda>_.
     and_then (key_index c) (\<lambda>i.
     mutate_provider_keys c (\<lambda>ks. if in_range i ks then Some (ks[nat i := key]) else None))))"

definition handle_delete_provider_key :: "admin_call \<Rightarrow> (answer, 'w) act" where
  "handle_delete_provider_key c =
     and_then (key_index c) (\<lambda>i.
     mutate_provider_keys c (\<lambda>ks.
       if in_range i ks then Some (take (nat i) ks @ drop (Suc (nat i)) ks) else None))"

definition method_answer :: "string \<Rightarrow> answer" where
  "method_answer m = Answer 200 (json_object [(''method'', json_of_string m)])"

definition handle_get_key_settings :: "admin_call \<Rightarrow> (answer, 'w) act" where
  "handle_get_key_settings c =
     and_then (must (reading (get_provider (url_param c ''name'')))) (\<lambda>p.
     give (method_answer (if pr_api_key_method p = [] then ''off'' else pr_api_key_method p)))"

definition handle_put_key_settings :: "'w admin_env \<Rightarrow> admin_call \<Rightarrow> (answer, 'w) act" where
  "handle_put_key_settings env c =
     and_then (decode_body env (field_or False as_bool ''enabled'') c) (\<lambda>on.
     and_then (must (reading (get_provider (url_param c ''name'')))) (\<lambda>p.
     and_then (ensure (\<not> (on \<and> length (pr_api_keys p) < 2))
       (bad_request ''At least two API keys are required to enable round-robin.'')) (\<lambda>_.
     let p = p\<lparr>pr_api_key_method := (if on then ''round_robin'' else ''off'')\<rparr> in
     and_then (save_provider p) (\<lambda>_.
     give (method_answer (pr_api_key_method p))))))"

section \<open>Rolling metrics\<close>

definition round_rate :: "rat \<Rightarrow> rat" where
  "round_rate r = (if r < 0 then - of_int \<lfloor>- r * 10 + 1 / 2\<rfloor> / 10 else of_int \<lfloor>r * 10 + 1 / 2\<rfloor> / 10)"

fun confidence_string :: "confidence \<Rightarrow> string" where
  "confidence_string ConfidenceLow = ''low''"
| "confidence_string ConfidenceHigh = ''high''"

definition stats_fields :: "'w admin_env \<Rightarrow> alias_stats \<Rightarrow> (string \<times> json) list" where
  "stats_fields env st = [
     (''ttfb_ms'', json_of_int (as_ttfb_ms st)), (''p50_ms'', json_of_int (as_p50_ms st)),
     (''p95_ms'', raw_or_null (map_option json_of_int (as_p95_ms st))),
     (''success_rate'', json_float env (round_rate (as_success_rate st))),
     (''requests'', json_of_int (int (as_requests st))),
     (''confidence'', json_of_string (confidence_string (as_confidence st)))]"

definition encode_alias_metrics :: "'w admin_env \<Rightarrow> alias_stats \<Rightarrow> json" where
  "encode_alias_metrics env st = json_object ((''alias'', json_of_string (as_alias st))
     # stats_fields env st @ [(''updated_at'', json_time (as_updated_at st))])"

definition encode_provider_metrics :: "'w admin_env \<Rightarrow> string list \<Rightarrow> stats \<Rightarrow> json" where
  "encode_provider_metrics env names st = json_object [
     (''aliases'', json_array (map (encode_alias_metrics env) (List.map_filter (\<lambda>a. stats_alias a st) names))),
     (''summary'', raw_or_null (map_option (\<lambda>t. json_object (stats_fields env t)) (stats_summary names st)))]"

definition handle_provider_metrics :: "'w admin_env \<Rightarrow> admin_call \<Rightarrow> (answer, 'w) act" where
  "handle_provider_metrics env c =
     and_then (must (listing stored_models)) (\<lambda>ms.
     look (\<lambda>s. Answer 200 (encode_provider_metrics env
       (map ma_alias (filter (\<lambda>m. ma_provider m = url_param c ''name'') ms)) (eg_stats (am_engine s)))))"

end
