(* ===== verification/Admin_Models.thy ===== *)
theory Admin_Models
  imports Admin_Providers
begin

text \<open>
  Upstream catalogues, the import of models, and model aliases in the admin API
  (\<^verbatim>\<open>internal/api/admin.go\<close>). Every dialect's client can list its models, so the branch for a
  client that cannot is never taken and left out.
\<close>

section \<open>Aliases as answers\<close>

text \<open>\<^verbatim>\<open>storage.Pricing\<close> has no field tags: its members keep their Go names.\<close>

definition encode_pricing :: "'w admin_env \<Rightarrow> rat \<Rightarrow> rat \<Rightarrow> json" where
  "encode_pricing env i out = json_object [(''Input'', json_float env i), (''Output'', json_float env out)]"

definition encode_alias :: "'w admin_env \<Rightarrow> model_alias \<Rightarrow> json" where
  "encode_alias env m = json_object [
     (''alias'', json_of_string (ma_alias m)), (''provider'', json_of_string (ma_provider m)),
     (''model'', json_of_string (ma_model m)), (''fallback'', json_strings (ma_fallback m)),
     (''capabilities'', json_strings (ma_capabilities m)), (''max_context'', json_of_int (ma_max_context m)),
     (''quality_tier'', json_of_int (ma_quality_tier m)),
     (''pricing'', encode_pricing env (ma_price_input m) (ma_price_output m))]"

definition empty_alias :: model_alias where
  "empty_alias = \<lparr>ma_alias = [], ma_provider = [], ma_model = [], ma_fallback = [], ma_capabilities = [],
     ma_max_context = 0, ma_quality_tier = 0, ma_price_input = 0, ma_price_output = 0\<rparr>"

definition get_model :: "string \<Rightarrow> memory \<Rightarrow> storage_error + model_alias" where
  "get_model a m = models_get a (mem_models m)"

definition put_model :: "model_alias \<Rightarrow> memory \<Rightarrow> memory" where
  "put_model r m = m\<lparr>mem_models := models_put r (mem_models m)\<rparr>"

definition on_models :: "(models \<Rightarrow> storage_error option \<times> models) \<Rightarrow> memory \<Rightarrow> storage_error option \<times> memory" where
  "on_models f m = (case f (mem_models m) of (e, ms) \<Rightarrow> (e, m\<lparr>mem_models := ms\<rparr>))"

section \<open>Upstream catalogues\<close>

definition provider_client :: "provider_record \<Rightarrow> (client, 'w) act" where
  "provider_client p =
     (if pr_use_proxy_pool p
      then and_then (ask (listing stored_proxies)) (\<lambda>r.
        give (new_provider_client p (new_proxy_pool (case r of Inl _ \<Rightarrow> [] | Inr xs \<Rightarrow> xs))))
      else give (new_provider_client p (new_proxy_pool [])))"

definition failure_message :: "gerror \<Rightarrow> string" where
  "failure_message err = (case errors_as_provider err of
      Some p \<Rightarrow> if pe_message p \<noteq> [] then pe_message p else ''Upstream request failed.''
    | None \<Rightarrow> ''Upstream request failed.'')"

definition upstream_fail :: "gerror \<Rightarrow> answer" where
  "upstream_fail err = refuse 502 ''api_error'' (failure_message err)"

definition fetch_models :: "'w admin_env \<Rightarrow> client \<Rightarrow> (upstream_model list, 'w) act" where
  "fetch_models env cl s = (case ae_models env cl (am_world s) of
      (Inl err, w) \<Rightarrow> (Inl (upstream_fail err), set_world w s)
    | (Inr ms, w) \<Rightarrow> (Inr ms, set_world w s))"

definition imported_as :: "string \<Rightarrow> model_alias list \<Rightarrow> (string, string) gomap" where
  "imported_as name ms = fold (\<lambda>a m. if ma_provider a = name then map_put (ma_model a) (ma_alias a) m else m) ms []"

definition encode_catalog_model :: "(string, string) gomap \<Rightarrow> upstream_model \<Rightarrow> json" where
  "encode_catalog_model existing m = json_object (
     [(''id'', json_of_string (um_id m))] @ omit_empty ''owned_by'' (um_owned_by m)
     @ [(''imported'', json_of_bool (map_of existing (um_id m) \<noteq> None))]
     @ omit_empty ''alias'' (case map_of existing (um_id m) of None \<Rightarrow> [] | Some a \<Rightarrow> a)
     @ [(''context_window'', json_of_int (model_context m)),
        (''capabilities'', json_strings (infer_capabilities (um_id m)))])"

definition handle_provider_catalog :: "'w admin_env \<Rightarrow> admin_call \<Rightarrow> (answer, 'w) act" where
  "handle_provider_catalog env c = (let name = url_param c ''name'' in
     and_then (must (reading (get_provider name))) (\<lambda>p.
     and_then (provider_client p) (\<lambda>cl.
     and_then (fetch_models env cl) (\<lambda>ups.
     and_then (must (listing stored_models)) (\<lambda>ms.
     give (Answer 200 (json_array (map (encode_catalog_model (imported_as name ms)) ups))))))))"

record import_request =
  iq_models :: "string list"
  iq_prefix :: "string option"
  iq_overwrite :: bool

definition decode_import :: "(string \<times> json) list \<Rightarrow> import_request option" where
  "decode_import ms = do {
     xs \<leftarrow> slice_field as_string ''models'' ms; p \<leftarrow> pointer_field as_string ''prefix'' ms;
     w \<leftarrow> field_or False as_bool ''overwrite'' ms;
     Some \<lparr>iq_models = xs, iq_prefix = p, iq_overwrite = w\<rparr> }"

text \<open>The context window of a model in the catalogue, the last entry of an id winning.\<close>

definition upstream_context :: "upstream_model list \<Rightarrow> string \<Rightarrow> int" where
  "upstream_context ups model = (case List.find (\<lambda>u. um_id u = model) (rev ups) of
      None \<Rightarrow> 0 | Some u \<Rightarrow> model_context u)"

definition imported_alias :: "string \<Rightarrow> string \<Rightarrow> string \<Rightarrow> int \<Rightarrow> model_alias option \<Rightarrow> model_alias" where
  "imported_alias alias name model context existing =
     (let r = (case existing of None \<Rightarrow> empty_alias | Some m \<Rightarrow> m);
          r = r\<lparr>ma_alias := alias, ma_provider := name, ma_model := model\<rparr>;
          r = (if existing = None then r\<lparr>ma_capabilities := infer_capabilities model\<rparr> else r)
      in if ma_max_context r \<le> 0 then r\<lparr>ma_max_context := context\<rparr> else r)"

text \<open>The loop over the requested models: what was imported and what was skipped so far.\<close>

fun import_loop ::
    "string \<Rightarrow> string \<Rightarrow> bool \<Rightarrow> (string \<Rightarrow> int) \<Rightarrow> string list \<Rightarrow> model_alias list \<Rightarrow> string list \<Rightarrow>
     (model_alias list \<times> string list, 'w) act"
where
  "import_loop name pre overwrite context [] done skipped = give (done, skipped)"
| "import_loop name pre overwrite context (m # ms) done skipped =
     (let model = trim_space m; alias = pre @ model in
      if model = [] then import_loop name pre overwrite context ms done skipped
      else and_then (ask_record (get_model alias)) (\<lambda>existing.
        if (case existing of None \<Rightarrow> False | Some old \<Rightarrow> ma_provider old \<noteq> name \<or> \<not> overwrite)
        then import_loop name pre overwrite context ms done (skipped @ [alias])
        else (let r = imported_alias alias name model (context model) existing in
          and_then (must (writing (put_model r))) (\<lambda>_.
          import_loop name pre overwrite context ms (done @ [r]) skipped))))"

definition handle_import_models :: "'w admin_env \<Rightarrow> admin_call \<Rightarrow> (answer, 'w) act" where
  "handle_import_models env c = (let name = url_param c ''name'' in
     and_then (decode_body env decode_import c) (\<lambda>rq.
     and_then (ensure (iq_models rq \<noteq> []) (required_field ''models'')) (\<lambda>_.
     and_then (must (reading (get_provider name))) (\<lambda>p.
     let pre = (case iq_prefix rq of None \<Rightarrow> pr_alias_prefix p | Some x \<Rightarrow> trim_space x) in
     and_then (provider_client p) (\<lambda>cl.
     and_then (fetch_models env cl) (\<lambda>ups.
     and_then (import_loop name pre (iq_overwrite rq) (upstream_context ups) (iq_models rq) [] []) (\<lambda>(done, skipped).
     and_then load (\<lambda>_.
     give (Answer 200 (json_object [(''imported'', json_array (map (encode_alias env) done)),
       (''skipped'', json_strings skipped)]))))))))))"

section \<open>Capabilities\<close>

definition capability_labels :: "(string \<times> string \<times> string) list" where
  "capability_labels = [
     (cap_chat, ''Chat'', ''Ordinary conversation.''), (cap_vision, ''Vision'', ''Image input.''),
     (cap_tools, ''Tools'', ''Function / tool calling.''),
     (cap_embeddings, ''Embeddings'', ''Serves /v1/embeddings.''),
     (cap_reasoning, ''Reasoning'', ''Long reasoning model.''), (cap_streaming, ''Streaming'', ''SSE streaming.''),
     (cap_audio, ''Audio'', ''Audio input/output.''), (cap_json_mode, ''JSON mode'', ''Structured output.'')]"

definition handle_list_capabilities :: "(answer, 'w) act" where
  "handle_list_capabilities = give (Answer 200 (json_array (map (\<lambda>i.
     case (case map_of capability_labels i of None \<Rightarrow> ([], []) | Some e \<Rightarrow> e) of (label, text) \<Rightarrow>
       json_object [(''id'', json_of_string i), (''label'', json_of_string label),
         (''description'', json_of_string text)]) capability_order)))"

section \<open>Aliases\<close>

definition handle_list_aliases :: "'w admin_env \<Rightarrow> (answer, 'w) act" where
  "handle_list_aliases env =
     and_then (must (listing stored_models)) (\<lambda>ms. give (Answer 200 (json_array (map (encode_alias env) ms))))"

record model_request =
  mq_provider :: string
  mq_model :: string
  mq_fallback :: "string list"
  mq_capabilities :: "string list option"
  mq_max_context :: "int option"
  mq_quality_tier :: "int option"
  mq_pricing :: "(rat \<times> rat) option"

definition decode_pricing :: "json \<Rightarrow> (rat \<times> rat) option" where
  "decode_pricing v = do {
     ms \<leftarrow> as_object v; i \<leftarrow> field_or 0 as_float ''Input'' ms; u \<leftarrow> field_or 0 as_float ''Output'' ms;
     Some (i, u) }"

definition decode_model_request :: "(string \<times> json) list \<Rightarrow> model_request option" where
  "decode_model_request ms = do {
     p \<leftarrow> string_of ''provider'' ms; m \<leftarrow> string_of ''model'' ms;
     f \<leftarrow> slice_field as_string ''fallback'' ms;
     cs \<leftarrow> pointer_field (\<lambda>v. as_array v \<bind> opt_all as_string) ''capabilities'' ms;
     mc \<leftarrow> pointer_field as_int ''max_context'' ms; q \<leftarrow> pointer_field as_int ''quality_tier'' ms;
     pr \<leftarrow> pointer_field decode_pricing ''pricing'' ms;
     Some \<lparr>mq_provider = p, mq_model = m, mq_fallback = f, mq_capabilities = cs, mq_max_context = mc,
       mq_quality_tier = q, mq_pricing = pr\<rparr> }"

definition requested_alias :: "string \<Rightarrow> model_request \<Rightarrow> model_alias option \<Rightarrow> model_alias" where
  "requested_alias alias rq existing =
     (let r = (case existing of None \<Rightarrow> empty_alias | Some m \<Rightarrow> m)
      in r\<lparr>ma_alias := alias, ma_provider := mq_provider rq, ma_model := mq_model rq,
           ma_fallback := mq_fallback rq,
           ma_capabilities := (case mq_capabilities rq of
              None \<Rightarrow> infer_capabilities (mq_model rq) | Some cs \<Rightarrow> normalize_capabilities cs),
           ma_max_context := (case mq_max_context rq of None \<Rightarrow> ma_max_context r | Some n \<Rightarrow> n),
           ma_quality_tier := (case mq_quality_tier rq of None \<Rightarrow> ma_quality_tier r | Some n \<Rightarrow> n),
           ma_price_input := (case mq_pricing rq of None \<Rightarrow> ma_price_input r | Some (i, u) \<Rightarrow> i),
           ma_price_output := (case mq_pricing rq of None \<Rightarrow> ma_price_output r | Some (i, u) \<Rightarrow> u)\<rparr>)"

definition handle_put_alias :: "'w admin_env \<Rightarrow> admin_call \<Rightarrow> (answer, 'w) act" where
  "handle_put_alias env c =
     and_then (decode_body env decode_model_request c) (\<lambda>rq.
     and_then (ensure (\<not> (mq_provider rq = [] \<or> mq_model rq = []))
       (bad_request (''Fields '' @ quoted ''provider'' @ '' and '' @ quoted ''model'' @ '' are required.''))) (\<lambda>_.
     and_then (ask_record (get_provider (mq_provider rq))) (\<lambda>p.
     and_then (ensure (p \<noteq> None) (bad_request (''Unknown provider '' @ quoted (mq_provider rq) @ ''.''))) (\<lambda>_.
     let alias = url_param c ''alias'' in
     and_then (ask_record (get_model alias)) (\<lambda>existing.
     and_then (ensure (\<not> (case mq_max_context rq of None \<Rightarrow> False | Some n \<Rightarrow> n < 0))
       (bad_request (''Field '' @ quoted ''max_context'' @ '' must be nonnegative.''))) (\<lambda>_.
     let r = requested_alias alias rq existing in
     and_then (must (writing (put_model r))) (\<lambda>_.
     and_then load (\<lambda>_.
     give (Answer 200 (encode_alias env r))))))))))"

definition handle_delete_alias :: "admin_call \<Rightarrow> (answer, 'w) act" where
  "handle_delete_alias c =
     and_then (must (updating (on_models (models_delete (url_param c ''alias''))))) (\<lambda>_.
     and_then load (\<lambda>_.
     give NoContent))"

section \<open>Testing a route\<close>

text \<open>One token straight to the alias's provider; the time-out is the environment's.\<close>

definition ping_request :: "string \<Rightarrow> chat_request" where
  "ping_request model = \<lparr>cr_model = model,
     cr_messages = [\<lparr>msg_role = ''user'', msg_content = Some (json_of_string ''ping''), msg_name = [],
       msg_extra = [], msg_tool_error = False\<rparr>],
     cr_stream = False, cr_stream_options = None, cr_temperature = None, cr_top_p = None,
     cr_max_tokens = Some 1, cr_stop = [], cr_user = [], cr_extra = []\<rparr>"

definition probe_alias :: "'w admin_env \<Rightarrow> instant \<Rightarrow> model_alias \<Rightarrow> client \<Rightarrow> (gerror option \<times> int \<times> int, 'w) act" where
  "probe_alias env start m cl s =
     (case ev_chat (dp_env (ae_deps env)) cl (ping_request (ma_model m)) (am_engine s, 0, am_world s) of
        (r, e, fb, w) \<Rightarrow>
          (let s = on_gateway (\<lambda>g. g\<lparr>gw_engine := e, gw_world := w\<rparr>) s; now = admin_now env s;
               latency = duration_ms (now - start); ttfb = duration_ms (first_byte_since start fb);
               ok = (case r of Inl _ \<Rightarrow> False | Inr _ \<Rightarrow> True);
               metric = \<lparr>rm_alias = ma_alias m, rm_success = ok, rm_ttfb_ms = ttfb, rm_latency_ms = latency,
                 rm_timestamp = now\<rparr>
           in (Inr (case r of Inl err \<Rightarrow> Some err | Inr _ \<Rightarrow> None, latency, ttfb),
               on_gateway (\<lambda>g. g\<lparr>gw_engine := (gw_engine g)\<lparr>eg_stats :=
                 stats_record now metric (eg_stats (gw_engine g))\<rparr>\<rparr>) s)))"

definition handle_test_alias :: "'w admin_env \<Rightarrow> admin_call \<Rightarrow> (answer, 'w) act" where
  "handle_test_alias env c = (let alias = url_param c ''alias'' in
     and_then (must (reading (get_model alias))) (\<lambda>m.
     and_then (must (reading (get_provider (ma_provider m)))) (\<lambda>p.
     and_then (look (admin_now env)) (\<lambda>start.
     and_then (provider_client p) (\<lambda>cl.
     and_then (probe_alias env start (m\<lparr>ma_alias := alias\<rparr>) cl) (\<lambda>(err, latency, ttfb).
     give (Answer 200 (json_object (
       [(''alias'', json_of_string alias), (''provider'', json_of_string (ma_provider m)),
        (''model'', json_of_string (ma_model m)), (''ok'', json_of_bool (err = None)),
        (''latency_ms'', json_of_int latency), (''ttfb_ms'', json_of_int ttfb)]
       @ omit_empty ''error'' (case err of None \<Rightarrow> [] | Some e \<Rightarrow> failure_message e))))))))))"

end
