(* ===== verification/Admin_Combos.thy ===== *)
theory Admin_Combos
  imports Admin_Models Storage_Sqlite
begin

text \<open>
  Combos and the proxy pool in the admin API (\<^verbatim>\<open>internal/api/admin.go\<close>).
\<close>

section \<open>Combos\<close>

definition get_combo :: "string \<Rightarrow> memory \<Rightarrow> storage_error + combo" where
  "get_combo n m = combos_get n (mem_combos m)"

definition put_combo :: "combo \<Rightarrow> memory \<Rightarrow> memory" where
  "put_combo c m = m\<lparr>mem_combos := combos_put c (mem_combos m)\<rparr>"

definition on_combos :: "(combos \<Rightarrow> storage_error option \<times> combos) \<Rightarrow> memory \<Rightarrow> storage_error option \<times> memory" where
  "on_combos f m = (case f (mem_combos m) of (e, cs) \<Rightarrow> (e, m\<lparr>mem_combos := cs\<rparr>))"

definition encode_combo :: "combo \<Rightarrow> json" where
  "encode_combo c = json_object [
     (''name'', json_of_string (co_name c)), (''strategy'', json_of_string (strategy_text (co_strategy c))),
     (''members'', json_strings (co_members c)), (''weights'', json_array (map json_of_int (co_weights c))),
     (''enabled'', json_of_bool (co_enabled c))]"

definition handle_list_combos :: "(answer, 'w) act" where
  "handle_list_combos =
     and_then (must (listing stored_combos)) (\<lambda>cs. give (Answer 200 (json_array (map encode_combo cs))))"

definition alias_exists :: "string \<Rightarrow> answer" where
  "alias_exists n = conflict (''A model alias named '' @ quoted n @ '' already exists.'')"

definition combo_exists :: "string \<Rightarrow> answer" where
  "combo_exists n = conflict (''A combo named '' @ quoted n @ '' already exists.'')"

text \<open>A name that no alias has; any other failure of the lookup fails the handler.\<close>

definition no_alias_named :: "string \<Rightarrow> (unit, 'w) act" where
  "no_alias_named n = and_then (ask_record (get_model n)) (\<lambda>r. ensure (r = None) (alias_exists n))"

definition no_combo_named :: "string \<Rightarrow> (unit, 'w) act" where
  "no_combo_named n = and_then (ask_record (get_combo n)) (\<lambda>r. ensure (r = None) (combo_exists n))"

record combo_request =
  bq_strategy :: string
  bq_members :: "string list"
  bq_weights :: "int list"
  bq_enabled :: "bool option"

definition decode_combo_request :: "(string \<times> json) list \<Rightarrow> combo_request option" where
  "decode_combo_request ms = do {
     s \<leftarrow> string_of ''strategy'' ms; xs \<leftarrow> slice_field as_string ''members'' ms;
     ws \<leftarrow> slice_field as_int ''weights'' ms; e \<leftarrow> pointer_field as_bool ''enabled'' ms;
     Some \<lparr>bq_strategy = s, bq_members = xs, bq_weights = ws, bq_enabled = e\<rparr> }"

definition enabled_or_default :: "bool option \<Rightarrow> bool" where
  "enabled_or_default e = (e = None \<or> e = Some True)"

definition requested_strategy :: "string \<Rightarrow> combo_strategy option" where
  "requested_strategy s =
     (if s = [] \<or> s = ''fallback'' then Some ComboFallback
      else if s = ''round_robin'' then Some ComboRoundRobin
      else if s = ''weighted'' then Some ComboWeighted
      else if s = ''intelligent'' then Some ComboIntelligent
      else None)"

text \<open>The weights to store, or what is wrong with them.\<close>

definition requested_weights :: "combo_strategy \<Rightarrow> combo_request \<Rightarrow> answer + int list" where
  "requested_weights st rq =
     (let ws = bq_weights rq in
      if st \<noteq> ComboWeighted then Inr []
      else if ws = [] then Inr []
      else if length ws \<noteq> length (bq_members rq)
        then Inl (bad_request (''Field '' @ quoted ''weights'' @ '' must have one entry per member.''))
      else if list_ex (\<lambda>w. w < 1) ws
        then Inl (bad_request (''Field '' @ quoted ''weights'' @ '' must hold positive integers.''))
      else Inr ws)"

fun check_members :: "string list \<Rightarrow> (unit, 'w) act" where
  "check_members [] = give ()"
| "check_members (m # ms) = and_then (ask_record (get_model m)) (\<lambda>r.
     and_then (ensure (r \<noteq> None) (bad_request (''Unknown model alias '' @ quoted m @ ''.''))) (\<lambda>_.
     check_members ms))"

definition save_combo :: "combo \<Rightarrow> (unit, 'w) act" where
  "save_combo c = and_then (must (writing (put_combo c))) (\<lambda>_. load)"

definition handle_put_combo :: "'w admin_env \<Rightarrow> admin_call \<Rightarrow> (answer, 'w) act" where
  "handle_put_combo env c = (let name = url_param c ''name'' in
     and_then (decode_body env decode_combo_request c) (\<lambda>rq.
     and_then (ensure (bq_members rq \<noteq> [])
       (bad_request (''Field '' @ quoted ''members'' @ '' must list at least one alias.''))) (\<lambda>_.
     case requested_strategy (bq_strategy rq) of
       None \<Rightarrow> stop (bad_request (''Field '' @ quoted ''strategy'' @ '' must be '' @ quoted ''fallback'' @ '', ''
         @ quoted ''round_robin'' @ '', '' @ quoted ''weighted'' @ '' or '' @ quoted ''intelligent'' @ ''.''))
     | Some st \<Rightarrow> (case requested_weights st rq of
         Inl a \<Rightarrow> stop a
       | Inr ws \<Rightarrow>
           and_then (no_alias_named name) (\<lambda>_.
           and_then (check_members (bq_members rq)) (\<lambda>_.
           let r = \<lparr>co_name = name, co_strategy = st, co_members = bq_members rq, co_weights = ws,
             co_enabled = enabled_or_default (bq_enabled rq)\<rparr> in
           and_then (save_combo r) (\<lambda>_.
           give (Answer 200 (encode_combo r)))))))))"

definition handle_rename_combo :: "'w admin_env \<Rightarrow> admin_call \<Rightarrow> (answer, 'w) act" where
  "handle_rename_combo env c = (let old_name = url_param c ''name'' in
     and_then (decode_body env (\<lambda>ms. map_option trim_space (string_of ''name'' ms)) c) (\<lambda>new_name.
     and_then (ensure (new_name \<noteq> []) (bad_request (''Field '' @ quoted ''name'' @ '' must not be blank.''))) (\<lambda>_.
     and_then (if new_name = old_name then give ()
       else and_then (no_alias_named new_name) (\<lambda>_. no_combo_named new_name)) (\<lambda>_.
     and_then (must (reading (get_combo old_name))) (\<lambda>combo.
     and_then (ask (updating (on_combos (combos_rename old_name new_name)))) (\<lambda>r.
     case r of
       Inl e \<Rightarrow> stop (if e = Stored StorageConflict then combo_exists new_name else fail e)
     | Inr _ \<Rightarrow> and_then load (\<lambda>_. give (Answer 200 (encode_combo (combo\<lparr>co_name := new_name\<rparr>))))))))))"

definition handle_delete_combo :: "admin_call \<Rightarrow> (answer, 'w) act" where
  "handle_delete_combo c =
     and_then (must (updating (on_combos (combos_delete (url_param c ''name''))))) (\<lambda>_.
     and_then load (\<lambda>_.
     give NoContent))"

section \<open>Proxies\<close>

definition get_proxy :: "string \<Rightarrow> memory \<Rightarrow> storage_error + proxy" where
  "get_proxy n m = proxies_get n (mem_proxies m)"

definition put_proxy :: "proxy \<Rightarrow> memory \<Rightarrow> memory" where
  "put_proxy p m = m\<lparr>mem_proxies := proxies_put p (mem_proxies m)\<rparr>"

definition on_proxies :: "(proxies \<Rightarrow> storage_error option \<times> proxies) \<Rightarrow> memory \<Rightarrow> storage_error option \<times> memory" where
  "on_proxies f m = (case f (mem_proxies m) of (e, xs) \<Rightarrow> (e, m\<lparr>mem_proxies := xs\<rparr>))"

definition encode_proxy :: "proxy \<Rightarrow> json" where
  "encode_proxy p = json_object [(''name'', json_of_string (px_name p)), (''url'', json_of_string (px_url p)),
     (''enabled'', json_of_bool (px_enabled p))]"

definition proxy_schemes :: "string list" where
  "proxy_schemes = [''http'', ''https'', ''socks5'', ''socks5h'']"

definition handle_list_proxies :: "(answer, 'w) act" where
  "handle_list_proxies =
     and_then (must (listing stored_proxies)) (\<lambda>xs. give (Answer 200 (json_array (map encode_proxy xs))))"

definition decode_proxy_request :: "(string \<times> json) list \<Rightarrow> (string \<times> bool option) option" where
  "decode_proxy_request ms = do {
     u \<leftarrow> string_of ''url'' ms; e \<leftarrow> pointer_field as_bool ''enabled'' ms; Some (u, e) }"

definition dialable :: "string \<Rightarrow> bool" where
  "dialable addr = (case url_parse addr of
      None \<Rightarrow> False | Some u \<Rightarrow> \<not> (ul_host u = [] \<or> ul_scheme u \<notin> set proxy_schemes))"

definition handle_put_proxy :: "'w admin_env \<Rightarrow> admin_call \<Rightarrow> (answer, 'w) act" where
  "handle_put_proxy env c =
     and_then (decode_body env decode_proxy_request c) (\<lambda>(u, e).
     let addr = trim_space u in
     and_then (ensure (addr \<noteq> []) (required_field ''url'')) (\<lambda>_.
     and_then (ensure (dialable addr)
       (bad_request (''Field '' @ quoted ''url'' @ '' must be an http, https or socks5 proxy URL.''))) (\<lambda>_.
     let p = \<lparr>px_name = url_param c ''name'', px_url = addr, px_enabled = enabled_or_default e\<rparr> in
     and_then (must (writing (put_proxy p))) (\<lambda>_.
     and_then load (\<lambda>_.
     give (Answer 200 (encode_proxy p)))))))"

definition handle_delete_proxy :: "admin_call \<Rightarrow> (answer, 'w) act" where
  "handle_delete_proxy c =
     and_then (must (updating (on_proxies (proxies_delete (url_param c ''name''))))) (\<lambda>_.
     and_then load (\<lambda>_.
     give NoContent))"

definition split_proxy_lines :: "string \<Rightarrow> string list" where
  "split_proxy_lines t =
     filter (\<lambda>l. \<not> (l = [] \<or> has_prefix l ''#'')) (map trim_space (split_on t [CHR 0x0A]))"

definition build_proxy_url :: "string \<Rightarrow> string \<Rightarrow> string \<Rightarrow> string \<Rightarrow> go_url option" where
  "build_proxy_url host port user pass =
     (if host = [] then None
      else (case atoi port of
          None \<Rightarrow> None
        | Some n \<Rightarrow>
            if n < 1 \<or> n > 65535 then None
            else Some (empty_url\<lparr>ul_scheme := ''http'', ul_host := host @ '':'' @ port,
              ul_user := (if user = [] then None else Some (user, Some pass))\<rparr>)))"

definition parse_proxy_line :: "string \<Rightarrow> go_url option" where
  "parse_proxy_line line =
     (if contains line ''://'' then
        (case url_parse line of
           None \<Rightarrow> None
         | Some u \<Rightarrow> if ul_host u = [] \<or> url_port u = [] \<or> ul_scheme u \<notin> set proxy_schemes then None else Some u)
      else (case split_on line '':'' of
          [h, p] \<Rightarrow> build_proxy_url h p [] []
        | [h, p, u, w] \<Rightarrow> build_proxy_url h p u w
        | _ \<Rightarrow> None))"

record import_report =
  ir_imported :: "proxy list"
  ir_skipped :: "string list"
  ir_invalid :: "string list"

text \<open>The loop over the lines, with the names seen so far.\<close>

fun proxy_loop :: "bool \<Rightarrow> bool \<Rightarrow> string list \<Rightarrow> string list \<Rightarrow> import_report \<Rightarrow> (import_report, 'w) act" where
  "proxy_loop on overwrite [] seen rep = give rep"
| "proxy_loop on overwrite (line # ls) seen rep =
     (case parse_proxy_line line of
        None \<Rightarrow> proxy_loop on overwrite ls seen (rep\<lparr>ir_invalid := ir_invalid rep @ [line]\<rparr>)
      | Some u \<Rightarrow>
          (let name = ul_host u; skip = rep\<lparr>ir_skipped := ir_skipped rep @ [name]\<rparr> in
           if name \<in> set seen then proxy_loop on overwrite ls seen skip
           else and_then (if overwrite then give None else ask_record (get_proxy name)) (\<lambda>existing.
             if existing \<noteq> None then proxy_loop on overwrite ls (name # seen) skip
             else (let p = \<lparr>px_name = name, px_url = url_string u, px_enabled = on\<rparr> in
               and_then (must (writing (put_proxy p))) (\<lambda>_.
               proxy_loop on overwrite ls (name # seen) (rep\<lparr>ir_imported := ir_imported rep @ [p]\<rparr>))))))"

definition decode_import_proxies :: "(string \<times> json) list \<Rightarrow> (string \<times> bool option \<times> bool) option" where
  "decode_import_proxies ms = do {
     t \<leftarrow> string_of ''text'' ms; e \<leftarrow> pointer_field as_bool ''enabled'' ms;
     w \<leftarrow> field_or False as_bool ''overwrite'' ms; Some (t, e, w) }"

definition encode_report :: "import_report \<Rightarrow> json" where
  "encode_report r = json_object [(''imported'', json_array (map encode_proxy (ir_imported r))),
     (''skipped'', json_strings (ir_skipped r)), (''invalid'', json_strings (ir_invalid r))]"

definition empty_report :: import_report where
  "empty_report = \<lparr>ir_imported = [], ir_skipped = [], ir_invalid = []\<rparr>"

definition handle_import_proxies :: "'w admin_env \<Rightarrow> admin_call \<Rightarrow> (answer, 'w) act" where
  "handle_import_proxies env c =
     and_then (decode_body env decode_import_proxies c) (\<lambda>(t, on, overwrite).
     let ls = split_proxy_lines t in
     and_then (ensure (ls \<noteq> [])
       (bad_request (''Field '' @ quoted ''text'' @ '' must hold at least one proxy line.''))) (\<lambda>_.
     and_then (proxy_loop (enabled_or_default on) overwrite ls [] empty_report) (\<lambda>rep.
     and_then (if ir_imported rep \<noteq> [] then load else give ()) (\<lambda>_.
     give (Answer 200 (encode_report rep))))))"

end
