(* ===== verification/Admin_Usage.thy ===== *)
theory Admin_Usage
  imports Admin_Keys
begin

text \<open>
  Usage reports (\<^verbatim>\<open>internal/api/admin.go\<close>) and the request log (\<^verbatim>\<open>internal/api/trace.go\<close>) of the
  admin API.
\<close>

section \<open>The window\<close>

definition usage_window :: "admin_call \<Rightarrow> duration \<times> duration" where
  "usage_window c =
     (let hours = (case positive_int (ca_query c ''hours'') of None \<Rightarrow> 24 | Some n \<Rightarrow> n);
          window = min hours max_hours * hour; bucket = window div 60
      in (window, if bucket < minute then minute else bucket))"

text \<open>The loop of the summary: one instant per bucket, up to now.\<close>

function bucket_starts :: "duration \<Rightarrow> instant \<Rightarrow> instant \<Rightarrow> instant list" where
  "bucket_starts bucket now t = (if bucket \<le> 0 \<or> t > now then [] else t # bucket_starts bucket now (t + bucket))"
  by auto
termination by (relation "measure (\<lambda>(bucket, now, t). nat (now - t + 1))") auto

declare bucket_starts.simps [simp del]

section \<open>Reports\<close>

definition group_fields :: "'w admin_env \<Rightarrow> 'k usage_group \<Rightarrow> (string \<times> json) list" where
  "group_fields env g = [
     (''requests'', json_of_int (ug_requests g)), (''prompt_tokens'', json_of_int (ug_prompt g)),
     (''completion_tokens'', json_of_int (ug_completion g)), (''cached_tokens'', json_of_int (ug_cached g))]"

definition encode_bucket :: "'w admin_env \<Rightarrow> instant \<times> instant usage_group \<Rightarrow> json" where
  "encode_bucket env b = json_object ((''start'', json_of_string (rfc3339 (fst b)))
     # group_fields env (snd b) @ [(''cost_usd'', json_float env (ug_cost (snd b)))])"

definition filled_series :: "instant usage_group list \<Rightarrow> instant list \<Rightarrow> (instant \<times> instant usage_group) list" where
  "filled_series series ts = map (\<lambda>t. (t,
     case List.find (\<lambda>g. ug_key g div second = t div second) (rev series) of None \<Rightarrow> zero_group 0 | Some g \<Rightarrow> g)) ts"

definition summary_series :: "instant \<Rightarrow> instant \<Rightarrow> duration \<Rightarrow> usage_event list \<Rightarrow> (instant \<times> instant usage_group) list" where
  "summary_series since now bucket evs =
     filled_series (usage_series since bucket evs) (bucket_starts bucket now (truncate_time since bucket))"

definition encode_totals :: "'w admin_env \<Rightarrow> usage_totals \<Rightarrow> json" where
  "encode_totals env t = json_object [
     (''requests'', json_of_int (ut_requests t)), (''errors'', json_of_int (ut_errors t)),
     (''prompt_tokens'', json_of_int (ut_prompt t)), (''completion_tokens'', json_of_int (ut_completion t)),
     (''cached_tokens'', json_of_int (ut_cached t)), (''cost_usd'', json_float env (ut_cost t))]"

definition handle_usage_summary :: "'w admin_env \<Rightarrow> admin_call \<Rightarrow> (answer, 'w) act" where
  "handle_usage_summary env c = (case usage_window c of (window, bucket) \<Rightarrow>
     and_then (look (\<lambda>s. admin_now env s - window)) (\<lambda>since.
     and_then (must (listing (\<lambda>m. usage_totals_since since (mem_usage m)))) (\<lambda>totals.
     and_then (must (listing (\<lambda>m. usage_series since bucket (mem_usage m)))) (\<lambda>series.
     look (\<lambda>s. Answer 200 (json_object [
       (''window_hours'', json_of_int (window div hour)), (''bucket_ms'', json_of_int (duration_ms bucket)),
       (''totals'', encode_totals env totals),
       (''series'', json_array (map (encode_bucket env) (filled_series series
          (bucket_starts bucket (admin_now env s) (truncate_time since bucket)))))]))))))"

definition encode_event :: "'w admin_env \<Rightarrow> usage_event \<Rightarrow> json" where
  "encode_event env e = json_object [
     (''id'', json_of_int (ue_id e)), (''created_at'', json_of_string (rfc3339 (ue_created_at e))),
     (''alias'', json_of_string (ue_alias e)), (''provider'', json_of_string (ue_provider e)),
     (''model'', json_of_string (ue_model e)), (''streamed'', json_of_bool (ue_streamed e)),
     (''status'', json_of_string (ue_status e)), (''duration_ms'', json_of_int (duration_ms (ue_duration e))),
     (''prompt_tokens'', json_of_int (ue_prompt e)), (''completion_tokens'', json_of_int (ue_completion e)),
     (''cached_tokens'', json_of_int (ue_cached e)), (''reasoning_tokens'', json_of_int (ue_reasoning e)),
     (''total_tokens'', json_of_int (ue_prompt e + ue_completion e)), (''cost_usd'', json_float env (ue_cost e))]"

definition recent_limit :: "string \<Rightarrow> int" where
  "recent_limit s = min (case positive_int s of None \<Rightarrow> 20 | Some n \<Rightarrow> n) 200"

definition handle_usage_recent :: "'w admin_env \<Rightarrow> admin_call \<Rightarrow> (answer, 'w) act" where
  "handle_usage_recent env c =
     and_then (must (listing (\<lambda>m. usage_recent (recent_limit (ca_query c ''limit'')) (mem_usage m)))) (\<lambda>evs.
     give (Answer 200 (json_array (map (encode_event env) evs))))"

definition encode_model_usage :: "'w admin_env \<Rightarrow> string usage_group \<Rightarrow> json" where
  "encode_model_usage env g = json_object ((''alias'', json_of_string (ug_key g)) # group_fields env g
     @ [(''total_tokens'', json_of_int (ug_prompt g + ug_completion g)), (''cost_usd'', json_float env (ug_cost g)),
        (''last_used'', json_of_string (rfc3339 (ug_last_used g)))])"

definition handle_usage_by_model :: "'w admin_env \<Rightarrow> (answer, 'w) act" where
  "handle_usage_by_model env =
     and_then (must (listing (\<lambda>m. usage_by_model (mem_usage m)))) (\<lambda>gs.
     give (Answer 200 (json_array (map (encode_model_usage env) gs))))"

definition leaderboard_limit :: "string \<Rightarrow> int" where
  "leaderboard_limit s = (case positive_int s of None \<Rightarrow> 10 | Some n \<Rightarrow> if n \<le> 50 then n else 10)"

definition leaderboard_sort_of :: "string \<Rightarrow> leaderboard_sort" where
  "leaderboard_sort_of s = (if s = ''tokens'' then LeaderboardByTokens
     else if s = ''cost'' then LeaderboardByCost else LeaderboardByRequests)"

definition handle_leaderboard :: "'w admin_env \<Rightarrow> admin_call \<Rightarrow> (answer, 'w) act" where
  "handle_leaderboard env c =
     and_then (look (\<lambda>s. admin_now env s - fst (usage_window c))) (\<lambda>since.
     and_then (must (listing (\<lambda>m. usage_leaderboard since (leaderboard_limit (ca_query c ''limit''))
       (leaderboard_sort_of (ca_query c ''sort'')) (mem_usage m)))) (\<lambda>gs.
     give (Answer 200 (json_array (map (encode_model_usage env) gs)))))"

definition key_name :: "api_key list \<Rightarrow> string \<Rightarrow> string" where
  "key_name ks i = (case List.find (\<lambda>k. ak_id k = i) (rev ks) of
      None \<Rightarrow> ''unattributed'' | Some k \<Rightarrow> if ak_name k = [] then ''unattributed'' else ak_name k)"

definition encode_key_usage :: "'w admin_env \<Rightarrow> api_key list \<Rightarrow> string usage_group \<Rightarrow> json" where
  "encode_key_usage env ks g = json_object (
     [(''key_id'', json_of_string (ug_key g)), (''name'', json_of_string (key_name ks (ug_key g)))]
     @ group_fields env g
     @ [(''total_tokens'', json_of_int (ug_prompt g + ug_completion g)), (''cost_usd'', json_float env (ug_cost g)),
        (''last_used'', json_of_string (rfc3339 (ug_last_used g)))])"

definition handle_usage_by_key :: "'w admin_env \<Rightarrow> admin_call \<Rightarrow> (answer, 'w) act" where
  "handle_usage_by_key env c =
     and_then (look (\<lambda>s. admin_now env s - fst (usage_window c))) (\<lambda>since.
     and_then (must (listing (\<lambda>m. usage_by_key since (mem_usage m)))) (\<lambda>gs.
     and_then (rows_or_none (ask (listing (\<lambda>m. keys_list (mem_keys m))))) (\<lambda>ks.
     give (Answer 200 (json_array (map (encode_key_usage env ks) gs))))))"

section \<open>The request log\<close>

definition default_trace_limit :: int where "default_trace_limit = 25"
definition max_trace_limit :: int where "max_trace_limit = 200"

definition query_int :: "string \<Rightarrow> int \<Rightarrow> int \<Rightarrow> int" where
  "query_int s fallback limit =
     (if s = [] then fallback
      else (case atoi s of
          None \<Rightarrow> fallback
        | Some n \<Rightarrow> if n < 0 then fallback else if limit > 0 \<and> n > limit then limit else n))"

definition trace_query :: "admin_call \<Rightarrow> trace_filter" where
  "trace_query c = \<lparr>tf_status = ca_query c ''status'', tf_model = ca_query c ''model'',
     tf_provider = ca_query c ''provider'', tf_key_id = ca_query c ''api_key'', tf_dialect = ca_query c ''dialect'',
     tf_limit = query_int (ca_query c ''limit'') default_trace_limit max_trace_limit,
     tf_offset = query_int (ca_query c ''offset'') 0 0\<rparr>"

definition encode_attempt :: "request_attempt \<Rightarrow> json" where
  "encode_attempt a = json_object (
     [(''seq'', json_of_int (ra_seq a)), (''started_at'', json_of_string (rfc3339 (ra_started_at a))),
      (''alias'', json_of_string (ra_alias a)), (''provider'', json_of_string (ra_provider a)),
      (''model'', json_of_string (ra_model a)), (''latency_ms'', json_of_int (duration_ms (ra_latency a))),
      (''status'', json_of_string (ra_status a)), (''retry'', json_of_bool (ra_retry a)),
      (''fallback'', json_of_bool (ra_fallback a))] @ omit_empty ''error'' (ra_error a))"

definition encode_trace :: "'w admin_env \<Rightarrow> request_attempt list \<Rightarrow> request_trace \<Rightarrow> json" where
  "encode_trace env attempts t = json_object (
     [(''request_id'', json_of_string (rt_request_id t)), (''created_at'', json_of_string (rfc3339 (rt_created_at t))),
      (''api_key'', json_of_string (rt_key_id t)), (''model'', json_of_string (rt_model t)),
      (''dialect'', json_of_string (rt_dialect t)), (''streamed'', json_of_bool (rt_streamed t)),
      (''total_latency_ms'', json_of_int (duration_ms (rt_total_latency t))),
      (''total_tokens'', json_of_int (rt_total_tokens t)), (''total_cost_usd'', json_float env (rt_total_cost t)),
      (''final_provider'', json_of_string (rt_final_provider t)), (''final_alias'', json_of_string (rt_final_alias t)),
      (''final_status'', json_of_string (rt_final_status t)), (''attempt_count'', json_of_int (rt_attempt_count t))]
     @ (if attempts = [] then [] else [(''attempts'', json_array (map encode_attempt attempts))]))"

definition handle_list_requests :: "'w admin_env \<Rightarrow> admin_call \<Rightarrow> (answer, 'w) act" where
  "handle_list_requests env c = (let f = trace_query c in
     and_then (must (listing (\<lambda>m. trace_list f (mem_traces m)))) (\<lambda>(ts, n).
     give (Answer 200 (json_object [(''items'', json_array (map (encode_trace env []) ts)),
       (''total'', json_of_int n), (''limit'', json_of_int (tf_limit f)), (''offset'', json_of_int (tf_offset f))]))))"

definition handle_get_request :: "'w admin_env \<Rightarrow> admin_call \<Rightarrow> (answer, 'w) act" where
  "handle_get_request env c =
     and_then (must (reading (\<lambda>m. trace_get (url_param c ''request_id'') (mem_traces m)))) (\<lambda>t.
     give (Answer 200 (encode_trace env (rt_attempts t) t)))"

end
