(* ===== verification/Admin_Settings.thy ===== *)
theory Admin_Settings
  imports Admin_State Config
begin

text \<open>
  Extensions, prompt entries, bare settings and the optimiser's settings in the admin API
  (\<^verbatim>\<open>internal/api/admin.go\<close>), and what \<^verbatim>\<open>main\<close> reads back of them at the next start
  (\<^verbatim>\<open>cmd/server/main.go\<close>).
\<close>

section \<open>Extensions\<close>

record extension =
  ex_id :: string
  ex_name :: string
  ex_type :: string

definition hardcoded_extensions :: "extension list" where
  "hardcoded_extensions = [
     \<lparr>ex_id = ''system-prompt-injector'', ex_name = ''System Prompt Injector'', ex_type = ''system_prompt_injector''\<rparr>,
     \<lparr>ex_id = ''ponytail'', ex_name = ''Ponytail'', ex_type = ''context_optimizer''\<rparr>]"

definition encode_extension :: "extension \<Rightarrow> json" where
  "encode_extension e = json_object [
     (''id'', json_of_string (ex_id e)), (''name'', json_of_string (ex_name e)),
     (''type'', json_of_string (ex_type e)), (''enabled'', json_of_bool True),
     (''created_at'', json_of_string []), (''updated_at'', json_of_string [])]"

definition handle_list_extensions :: "(answer, 'w) act" where
  "handle_list_extensions = give (Answer 200 (json_array (map encode_extension hardcoded_extensions)))"

definition handle_get_extension :: "admin_call \<Rightarrow> (answer, 'w) act" where
  "handle_get_extension c = (case List.find (\<lambda>e. ex_id e = url_param c ''id'') hardcoded_extensions of
      Some e \<Rightarrow> give (Answer 200 (encode_extension e))
    | None \<Rightarrow> stop (refuse 404 ''invalid_request_error'' ''Extension not found.''))"

section \<open>Prompt entries\<close>

definition encode_prompt_entry :: "prompt_entry \<Rightarrow> json" where
  "encode_prompt_entry e = json_object [
     (''id'', json_of_string (se_id e)), (''extension_id'', json_of_string (se_extension_id e)),
     (''name'', json_of_string (se_name e)), (''prompt'', json_of_string (se_prompt e)),
     (''priority'', json_of_int (se_priority e)), (''enabled'', json_of_bool (se_enabled e)),
     (''created_at'', json_of_string (rfc3339 (se_created_at e))),
     (''updated_at'', json_of_string (rfc3339 (se_updated_at e)))]"

definition on_prompts :: "(prompt_entries \<Rightarrow> storage_error option \<times> prompt_entries) \<Rightarrow> memory \<Rightarrow> storage_error option \<times> memory" where
  "on_prompts f m = (case f (mem_prompts m) of (e, ps) \<Rightarrow> (e, m\<lparr>mem_prompts := ps\<rparr>))"

definition put_prompt :: "prompt_entry \<Rightarrow> memory \<Rightarrow> memory" where
  "put_prompt e m = m\<lparr>mem_prompts := prompts_put e (mem_prompts m)\<rparr>"

definition handle_list_prompt_entries :: "admin_call \<Rightarrow> (answer, 'w) act" where
  "handle_list_prompt_entries c =
     and_then (must (listing (\<lambda>m. prompts_list (url_param c ''id'') (mem_prompts m)))) (\<lambda>es.
     give (Answer 200 (json_array (map encode_prompt_entry es))))"

record prompt_request =
  pt_name :: string
  pt_prompt :: string
  pt_priority :: "int option"
  pt_enabled :: "bool option"

definition decode_prompt_request :: "(string \<times> json) list \<Rightarrow> prompt_request option" where
  "decode_prompt_request ms = do {
     n \<leftarrow> string_of ''name'' ms; p \<leftarrow> string_of ''prompt'' ms;
     i \<leftarrow> pointer_field as_int ''priority'' ms; e \<leftarrow> pointer_field as_bool ''enabled'' ms;
     Some \<lparr>pt_name = n, pt_prompt = p, pt_priority = i, pt_enabled = e\<rparr> }"

text \<open>\<^verbatim>\<open>newID\<close>: sixteen random bytes, in hexadecimal with four dashes.\<close>

definition new_id :: "'w admin_env \<Rightarrow> (string, 'w) act" where
  "new_id env s = (case ae_uuid env (am_world s) of (b, w) \<Rightarrow>
     (Inr (hex_bytes (take 4 b) @ ''-'' @ hex_bytes (take 2 (drop 4 b)) @ ''-'' @ hex_bytes (take 2 (drop 6 b))
        @ ''-'' @ hex_bytes (take 2 (drop 8 b)) @ ''-'' @ hex_bytes (drop 10 b)), set_world w s))"

definition handle_create_prompt_entry :: "'w admin_env \<Rightarrow> admin_call \<Rightarrow> (answer, 'w) act" where
  "handle_create_prompt_entry env c =
     and_then (decode_body env decode_prompt_request c) (\<lambda>rq.
     and_then (ensure (pt_name rq \<noteq> []) (required_field ''name'')) (\<lambda>_.
     and_then (ensure (pt_prompt rq \<noteq> []) (required_field ''prompt'')) (\<lambda>_.
     and_then (look (admin_now env)) (\<lambda>now.
     and_then (new_id env) (\<lambda>i.
     let e = \<lparr>se_id = i, se_extension_id = url_param c ''id'', se_name = pt_name rq, se_prompt = pt_prompt rq,
       se_priority = (case pt_priority rq of None \<Rightarrow> 0 | Some p \<Rightarrow> p),
       se_enabled = (pt_enabled rq = None \<or> pt_enabled rq = Some True), se_created_at = now, se_updated_at = now\<rparr> in
     and_then (must (writing (put_prompt e))) (\<lambda>_.
     give (Answer 201 (encode_prompt_entry e))))))))"

definition edited_prompt :: "prompt_request \<Rightarrow> instant \<Rightarrow> prompt_entry \<Rightarrow> prompt_entry" where
  "edited_prompt rq now e = e\<lparr>
     se_name := (if pt_name rq \<noteq> [] then pt_name rq else se_name e),
     se_prompt := (if pt_prompt rq \<noteq> [] then pt_prompt rq else se_prompt e),
     se_priority := (case pt_priority rq of None \<Rightarrow> se_priority e | Some p \<Rightarrow> p),
     se_enabled := (case pt_enabled rq of None \<Rightarrow> se_enabled e | Some b \<Rightarrow> b), se_updated_at := now\<rparr>"

definition handle_put_prompt_entry :: "'w admin_env \<Rightarrow> admin_call \<Rightarrow> (answer, 'w) act" where
  "handle_put_prompt_entry env c =
     and_then (decode_body env decode_prompt_request c) (\<lambda>rq.
     and_then (must (reading (\<lambda>m. prompts_get (url_param c ''entry_id'') (mem_prompts m)))) (\<lambda>old.
     and_then (look (\<lambda>s. edited_prompt rq (admin_now env s) old)) (\<lambda>e.
     and_then (must (writing (put_prompt e))) (\<lambda>_.
     give (Answer 200 (encode_prompt_entry e))))))"

definition handle_delete_prompt_entry :: "admin_call \<Rightarrow> (answer, 'w) act" where
  "handle_delete_prompt_entry c =
     and_then (must (updating (on_prompts (prompts_delete (url_param c ''entry_id''))))) (\<lambda>_.
     give NoContent)"

section \<open>Settings\<close>

text \<open>A map is written with its keys in order.\<close>

definition handle_list_settings :: "(answer, 'w) act" where
  "handle_list_settings =
     and_then (must (listing (\<lambda>m. settings_all (mem_settings m)))) (\<lambda>kv.
     give (Answer 200 (json_object (map (\<lambda>(k, v). (k, json_of_string v)) (sort_key fst kv)))))"

definition put_setting :: "string \<Rightarrow> string \<Rightarrow> memory \<Rightarrow> memory" where
  "put_setting k v m = m\<lparr>mem_settings := settings_put k v (mem_settings m)\<rparr>"

definition decode_settings :: "(string \<times> json) list \<Rightarrow> (string \<times> string) list option" where
  "decode_settings ms =
     opt_all (\<lambda>(k, v). map_option (Pair k) (as_string v)) (AList.clearjunk (rev ms))"

fun put_settings :: "(string \<times> string) list \<Rightarrow> (unit, 'w) act" where
  "put_settings [] = give ()"
| "put_settings ((k, v) # kvs) = and_then (must (writing (put_setting k v))) (\<lambda>_. put_settings kvs)"

definition handle_put_settings :: "'w admin_env \<Rightarrow> admin_call \<Rightarrow> (answer, 'w) act" where
  "handle_put_settings env c =
     and_then (decode_body env decode_settings c) (\<lambda>kvs.
     and_then (put_settings kvs) (\<lambda>_.
     handle_list_settings))"

section \<open>The optimiser's settings\<close>

definition pony_key :: "string \<Rightarrow> string" where "pony_key k = ''ponytail.'' @ k"

definition lookup_setting :: "settings \<Rightarrow> string \<Rightarrow> string option" where
  "lookup_setting kv k = (case map_of kv (pony_key k) of Some v \<Rightarrow> if v = [] then None else Some v | None \<Rightarrow> None)"

definition shown_bool :: "settings \<Rightarrow> string \<Rightarrow> bool \<Rightarrow> bool" where
  "shown_bool kv k d = (case lookup_setting kv k of None \<Rightarrow> d | Some v \<Rightarrow> v = ''true'')"

text \<open>\<^verbatim>\<open>Atoi\<close> with its error ignored: 0 for malformed text, the nearest end of an exceeded range.\<close>

definition atoi_clamped :: "string \<Rightarrow> int" where
  "atoi_clamped s =
     (let neg = prefix ''-'' s; ds = (if neg \<or> prefix ''+'' s then drop 1 s else s);
          v = (if neg then - int (nat_of_digits ds) else int (nat_of_digits ds))
      in if ds \<noteq> [] \<and> (\<forall>c \<in> set ds. is_digit c) then max min_int (min max_int v) else 0)"

definition shown_int :: "settings \<Rightarrow> string \<Rightarrow> int \<Rightarrow> int" where
  "shown_int kv k d = (case lookup_setting kv k of
      None \<Rightarrow> d
    | Some v \<Rightarrow> let n = atoi_clamped v in if n = 0 then d else n)"

definition shown_string :: "settings \<Rightarrow> string \<Rightarrow> string \<Rightarrow> string" where
  "shown_string kv k d = (case lookup_setting kv k of None \<Rightarrow> d | Some v \<Rightarrow> v)"

text \<open>What the dashboard is shown: the stored values over the built-in defaults.\<close>

definition shown_config :: "settings \<Rightarrow> pconfig" where
  "shown_config kv = \<lparr>pc_enabled = shown_bool kv ''enabled'' False, pc_mode = shown_string kv ''mode'' ''balanced'',
     pc_min_tokens = shown_int kv ''min_input_tokens'' 12000, pc_min_messages = shown_int kv ''min_messages'' 16,
     pc_window = shown_int kv ''protected_window'' 8,
     pc_conversation = shown_bool kv ''compress_conversation'' True, pc_code = shown_bool kv ''compress_code'' True,
     pc_dedup = shown_bool kv ''deduplicate'' True, pc_metadata = shown_bool kv ''metadata'' True\<rparr>"

definition encode_pony_settings :: "pconfig \<Rightarrow> json" where
  "encode_pony_settings p = json_object [
     (''enabled'', json_of_bool (pc_enabled p)), (''mode'', json_of_string (pc_mode p)),
     (''min_input_tokens'', json_of_int (pc_min_tokens p)), (''min_messages'', json_of_int (pc_min_messages p)),
     (''protected_window'', json_of_int (pc_window p)), (''compress_conversation'', json_of_bool (pc_conversation p)),
     (''compress_code'', json_of_bool (pc_code p)), (''deduplicate'', json_of_bool (pc_dedup p)),
     (''metadata'', json_of_bool (pc_metadata p))]"

definition decode_pony_settings :: "(string \<times> json) list \<Rightarrow> pconfig option" where
  "decode_pony_settings ms = do {
     e \<leftarrow> field_or False as_bool ''enabled'' ms; m \<leftarrow> string_of ''mode'' ms;
     t \<leftarrow> int_of ''min_input_tokens'' ms; n \<leftarrow> int_of ''min_messages'' ms; w \<leftarrow> int_of ''protected_window'' ms;
     cv \<leftarrow> field_or False as_bool ''compress_conversation'' ms; cc \<leftarrow> field_or False as_bool ''compress_code'' ms;
     d \<leftarrow> field_or False as_bool ''deduplicate'' ms; md \<leftarrow> field_or False as_bool ''metadata'' ms;
     Some \<lparr>pc_enabled = e, pc_mode = m, pc_min_tokens = t, pc_min_messages = n, pc_window = w,
       pc_conversation = cv, pc_code = cc, pc_dedup = d, pc_metadata = md\<rparr> }"

definition handle_get_pony_settings :: "(answer, 'w) act" where
  "handle_get_pony_settings =
     and_then (must (listing (\<lambda>m. settings_all (mem_settings m)))) (\<lambda>kv.
     give (Answer 200 (encode_pony_settings (shown_config kv))))"

definition bool_text :: "bool \<Rightarrow> string" where "bool_text b = (if b then ''true'' else ''false'')"

definition pony_settings :: "pconfig \<Rightarrow> (string \<times> string) list" where
  "pony_settings p = [
     (''enabled'', bool_text (pc_enabled p)), (''mode'', pc_mode p),
     (''min_input_tokens'', show_int (pc_min_tokens p)), (''min_messages'', show_int (pc_min_messages p)),
     (''protected_window'', show_int (pc_window p)), (''compress_conversation'', bool_text (pc_conversation p)),
     (''compress_code'', bool_text (pc_code p)), (''deduplicate'', bool_text (pc_dedup p)),
     (''metadata'', bool_text (pc_metadata p))]"

text \<open>A setting that cannot be saved is only logged.\<close>

fun try_settings :: "(string \<times> string) list \<Rightarrow> (unit, 'w) act" where
  "try_settings [] = give ()"
| "try_settings ((k, v) # kvs) = and_then (ask (writing (put_setting (pony_key k) v))) (\<lambda>_. try_settings kvs)"

definition set_pony_config :: "pconfig \<Rightarrow> 'w admin \<Rightarrow> 'w admin" where
  "set_pony_config p = on_gateway (\<lambda>g. g\<lparr>gw_pony := map_option (\<lambda>_. p) (gw_pony g)\<rparr>)"

definition handle_put_pony_settings :: "'w admin_env \<Rightarrow> admin_call \<Rightarrow> (answer, 'w) act" where
  "handle_put_pony_settings env c =
     and_then (decode_body env decode_pony_settings c) (\<lambda>p.
     and_then (try_settings (pony_settings p)) (\<lambda>_.
     and_then (change (set_pony_config p)) (\<lambda>_.
     handle_get_pony_settings)))"

definition encode_analytics :: "'w admin_env \<Rightarrow> pstats \<Rightarrow> json" where
  "encode_analytics env t =
     (let n = ps_requests t;
          comp = (if n > 0 \<and> ps_original t > 0 then 1 - of_int (ps_saved t) / of_int (ps_original t) else 0);
          saved = (if n > 0 then of_int (ps_saved t) / of_int n else 0);
          dur = (if n > 0 then of_int (ps_duration_ms t) / of_int n else 0)
      in json_object [
        (''requests_optimized'', json_of_int n), (''total_tokens_saved'', json_of_int (ps_saved t)),
        (''total_original'', json_of_int (ps_original t)), (''total_optimized'', json_of_int (ps_optimized t)),
        (''total_duration_ms'', json_of_int (ps_duration_ms t)), (''avg_compression_ratio'', json_float env comp),
        (''avg_saved_per_request'', json_float env saved), (''avg_duration_ms'', json_float env dur)])"

definition handle_pony_analytics :: "'w admin_env \<Rightarrow> (answer, 'w) act" where
  "handle_pony_analytics env = look (\<lambda>s. Answer 200 (encode_analytics env
     (case gw_pony_stats (am_gateway s) of None \<Rightarrow> new_pstats | Some t \<Rightarrow> t)))"

section \<open>The next start\<close>

definition restored_int :: "settings \<Rightarrow> string \<Rightarrow> int \<Rightarrow> int" where
  "restored_int kv k d = (case lookup_setting kv k of
      None \<Rightarrow> d | Some v \<Rightarrow> (case atoi v of None \<Rightarrow> d | Some n \<Rightarrow> if n > 0 then n else d))"

text \<open>The stored settings over those of the configuration file.\<close>

definition restored_config :: "settings \<Rightarrow> pconfig \<Rightarrow> pconfig" where
  "restored_config kv p = \<lparr>pc_enabled = shown_bool kv ''enabled'' (pc_enabled p),
     pc_mode = shown_string kv ''mode'' (pc_mode p),
     pc_min_tokens = restored_int kv ''min_input_tokens'' (pc_min_tokens p),
     pc_min_messages = restored_int kv ''min_messages'' (pc_min_messages p),
     pc_window = restored_int kv ''protected_window'' (pc_window p),
     pc_conversation = shown_bool kv ''compress_conversation'' (pc_conversation p),
     pc_code = shown_bool kv ''compress_code'' (pc_code p), pc_dedup = shown_bool kv ''deduplicate'' (pc_dedup p),
     pc_metadata = shown_bool kv ''metadata'' (pc_metadata p)\<rparr>"

end
