(* ===== verification/Admin_Logic.thy ===== *)
theory Admin_Logic
  imports Admin_State
begin

text \<open>
  How the handlers of the admin API are reasoned about. \<open>runs E F m\<close> says what holds when \<open>m\<close>
  ends the request with an answer (\<open>E\<close>) and when it goes on (\<open>F\<close>). The locale \<open>conduct\<close> is the
  interface between a handler's steps and a promise about whole handlers: a relation \<open>K\<close> that
  reading steps keep, a condition \<open>E\<close> on early answers and \<open>F\<close> on final ones. Its rules follow
  the shape of the code; a promise is an interpretation of it.
\<close>

section \<open>Nothing but time has passed\<close>

definition unchanged :: "'w admin \<Rightarrow> 'w admin \<Rightarrow> bool" where
  "unchanged s t \<longleftrightarrow> the_store t = the_store s
     \<and> (am_gateway t)\<lparr>gw_world := gw_world (am_gateway s)\<rparr> = am_gateway s"

lemma unchanged_refl [simp]: "unchanged s s"
  by (simp add: unchanged_def)

lemma unchanged_trans: "unchanged s t \<Longrightarrow> unchanged t u \<Longrightarrow> unchanged s u"
  unfolding unchanged_def by (metis gateway.surjective gateway.update_convs(3))

lemma unchanged_parts:
  assumes "unchanged s t"
  shows "the_store t = the_store s" and "am_engine t = am_engine s" and "am_routes t = am_routes s"
    and "gw_cache (am_gateway t) = gw_cache (am_gateway s)" and "gw_quota (am_gateway t) = gw_quota (am_gateway s)"
    and "gw_pony (am_gateway t) = gw_pony (am_gateway s)"
  using assms by (auto simp: unchanged_def am_engine_def am_routes_def elim: ssubst)
    (metis gateway.ext_inject gateway.surjective gateway.update_convs(3))+

lemma store_of_world [simp]: "the_store (set_world w s) = the_store s"
  by (simp add: the_store_def set_world_def on_gateway_def am_engine_def split: option.split)

lemma store_of_faults [simp]: "the_store (s\<lparr>am_faults := fs\<rparr>) = the_store s"
  by (simp add: the_store_def am_engine_def split: option.split)

lemma unchanged_world [simp]: "unchanged s (set_world w s)"
  by (simp add: unchanged_def) (simp add: set_world_def on_gateway_def)

lemma unchanged_faults [simp]: "unchanged s (s\<lparr>am_faults := fs\<rparr>)"
  by (simp add: unchanged_def)

lemma put_store_same [simp]: "unchanged s (put_store (the_store s) (s\<lparr>am_faults := fs\<rparr>))"
  by (auto simp: unchanged_def put_store_def on_gateway_def the_store_def am_engine_def split: option.splits)

lemma store_of_put [simp]: "the_store (put_store m s) = m"
  by (auto simp: put_store_def on_gateway_def the_store_def am_engine_def split: option.splits)

lemma put_store_rest [simp]:
  "am_routes (put_store m s) = am_routes s"
  "eg_breakers (am_engine (put_store m s)) = eg_breakers (am_engine s)"
  "gw_cache (am_gateway (put_store m s)) = gw_cache (am_gateway s)"
  "gw_pony (am_gateway (put_store m s)) = gw_pony (am_gateway s)"
  "am_faults (put_store m s) = am_faults s"
  "am_world (put_store m s) = am_world s"
  by (simp_all add: put_store_def on_gateway_def am_routes_def am_engine_def am_world_def)

section \<open>Runs\<close>

definition runs ::
    "('w admin \<Rightarrow> answer \<Rightarrow> 'w admin \<Rightarrow> bool) \<Rightarrow> ('w admin \<Rightarrow> 'a \<Rightarrow> 'w admin \<Rightarrow> bool) \<Rightarrow> ('a, 'w) act \<Rightarrow> bool"
where
  "runs E F m \<longleftrightarrow> (\<forall>s. case m s of (Inl a, t) \<Rightarrow> E s a t | (Inr x, t) \<Rightarrow> F s x t)"

lemma runsI:
  assumes "\<And>s a t. m s = (Inl a, t) \<Longrightarrow> E s a t" and "\<And>s x t. m s = (Inr x, t) \<Longrightarrow> F s x t"
  shows "runs E F m"
  using assms by (auto simp: runs_def split: prod.split sum.split)

lemma runs_exit: "runs E F m \<Longrightarrow> m s = (Inl a, t) \<Longrightarrow> E s a t"
  by (auto simp: runs_def split: prod.splits sum.splits dest: spec [of _ s])

lemma runs_result: "runs E F m \<Longrightarrow> m s = (Inr x, t) \<Longrightarrow> F s x t"
  by (auto simp: runs_def split: prod.splits sum.splits dest: spec [of _ s])

lemma runs_weaken:
  "runs E F m \<Longrightarrow> (\<And>s a t. E s a t \<Longrightarrow> E' s a t) \<Longrightarrow> (\<And>s x t. F s x t \<Longrightarrow> F' s x t) \<Longrightarrow> runs E' F' m"
  by (auto simp: runs_def split: prod.splits sum.splits)

lemma runs_both:
  "runs E F m \<Longrightarrow> runs E' F' m \<Longrightarrow> runs (\<lambda>s a t. E s a t \<and> E' s a t) (\<lambda>s x t. F s x t \<and> F' s x t) m"
  by (auto simp: runs_def split: prod.splits sum.splits)

text \<open>The steps of a sequence, met one after the other.\<close>

lemma runs_and_then:
  assumes "runs E G m" and "\<And>x. runs E' F' (f x)"
    and "\<And>s x t a u. G s x t \<Longrightarrow> E' t a u \<Longrightarrow> E s a u" and "\<And>s x t y u. G s x t \<Longrightarrow> F' t y u \<Longrightarrow> F s y u"
  shows "runs E F (and_then m f)"
proof (rule runsI)
  fix s a t
  assume "and_then m f s = (Inl a, t)"
  then show "E s a t"
    by (auto simp: and_then_def split: prod.splits sum.splits
        dest: runs_exit [OF assms(1)] runs_result [OF assms(1)] runs_exit [OF assms(2)] intro: assms(3))
next
  fix s y t
  assume "and_then m f s = (Inr y, t)"
  then show "F s y t"
    by (auto simp: and_then_def split: prod.splits sum.splits
        dest: runs_result [OF assms(1)] runs_result [OF assms(2)] intro: assms(4))
qed

text \<open>Branches and local definitions.\<close>

lemma runs_branches:
  "\<lbrakk>b \<Longrightarrow> runs E F m; \<not> b \<Longrightarrow> runs E F n\<rbrakk> \<Longrightarrow> runs E F (if b then m else n)"
  "(\<And>x. runs E F (g x)) \<Longrightarrow> runs E F (Let d g)"
  "(\<And>x y. runs E F (h x y)) \<Longrightarrow> runs E F (case p of (x, y) \<Rightarrow> h x y)"
  "\<lbrakk>runs E F m; \<And>x. runs E F (g x)\<rbrakk> \<Longrightarrow> runs E F (case opt of None \<Rightarrow> m | Some x \<Rightarrow> g x)"
  "\<lbrakk>\<And>e. runs E F (k e); \<And>x. runs E F (g x)\<rbrakk> \<Longrightarrow> runs E F (case r of Inl e \<Rightarrow> k e | Inr x \<Rightarrow> g x)"
  by (auto split: option.split sum.split prod.split simp: Let_def)

lemma fail_status: "400 \<le> status_of (fail e)" "e \<noteq> Stored StorageNotFound \<Longrightarrow> status_of (fail e) = 500"
  by (simp_all add: fail_def refuse_def)

section \<open>Promises\<close>

locale conduct =
  fixes K :: "'w admin \<Rightarrow> 'w admin \<Rightarrow> bool"
    and E F :: "'w admin \<Rightarrow> answer \<Rightarrow> 'w admin \<Rightarrow> bool"
  assumes K_unchanged: "unchanged s t \<Longrightarrow> K s t"
    and K_trans: "K s t \<Longrightarrow> K t u \<Longrightarrow> K s u"
    and E_after: "K s t \<Longrightarrow> E t a u \<Longrightarrow> E s a u"
    and F_after: "K s t \<Longrightarrow> F t a u \<Longrightarrow> F s a u"
    and E_refusal: "K s t \<Longrightarrow> 400 \<le> status_of a \<Longrightarrow> E s a t"
    and E_broken: "status_of a = 500 \<Longrightarrow> E s a t"
    and F_answer: "K s t \<Longrightarrow> status_of a < 400 \<Longrightarrow> F s a t"
begin

lemma quiet_then:
  "\<lbrakk>runs E (\<lambda>s _. K s) m; \<And>x. runs E (\<lambda>s _. K s) (f x)\<rbrakk> \<Longrightarrow> runs E (\<lambda>s _. K s) (and_then m f)"
  by (rule runs_and_then [where G = "\<lambda>s _. K s" and E' = E and F' = "\<lambda>s _. K s"]) (auto intro: E_after K_trans)

lemma final_then: "\<lbrakk>runs E (\<lambda>s _. K s) m; \<And>x. runs E F (f x)\<rbrakk> \<Longrightarrow> runs E F (and_then m f)"
  by (rule runs_and_then [where G = "\<lambda>s _. K s" and E' = E and F' = F]) (auto intro: E_after F_after)

lemma quiet_give: "runs E (\<lambda>s _. K s) (give x)"
  by (simp add: runs_def give_def K_unchanged)

lemma final_give: "status_of a < 400 \<Longrightarrow> runs E F (give a)"
  by (simp add: runs_def give_def F_answer K_unchanged)

lemma quiet_look: "runs E (\<lambda>s _. K s) (look f)"
  by (simp add: runs_def look_def K_unchanged)

lemma final_look: "(\<And>s. status_of (f s) < 400) \<Longrightarrow> runs E F (look f)"
  by (simp add: runs_def look_def F_answer K_unchanged)

lemma stops: "400 \<le> status_of a \<Longrightarrow> runs E G (stop a)"
  by (simp add: runs_def stop_def E_refusal K_unchanged)

lemma quiet_ensure: "400 \<le> status_of a \<Longrightarrow> runs E (\<lambda>s _. K s) (ensure b a)"
  by (simp add: ensure_def quiet_give stops)

text \<open>A call of the store that leaves its contents as they are.\<close>

lemma quiet_db:
  assumes "\<And>m. snd (op m) = m"
  shows "db op s = (r, t) \<Longrightarrow> K s t"
  using assms [of "the_store s"]
  by (auto simp: db_def Let_def split: if_splits prod.splits sum.splits intro!: K_unchanged)

lemma quiet_must:
  assumes "\<And>m. snd (op m) = m"
  shows "runs E (\<lambda>s _. K s) (must op)"
  by (rule runsI) (auto simp: must_def fail_status split: prod.splits sum.splits
      intro: E_refusal quiet_db [OF assms])

lemma quiet_ask:
  assumes "\<And>m. snd (op m) = m"
  shows "runs E (\<lambda>s _. K s) (ask op)"
  by (rule runsI) (auto simp: ask_def split: prod.splits intro: quiet_db [OF assms])

lemma quiet_reads:
  "runs E (\<lambda>s _. K s) (must (reading f))" "runs E (\<lambda>s _. K s) (must (listing g))"
  "runs E (\<lambda>s _. K s) (ask (reading f))" "runs E (\<lambda>s _. K s) (ask (listing g))"
  by (rule quiet_must quiet_ask; simp add: reading_def listing_def)+

lemma quiet_ask_record: "runs E (\<lambda>s _. K s) (ask_record f)"
  unfolding ask_record_def by (rule quiet_then quiet_reads quiet_give stops fail_status runs_branches)+

lemma decode_status: "400 \<le> status_of (decode_failure e)"
  by (simp add: decode_failure_def refuse_def bad_request_def split: body_error.split)

lemma quiet_decode: "runs E (\<lambda>s _. K s) (decode_body env dec c)"
  unfolding decode_body_def by (rule quiet_give stops decode_status runs_branches)+

lemmas quiet = quiet_then quiet_give quiet_look stops quiet_ensure quiet_reads quiet_ask_record
  quiet_decode runs_branches

text \<open>
  After a step that may have changed anything, an early answer has to be a failure, or come when
  the promise has been restored.
\<close>

lemma after_write:
  assumes "runs E (\<lambda>_ _ _. True) m" and "\<And>x. runs (\<lambda>_ a t. \<forall>s. E s a t) (\<lambda>_ a t. \<forall>s. F s a t) (f x)"
  shows "runs E F (and_then m f)"
  by (rule runs_and_then [OF assms]) auto

lemma failing_then:
  assumes "runs (\<lambda>_ a _. status_of a = 500) (\<lambda>_ _ _. True) m"
    and "\<And>x. runs (\<lambda>_ a t. \<forall>s. E s a t) (\<lambda>_ a t. \<forall>s. F s a t) (f x)"
  shows "runs (\<lambda>_ a t. \<forall>s. E s a t) (\<lambda>_ a t. \<forall>s. F s a t) (and_then m f)"
  by (rule runs_and_then [OF runs_weaken [OF assms(1)] assms(2)]) (auto intro: E_broken)

lemma write_exits:
  assumes "\<And>m m' e. op m = (Inl e, m') \<Longrightarrow> m' = m"
  shows "runs E (\<lambda>_ _ _. True) (must op)"
proof (rule runsI)
  fix s t :: "'w admin" and a
  assume run: "must op s = (Inl a, t)"
  then obtain e where e: "db op s = (Inl e, t)" "a = fail e"
    by (auto simp: must_def split: prod.splits sum.splits)
  then have "unchanged s t"
    by (auto simp: db_def Let_def split: if_splits prod.splits sum.splits dest: assms)
  with e show "E s a t" by (simp add: E_refusal K_unchanged fail_status)
qed simp

text \<open>A write whose failure is looked at.\<close>

lemma ask_then:
  fixes op :: "'x store_op"
  assumes "\<And>m m' e. op m = (Inl e, m') \<Longrightarrow> m' = m" and "\<And>e. runs E F (k e)"
    and "\<And>x. runs (\<lambda>_ a t. \<forall>s. E s a t) (\<lambda>_ a t. \<forall>s. F s a t) (g x)"
  shows "runs E F (and_then (ask op) (\<lambda>r. case r of Inl e \<Rightarrow> k e | Inr x \<Rightarrow> g x))"
proof -
  have failed: "K s t" if "db op s = (Inl e, t)" for s t :: "'w admin" and e
    using that by (auto simp: db_def Let_def split: if_splits prod.splits sum.splits dest: assms(1) intro!: K_unchanged)
  show ?thesis
    by (rule runsI) (auto simp: and_then_def ask_def split: prod.splits sum.splits
        dest: failed runs_exit [OF assms(2)] runs_result [OF assms(2)] runs_exit [OF assms(3)] runs_result [OF assms(3)]
        intro: E_after F_after)
qed

end

section \<open>Steps that fail only as the driver does\<close>

lemma broken_write: "runs (\<lambda>_ a _. status_of a = 500) (\<lambda>_ _ _. True) (must (writing f))"
  by (rule runsI) (auto simp: must_def db_def writing_def Let_def fail_status split: if_splits)

lemma broken_list: "runs (\<lambda>_ a _. status_of a = 500) (\<lambda>_ _ _. True) (must (listing f))"
  by (rule runsI) (auto simp: must_def db_def listing_def Let_def fail_status split: if_splits)

lemma broken_change: "runs (\<lambda>_ a _. status_of a = 500) (\<lambda>_ _ _. True) (change f)"
  by (simp add: runs_def change_def)

lemma broken_give: "runs (\<lambda>_ a _. status_of a = 500) (\<lambda>_ _ _. True) (give x)"
  by (simp add: runs_def give_def)

lemma broken_then:
  "\<lbrakk>runs (\<lambda>_ a _. status_of a = 500) (\<lambda>_ _ _. True) m;
    \<And>x. runs (\<lambda>_ a _. status_of a = 500) (\<lambda>_ _ _. True) (f x)\<rbrakk>
    \<Longrightarrow> runs (\<lambda>_ a _. status_of a = 500) (\<lambda>_ _ _. True) (and_then m f)"
  by (rule runs_and_then) auto

lemma broken_ask: "runs (\<lambda>_ a _. status_of a = 500) (\<lambda>_ _ _. True) (ask op)"
  by (rule runsI) (auto simp: ask_def split: prod.splits)

lemma broken_load: "runs (\<lambda>_ a _. status_of a = 500) (\<lambda>_ _ _. True) load"
  unfolding load_def by (rule broken_then broken_list broken_change)+

lemmas broken = broken_then broken_write broken_list broken_change broken_give broken_ask broken_load runs_branches

lemma broken_ask_record:
  assumes "\<And>m e. f m = Inl e \<Longrightarrow> e = StorageNotFound"
  shows "runs (\<lambda>_ a _. status_of a = 500) (\<lambda>_ _ _. True) (ask_record f)"
proof (rule runsI)
  fix s a t
  assume run: "ask_record f s = (Inl a, t)"
  then show "status_of a = 500"
    using assms [of "the_store s"]
    by (auto simp: ask_record_def and_then_def ask_def db_def reading_def give_def stop_def Let_def fail_status
        split: prod.splits sum.splits if_splits)
qed simp

end
