(* ===== verification/Admin_Api.thy ===== *)
theory Admin_Api
  imports Admin_Combos Admin_Usage Admin_Settings Admin_Logic
begin

text \<open>
  The routing table of the admin API and what its requests pass on their way
  (\<^verbatim>\<open>internal/api/admin.go\<close>, \<^verbatim>\<open>server.go\<close>), and the promises that every handler keeps: an answer
  that refuses a request leaves no trace (\<open>admin_refusals_change_nothing\<close>), and unless a call of
  the store broke in the middle, the published routing table is that of the stored records
  (\<open>admin_keeps_routing_in_step\<close>). Both are interpretations of the interface \<open>conduct\<close>. Which
  pattern a path matches is chi's affair: a request comes with its pattern.
\<close>

section \<open>Routes\<close>

type_synonym 'w admin_handler = "admin_call \<Rightarrow> (answer, 'w) act"

definition dashboard_routes :: "'w admin_env \<Rightarrow> ((string \<times> string) \<times> 'w admin_handler) list" where
  "dashboard_routes env = [
     ((''GET'', ''/overview''), handle_overview env),
     ((''GET'', ''/requests/active''), \<lambda>_. handle_active_requests),
     ((''GET'', ''/usage''), handle_usage_summary env),
     ((''GET'', ''/usage/recent''), handle_usage_recent env),
     ((''GET'', ''/usage/models''), \<lambda>_. handle_usage_by_model env),
     ((''GET'', ''/usage/leaderboard''), handle_leaderboard env),
     ((''GET'', ''/usage/keys''), handle_usage_by_key env),
     ((''GET'', ''/requests''), handle_list_requests env),
     ((''GET'', ''/requests/{request_id}''), handle_get_request env)]"

definition key_routes :: "'w admin_env \<Rightarrow> ((string \<times> string) \<times> 'w admin_handler) list" where
  "key_routes env = [
     ((''GET'', ''/keys''), \<lambda>_. handle_list_keys env),
     ((''POST'', ''/keys''), handle_create_key env),
     ((''DELETE'', ''/keys/{id}''), handle_delete_key),
     ((''PUT'', ''/keys/{id}/quota''), handle_put_key_quota env),
     ((''PUT'', ''/keys/{id}/models''), handle_put_key_models env)]"

definition provider_routes :: "'w admin_env \<Rightarrow> ((string \<times> string) \<times> 'w admin_handler) list" where
  "provider_routes env = [
     ((''GET'', ''/provider-catalog''), handle_catalog_presets),
     ((''GET'', ''/providers''), \<lambda>_. handle_list_providers),
     ((''PUT'', ''/providers/{name}''), handle_put_provider env),
     ((''DELETE'', ''/providers/{name}''), handle_delete_provider),
     ((''GET'', ''/providers/{name}/catalog''), handle_provider_catalog env),
     ((''GET'', ''/providers/{name}/keys''), handle_list_provider_keys),
     ((''POST'', ''/providers/{name}/keys''), handle_create_provider_key env),
     ((''PUT'', ''/providers/{name}/keys/{index}''), handle_put_provider_key env),
     ((''DELETE'', ''/providers/{name}/keys/{index}''), handle_delete_provider_key),
     ((''GET'', ''/providers/{name}/keys/settings''), handle_get_key_settings),
     ((''PUT'', ''/providers/{name}/keys/settings''), handle_put_key_settings env),
     ((''POST'', ''/providers/{name}/import''), handle_import_models env),
     ((''GET'', ''/providers/{name}/metrics''), handle_provider_metrics env)]"

definition routing_routes :: "'w admin_env \<Rightarrow> ((string \<times> string) \<times> 'w admin_handler) list" where
  "routing_routes env = [
     ((''GET'', ''/models''), \<lambda>_. handle_list_aliases env),
     ((''PUT'', ''/models/{alias}''), handle_put_alias env),
     ((''DELETE'', ''/models/{alias}''), handle_delete_alias),
     ((''POST'', ''/models/{alias}/test''), handle_test_alias env),
     ((''GET'', ''/capabilities''), \<lambda>_. handle_list_capabilities),
     ((''GET'', ''/combos''), \<lambda>_. handle_list_combos),
     ((''PUT'', ''/combos/{name}''), handle_put_combo env),
     ((''POST'', ''/combos/{name}/rename''), handle_rename_combo env),
     ((''DELETE'', ''/combos/{name}''), handle_delete_combo),
     ((''GET'', ''/proxies''), \<lambda>_. handle_list_proxies),
     ((''PUT'', ''/proxies/{name}''), handle_put_proxy env),
     ((''POST'', ''/proxies/import''), handle_import_proxies env),
     ((''DELETE'', ''/proxies/{name}''), handle_delete_proxy)]"

definition settings_routes :: "'w admin_env \<Rightarrow> ((string \<times> string) \<times> 'w admin_handler) list" where
  "settings_routes env = [
     ((''GET'', ''/extensions''), \<lambda>_. handle_list_extensions),
     ((''GET'', ''/extensions/{id}''), handle_get_extension),
     ((''GET'', ''/extensions/{id}/prompt-entries''), handle_list_prompt_entries),
     ((''POST'', ''/extensions/{id}/prompt-entries''), handle_create_prompt_entry env),
     ((''PUT'', ''/extensions/{id}/prompt-entries/{entry_id}''), handle_put_prompt_entry env),
     ((''DELETE'', ''/extensions/{id}/prompt-entries/{entry_id}''), handle_delete_prompt_entry),
     ((''GET'', ''/cache''), \<lambda>_. handle_cache_stats env),
     ((''DELETE'', ''/cache''), \<lambda>_. handle_purge_cache),
     ((''GET'', ''/settings''), \<lambda>_. handle_list_settings),
     ((''PUT'', ''/settings''), handle_put_settings env),
     ((''GET'', ''/ponytail/settings''), \<lambda>_. handle_get_pony_settings),
     ((''PUT'', ''/ponytail/settings''), handle_put_pony_settings env),
     ((''GET'', ''/ponytail/analytics''), \<lambda>_. handle_pony_analytics env)]"

definition admin_routes :: "'w admin_env \<Rightarrow> ((string \<times> string) \<times> 'w admin_handler) list" where
  "admin_routes env = dashboard_routes env @ key_routes env @ provider_routes env
     @ routing_routes env @ settings_routes env"

text \<open>
  A request to the admin API: cross-origin headers and the admin token first, the \<^verbatim>\<open>/api/v1\<close> chain
  of the gateway. Its handler here only marks that it was reached, by the flag that otherwise
  says that a handler panicked.
\<close>

definition admin_gate ::
    "'w admin_env \<Rightarrow> Gateway.http_request \<Rightarrow> response_writer \<Rightarrow> (client, 'w) gateway \<Rightarrow> (client, 'w) handled"
where
  "admin_gate env rq rw g = admin_chain (ae_deps env) (\<lambda>rq cx rw g. (True, rw, g)) rq no_context rw g"

definition serve_admin ::
    "'w admin_env \<Rightarrow> string \<Rightarrow> admin_call \<Rightarrow> response_writer \<Rightarrow> 'w admin \<Rightarrow> (response_writer \<times> 'w admin) option"
where
  "serve_admin env pattern c rw s = (case admin_gate env (ca_request c) rw (am_gateway s) of
      (False, rw, g) \<Rightarrow> Some (rw, s\<lparr>am_gateway := g\<rparr>)
    | (True, rw, g) \<Rightarrow>
        map_option (\<lambda>h. case handle (h c) (s\<lparr>am_gateway := g\<rparr>) of (a, s) \<Rightarrow> (write_answer a rw, s))
          (map_of (admin_routes env) (hq_method (ca_request c), pattern)))"

section \<open>Reading handlers keep every promise\<close>

lemma statuses [simp]:
  "status_of (bad_request m) = 400" "status_of (required_field n) = 400" "status_of (conflict m) = 409"
  "status_of (refuse st k m) = st" "status_of (upstream_fail err) = 502" "status_of (unknown_group g) = 400"
  "status_of (alias_exists n) = 409" "status_of (combo_exists n) = 409" "status_of (method_answer m) = 200"
  "400 \<le> status_of (fail e)"
  by (simp_all add: bad_request_def required_field_def conflict_def refuse_def upstream_fail_def unknown_group_def
      alias_exists_def combo_exists_def method_answer_def fail_def)

context conduct begin

lemma quiet_rows: "runs E (\<lambda>s _. K s) (rows_or_none (ask (listing f)))"
  unfolding rows_or_none_def by (rule quiet)+

lemma quiet_check_models: "runs E (\<lambda>s _. K s) (check_models ms)"
  by (rule runsI) (auto simp: check_models_def split: if_splits sum.splits intro!: E_refusal K_unchanged)

lemma quiet_draw_key: "runs E (\<lambda>s _. K s) (draw_key env n)"
  by (rule runsI) (auto simp: draw_key_def split: prod.splits option.splits intro!: E_refusal K_unchanged)

lemma quiet_fetch_models: "runs E (\<lambda>s _. K s) (fetch_models env cl)"
  by (rule runsI) (auto simp: fetch_models_def split: prod.splits sum.splits intro!: E_refusal K_unchanged)

lemma quiet_new_id: "runs E (\<lambda>s _. K s) (new_id env)"
  by (rule runsI) (auto simp: new_id_def split: prod.splits intro: K_unchanged)

lemma quiet_key_index: "runs E (\<lambda>s _. K s) (key_index c)"
  unfolding key_index_def by (rule quiet | simp)+

lemma quiet_provider_client: "runs E (\<lambda>s _. K s) (provider_client p)"
  unfolding provider_client_def by (rule quiet)+

lemma quiet_names: "runs E (\<lambda>s _. K s) (no_alias_named n)" "runs E (\<lambda>s _. K s) (no_combo_named n)"
  unfolding no_alias_named_def no_combo_named_def by (rule quiet | simp)+

lemma quiet_check_members: "runs E (\<lambda>s _. K s) (check_members ms)"
  by (induction ms) (simp_all, (rule quiet | simp)+)

lemmas calm = quiet quiet_rows quiet_check_models quiet_draw_key quiet_fetch_models quiet_new_id quiet_key_index
  quiet_provider_client quiet_names quiet_check_members

lemmas finals = final_then final_give final_look

lemma weights_branch:
  "(\<And>ws. runs E F (g ws)) \<Longrightarrow> runs E F (case requested_weights st rq of Inl a \<Rightarrow> stop a | Inr ws \<Rightarrow> g ws)"
  by (auto simp: requested_weights_def Let_def split: sum.split if_splits intro!: stops)

lemma final_provider_answer: "runs E F (provider_answer p)"
  unfolding provider_answer_def by (rule finals | simp)+

lemma final_dashboard:
  "runs E F (handle_overview env c)" "runs E F handle_active_requests" "runs E F (handle_usage_summary env c)"
  "runs E F (handle_usage_recent env c)" "runs E F (handle_usage_by_model env)" "runs E F (handle_leaderboard env c)"
  "runs E F (handle_usage_by_key env c)" "runs E F (handle_list_requests env c)" "runs E F (handle_get_request env c)"
  unfolding handle_overview_def handle_active_requests_def handle_usage_summary_def handle_usage_recent_def
    handle_usage_by_model_def handle_leaderboard_def handle_usage_by_key_def handle_list_requests_def
    handle_get_request_def
  by (rule finals calm | simp)+

lemma final_lists:
  "runs E F (handle_list_keys env)" "runs E F handle_list_providers" "runs E F (handle_catalog_presets c)"
  "runs E F (handle_provider_catalog env c)" "runs E F (handle_list_provider_keys c)"
  "runs E F (handle_get_key_settings c)" "runs E F (handle_provider_metrics env c)"
  unfolding handle_list_keys_def handle_list_providers_def handle_catalog_presets_def handle_provider_catalog_def
    handle_list_provider_keys_def handle_get_key_settings_def handle_provider_metrics_def
  by (rule finals calm | simp)+

lemma final_routing_lists:
  "runs E F (handle_list_aliases env)" "runs E F handle_list_capabilities" "runs E F handle_list_combos"
  "runs E F handle_list_proxies"
  unfolding handle_list_aliases_def handle_list_capabilities_def handle_list_combos_def handle_list_proxies_def
  by (rule finals calm | simp)+

lemma final_settings:
  "runs E F handle_list_extensions" "runs E F (handle_get_extension c)" "runs E F (handle_list_prompt_entries c)"
  "runs E F (handle_cache_stats env)" "runs E F handle_list_settings" "runs E F handle_get_pony_settings"
  "runs E F (handle_pony_analytics env)"
  unfolding handle_list_extensions_def handle_get_extension_def handle_list_prompt_entries_def handle_cache_stats_def
    handle_list_settings_def handle_get_pony_settings_def handle_pony_analytics_def
  by (rule finals calm | simp)+

end

section \<open>Refusals\<close>

definition careful :: "'w admin \<Rightarrow> answer \<Rightarrow> 'w admin \<Rightarrow> bool" where
  "careful s a t \<longleftrightarrow> 400 \<le> status_of a \<and> (status_of a < 500 \<longrightarrow> unchanged s t)"

definition served :: "'w admin \<Rightarrow> answer \<Rightarrow> 'w admin \<Rightarrow> bool" where
  "served s a t \<longleftrightarrow> status_of a < 400"

interpretation refusal: conduct unchanged careful served
  by unfold_locales (auto simp: careful_def served_def intro: unchanged_trans)

text \<open>What a failed update leaves behind, and what cannot refuse any more after a write.\<close>

lemma failed_updates:
  "updating (on_keys (keys_delete i)) m = (Inl e, m') \<Longrightarrow> m' = m"
  "updating (on_keys (keys_set_quota i n b)) m = (Inl e, m') \<Longrightarrow> m' = m"
  "updating (on_keys (keys_set_allowed_models i ns)) m = (Inl e, m') \<Longrightarrow> m' = m"
  "updating (delete_provider i) m = (Inl e, m') \<Longrightarrow> m' = m"
  "updating (on_models (models_delete i)) m = (Inl e, m') \<Longrightarrow> m' = m"
  "updating (on_combos (combos_delete i)) m = (Inl e, m') \<Longrightarrow> m' = m"
  "updating (on_combos (combos_rename i j)) m = (Inl e, m') \<Longrightarrow> m' = m"
  "updating (on_proxies (proxies_delete i)) m = (Inl e, m') \<Longrightarrow> m' = m"
  "updating (on_prompts (prompts_delete i)) m = (Inl e, m') \<Longrightarrow> m' = m"
  "writing g m = (Inl e, m') \<Longrightarrow> m' = m"
  by (auto simp: updating_def writing_def on_keys_def keys_delete_def mem_delete_def keys_set_quota_def keys_update_def
      keys_set_allowed_models_def delete_provider_def on_models_def models_delete_def on_combos_def combos_delete_def
      combos_rename_def on_proxies_def proxies_delete_def on_prompts_def prompts_delete_def
      split: option.splits prod.splits if_splits)

lemma careful_broken:
  assumes "runs (\<lambda>_ a _. status_of a = 500) (\<lambda>_ _ _. True) m"
  shows "runs careful (\<lambda>_ _ _. True) m"
  using assms by (rule runs_weaken) (simp_all add: careful_def)

lemma broken_put_settings: "runs (\<lambda>_ a _. status_of a = 500) (\<lambda>_ _ _. True) (put_settings kvs)"
  by (induction kvs rule: put_settings.induct) (simp_all, (rule broken | assumption)+)

lemma broken_try_settings: "runs (\<lambda>_ a _. status_of a = 500) (\<lambda>_ _ _. True) (try_settings kvs)"
  by (induction kvs rule: try_settings.induct) (simp_all, (rule broken | assumption)+)

lemma broken_saves:
  "runs (\<lambda>_ a _. status_of a = 500) (\<lambda>_ _ _. True) (save_provider p)"
  "runs (\<lambda>_ a _. status_of a = 500) (\<lambda>_ _ _. True) (save_combo cb)"
  unfolding save_provider_def save_combo_def by (rule broken)+

lemma record_missing:
  "get_model a m = Inl e \<Longrightarrow> e = StorageNotFound" "get_proxy a m = Inl e \<Longrightarrow> e = StorageNotFound"
  by (auto simp: get_model_def models_get_def get_proxy_def proxies_get_def mem_get_def split: option.splits)

lemma broken_import_loop:
  "runs (\<lambda>_ a _. status_of a = 500) (\<lambda>_ _ _. True) (import_loop n pre ow ctx ms d sk)"
  by (induction ms arbitrary: d sk)
    (auto intro!: broken broken_ask_record dest: record_missing)

lemma broken_proxy_loop:
  "runs (\<lambda>_ a _. status_of a = 500) (\<lambda>_ _ _. True) (proxy_loop on ow ls seen rep)"
  by (induction ls arbitrary: seen rep)
    (auto intro!: broken broken_ask_record split: option.split dest: record_missing)

lemma broken_probe: "runs (\<lambda>_ a _. status_of a = 500) (\<lambda>_ _ _. True) (probe_alias env t m cl)"
  by (rule runsI) (auto simp: probe_alias_def Let_def split: prod.splits)

lemma careful_settings: "runs careful (\<lambda>_ _ _. True) (put_settings kvs)" "runs careful (\<lambda>_ _ _. True) (try_settings kvs)"
  by (rule careful_broken broken_put_settings broken_try_settings)+

lemma careful_after_broken:
  "runs (\<lambda>_ a _. status_of a = 500) (\<lambda>_ a _. status_of a < 400) m \<Longrightarrow>
    runs (\<lambda>_ a t. \<forall>s. careful s a t) (\<lambda>_ a t. \<forall>s. served s a t) m"
  by (erule runs_weaken) (auto simp: careful_def served_def)

lemma careful_after_give:
  "status_of a < 400 \<Longrightarrow> runs (\<lambda>_ a t. \<forall>s. careful s a t) (\<lambda>_ a t. \<forall>s. served s a t) (give a)"
  "runs (\<lambda>_ a t. \<forall>s. careful s a t) (\<lambda>_ a t. \<forall>s. served s a t) (provider_answer p)"
  by (auto simp: runs_def give_def served_def provider_answer_def look_def)

lemma careful_after_settings:
  "runs (\<lambda>_ a t. \<forall>s. careful s a t) (\<lambda>_ a t. \<forall>s. served s a t) handle_list_settings"
  "runs (\<lambda>_ a t. \<forall>s. careful s a t) (\<lambda>_ a t. \<forall>s. served s a t) handle_get_pony_settings"
  unfolding handle_list_settings_def handle_get_pony_settings_def
  by (rule refusal.failing_then broken_list careful_after_give | simp)+

text \<open>A write that can fail only as the driver does, then whatever follows.\<close>

lemma careful_steps:
  "(\<And>x. runs (\<lambda>_ a t. \<forall>s. careful s a t) (\<lambda>_ a t. \<forall>s. served s a t) (f x)) \<Longrightarrow>
    runs careful served (and_then (must (writing w)) f)"
  "(\<And>x. runs (\<lambda>_ a t. \<forall>s. careful s a t) (\<lambda>_ a t. \<forall>s. served s a t) (g x)) \<Longrightarrow>
    runs careful served (and_then (change h) g)"
  "(\<And>x. runs (\<lambda>_ a t. \<forall>s. careful s a t) (\<lambda>_ a t. \<forall>s. served s a t) (g x)) \<Longrightarrow>
    runs careful served (and_then (save_provider p) g)"
  "(\<And>x. runs (\<lambda>_ a t. \<forall>s. careful s a t) (\<lambda>_ a t. \<forall>s. served s a t) (g x)) \<Longrightarrow>
    runs careful served (and_then (save_combo cb) g)"
  "(\<And>x. runs (\<lambda>_ a t. \<forall>s. careful s a t) (\<lambda>_ a t. \<forall>s. served s a t) (g x)) \<Longrightarrow>
    runs careful served (and_then (put_settings kvs) g)"
  "(\<And>x. runs (\<lambda>_ a t. \<forall>s. careful s a t) (\<lambda>_ a t. \<forall>s. served s a t) (g x)) \<Longrightarrow>
    runs careful served (and_then (try_settings kvs) g)"
  "(\<And>x. runs (\<lambda>_ a t. \<forall>s. careful s a t) (\<lambda>_ a t. \<forall>s. served s a t) (i x)) \<Longrightarrow>
    runs careful served (and_then (import_loop n pre ow ctx ms d sk) i)"
  "(\<And>x. runs (\<lambda>_ a t. \<forall>s. careful s a t) (\<lambda>_ a t. \<forall>s. served s a t) (j x)) \<Longrightarrow>
    runs careful served (and_then (proxy_loop on ow ls seen rep) j)"
  "(\<And>x. runs (\<lambda>_ a t. \<forall>s. careful s a t) (\<lambda>_ a t. \<forall>s. served s a t) (k x)) \<Longrightarrow>
    runs careful served (and_then (probe_alias env t m cl) k)"
  by (rule refusal.after_write, rule careful_broken,
      rule broken_write broken_change broken_saves broken_put_settings broken_try_settings broken_import_loop
        broken_proxy_loop broken_probe, assumption)+

lemma careful_update:
  assumes "\<And>m m' e. updating u m = (Inl e, m') \<Longrightarrow> m' = m"
    and "\<And>x. runs (\<lambda>_ a t. \<forall>s. careful s a t) (\<lambda>_ a t. \<forall>s. served s a t) (f x)"
  shows "runs careful served (and_then (must (updating u)) f)"
  by (rule refusal.after_write [OF refusal.write_exits assms(2)]) (rule assms(1))

lemmas careful_rules = careful_steps careful_update careful_after_give careful_after_settings
  refusal.failing_then refusal.finals refusal.calm broken failed_updates

lemma careful_keys:
  "runs careful served handle_purge_cache" "runs careful served (handle_create_key env c)"
  "runs careful served (handle_delete_key c)" "runs careful served (handle_put_key_quota env c)"
  "runs careful served (handle_put_key_models env c)"
  unfolding handle_purge_cache_def handle_create_key_def handle_delete_key_def handle_put_key_quota_def
    handle_put_key_models_def
  by (rule careful_rules | (erule failed_updates) | simp)+

lemma careful_mutate: "runs careful served (mutate_provider_keys c mutate)"
  unfolding mutate_provider_keys_def by (rule careful_rules | simp)+

lemma careful_providers:
  "runs careful served (handle_put_provider env c)" "runs careful served (handle_delete_provider c)"
  "runs careful served (handle_create_provider_key env c)" "runs careful served (handle_put_provider_key env c)"
  "runs careful served (handle_delete_provider_key c)" "runs careful served (handle_put_key_settings env c)"
  unfolding handle_put_provider_def handle_delete_provider_def handle_create_provider_key_def
    handle_put_provider_key_def handle_delete_provider_key_def handle_put_key_settings_def
  by (rule careful_rules careful_mutate | (erule failed_updates) | simp)+

lemma careful_models:
  "runs careful served (handle_import_models env c)" "runs careful served (handle_put_alias env c)"
  "runs careful served (handle_delete_alias c)" "runs careful served (handle_test_alias env c)"
  unfolding handle_import_models_def handle_put_alias_def handle_delete_alias_def handle_test_alias_def
  by (rule careful_rules | (erule failed_updates) | simp)+

lemma careful_rename: "runs careful served (handle_rename_combo env c)"
  unfolding handle_rename_combo_def
  by (rule refusal.ask_then careful_rules | (erule failed_updates) | simp)+

lemma careful_combos:
  "runs careful served (handle_put_combo env c)" "runs careful served (handle_delete_combo c)"
  "runs careful served (handle_put_proxy env c)" "runs careful served (handle_delete_proxy c)"
  "runs careful served (handle_import_proxies env c)"
  unfolding handle_put_combo_def handle_delete_combo_def handle_put_proxy_def handle_delete_proxy_def
    handle_import_proxies_def
  by (rule refusal.weights_branch careful_rules | (erule failed_updates) | simp)+

lemma careful_settings_handlers:
  "runs careful served (handle_create_prompt_entry env c)" "runs careful served (handle_put_prompt_entry env c)"
  "runs careful served (handle_delete_prompt_entry c)" "runs careful served (handle_put_settings env c)"
  "runs careful served (handle_put_pony_settings env c)"
  unfolding handle_create_prompt_entry_def handle_put_prompt_entry_def handle_delete_prompt_entry_def
    handle_put_settings_def handle_put_pony_settings_def
  by (rule careful_rules | (erule failed_updates) | simp)+

section \<open>The published table\<close>

definition same_table :: "client routes \<Rightarrow> client routes \<Rightarrow> bool" where
  "same_table rt rt' \<longleftrightarrow> rt\<lparr>rt_cursors := []\<rparr> = rt'\<lparr>rt_cursors := []\<rparr>"

text \<open>The engine routes as the stored records say; only the cursors of the combos may have moved.\<close>

definition in_step :: "'w admin \<Rightarrow> bool" where
  "in_step s \<longleftrightarrow> (let m = the_store s; b = eg_breakers (am_engine s) in
     same_table (am_routes s) (reload (stored_models m) (stored_combos m)
       (build_registry (stored_providers m) (new_proxy_pool (stored_proxies m))))
     \<and> bs_overrides b = breaker_overrides (stored_providers m) (bs_policy b))"

definition stays :: "'w admin \<Rightarrow> 'w admin \<Rightarrow> bool" where "stays s t \<longleftrightarrow> (in_step s \<longrightarrow> in_step t)"

definition stays_or_fails :: "'w admin \<Rightarrow> answer \<Rightarrow> 'w admin \<Rightarrow> bool" where
  "stays_or_fails s a t \<longleftrightarrow> status_of a = 500 \<or> stays s t"

lemma stays_unchanged: "unchanged s t \<Longrightarrow> stays s t"
  by (simp add: stays_def in_step_def unchanged_parts)

interpretation routing: conduct stays stays_or_fails "\<lambda>s _. stays s"
  by unfold_locales (auto simp: stays_or_fails_def stays_def intro: stays_unchanged [unfolded stays_def, rule_format])

lemma must_listing:
  "must (listing f) s = (Inr x, t) \<Longrightarrow> x = f (the_store s) \<and> unchanged s t"
  by (auto simp: must_def db_def listing_def Let_def split: if_splits)

lemma store_republish [simp]: "the_store (republish ps ms cs xs s) = the_store s"
  by (auto simp: republish_def on_gateway_def the_store_def am_engine_def publish_def split: option.split)

lemma load_in_step: "runs (\<lambda>_ a _. status_of a = 500) (\<lambda>_ _ t. in_step t) load"
proof (rule runsI)
  fix s t :: "'a admin" and a
  assume "load s = (Inl a, t)"
  then show "status_of a = 500" by (rule runs_exit [OF broken_load])
next
  fix s t :: "'a admin" and u
  assume run: "load s = (Inr u, t)"
  obtain r where r: "unchanged s r" and t: "t = republish (stored_providers (the_store s)) (stored_models (the_store s))
      (stored_combos (the_store s)) (stored_proxies (the_store s)) r"
  proof -
    from run obtain s1 s2 s3 s4 where
      "unchanged s s1" "unchanged s1 s2" "unchanged s2 s3" "unchanged s3 s4"
      "t = republish (stored_providers (the_store s)) (stored_models (the_store s1))
        (stored_combos (the_store s2)) (stored_proxies (the_store s3)) s4"
      by (auto simp: load_def and_then_def change_def split: prod.splits sum.splits dest!: must_listing)
    with that [of s4] show ?thesis by (metis unchanged_trans unchanged_parts(1))
  qed
  have "the_store t = the_store s" using r t by (simp add: unchanged_parts)
  moreover have "am_routes t = reload (stored_models (the_store s)) (stored_combos (the_store s))
      (build_registry (stored_providers (the_store s)) (new_proxy_pool (stored_proxies (the_store s))))"
    "eg_breakers (am_engine t) = set_overrides (breaker_overrides (stored_providers (the_store s))
      (bs_policy (eg_breakers (am_engine r)))) (eg_breakers (am_engine r))"
    by (simp_all add: t republish_def on_gateway_def am_routes_def am_engine_def publish_def)
  ultimately show "in_step t" by (simp add: in_step_def same_table_def set_overrides_def)
qed

lemma load_stays: "runs stays_or_fails (\<lambda>s _. stays s) load"
  by (rule runs_weaken [OF load_in_step]) (simp_all add: stays_or_fails_def stays_def)

lemma load_then:
  assumes "\<And>x. runs stays_or_fails (\<lambda>s _. stays s) (f x)"
  shows "runs (\<lambda>_ a t. \<forall>s. stays_or_fails s a t) (\<lambda>_ _ t. \<forall>s. stays s t) (and_then load f)"
  by (rule runs_and_then [where G = "\<lambda>_ _. in_step", OF runs_weaken [OF load_in_step] assms])
    (auto simp: stays_or_fails_def stays_def)

text \<open>Writes to the tables that routing does not read.\<close>

definition routing_tables :: "memory \<Rightarrow> providers \<times> models \<times> combos \<times> proxies" where
  "routing_tables m = (mem_providers m, mem_models m, mem_combos m, mem_proxies m)"

lemma stays_put:
  "routing_tables m = routing_tables (the_store s) \<Longrightarrow> stays s (put_store m (s\<lparr>am_faults := fs\<rparr>))"
  by (simp add: stays_def in_step_def routing_tables_def Let_def)
    (simp add: am_routes_def am_engine_def)

lemma stays_faults: "stays s (s\<lparr>am_faults := fs\<rparr>)"
  by (rule stays_unchanged) simp

lemma write_stays:
  assumes "\<And>m. routing_tables (f m) = routing_tables m"
  shows "runs stays_or_fails (\<lambda>s _. stays s) (must (writing f))"
  by (rule runsI) (auto simp: must_def db_def writing_def Let_def stays_or_fails_def fail_status
      split: if_splits intro: stays_put assms)

lemma update_stays:
  assumes "\<And>m. routing_tables (snd (f m)) = routing_tables m"
  shows "runs stays_or_fails (\<lambda>s _. stays s) (must (updating f))"
proof (rule runsI)
  fix s t :: "'a admin" and a
  assume run: "must (updating f) s = (Inl a, t)"
  with assms [of "the_store s"] have "stays s t"
    by (auto simp: must_def db_def updating_def Let_def split: if_splits prod.splits option.splits
        intro!: stays_put stays_faults)
  then show "stays_or_fails s a t" by (simp add: stays_or_fails_def)
next
  fix s t :: "'a admin" and x
  assume run: "must (updating f) s = (Inr x, t)"
  with assms [of "the_store s"] show "stays s t"
    by (auto simp: must_def db_def updating_def Let_def split: if_splits prod.splits option.splits intro!: stays_put)
qed

lemma tables_of_keys [simp]:
  "routing_tables (snd (on_keys f m)) = routing_tables m" "routing_tables (snd (on_prompts g m)) = routing_tables m"
  "routing_tables (put_prompt e m) = routing_tables m" "routing_tables (put_setting k v m) = routing_tables m"
  "routing_tables (m\<lparr>mem_keys := ks\<rparr>) = routing_tables m"
  by (simp_all add: routing_tables_def on_keys_def on_prompts_def put_prompt_def put_setting_def split: prod.split)

lemma stays_settings:
  "runs stays_or_fails (\<lambda>s _. stays s) (put_settings kvs)" "runs stays_or_fails (\<lambda>s _. stays s) (try_settings kvs)"
proof -
  show "runs stays_or_fails (\<lambda>s _. stays s) (put_settings kvs)"
    by (induction kvs rule: put_settings.induct) (simp_all, (rule routing.calm write_stays | assumption | simp)+)
  have "runs stays_or_fails (\<lambda>s _. stays s) (ask (writing (put_setting k v)))" for k v
    by (rule runsI) (auto simp: ask_def db_def writing_def Let_def split: if_splits intro!: stays_put stays_faults)
  then show "runs stays_or_fails (\<lambda>s _. stays s) (try_settings kvs)"
    by (induction kvs rule: try_settings.induct) (simp_all, (rule routing.calm | assumption | simp)+)
qed

lemma stays_changes:
  "runs stays_or_fails (\<lambda>s _. stays s) (change (forget_quota i))"
  "runs stays_or_fails (\<lambda>s _. stays s) (change (set_pony_config p))"
  "runs stays_or_fails (\<lambda>s _. stays s) (change (on_gateway (\<lambda>g. g\<lparr>gw_cache := cc\<rparr>)))"
  by (auto simp: runs_def change_def forget_quota_def set_pony_config_def on_gateway_def stays_def in_step_def
      the_store_def am_engine_def am_routes_def)

lemma stays_saves:
  "runs stays_or_fails (\<lambda>s _. stays s) (save_provider p)" "runs stays_or_fails (\<lambda>s _. stays s) (save_combo cb)"
  unfolding save_provider_def save_combo_def
  by (rule runs_and_then [where G = "\<lambda>_ _ _. True", OF broken_write load_in_step, THEN runs_weaken];
      simp add: stays_or_fails_def stays_def)+

lemma fails_first: "runs (\<lambda>_ a _. status_of a = 500) (\<lambda>_ _ _. True) m \<Longrightarrow> runs stays_or_fails (\<lambda>_ _ _. True) m"
  by (erule runs_weaken) (simp_all add: stays_or_fails_def)

lemma publish_steps:
  fixes f :: "unit \<Rightarrow> (answer, 'w) act" and g :: "model_alias list \<times> string list \<Rightarrow> (answer, 'w) act"
  shows "(\<And>x. runs (\<lambda>_ a t. \<forall>s. stays_or_fails s a t) (\<lambda>_ _ t. \<forall>s. stays s t) (f x)) \<Longrightarrow>
      runs stays_or_fails (\<lambda>s _. stays s) (and_then (must (writing w)) f)"
    and "(\<And>x. runs (\<lambda>_ a t. \<forall>s. stays_or_fails s a t) (\<lambda>_ _ t. \<forall>s. stays s t) (g x)) \<Longrightarrow>
      runs stays_or_fails (\<lambda>s _. stays s) (and_then (import_loop n pre ow ctx ms d sk) g)"
  by (rule routing.after_write, rule fails_first, rule broken_write broken_import_loop, assumption)+

lemma publish_update:
  fixes f :: "unit \<Rightarrow> (answer, 'w) act"
  assumes "\<And>m m' e. updating u m = (Inl e, m') \<Longrightarrow> m' = m" and "\<And>x. runs stays_or_fails (\<lambda>s _. stays s) (f x)"
  shows "runs stays_or_fails (\<lambda>s _. stays s) (and_then (must (updating u)) (\<lambda>_. and_then load f))"
  by (rule routing.after_write [OF routing.write_exits load_then]) (erule assms(1), rule assms(2))

lemmas stays_rules = load_then stays_changes stays_settings stays_saves publish_steps publish_update routing.finals routing.calm

lemma stays_keys:
  "runs stays_or_fails (\<lambda>s _. stays s) handle_purge_cache"
  "runs stays_or_fails (\<lambda>s _. stays s) (handle_create_key env c)"
  "runs stays_or_fails (\<lambda>s _. stays s) (handle_delete_key c)"
  "runs stays_or_fails (\<lambda>s _. stays s) (handle_put_key_quota env c)"
  "runs stays_or_fails (\<lambda>s _. stays s) (handle_put_key_models env c)"
  unfolding handle_purge_cache_def handle_create_key_def handle_delete_key_def handle_put_key_quota_def
    handle_put_key_models_def
  by (rule stays_changes write_stays update_stays routing.finals routing.calm | simp)+

lemma stays_mutate: "runs stays_or_fails (\<lambda>s _. stays s) (mutate_provider_keys c mutate)"
  unfolding mutate_provider_keys_def by (rule stays_rules | simp)+

lemma stays_providers:
  "runs stays_or_fails (\<lambda>s _. stays s) (handle_put_provider env c)"
  "runs stays_or_fails (\<lambda>s _. stays s) (handle_delete_provider c)"
  "runs stays_or_fails (\<lambda>s _. stays s) (handle_create_provider_key env c)"
  "runs stays_or_fails (\<lambda>s _. stays s) (handle_put_provider_key env c)"
  "runs stays_or_fails (\<lambda>s _. stays s) (handle_delete_provider_key c)"
  "runs stays_or_fails (\<lambda>s _. stays s) (handle_put_key_settings env c)"
  unfolding handle_put_provider_def handle_delete_provider_def handle_create_provider_key_def
    handle_put_provider_key_def handle_delete_provider_key_def handle_put_key_settings_def
  by (rule stays_mutate routing.final_provider_answer stays_rules | (erule failed_updates) | simp)+

text \<open>Provider calls may let other requests run, but no configuration of breakers.\<close>

definition calls_keep_policies :: "'w admin_env \<Rightarrow> bool" where
  "calls_keep_policies env \<longleftrightarrow> (\<forall>cl rq st.
     let b = eg_breakers (fst st); b' = eg_breakers (fst (snd (ev_chat (dp_env (ae_deps env)) cl rq st)))
     in bs_overrides b' = bs_overrides b \<and> bs_policy b' = bs_policy b)"

lemma stays_probe:
  assumes "calls_keep_policies env"
  shows "runs stays_or_fails (\<lambda>s _. stays s) (probe_alias env t m cl)"
proof (rule runsI)
  fix s u :: "'a admin" and x
  assume run: "probe_alias env t m cl s = (Inr x, u)"
  obtain r e fb w where call: "ev_chat (dp_env (ae_deps env)) cl (ping_request (ma_model m)) (am_engine s, 0, am_world s) = (r, e, fb, w)"
    by (metis prod_cases4)
  then have keep: "bs_overrides (eg_breakers e) = bs_overrides (eg_breakers (am_engine s))"
    "bs_policy (eg_breakers e) = bs_policy (eg_breakers (am_engine s))"
    using assms [unfolded calls_keep_policies_def Let_def, rule_format,
        of cl "ping_request (ma_model m)" "(am_engine s, 0, am_world s)"] by simp_all
  define now where "now = admin_now env (on_gateway (\<lambda>g. g\<lparr>gw_engine := e, gw_world := w\<rparr>) s)"
  have "\<exists>metric. u = on_gateway (\<lambda>g. g\<lparr>gw_engine := (gw_engine g)\<lparr>eg_stats :=
      stats_record now metric (eg_stats (gw_engine g))\<rparr>\<rparr>) (on_gateway (\<lambda>g. g\<lparr>gw_engine := e, gw_world := w\<rparr>) s)"
    using run by (auto simp: probe_alias_def call Let_def now_def)
  then have "routing_tables (the_store u) = routing_tables (the_store s)" "am_routes u = am_routes s"
    "eg_breakers (am_engine u) = eg_breakers e"
    by (auto simp: on_gateway_def am_routes_def am_engine_def routing_tables_def the_store_def)
  with keep show "stays s u" by (simp add: stays_def in_step_def routing_tables_def Let_def)
qed (auto simp: probe_alias_def Let_def split: prod.splits)

lemma stays_models:
  "runs stays_or_fails (\<lambda>s _. stays s) (handle_import_models env c)"
  "runs stays_or_fails (\<lambda>s _. stays s) (handle_put_alias env c)"
  "runs stays_or_fails (\<lambda>s _. stays s) (handle_delete_alias c)"
  unfolding handle_import_models_def handle_put_alias_def handle_delete_alias_def
  by (rule stays_rules | (erule failed_updates) | simp)+

lemma stays_test:
  assumes "calls_keep_policies env"
  shows "runs stays_or_fails (\<lambda>s _. stays s) (handle_test_alias env c)"
  unfolding handle_test_alias_def by (rule stays_probe [OF assms] stays_rules | simp)+

lemma stays_rename: "runs stays_or_fails (\<lambda>s _. stays s) (handle_rename_combo env c)"
  unfolding handle_rename_combo_def
  by (rule routing.ask_then stays_rules | (erule failed_updates) | simp)+

lemma stays_combos:
  "runs stays_or_fails (\<lambda>s _. stays s) (handle_put_combo env c)"
  "runs stays_or_fails (\<lambda>s _. stays s) (handle_delete_combo c)"
  "runs stays_or_fails (\<lambda>s _. stays s) (handle_put_proxy env c)"
  "runs stays_or_fails (\<lambda>s _. stays s) (handle_delete_proxy c)"
  unfolding handle_put_combo_def handle_delete_combo_def handle_put_proxy_def handle_delete_proxy_def
  by (rule routing.weights_branch stays_rules | (erule failed_updates) | simp)+

text \<open>An import of proxies publishes nothing when it stored nothing.\<close>

lemma proxy_loop_stores:
  "runs (\<lambda>_ a _. status_of a = 500)
     (\<lambda>s r t. (\<exists>xs. ir_imported r = ir_imported rep @ xs) \<and> (ir_imported r = [] \<longrightarrow> unchanged s t))
     (proxy_loop on ow ls seen rep :: (import_report, 'w) act)"
proof (induction ls arbitrary: seen rep)
  case Nil
  show ?case by (simp add: runs_def give_def)
next
  case (Cons line ls)
  let ?R = "\<lambda>rep (m :: (import_report, 'w) act). runs (\<lambda>_ a _. status_of a = 500)
     (\<lambda>s r t. (\<exists>xs. ir_imported r = ir_imported rep @ xs) \<and> (ir_imported r = [] \<longrightarrow> unchanged s t)) m"
  have skip: "?R rep (proxy_loop on ow ls sn (rep\<lparr>ir_skipped := sk\<rparr>))"
    "?R rep (proxy_loop on ow ls sn (rep\<lparr>ir_invalid := sk\<rparr>))" for sn sk
    using Cons.IH [where seen = sn and rep = "rep\<lparr>ir_skipped := sk\<rparr>"]
      Cons.IH [where seen = sn and rep = "rep\<lparr>ir_invalid := sk\<rparr>"] by simp_all
  have add: "?R rep (and_then (must (writing w)) (\<lambda>_. proxy_loop on ow ls sn (rep\<lparr>ir_imported := ir_imported rep @ [p]\<rparr>)))"
    for w sn p
    by (rule runs_and_then [OF broken_write Cons.IH [where seen = sn and rep = "rep\<lparr>ir_imported := ir_imported rep @ [p]\<rparr>"]])
      auto
  have ask: "runs (\<lambda>_ a _. status_of a = 500) (\<lambda>s _ t. unchanged s t)
      (if ow then give None else ask_record (get_proxy n) :: (proxy option, 'w) act)" for n
    by (rule runs_weaken [OF runs_both [where E = "\<lambda>_ a _. status_of a = 500" and F = "\<lambda>_ _ _. True"
          and E' = careful and F' = "\<lambda>s _. unchanged s"]])
      (auto intro: broken broken_ask_record refusal.calm dest: record_missing)
  have step: "?R rep (and_then (if ow then give None else ask_record (get_proxy n)) f)" if "\<And>x. ?R rep (f x)" for n f
    by (rule runs_and_then [OF ask that]) (auto dest: unchanged_trans)
  show ?case unfolding proxy_loop.simps Let_def by (rule skip add step runs_branches)+
qed

lemma stays_import_proxies: "runs stays_or_fails (\<lambda>s _. stays s) (handle_import_proxies env c :: (answer, 'w) act)"
proof -
  have publish: "runs stays_or_fails (\<lambda>s _. stays s) (and_then (proxy_loop on ow ls [] empty_report) (\<lambda>rep.
      and_then (if ir_imported rep \<noteq> [] then load else give ()) (\<lambda>_. give (f rep))) :: (answer, 'w) act)"
    (is "runs _ _ ?m") for on ow ls and f :: "import_report \<Rightarrow> answer"
  proof (rule runsI)
    fix s t :: "'w admin" and a
    have fails: "runs (\<lambda>_ a _. status_of a = 500) (\<lambda>_ _ _. True) ?m"
      by (rule broken broken_proxy_loop)+
    assume "?m s = (Inl a, t)"
    with fails have "status_of a = 500" by (rule runs_exit)
    then show "stays_or_fails s a t" by (simp add: stays_or_fails_def)
  next
    fix s t :: "'w admin" and a
    assume run: "?m s = (Inr a, t)"
    then obtain rep u where loop: "proxy_loop on ow ls [] empty_report s = (Inr rep, u)"
      and rest: "(if ir_imported rep \<noteq> [] then load else give ()) u = (Inr (), t)"
      by (auto simp: and_then_def give_def split: prod.splits sum.splits)
    show "stays s t"
    proof (cases "ir_imported rep = []")
      case True
      with runs_result [OF proxy_loop_stores loop] rest show ?thesis
        by (auto simp: give_def intro: stays_unchanged)
    next
      case False
      with rest have "load u = (Inr (), t)" by simp
      then have "in_step t" by (rule runs_result [OF load_in_step])
      then show ?thesis by (simp add: stays_def)
    qed
  qed
  show ?thesis unfolding handle_import_proxies_def Let_def by (rule publish routing.finals routing.calm | simp)+
qed

lemma stays_settings_handlers:
  "runs stays_or_fails (\<lambda>s _. stays s) (handle_create_prompt_entry env c)"
  "runs stays_or_fails (\<lambda>s _. stays s) (handle_put_prompt_entry env c)"
  "runs stays_or_fails (\<lambda>s _. stays s) (handle_delete_prompt_entry c)"
  "runs stays_or_fails (\<lambda>s _. stays s) (handle_put_settings env c)"
  "runs stays_or_fails (\<lambda>s _. stays s) (handle_put_pony_settings env c)"
  unfolding handle_create_prompt_entry_def handle_put_prompt_entry_def handle_delete_prompt_entry_def
    handle_put_settings_def handle_put_pony_settings_def
  by (rule routing.final_settings stays_changes stays_settings write_stays update_stays routing.finals routing.calm | simp)+

section \<open>Every route\<close>

lemma careful_routes:
  assumes "(r, h) \<in> set (admin_routes env)"
  shows "runs careful served (h c)"
proof -
  have "\<forall>(r, h) \<in> set (dashboard_routes env). runs careful served (h c)"
    by (simp add: dashboard_routes_def refusal.final_dashboard)
  moreover have "\<forall>(r, h) \<in> set (key_routes env). runs careful served (h c)"
    by (simp add: key_routes_def refusal.final_lists careful_keys)
  moreover have "\<forall>(r, h) \<in> set (provider_routes env). runs careful served (h c)"
    by (simp add: provider_routes_def refusal.final_lists careful_providers careful_models)
  moreover have "\<forall>(r, h) \<in> set (routing_routes env). runs careful served (h c)"
    by (simp add: routing_routes_def refusal.final_routing_lists careful_models careful_rename careful_combos)
  moreover have "\<forall>(r, h) \<in> set (settings_routes env). runs careful served (h c)"
    by (simp add: settings_routes_def refusal.final_settings careful_settings_handlers careful_keys)
  ultimately show ?thesis using assms by (auto simp: admin_routes_def)
qed

lemma stays_routes:
  assumes "calls_keep_policies env" and "(r, h) \<in> set (admin_routes env)"
  shows "runs stays_or_fails (\<lambda>s _. stays s) (h c)"
proof -
  have "\<forall>(r, h) \<in> set (dashboard_routes env). runs stays_or_fails (\<lambda>s _. stays s) (h c)"
    by (simp add: dashboard_routes_def routing.final_dashboard)
  moreover have "\<forall>(r, h) \<in> set (key_routes env). runs stays_or_fails (\<lambda>s _. stays s) (h c)"
    by (simp add: key_routes_def routing.final_lists stays_keys)
  moreover have "\<forall>(r, h) \<in> set (provider_routes env). runs stays_or_fails (\<lambda>s _. stays s) (h c)"
    by (simp add: provider_routes_def routing.final_lists stays_providers stays_models)
  moreover have "\<forall>(r, h) \<in> set (routing_routes env). runs stays_or_fails (\<lambda>s _. stays s) (h c)"
    by (simp add: routing_routes_def routing.final_routing_lists stays_models stays_test [OF assms(1)] stays_rename
        stays_combos stays_import_proxies)
  moreover have "\<forall>(r, h) \<in> set (settings_routes env). runs stays_or_fails (\<lambda>s _. stays s) (h c)"
    by (simp add: settings_routes_def routing.final_settings stays_settings_handlers stays_keys)
  ultimately show ?thesis using assms(2) by (auto simp: admin_routes_def)
qed

text \<open>
  C6. Errors. Whatever the request and whatever calls of the store fail, a handler of the admin API
  that answers with a refusal, a status from 400 to 499, has left the stored records and all that the
  gateway holds as they were: the checks come before the first write. Every other answer is a
  success or a failure of the server.
\<close>

theorem admin_refusals_change_nothing:
  assumes "(route, h) \<in> set (admin_routes env)" and "handle (h c) s = (a, t)"
    and "400 \<le> status_of a" and "status_of a < 500"
  shows "the_store t = the_store s \<and> (\<exists>w. am_gateway t = (am_gateway s)\<lparr>gw_world := w\<rparr>)"
proof -
  have "unchanged s t"
    using assms(2-4) runs_exit [OF careful_routes [OF assms(1)], of c s a t]
      runs_result [OF careful_routes [OF assms(1)], of c s a t]
    by (auto simp: handle_def careful_def served_def split: prod.splits sum.splits)
  then show ?thesis
    by (auto simp: unchanged_def) (metis gateway.surjective gateway.update_convs(3))
qed

text \<open>A gateway with one stored key, one provider, and an upstream that never answers.\<close>

definition example_admin_env :: "nat admin_env" where
  "example_admin_env = \<lparr>ae_deps = \<lparr>dp_env = \<lparr>
       ev_chat = (\<lambda>p q (e, fb, n). (Inl (Sentinel ErrTimeout), e, fb, Suc n)),
       ev_stream = (\<lambda>p q (e, fb, n). (Inl (Sentinel ErrConnection), e, fb, n)),
       ev_embed = (\<lambda>p q (e, fb, n). (Inl (Sentinel ErrConnection), e, fb, n)),
       ev_wait = (\<lambda>d (e, n). (None, e, n)), ev_ctx_err = (\<lambda>n. None), ev_now = (\<lambda>n. int n),
       ev_rand = (\<lambda>k n. (0, n))\<rparr>,
     dp_auth = \<lparr>sv_enabled = False, sv_static = [], sv_keys = None\<rparr>,
     dp_admin_auth = \<lparr>ad_enabled = True, ad_token = ''t''\<rparr>, dp_max_body = 1000, dp_origins = [],
     dp_entropy = (\<lambda>n. ''k''), dp_consume = (\<lambda>cs w. (map Received cs @ [Closed], [], w)),
     dp_float = (\<lambda>x. ''1'')\<rparr>,
     ae_rand = example_rand, ae_uuid = (\<lambda>w. (''0123456789abcdef'', Suc w)),
     ae_models = (\<lambda>cl w. (Inl (Sentinel ErrTimeout), Suc w)), ae_streams = 0\<rparr>"

definition example_memory_of_keys :: memory where
  "example_memory_of_keys = new_memory\<lparr>mem_keys := [(''k'', \<lparr>ak_id = ''k'', ak_name = ''ci'', ak_hash = ''h'',
     ak_enabled = True, ak_created_at = 0, ak_last_used_at = 0, ak_rate_limit = 0, ak_budget = 0,
     ak_allowed_models = []\<rparr>)]\<rparr>"

definition example_admin :: "nat admin" where
  "example_admin = \<lparr>am_gateway = \<lparr>gw_routes = reload [] [] [], gw_engine = new_engine None, gw_world = 0,
     gw_quota = None, gw_cache = None, gw_active = [], gw_pony = None, gw_pony_stats = None, gw_drawn = 0,
     gw_touched = [], gw_cache_events = [], gw_counted = []\<rparr>,
     am_memory = example_memory_of_keys, am_faults = []\<rparr>"

definition example_admin_call :: "string \<Rightarrow> string \<Rightarrow> admin_call" where
  "example_admin_call method param = \<lparr>ca_request = \<lparr>hq_method = method, hq_path = ''/api/v1'',
     hq_header = (\<lambda>n. if n = ''Authorization'' then ''Bearer t'' else []), hq_body = ''{}'', hq_broken = False\<rparr>,
     ca_param = (\<lambda>_. param), ca_query = (\<lambda>_. [])\<rparr>"

lemma example_delete:
  "handle (handle_delete_key (example_admin_call ''DELETE'' ''x'')) example_admin =
     (refuse 404 ''invalid_request_error'' ''Resource not found.'', example_admin)"
  "fst (handle (handle_delete_key (example_admin_call ''DELETE'' ''k'')) example_admin) = NoContent"
  "the_store (snd (handle (handle_delete_key (example_admin_call ''DELETE'' ''k'')) example_admin)) = new_memory"
proof -
  have p: "url_param (example_admin_call ''DELETE'' ''x'') ''id'' = ''x''" "url_param (example_admin_call ''DELETE'' ''k'') ''id'' = ''k''"
    by code_simp+
  note step = handle_delete_key_def and_then_def must_def db_def updating_def on_keys_def keys_delete_def mem_delete_def
    example_memory_of_keys_def new_memory_def example_admin_def the_store_def put_store_def on_gateway_def am_engine_def
    new_engine_def fail_def handle_def change_def give_def forget_quota_def Let_def
  show "handle (handle_delete_key (example_admin_call ''DELETE'' ''x'')) example_admin =
     (refuse 404 ''invalid_request_error'' ''Resource not found.'', example_admin)"
    by (simp add: p step)
  show "fst (handle (handle_delete_key (example_admin_call ''DELETE'' ''k'')) example_admin) = NoContent"
    "the_store (snd (handle (handle_delete_key (example_admin_call ''DELETE'' ''k'')) example_admin)) = new_memory"
    by (simp_all add: p step)
qed

theorem admin_refusals_change_nothing_witness:
  "the_store (snd (handle (handle_delete_key (example_admin_call ''DELETE'' ''x'')) example_admin)) = the_store example_admin"
  using admin_refusals_change_nothing [of "(''DELETE'', ''/keys/{id}'')" handle_delete_key example_admin_env
      "example_admin_call ''DELETE'' ''x''" example_admin "refuse 404 ''invalid_request_error'' ''Resource not found.''" example_admin]
  by (simp add: example_delete admin_routes_def key_routes_def)

text \<open>
  Invariant. The routing table in force is always that of the stored records: providers,
  aliases, combos, proxies and the breaker overrides. If it is before a request to the admin API
  then it is afterwards, whichever calls of the store failed, unless the answer is a 500, of a
  store that broke between writing and reading back; and the next publication repairs even that.
  Calls of a provider may do anything but change the breakers' configuration.
\<close>

theorem admin_keeps_routing_in_step:
  fixes s t :: "'w admin"
  assumes "calls_keep_policies env" and "(route, h) \<in> set (admin_routes env)"
    and "in_step s" and "handle (h c) s = (a, t)"
  shows "(status_of a \<noteq> 500 \<longrightarrow> in_step t) \<and> (\<forall>u v :: 'w admin. load u = (Inr (), v) \<longrightarrow> in_step v)"
proof (intro conjI impI allI)
  assume "status_of a \<noteq> 500"
  with assms(3,4) show "in_step t"
    using runs_exit [OF stays_routes [OF assms(1,2)], of c s a t] runs_result [OF stays_routes [OF assms(1,2)], of c s a t]
    by (auto simp: handle_def stays_or_fails_def stays_def split: prod.splits sum.splits)
next
  show "in_step v" if "load u = (Inr (), v)" for u v :: "'w admin"
    using that by (rule runs_result [OF load_in_step])
qed

lemma example_policies: "calls_keep_policies example_admin_env"
  by (auto simp: calls_keep_policies_def example_admin_env_def Let_def)

lemma example_in_step: "in_step example_admin"
  by (simp add: in_step_def example_admin_def example_memory_of_keys_def new_memory_def the_store_def am_engine_def
      am_routes_def new_engine_def Let_def same_table_def build_registry_def new_registry_def models_list_def
      combos_list_def providers_list_def breaker_overrides_def mem_list_def new_breakers_def)

theorem admin_keeps_routing_in_step_witness:
  "in_step (snd (handle (handle_delete_key (example_admin_call ''DELETE'' ''k'')) example_admin))"
  using admin_keeps_routing_in_step [OF example_policies, of "(''DELETE'', ''/keys/{id}'')" handle_delete_key example_admin
      "example_admin_call ''DELETE'' ''k''" NoContent "snd (handle (handle_delete_key (example_admin_call ''DELETE'' ''k'')) example_admin)"]
    example_delete(2)
  by (auto simp: admin_routes_def key_routes_def example_in_step prod_eq_iff)

lemma admin_gate_cases:
  assumes "admin_gate env rq rw g = (passed, rw', g')"
  shows "g' = g" and "passed \<Longrightarrow> hq_method rq \<noteq> ''OPTIONS''"
    and "passed \<Longrightarrow> ad_enabled (dp_admin_auth (ae_deps env)) \<and> from_request (hq_header rq) \<noteq> []
      \<and> from_request (hq_header rq) = ad_token (dp_admin_auth (ae_deps env))"
  using assms
  by (auto simp: admin_gate_def admin_chain_def cors_def authenticate_with_def admin_authenticate_def Let_def
      split: if_splits sum.splits)

text \<open>
  C8. Safety. Whatever a request to the admin API changes, it bore the admin token, which was set,
  and a route of the table handled it; the new state is that of its handler. A request without the
  token, a preflight request and one to a closed API leave everything as it is.
\<close>

theorem admin_needs_token:
  assumes "serve_admin env pattern c rw s = Some (rw', t)" and "t \<noteq> s"
  shows "from_request (hq_header (ca_request c)) = ad_token (dp_admin_auth (ae_deps env))
    \<and> ad_token (dp_admin_auth (ae_deps env)) \<noteq> [] \<and> ad_enabled (dp_admin_auth (ae_deps env))
    \<and> hq_method (ca_request c) \<noteq> ''OPTIONS''
    \<and> (\<exists>h. map_of (admin_routes env) (hq_method (ca_request c), pattern) = Some h \<and> t = snd (handle (h c) s))"
proof -
  obtain passed rw1 g where gate: "admin_gate env (ca_request c) rw (am_gateway s) = (passed, rw1, g)"
    by (metis prod_cases3)
  note facts = admin_gate_cases [OF gate]
  have passed using assms gate facts(1) by (auto simp: serve_admin_def split: bool.splits)
  with facts assms gate show ?thesis
    by (auto simp: serve_admin_def split: prod.splits) (metis surjective_pairing)
qed

theorem admin_needs_token_witness:
  "\<exists>rw t. serve_admin example_admin_env ''/keys/{id}'' (example_admin_call ''DELETE'' ''k'')
       \<lparr>rw_header = [], rw_status = None, rw_out = [], rw_writes = 0, rw_flushes = 0, rw_fails = (\<lambda>n. False),
         rw_flusher = False\<rparr> example_admin = Some (rw, t)
     \<and> from_request (hq_header (ca_request (example_admin_call ''DELETE'' ''k''))) = ''t'' \<and> t \<noteq> example_admin"
proof -
  let ?rw = "\<lparr>rw_header = [], rw_status = None, rw_out = [], rw_writes = 0, rw_flushes = 0, rw_fails = (\<lambda>n. False),
    rw_flusher = False\<rparr>" and ?c = "example_admin_call ''DELETE'' ''k''"
  let ?run = "handle (handle_delete_key ?c) example_admin"
  have token: "from_request (hq_header (ca_request ?c)) = ''t''" by code_simp
  have gate: "admin_gate example_admin_env (ca_request ?c) ?rw (am_gateway example_admin) = (True, ?rw, am_gateway example_admin)"
    using token by (simp add: admin_gate_def admin_chain_def cors_def authenticate_with_def admin_authenticate_def
        example_admin_env_def example_admin_call_def)
  have route: "map_of (admin_routes example_admin_env) (hq_method (ca_request ?c), ''/keys/{id}'') = Some handle_delete_key"
    by (simp add: admin_routes_def dashboard_routes_def key_routes_def example_admin_call_def)
  have serve: "serve_admin example_admin_env ''/keys/{id}'' ?c ?rw example_admin
      = Some (write_answer (fst ?run) ?rw, snd ?run)"
    using gate route by (simp add: serve_admin_def split: prod.split)
  have "the_store (snd ?run) \<noteq> the_store example_admin"
    by (simp add: example_delete) (simp add: example_admin_def the_store_def am_engine_def new_engine_def
        example_memory_of_keys_def new_memory_def)
  then have changed: "snd ?run \<noteq> example_admin" by metis
  from admin_needs_token [OF serve changed] have "from_request (hq_header (ca_request ?c)) = ''t''"
    by (simp add: example_admin_env_def)
  with serve changed show ?thesis by blast
qed

end
