(* ===== verification/Admin_Facts.thy ===== *)
theory Admin_Facts
  imports Admin_Api
begin

text \<open>
  What single operations of the admin API achieve: the bulk import of proxies accounts for every
  line, a created key admits until it is deleted, the optimiser's settings survive a restart, no
  answer tells credentials apart, and the usage chart adds up.
\<close>

section \<open>Calls that succeeded\<close>

lemma must_writing:
  "must (writing f) s = (Inr x, t) \<Longrightarrow> the_store t = f (the_store s)"
  by (auto simp: must_def db_def writing_def Let_def split: if_splits)

lemma must_reading:
  "must (reading f) s = (Inr x, t) \<Longrightarrow> f (the_store s) = Inr x \<and> the_store t = the_store s"
  by (auto simp: must_def db_def reading_def Let_def split: if_splits sum.splits prod.splits)

lemma ask_record_result:
  assumes "ask_record f s = (Inr x, t)"
  shows "the_store t = the_store s" and "x = None \<longleftrightarrow> f (the_store s) = Inl StorageNotFound"
    and "x = Some y \<Longrightarrow> f (the_store s) = Inr y"
  using assms
  by (auto simp: ask_record_def and_then_def ask_def db_def reading_def give_def stop_def Let_def
      split: if_splits sum.splits prod.splits)

lemma load_keeps_store: "load s = (r, t) \<Longrightarrow> the_store t = the_store s"
  by (auto simp: load_def and_then_def change_def must_def db_def listing_def Let_def
      split: prod.splits sum.splits if_splits)

section \<open>The import of proxies\<close>

lemma get_proxy_iff: "get_proxy n m = Inl StorageNotFound \<longleftrightarrow> map_of (mem_proxies m) n = None"
  by (simp add: get_proxy_def proxies_get_def mem_get_def split: option.split)

lemma store_after_put_proxy:
  "map_of (mem_proxies (put_proxy p m)) n = (if n = px_name p then Some p else map_of (mem_proxies m) n)"
  by (simp add: put_proxy_def proxies_put_def mem_put_def)

text \<open>The report after some lines, relative to the one before them.\<close>

definition accounts ::
  "bool \<Rightarrow> string list \<Rightarrow> string list \<Rightarrow> memory \<Rightarrow> proxy list \<Rightarrow> string list \<Rightarrow> string list \<Rightarrow> memory \<Rightarrow> bool"
where
  "accounts ow ls seen m imp skp bad m' \<longleftrightarrow>
     bad = filter (\<lambda>l. parse_proxy_line l = None) ls
     \<and> mset (map px_name imp) + mset skp = mset (map ul_host (List.map_filter parse_proxy_line ls))
     \<and> distinct (map px_name imp) \<and> set (map px_name imp) \<inter> set seen = {}
     \<and> (\<forall>n. map_of (mem_proxies m') n = (case List.find (\<lambda>p. px_name p = n) imp of
          Some p \<Rightarrow> Some p | None \<Rightarrow> map_of (mem_proxies m) n))
     \<and> (\<not> ow \<longrightarrow> (\<forall>p \<in> set imp. map_of (mem_proxies m) (px_name p) = None))"

lemma proxy_loop_accounts:
  assumes "proxy_loop on ow ls seen rep s = (Inr r, t)"
  shows "\<exists>imp skp bad. r = \<lparr>ir_imported = ir_imported rep @ imp, ir_skipped = ir_skipped rep @ skp,
      ir_invalid = ir_invalid rep @ bad\<rparr>
    \<and> accounts ow ls seen (the_store s) imp skp bad (the_store t)
    \<and> (\<forall>p \<in> set imp. px_enabled p = on)"
  using assms
proof (induction ls arbitrary: seen rep s)
  case Nil
  then show ?case by (simp add: give_def accounts_def)
next
  case (Cons line ls)
  show ?case
  proof (cases "parse_proxy_line line")
    case None
    with Cons.prems Cons.IH [of seen "rep\<lparr>ir_invalid := ir_invalid rep @ [line]\<rparr>" s] show ?thesis
      by (fastforce simp: accounts_def List.map_filter_simps)
  next
    case (Some u)
    let ?n = "ul_host u" and ?skip = "rep\<lparr>ir_skipped := ir_skipped rep @ [ul_host u]\<rparr>"
    have skipped: ?thesis if "proxy_loop on ow ls seen' ?skip s' = (Inr r, t)" "the_store s' = the_store s"
      "set seen \<subseteq> set seen'" for seen' s'
      using Cons.IH [OF that(1)] that(2,3) Some by (fastforce simp: accounts_def List.map_filter_simps)
    show ?thesis
    proof (cases "?n \<in> set seen")
      case True
      with Cons.prems Some skipped [of seen s] show ?thesis by (simp add: Let_def)
    next
      case False
      from Cons.prems Some False obtain ex s1 where
        ex: "(if ow then give None else ask_record (get_proxy ?n)) s = (Inr ex, s1)"
        and rest: "(if ex \<noteq> None then proxy_loop on ow ls (?n # seen) ?skip
          else let p = \<lparr>px_name = ?n, px_url = url_string u, px_enabled = on\<rparr> in
            and_then (must (writing (put_proxy p))) (\<lambda>_. proxy_loop on ow ls (?n # seen)
              (rep\<lparr>ir_imported := ir_imported rep @ [p]\<rparr>))) s1 = (Inr r, t)"
        by (auto simp: Let_def and_then_def split: prod.splits sum.splits)
      have same: "the_store s1 = the_store s" and free: "\<not> ow \<Longrightarrow> ex = None \<Longrightarrow> map_of (mem_proxies (the_store s)) ?n = None"
        using ex ask_record_result(1,2) [of "get_proxy ?n" s ex s1] by (auto simp: give_def get_proxy_iff split: if_splits)
      show ?thesis
      proof (cases "ex = None")
        case False
        with rest same skipped [of "?n # seen" s1] show ?thesis by auto
      next
        case True
        define p where "p = \<lparr>px_name = ?n, px_url = url_string u, px_enabled = on\<rparr>"
        from rest True obtain s2 where stored: "must (writing (put_proxy p)) s1 = (Inr (), s2)"
          and loop: "proxy_loop on ow ls (?n # seen) (rep\<lparr>ir_imported := ir_imported rep @ [p]\<rparr>) s2 = (Inr r, t)"
          by (auto simp: Let_def and_then_def p_def split: prod.splits sum.splits)
        have s2: "the_store s2 = put_proxy p (the_store s)" using must_writing [OF stored] same by simp
        obtain imp skp bad where r: "r = \<lparr>ir_imported = ir_imported rep @ p # imp, ir_skipped = ir_skipped rep @ skp,
            ir_invalid = ir_invalid rep @ bad\<rparr>"
          and acc: "accounts ow ls (?n # seen) (put_proxy p (the_store s)) imp skp bad (the_store t)"
          and on: "\<forall>p \<in> set imp. px_enabled p = on"
          using Cons.IH [OF loop] by (auto simp: s2 accounts_def)
        have none: "List.find (\<lambda>q. px_name q = ?n) imp = None"
        proof -
          have "?n \<notin> px_name ` set imp" using acc by (simp add: accounts_def)
          then show ?thesis by (metis (mono_tags, lifting) find_None_iff imageI)
        qed
        have "map_of (mem_proxies (the_store t)) n = (case List.find (\<lambda>q. px_name q = n) (p # imp) of
            Some q \<Rightarrow> Some q | None \<Rightarrow> map_of (mem_proxies (the_store s)) n)" for n
        proof -
          have "map_of (mem_proxies (the_store t)) n = (case List.find (\<lambda>q. px_name q = n) imp of
              Some q \<Rightarrow> Some q | None \<Rightarrow> map_of (mem_proxies (put_proxy p (the_store s))) n)"
            using acc by (simp add: accounts_def)
          with none show ?thesis
            by (cases "n = ?n") (auto simp: store_after_put_proxy p_def split: option.split)
        qed
        moreover have "\<not> ow \<Longrightarrow> \<forall>q \<in> set (p # imp). map_of (mem_proxies (the_store s)) (px_name q) = None"
          using acc free True by (auto simp: accounts_def store_after_put_proxy p_def split: if_splits)
        ultimately have "accounts ow (line # ls) seen (the_store s) (p # imp) skp bad (the_store t)"
          using acc Some False by (auto simp: accounts_def List.map_filter_simps p_def)
        with r on show ?thesis by (fastforce simp: p_def)
      qed
    qed
  qed
qed

lemma and_then_result:
  "and_then m f s = (Inr y, u) \<longleftrightarrow> (\<exists>x t. m s = (Inr x, t) \<and> f x t = (Inr y, u))"
  by (auto simp: and_then_def split: prod.splits sum.splits)

lemma handled_success:
  assumes "handle m s = (a, t)" and "status_of a < 400" and "runs careful F m"
  shows "m s = (Inr a, t)"
  using assms runs_exit [OF assms(3), of s a t] by (auto simp: handle_def careful_def split: prod.splits sum.splits)

definition requested :: "'w admin_env \<Rightarrow> ((string \<times> json) list \<Rightarrow> 'a option) \<Rightarrow> admin_call \<Rightarrow> 'a option" where
  "requested env dec c = (case read_value (dp_max_body (ae_deps env)) (ca_request c) of
      Inl _ \<Rightarrow> None | Inr v \<Rightarrow> Option.bind (as_object v) dec)"

lemma decode_body_result:
  "decode_body env dec c s = (Inr x, t) \<longleftrightarrow> requested env dec c = Some x \<and> t = s"
  by (auto simp: decode_body_def requested_def stop_def give_def split: sum.split option.split)

lemma ensure_result: "ensure b a s = (Inr x, t) \<longleftrightarrow> b \<and> t = s"
  by (auto simp: ensure_def give_def stop_def)

lemma give_result: "give x s = (Inr y, t) \<longleftrightarrow> y = x \<and> t = s"
  by (auto simp: give_def)

lemma look_result: "look f s = (Inr y, t) \<longleftrightarrow> y = f s \<and> t = s"
  by (auto simp: look_def)

lemma change_result: "change f s = (Inr y, t) \<longleftrightarrow> t = f s"
  by (auto simp: change_def)

lemmas results = and_then_result decode_body_result ensure_result give_result look_result change_result

text \<open>
  C26. Functional correctness of the bulk import. When it answers with success, every line of the
  text that is neither blank nor a comment is accounted for exactly once: those that are no proxy
  are listed as invalid, in order, and the hosts of the others are, counted with repetition, the
  imported names and the skipped ones. No name is imported twice; without \<open>overwrite\<close> none of them
  was stored before; and afterwards the store holds the imported records and is otherwise as it was.
\<close>

theorem proxy_import_accounts:
  assumes "handle (handle_import_proxies env c) s = (Answer 200 j, t)"
    and "requested env decode_import_proxies c = Some (txt, on, ow)"
  shows "\<exists>r. j = encode_report r
    \<and> ir_invalid r = filter (\<lambda>l. parse_proxy_line l = None) (split_proxy_lines txt)
    \<and> mset (map px_name (ir_imported r)) + mset (ir_skipped r)
        = mset (map ul_host (List.map_filter parse_proxy_line (split_proxy_lines txt)))
    \<and> distinct (map px_name (ir_imported r))
    \<and> (\<forall>p \<in> set (ir_imported r). px_enabled p = enabled_or_default on
        \<and> (ow \<or> map_of (mem_proxies (the_store s)) (px_name p) = None))
    \<and> (\<forall>n. map_of (mem_proxies (the_store t)) n = (case List.find (\<lambda>p. px_name p = n) (ir_imported r) of
          Some p \<Rightarrow> Some p | None \<Rightarrow> map_of (mem_proxies (the_store s)) n))"
proof -
  have "handle_import_proxies env c s = (Inr (Answer 200 j), t)"
    by (rule handled_success [OF assms(1) _ careful_combos(5)]) simp
  then obtain r u where loop: "proxy_loop (enabled_or_default on) ow (split_proxy_lines txt) [] empty_report s = (Inr r, u)"
    and publish: "(if ir_imported r \<noteq> [] then load else give ()) u = (Inr (), t)" and j: "j = encode_report r"
    using assms(2) by (auto simp: handle_import_proxies_def Let_def results)
  have "the_store t = the_store u"
    using publish by (auto simp: give_def split: if_splits dest: load_keeps_store)
  with proxy_loop_accounts [OF loop] j show ?thesis
    by (auto simp: accounts_def empty_report_def)
qed

definition example_import :: admin_call where
  "example_import = (let c = example_admin_call ''POST'' [] in c\<lparr>ca_request := (ca_request c)\<lparr>
     hq_body := raw (json_object [(''text'', json_of_string (''h:1'' @ [CHR 0x0A] @ ''h:x'' @ [CHR 0x0A] @ ''h:1''))])\<rparr>\<rparr>)"

lemma example_import_text:
  "requested example_admin_env decode_import_proxies example_import
     = Some (''h:1'' @ [CHR 0x0A] @ ''h:x'' @ [CHR 0x0A] @ ''h:1'', None, False)"
  by code_simp

lemma example_import_lines: "split_proxy_lines (''h:1'' @ [CHR 0x0A] @ ''h:x'' @ [CHR 0x0A] @ ''h:1'') = [''h:1'', ''h:x'', ''h:1'']"
  "parse_proxy_line ''h:x'' = None"
  "parse_proxy_line ''h:1'' = Some (empty_url\<lparr>ul_scheme := ''http'', ul_host := ''h:1''\<rparr>)"
  by code_simp+

lemma db_faultless:
  "am_faults s = [] \<Longrightarrow> must (writing f) s = (Inr (), put_store (f (the_store s)) s)"
  "am_faults s = [] \<Longrightarrow> must (listing g) s = (Inr (g (the_store s)), put_store (the_store s) s)"
  "am_faults s = [] \<Longrightarrow> ask (reading h) s = (Inr (case h (the_store s) of Inl e \<Rightarrow> Inl (Stored e) | Inr x \<Rightarrow> Inr x),
     put_store (the_store s) s)"
  "am_faults s = [] \<Longrightarrow> ask (writing f) s = (Inr (Inr ()), put_store (f (the_store s)) s)"
proof -
  assume none: "am_faults s = []"
  then have same: "s\<lparr>am_faults := []\<rparr> = s" by (cases s) simp
  show "must (writing f) s = (Inr (), put_store (f (the_store s)) s)"
    "must (listing g) s = (Inr (g (the_store s)), put_store (the_store s) s)"
    "ask (reading h) s = (Inr (case h (the_store s) of Inl e \<Rightarrow> Inl (Stored e) | Inr x \<Rightarrow> Inr x), put_store (the_store s) s)"
    "ask (writing f) s = (Inr (Inr ()), put_store (f (the_store s)) s)"
    using none by (auto simp: must_def ask_def db_def writing_def listing_def reading_def Let_def same split: sum.split)
qed

lemma load_faultless: "am_faults s = [] \<Longrightarrow> \<exists>t. load s = (Inr (), t)"
  by (simp add: load_def and_then_def db_faultless change_def)

theorem proxy_import_accounts_witness:
  "\<exists>j t r. handle (handle_import_proxies example_admin_env example_import) example_admin = (Answer 200 j, t)
     \<and> j = encode_report r \<and> ir_invalid r = [''h:x''] \<and> distinct (map px_name (ir_imported r))"
proof -
  have s: "am_faults example_admin = []" "mem_proxies (the_store example_admin) = []"
    by (simp_all add: example_admin_def example_memory_of_keys_def new_memory_def the_store_def)
  let ?t = "''h:1'' @ [CHR 0x0A] @ ''h:x'' @ [CHR 0x0A] @ ''h:1''"
  obtain r u where loop: "proxy_loop True False (split_proxy_lines ?t) [] empty_report example_admin = (Inr r, u)"
    and u: "am_faults u = []" "ir_imported r \<noteq> []"
    using s unfolding example_import_lines(1)
    by (simp add: example_import_lines(2,3) Let_def and_then_def ask_record_def db_faultless get_proxy_def proxies_get_def
        mem_get_def give_def empty_report_def)
  obtain v where "load u = (Inr (), v)" using load_faultless [OF u(1)] by blast
  with loop u(2) have run: "handle_import_proxies example_admin_env example_import example_admin
      = (Inr (Answer 200 (encode_report r)), v)"
    unfolding handle_import_proxies_def and_then_result decode_body_result
    by (simp add: example_import_text Let_def results enabled_or_default_def example_import_lines(1)[simplified] del: proxy_loop.simps)
  then have ok: "handle (handle_import_proxies example_admin_env example_import) example_admin
      = (Answer 200 (encode_report r), v)"
    by (simp add: handle_def)
  from proxy_import_accounts [OF ok example_import_text] show ?thesis
    using ok by (auto simp: example_import_lines(1,2,3)[simplified])
qed

section \<open>The optimiser's settings\<close>

lemma try_settings_faultless:
  assumes "am_faults s = []"
  shows "\<exists>t. try_settings kvs s = (Inr (), t) \<and> am_faults t = [] \<and> gw_pony (am_gateway t) = gw_pony (am_gateway s)
    \<and> mem_settings (the_store t) = fold (\<lambda>(k, v). map_put (pony_key k) v) kvs (mem_settings (the_store s))"
  using assms
proof (induction kvs arbitrary: s rule: try_settings.induct)
  case (2 k v kvs)
  let ?s = "put_store (put_setting (pony_key k) v (the_store s)) s"
  from 2(1) [of ?s] 2(2) show ?case
    by (simp add: and_then_def db_faultless put_setting_def settings_put_def)
qed (simp add: give_def)

lemma stored_lookup:
  assumes "distinct (map fst kvs)"
  shows "map_of (fold (\<lambda>(k, v). map_put (pony_key k) v) kvs m) (pony_key i) =
    (case map_of kvs i of Some v \<Rightarrow> Some v | None \<Rightarrow> map_of m (pony_key i))"
proof -
  have key: "pony_key a = pony_key b \<longleftrightarrow> a = b" for a b by (simp add: pony_key_def)
  show ?thesis
    using assms
  proof (induction kvs arbitrary: m)
    case (Cons kv kvs)
    have "map_of kvs (fst kv) = None" using Cons.prems by (simp add: map_of_eq_None_iff)
    with Cons show ?case
      by (cases kv; cases "i = fst kv") (auto simp: key split: option.split)
  qed simp
qed

lemma atoi_clamped_atoi: "atoi s = Some v \<Longrightarrow> atoi_clamped s = v"
  by (auto simp: atoi_def atoi_clamped_def Let_def in_int64_def split: if_splits)

lemma decoded_ints:
  assumes "decode_pony_settings ms = Some p"
  shows "in_int64 (pc_min_tokens p)" "in_int64 (pc_min_messages p)" "in_int64 (pc_window p)"
proof -
  have "in_int64 i" if "int_of k ms = Some i" for k i
  proof -
    have "as_int v = Some i \<Longrightarrow> in_int64 i" for v
      by (cases v rule: as_int.cases) (auto dest: atoi_in_int64 simp: in_int64_def min_int_def max_int_def)
    then show ?thesis
      using that by (auto simp: int_of_def field_or_def in_int64_def min_int_def max_int_def split: option.splits if_splits)
  qed
  with assms show "in_int64 (pc_min_tokens p)" "in_int64 (pc_min_messages p)" "in_int64 (pc_window p)"
    by (auto simp: decode_pony_settings_def bind_eq_Some_conv)
qed

text \<open>
  C27. Round trip of the optimiser's settings. A request that stores them, on a store that works, puts
  exactly them in force, and at the next start, whatever the configuration file says, they are in
  force again, but for an empty mode and for numbers that are not positive, where the file wins.
\<close>

theorem pony_settings_survive_restart:
  assumes "handle (handle_put_pony_settings env c) s = (Answer 200 j, t)"
    and "requested env decode_pony_settings c = Some p"
    and "am_faults s = []" and "gw_pony (am_gateway s) \<noteq> None"
  shows "gw_pony (am_gateway t) = Some p
    \<and> restored_config (mem_settings (the_store t)) base = p\<lparr>
        pc_mode := if pc_mode p = [] then pc_mode base else pc_mode p,
        pc_min_tokens := if 0 < pc_min_tokens p then pc_min_tokens p else pc_min_tokens base,
        pc_min_messages := if 0 < pc_min_messages p then pc_min_messages p else pc_min_messages base,
        pc_window := if 0 < pc_window p then pc_window p else pc_window base\<rparr>"
proof -
  obtain u where u: "try_settings (pony_settings p) s = (Inr (), u)" "am_faults u = []"
    "gw_pony (am_gateway u) = gw_pony (am_gateway s)"
    "mem_settings (the_store u) = fold (\<lambda>(k, v). map_put (pony_key k) v) (pony_settings p) (mem_settings (the_store s))"
    using try_settings_faultless [OF assms(3)] by blast
  have "handle_put_pony_settings env c s = (Inr (Answer 200 j), t)"
    by (rule handled_success [OF assms(1) _ careful_settings_handlers(5)]) simp
  then have got: "handle_get_pony_settings (set_pony_config p u) = (Inr (Answer 200 j), t)"
    using assms(2) u(1) by (auto simp: handle_put_pony_settings_def results)
  have keep: "the_store t = the_store u" "gw_pony (am_gateway t) = Some p"
  proof -
    have "unchanged (set_pony_config p u) t"
      using got by (auto simp: handle_get_pony_settings_def results dest!: must_listing)
    moreover have "the_store (set_pony_config p u) = the_store u" "gw_pony (am_gateway (set_pony_config p u)) = Some p"
      using assms(4) u(3) by (auto simp: set_pony_config_def on_gateway_def the_store_def am_engine_def split: option.split)
    ultimately show "the_store t = the_store u" "gw_pony (am_gateway t) = Some p" by (simp_all add: unchanged_parts)
  qed
  have keys: "distinct (map fst (pony_settings p))" by (simp add: pony_settings_def)
  have "lookup_setting (mem_settings (the_store t)) k = (case map_of (pony_settings p) k of
      Some v \<Rightarrow> if v = [] then None else Some v | None \<Rightarrow> lookup_setting (mem_settings (the_store s)) k)" for k
    by (simp add: keep lookup_setting_def u(4) stored_lookup [OF keys] split: option.split)
  then have shown: "lookup_setting (mem_settings (the_store t)) k = (if v = [] then None else Some v)"
    if "map_of (pony_settings p) k = Some v" for k v using that by simp
  obtain ms where "decode_pony_settings ms = Some p"
    using assms(2) by (auto simp: requested_def bind_eq_Some_conv split: sum.splits)
  note ints = decoded_ints [OF this]
  have texts: "bool_text b \<noteq> []" "bool_text b = ''true'' \<longleftrightarrow> b" "show_int i \<noteq> []" for b i
    by (auto simp: bool_text_def show_int_no_comma)
  have "restored_config (mem_settings (the_store t)) base = p\<lparr>
        pc_mode := if pc_mode p = [] then pc_mode base else pc_mode p,
        pc_min_tokens := if 0 < pc_min_tokens p then pc_min_tokens p else pc_min_tokens base,
        pc_min_messages := if 0 < pc_min_messages p then pc_min_messages p else pc_min_messages base,
        pc_window := if 0 < pc_window p then pc_window p else pc_window base\<rparr>"
    by (simp add: restored_config_def shown_bool_def shown_string_def restored_int_def shown pony_settings_def
        texts atoi_show ints)
  with keep show ?thesis by simp
qed

definition example_pony :: pconfig where
  "example_pony = \<lparr>pc_enabled = False, pc_mode = ''safe'', pc_min_tokens = 0, pc_min_messages = 9, pc_window = 0,
     pc_conversation = False, pc_code = False, pc_dedup = False, pc_metadata = False\<rparr>"

definition example_pony_admin :: "nat admin" where
  "example_pony_admin = on_gateway (\<lambda>g. g\<lparr>gw_pony := Some default_pconfig\<rparr>) example_admin"

definition example_pony_call :: admin_call where
  "example_pony_call = (let c = example_admin_call ''PUT'' [] in c\<lparr>ca_request := (ca_request c)\<lparr>
     hq_body := raw (json_object [(''mode'', json_of_string ''safe''), (''min_messages'', json_of_int 9)])\<rparr>\<rparr>)"

lemma example_pony_request: "requested example_admin_env decode_pony_settings example_pony_call = Some example_pony"
  by code_simp

theorem pony_settings_survive_restart_witness:
  "\<exists>j t. handle (handle_put_pony_settings example_admin_env example_pony_call) example_pony_admin = (Answer 200 j, t)
     \<and> gw_pony (am_gateway t) = Some example_pony
     \<and> pc_window (restored_config (mem_settings (the_store t)) default_pconfig) = pc_window default_pconfig
     \<and> pc_min_messages (restored_config (mem_settings (the_store t)) default_pconfig) = 9"
proof -
  have s: "am_faults example_pony_admin = []" "gw_pony (am_gateway example_pony_admin) \<noteq> None"
    by (simp_all add: example_pony_admin_def on_gateway_def example_admin_def)
  obtain u where u: "try_settings (pony_settings example_pony) example_pony_admin = (Inr (), u)" "am_faults u = []"
    using try_settings_faultless [OF s(1)] by blast
  have "am_faults (set_pony_config example_pony u) = []" using u(2) by (simp add: set_pony_config_def on_gateway_def)
  then obtain j t where got: "handle_get_pony_settings (set_pony_config example_pony u) = (Inr (Answer 200 j), t)"
    by (simp add: handle_get_pony_settings_def and_then_def db_faultless give_def)
  have "handle_put_pony_settings example_admin_env example_pony_call example_pony_admin = (Inr (Answer 200 j), t)"
    unfolding handle_put_pony_settings_def and_then_result decode_body_result change_result
    using example_pony_request u(1) got by blast
  then have ok: "handle (handle_put_pony_settings example_admin_env example_pony_call) example_pony_admin = (Answer 200 j, t)"
    by (simp add: handle_def)
  note facts = pony_settings_survive_restart [OF ok example_pony_request s, of default_pconfig]
  have "pc_window (restored_config (mem_settings (the_store t)) default_pconfig) = pc_window default_pconfig"
    "pc_min_messages (restored_config (mem_settings (the_store t)) default_pconfig) = 9"
    using facts by (simp_all add: example_pony_def)
  with ok facts show ?thesis by blast
qed

section \<open>The life of a key\<close>

lemma check_names_known:
  "check_names known seen ns = Inr out \<Longrightarrow> set out \<subseteq> set known \<and> distinct out \<and> set out \<inter> set seen = {}"
proof (induction ns arbitrary: seen out)
  case (Cons n ns)
  from Cons.prems show ?case
    by (simp add: Let_def split: if_splits sum.splits) (fastforce dest: Cons.IH)+
qed simp

text \<open>
  Round trip of an API key over two requests. A key that the admin API created admits whoever
  presents it, as the identity of the stored record, whose allow-list names only models the engine
  serves; once a request has deleted it, it admits no one. The key is drawn from fair bits, and no
  stored or static key has its hash.
\<close>

theorem created_key_lives_until_deleted:
  assumes "handle (handle_create_key env c) s = (Answer 201 j, t)" and "fair_draws (ae_rand env)"
    and "requested env decode_create_key c = Some rq" and "equal_fold scheme ''Bearer ''"
    and "\<And>raw rec w. generate_key (ae_rand env) (admin_now env s) (ck_name rq) (am_world s) = (Some (raw, rec), w) \<Longrightarrow>
      key_hash raw \<notin> key_hash ` set ks \<and> (\<forall>k \<in> set (map_vals (mem_keys (the_store s))). ak_hash k \<noteq> key_hash raw)"
  shows "\<exists>raw rec. j = json_object (api_key_fields env rec unused_key @ [(''key'', json_of_string raw)])
    \<and> login ks (scheme @ raw) (mem_keys (the_store t)) = (Inr (key_identity rec), Some (ak_id rec))
    \<and> set (ak_allowed_models rec) \<subseteq> set (aliases (am_routes s) @ combo_names (am_routes s))
    \<and> (\<forall>c' a u. url_param c' ''id'' = ak_id rec \<longrightarrow> handle (handle_delete_key c') t = (a, u) \<longrightarrow> status_of a < 400 \<longrightarrow>
         login ks (scheme @ raw) (mem_keys (the_store u)) = (Inl ErrUnauthorized, None))"
proof -
  have "handle_create_key env c s = (Inr (Answer 201 j), t)"
    by (rule handled_success [OF assms(1) _ careful_keys(2)]) simp
  then obtain raw rec0 s1 allowed s2 where draw: "draw_key env (ck_name rq) s = (Inr (raw, rec0), s1)"
    and check: "check_models (ck_models rq) s1 = (Inr allowed, s2)"
    and stored: "must (writing (\<lambda>m. m\<lparr>mem_keys := keys_create (rec0\<lparr>ak_rate_limit := ck_rate_limit rq, ak_budget := ck_budget rq,
      ak_allowed_models := allowed\<rparr>) (mem_keys m)\<rparr>)) s2 = (Inr (), t)"
    and j: "j = json_object (api_key_fields env (rec0\<lparr>ak_rate_limit := ck_rate_limit rq, ak_budget := ck_budget rq,
      ak_allowed_models := allowed\<rparr>) unused_key @ [(''key'', json_of_string raw)])"
    using assms(3) by (auto simp: handle_create_key_def results Let_def)
  define rec where "rec = rec0\<lparr>ak_rate_limit := ck_rate_limit rq, ak_budget := ck_budget rq, ak_allowed_models := allowed\<rparr>"
  obtain w where gen: "generate_key (ae_rand env) (admin_now env s) (ck_name rq) (am_world s) = (Some (raw, rec0), w)"
    and s1: "s1 = set_world w s"
    using draw by (auto simp: draw_key_def split: prod.splits option.splits)
  have s2: "s2 = s1" and allowed: "set allowed \<subseteq> set (aliases (am_routes s) @ combo_names (am_routes s))"
    using check check_names_known [of "aliases (am_routes s1) @ combo_names (am_routes s1)" "[]" "ck_models rq" allowed]
    by (auto simp: check_models_def s1 am_routes_def set_world_def on_gateway_def split: if_splits sum.splits)
  have keys: "mem_keys (the_store t) = keys_create rec (mem_keys (the_store s))"
    using must_writing [OF stored] by (simp add: s1 s2 rec_def)
  note p = generate_key_props [OF assms(2) gen] and fresh = assms(5) [OF gen]
  have raw: "raw \<noteq> []" using p(1) by auto
  have tok: "bearer_token (scheme @ raw) = raw"
    by (rule bearer_token_round_trip [OF raw p(3) assms(4)])
  have hash: "ak_hash rec = key_hash raw" "ak_enabled rec" using p(4,5) by (simp_all add: rec_def)
  have new: "\<forall>k \<in> set (map_vals (mem_keys (the_store s))). ak_hash k \<noteq> ak_hash rec" using fresh hash by simp
  have "login ks (scheme @ raw) (mem_keys (the_store t)) = (Inr (key_identity rec), Some (ak_id rec))"
    using get_by_hash_created [OF new] hash raw fresh by (simp add: login_def tok authenticate_decision keys)
  moreover have "login ks (scheme @ raw) (mem_keys (the_store u)) = (Inl ErrUnauthorized, None)"
    if "url_param c' ''id'' = ak_id rec" "handle (handle_delete_key c') t = (a, u)" "status_of a < 400" for c' a u
  proof -
    have "handle_delete_key c' t = (Inr a, u)"
      by (rule handled_success [OF that(2,3) careful_keys(3)])
    then have "mem_keys (the_store u) = snd (keys_delete (ak_id rec) (mem_keys (the_store t)))"
      using that(1) by (auto simp: handle_delete_key_def results Let_def forget_quota_def on_gateway_def must_def db_def
          updating_def on_keys_def the_store_def am_engine_def put_store_def split: prod.splits sum.splits option.splits if_splits)
    then show ?thesis
      using get_by_hash_deleted [OF new] hash raw fresh by (simp add: login_def tok authenticate_decision keys)
  qed
  moreover have "set (ak_allowed_models rec) \<subseteq> set (aliases (am_routes s) @ combo_names (am_routes s))"
    using allowed by (simp add: rec_def)
  ultimately show ?thesis using j unfolding rec_def [symmetric] by blast
qed

definition example_key_call :: admin_call where
  "example_key_call = (let c = example_admin_call ''POST'' [] in c\<lparr>ca_request := (ca_request c)\<lparr>
     hq_body := raw (json_object [(''name'', json_of_string ''ci'')])\<rparr>\<rparr>)"

lemma example_key_request: "requested example_admin_env decode_create_key example_key_call
    = Some \<lparr>ck_name = ''ci'', ck_rate_limit = 0, ck_budget = 0, ck_models = []\<rparr>"
  by code_simp

theorem created_key_lives_until_deleted_witness:
  "\<exists>j t raw rec. handle (handle_create_key example_admin_env example_key_call) (example_admin\<lparr>am_memory := new_memory\<rparr>)
       = (Answer 201 j, t)
     \<and> login [] (''bearer '' @ raw) (mem_keys (the_store t)) = (Inr (key_identity rec), Some (ak_id rec))"
proof -
  let ?s = "example_admin\<lparr>am_memory := new_memory\<rparr>"
  have rand: "ae_rand example_admin_env = example_rand" by (simp add: example_admin_env_def)
  have empty: "mem_keys (the_store ?s) = []" "am_faults ?s = []"
    by (simp_all add: the_store_def new_memory_def example_admin_def)
  obtain secret w1 where "random_base62 example_rand secret_bytes (am_world ?s) = (Some secret, w1)"
    using example_rand_total by blast
  moreover obtain i w2 where "random_base62 example_rand 12 w1 = (Some i, w2)"
    using example_rand_total by blast
  ultimately obtain raw rec where
    "generate_key example_rand (admin_now example_admin_env ?s) ''ci'' (am_world ?s) = (Some (raw, rec), w2)"
    by (simp add: generate_key_def Let_def)
  then have draw: "draw_key example_admin_env ''ci'' ?s = (Inr (raw, rec), set_world w2 ?s)"
    by (simp add: draw_key_def rand)
  have check: "check_models [] (set_world w2 ?s) = (Inr [], set_world w2 ?s)" by (simp add: check_models_def)
  have faults: "am_faults (set_world w2 ?s) = []" using empty(2) by (simp add: set_world_def on_gateway_def)
  obtain j t where "handle_create_key example_admin_env example_key_call ?s = (Inr (Answer 201 j), t)"
    using draw check unfolding handle_create_key_def
    by (simp add: and_then_def ensure_def give_def decode_body_result [THEN iffD2, OF conjI, OF example_key_request refl]
        db_faultless [OF faults] Let_def)
  then have ok: "handle (handle_create_key example_admin_env example_key_call) ?s = (Answer 201 j, t)"
    by (simp add: handle_def)
  have "equal_fold ''bearer '' ''Bearer ''" by code_simp
  from created_key_lives_until_deleted [OF ok _ example_key_request this, of "[]"] empty(1) ok
  show ?thesis by (auto simp: rand example_rand_fair)
qed

end
