(* ===== verification/Admin_Views.thy ===== *)
theory Admin_Views
  imports Admin_Api
begin

text \<open>
  What the dashboard is shown: the usage chart covers its window without gaps and adds up to the
  totals beside it, and no answer about providers tells credentials apart beyond their visible ends.
\<close>

section \<open>The usage chart\<close>

lemma bucket_starts_step:
  assumes "0 < b"
  shows "bucket_starts b now t = (if t > now then [] else t # bucket_starts b now (t + b))"
  using assms by (simp add: bucket_starts.simps [of b now t])

lemma bucket_starts_set:
  assumes "0 < b"
  shows "set (bucket_starts b now t) = {x. t \<le> x \<and> x \<le> now \<and> b dvd (x - t)}"
  using assms
proof (induction b now t rule: bucket_starts.induct)
  case (1 b now t)
  show ?case
  proof (cases "t > now")
    case True
    with 1(2) show ?thesis by (auto simp: bucket_starts_step [of b now t])
  next
    case False
    have "{x. t \<le> x \<and> x \<le> now \<and> b dvd (x - t)} = insert t {x. t + b \<le> x \<and> x \<le> now \<and> b dvd (x - (t + b))}"
    proof -
      have "t + b \<le> x" if "t \<le> x" "x \<noteq> t" "b dvd (x - t)" for x
        using that zdvd_imp_le [of b "x - t"] by simp
      moreover have "b dvd (x - (t + b)) \<longleftrightarrow> b dvd (x - t)" for x
        by (metis add_diff_cancel_right' diff_add_eq dvd_add_triv_right_iff diff_diff_add diff_add_cancel)
      ultimately show ?thesis using False 1(2) by auto
    qed
    with 1 False show ?thesis by (simp add: bucket_starts_step [of b now t])
  qed
qed

lemma bucket_starts_sorted:
  assumes "0 < b"
  shows "sorted_wrt (<) (bucket_starts b now t)"
  using assms
proof (induction b now t rule: bucket_starts.induct)
  case (1 b now t)
  then show ?case
    by (cases "t > now") (auto simp: bucket_starts_step [of b now t] bucket_starts_set)
qed

text \<open>A total over the instants, each looking its group up, is the total over the groups.\<close>

lemma sum_at_none:
  "v \<notin> h ` set ts \<Longrightarrow> sum_list (map (\<lambda>t. if h t = v then c else 0) ts) = (0 :: 'n :: comm_monoid_add)"
  by (induction ts) auto

lemma sum_at_one:
  "distinct (map h ts) \<Longrightarrow> v \<in> h ` set ts \<Longrightarrow>
    sum_list (map (\<lambda>t. if h t = v then c else 0) ts) = (c :: 'n :: comm_monoid_add)"
proof (induction ts)
  case (Cons t ts)
  show ?case
  proof (cases "h t = v")
    case True
    with Cons.prems(1) have "v \<notin> h ` set ts" by auto
    from sum_at_none [OF this, of c] True show ?thesis by simp
  next
    case False
    with Cons show ?thesis by auto
  qed
qed simp

lemma lookup_total:
  fixes f :: "'g \<Rightarrow> 'n :: comm_monoid_add"
  assumes "distinct (map h ts)" and "distinct (map k gs)" and "k ` set gs \<subseteq> h ` set ts" and "f z = 0"
  shows "sum_list (map (\<lambda>t. case List.find (\<lambda>g. k g = h t) (rev gs) of None \<Rightarrow> f z | Some g \<Rightarrow> f g) ts) = sum_list (map f gs)"
  using assms(2,3)
proof (induction gs)
  case Nil
  show ?case by (simp add: assms(4))
next
  case (Cons g gs)
  let ?F = "\<lambda>gs t. case List.find (\<lambda>g. k g = h t) (rev gs) of None \<Rightarrow> f z | Some g \<Rightarrow> f g"
  have step: "?F (g # gs) t = (if h t = k g then f g else 0) + ?F gs t" for t
  proof (cases "h t = k g")
    case True
    with Cons.prems(1) have "List.find (\<lambda>g. k g = h t) (rev gs) = None"
      by (metis (mono_tags, lifting) distinct.simps(2) find_None_iff image_eqI list.map(2) list.set_map set_rev)
    with True show ?thesis by (simp add: find_append assms(4))
  qed (simp add: find_append split: option.split)
  have one: "sum_list (map (\<lambda>t. if h t = k g then f g else 0) ts) = f g"
    using assms(1) Cons.prems(2) by (intro sum_at_one) auto
  have "sum_list (map (?F (g # gs)) ts) = sum_list (map (\<lambda>t. (if h t = k g then f g else 0) + ?F gs t) ts)"
    by (simp only: step)
  also have "\<dots> = f g + sum_list (map (?F gs) ts)" by (simp only: sum_list_addf one)
  also have "sum_list (map (?F gs) ts) = sum_list (map f gs)" using Cons by simp
  finally show ?case by simp
qed

text \<open>Every row of the series is keyed by the bucket of one of its events.\<close>

lemma series_keys:
  "(i, g) \<in> set (group_events (\<lambda>e. l e div second) l es) \<Longrightarrow> i = ug_key g div second \<and> ug_key g \<in> l ` set es"
proof (induction es arbitrary: i g rule: rev_induct)
  case (snoc e es)
  let ?m = "group_events (\<lambda>e. l e div second) l es"
  have old: "ug_key g div second = i \<and> ug_key g \<in> l ` set es" if "map_of ?m i = Some g" for i g
    using snoc.IH [of i g] that by (auto dest: map_of_SomeD)
  have "map_of (group_events (\<lambda>e. l e div second) l (es @ [e])) i = Some g"
    using snoc.prems map_of_in_wf [OF group_events_wf] by metis
  then show ?case
    by (auto simp: group_events_snoc group_add_def zero_group_def split: if_splits option.splits dest: old)
qed (simp add: group_events_def)

lemma truncate_facts:
  assumes "0 < b"
  shows "b dvd truncate_time t b" "truncate_time t b \<le> t" "t \<le> u \<Longrightarrow> truncate_time t b \<le> truncate_time u b"
proof -
  have eq: "truncate_time t b = t div b * b" for t by (simp add: truncate_time_def minus_mod_eq_div_mult)
  show "b dvd truncate_time t b" by (simp add: eq)
  show "truncate_time t b \<le> t" using assms by (simp add: truncate_time_def)
  show "t \<le> u \<Longrightarrow> truncate_time t b \<le> truncate_time u b"
    unfolding eq using assms by (intro mult_right_mono zdiv_mono1) auto
qed

lemma series_lookup_keys:
  assumes "0 < b"
  shows "distinct (map (\<lambda>g. ug_key g div second) (usage_series since b evs))"
    and "g \<in> set (usage_series since b evs) \<Longrightarrow> \<exists>e \<in> set evs. since \<le> ue_created_at e \<and> ug_key g = truncate_time (ue_created_at e) b"
proof -
  let ?l = "\<lambda>e. truncate_time (ue_created_at e) b" and ?es = "since_filter since evs"
  let ?m = "group_events (\<lambda>e. ?l e div second) ?l ?es"
  have series: "usage_series since b evs = sort_key ug_key (map snd ?m)"
    using assms by (simp add: usage_series_def)
  have eq: "map (\<lambda>g. ug_key g div second) (map snd ?m) = map fst ?m"
    using series_keys [of _ _ ?l ?es] by (auto simp: comp_def)
  have "distinct (map (\<lambda>g. ug_key g div second) (map snd ?m))"
    unfolding eq using group_events_wf [of "\<lambda>e. ?l e div second" ?l ?es] by (simp only: map_wf_def)
  then show "distinct (map (\<lambda>g. ug_key g div second) (usage_series since b evs))"
    by (simp only: series distinct_map_sort_key)
  show "\<exists>e \<in> set evs. since \<le> ue_created_at e \<and> ug_key g = ?l e" if g: "g \<in> set (usage_series since b evs)"
  proof -
    obtain i where "(i, g) \<in> set ?m" using g by (auto simp: series)
    with series_keys [of i g ?l ?es] have "ug_key g \<in> ?l ` set ?es" by blast
    then show ?thesis by (auto simp: since_filter_def not_less)
  qed
qed



section \<open>Credentials stay hidden\<close>

text \<open>What may be seen of a credential: its length and, of a long one, the four bytes at each end.\<close>

definition same_ends :: "string \<Rightarrow> string \<Rightarrow> bool" where
  "same_ends k k' \<longleftrightarrow> (let a = trim_space k; b = trim_space k' in length a = length b
     \<and> (8 < length a \<longrightarrow> take 4 a = take 4 b \<and> drop (length a - 4) a = drop (length b - 4) b))"

definition swap_keys :: "(string \<Rightarrow> string) \<Rightarrow> provider_record \<Rightarrow> provider_record" where
  "swap_keys f p = p\<lparr>pr_api_key := f (pr_api_key p), pr_api_keys := map f (pr_api_keys p)\<rparr>"

definition swap_secrets :: "(string \<Rightarrow> string) \<Rightarrow> 'w admin \<Rightarrow> 'w admin" where
  "swap_secrets f s = s\<lparr>am_memory := (am_memory s)\<lparr>
     mem_providers := map (\<lambda>(n, p). (n, swap_keys f p)) (mem_providers (am_memory s))\<rparr>\<rparr>"

lemma mask_same_ends: "same_ends k k' \<Longrightarrow> mask_provider_key k = mask_provider_key k'"
  by (auto simp: same_ends_def mask_provider_key_def Let_def)

lemma sort_key_map: "sort_key k (map f xs) = map f (sort_key (k \<circ> f) xs)"
proof -
  have "insort_key k (f x) (map f ys) = map f (insort_key (k \<circ> f) x ys)" for x ys
    by (induction ys) auto
  then show ?thesis by (induction xs) auto
qed

lemma swap_keys_name [simp]:
  "pr_name (swap_keys f p) = pr_name p" "pr_group (swap_keys f p) = pr_group p"
  "pr_api_key_method (swap_keys f p) = pr_api_key_method p"
  by (simp_all add: swap_keys_def)

lemma swapped_store:
  "the_store (swap_secrets f s) = (the_store s)\<lparr>mem_providers := map (\<lambda>(n, p). (n, swap_keys f p)) (mem_providers (the_store s))\<rparr>"
  by (auto simp: the_store_def swap_secrets_def am_engine_def split: option.split)

lemma swapped_list: "stored_providers (the_store (swap_secrets f s)) = map (swap_keys f) (stored_providers (the_store s))"
proof -
  have "sort_key pr_name (map snd (map (\<lambda>(n, p). (n, swap_keys f p)) ps)) = map (swap_keys f) (sort_key pr_name (map snd ps))" for ps
  proof -
    have "map snd (map (\<lambda>(n, p). (n, swap_keys f p)) ps) = map (swap_keys f) (map snd ps)" by auto
    then show ?thesis using sort_key_map [of pr_name "swap_keys f" "map snd ps"] by (simp only: comp_def swap_keys_name)
  qed
  then show ?thesis by (simp add: swapped_store providers_list_def mem_list_def del: map_map)
qed

lemma swapped_get:
  "get_provider n (the_store (swap_secrets f s)) = (case get_provider n (the_store s) of
     Inl e \<Rightarrow> Inl e | Inr p \<Rightarrow> Inr (swap_keys f p))"
proof -
  have "map_of (map (\<lambda>(n, p). (n, swap_keys f p)) ps) n = map_option (swap_keys f) (map_of ps n)" for ps
    by (induction ps) auto
  then show ?thesis
    by (simp add: swapped_store get_provider_def providers_get_def mem_get_def split: option.split)
qed

lemma swapped_encode:
  assumes "\<And>k. f k = [] \<longleftrightarrow> k = []"
  shows "encode_provider (swap_keys f p) h = encode_provider p h"
  using assms by (simp add: encode_provider_def swap_keys_def)

text \<open>
  C30. Safety. Whatever the stored credentials are replaced by, as long as each keeps its length and a
  long one its visible ends, the answers about providers, their keys and the key rotation are the
  same, byte for byte: they tell nothing else about a credential.
\<close>

theorem answers_hide_credentials:
  assumes "\<forall>k. same_ends k (f k) \<and> (f k = [] \<longleftrightarrow> k = [])"
  shows "fst (handle handle_list_providers (swap_secrets f s)) = fst (handle handle_list_providers s)
    \<and> fst (handle (handle_list_provider_keys c) (swap_secrets f s)) = fst (handle (handle_list_provider_keys c) s)
    \<and> fst (handle (handle_get_key_settings c) (swap_secrets f s)) = fst (handle (handle_get_key_settings c) s)"
proof -
  have faults: "am_faults (swap_secrets f s) = am_faults s" by (simp add: swap_secrets_def)
  have health: "health_of (put_store m t) = health_of t" "health_of (t\<lparr>am_faults := fs\<rparr>) = health_of t"
    "health_of (swap_secrets f t) = health_of t" for m t fs
    by (simp_all add: health_of_def put_store_def on_gateway_def am_engine_def swap_secrets_def)
  have masks: "encode_provider_keys (pr_api_keys (swap_keys f p)) = encode_provider_keys (pr_api_keys p)" for p
  proof -
    have "mask_provider_key (f k) = mask_provider_key k" for k using assms mask_same_ends [of k "f k"] by simp
    moreover have "enumerate n (map f ks) = map (\<lambda>(i, k). (i, f k)) (enumerate n ks)" for n and ks :: "string list"
      by (induction ks arbitrary: n) auto
    ultimately show ?thesis by (simp add: encode_provider_keys_def swap_keys_def comp_def case_prod_unfold)
  qed
  have enc: "encode_provider (swap_keys f p) h = encode_provider p h" for p h
    using assms by (intro swapped_encode) simp
  have "fst (handle handle_list_providers (swap_secrets f s)) = fst (handle handle_list_providers s)"
    by (simp add: handle_list_providers_def handle_def and_then_def must_def db_def listing_def look_def Let_def faults
        swapped_list comp_def enc health)
  moreover have "fst (handle (handle_list_provider_keys c) (swap_secrets f s)) = fst (handle (handle_list_provider_keys c) s)"
    by (simp add: handle_list_provider_keys_def handle_def and_then_def must_def db_def reading_def give_def Let_def faults
        swapped_get masks split: sum.split)
  moreover have "fst (handle (handle_get_key_settings c) (swap_secrets f s)) = fst (handle (handle_get_key_settings c) s)"
    by (simp add: handle_get_key_settings_def handle_def and_then_def must_def db_def reading_def give_def Let_def faults
        swapped_get split: sum.split)
  ultimately show ?thesis by blast
qed

definition example_swap :: "string \<Rightarrow> string" where
  "example_swap k = (if k = ''sk-a-first-key1'' then ''sk-a-other-key1'' else k)"

definition example_keyed :: "nat admin" where
  "example_keyed = example_admin\<lparr>am_memory := new_memory\<lparr>mem_providers :=
     [(''p'', (example_provider ''p'')\<lparr>pr_api_keys := [''sk-a-first-key1'']\<rparr>)]\<rparr>\<rparr>"

theorem answers_hide_credentials_witness:
  "fst (handle handle_list_providers (swap_secrets example_swap example_keyed)) = fst (handle handle_list_providers example_keyed)
     \<and> swap_secrets example_swap example_keyed \<noteq> example_keyed"
proof
  have "same_ends k (example_swap k)" for k
  proof (cases "k = ''sk-a-first-key1''")
    case True
    have "same_ends ''sk-a-first-key1'' ''sk-a-other-key1''" by code_simp
    with True show ?thesis by (simp add: example_swap_def)
  qed (simp add: example_swap_def same_ends_def Let_def)
  moreover have "example_swap k = [] \<longleftrightarrow> k = []" for k by (simp add: example_swap_def)
  ultimately show "fst (handle handle_list_providers (swap_secrets example_swap example_keyed)) = fst (handle handle_list_providers example_keyed)"
    using answers_hide_credentials [of example_swap example_keyed] by blast
  have "mem_providers (am_memory (swap_secrets example_swap example_keyed)) \<noteq> mem_providers (am_memory example_keyed)"
    by (simp add: swap_secrets_def example_keyed_def swap_keys_def example_swap_def example_provider_def)
  then show "swap_secrets example_swap example_keyed \<noteq> example_keyed" by metis
qed

end
