(* ===== verification/Command_Code.thy ===== *)
theory Command_Code
  imports Provider_Http Sse Go_Time
begin

text \<open>
  The CommandCode client (\<^verbatim>\<open>internal/provider/commandcode.go\<close>): its request, the look ahead for an
  early error, the translation of its event stream into chunks, and the completion that is put
  together from them. A value of type \<^verbatim>\<open>any\<close> is the JSON text it was decoded from; its numbers
  are read exactly, where the code has a \<^verbatim>\<open>float64\<close>. What a call draws from its surroundings
  (identifiers, the clock, the working directory, the error that cuts its body short) and the
  spelling of numbers are one record.
\<close>

record cc_call =
  cv_thread :: string
  cv_session :: string
  cv_completion :: string
  cv_now :: instant
  cv_dir :: string
  cv_cut :: "(bool \<times> string) option"
  cv_goos :: string
  cv_float :: "rat \<Rightarrow> string"
  cv_fixed :: "rat \<Rightarrow> string"
  cv_print :: "json \<Rightarrow> string"

section \<open>Dynamic values\<close>

fun any_string :: "json option \<Rightarrow> string option" where
  "any_string (Some (JStr _ s)) = Some s"
| "any_string _ = None"

fun any_object :: "json option \<Rightarrow> (string \<times> json) list option" where
  "any_object (Some (JObj _ ms)) = Some ms"
| "any_object _ = None"

fun any_array :: "json option \<Rightarrow> json list option" where
  "any_array (Some (JArr _ vs)) = Some vs"
| "any_array _ = None"

text \<open>A missing member and \<^verbatim>\<open>null\<close> are both nil.\<close>

fun any_nil :: "json option \<Rightarrow> bool" where
  "any_nil None = True"
| "any_nil (Some (JNull _)) = True"
| "any_nil (Some _) = False"

text \<open>\<^verbatim>\<open>int(x)\<close> of a number drops the fraction.\<close>

definition whole :: "rat \<Rightarrow> int" where
  "whole x = (if x < 0 then \<lceil>x\<rceil> else \<lfloor>x\<rfloor>)"

fun any_int :: "json option \<Rightarrow> int option" where
  "any_int (Some (JNum r)) = Some (whole (number_value r))"
| "any_int _ = None"

definition string_or_empty :: "json option \<Rightarrow> string" where
  "string_or_empty v = (case any_string v of None \<Rightarrow> [] | Some s \<Rightarrow> s)"

definition members_or_none :: "json option \<Rightarrow> (string \<times> json) list" where
  "members_or_none v = (case any_object v of None \<Rightarrow> [] | Some ms \<Rightarrow> ms)"

text \<open>Marshalling a decoded value: members in order of their keys, texts quoted anew.\<close>

fun remarshal :: "(rat \<Rightarrow> string) \<Rightarrow> json \<Rightarrow> json" where
  "remarshal fl (JNull _) = json_null"
| "remarshal fl (JBool _ b) = json_of_bool b"
| "remarshal fl (JNum r) = JNum (fl (number_value r))"
| "remarshal fl (JStr _ s) = json_of_string s"
| "remarshal fl (JArr _ vs) = json_array (map (remarshal fl) vs)"
| "remarshal fl (JObj _ ms) = json_object (sort_key fst (AList.clearjunk (rev (map (\<lambda>(k, v). (k, remarshal fl v)) ms))))"

definition json_map :: "(string \<times> json) list \<Rightarrow> json" where
  "json_map ms = json_object (sort_key fst ms)"

definition js_string :: "cc_call \<Rightarrow> json option \<Rightarrow> string" where
  "js_string cv v = (case v of
      None \<Rightarrow> []
    | Some w \<Rightarrow> (case w of
        JNull _ \<Rightarrow> []
      | JStr _ s \<Rightarrow> s
      | JBool _ b \<Rightarrow> if b then ''true'' else ''false''
      | JNum r \<Rightarrow> cv_fixed cv (number_value r)
      | JObj _ _ \<Rightarrow> ''[object Object]''
      | JArr _ _ \<Rightarrow> cv_print cv w))"

section \<open>The request\<close>

definition block_text :: "json \<Rightarrow> string option" where
  "block_text part = (case any_string (Some part) of
      Some s \<Rightarrow> Some s
    | None \<Rightarrow> (case any_object (Some part) of None \<Rightarrow> None | Some p \<Rightarrow> any_string (map_member ''text'' p)))"

definition flatten_text :: "cc_call \<Rightarrow> raw_message \<Rightarrow> string" where
  "flatten_text cv c = (case c of
      None \<Rightarrow> []
    | Some v \<Rightarrow> (case any_string c of
        Some s \<Rightarrow> s
      | None \<Rightarrow> (case any_array c of
          Some parts \<Rightarrow> join (List.map_filter block_text parts) [newline]
        | None \<Rightarrow> js_string cv c)))"

definition text_block :: "string \<Rightarrow> json" where
  "text_block s = json_map [(''type'', json_of_string ''text''), (''text'', json_of_string s)]"

definition part_content :: "json \<Rightarrow> json option" where
  "part_content part = (case any_string (Some part) of
      Some s \<Rightarrow> Some (text_block s)
    | None \<Rightarrow>
        (let p = members_or_none (Some part); ty = any_string (map_member ''type'' p)
         in if ty = Some ''image_url'' \<or> ty = Some ''image'' then Some (text_block ''[image omitted]'')
            else map_option text_block (any_string (map_member ''text'' p))))"

definition content_blocks :: "cc_call \<Rightarrow> raw_message \<Rightarrow> json list" where
  "content_blocks cv c = (case c of
      None \<Rightarrow> [text_block []]
    | Some v \<Rightarrow> (case any_string c of
        Some s \<Rightarrow> [text_block s]
      | None \<Rightarrow> (case any_array c of
          Some parts \<Rightarrow> (let out = List.map_filter part_content parts in if out = [] then [text_block []] else out)
        | None \<Rightarrow> [text_block (js_string cv c)])))"

text \<open>An array of objects, or nothing: the element type of \<^verbatim>\<open>[]map[string]any\<close> admits \<^verbatim>\<open>null\<close>.\<close>

definition object_list :: "raw_message \<Rightarrow> (string \<times> json) list list option" where
  "object_list r = (case r of None \<Rightarrow> None | Some v \<Rightarrow> as_array v \<bind> opt_all as_object)"

definition call_input :: "cc_call \<Rightarrow> json option \<Rightarrow> json" where
  "call_input cv a = (if any_nil a then json_object []
     else (case any_string a of
         Some s \<Rightarrow> (case json_parse s of None \<Rightarrow> json_object [] | Some v \<Rightarrow> remarshal (cv_float cv) v)
       | None \<Rightarrow> remarshal (cv_float cv) (the a)))"

definition call_block :: "cc_call \<Rightarrow> (string \<times> json) list \<Rightarrow> json" where
  "call_block cv call = (let fn = members_or_none (map_member ''function'' call) in json_map [
     (''type'', json_of_string ''tool-call''),
     (''toolCallId'', json_of_string (js_string cv (map_member ''id'' call))),
     (''toolName'', json_of_string (js_string cv (map_member ''name'' fn))),
     (''input'', call_input cv (map_member ''arguments'' fn))])"

definition assistant_blocks :: "cc_call \<Rightarrow> message \<Rightarrow> json list" where
  "assistant_blocks cv m =
     (let txt = flatten_text cv (msg_content m);
          calls = (case object_list (map_of (msg_extra m) ''tool_calls'') of None \<Rightarrow> [] | Some cs \<Rightarrow> cs);
          blocks = (if txt \<noteq> [] then [text_block txt] else []) @ map (call_block cv) calls
      in if blocks = [] then [text_block []] else blocks)"

definition tool_result :: "cc_call \<Rightarrow> message \<Rightarrow> json" where
  "tool_result cv m = json_map [
     (''type'', json_of_string ''tool-result''),
     (''toolCallId'', json_of_string (string_or_empty (map_of (msg_extra m) ''tool_call_id''))),
     (''toolName'', json_of_string (msg_name m)),
     (''output'', json_map [(''type'', json_of_string ''text''),
        (''value'', json_of_string (flatten_text cv (msg_content m)))])]"

definition cc_message :: "cc_call \<Rightarrow> message \<Rightarrow> json option" where
  "cc_message cv m =
     (if msg_role m = ''system'' then None
      else if msg_role m = ''tool''
        then Some (json_map [(''role'', json_of_string ''tool''), (''content'', json_array [tool_result cv m])])
      else if msg_role m = ''assistant''
        then Some (json_map [(''role'', json_of_string ''assistant''), (''content'', json_array (assistant_blocks cv m))])
      else Some (json_map [(''role'', json_of_string ''user''), (''content'', json_array (content_blocks cv (msg_content m)))]))"

definition system_texts :: "cc_call \<Rightarrow> message list \<Rightarrow> string list" where
  "system_texts cv ms = filter (\<lambda>s. s \<noteq> [])
     (map (\<lambda>m. flatten_text cv (msg_content m)) (filter (\<lambda>m. msg_role m = ''system'') ms))"

definition cc_max_tokens :: "chat_request \<Rightarrow> int" where
  "cc_max_tokens rq = (case cr_max_tokens rq of
      Some n \<Rightarrow> n
    | None \<Rightarrow> (case map_of (cr_extra rq) ''max_output_tokens'' of
        Some (JNum r) \<Rightarrow> (case atoi r of Some n \<Rightarrow> n | None \<Rightarrow> 64000)
      | _ \<Rightarrow> 64000))"

definition cc_tool :: "cc_call \<Rightarrow> (string \<times> json) list \<Rightarrow> json option" where
  "cc_tool cv t =
     (let fn = members_or_none (map_member ''function'' t);
          is_fn = (any_string (map_member ''type'' t) = Some ''function'');
          src = (if is_fn then fn else t);
          name = string_or_empty (map_member ''name'' src);
          schema = (if is_fn then map_member ''parameters'' fn
                    else if any_nil (map_member ''input_schema'' t) then map_member ''parameters'' t
                    else map_member ''input_schema'' t)
      in if name = [] then None
         else Some (json_map ([(''name'', json_of_string name),
           (''input_schema'', if any_nil schema then json_object [(''type'', json_of_string ''object'')]
              else remarshal (cv_float cv) (the schema))]
           @ (case map_member ''description'' src of None \<Rightarrow> []
              | Some d \<Rightarrow> [(''description'', remarshal (cv_float cv) d)]))))"

definition cc_tools :: "cc_call \<Rightarrow> chat_request \<Rightarrow> json list" where
  "cc_tools cv rq = (case object_list (map_of (cr_extra rq) ''tools'') of
      None \<Rightarrow> [] | Some ts \<Rightarrow> List.map_filter (cc_tool cv) ts)"

definition cc_params :: "cc_call \<Rightarrow> chat_request \<Rightarrow> json" where
  "cc_params cv rq = (let sys = system_texts cv (cr_messages rq); tools = cc_tools cv rq in json_map (
     [(''model'', json_of_string (cr_model rq)),
      (''messages'', json_array (List.map_filter (cc_message cv) (cr_messages rq))),
      (''stream'', json_of_bool True), (''max_tokens'', json_of_int (cc_max_tokens rq)),
      (''temperature'', JNum (case cr_temperature rq of None \<Rightarrow> ''0.3'' | Some t \<Rightarrow> t))]
     @ (case cr_top_p rq of None \<Rightarrow> [] | Some t \<Rightarrow> [(''top_p'', JNum t)])
     @ (if sys = [] then [] else [(''system'', json_of_string (join sys [newline, newline]))])
     @ (if tools = [] then [] else [(''tools'', json_array tools)])))"

definition command_code_request :: "cc_call \<Rightarrow> chat_request \<Rightarrow> json" where
  "command_code_request cv rq = json_map [
     (''threadId'', json_of_string (cv_thread cv)), (''memory'', json_of_string []),
     (''config'', json_map [(''workingDir'', json_of_string (cv_dir cv)),
        (''date'', json_of_string (date_string (cv_now cv))), (''environment'', json_of_string (cv_goos cv)),
        (''structure'', json_array []), (''isGitRepo'', json_of_bool False), (''currentBranch'', json_of_string []),
        (''mainBranch'', json_of_string []), (''gitStatus'', json_of_string []), (''recentCommits'', json_array [])]),
     (''params'', cc_params cv rq)]"

section \<open>Usage\<close>

definition first_int :: "json option list \<Rightarrow> int" where
  "first_int vs = (case List.map_filter any_int vs of [] \<Rightarrow> 0 | x # _ \<Rightarrow> x)"

text \<open>A later source counts only while the value is still 0.\<close>

definition or_else :: "int \<Rightarrow> int \<Rightarrow> int" where
  "or_else x y = (if x = 0 then y else x)"

definition details :: "string \<Rightarrow> (string \<times> json) list \<Rightarrow> (string \<times> json) list" where
  "details k ms = members_or_none (map_member k ms)"

definition cc_cached :: "(string \<times> json) list \<Rightarrow> int" where
  "cc_cached e = or_else (or_else (first_int [map_member ''cachedInputTokens'' e])
       (first_int [map_member ''cacheReadTokens'' (details ''inputTokenDetails'' e)]))
     (first_int [map_member ''cached_tokens'' e, map_member ''cache_read_input_tokens'' e])"

definition cc_written :: "(string \<times> json) list \<Rightarrow> int" where
  "cc_written e = or_else (or_else (first_int [map_member ''cacheWriteInputTokens'' e])
       (first_int [map_member ''cacheWriteTokens'' (details ''inputTokenDetails'' e)]))
     (first_int [map_member ''cache_write_tokens'' e, map_member ''cache_creation_input_tokens'' e])"

definition prompt_details :: "(string \<times> json) list \<Rightarrow> int \<times> int" where
  "prompt_details e = (let d = details ''prompt_tokens_details'' e
     in (first_int [map_member ''cached_tokens'' d], first_int [map_member ''cache_write_tokens'' d]))"

definition cc_cache_counts :: "(string \<times> json) list \<Rightarrow> int \<times> int" where
  "cc_cache_counts e =
     (let c = (cc_cached e, cc_written e);
          c = (if c = (0, 0) then prompt_details e else c)
      in if c = (0, 0) then prompt_details (details ''raw'' e) else c)"

definition cc_reasoning :: "(string \<times> json) list \<Rightarrow> int" where
  "cc_reasoning e = or_else (or_else (or_else
       (first_int [map_member ''reasoningTokens'' e, map_member ''reasoning_tokens'' e])
       (first_int [map_member ''reasoningTokens'' (details ''outputTokenDetails'' e)]))
       (first_int [map_member ''reasoning_tokens'' (details ''completion_tokens_details'' e)]))
     (first_int [map_member ''reasoning_tokens'' (details ''completion_tokens_details'' (details ''raw'' e))])"

definition command_code_usage :: "(string \<times> json) list \<Rightarrow> usage_report" where
  "command_code_usage e =
     (let p = first_int [map_member ''inputTokens'' e, map_member ''prompt_tokens'' e];
          c = first_int [map_member ''outputTokens'' e, map_member ''completion_tokens'' e];
          totals = List.map_filter any_int [map_member ''totalTokens'' e, map_member ''total_tokens'' e];
          (cached, written) = cc_cache_counts e; reasoning = cc_reasoning e
      in \<lparr>ur_prompt = p, ur_completion = c, ur_total = (case totals of [] \<Rightarrow> p + c | t # _ \<Rightarrow> t),
          ur_prompt_details = (if cached > 0 \<or> written > 0 then Some (cached, written) else None),
          ur_completion_details = (if reasoning > 0 then Some reasoning else None)\<rparr>)"

definition merge_command_usage :: "usage_report option \<Rightarrow> usage_report \<Rightarrow> usage_report" where
  "merge_command_usage a b = (case a of
      None \<Rightarrow> b
    | Some a \<Rightarrow> \<lparr>ur_prompt = ur_prompt a + ur_prompt b, ur_completion = ur_completion a + ur_completion b,
        ur_total = ur_total a + ur_total b,
        ur_prompt_details = (case ur_prompt_details b of
            None \<Rightarrow> ur_prompt_details a
          | Some (x, y) \<Rightarrow> (case ur_prompt_details a of None \<Rightarrow> Some (x, y) | Some (u, v) \<Rightarrow> Some (u + x, v + y))),
        ur_completion_details = (case ur_completion_details b of
            None \<Rightarrow> ur_completion_details a
          | Some x \<Rightarrow> (case ur_completion_details a of None \<Rightarrow> Some x | Some u \<Rightarrow> Some (u + x)))\<rparr>)"

section \<open>Errors\<close>

text \<open>\<^verbatim>\<open>Sscanf\<close> with \<^verbatim>\<open>%d\<close>: blanks, a sign, digits; what follows is ignored.\<close>

definition scan_int :: "string \<Rightarrow> int option" where
  "scan_int s =
     (let t = dropWhile (\<lambda>c. is_space c \<and> c \<noteq> newline) s;
          neg = prefix ''-'' t; d = takeWhile is_digit (if neg \<or> prefix ''+'' t then drop 1 t else t);
          v = (if neg then - int (nat_of_digits d) else int (nat_of_digits d))
      in if d \<noteq> [] \<and> in_int64 v then Some v else None)"

definition error_status :: "int \<Rightarrow> int" where
  "error_status n = (if 400 \<le> n \<and> n \<le> 599 then n else 0)"

definition cc_status_value :: "json option \<Rightarrow> int" where
  "cc_status_value v = (case any_int v of
      Some n \<Rightarrow> error_status n
    | None \<Rightarrow> (case any_string v of
        None \<Rightarrow> 0
      | Some s \<Rightarrow> (case scan_int s of None \<Rightarrow> 0 | Some n \<Rightarrow> error_status n)))"

fun first_status :: "json option list \<Rightarrow> int" where
  "first_status [] = 0"
| "first_status (v # vs) = or_else (cc_status_value v) (first_status vs)"

definition cc_event_status :: "(string \<times> json) list \<Rightarrow> int" where
  "cc_event_status e =
     (let inner = (\<lambda>k. (case any_object (map_member k e) of
          None \<Rightarrow> []
        | Some ms \<Rightarrow> [map_member ''statusCode'' ms, map_member ''status'' ms, map_member ''code'' ms]))
      in first_status ([map_member ''statusCode'' e, map_member ''code'' e] @ inner ''error'' @ inner ''message''))"

definition cc_status :: "string \<Rightarrow> int" where
  "cc_status m =
     (let l = to_lower m in
      if contains l ''rate limit'' \<or> contains l ''too many'' then 429
      else if contains l ''unauthorized'' \<or> contains l ''invalid api key'' \<or> contains l ''authentication'' then 401
      else if contains l ''payment required'' \<or> contains l ''billing'' then 402
      else if contains l ''forbidden'' \<or> contains l ''permission'' \<or> contains l ''quota'' then 403
      else if contains l ''not found'' then 404
      else if contains l ''unavailable'' \<or> contains l ''overloaded'' \<or> contains l ''server error'' then 503
      else 503)"

definition cc_kind :: "int \<Rightarrow> sentinel option" where
  "cc_kind st = (if st = 429 then Some sentinel.ErrRateLimited else if st \<ge> 500 then Some ErrUpstream5xx else None)"

definition cc_error :: "http_provider \<Rightarrow> int \<Rightarrow> sentinel option \<Rightarrow> string \<Rightarrow> gerror" where
  "cc_error p st kind m = Upstream \<lparr>pe_provider = op_name (hp_opts p), pe_status = st, pe_kind = kind,
     pe_message = m, pe_code = []\<rparr>"

text \<open>Only the one configured key is struck out of a message, not the keys of a rotation.\<close>

definition cc_redact :: "http_provider \<Rightarrow> string \<Rightarrow> string" where
  "cc_redact p m = redact (op_api_key (hp_opts p)) m"

definition cc_unknown :: string where "cc_unknown = ''CommandCode upstream error''"

definition any_text :: "cc_call \<Rightarrow> json \<Rightarrow> string" where
  "any_text cv v = (case any_string (Some v) of Some s \<Rightarrow> s | None \<Rightarrow> raw (remarshal (cv_float cv) v))"

definition event_message :: "cc_call \<Rightarrow> (string \<times> json) list \<Rightarrow> string" where
  "event_message cv e =
     (if \<not> any_nil (map_member ''error'' e) then any_text cv (the (map_member ''error'' e))
      else if \<not> any_nil (map_member ''message'' e) then any_text cv (the (map_member ''message'' e))
      else cc_unknown)"

definition preflight_message :: "cc_call \<Rightarrow> (string \<times> json) list \<Rightarrow> string" where
  "preflight_message cv e =
     (let v = (if any_nil (map_member ''error'' e) then map_member ''message'' e else map_member ''error'' e)
      in if any_nil v then cc_unknown
         else (case any_string v of
             Some s \<Rightarrow> s
           | None \<Rightarrow>
               (let obj = members_or_none v
                in case any_string (map_member ''message'' obj) of
                     Some s \<Rightarrow> s
                   | None \<Rightarrow> (case any_string (map_member ''error'' obj) of
                       Some s \<Rightarrow> s | None \<Rightarrow> raw (remarshal (cv_float cv) (the v))))))"

definition event_error :: "cc_call \<Rightarrow> http_provider \<Rightarrow> (string \<times> json) list \<Rightarrow> gerror" where
  "event_error cv p e =
     (let m = preflight_message cv e; st = or_else (cc_event_status e) (cc_status m)
      in cc_error p st (cc_kind st) (cc_redact p m))"

text \<open>\<open>bare\<close>: the error is the context's deadline itself, not one that wraps it.\<close>

definition cc_transport_error :: "http_provider \<Rightarrow> bool \<Rightarrow> string \<Rightarrow> gerror" where
  "cc_transport_error p bare m =
     cc_error p 0 (Some (if bare \<or> contains (to_lower m) ''timeout'' then ErrTimeout else ErrConnection)) (cc_redact p m)"

definition cc_status_error :: "http_provider \<Rightarrow> http_response \<Rightarrow> gerror" where
  "cc_status_error p resp =
     (let body = take max_error_body (rs_body resp); message = trim_space body
      in case Option.bind (json_parse body) as_object of
           None \<Rightarrow> cc_error p (rs_status resp) (cc_kind (rs_status resp)) (cc_redact p message)
         | Some payload \<Rightarrow>
             (let obj = (case any_object (map_member ''error'' payload) of Some n \<Rightarrow> n | None \<Rightarrow> payload);
                  status = or_else (first_status [map_member ''statusCode'' obj, map_member ''code'' obj]) (rs_status resp);
                  inner = string_or_empty (map_member ''message'' obj);
                  outer = string_or_empty (map_member ''message'' payload);
                  message = (if inner \<noteq> [] then inner else if outer \<noteq> [] then outer else message)
              in cc_error p status (cc_kind status) (cc_redact p message)))"

section \<open>The event stream\<close>

record cc_state =
  cs_finish :: string
  cs_tools :: "(string, int) gomap"
  cs_next :: int
  cs_started :: bool
  cs_usage :: "usage_report option"

definition new_cc_state :: cc_state where
  "new_cc_state = \<lparr>cs_finish = [], cs_tools = [], cs_next = 0, cs_started = False, cs_usage = None\<rparr>"

definition bare_delta :: message where
  "bare_delta = \<lparr>msg_role = [], msg_content = None, msg_name = [], msg_extra = [], msg_tool_error = False\<rparr>"

definition cc_base :: "cc_call \<Rightarrow> string \<Rightarrow> message \<Rightarrow> string option \<Rightarrow> stream_chunk" where
  "cc_base cv model d f = \<lparr>rsp_id = ''chatcmpl-'' @ cv_completion cv, rsp_object = ''chat.completion.chunk'',
     rsp_created = cv_now cv div second, rsp_model = model,
     rsp_choices = [\<lparr>ch_index = 0, ch_message = None, ch_delta = Some d, ch_finish_reason = f, ch_extra = []\<rparr>],
     rsp_usage = None, rsp_extra = []\<rparr>"

definition cc_finish_reason :: "string \<Rightarrow> string" where
  "cc_finish_reason r =
     (if r = ''stop'' then ''stop'' else if r = ''length'' then ''length''
      else if r = ''tool-calls'' \<or> r = ''tool_use'' then ''tool_calls''
      else if r = ''content-filter'' then ''content_filter'' else if r = ''error'' then ''stop'' else r)"

definition or_text :: "string \<Rightarrow> string \<Rightarrow> string" where
  "or_text a b = (if a = [] then b else a)"

definition cc_tool_delta :: "(string \<times> json) list \<Rightarrow> (string, json) gomap" where
  "cc_tool_delta call = [(''tool_calls'', json_array [json_map call])]"

definition whole_call :: "int \<Rightarrow> string \<Rightarrow> string \<Rightarrow> string \<Rightarrow> (string \<times> json) list" where
  "whole_call idx i name args = [(''index'', json_of_int idx), (''id'', json_of_string i),
     (''type'', json_of_string ''function''),
     (''function'', json_map [(''name'', json_of_string name), (''arguments'', json_of_string args)])]"

definition fallback_id :: "cc_state \<Rightarrow> string" where
  "fallback_id st = ''call_'' @ show_int (cs_next st)"

definition open_tool :: "string \<Rightarrow> cc_state \<Rightarrow> cc_state" where
  "open_tool i st = st\<lparr>cs_tools := map_put i (cs_next st) (cs_tools st), cs_next := cs_next st + 1\<rparr>"

definition input_text :: "cc_call \<Rightarrow> json option \<Rightarrow> string" where
  "input_text cv v = (if any_nil v then ''{}'' else any_text cv (the v))"

text \<open>One event: the chunks it becomes and the state after it.\<close>

definition event_kind :: "(string \<times> json) list \<Rightarrow> string" where
  "event_kind e = string_or_empty (map_member ''type'' e)"

definition text_member :: "string \<Rightarrow> (string \<times> json) list \<Rightarrow> string" where
  "text_member k e = string_or_empty (map_member k e)"

definition opening_role :: "cc_state \<Rightarrow> string" where
  "opening_role st = (if cs_started st then [] else ''assistant'')"

definition cc_delta :: "cc_call \<Rightarrow> string \<Rightarrow> cc_state \<Rightarrow> raw_message \<Rightarrow> (string, json) gomap \<Rightarrow> stream_chunk" where
  "cc_delta cv model st c x =
     cc_base cv model (bare_delta\<lparr>msg_role := opening_role st, msg_content := c, msg_extra := x\<rparr>) None"

definition started :: "cc_state \<Rightarrow> cc_state" where
  "started st = st\<lparr>cs_started := True\<rparr>"

definition cc_text_delta where
  "cc_text_delta cv model e st =
     (let x = or_text (text_member ''text'' e) (text_member ''delta'' e) in
      if x = [] then ([], st)
      else ([cc_delta cv model st (Some (json_of_string x)) []], started st))"

definition cc_reasoning_delta where
  "cc_reasoning_delta cv model e st =
     (let x = text_member ''text'' e in
      if x = [] then ([], st)
      else ([cc_delta cv model st None [(''reasoning_content'', json_of_string x)]], started st))"

definition cc_input_start where
  "cc_input_start cv model e st =
     (let i = or_text (or_text (text_member ''id'' e) (text_member ''toolCallId'' e)) (fallback_id st);
          (idx, st) = (case map_of (cs_tools st) i of Some k \<Rightarrow> (k, st) | None \<Rightarrow> (cs_next st, open_tool i st))
      in ([cc_delta cv model st None (cc_tool_delta (whole_call idx i (text_member ''toolName'' e) []))], started st))"

definition cc_tool_call where
  "cc_tool_call cv model e st =
     (let i = or_text (or_text (text_member ''toolCallId'' e) (text_member ''id'' e)) (fallback_id st)
      in case map_of (cs_tools st) i of
           Some _ \<Rightarrow> ([], st)
         | None \<Rightarrow> ([cc_delta cv model st None (cc_tool_delta (whole_call (cs_next st) i (text_member ''toolName'' e)
              (input_text cv (map_member ''input'' e))))], started (open_tool i st)))"

text \<open>A piece of a call's arguments; it leaves \<open>cs_started\<close> as it is.\<close>

definition cc_input_delta where
  "cc_input_delta cv model e st =
     (let i = or_text (text_member ''id'' e) (text_member ''toolCallId'' e)
      in case map_of (cs_tools st) i of
           None \<Rightarrow> ([], st)
         | Some idx \<Rightarrow> ([cc_delta cv model st None (cc_tool_delta [(''index'', json_of_int idx),
              (''function'', json_map [(''arguments'',
                 json_of_string (or_text (text_member ''delta'' e) (text_member ''inputTextDelta'' e)))])])], st))"

definition cc_finish_step :: "(string \<times> json) list \<Rightarrow> cc_state \<Rightarrow> cc_state" where
  "cc_finish_step e st = st\<lparr>cs_finish := cc_finish_reason (text_member ''finishReason'' e),
     cs_usage := (case any_object (map_member ''usage'' e) of
        None \<Rightarrow> cs_usage st | Some u \<Rightarrow> Some (command_code_usage u))\<rparr>"

definition cc_finish :: "cc_call \<Rightarrow> string \<Rightarrow> (string \<times> json) list \<Rightarrow> cc_state \<Rightarrow> stream_chunk" where
  "cc_finish cv model e st =
     (let r = or_text (or_text (cs_finish st) (cc_finish_reason (text_member ''finishReason'' e))) ''stop''
      in (cc_base cv model bare_delta (Some r))\<lparr>rsp_usage := (case any_object (map_member ''totalUsage'' e) of
           None \<Rightarrow> cs_usage st | Some u \<Rightarrow> Some (command_code_usage u))\<rparr>)"

definition cc_translate ::
    "cc_call \<Rightarrow> string \<Rightarrow> (string \<times> json) list \<Rightarrow> cc_state \<Rightarrow> stream_chunk list \<times> cc_state" where
  "cc_translate cv model e st =
     (let k = event_kind e in
      if k = ''text-delta'' then cc_text_delta cv model e st
      else if k = ''reasoning-delta'' then cc_reasoning_delta cv model e st
      else if k = ''tool-input-start'' then cc_input_start cv model e st
      else if k = ''tool-call'' then cc_tool_call cv model e st
      else if k = ''tool-input-delta'' then cc_input_delta cv model e st
      else if k = ''finish-step'' then ([], cc_finish_step e st)
      else if k = ''finish'' then ([cc_finish cv model e st], st)
      else ([], st))"

definition error_chunk :: "cc_call \<Rightarrow> string \<Rightarrow> string \<Rightarrow> stream_chunk" where
  "error_chunk cv model m =
     (cc_base cv model (bare_delta\<lparr>msg_role := ''assistant'', msg_content := Some (json_of_string
        ([newline, newline] @ ''[CommandCode error: '' @ m @ '']''))\<rparr>) None)\<lparr>rsp_extra :=
        [(''commandcode_error'', json_of_string m)]\<rparr>"

definition error_finish_chunk :: "cc_call \<Rightarrow> string \<Rightarrow> stream_chunk" where
  "error_finish_chunk cv model = cc_base cv model bare_delta (Some ''stop'')"

section \<open>Scanning\<close>

text \<open>\<open>sends n\<close>: does the receiver take the \<open>n\<close>-th chunk offered? An emission stops at the first
  refusal, the scan goes on.\<close>

type_synonym outbox = "nat \<times> stream_chunk list"

fun cc_emit :: "(nat \<Rightarrow> bool) \<Rightarrow> stream_chunk list \<Rightarrow> outbox \<Rightarrow> outbox" where
  "cc_emit sends [] b = b"
| "cc_emit sends (c # cs) (n, out) =
     (if sends n then cc_emit sends cs (Suc n, out @ [c]) else (Suc n, out))"

definition cc_line :: "string \<Rightarrow> string" where
  "cc_line l = trim_space (trim_prefix (trim_space l) ''data:'')"

definition cc_event :: "string \<Rightarrow> (string \<times> json) list option" where
  "cc_event l = Option.bind (json_parse l) as_object"

definition cc_max_line :: nat where "cc_max_line = 4 * 1024 * 1024"

text \<open>\<open>ending\<close>: the text of the error that ends the reading, when it does not end with the body.\<close>

fun cc_scan ::
    "cc_call \<Rightarrow> http_provider \<Rightarrow> string \<Rightarrow> (nat \<Rightarrow> bool) \<Rightarrow> string option \<Rightarrow> string list \<Rightarrow> cc_state \<Rightarrow> outbox \<Rightarrow> outbox"
where
  "cc_scan cv p model sends ending [] st b = (case ending of
      None \<Rightarrow> b | Some m \<Rightarrow> cc_emit sends [error_chunk cv model (cc_redact p m)] b)"
| "cc_scan cv p model sends ending (l # ls) st b =
     (if length l \<ge> cc_max_line then cc_emit sends [error_chunk cv model (cc_redact p ''bufio.Scanner: token too long'')] b
      else if cc_line l = done_sentinel then b
      else if cc_line l = [] then cc_scan cv p model sends ending ls st b
      else (case cc_event (cc_line l) of
          None \<Rightarrow> cc_scan cv p model sends ending ls st b
        | Some e \<Rightarrow>
            if event_kind e = ''error''
            then cc_emit sends [error_chunk cv model (event_message cv e), error_finish_chunk cv model] b
            else (case cc_translate cv model e st of (cs, st') \<Rightarrow>
              if event_kind e = ''finish'' then cc_emit sends cs b
              else cc_scan cv p model sends ending ls st' (cc_emit sends cs b))))"

section \<open>A call\<close>

text \<open>\<^verbatim>\<open>ReadString('\n')\<close>: every piece but the last ends in a newline; an empty last one is the end.\<close>

definition read_pieces :: "string \<Rightarrow> string list" where
  "read_pieces s = (let ls = split_on s [newline] in
     map (\<lambda>l. l @ [newline]) (butlast ls) @ (if last ls = [] then [] else [last ls]))"

definition cc_content_kinds :: "string list" where
  "cc_content_kinds = [''text-delta'', ''reasoning-delta'', ''tool-input-start'', ''tool-call'', ''finish-step'', ''finish'']"

text \<open>What a piece makes of the look ahead: skipped, kept, kept and last, or the early error.\<close>

datatype peeked = Blank | Metadata | Content | Failure "(string \<times> json) list"

definition peek_piece :: "string \<Rightarrow> peeked" where
  "peek_piece l =
     (if cc_line l = [] then Blank
      else if cc_line l = done_sentinel then Content
      else (case cc_event (cc_line l) of
          None \<Rightarrow> Metadata
        | Some e \<Rightarrow> if event_kind e = ''error'' then Failure e
            else if event_kind e \<in> set cc_content_kinds then Content else Metadata))"

fun cc_peek ::
    "cc_call \<Rightarrow> http_provider \<Rightarrow> (bool \<times> string) option \<Rightarrow> string list \<Rightarrow> string list \<Rightarrow> gerror + string list"
where
  "cc_peek cv p ending [] kept = (case ending of
      None \<Rightarrow> if kept = [] then Inl (call_error p ''empty CommandCode response'') else Inr kept
    | Some (bare, m) \<Rightarrow> Inl (cc_transport_error p bare m))"
| "cc_peek cv p ending (l # ls) kept = (case peek_piece l of
      Blank \<Rightarrow> cc_peek cv p ending ls kept
    | Metadata \<Rightarrow> cc_peek cv p ending ls (kept @ [l])
    | Content \<Rightarrow> Inr (kept @ l # ls)
    | Failure e \<Rightarrow> Inl (event_error cv p e))"

definition cc_do ::
    "'w net \<Rightarrow> cc_call \<Rightarrow> chat_request \<Rightarrow> http_provider \<Rightarrow> 'w \<Rightarrow> (gerror + http_response) \<times> http_provider \<times> 'w"
where
  "cc_do net cv req p w =
     (let url = trim_right_chars (\<lambda>c. c = CHR ''/'') (op_base_url (hp_opts p)) @ ''/alpha/generate''
      in case nt_new_request net url of
           Some err \<Rightarrow> (Inl (call_error p (''build request: '' @ err)), p, w)
         | None \<Rightarrow>
             (let rq = fold (\<lambda>(k, v). header_set k v)
                    [(''Content-Type'', ''application/json''), (''Accept'', ''text/event-stream''),
                     (''x-command-code-version'', ''0.25.7''), (''x-cli-environment'', ''cli''),
                     (''x-session-id'', cv_session cv)]
                    \<lparr>rq_method = ''POST'', rq_url = url, rq_headers = [], rq_body = raw (command_code_request cv req)\<rparr>;
                  (key, p') = credential p;
                  rq = (if key = [] then rq else header_set ''Authorization'' (''Bearer '' @ key) rq)
              in case nt_send net rq w of
                   (Inl err, w') \<Rightarrow> (Inl (cc_transport_error p' False (ne_text err)), p', w')
                 | (Inr resp, w') \<Rightarrow>
                     if rs_status resp < 200 \<or> rs_status resp \<ge> 300 then (Inl (cc_status_error p' resp), p', w')
                     else (Inr resp, p', w')))"

text \<open>The body the reader scans, after the look ahead.\<close>

definition cc_stream ::
    "'w net \<Rightarrow> cc_call \<Rightarrow> chat_request \<Rightarrow> http_provider \<Rightarrow> 'w \<Rightarrow> (gerror + string) \<times> http_provider \<times> 'w"
where
  "cc_stream net cv req p w = (case cc_do net cv req p w of
      (Inl err, p', w') \<Rightarrow> (Inl err, p', w')
    | (Inr resp, p', w') \<Rightarrow> (case cc_peek cv p' (cv_cut cv) (read_pieces (rs_body resp)) [] of
        Inl err \<Rightarrow> (Inl err, p', w')
      | Inr pieces \<Rightarrow> (Inr (concat pieces), p', w')))"

text \<open>The lines the scanner yields; a trailing carriage return is a blank that the loop trims.\<close>

definition cc_lines :: "string \<Rightarrow> string list" where
  "cc_lines s = (let ls = split_on s [newline] in if last ls = [] then butlast ls else ls)"

definition cc_chunks :: "cc_call \<Rightarrow> http_provider \<Rightarrow> string \<Rightarrow> (nat \<Rightarrow> bool) \<Rightarrow> string \<Rightarrow> stream_chunk list" where
  "cc_chunks cv p model sends body =
     snd (cc_scan cv p model sends (map_option snd (cv_cut cv)) (cc_lines body) new_cc_state (0, []))"

section \<open>A completion\<close>

text \<open>A call under construction: \<^verbatim>\<open>id\<close>, \<^verbatim>\<open>type\<close>, and the \<^verbatim>\<open>name\<close> and \<^verbatim>\<open>arguments\<close> of its function. The
  indices are those \<open>cc_translate\<close> counted, none is negative.\<close>

record built_call =
  bc_id :: "json option"
  bc_type :: json
  bc_name :: "json option"
  bc_args :: "string option"

definition new_call :: built_call where
  "new_call = \<lparr>bc_id = None, bc_type = json_of_string ''function'', bc_name = None, bc_args = None\<rparr>"

definition or_keep :: "'a option \<Rightarrow> 'a option \<Rightarrow> 'a option" where
  "or_keep new old = (case new of None \<Rightarrow> old | Some v \<Rightarrow> Some v)"

definition merge_call :: "(string \<times> json) list \<Rightarrow> built_call \<Rightarrow> built_call" where
  "merge_call d c = (let df = members_or_none (map_member ''function'' d) in
     \<lparr>bc_id = or_keep (map_member ''id'' d) (bc_id c),
      bc_type = (case map_member ''type'' d of None \<Rightarrow> bc_type c | Some v \<Rightarrow> v),
      bc_name = or_keep (map_member ''name'' df) (bc_name c),
      bc_args = (case any_string (map_member ''arguments'' df) of
         None \<Rightarrow> bc_args c | Some v \<Rightarrow> Some ((case bc_args c of None \<Rightarrow> [] | Some a \<Rightarrow> a) @ v))\<rparr>)"

definition merge_delta :: "(string \<times> json) list \<Rightarrow> built_call list \<Rightarrow> built_call list" where
  "merge_delta d calls =
     (let idx = nat (case any_int (map_member ''index'' d) of None \<Rightarrow> 0 | Some n \<Rightarrow> n);
          calls = calls @ replicate (Suc idx - length calls) new_call
      in calls[idx := merge_call d (calls ! idx)])"

definition built_json :: "(rat \<Rightarrow> string) \<Rightarrow> built_call \<Rightarrow> json" where
  "built_json fl c = json_map (
     (case bc_id c of None \<Rightarrow> [] | Some v \<Rightarrow> [(''id'', remarshal fl v)])
     @ [(''type'', remarshal fl (bc_type c)),
        (''function'', json_map (
           (case bc_name c of None \<Rightarrow> [] | Some v \<Rightarrow> [(''name'', remarshal fl v)])
           @ (case bc_args c of None \<Rightarrow> [] | Some v \<Rightarrow> [(''arguments'', json_of_string v)])))])"

record cc_total =
  ct_id :: string
  ct_model :: string
  ct_created :: int
  ct_text :: string
  ct_reasoning :: string
  ct_tools :: "built_call list"
  ct_usage :: "usage_report option"
  ct_finish :: string

definition new_total :: cc_total where
  "new_total = \<lparr>ct_id = [], ct_model = [], ct_created = 0, ct_text = [], ct_reasoning = [], ct_tools = [],
     ct_usage = None, ct_finish = ''stop''\<rparr>"

definition add_delta :: "message \<Rightarrow> cc_total \<Rightarrow> cc_total" where
  "add_delta d t = t\<lparr>
     ct_text := ct_text t @ (case message_text d of None \<Rightarrow> [] | Some s \<Rightarrow> s),
     ct_reasoning := ct_reasoning t @ string_or_empty (map_of (msg_extra d) ''reasoning_content''),
     ct_tools := (case object_list (map_of (msg_extra d) ''tool_calls'') of
        None \<Rightarrow> ct_tools t | Some ds \<Rightarrow> fold merge_delta ds (ct_tools t))\<rparr>"

definition add_chunk :: "stream_chunk \<Rightarrow> cc_total \<Rightarrow> cc_total" where
  "add_chunk c t =
     (let t = t\<lparr>ct_id := rsp_id c, ct_model := rsp_model c, ct_created := rsp_created c,
            ct_usage := (case rsp_usage c of None \<Rightarrow> ct_usage t | Some u \<Rightarrow> Some (merge_command_usage (ct_usage t) u))\<rparr>
      in case rsp_choices c of
           [] \<Rightarrow> t
         | ch # _ \<Rightarrow> (case ch_delta ch of
             None \<Rightarrow> t
           | Some d \<Rightarrow> (add_delta d t)\<lparr>ct_finish := (case ch_finish_reason ch of
               None \<Rightarrow> ct_finish t | Some f \<Rightarrow> f)\<rparr>))"

definition cc_message_of :: "(rat \<Rightarrow> string) \<Rightarrow> cc_total \<Rightarrow> message" where
  "cc_message_of fl t = bare_delta\<lparr>msg_role := ''assistant'', msg_content := Some (json_of_string (ct_text t)),
     msg_extra := (if ct_reasoning t = [] then [] else [(''reasoning_content'', json_of_string (ct_reasoning t))])
       @ (if ct_tools t = [] then [] else [(''tool_calls'', json_array (map (built_json fl) (ct_tools t)))])\<rparr>"

definition cc_completion :: "(rat \<Rightarrow> string) \<Rightarrow> stream_chunk list \<Rightarrow> chat_response" where
  "cc_completion fl cs = (let t = fold add_chunk cs new_total in
     \<lparr>rsp_id = ct_id t, rsp_object = ''chat.completion'', rsp_created = ct_created t, rsp_model = ct_model t,
      rsp_choices = [\<lparr>ch_index = 0, ch_message = Some (cc_message_of fl t), ch_delta = None,
        ch_finish_reason = Some (ct_finish t), ch_extra = []\<rparr>],
      rsp_usage = ct_usage t, rsp_extra = []\<rparr>)"

text \<open>The reader takes every chunk while its context lives.\<close>

definition cc_chat ::
    "'w net \<Rightarrow> cc_call \<Rightarrow> (nat \<Rightarrow> bool) \<Rightarrow> chat_request \<Rightarrow> http_provider \<Rightarrow> 'w \<Rightarrow> (gerror + chat_response) \<times> http_provider \<times> 'w"
where
  "cc_chat net cv sends req p w = (case cc_stream net cv req p w of
      (Inl err, p', w') \<Rightarrow> (Inl err, p', w')
    | (Inr body, p', w') \<Rightarrow>
        (Inr (cc_completion (cv_float cv) (cc_chunks cv p' (cr_model req) sends body)), p', w'))"

definition cc_embeddings :: "http_provider \<Rightarrow> gerror" where
  "cc_embeddings p = cc_error p 0 (Some ErrUnsupported) ''the CommandCode API has no embeddings endpoint''"

definition cc_models :: "upstream_model list" where
  "cc_models = map (\<lambda>i. \<lparr>um_id = i, um_owned_by = ''commandcode'', um_created = 0, um_context_length = 0,
       um_context_window = 0, um_max_context = 0\<rparr>)
     [''deepseek/deepseek-v4-pro'', ''deepseek/deepseek-v4-flash'', ''moonshotai/Kimi-K2.6'',
      ''moonshotai/Kimi-K2.5'', ''zai-org/GLM-5.1'', ''zai-org/GLM-5'', ''MiniMaxAI/MiniMax-M2.7'',
      ''MiniMaxAI/MiniMax-M2.5'', ''Qwen/Qwen3.6-Max-Preview'', ''Qwen/Qwen3.6-Plus'', ''stepfun/Step-3.5-Flash'']"

end
