(* ===== verification/Command_Facts.thy ===== *)
theory Command_Facts
  imports Command_Code
begin

text \<open>
  What a call of the CommandCode client makes of the events it is sent: the completion put
  together from chunks against a direct reading of the events, and the early error.
\<close>

section \<open>Members of what the client writes\<close>

lemma cut_absent: "c \<notin> set s \<Longrightarrow> cut s [c] = None"
  by (induction s) (auto simp: cut_char_simps)

lemma number_of_nat: "number_value (show_nat n) = of_nat n"
proof -
  have d: "\<forall>c \<in> set (show_nat n). is_digit c" by (simp add: show_nat_digits)
  have "takeWhile (\<lambda>c. c \<noteq> CHR ''e'' \<and> c \<noteq> CHR ''E'') (show_nat n) = show_nat n"
    using d by (intro takeWhile_eq_all_conv [THEN iffD2]) (auto simp: is_digit_def)
  moreover have "cut (show_nat n) ''.'' = None"
    using d by (intro cut_absent) (auto simp: is_digit_def)
  moreover have "\<not> prefix ''-'' (show_nat n)"
    using d show_nat_digits [of n] by (cases "show_nat n") (auto simp: is_digit_def)
  ultimately show ?thesis by (simp add: number_value_def nat_of_show Let_def del: takeWhile_eq_all_conv)
qed

lemma index_back [simp]: "any_int (Some (json_of_int (int n))) = Some (int n)"
  by (simp add: json_of_int_def show_int_def number_of_nat whole_def)

lemma distinct_keys_sort: "distinct (map fst (sort_key f ms)) \<longleftrightarrow> distinct (map fst ms)"
  using mset_sort [of f ms] by (metis mset_eq_imp_distinct_iff mset_map)

lemma member_sorted: "distinct (map fst ms) \<Longrightarrow> map_member k (sort_key fst ms) = map_of ms k"
  by (simp add: map_member_def map_of_sort_key_distinct map_of_rev_distinct distinct_keys_sort)

section \<open>Reading the events directly\<close>

text \<open>What a reader of the events is told: text, reasoning, the calls by their identifiers in the
  order in which they began, the finish reason and the usage.\<close>

record heard =
  he_text :: string
  he_reasoning :: string
  he_calls :: "(string \<times> string \<times> string) list"
  he_step :: string
  he_step_usage :: "usage_report option"

definition nothing_heard :: heard where
  "nothing_heard = \<lparr>he_text = [], he_reasoning = [], he_calls = [], he_step = [], he_step_usage = None\<rparr>"

definition at_call :: "string \<Rightarrow> (string \<times> string \<Rightarrow> string \<times> string) \<Rightarrow> (string \<times> string \<times> string) list \<Rightarrow> (string \<times> string \<times> string) list" where
  "at_call i f cs = map (\<lambda>(j, c). (j, if j = i then f c else c)) cs"

definition numbered_id :: "heard \<Rightarrow> string" where
  "numbered_id h = ''call_'' @ show_nat (length (he_calls h))"

definition hear_call :: "string \<Rightarrow> (string \<times> string \<Rightarrow> string \<times> string) \<Rightarrow> string \<times> string \<Rightarrow> heard \<Rightarrow> heard" where
  "hear_call i f c h = h\<lparr>he_calls :=
     if i \<in> fst ` set (he_calls h) then at_call i f (he_calls h) else he_calls h @ [(i, c)]\<rparr>"

definition hear :: "cc_call \<Rightarrow> (string \<times> json) list \<Rightarrow> heard \<Rightarrow> heard" where
  "hear cv e h = (let k = event_kind e; name = text_member ''toolName'' e in
     if k = ''text-delta''
       then h\<lparr>he_text := he_text h @ or_text (text_member ''text'' e) (text_member ''delta'' e)\<rparr>
     else if k = ''reasoning-delta'' then h\<lparr>he_reasoning := he_reasoning h @ text_member ''text'' e\<rparr>
     else if k = ''tool-input-start''
       then hear_call (or_text (or_text (text_member ''id'' e) (text_member ''toolCallId'' e)) (numbered_id h))
              (\<lambda>(n, a). (name, a)) (name, []) h
     else if k = ''tool-call''
       then hear_call (or_text (or_text (text_member ''toolCallId'' e) (text_member ''id'' e)) (numbered_id h))
              id (name, input_text cv (map_member ''input'' e)) h
     else if k = ''tool-input-delta''
       then h\<lparr>he_calls := at_call (or_text (text_member ''id'' e) (text_member ''toolCallId'' e))
              (\<lambda>(n, a). (n, a @ or_text (text_member ''delta'' e) (text_member ''inputTextDelta'' e))) (he_calls h)\<rparr>
     else if k = ''finish-step''
       then h\<lparr>he_step := cc_finish_reason (text_member ''finishReason'' e),
              he_step_usage := (case any_object (map_member ''usage'' e) of
                None \<Rightarrow> he_step_usage h | Some u \<Rightarrow> Some (command_code_usage u))\<rparr>
     else h)"

definition told :: "string \<times> string \<times> string \<Rightarrow> built_call" where
  "told c = (case c of (i, n, a) \<Rightarrow> \<lparr>bc_id = Some (json_of_string i), bc_type = json_of_string ''function'',
     bc_name = Some (json_of_string n), bc_args = Some a\<rparr>)"

section \<open>The chunks tell what the events tell\<close>

text \<open>The translator's state and the total so far agree with what was heard.\<close>

definition agrees :: "cc_state \<Rightarrow> cc_total \<Rightarrow> heard \<Rightarrow> bool" where
  "agrees st t h \<longleftrightarrow> ct_text t = he_text h \<and> ct_reasoning t = he_reasoning h \<and> ct_tools t = map told (he_calls h)
     \<and> cs_next st = int (length (he_calls h)) \<and> distinct (map fst (he_calls h))
     \<and> (\<forall>i k. map_of (cs_tools st) i = Some k \<longleftrightarrow> (\<exists>j < length (he_calls h). k = int j \<and> fst (he_calls h ! j) = i))
     \<and> cs_finish st = he_step h \<and> cs_usage st = he_step_usage h
     \<and> ct_usage t = None \<and> ct_finish t = ''stop''"

lemma agrees_known:
  "agrees st t h \<Longrightarrow> map_of (cs_tools st) i = None \<longleftrightarrow> i \<notin> fst ` set (he_calls h)"
  unfolding agrees_def by (metis (no_types, lifting) image_iff in_set_conv_nth not_None_eq)

lemma agrees_id: "agrees st t h \<Longrightarrow> fallback_id st = numbered_id h"
  by (simp add: agrees_def fallback_id_def numbered_id_def show_int_def)

lemma told_at_call:
  assumes "distinct (map fst cs)" and "j < length cs" and "fst (cs ! j) = i"
  shows "(map told cs)[j := told (i, f (snd (cs ! j)))] = map told (at_call i f cs)"
proof (rule nth_equalityI)
  fix k assume k: "k < length ((map told cs)[j := told (i, f (snd (cs ! j)))])"
  have "fst (cs ! k) = i \<longleftrightarrow> k = j"
    using assms k nth_eq_iff_index_eq [of "map fst cs" k j] by auto
  then show "(map told cs)[j := told (i, f (snd (cs ! j)))] ! k = map told (at_call i f cs) ! k"
    using k by (cases "cs ! k") (auto simp: at_call_def nth_list_update)
qed (simp add: at_call_def)

lemma at_call_keys [simp]: "map fst (at_call i f cs) = map fst cs" "length (at_call i f cs) = length cs"
  "j < length cs \<Longrightarrow> fst (at_call i f cs ! j) = fst (cs ! j)"
  by (auto simp: at_call_def split: prod.splits)

section \<open>One event\<close>

lemma object_delta: "object_list (Some (json_array [json_map d])) = Some [sort_key fst d]"
  by (simp add: object_list_def json_array_def json_map_def json_object_def)

lemma base_delta:
  "add_chunk (cc_base cv model d f) t = (add_delta d (t\<lparr>ct_id := ''chatcmpl-'' @ cv_completion cv, ct_model := model,
     ct_created := cv_now cv div second\<rparr>))\<lparr>ct_finish := (case f of None \<Rightarrow> ct_finish t | Some r \<Rightarrow> r)\<rparr>"
  by (cases f) (simp_all add: add_chunk_def cc_base_def Let_def)

lemma message_text_string: "message_text (m\<lparr>msg_content := Some (json_of_string x)\<rparr>) = Some x"
  by (simp add: message_text_def unmarshal_string_def json_of_string_def)

lemma agrees_started [simp]: "agrees (started st) t h = agrees st t h"
  by (simp add: agrees_def started_def)

lemma agrees_text:
  "agrees st t h \<Longrightarrow> cc_text_delta cv model e st = (cs, st') \<Longrightarrow> event_kind e = ''text-delta'' \<Longrightarrow>
     agrees st' (fold add_chunk cs t) (hear cv e h)"
  by (auto simp: cc_text_delta_def hear_def Let_def cc_delta_def base_delta add_delta_def message_text_def unmarshal_string_def
      bare_delta_def object_list_def string_or_empty_def agrees_def started_def json_of_string_def split: if_splits)

lemma agrees_reasoning:
  "agrees st t h \<Longrightarrow> cc_reasoning_delta cv model e st = (cs, st') \<Longrightarrow> event_kind e = ''reasoning-delta'' \<Longrightarrow>
     agrees st' (fold add_chunk cs t) (hear cv e h)"
  by (auto simp: cc_reasoning_delta_def hear_def Let_def cc_delta_def base_delta add_delta_def message_text_def unmarshal_string_def
      bare_delta_def object_list_def string_or_empty_def agrees_def started_def json_of_string_def split: if_splits)

text \<open>A delta of a tool call, added to a total.\<close>

lemma add_call_chunk:
  "\<exists>u. add_chunk (cc_delta cv model st None (cc_tool_delta d)) t =
     u\<lparr>ct_tools := merge_delta (sort_key fst d) (ct_tools t)\<rparr> \<and> ct_text u = ct_text t \<and> ct_reasoning u = ct_reasoning t
     \<and> ct_usage u = ct_usage t \<and> ct_finish u = ct_finish t"
  by (rule exI [of _ "t\<lparr>ct_id := ''chatcmpl-'' @ cv_completion cv, ct_model := model, ct_created := cv_now cv div second\<rparr>"])
    (simp add: cc_delta_def base_delta add_delta_def cc_tool_delta_def object_delta message_text_def unmarshal_string_def bare_delta_def
      string_or_empty_def)

lemma merge_whole:
  "merge_call (sort_key fst (whole_call idx i n a)) c = \<lparr>bc_id = Some (json_of_string i), bc_type = json_of_string ''function'',
     bc_name = Some (json_of_string n), bc_args = Some ((case bc_args c of None \<Rightarrow> [] | Some b \<Rightarrow> b) @ a)\<rparr>"
  by (simp add: merge_call_def whole_call_def map_member_def Let_def members_or_none_def json_map_def json_object_def
      json_of_string_def or_keep_def)

lemma merge_part:
  "merge_call (sort_key fst [(''index'', v), (''function'', json_map [(''arguments'', json_of_string a)])]) c =
     c\<lparr>bc_args := Some ((case bc_args c of None \<Rightarrow> [] | Some b \<Rightarrow> b) @ a)\<rparr>"
  by (simp add: merge_call_def Let_def members_or_none_def json_map_def json_object_def
      json_of_string_def or_keep_def map_member_def)

lemma index_of [simp]:
  "map_member ''index'' (sort_key fst (whole_call (int j) i n a)) = Some (json_of_int (int j))"
  "map_member ''index'' (sort_key fst [(''index'', json_of_int (int j)), (''function'', v)]) = Some (json_of_int (int j))"
  by (simp_all add: whole_call_def map_member_def)

lemma merge_at:
  assumes "map_member ''index'' d = Some (json_of_int (int j))"
  shows "j < length calls \<Longrightarrow> merge_delta d calls = calls[j := merge_call d (calls ! j)]"
    and "j = length calls \<Longrightarrow> merge_delta d calls = calls @ [merge_call d new_call]"
  using assms by (simp_all add: merge_delta_def Let_def nth_append)

text \<open>A delta for a known call changes the one with its identifier.\<close>

lemma agrees_at_call:
  assumes "agrees st t h" and "map_of (cs_tools st) i = Some idx"
    and "\<And>j. idx = int j \<Longrightarrow> map_member ''index'' (sort_key fst d) = Some (json_of_int (int j))"
    and "\<And>c. merge_call (sort_key fst d) (told (i, c)) = told (i, f c)"
  shows "agrees st (add_chunk (cc_delta cv model st' None (cc_tool_delta d)) t) (h\<lparr>he_calls := at_call i f (he_calls h)\<rparr>)"
proof -
  obtain j where j: "j < length (he_calls h)" "idx = int j" "fst (he_calls h ! j) = i"
    using assms(1,2) unfolding agrees_def by blast
  have tools: "ct_tools t = map told (he_calls h)" "distinct (map fst (he_calls h))"
    using assms(1) by (simp_all add: agrees_def)
  have "told (he_calls h ! j) = told (i, snd (he_calls h ! j))" using j(3) by (metis prod.collapse)
  then have "merge_delta (sort_key fst d) (ct_tools t) = (map told (he_calls h))[j := told (i, f (snd (he_calls h ! j)))]"
    using merge_at(1) [OF assms(3) [OF j(2)]] j(1) by (simp add: tools(1) assms(4))
  then have "merge_delta (sort_key fst d) (ct_tools t) = map told (at_call i f (he_calls h))"
    using told_at_call [OF tools(2) j(1,3)] by simp
  moreover obtain u where "add_chunk (cc_delta cv model st' None (cc_tool_delta d)) t =
      u\<lparr>ct_tools := merge_delta (sort_key fst d) (ct_tools t)\<rparr>" "ct_text u = ct_text t" "ct_reasoning u = ct_reasoning t"
      "ct_usage u = ct_usage t" "ct_finish u = ct_finish t"
    using add_call_chunk by blast
  ultimately show ?thesis using assms(1) by (auto simp: agrees_def)
qed

text \<open>A delta for a new call appends it.\<close>

lemma agrees_new_call:
  assumes "agrees st t h" and "map_of (cs_tools st) i = None"
    and "\<And>j. map_member ''index'' (sort_key fst (d (int j))) = Some (json_of_int (int j))"
    and "\<And>j. merge_call (sort_key fst (d (int j))) new_call = told (i, c)"
  shows "agrees (open_tool i st) (add_chunk (cc_delta cv model st' None (cc_tool_delta (d (cs_next st)))) t)
    (h\<lparr>he_calls := he_calls h @ [(i, c)]\<rparr>)"
proof -
  let ?n = "length (he_calls h)"
  have next_call: "cs_next st = int ?n" and tools: "ct_tools t = map told (he_calls h)"
    and known: "\<And>i k. map_of (cs_tools st) i = Some k \<longleftrightarrow> (\<exists>j < ?n. k = int j \<and> fst (he_calls h ! j) = i)"
    using assms(1) by (simp_all add: agrees_def)
  have fresh: "i \<notin> fst ` set (he_calls h)" using agrees_known [OF assms(1), of i] assms(2) by simp
  have "merge_delta (sort_key fst (d (cs_next st))) (ct_tools t) = map told (he_calls h @ [(i, c)])"
    using merge_at(2) [OF assms(3) [of ?n], of "ct_tools t"] by (simp add: next_call tools assms(4))
  moreover obtain u where "add_chunk (cc_delta cv model st' None (cc_tool_delta (d (cs_next st)))) t =
      u\<lparr>ct_tools := merge_delta (sort_key fst (d (cs_next st))) (ct_tools t)\<rparr>" "ct_text u = ct_text t"
      "ct_reasoning u = ct_reasoning t" "ct_usage u = ct_usage t" "ct_finish u = ct_finish t"
    using add_call_chunk by blast
  moreover have pos: "\<forall>k v. map_of (cs_tools (open_tool i st)) k = Some v \<longleftrightarrow>
      (\<exists>j < length (he_calls (h\<lparr>he_calls := he_calls h @ [(i, c)]\<rparr>)).
         v = int j \<and> fst (he_calls (h\<lparr>he_calls := he_calls h @ [(i, c)]\<rparr>) ! j) = k)"
  proof (intro allI)
    fix k v
    have "(\<exists>j < ?n. v = int j \<and> fst (he_calls h ! j) = i) \<longleftrightarrow> False" for v
      using fresh by (metis image_eqI nth_mem)
    then show "map_of (cs_tools (open_tool i st)) k = Some v \<longleftrightarrow>
      (\<exists>j < length (he_calls (h\<lparr>he_calls := he_calls h @ [(i, c)]\<rparr>)).
         v = int j \<and> fst (he_calls (h\<lparr>he_calls := he_calls h @ [(i, c)]\<rparr>) ! j) = k)"
      using known [of k v] by (auto simp: open_tool_def update_conv next_call less_Suc_eq nth_append)
  qed
  ultimately show ?thesis using assms(1) fresh unfolding agrees_def
    by (intro conjI pos) (simp_all add: open_tool_def)
qed

lemma agrees_start:
  assumes "agrees st t h" and "cc_input_start cv model e st = (cs, st')" and "event_kind e = ''tool-input-start''"
  shows "agrees st' (fold add_chunk cs t) (hear cv e h)"
proof -
  define i where "i = or_text (or_text (text_member ''id'' e) (text_member ''toolCallId'' e)) (fallback_id st)"
  define d where "d = (\<lambda>idx. whole_call idx i (text_member ''toolName'' e) [])"
  have hear: "hear cv e h = hear_call i (\<lambda>(n, a). (text_member ''toolName'' e, a)) (text_member ''toolName'' e, []) h"
    using assms(3) agrees_id [OF assms(1)] by (simp add: hear_def i_def Let_def)
  show ?thesis
  proof (cases "map_of (cs_tools st) i")
    case None
    then have "cs = [cc_delta cv model (open_tool i st) None (cc_tool_delta (d (cs_next st)))]" "st' = started (open_tool i st)"
      using assms(2) by (auto simp: cc_input_start_def Let_def d_def simp flip: i_def)
    then show ?thesis
      using agrees_new_call [OF assms(1) None, of d "(text_member ''toolName'' e, [])"] agrees_known [OF assms(1), of i] None
      by (simp add: hear hear_call_def d_def merge_whole told_def new_call_def)
  next
    case (Some idx)
    then have "cs = [cc_delta cv model st None (cc_tool_delta (d idx))]" "st' = started st"
      using assms(2) by (auto simp: cc_input_start_def Let_def d_def simp flip: i_def)
    moreover have "i \<in> fst ` set (he_calls h)" using agrees_known [OF assms(1), of i] Some by simp
    ultimately show ?thesis
      using agrees_at_call [OF assms(1) Some, of "d idx" "\<lambda>(n, a). (text_member ''toolName'' e, a)" cv model st]
      by (simp add: hear hear_call_def d_def merge_whole told_def case_prod_beta)
  qed
qed

lemma agrees_call:
  assumes "agrees st t h" and "cc_tool_call cv model e st = (cs, st')" and "event_kind e = ''tool-call''"
  shows "agrees st' (fold add_chunk cs t) (hear cv e h)"
proof -
  define i where "i = or_text (or_text (text_member ''toolCallId'' e) (text_member ''id'' e)) (fallback_id st)"
  define c where "c = (text_member ''toolName'' e, input_text cv (map_member ''input'' e))"
  define d where "d = (\<lambda>idx. whole_call idx i (fst c) (snd c))"
  have hear: "hear cv e h = hear_call i id c h"
    using assms(3) agrees_id [OF assms(1)] by (simp add: hear_def i_def c_def Let_def)
  show ?thesis
  proof (cases "map_of (cs_tools st) i")
    case None
    then have "cs = [cc_delta cv model st None (cc_tool_delta (d (cs_next st)))]" "st' = started (open_tool i st)"
      using assms(2) by (auto simp: cc_tool_call_def Let_def d_def c_def simp flip: i_def)
    then show ?thesis
      using agrees_new_call [OF assms(1) None, of d c] agrees_known [OF assms(1), of i] None
      by (simp add: hear hear_call_def d_def merge_whole told_def new_call_def case_prod_beta)
  next
    case (Some idx)
    then have "cs = []" "st' = st" using assms(2) by (auto simp: cc_tool_call_def Let_def simp flip: i_def)
    moreover have "i \<in> fst ` set (he_calls h)" using agrees_known [OF assms(1), of i] Some by simp
    moreover have "at_call i id (he_calls h) = he_calls h"
      unfolding at_call_def by (rule map_idI) auto
    ultimately show ?thesis using assms(1) by (simp add: hear hear_call_def)
  qed
qed

lemma agrees_input:
  assumes "agrees st t h" and "cc_input_delta cv model e st = (cs, st')" and "event_kind e = ''tool-input-delta''"
  shows "agrees st' (fold add_chunk cs t) (hear cv e h)"
proof -
  define i where "i = or_text (text_member ''id'' e) (text_member ''toolCallId'' e)"
  define x where "x = or_text (text_member ''delta'' e) (text_member ''inputTextDelta'' e)"
  define d where "d = (\<lambda>idx. [(''index'', json_of_int idx), (''function'', json_map [(''arguments'', json_of_string x)])])"
  have hear: "hear cv e h = h\<lparr>he_calls := at_call i (\<lambda>(n, a). (n, a @ x)) (he_calls h)\<rparr>"
    using assms(3) by (simp add: hear_def i_def x_def Let_def)
  show ?thesis
  proof (cases "map_of (cs_tools st) i")
    case None
    then have "cs = []" "st' = st" using assms(2) by (auto simp: cc_input_delta_def Let_def simp flip: i_def)
    moreover have "at_call i f (he_calls h) = he_calls h" for f
      using agrees_known [OF assms(1), of i] None by (auto simp: at_call_def image_iff intro!: map_idI)
    ultimately show ?thesis using assms(1) by (simp add: hear)
  next
    case (Some idx)
    then have "cs = [cc_delta cv model st None (cc_tool_delta (d idx))]" "st' = st"
      using assms(2) by (auto simp: cc_input_delta_def Let_def d_def x_def simp flip: i_def)
    moreover have "map_member ''index'' (sort_key fst (d (int j))) = Some (json_of_int (int j))" for j
      by (simp only: d_def index_of)
    moreover have "merge_call (sort_key fst (d idx)) (told (i, c)) = told (i, (\<lambda>(n, a). (n, a @ x)) c)" for c
      by (cases c) (simp only: d_def merge_part told_def prod.case, simp)
    ultimately show ?thesis
      using agrees_at_call [OF assms(1) Some, of "d idx" "\<lambda>(n, a). (n, a @ x)" cv model st] by (simp add: hear)
  qed
qed

lemma agrees_translate:
  assumes "agrees st t h" and "cc_translate cv model e st = (cs, st')" and "event_kind e \<noteq> ''finish''"
  shows "agrees st' (fold add_chunk cs t) (hear cv e h)"
proof -
  note kinds = agrees_text agrees_reasoning agrees_start agrees_call agrees_input
  have "agrees (cc_finish_step e st) t (hear cv e h)" if "event_kind e = ''finish-step''"
    using assms(1) that by (simp add: agrees_def cc_finish_step_def hear_def Let_def split: option.split)
  moreover have "hear cv e h = h" if "event_kind e \<notin> {''text-delta'', ''reasoning-delta'', ''tool-input-start'',
      ''tool-call'', ''tool-input-delta'', ''finish-step''}"
    using that by (simp add: hear_def Let_def)
  ultimately show ?thesis
    using assms kinds [OF assms(1), of cv model e cs st']
    by (auto simp: cc_translate_def Let_def split: if_splits)
qed

section \<open>A whole stream\<close>

text \<open>The events of a body, up to the one that ends it.\<close>

fun cc_events :: "string list \<Rightarrow> (string \<times> json) list list" where
  "cc_events [] = []"
| "cc_events (l # ls) = (if cc_line l = done_sentinel then []
     else case cc_event (cc_line l) of
       None \<Rightarrow> cc_events ls
     | Some e \<Rightarrow> if event_kind e = ''finish'' then [e] else e # cc_events ls)"

fun translate_all :: "cc_call \<Rightarrow> string \<Rightarrow> (string \<times> json) list list \<Rightarrow> cc_state \<Rightarrow> stream_chunk list" where
  "translate_all cv model [] st = []"
| "translate_all cv model (e # es) st = (case cc_translate cv model e st of (cs, st') \<Rightarrow> cs @ translate_all cv model es st')"

lemma cc_event_blank: "cc_event [] = None"
  by (simp add: cc_event_def json_parse_def skip_ws_def)

lemma emit_all: "cc_emit (\<lambda>_. True) cs (n, out) = (n + length cs, out @ cs)"
  by (induction cs arbitrary: n out) simp_all

lemma scan_events:
  assumes "\<forall>l \<in> set ls. length l < cc_max_line" and "\<forall>e \<in> set (cc_events ls). event_kind e \<noteq> ''error''"
  shows "snd (cc_scan cv p model (\<lambda>_. True) None ls st (n, out)) = out @ translate_all cv model (cc_events ls) st"
  using assms
proof (induction ls arbitrary: st n out)
  case (Cons l ls)
  then show ?case
    by (auto simp: emit_all cc_event_blank split: option.split prod.split)
qed simp

text \<open>How the stream ends: the finish reason and the usage the finish event reports.\<close>

definition closing :: "(string \<times> json) list list \<Rightarrow> heard \<Rightarrow> string \<times> usage_report option" where
  "closing es h = (if es = [] \<or> event_kind (last es) \<noteq> ''finish'' then (''stop'', None)
     else (or_text (or_text (he_step h) (cc_finish_reason (text_member ''finishReason'' (last es)))) ''stop'',
       case any_object (map_member ''totalUsage'' (last es)) of
         None \<Rightarrow> he_step_usage h | Some u \<Rightarrow> Some (command_code_usage u)))"

lemma finish_last: "e \<in> set (butlast (cc_events ls)) \<Longrightarrow> event_kind e \<noteq> ''finish''"
  by (induction ls) (auto split: if_splits option.splits)

definition tells :: "cc_total \<Rightarrow> (string \<times> json) list list \<Rightarrow> heard \<Rightarrow> bool" where
  "tells u es g \<longleftrightarrow> ct_text u = he_text g \<and> ct_reasoning u = he_reasoning g \<and> ct_tools u = map told (he_calls g)
    \<and> ct_finish u = fst (closing es g) \<and> ct_usage u = snd (closing es g)"

lemma told_total:
  assumes "agrees st t h" and "\<forall>e \<in> set (butlast es). event_kind e \<noteq> ''finish''"
  shows "tells (fold add_chunk (translate_all cv model es st) t) es (fold (hear cv) es h)"
  using assms
proof (induction es arbitrary: st t h)
  case Nil
  then show ?case by (simp add: agrees_def closing_def tells_def)
next
  case (Cons e es)
  show ?case
  proof (cases "event_kind e = ''finish''")
    case True
    then have "es = []" using Cons.prems(2) by (cases es) auto
    have "hear cv e h = h" "cc_translate cv model e st = ([cc_finish cv model e st], st)"
      using True by (simp_all add: hear_def cc_translate_def Let_def)
    then show ?thesis using Cons.prems(1) True unfolding \<open>es = []\<close>
      by (auto simp: tells_def closing_def agrees_def cc_finish_def cc_base_def add_chunk_def add_delta_def Let_def
          bare_delta_def message_text_def unmarshal_string_def object_list_def string_or_empty_def merge_command_usage_def
          split: option.split)
  next
    case False
    obtain cs st' where tr: "cc_translate cv model e st = (cs, st')" by force
    note agrees_translate [OF Cons.prems(1) tr False]
    moreover have "\<forall>e \<in> set (butlast es). event_kind e \<noteq> ''finish''" using Cons.prems(2) by (auto split: if_splits)
    moreover have "tells u (e # es) g = tells u es g" for u g
      using False by (auto simp: tells_def closing_def)
    ultimately show ?thesis using Cons.IH by (simp add: tr)
  qed
qed


definition example_cc :: cc_call where
  "example_cc = \<lparr>cv_thread = [], cv_session = [], cv_completion = [], cv_now = 0, cv_dir = [], cv_cut = None,
     cv_goos = [], cv_float = (\<lambda>_. []), cv_fixed = (\<lambda>_. []), cv_print = (\<lambda>_. [])\<rparr>"

definition example_cc_provider :: http_provider where
  "example_cc_provider = new_http_provider \<lparr>op_name = ''cc'', op_base_url = ''u'', op_api_key = ''sk-1'', op_api_keys = [],
     op_api_key_method = [], op_auth_header = []\<rparr> []"

text \<open>Two calls whose fragments interleave; a \<open>#\<close> stands for a quotation mark.\<close>

definition quote_marks :: "string \<Rightarrow> string" where
  "quote_marks s = map (\<lambda>c. if c = CHR ''#'' then CHR 0x22 else c) s"

definition example_cc_body :: string where
  "example_cc_body = concat (map (\<lambda>l. quote_marks l @ [newline])
     [''{#type#:#tool-input-start#,#id#:#a#}'', ''{#type#:#tool-input-start#,#id#:#b#}'',
      ''{#type#:#tool-input-delta#,#id#:#a#,#delta#:#x#}'', ''{#type#:#finish#}''])"

lemma example_cc_lines: "map length (cc_lines example_cc_body) = [36, 36, 48, 17]" by code_simp

lemma example_cc_events: "map event_kind (cc_events (cc_lines example_cc_body)) =
  [''tool-input-start'', ''tool-input-start'', ''tool-input-delta'', ''finish'']"
  by code_simp

lemma example_cc_heard: "he_calls (fold (hear example_cc) (cc_events (cc_lines example_cc_body)) nothing_heard) =
  [(''a'', [], ''x''), (''b'', [], [])]"
  by code_simp


section \<open>The look ahead\<close>

text \<open>The pieces that are read: each ends in a line break, but for the last.\<close>

fun pieces_ok :: "string list \<Rightarrow> bool" where
  "pieces_ok [] \<longleftrightarrow> True"
| "pieces_ok [l] \<longleftrightarrow> l \<noteq> [] \<and> newline \<notin> set (butlast l)"
| "pieces_ok (l # ls) \<longleftrightarrow> (\<exists>x. l = x @ [newline] \<and> newline \<notin> set x) \<and> pieces_ok ls"

lemma pieces_ok_Cons: "pieces_ok (l # ls) \<longleftrightarrow> pieces_ok ls \<and> (if ls = [] then l \<noteq> [] \<and> newline \<notin> set (butlast l)
    else \<exists>x. l = x @ [newline] \<and> newline \<notin> set x)"
  by (cases ls) auto

lemma pieces_ok_filter: "pieces_ok ls \<Longrightarrow> pieces_ok (filter P ls)"
  by (induction ls) (auto simp: pieces_ok_Cons filter_empty_conv split: if_splits)

definition chop :: "string \<Rightarrow> string" where
  "chop l = trim_suffix l [newline]"

lemma chop_line [simp]: "chop (x @ [newline]) = x" "newline \<notin> set l \<Longrightarrow> chop l = l"
  by (auto simp: chop_def trim_suffix_def suffix_def)

lemma cc_lines_cons: "newline \<notin> set a \<Longrightarrow> cc_lines (a @ newline # b) = a # cc_lines b"
  by (simp add: cc_lines_def split_on_cons Let_def)

lemma cc_lines_single: "newline \<notin> set a \<Longrightarrow> cc_lines a = (if a = [] then [] else [a])"
  by (subst cc_lines_def, subst split_on.simps) (simp add: cut_no_char)

lemma cc_lines_pieces: "pieces_ok ls \<Longrightarrow> cc_lines (concat ls) = map chop ls"
proof (induction ls)
  case Nil
  then show ?case by (simp add: cc_lines_single)
next
  case (Cons l ls)
  show ?case
  proof (cases "ls = []")
    case True
    with Cons.prems obtain x c where l: "l = x @ [c]" "newline \<notin> set x" by (cases l rule: rev_cases) auto
    show ?thesis
      using l True cc_lines_cons [of x "[]"] cc_lines_single [of "x @ [c]"] cc_lines_single [of "[]"]
      by (cases "c = newline") auto
  next
    case False
    then obtain x where "l = x @ [newline]" "newline \<notin> set x" using Cons.prems by (auto simp: pieces_ok_Cons)
    then show ?thesis using Cons by (simp add: cc_lines_cons pieces_ok_Cons)
  qed
qed

lemma pieces_of_lines:
  "\<forall>x \<in> set xs. newline \<notin> set x \<Longrightarrow> newline \<notin> set z \<Longrightarrow>
     pieces_ok (map (\<lambda>l. l @ [newline]) xs @ (if z = [] then [] else [z]))"
  by (induction xs) (auto simp: pieces_ok_Cons dest: in_set_butlastD)

lemma read_pieces_ok: "pieces_ok (read_pieces s)"
proof -
  have "\<forall>x \<in> set (split_on s [newline]). newline \<notin> set x" using split_on_parts by blast
  then show ?thesis unfolding read_pieces_def Let_def
    by (intro pieces_of_lines) (auto dest: in_set_butlastD)
qed

lemma concat_pieces: "concat (read_pieces s) = s"
proof -
  have "concat (map (\<lambda>l. l @ [newline]) (butlast ls) @ (if last ls = [] then [] else [last ls])) = join ls [newline]"
    if "ls \<noteq> []" for ls
    using that by (induction ls rule: induct_list012) auto
  then show ?thesis using join_split [of s "[newline]"] by (simp add: read_pieces_def Let_def)
qed

lemma final_piece: "l \<noteq> [] \<Longrightarrow> newline \<notin> set (butlast l) \<Longrightarrow> newline \<notin> set l \<or> l = butlast l @ [newline]"
  by (cases l rule: rev_cases) auto

lemma cc_line_chop: "pieces_ok ls \<Longrightarrow> l \<in> set ls \<Longrightarrow> cc_line (chop l) = cc_line l"
proof -
  have nl: "is_space newline" by (simp add: is_space_def newline_def)
  have "trim_space (x @ [newline]) = trim_space x" for x
  proof (cases "\<exists>c \<in> set x. \<not> is_space c")
    case True
    then have "trim_left (x @ [newline]) = trim_left x @ [newline]" by (auto simp: trim_left_def dropWhile_append)
    then show ?thesis using nl by (simp add: trim_space_def trim_right_def)
  next
    case False
    then have "dropWhile is_space (x @ [newline]) = []" "dropWhile is_space x = []"
      unfolding dropWhile_eq_Nil_conv using nl by simp_all
    then show ?thesis by (simp only: trim_space_def trim_left_def trim_right_def)
  qed
  moreover assume "pieces_ok ls" "l \<in> set ls"
  then have "(\<exists>x. l = x @ [newline] \<and> newline \<notin> set x) \<or> newline \<notin> set l"
    by (induction ls) (auto simp: pieces_ok_Cons split: if_splits dest: final_piece)
  ultimately show ?thesis by (auto simp: cc_line_def)
qed

text \<open>Lines the scan steps over.\<close>

lemma scan_skips_blank:
  "\<forall>l \<in> set ls. length l < cc_max_line \<Longrightarrow> 
     cc_scan cv p model sends ending (filter (\<lambda>l. cc_line l \<noteq> []) ls) st b = cc_scan cv p model sends ending ls st b"
  by (induction ls arbitrary: st b) (auto simp: done_sentinel_def split: option.split prod.split)

definition decisive :: "string \<Rightarrow> bool" where
  "decisive l \<longleftrightarrow> (case peek_piece l of Content \<Rightarrow> True | Failure e \<Rightarrow> True | _ \<Rightarrow> False)"

text \<open>The look ahead stops at the first decisive piece, having dropped blank ones only.\<close>

lemma cc_peek_cases:
  "cc_peek cv p ending ls kept = (case List.find decisive ls of
      Some l \<Rightarrow> (case peek_piece l of
          Failure e \<Rightarrow> Inl (event_error cv p e)
        | _ \<Rightarrow> Inr (kept @ filter (\<lambda>l. cc_line l \<noteq> []) (takeWhile (\<lambda>l. \<not> decisive l) ls) @ dropWhile (\<lambda>l. \<not> decisive l) ls))
    | None \<Rightarrow> cc_peek cv p ending [] (kept @ filter (\<lambda>l. cc_line l \<noteq> []) ls))"
proof (induction ls arbitrary: kept)
  case (Cons l ls)
  have blank: "peek_piece l = Blank \<longleftrightarrow> cc_line l = []"
    by (auto simp: peek_piece_def split: if_splits option.splits)
  have kind: "decisive l \<longleftrightarrow> (case peek_piece l of Content \<Rightarrow> True | Failure e \<Rightarrow> True | _ \<Rightarrow> False)"
    by (simp add: decisive_def)
  show ?case
    by (cases "peek_piece l") (use Cons.IH blank kind in \<open>simp_all split: option.split peeked.split\<close>)
qed simp

text \<open>Statuses.\<close>

lemma error_status_range: "error_status n = 0 \<or> 400 \<le> error_status n \<and> error_status n \<le> 599"
  by (simp add: error_status_def)

lemma first_status_range: "first_status vs = 0 \<or> 400 \<le> first_status vs \<and> first_status vs \<le> 599"
  by (induction vs) (use error_status_range in \<open>auto simp: or_else_def cc_status_value_def split: option.split\<close>)

lemma event_error_facts:
  assumes "redactable (op_api_key (hp_opts p))"
  shows "\<exists>x. event_error cv p e = Upstream x \<and> 400 \<le> pe_status x \<and> pe_status x \<le> 599
    \<and> (retryable (Upstream x) \<longleftrightarrow> pe_status x = 429 \<or> 500 \<le> pe_status x)
    \<and> \<not> sublist (op_api_key (hp_opts p)) (pe_message x)"
proof -
  have range: "400 \<le> (if b then x else y) \<and> (if b then x else y) \<le> 599"
    if "400 \<le> x \<and> x \<le> 599" "400 \<le> y \<and> y \<le> 599" for b and x y :: int
    using that by simp
  have "400 \<le> cc_status m \<and> cc_status m \<le> 599" for m
    unfolding cc_status_def Let_def by (intro range) simp_all
  moreover have "cc_event_status e = 0 \<or> 400 \<le> cc_event_status e \<and> cc_event_status e \<le> 599"
    unfolding cc_event_status_def Let_def by (rule first_status_range)
  ultimately have "400 \<le> or_else (cc_event_status e) (cc_status m) \<and> or_else (cc_event_status e) (cc_status m) \<le> 599" for m
    by (auto simp: or_else_def)
  then show ?thesis using assms
    by (auto simp: event_error_def cc_error_def cc_redact_def redact_removes cc_kind_def retryable_def Let_def)
qed

lemma peeked_chunks:
  assumes "\<forall>l \<in> set (cc_lines body). length l < cc_max_line"
    and "ls = filter (\<lambda>l. cc_line l \<noteq> []) (takeWhile P (read_pieces body)) @ dropWhile P (read_pieces body)"
  shows "cc_chunks cv p model sends (concat ls) = cc_chunks cv p model sends body"
proof -
  let ?ps = "read_pieces body" and ?q = "\<lambda>l. cc_line l \<noteq> []"
  note ok = read_pieces_ok [of body]
  have lines: "cc_lines body = map chop ?ps" using cc_lines_pieces [OF ok] by (simp add: concat_pieces)
  have filters: "filter ?q ls = filter ?q ?ps"
    unfolding assms(2) by (simp add: filter_append [symmetric])
  have sub: "subseq ls ?ps"
    unfolding assms(2) by (metis list_emb_append_mono subseq_filter_left subseq_order.refl takeWhile_dropWhile_id)
  have ok': "pieces_ok xs" if "subseq xs ys" "pieces_ok ys" for xs ys
    using that by (induction rule: list_emb.induct) (auto simp: pieces_ok_Cons split: if_splits)
  have chopped: "filter ?q (map chop xs) = map chop (filter ?q xs)" if "pieces_ok xs" for xs
    using cc_line_chop [OF that] by (simp add: filter_map comp_def cong: filter_cong)
  have "cc_scan cv p model sends ending (map chop xs) st b = cc_scan cv p model sends ending (map chop (filter ?q xs)) st b"
    if "subseq xs ?ps" for xs ending st b
  proof -
    have "\<forall>l \<in> set (map chop xs). length l < cc_max_line"
      using assms(1) that unfolding lines by (auto elim: list_emb_set)
    then show ?thesis using scan_skips_blank [of "map chop xs"] chopped [OF ok' [OF that ok]] by simp
  qed
  from this [OF sub] this [OF subseq_order.refl] show ?thesis
    by (simp add: cc_chunks_def cc_lines_pieces [OF ok' [OF sub ok]] lines filters)
qed


text \<open>An upstream that accepts every call and then reports a limit.\<close>

definition example_cc_limit :: string where
  "example_cc_limit = quote_marks ''{#type#:#error#,#error#:#rate limit#}''"

definition example_cc_net :: "unit net" where
  "example_cc_net = \<lparr>nt_join = (\<lambda>b s. Inr b), nt_new_request = (\<lambda>_. None),
     nt_send = (\<lambda>rq w. (Inr \<lparr>rs_status = 200, rs_body = example_cc_limit\<rparr>, w)), nt_decode_text = (\<lambda>_. [])\<rparr>"

lemma example_cc_pieces: "map peek_piece (read_pieces example_cc_limit) =
  [Failure [(''type'', json_of_string ''error''), (''error'', json_of_string ''rate limit'')]]"
  by code_simp

lemma example_cc_limit_lines: "map length (cc_lines example_cc_limit) = [37]" by code_simp


text \<open>The configured key is struck out of a message, a key of the rotation is not.\<close>

theorem rotated_key_shown:
  "cc_status_error (example_cc_provider\<lparr>hp_opts := (hp_opts example_cc_provider)\<lparr>op_api_keys := [''sk-1'', ''sk-2'']\<rparr>\<rparr>)
       \<lparr>rs_status = 401, rs_body = ''bad key sk-2''\<rparr>
     = Upstream \<lparr>pe_provider = ''cc'', pe_status = 401, pe_kind = None, pe_message = ''bad key sk-2'', pe_code = []\<rparr>"
  by code_simp

end
