(* ===== verification/Sqlite_Tables.thy ===== *)
theory Sqlite_Tables
  imports Storage_Sqlite
begin

text \<open>
  The rest of the SQLite store (\<^verbatim>\<open>internal/storage/sqlite.go\<close>, \<^verbatim>\<open>trace.go\<close>, \<^verbatim>\<open>prune.go\<close>): migrations, the
  tables of proxies, settings and prompt entries, the usage log with its aggregates, the traces
  with their attempts, and the retention sweep. A row holds what the columns hold, Unix seconds
  and milliseconds among them; a query is the meaning of its SQL text. Where \<^verbatim>\<open>ORDER BY\<close> leaves ties,
  rows come in the order of the group's key.
\<close>

section \<open>Opening and migrating\<close>

text \<open>A migration runs with the record of its name in one transaction; \<open>apply_sql\<close> is the database.\<close>

record 'd migrated =
  mg_data :: 'd
  mg_applied :: "string list"

definition apply_migration ::
    "(string \<Rightarrow> 'd \<Rightarrow> 'd option) \<Rightarrow> string \<Rightarrow> 'd migrated \<Rightarrow> 'd migrated option"
where
  "apply_migration apply_sql name db = (case apply_sql name (mg_data db) of
      None \<Rightarrow> None
    | Some d \<Rightarrow> Some \<lparr>mg_data = d, mg_applied = mg_applied db @ [name]\<rparr>)"

fun migrate_entries ::
    "(string \<Rightarrow> 'd \<Rightarrow> 'd option) \<Rightarrow> string list \<Rightarrow> 'd migrated \<Rightarrow> string option \<times> 'd migrated"
where
  "migrate_entries apply_sql [] db = (None, db)"
| "migrate_entries apply_sql (name # ns) db =
     (if name \<in> set (mg_applied db) then migrate_entries apply_sql ns db
      else case apply_migration apply_sql name db of
        None \<Rightarrow> (Some name, db)
      | Some db' \<Rightarrow> migrate_entries apply_sql ns db')"

definition migrate :: "(string \<Rightarrow> 'd \<Rightarrow> 'd option) \<Rightarrow> string list \<Rightarrow> 'd migrated \<Rightarrow> string option \<times> 'd migrated" where
  "migrate apply_sql entries db = migrate_entries apply_sql (sort entries) db"

section \<open>Keyed tables\<close>

record usage_row =
  uw_id :: int
  uw_created :: int
  uw_key_id :: string
  uw_alias :: string
  uw_provider :: string
  uw_model :: string
  uw_streamed :: bool
  uw_status :: string
  uw_duration_ms :: int
  uw_prompt :: int
  uw_completion :: int
  uw_cached :: int
  uw_cache_write :: int
  uw_reasoning :: int
  uw_cost :: rat

record prompt_row =
  pt_id :: string
  pt_extension :: string
  pt_name :: string
  pt_prompt :: string
  pt_priority :: int
  pt_enabled :: bool
  pt_created :: int
  pt_updated :: int

record trace_entry =
  tw_request_id :: string
  tw_created :: int
  tw_key_id :: string
  tw_model :: string
  tw_dialect :: string
  tw_streamed :: bool
  tw_latency_ms :: int
  tw_tokens :: int
  tw_cost :: rat
  tw_provider :: string
  tw_alias :: string
  tw_status :: string
  tw_attempts :: int

record attempt_entry =
  aw_request_id :: string
  aw_seq :: int
  aw_started :: int
  aw_alias :: string
  aw_provider :: string
  aw_model :: string
  aw_latency_ms :: int
  aw_status :: string
  aw_retry :: bool
  aw_fallback :: bool
  aw_error :: string

text \<open>The tables; \<open>tb_next_id\<close> is the counter of \<^verbatim>\<open>AUTOINCREMENT\<close>, and rows lie in order of their \<^verbatim>\<open>rowid\<close>.\<close>

record tables =
  tb_proxies :: "(string, proxy) gomap"
  tb_settings :: "(string, string) gomap"
  tb_extensions :: "string list"
  tb_prompts :: "(string, prompt_row) gomap"
  tb_usage :: "usage_row list"
  tb_next_id :: int
  tb_traces :: "trace_entry list"
  tb_attempts :: "attempt_entry list"

definition opened_tables :: tables where
  "opened_tables = \<lparr>tb_proxies = [], tb_settings = [], tb_extensions = [''system-prompt-injector''], tb_prompts = [],
     tb_usage = [], tb_next_id = 1, tb_traces = [], tb_attempts = []\<rparr>"

definition sqlite_proxies_list :: "tables \<Rightarrow> proxy list" where
  "sqlite_proxies_list db = sort_key px_name (map_vals (tb_proxies db))"

definition sqlite_proxies_get :: "string \<Rightarrow> tables \<Rightarrow> storage_error + proxy" where
  "sqlite_proxies_get n db = (case map_of (tb_proxies db) n of None \<Rightarrow> Inl StorageNotFound | Some p \<Rightarrow> Inr p)"

definition sqlite_proxies_put :: "proxy \<Rightarrow> tables \<Rightarrow> tables" where
  "sqlite_proxies_put p db = db\<lparr>tb_proxies := map_put (px_name p) p (tb_proxies db)\<rparr>"

definition sqlite_proxies_delete :: "string \<Rightarrow> tables \<Rightarrow> storage_error option \<times> tables" where
  "sqlite_proxies_delete n db = (case map_of (tb_proxies db) n of
      None \<Rightarrow> (Some StorageNotFound, db) | Some _ \<Rightarrow> (None, db\<lparr>tb_proxies := map_del n (tb_proxies db)\<rparr>))"

definition sqlite_settings_all :: "tables \<Rightarrow> (string, string) gomap" where
  "sqlite_settings_all db = tb_settings db"

definition sqlite_settings_put :: "string \<Rightarrow> string \<Rightarrow> tables \<Rightarrow> tables" where
  "sqlite_settings_put k v db = db\<lparr>tb_settings := map_put k v (tb_settings db)\<rparr>"

definition prompt_row_of :: "prompt_entry \<Rightarrow> prompt_row" where
  "prompt_row_of e = \<lparr>pt_id = se_id e, pt_extension = se_extension_id e, pt_name = se_name e, pt_prompt = se_prompt e,
     pt_priority = se_priority e, pt_enabled = se_enabled e, pt_created = unix_or_zero (se_created_at e),
     pt_updated = unix_or_zero (se_updated_at e)\<rparr>"

definition scan_prompt_entry :: "prompt_row \<Rightarrow> prompt_entry" where
  "scan_prompt_entry r = \<lparr>se_id = pt_id r, se_extension_id = pt_extension r, se_name = pt_name r, se_prompt = pt_prompt r,
     se_priority = pt_priority r, se_enabled = pt_enabled r, se_created_at = from_unix (pt_created r),
     se_updated_at = from_unix (pt_updated r)\<rparr>"

definition sqlite_prompts_list :: "string \<Rightarrow> tables \<Rightarrow> prompt_entry list" where
  "sqlite_prompts_list ext db = map scan_prompt_entry
     (sort_key pt_priority (filter (\<lambda>r. pt_extension r = ext) (map_vals (tb_prompts db))))"

definition sqlite_prompts_get :: "string \<Rightarrow> tables \<Rightarrow> storage_error + prompt_entry" where
  "sqlite_prompts_get i db = (case map_of (tb_prompts db) i of
      None \<Rightarrow> Inl StorageNotFound | Some r \<Rightarrow> Inr (scan_prompt_entry r))"

text \<open>A new entry needs its extension, by the foreign key; an update keeps extension and creation time.\<close>

definition sqlite_prompts_put :: "prompt_entry \<Rightarrow> tables \<Rightarrow> bool \<times> tables" where
  "sqlite_prompts_put e db = (let r = prompt_row_of e in case map_of (tb_prompts db) (se_id e) of
      None \<Rightarrow> if se_extension_id e \<in> set (tb_extensions db)
        then (True, db\<lparr>tb_prompts := map_put (se_id e) r (tb_prompts db)\<rparr>) else (False, db)
    | Some old \<Rightarrow> (True, db\<lparr>tb_prompts := map_put (se_id e)
        (r\<lparr>pt_extension := pt_extension old, pt_created := pt_created old\<rparr>) (tb_prompts db)\<rparr>))"

definition sqlite_prompts_delete :: "string \<Rightarrow> tables \<Rightarrow> storage_error option \<times> tables" where
  "sqlite_prompts_delete i db = (case map_of (tb_prompts db) i of
      None \<Rightarrow> (Some StorageNotFound, db) | Some _ \<Rightarrow> (None, db\<lparr>tb_prompts := map_del i (tb_prompts db)\<rparr>))"

definition sqlite_prompts_delete_by_extension :: "string \<Rightarrow> tables \<Rightarrow> tables" where
  "sqlite_prompts_delete_by_extension ext db =
     db\<lparr>tb_prompts := filter (\<lambda>(i, r). pt_extension r \<noteq> ext) (tb_prompts db)\<rparr>"

section \<open>Listings of the routing tables\<close>

definition sqlite_providers_list :: "sqlite \<Rightarrow> provider_record list" where
  "sqlite_providers_list db = map scan_provider (sort_key pw_name (map_vals (sq_providers db)))"

definition sqlite_models_list :: "sqlite \<Rightarrow> model_alias list" where
  "sqlite_models_list db = map scan_model_alias (sort_key mr_alias (map_vals (sq_models db)))"

definition sqlite_combos_list :: "sqlite \<Rightarrow> combo list" where
  "sqlite_combos_list db = map scan_combo (sort_key cw_name (map_vals (sq_combos db)))"

definition sqlite_combos_delete :: "string \<Rightarrow> sqlite \<Rightarrow> storage_error option \<times> sqlite" where
  "sqlite_combos_delete n db = (case map_of (sq_combos db) n of
      None \<Rightarrow> (Some StorageNotFound, db) | Some r \<Rightarrow> (None, db\<lparr>sq_combos := map_del n (sq_combos db)\<rparr>))"

section \<open>The usage log\<close>

definition usage_row_of :: "int \<Rightarrow> usage_event \<Rightarrow> usage_row" where
  "usage_row_of i e = \<lparr>uw_id = i, uw_created = unix (ue_created_at e), uw_key_id = ue_key_id e, uw_alias = ue_alias e,
     uw_provider = ue_provider e, uw_model = ue_model e, uw_streamed = ue_streamed e, uw_status = ue_status e,
     uw_duration_ms = duration_ms (ue_duration e), uw_prompt = ue_prompt e, uw_completion = ue_completion e,
     uw_cached = ue_cached e, uw_cache_write = ue_cache_write e, uw_reasoning = ue_reasoning e, uw_cost = ue_cost e\<rparr>"

definition scan_usage_event :: "usage_row \<Rightarrow> usage_event" where
  "scan_usage_event r = \<lparr>ue_id = uw_id r, ue_created_at = from_unix (uw_created r), ue_key_id = uw_key_id r,
     ue_alias = uw_alias r, ue_provider = uw_provider r, ue_model = uw_model r, ue_streamed = uw_streamed r,
     ue_status = uw_status r, ue_duration = wrap64 (uw_duration_ms r * millisecond), ue_prompt = uw_prompt r,
     ue_completion = uw_completion r, ue_cached = uw_cached r, ue_cache_write = uw_cache_write r,
     ue_reasoning = uw_reasoning r, ue_cost = uw_cost r\<rparr>"

definition sqlite_usage_record :: "usage_event \<Rightarrow> tables \<Rightarrow> tables" where
  "sqlite_usage_record e db = db\<lparr>tb_usage := tb_usage db @ [usage_row_of (tb_next_id db) e], tb_next_id := tb_next_id db + 1\<rparr>"

definition sqlite_usage_recent :: "int \<Rightarrow> usage_row list \<Rightarrow> usage_event list" where
  "sqlite_usage_recent limit rows = (if limit \<le> 0 then []
     else map scan_usage_event (take (nat limit) (sort_key (\<lambda>r. - uw_created r) (sort_key (\<lambda>r. - uw_id r) rows))))"

definition rows_since :: "instant \<Rightarrow> usage_row list \<Rightarrow> usage_row list" where
  "rows_since since rows = filter (\<lambda>r. uw_created r \<ge> unix since) rows"

text \<open>\<^verbatim>\<open>COALESCE(SUM(c), 0)\<close>\<close>

definition sum_column :: "(usage_row \<Rightarrow> 'a :: comm_monoid_add) \<Rightarrow> usage_row list \<Rightarrow> 'a" where
  "sum_column c rows = sum_list (map c rows)"

definition sqlite_usage_totals :: "instant \<Rightarrow> usage_row list \<Rightarrow> usage_totals" where
  "sqlite_usage_totals since rows = (let rs = rows_since since rows in
     \<lparr>ut_requests = int (length rs), ut_errors = sum_column (\<lambda>r. if uw_status r \<noteq> ''ok'' then 1 else 0) rs,
      ut_prompt = sum_column uw_prompt rs, ut_completion = sum_column uw_completion rs,
      ut_cached = sum_column uw_cached rs, ut_cost = sum_column uw_cost rs\<rparr>)"

text \<open>\<^verbatim>\<open>GROUP BY\<close>: one row of aggregates per key; \<open>last_of\<close> is the reading of \<^verbatim>\<open>MAX(created_at)\<close>.\<close>

definition sql_group :: "'k \<Rightarrow> instant \<Rightarrow> usage_row list \<Rightarrow> 'k usage_group" where
  "sql_group k t rs = \<lparr>ug_key = k, ug_requests = int (length rs), ug_prompt = sum_column uw_prompt rs,
     ug_completion = sum_column uw_completion rs, ug_cached = sum_column uw_cached rs, ug_cost = sum_column uw_cost rs,
     ug_last_used = t\<rparr>"

definition last_of :: "usage_row list \<Rightarrow> instant" where
  "last_of rs = from_unix (Max (set (map uw_created rs)))"

definition sql_groups :: "(usage_row \<Rightarrow> 'k :: linorder) \<Rightarrow> usage_row list \<Rightarrow> ('k \<times> usage_row list) list" where
  "sql_groups c rows = map (\<lambda>k. (k, filter (\<lambda>r. c r = k) rows)) (sort (remdups (map c rows)))"

text \<open>Integer division in SQL truncates towards zero.\<close>

definition sql_div :: "int \<Rightarrow> int \<Rightarrow> int" where
  "sql_div a b = (if a \<ge> 0 then a div b else - ((- a) div b))"

definition sqlite_usage_series :: "instant \<Rightarrow> duration \<Rightarrow> usage_row list \<Rightarrow> instant usage_group list" where
  "sqlite_usage_series since bucket rows = (let secs = bucket div second in
     if secs \<le> 0 then []
     else map (\<lambda>(k, rs). sql_group (from_unix k) 0 rs)
       (sql_groups (\<lambda>r. sql_div (uw_created r) secs * secs) (rows_since since rows)))"

definition sqlite_usage_by_model :: "usage_row list \<Rightarrow> string usage_group list" where
  "sqlite_usage_by_model rows = sort_key (\<lambda>g. - ug_last_used g)
     (map (\<lambda>(k, rs). sql_group k (last_of rs) rs) (sql_groups uw_alias rows))"

definition sqlite_usage_leaderboard ::
    "instant \<Rightarrow> int \<Rightarrow> leaderboard_sort \<Rightarrow> usage_row list \<Rightarrow> string usage_group list"
where
  "sqlite_usage_leaderboard since limit by rows =
     (let limit = (if limit \<le> 0 then 10 else limit)
      in take (nat limit) (sort_key (\<lambda>g. - leaderboard_rank by g)
           (map (\<lambda>(k, rs). sql_group k (last_of rs) rs) (sql_groups uw_alias (rows_since since rows)))))"

definition sqlite_usage_by_key :: "instant \<Rightarrow> usage_row list \<Rightarrow> string usage_group list" where
  "sqlite_usage_by_key since rows = sort_key (\<lambda>g. - ug_cost g)
     (map (\<lambda>(k, rs). sql_group k (last_of rs) rs) (sql_groups uw_key_id (rows_since since rows)))"

definition sqlite_key_spend :: "string \<Rightarrow> instant \<Rightarrow> usage_row list \<Rightarrow> rat" where
  "sqlite_key_spend key since rows = sum_column uw_cost (filter (\<lambda>r. uw_key_id r = key) (rows_since since rows))"

definition sqlite_usage_prune :: "instant \<Rightarrow> tables \<Rightarrow> int \<times> tables" where
  "sqlite_usage_prune before db =
     (int (length (filter (\<lambda>r. uw_created r < unix before) (tb_usage db))),
      db\<lparr>tb_usage := filter (\<lambda>r. \<not> uw_created r < unix before) (tb_usage db)\<rparr>)"

section \<open>Traces\<close>

definition trace_entry_of :: "request_trace \<Rightarrow> trace_entry" where
  "trace_entry_of t = \<lparr>tw_request_id = rt_request_id t, tw_created = unix (rt_created_at t), tw_key_id = rt_key_id t,
     tw_model = rt_model t, tw_dialect = dialect_or_default (rt_dialect t), tw_streamed = rt_streamed t,
     tw_latency_ms = duration_ms (rt_total_latency t), tw_tokens = rt_total_tokens t, tw_cost = rt_total_cost t,
     tw_provider = rt_final_provider t, tw_alias = rt_final_alias t, tw_status = rt_final_status t,
     tw_attempts = int (length (rt_attempts t))\<rparr>"

definition scan_trace :: "trace_entry \<Rightarrow> request_trace" where
  "scan_trace r = \<lparr>rt_request_id = tw_request_id r, rt_created_at = from_unix (tw_created r), rt_key_id = tw_key_id r,
     rt_model = tw_model r, rt_dialect = tw_dialect r, rt_streamed = tw_streamed r,
     rt_total_latency = wrap64 (tw_latency_ms r * millisecond), rt_total_tokens = tw_tokens r, rt_total_cost = tw_cost r,
     rt_final_provider = tw_provider r, rt_final_alias = tw_alias r, rt_final_status = tw_status r,
     rt_attempts = [], rt_attempt_count = tw_attempts r\<rparr>"

definition attempt_entry_of :: "string \<Rightarrow> request_attempt \<Rightarrow> attempt_entry" where
  "attempt_entry_of i a = \<lparr>aw_request_id = i, aw_seq = ra_seq a, aw_started = unix (ra_started_at a), aw_alias = ra_alias a,
     aw_provider = ra_provider a, aw_model = ra_model a, aw_latency_ms = duration_ms (ra_latency a),
     aw_status = ra_status a, aw_retry = ra_retry a, aw_fallback = ra_fallback a, aw_error = truncate_error (ra_error a)\<rparr>"

definition scan_attempt :: "attempt_entry \<Rightarrow> request_attempt" where
  "scan_attempt r = \<lparr>ra_seq = aw_seq r, ra_started_at = from_unix (aw_started r), ra_alias = aw_alias r,
     ra_provider = aw_provider r, ra_model = aw_model r, ra_latency = wrap64 (aw_latency_ms r * millisecond),
     ra_status = aw_status r, ra_retry = aw_retry r, ra_fallback = aw_fallback r, ra_error = aw_error r\<rparr>"

text \<open>\<^verbatim>\<open>UNIQUE (request_id, seq)\<close>\<close>

fun insert_attempts :: "string \<Rightarrow> request_attempt list \<Rightarrow> attempt_entry list \<Rightarrow> attempt_entry list option" where
  "insert_attempts i [] rows = Some rows"
| "insert_attempts i (a # as) rows =
     (if \<exists>r \<in> set rows. aw_request_id r = i \<and> aw_seq r = ra_seq a then None
      else insert_attempts i as (rows @ [attempt_entry_of i a]))"

definition upsert_trace :: "trace_entry \<Rightarrow> trace_entry list \<Rightarrow> trace_entry list" where
  "upsert_trace r rows =
     (if \<exists>u \<in> set rows. tw_request_id u = tw_request_id r
      then map (\<lambda>u. if tw_request_id u = tw_request_id r then r else u) rows else rows @ [r])"

text \<open>One transaction: a failing statement leaves the tables as they were.\<close>

definition sqlite_trace_record :: "request_trace \<Rightarrow> tables \<Rightarrow> bool \<times> tables" where
  "sqlite_trace_record t db =
     (let i = rt_request_id t; rest = filter (\<lambda>r. aw_request_id r \<noteq> i) (tb_attempts db)
      in case insert_attempts i (rt_attempts t) rest of
           None \<Rightarrow> (False, db)
         | Some rows \<Rightarrow> (True, db\<lparr>tb_traces := upsert_trace (trace_entry_of t) (tb_traces db), tb_attempts := rows\<rparr>))"

definition trace_where :: "trace_filter \<Rightarrow> attempt_entry list \<Rightarrow> trace_entry \<Rightarrow> bool" where
  "trace_where f attempts r \<longleftrightarrow> (tf_status f \<noteq> [] \<longrightarrow> tw_status r = tf_status f)
     \<and> (tf_model f \<noteq> [] \<longrightarrow> tw_model r = tf_model f) \<and> (tf_dialect f \<noteq> [] \<longrightarrow> tw_dialect r = tf_dialect f)
     \<and> (tf_key_id f \<noteq> [] \<longrightarrow> tw_key_id r = tf_key_id f)
     \<and> (tf_provider f \<noteq> [] \<longrightarrow>
          (\<exists>a \<in> set attempts. aw_request_id a = tw_request_id r \<and> aw_provider a = tf_provider f))"

definition sqlite_trace_list :: "trace_filter \<Rightarrow> tables \<Rightarrow> request_trace list \<times> int" where
  "sqlite_trace_list f db =
     (let matched = filter (trace_where f (tb_attempts db)) (tb_traces db);
          ordered = drop (nat (max (tf_offset f) 0)) (sort_key (\<lambda>r. - tw_created r) (rev matched))
      in if matched = [] then ([], 0)
         else (map scan_trace (if tf_limit f \<le> 0 then ordered else take (nat (tf_limit f)) ordered), int (length matched)))"

definition sqlite_attempts :: "string \<Rightarrow> tables \<Rightarrow> request_attempt list" where
  "sqlite_attempts i db = map scan_attempt (sort_key aw_seq (filter (\<lambda>r. aw_request_id r = i) (tb_attempts db)))"

definition sqlite_trace_get :: "string \<Rightarrow> tables \<Rightarrow> storage_error + request_trace" where
  "sqlite_trace_get i db = (case List.find (\<lambda>r. tw_request_id r = i) (tb_traces db) of
      None \<Rightarrow> Inl StorageNotFound
    | Some r \<Rightarrow> Inr ((scan_trace r)\<lparr>rt_attempts := sqlite_attempts i db\<rparr>))"

definition sqlite_trace_prune :: "instant \<Rightarrow> tables \<Rightarrow> int \<times> tables" where
  "sqlite_trace_prune before db =
     (let old = filter (\<lambda>r. tw_created r < unix before) (tb_traces db)
      in (int (length old), db\<lparr>tb_traces := filter (\<lambda>r. \<not> tw_created r < unix before) (tb_traces db),
           tb_attempts := filter (\<lambda>a. aw_request_id a \<notin> tw_request_id ` set old) (tb_attempts db)\<rparr>))"

section \<open>Retention\<close>

text \<open>The sweeps that succeed, at the instants \<open>nows\<close>: one at once, then one per tick. A retention of zero
  prunes nothing; a sweep that fails or times out leaves everything for the next.\<close>

definition prune_every :: "(instant \<Rightarrow> 'd \<Rightarrow> int \<times> 'd) \<Rightarrow> duration \<Rightarrow> instant list \<Rightarrow> 'd \<Rightarrow> 'd" where
  "prune_every remove retention nows d =
     (if retention \<le> 0 then d else fold (\<lambda>now d. snd (remove (now - retention) d)) nows d)"

end
