(* ===== verification/Sqlite_Facts.thy ===== *)
theory Sqlite_Facts
  imports Sqlite_Tables Admin_Views
begin

text \<open>
  What the SQLite tables promise: aggregates that are those of the in-memory log over the rows
  read back, traces that come back as they were recorded, and migrations that resume.
\<close>

section \<open>Aggregates\<close>

lemma from_unix_mono [simp]: "from_unix a \<le> from_unix b \<longleftrightarrow> a \<le> b" "from_unix a < from_unix b \<longleftrightarrow> a < b"
  by (simp_all add: from_unix_def second_def)

lemma from_unix_nonneg: "0 \<le> k \<Longrightarrow> 0 \<le> from_unix k"
  by (simp add: from_unix_def unix_epoch_def second_def millisecond_def)

lemma scan_since: "since_filter (from_unix (unix since)) (map scan_usage_event rows) = map scan_usage_event (rows_since since rows)"
  by (induction rows) (simp_all add: since_filter_def rows_since_def scan_usage_event_def not_less)

lemma columns_read [simp]:
  "map (\<lambda>e. ue_prompt e) (map scan_usage_event rs) = map uw_prompt rs"
  "ue_prompt (scan_usage_event r) = uw_prompt r" "ue_completion (scan_usage_event r) = uw_completion r"
  "ue_cached (scan_usage_event r) = uw_cached r" "ue_cost (scan_usage_event r) = uw_cost r"
  "ue_status (scan_usage_event r) = uw_status r" "ue_alias (scan_usage_event r) = uw_alias r"
  "ue_key_id (scan_usage_event r) = uw_key_id r" "ue_created_at (scan_usage_event r) = from_unix (uw_created r)"
  by (simp_all add: scan_usage_event_def)

lemma totals_of_rows:
  "fold totals_add (map scan_usage_event rs) t = \<lparr>ut_requests = ut_requests t + int (length rs),
     ut_errors = ut_errors t + sum_column (\<lambda>r. if uw_status r \<noteq> ''ok'' then 1 else 0) rs,
     ut_prompt = ut_prompt t + sum_column uw_prompt rs, ut_completion = ut_completion t + sum_column uw_completion rs,
     ut_cached = ut_cached t + sum_column uw_cached rs, ut_cost = ut_cost t + sum_column uw_cost rs\<rparr>"
  by (induction rs arbitrary: t) (simp_all add: totals_add_def sum_column_def)

lemma totals_agree:
  "sqlite_usage_totals since rows = usage_totals_since (from_unix (unix since)) (map scan_usage_event rows)"
  by (simp add: usage_totals_since_def totals_fold scan_since totals_of_rows zero_totals_def sqlite_usage_totals_def Let_def)

lemma spend_agrees:
  "sqlite_key_spend key since rows = usage_key_spend key (from_unix (unix since)) (map scan_usage_event rows)"
  by (simp add: key_spend_sum scan_since sqlite_key_spend_def sum_column_def filter_map comp_def)

lemma group_of_rows:
  "fold group_add (map scan_usage_event rs) g = g\<lparr>ug_requests := ug_requests g + int (length rs),
     ug_prompt := ug_prompt g + sum_column uw_prompt rs, ug_completion := ug_completion g + sum_column uw_completion rs,
     ug_cached := ug_cached g + sum_column uw_cached rs, ug_cost := ug_cost g + sum_column uw_cost rs,
     ug_last_used := fold max (map (\<lambda>r. from_unix (uw_created r)) rs) (ug_last_used g)\<rparr>"
  by (induction rs arbitrary: g) (simp_all add: group_add_def sum_column_def max_def)

lemma last_used_of_rows:
  assumes "rs \<noteq> []" and "\<forall>r \<in> set rs. 0 \<le> uw_created r"
  shows "fold max (map (\<lambda>r. from_unix (uw_created r)) rs) 0 = last_of rs"
proof -
  let ?ts = "set (map (\<lambda>r. from_unix (uw_created r)) rs)"
  have "fold max (map (\<lambda>r. from_unix (uw_created r)) rs) 0 = Max (insert 0 ?ts)"
    by (metis Max.set_eq_fold list.simps(15))
  also have "\<dots> = Max ?ts"
  proof (rule Max_eqI)
    have "Max ?ts \<in> ?ts" using assms(1) by (intro Max_in) auto
    then show "Max ?ts \<in> insert 0 ?ts" by simp
    show "y \<le> Max ?ts" if "y \<in> insert 0 ?ts" for y
    proof (cases "y = 0")
      case True
      obtain r where "r \<in> set rs" using assms(1) by (cases rs) auto
      then have "0 \<le> from_unix (uw_created r)" using assms(2) by (simp add: from_unix_nonneg)
      moreover have "from_unix (uw_created r) \<le> Max ?ts" using \<open>r \<in> set rs\<close> by (intro Max_ge) auto
      ultimately show ?thesis using True by simp
    qed (use that in simp)
  qed simp
  also have "\<dots> = last_of rs"
  proof -
    have "mono from_unix" by (simp add: mono_def)
    from mono_Max_commute [OF this, of "set (map uw_created rs)"] show ?thesis
      using assms(1) by (simp add: last_of_def image_image comp_def)
  qed
  finally show ?thesis .
qed

text \<open>What the in-memory grouping holds under an index.\<close>

lemma group_lookup:
  "map_of (group_events index (\<lambda>e. lab (index e)) es) k =
     (if filter (\<lambda>e. index e = k) es = [] then None
      else Some (fold group_add (filter (\<lambda>e. index e = k) es) (zero_group (lab k))))"
  by (induction es rule: rev_induct) (simp add: group_events_def, auto simp: group_events_snoc)

lemma groups_vals:
  fixes index :: "usage_event \<Rightarrow> 'i :: linorder"
  shows "mset (map_vals (group_events index (\<lambda>e. lab (index e)) es)) =
    mset (map (\<lambda>k. fold group_add (filter (\<lambda>e. index e = k) es) (zero_group (lab k))) (sort (remdups (map index es))))"
proof -
  let ?m = "group_events index (\<lambda>e. lab (index e)) es"
  have wf: "map_wf ?m" by (rule group_events_wf)
  have keys: "set (map fst ?m) = set (map index es)"
  proof -
    have "k \<in> set (map fst ?m) \<longleftrightarrow> map_of ?m k \<noteq> None" for k by (metis map_of_eq_None_iff set_map)
    then have "k \<in> set (map fst ?m) \<longleftrightarrow> k \<in> set (map index es)" for k
      by (simp only: group_lookup) (auto simp: filter_empty_conv)
    then show ?thesis by blast
  qed
  have "mset (map snd ?m) = mset (map (\<lambda>k. the (map_of ?m k)) (map fst ?m))"
  proof -
    have same: "map snd ?m = map (\<lambda>k. the (map_of ?m k)) (map fst ?m)"
      using map_of_in_wf [OF wf] by (auto simp: comp_def)
    show ?thesis by (simp only: same)
  qed
  also have "\<dots> = mset (map (\<lambda>k. the (map_of ?m k)) (sort (remdups (map index es))))"
  proof -
    have "mset (map fst ?m) = mset (sort (remdups (map index es)))"
      using wf keys by (intro set_eq_iff_mset_eq_distinct [THEN iffD1]) (auto simp: map_wf_def)
    then show ?thesis by (metis mset_map)
  qed
  also have "map (\<lambda>k. the (map_of ?m k)) (sort (remdups (map index es))) =
      map (\<lambda>k. fold group_add (filter (\<lambda>e. index e = k) es) (zero_group (lab k))) (sort (remdups (map index es)))"
    by (rule map_cong) (auto simp: group_lookup filter_empty_conv)
  finally show ?thesis by simp
qed

lemma sql_group_agrees:
  assumes "rs \<noteq> []" and "\<forall>r \<in> set rs. 0 \<le> uw_created r"
  shows "fold group_add (map scan_usage_event rs) (zero_group k) = sql_group k (last_of rs) rs"
  using last_used_of_rows [OF assms] by (simp add: group_of_rows sql_group_def zero_group_def)

lemma filter_scan: "filter (\<lambda>e. index e = k) (map scan_usage_event rows) =
    map scan_usage_event (filter (\<lambda>r. index (scan_usage_event r) = k) rows)"
  by (simp add: filter_map comp_def)

lemma sql_groups_agree:
  fixes index :: "usage_event \<Rightarrow> 'k :: linorder"
  assumes "\<And>r. index (scan_usage_event r) = c r" and "\<forall>r \<in> set rows. 0 \<le> uw_created r"
  shows "mset (map (\<lambda>(k, rs). sql_group k (last_of rs) rs) (sql_groups c rows)) =
    mset (map_vals (group_events index index (map scan_usage_event rows)))"
proof -
  have "map (\<lambda>(k, rs). sql_group k (last_of rs) rs) (sql_groups c rows) =
      map (\<lambda>k. fold group_add (filter (\<lambda>e. index e = k) (map scan_usage_event rows)) (zero_group k))
        (sort (remdups (map index (map scan_usage_event rows))))"
    unfolding sql_groups_def map_map filter_scan assms(1) comp_def prod.case
    by (rule map_cong [OF refl], rule sql_group_agrees [symmetric]) (use assms(2) in \<open>auto simp: filter_empty_conv\<close>)
  then show ?thesis using groups_vals [of index "\<lambda>k. k" "map scan_usage_event rows"] by (simp only:)
qed

lemma by_key_agrees:
  assumes "\<forall>r \<in> set rows. 0 \<le> uw_created r"
  shows "mset (sqlite_usage_by_key since rows) = mset (usage_by_key (from_unix (unix since)) (map scan_usage_event rows))"
proof -
  have "\<forall>r \<in> set (rows_since since rows). 0 \<le> uw_created r" using assms by (simp add: rows_since_def)
  from sql_groups_agree [OF _ this, of ue_key_id uw_key_id] show ?thesis
    by (simp only: sqlite_usage_by_key_def usage_by_key_def mset_sort scan_since columns_read refl)
qed

lemma by_model_agrees:
  assumes "\<forall>r \<in> set rows. 0 \<le> uw_created r"
  shows "mset (sqlite_usage_by_model rows) = mset (usage_by_model (map scan_usage_event rows))"
  using sql_groups_agree [OF _ assms, of ue_alias uw_alias]
  by (simp only: sqlite_usage_by_model_def usage_by_model_def mset_sort columns_read refl)

section \<open>The series\<close>

lemma truncate_read:
  assumes "0 < b" and "b dvd unix_epoch" and "0 \<le> k"
  shows "truncate_time (from_unix k) (b * second) = from_unix (sql_div k b * b)"
proof -
  have "(k + unix_epoch) mod b = k mod b" using assms(2) by (metis add.commute dvd_imp_mod_0 mod_add_left_eq add_0)
  then have "(k + unix_epoch) * second mod (b * second) = (k mod b) * second" by (simp add: mod_mult_mult2)
  moreover have "second * k = second * (k mod b) + second * (b * (k div b))" by (simp flip: distrib_left)
  ultimately show ?thesis using assms(3)
    by (simp add: truncate_time_def from_unix_def sql_div_def algebra_simps)
qed

lemma series_agrees:
  assumes "0 < b" and "b dvd unix_epoch" and "\<forall>r \<in> set rows. 0 \<le> uw_created r"
  shows "sqlite_usage_series since (b * second) rows =
    map (\<lambda>g. g\<lparr>ug_last_used := 0\<rparr>) (usage_series (from_unix (unix since)) (b * second) (map scan_usage_event rows))"
proof -
  let ?rs = "rows_since since rows" and ?c = "\<lambda>r. sql_div (uw_created r) b * b"
  let ?idx = "\<lambda>e. truncate_time (ue_created_at e) (b * second) div second" and ?lab = "\<lambda>i. i * second"
  let ?es = "map scan_usage_event ?rs" and ?ks = "sort (remdups (map ?c ?rs))"
  let ?H = "\<lambda>i. fold group_add (filter (\<lambda>e. ?idx e = i) ?es) (zero_group (?lab i))"
  have bucket: "\<not> b * second \<le> 0" using assms(1) by (simp add: not_le)
  have pos: "\<forall>r \<in> set ?rs. 0 \<le> uw_created r" using assms(3) by (simp add: rows_since_def)
  have idx: "?idx (scan_usage_event r) = ?c r + unix_epoch" if "r \<in> set ?rs" for r
    using truncate_read [OF assms(1,2), of "uw_created r"] pos that less_imp_neq [OF duration_pos(2)] by (simp add: from_unix_def)
  have keys: "sort (remdups (map ?idx ?es)) = map (\<lambda>k. k + unix_epoch) ?ks"
  proof (rule sorted_distinct_set_unique)
    show "sorted (map (\<lambda>k. k + unix_epoch) ?ks)" by (simp add: sorted_map)
    show "distinct (map (\<lambda>k. k + unix_epoch) ?ks)" by (simp add: distinct_map inj_on_def)
    show "set (sort (remdups (map ?idx ?es))) = set (map (\<lambda>k. k + unix_epoch) ?ks)"
      using idx by (auto simp: image_image)
  qed simp_all
  have lab: "(\<lambda>e. truncate_time (ue_created_at e) (b * second)) = (\<lambda>e. ?lab (?idx e))"
  proof
    fix e
    have "b * second dvd truncate_time (ue_created_at e) (b * second)" by (simp add: truncate_time_def minus_mod_eq_mult_div)
    then have "second dvd truncate_time (ue_created_at e) (b * second)" by (rule dvd_mult_right)
    then show "truncate_time (ue_created_at e) (b * second) = ?lab (?idx e)" by simp
  qed
  have key: "ug_key (?H i) = i * second" for i by (simp add: fold_group_add_cost zero_group_def)
  have "sort_key ug_key (map_vals (group_events ?idx (\<lambda>e. ?lab (?idx e)) ?es)) = map ?H (sort (remdups (map ?idx ?es)))"
  proof (rule sort_key_inj_key_eq)
    show m: "mset (map_vals (group_events ?idx (\<lambda>e. ?lab (?idx e)) ?es)) = mset (map ?H (sort (remdups (map ?idx ?es))))"
      by (rule groups_vals)
    show "inj_on ug_key (set (map_vals (group_events ?idx (\<lambda>e. ?lab (?idx e)) ?es)))"
      unfolding mset_eq_setD [OF m] by (auto simp: inj_on_def key)
    show "sorted (map ug_key (map ?H (sort (remdups (map ?idx ?es)))))"
      unfolding map_map comp_def key by (simp add: sorted_map sorted_wrt_map)
  qed
  then have "usage_series (from_unix (unix since)) (b * second) (map scan_usage_event rows) = map (\<lambda>k. ?H (k + unix_epoch)) ?ks"
    using bucket unfolding usage_series_def scan_since lab keys by (simp add: comp_def)
  moreover have "(?H (k + unix_epoch))\<lparr>ug_last_used := 0\<rparr> = sql_group (from_unix k) 0 (filter (\<lambda>r. ?c r = k) ?rs)" for k
  proof -
    have "filter (\<lambda>e. ?idx e = k + unix_epoch) ?es = map scan_usage_event (filter (\<lambda>r. ?c r = k) ?rs)"
      unfolding filter_scan by (intro arg_cong [where f = "map scan_usage_event"] filter_cong refl) (use idx in simp)
    then show ?thesis by (simp add: group_of_rows sql_group_def zero_group_def from_unix_def)
  qed
  ultimately show ?thesis using assms(1) less_imp_neq [OF duration_pos(2)]
    by (simp add: sqlite_usage_series_def sql_groups_def comp_def)
qed


definition example_usage_rows :: "usage_row list" where
  "example_usage_rows = map (usage_row_of 1) [example_event ''k'' (from_unix 100) 2, example_event ''j'' (from_unix 90) 5]"


section \<open>The chart of the summary\<close>

lemma find_map: "List.find P (map f xs) = map_option f (List.find (\<lambda>x. P (f x)) xs)"
  by (induction xs) simp_all

lemma filled_without_use:
  "filled_series (map (\<lambda>g. g\<lparr>ug_last_used := 0\<rparr>) gs) ts = map (\<lambda>(t, g). (t, g\<lparr>ug_last_used := 0\<rparr>)) (filled_series gs ts)"
  by (auto simp: filled_series_def rev_map find_map zero_group_def split: option.split)

lemma truncated_multiple: "b dvd t \<Longrightarrow> x \<in> set (bucket_starts b now t) \<Longrightarrow> b dvd x"
proof (induction b now t rule: bucket_starts.induct)
  case (1 b now t)
  then show ?case by (cases "b \<le> 0 \<or> t > now") (auto simp: bucket_starts.simps [of b now t])
qed

text \<open>
  C29. Composition. The summary's chart over the SQLite log: its buckets count from 1970 and the chart's points
  from the zero time. Where the width divides the distance between the two, as for the windows of a
  day and of thirty days, the chart is that of the in-memory log; for every other width no bucket
  meets a point, and the chart shows no usage at all, whatever was recorded.
\<close>

theorem sqlite_chart_all_or_nothing:
  assumes "0 < b" and "\<forall>r \<in> set rows. 0 \<le> uw_created r"
  shows "let ts = bucket_starts (b * second) now (truncate_time since (b * second));
      chart = filled_series (sqlite_usage_series since (b * second) rows) ts
    in if b dvd unix_epoch
       then chart = map (\<lambda>(t, g). (t, g\<lparr>ug_last_used := 0\<rparr>))
         (filled_series (usage_series (from_unix (unix since)) (b * second) (map scan_usage_event rows)) ts)
       else chart = map (\<lambda>t. (t, zero_group 0)) ts"
proof (cases "b dvd unix_epoch")
  case True
  then show ?thesis by (simp add: series_agrees [OF assms(1) True assms(2)] filled_without_use)
next
  case False
  let ?ts = "bucket_starts (b * second) now (truncate_time since (b * second))"
  have nonzero: "second \<noteq> 0" using less_imp_neq [OF duration_pos(2)] by simp
  have point: "b dvd t div second" if "t \<in> set ?ts" for t
  proof -
    have "b * second dvd truncate_time since (b * second)" by (simp add: truncate_time_def minus_mod_eq_mult_div)
    from truncated_multiple [OF this that] show ?thesis using nonzero by (auto elim: dvdE)
  qed
  have bucket: "\<exists>x. ug_key g div second = x * b + unix_epoch" if "g \<in> set (sqlite_usage_series since (b * second) rows)" for g
    using that assms(1) nonzero
    by (auto simp: sqlite_usage_series_def sql_groups_def sql_group_def from_unix_def Let_def split: if_splits)
  have "List.find (\<lambda>g. ug_key g div second = t div second) (rev (sqlite_usage_series since (b * second) rows)) = None"
    if t: "t \<in> set ?ts" for t
  proof -
    have "ug_key g div second \<noteq> t div second" if g: "g \<in> set (sqlite_usage_series since (b * second) rows)" for g
    proof
      assume "ug_key g div second = t div second"
      with bucket [OF g] obtain x where "x * b + unix_epoch = t div second" by metis
      then have "b dvd x * b + unix_epoch" using point [OF t] by simp
      with False show False by (simp add: dvd_add_right_iff)
    qed
    then show ?thesis by (auto simp: find_None_iff)
  qed
  with False show ?thesis by (simp add: filled_series_def Let_def cong: map_cong)
qed

text \<open>The window of a week: one request in the bucket of the window's third point, and a flat chart.\<close>

theorem sqlite_chart_all_or_nothing_witness:
  "filled_series (sqlite_usage_series 0 (168 * 60 * second) [usage_row_of 1 (example_event ''k'' (from_unix 20160) 2)]) 
      (bucket_starts (168 * 60 * second) (from_unix 40000) (truncate_time 0 (168 * 60 * second)))
   = map (\<lambda>t. (t, zero_group 0)) (bucket_starts (168 * 60 * second) (from_unix 40000) (truncate_time 0 (168 * 60 * second)))"
proof -
  have "unix (from_unix k) = k" for k
    using less_imp_neq [OF duration_pos(2)] by (simp add: unix_def from_unix_def)
  then have rows: "\<forall>r \<in> set [usage_row_of 1 (example_event ''k'' (from_unix 20160) 2)]. 0 \<le> uw_created r"
    by (simp add: usage_row_of_def example_event_def)
  have "\<not> (168 * 60 :: int) dvd unix_epoch" unfolding unix_epoch_def by (simp add: dvd_eq_mod_eq_0)
  then show ?thesis using sqlite_chart_all_or_nothing [of "168 * 60" _ "from_unix 40000" 0, OF _ rows] by (simp add: Let_def)
qed

lemma aligned_windows: "(24 * 60) dvd unix_epoch \<and> (720 * 60) dvd unix_epoch \<and> \<not> (168 * 60) dvd unix_epoch"
  unfolding unix_epoch_def by (simp add: dvd_eq_mod_eq_0)

section \<open>Traces\<close>

text \<open>What the columns keep of a trace: seconds, milliseconds and the head of an error.\<close>

definition kept_attempt :: "request_attempt \<Rightarrow> request_attempt" where
  "kept_attempt a = a\<lparr>ra_started_at := ra_started_at a - ra_started_at a mod second,
     ra_latency := wrap64 (duration_ms (ra_latency a) * millisecond), ra_error := truncate_error (ra_error a)\<rparr>"

definition kept_trace :: "request_trace \<Rightarrow> request_trace" where
  "kept_trace t = t\<lparr>rt_created_at := rt_created_at t - rt_created_at t mod second, rt_dialect := dialect_or_default (rt_dialect t),
     rt_total_latency := wrap64 (duration_ms (rt_total_latency t) * millisecond),
     rt_attempts := map kept_attempt (sort_key ra_seq (rt_attempts t)), rt_attempt_count := int (length (rt_attempts t))\<rparr>"

lemma insert_attempts_some:
  "insert_attempts i as rows = (if distinct (map ra_seq as) \<and>
       (\<forall>a \<in> set as. \<forall>r \<in> set rows. \<not> (aw_request_id r = i \<and> aw_seq r = ra_seq a))
     then Some (rows @ map (attempt_entry_of i) as) else None)"
  by (induction as arbitrary: rows) (auto simp: attempt_entry_of_def)

lemma find_upsert:
  "List.find (\<lambda>u. tw_request_id u = i) (upsert_trace r rows) =
     (if i = tw_request_id r then Some r else List.find (\<lambda>u. tw_request_id u = i) rows)"
proof -
  have "List.find (\<lambda>u. tw_request_id u = i) (map (\<lambda>u. if tw_request_id u = tw_request_id r then r else u) rows) =
      (if i = tw_request_id r then (if \<exists>u \<in> set rows. tw_request_id u = i then Some r else None)
       else List.find (\<lambda>u. tw_request_id u = i) rows)"
    by (induction rows) auto
  moreover have "List.find (\<lambda>u. tw_request_id u = tw_request_id r) rows = None"
    if "\<not> (\<exists>u \<in> set rows. tw_request_id u = tw_request_id r)"
    using that by (auto simp: find_None_iff)
  ultimately show ?thesis
    by (cases "\<exists>u \<in> set rows. tw_request_id u = tw_request_id r")
      (simp_all add: upsert_trace_def find_append split: option.split)
qed

text \<open>
  C37. Round trip. A trace that is recorded comes back from \<open>sqlite_trace_get\<close> as it was, with its attempts in
  order, up to what the columns keep of it; every other trace is untouched, also where it replaces an
  earlier one of the same request. Only a trace whose attempts repeat a sequence number is refused, and
  then nothing has changed.
\<close>

theorem trace_comes_back:
  "case sqlite_trace_record t tb of
     (True, tb') \<Rightarrow> sqlite_trace_get (rt_request_id t) tb' = Inr (kept_trace t)
       \<and> (\<forall>i. i \<noteq> rt_request_id t \<longrightarrow> sqlite_trace_get i tb' = sqlite_trace_get i tb)
   | (False, tb') \<Rightarrow> tb' = tb \<and> \<not> distinct (map ra_seq (rt_attempts t))"
proof (cases "distinct (map ra_seq (rt_attempts t))")
  case False
  then show ?thesis by (simp add: sqlite_trace_record_def insert_attempts_some Let_def)
next
  case True
  let ?i = "rt_request_id t"
  define rest where "rest = filter (\<lambda>r. aw_request_id r \<noteq> ?i) (tb_attempts tb)"
  define rows where "rows = rest @ map (attempt_entry_of ?i) (rt_attempts t)"
  have "insert_attempts ?i (rt_attempts t) rest = Some rows"
    using True by (auto simp: insert_attempts_some rest_def rows_def)
  then have rec: "sqlite_trace_record t tb =
      (True, tb\<lparr>tb_traces := upsert_trace (trace_entry_of t) (tb_traces tb), tb_attempts := rows\<rparr>)"
    by (simp add: sqlite_trace_record_def Let_def rest_def)
  have own: "filter (\<lambda>r. aw_request_id r = ?i) rows = map (attempt_entry_of ?i) (rt_attempts t)"
    by (simp add: rows_def rest_def filter_map comp_def attempt_entry_of_def)
  have others: "filter (\<lambda>r. aw_request_id r = i) rows = filter (\<lambda>r. aw_request_id r = i) (tb_attempts tb)" if "i \<noteq> ?i" for i
    using that by (auto simp: rows_def rest_def filter_map comp_def attempt_entry_of_def intro: filter_cong)
  have "map scan_attempt (sort_key aw_seq (map (attempt_entry_of ?i) (rt_attempts t))) =
      map kept_attempt (sort_key ra_seq (rt_attempts t))"
    by (simp add: sort_key_map comp_def attempt_entry_of_def scan_attempt_def kept_attempt_def unix_round_trip)
  then show ?thesis
    unfolding rec using others
    by (simp add: sqlite_trace_get_def find_upsert sqlite_attempts_def own trace_entry_of_def scan_trace_def kept_trace_def
        unix_round_trip split: option.split)
qed

definition refused_then_served :: request_trace where
  "refused_then_served = \<lparr>rt_request_id = ''r'', rt_created_at = (unix_epoch + 7) * second, rt_key_id = ''k'', rt_model = ''m'',
     rt_dialect = ''openai'', rt_streamed = False, rt_total_latency = 3 * millisecond, rt_total_tokens = 5, rt_total_cost = 1,
     rt_final_provider = ''q'', rt_final_alias = ''b'', rt_final_status = ''ok'',
     rt_attempts = [
       \<lparr>ra_seq = 2, ra_started_at = (unix_epoch + 8) * second, ra_alias = ''b'', ra_provider = ''q'', ra_model = ''y'',
         ra_latency = 2 * millisecond, ra_status = ''ok'', ra_retry = False, ra_fallback = True, ra_error = []\<rparr>,
       \<lparr>ra_seq = 1, ra_started_at = (unix_epoch + 7) * second, ra_alias = ''a'', ra_provider = ''p'', ra_model = ''x'',
         ra_latency = millisecond, ra_status = ''timeout'', ra_retry = False, ra_fallback = False, ra_error = ''late''\<rparr>],
     rt_attempt_count = 2\<rparr>"

theorem trace_comes_back_witness:
  "sqlite_trace_get ''r'' (snd (sqlite_trace_record refused_then_served opened_tables)) = Inr (kept_trace refused_then_served)
    \<and> map ra_provider (rt_attempts (kept_trace refused_then_served)) = [''p'', ''q'']"
proof
  have "distinct (map ra_seq (rt_attempts refused_then_served))" "rt_request_id refused_then_served = ''r''"
    by (simp_all add: refused_then_served_def)
  with trace_comes_back [of refused_then_served opened_tables]
  show "sqlite_trace_get ''r'' (snd (sqlite_trace_record refused_then_served opened_tables)) = Inr (kept_trace refused_then_served)"
    by (auto split: prod.splits bool.splits)
  show "map ra_provider (rt_attempts (kept_trace refused_then_served)) = [''p'', ''q'']"
    by (simp add: kept_trace_def kept_attempt_def refused_then_served_def)
qed

section \<open>The proxy table as a keyed store\<close>

text \<open>What the loader and the admin API rely on of the in-memory store holds of this one too.\<close>

lemma proxy_table:
  "sqlite_proxies_get n tb = mem_get n (tb_proxies tb)"
  "tb_proxies (sqlite_proxies_put p tb) = mem_put px_name p (tb_proxies tb)"
  "tb_proxies (snd (sqlite_proxies_delete n tb)) = snd (mem_delete n (tb_proxies tb))"
  "fst (sqlite_proxies_delete n tb) = fst (mem_delete n (tb_proxies tb))"
  "sqlite_proxies_list tb = mem_list px_name (tb_proxies tb)"
  by (simp_all add: sqlite_proxies_get_def mem_get_def sqlite_proxies_put_def mem_put_def sqlite_proxies_delete_def
      mem_delete_def sqlite_proxies_list_def mem_list_def split: option.split)

interpretation sqlite_proxies: kv_store px_name sqlite_proxies_get sqlite_proxies_put sqlite_proxies_delete
    sqlite_proxies_list "\<lambda>tb. keyed px_name (tb_proxies tb)"
proof -
  note laws = kv_store.inv_put [OF mem_store] kv_store.inv_del [OF mem_store] kv_store.get_put [OF mem_store]
    kv_store.get_del [OF mem_store] kv_store.list_get [OF mem_store] kv_store.list_sorted [OF mem_store]
    kv_store.list_distinct [OF mem_store]
  show "kv_store px_name sqlite_proxies_get sqlite_proxies_put sqlite_proxies_delete sqlite_proxies_list
      (\<lambda>tb. keyed px_name (tb_proxies tb))"
    by unfold_locales (simp_all only: proxy_table laws kv_store.del_result [OF mem_store])
qed

section \<open>Migrations\<close>

lemma migrate_entries_facts:
  assumes "migrate_entries f ns tb = (r, tb')"
  shows "\<exists>news. mg_applied tb' = mg_applied tb @ news \<and> subseq news ns
    \<and> (distinct ns \<longrightarrow> distinct (mg_applied tb) \<longrightarrow> distinct (mg_applied tb'))
    \<and> (r = None \<longrightarrow> set ns \<subseteq> set (mg_applied tb'))
    \<and> (\<forall>n. r = Some n \<longrightarrow> (\<exists>as bs. ns = as @ n # bs \<and> set as \<subseteq> set (mg_applied tb') \<and> n \<notin> set (mg_applied tb')
          \<and> f n (mg_data tb') = None))"
  using assms
proof (induction ns arbitrary: tb)
  case Nil
  then show ?case by simp
next
  case (Cons m ns)
  show ?case
  proof (cases "m \<in> set (mg_applied tb)")
    case True
    with Cons.prems have "migrate_entries f ns tb = (r, tb')" by simp
    from Cons.IH [OF this] obtain news where news: "mg_applied tb' = mg_applied tb @ news" "subseq news ns"
      "distinct ns \<longrightarrow> distinct (mg_applied tb) \<longrightarrow> distinct (mg_applied tb')"
      "r = None \<longrightarrow> set ns \<subseteq> set (mg_applied tb')"
      "\<forall>n. r = Some n \<longrightarrow> (\<exists>as bs. ns = as @ n # bs \<and> set as \<subseteq> set (mg_applied tb') \<and> n \<notin> set (mg_applied tb')
          \<and> f n (mg_data tb') = None)"
      by blast
    have "\<exists>as bs. m # ns = as @ n # bs \<and> set as \<subseteq> set (mg_applied tb') \<and> n \<notin> set (mg_applied tb') \<and> f n (mg_data tb') = None"
      if "r = Some n" for n
    proof -
      obtain as bs where "ns = as @ n # bs" "set as \<subseteq> set (mg_applied tb')" "n \<notin> set (mg_applied tb')" "f n (mg_data tb') = None"
        using news(5) \<open>r = Some n\<close> by blast
      then show ?thesis using True news(1) by (intro exI [of _ "m # as"] exI [of _ bs]) auto
    qed
    then show ?thesis using news(1-4) True by (intro exI [of _ news]) auto
  next
    case False
    show ?thesis
    proof (cases "f m (mg_data tb)")
      case None
      with False Cons.prems have "r = Some m" "tb' = tb" by (simp_all add: apply_migration_def)
      then show ?thesis using False None by (intro exI [of _ "[]"]) (auto intro: exI [of _ "[]"])
    next
      case (Some d)
      let ?tb = "\<lparr>mg_data = d, mg_applied = mg_applied tb @ [m]\<rparr>"
      from Some False Cons.prems have "migrate_entries f ns ?tb = (r, tb')" by (simp add: apply_migration_def)
      from Cons.IH [OF this] obtain news where news: "mg_applied tb' = mg_applied ?tb @ news" "subseq news ns"
        "distinct ns \<longrightarrow> distinct (mg_applied ?tb) \<longrightarrow> distinct (mg_applied tb')"
        "r = None \<longrightarrow> set ns \<subseteq> set (mg_applied tb')"
        "\<forall>n. r = Some n \<longrightarrow> (\<exists>as bs. ns = as @ n # bs \<and> set as \<subseteq> set (mg_applied tb') \<and> n \<notin> set (mg_applied tb')
            \<and> f n (mg_data tb') = None)"
        by blast
      have "\<exists>as bs. m # ns = as @ n # bs \<and> set as \<subseteq> set (mg_applied tb') \<and> n \<notin> set (mg_applied tb') \<and> f n (mg_data tb') = None"
        if "r = Some n" for n
      proof -
        obtain as bs where "ns = as @ n # bs" "set as \<subseteq> set (mg_applied tb')" "n \<notin> set (mg_applied tb')" "f n (mg_data tb') = None"
          using news(5) \<open>r = Some n\<close> by blast
        then show ?thesis using news(1) by (intro exI [of _ "m # as"] exI [of _ bs]) auto
      qed
      then show ?thesis using news(1-4) False by (intro exI [of _ "m # news"]) auto
    qed
  qed
qed

lemma migrated_already: "set ns \<subseteq> set (mg_applied tb) \<Longrightarrow> migrate_entries g ns tb = (None, tb)"
  by (induction ns) simp_all

text \<open>
  Errors. Opening the database applies the migrations it lacks in order of their names, each once. When
  one fails, every earlier one is in place and recorded, and it is not, nor any later one; so the next start
  goes on with it, and after a success a start changes nothing.
\<close>

theorem migrations_resume:
  assumes "migrate f es tb = (r, tb')" and "distinct es" and "distinct (mg_applied tb)"
  shows "\<exists>news. mg_applied tb' = mg_applied tb @ news \<and> subseq news (sort es) \<and> distinct (mg_applied tb')
    \<and> (case r of
        None \<Rightarrow> set es \<subseteq> set (mg_applied tb') \<and> (\<forall>g. migrate g es tb' = (None, tb'))
      | Some n \<Rightarrow> n \<in> set es \<and> n \<notin> set (mg_applied tb') \<and> f n (mg_data tb') = None
          \<and> (\<forall>m \<in> set es. m < n \<longrightarrow> m \<in> set (mg_applied tb')))"
proof -
  obtain news where news: "mg_applied tb' = mg_applied tb @ news" "subseq news (sort es)" "distinct (mg_applied tb')"
    "r = None \<longrightarrow> set es \<subseteq> set (mg_applied tb')"
    and stop: "\<And>n. r = Some n \<Longrightarrow> \<exists>as bs. sort es = as @ n # bs \<and> set as \<subseteq> set (mg_applied tb')
      \<and> n \<notin> set (mg_applied tb') \<and> f n (mg_data tb') = None"
    using migrate_entries_facts [OF assms(1) [unfolded migrate_def]] assms(2,3) by auto
  have "n \<in> set es \<and> n \<notin> set (mg_applied tb') \<and> f n (mg_data tb') = None \<and> (\<forall>m \<in> set es. m < n \<longrightarrow> m \<in> set (mg_applied tb'))"
    if "r = Some n" for n
  proof -
    obtain as bs where s: "sort es = as @ n # bs" "set as \<subseteq> set (mg_applied tb')" "n \<notin> set (mg_applied tb')" "f n (mg_data tb') = None"
      using stop [OF \<open>r = Some n\<close>] by blast
    have "sorted (as @ n # bs)" using sorted_sort [of es] s(1) by simp
    then have "\<forall>m \<in> set bs. n \<le> m" by (simp add: sorted_append)
    moreover have "set es = set as \<union> {n} \<union> set bs" using arg_cong [OF s(1), of set] by simp
    ultimately show ?thesis using s(2-4) by (auto simp: not_le [symmetric])
  qed
  with news show ?thesis
    by (intro exI [of _ news]) (auto simp: migrate_def migrated_already split: option.split)
qed

definition example_migration :: "string \<Rightarrow> nat \<Rightarrow> nat option" where
  "example_migration n d = (if n = ''b'' then None else Some (d + 1))"

theorem migrations_resume_witness:
  "''a'' \<in> set (mg_applied (snd (migrate example_migration [''c'', ''b'', ''a''] \<lparr>mg_data = 0, mg_applied = []\<rparr>)))
   \<and> ''c'' \<notin> set (mg_applied (snd (migrate example_migration [''c'', ''b'', ''a''] \<lparr>mg_data = 0, mg_applied = []\<rparr>)))"
proof -
  have run: "migrate example_migration [''c'', ''b'', ''a''] \<lparr>mg_data = 0, mg_applied = []\<rparr> =
      (Some ''b'', \<lparr>mg_data = 1, mg_applied = [''a'']\<rparr>)"
    by code_simp
  have "\<forall>m \<in> {''c'', ''b'', ''a''}. m < ''b'' \<longrightarrow> m \<in> set [''a'']"
    using migrations_resume [OF run] by auto
  then show ?thesis unfolding run by auto
qed

end
