(* ===== verification/Command_Line.thy ===== *)
theory Command_Line
  imports Config Sqlite_Tables Go_Time
begin

text \<open>
  The command line (\<^verbatim>\<open>cmd/server/main.go\<close>): flags as Go's \<^verbatim>\<open>flag\<close> package reads them, the choice of
  the command, and the commands that manage keys and list the routing table in the SQLite store.
  What goes through a \<^verbatim>\<open>tabwriter\<close> is the text before its columns are aligned. The clock and random
  bytes are arguments, and so is whether the database opens.
\<close>

section \<open>Flags\<close>

datatype flag_error =
    BadSyntax string
  | UndefinedFlag string
  | MissingArgument string
  | HelpRequested

fun flag_error_text :: "flag_error \<Rightarrow> string" where
  "flag_error_text (BadSyntax s) = ''bad flag syntax: '' @ s"
| "flag_error_text (UndefinedFlag n) = ''flag provided but not defined: -'' @ n"
| "flag_error_text (MissingArgument n) = ''flag needs an argument: -'' @ n"
| "flag_error_text HelpRequested = ''flag: help requested''"

text \<open>A flag's name and, after an equals sign that is not its first character, its value.\<close>

definition flag_parts :: "string \<Rightarrow> string \<times> string option" where
  "flag_parts name = (let rest = dropWhile (\<lambda>c. c \<noteq> CHR ''='') name
     in (takeWhile (\<lambda>c. c \<noteq> CHR ''='') name, if rest = [] then None else Some (tl rest)))"

text \<open>
  \<^verbatim>\<open>FlagSet.Parse\<close> for flags that all take a string: their values, and the arguments after the
  last flag. The first argument that is no flag ends them, as \<^verbatim>\<open>--\<close> does.
\<close>

fun parse_flags ::
    "(string, string) gomap \<Rightarrow> string list \<Rightarrow> flag_error + (string, string) gomap \<times> string list"
where
  "parse_flags vals [] = Inr (vals, [])"
| "parse_flags vals (s # args) =
     (if length s < 2 \<or> hd s \<noteq> CHR ''-'' then Inr (vals, s # args)
      else if s = ''--'' then Inr (vals, args)
      else let body = drop (if s ! 1 = CHR ''-'' then 2 else 1) s; (name, given) = flag_parts body in
        if hd body = CHR ''-'' \<or> hd body = CHR ''='' then Inl (BadSyntax s)
        else if map_of vals name = None
          then Inl (if name = ''help'' \<or> name = ''h'' then HelpRequested else UndefinedFlag name)
        else (case given of
            Some v \<Rightarrow> parse_flags (map_put name v vals) args
          | None \<Rightarrow> (case args of
              [] \<Rightarrow> Inl (MissingArgument name)
            | v # args' \<Rightarrow> parse_flags (map_put name v vals) args')))"

definition flag_value :: "(string, string) gomap \<Rightarrow> string \<Rightarrow> string" where
  "flag_value vals name = (case map_of vals name of None \<Rightarrow> [] | Some v \<Rightarrow> v)"

section \<open>Errors and output\<close>

datatype cli_error =
    FlagError flag_error
  | ConfigError config_error
  | OpenError string
  | UnknownCommand string
  | KeysUsage
  | NameRequired
  | NoEntropy
  | CreateRefused
  | RevokeUsage
  | KeyMissing
  | UnknownKeysCommand string

text \<open>The texts of \<open>NoEntropy\<close> and \<open>CreateRefused\<close> go on with what the reader or the driver said.\<close>

fun cli_error_text :: "cli_error \<Rightarrow> string" where
  "cli_error_text (FlagError e) = flag_error_text e"
| "cli_error_text (ConfigError e) = config_error_text e"
| "cli_error_text (OpenError e) = e"
| "cli_error_text (UnknownCommand c) = ''unknown command '' @ go_quote c"
| "cli_error_text KeysUsage = ''usage: keys create --name <name> | keys list | keys revoke <id>''"
| "cli_error_text NameRequired = ''keys create: --name is required''"
| "cli_error_text NoEntropy = ''auth: generate key: ''"
| "cli_error_text CreateRefused = ''storage: create api key: ''"
| "cli_error_text RevokeUsage = ''usage: keys revoke <id>''"
| "cli_error_text KeyMissing = ''storage: not found''"
| "cli_error_text (UnknownKeysCommand c) = ''unknown keys subcommand '' @ go_quote c"

datatype printed =
    Plain string
  | Tabular string

abbreviation tab_char :: char where "tab_char \<equiv> CHR 0x09"
abbreviation line_feed :: char where "line_feed \<equiv> CHR 0x0A"

definition tab_line :: "string list \<Rightarrow> string" where
  "tab_line cells = join cells [tab_char] @ [line_feed]"

text \<open>The arrow between aliases, as UTF-8.\<close>

definition arrow :: string where
  "arrow = '' '' @ [CHR 0xE2, CHR 0x86, CHR 0x92] @ '' ''"

section \<open>Keys\<close>

definition key_line :: "api_key \<Rightarrow> string" where
  "key_line k = tab_line [ak_id k, ak_name k, if ak_enabled k then ''true'' else ''false'', rfc3339 (ak_created_at k),
     if ak_last_used_at k = 0 then ''never'' else rfc3339 (ak_last_used_at k)]"

definition created_text :: "string \<Rightarrow> string \<Rightarrow> string" where
  "created_text i secret = ''id:  '' @ i @ [line_feed] @ ''key: '' @ secret @ [line_feed, line_feed]
     @ ''Store this key now; it cannot be shown again.'' @ [line_feed]"

definition keys_create_command ::
    "'w entropy \<Rightarrow> instant \<Rightarrow> string list \<Rightarrow> 'w \<Rightarrow> sqlite \<Rightarrow> (cli_error + printed) \<times> sqlite"
where
  "keys_create_command rand now args w db = (case parse_flags [(''name'', [])] args of
      Inl e \<Rightarrow> (Inl (FlagError e), db)
    | Inr (vals, _) \<Rightarrow>
        (let n = flag_value vals ''name'' in
         if n = [] then (Inl NameRequired, db)
         else case fst (generate_key rand now n w) of
             None \<Rightarrow> (Inl NoEntropy, db)
           | Some (secret, rec) \<Rightarrow> (case sqlite_keys_create rec db of
               (False, db) \<Rightarrow> (Inl CreateRefused, db)
             | (True, db) \<Rightarrow> (Inr (Plain (created_text (ak_id rec) secret)), db))))"

definition keys_list_command :: "sqlite \<Rightarrow> printed" where
  "keys_list_command db = Tabular (tab_line [''ID'', ''NAME'', ''ENABLED'', ''CREATED'', ''LAST USED'']
     @ concat (map key_line (sqlite_keys_list db)))"

definition keys_revoke_command :: "string list \<Rightarrow> sqlite \<Rightarrow> (cli_error + printed) \<times> sqlite" where
  "keys_revoke_command args db = (case args of
      [] \<Rightarrow> (Inl RevokeUsage, db)
    | i # _ \<Rightarrow> (case sqlite_keys_delete i db of
        (Some _, db) \<Rightarrow> (Inl KeyMissing, db)
      | (None, db) \<Rightarrow> (Inr (Plain (''revoked '' @ i @ [line_feed])), db)))"

definition keys_command ::
    "'w entropy \<Rightarrow> instant \<Rightarrow> string option \<Rightarrow> string list \<Rightarrow> 'w \<Rightarrow> sqlite \<Rightarrow> (cli_error + printed) \<times> sqlite"
where
  "keys_command rand now open_error args w db = (case args of
      [] \<Rightarrow> (Inl KeysUsage, db)
    | sub # rest \<Rightarrow> (case open_error of
        Some e \<Rightarrow> (Inl (OpenError e), db)
      | None \<Rightarrow>
          if sub = ''create'' then keys_create_command rand now rest w db
          else if sub = ''list'' then (Inr (keys_list_command db), db)
          else if sub = ''revoke'' then keys_revoke_command rest db
          else (Inl (UnknownKeysCommand sub), db)))"

section \<open>The routing table\<close>

definition combo_weight :: "combo \<Rightarrow> nat \<Rightarrow> int" where
  "combo_weight c i = (if i < length (co_weights c) \<and> co_weights c ! i > 0 then co_weights c ! i else 1)"

definition combo_members :: "combo \<Rightarrow> string list" where
  "combo_members c =
     (if co_strategy c \<noteq> ComboWeighted then co_members c
      else map (\<lambda>(i, m). m @ '' ('' @ show_int (combo_weight c i) @ '')'') (enumerate 0 (co_members c)))"

definition alias_line :: "model_alias \<Rightarrow> string" where
  "alias_line m = tab_line [ma_alias m, ma_provider m, ma_model m,
     if ma_fallback m = [] then ''-'' else join (ma_fallback m) arrow]"

definition combo_line :: "combo \<Rightarrow> string" where
  "combo_line c = tab_line [co_name c, strategy_text (co_strategy c), if co_enabled c then ''true'' else ''false'',
     join (combo_members c) arrow]"

definition models_command :: "string option \<Rightarrow> sqlite \<Rightarrow> cli_error + printed" where
  "models_command open_error db = (case open_error of
      Some e \<Rightarrow> Inl (OpenError e)
    | None \<Rightarrow>
        (let combos = sqlite_combos_list db
         in Inr (Tabular (tab_line [''ALIAS'', ''PROVIDER'', ''MODEL'', ''FALLBACK'']
              @ concat (map alias_line (sqlite_models_list db))
              @ (if combos = [] then []
                 else tab_line [line_feed # ''COMBO'', ''STRATEGY'', ''ENABLED'', ''MEMBERS''] @ concat (map combo_line combos))))))"

section \<open>Commands\<close>

text \<open>What \<^verbatim>\<open>run\<close> decides to do before it touches the database.\<close>

datatype command =
    PrintVersion
  | RunServer config string
  | ReportValid string
  | ManageKeys config "string list"
  | ListModels config

definition run_flags :: "(string, string) gomap" where
  "run_flags = [(''config'', ''config.yaml''), (''log-level'', ''info'')]"

definition choose_command ::
    "(string \<Rightarrow> string + string) \<Rightarrow> (string \<Rightarrow> config \<Rightarrow> string + config) \<Rightarrow> string list \<Rightarrow> cli_error + command"
where
  "choose_command read_file unmarshal args = (case parse_flags run_flags args of
      Inl e \<Rightarrow> Inl (FlagError e)
    | Inr (vals, rest) \<Rightarrow>
        (let cmd = (if rest = [] then ''serve'' else hd rest); path = flag_value vals ''config''
         in if cmd = ''version'' then Inr PrintVersion
            else case load_config read_file unmarshal path of
                Inl e \<Rightarrow> Inl (ConfigError e)
              | Inr cfg \<Rightarrow>
                  if cmd = ''serve'' then Inr (RunServer cfg path)
                  else if cmd = ''validate'' then Inr (ReportValid path)
                  else if cmd = ''keys'' then Inr (ManageKeys cfg (drop 1 rest))
                  else if cmd = ''models'' then Inr (ListModels cfg)
                  else Inl (UnknownCommand cmd)))"

text \<open>What \<^verbatim>\<open>main\<close> leaves on the standard error stream, and its exit status.\<close>

definition exit_report :: "cli_error + 'a \<Rightarrow> string \<times> int" where
  "exit_report r = (case r of
      Inl e \<Rightarrow> (''zealish-router: '' @ cli_error_text e @ [line_feed], 1) | Inr _ \<Rightarrow> ([], 0))"

section \<open>The life of a key\<close>

lemma map_put_new: "map_of m k = None \<Longrightarrow> map_put k v m = m @ [(k, v)]"
  by (induction m) (auto split: if_splits)

lemma get_by_hash_inserted:
  assumes "sqlite_keys_create k db = (True, db')"
  shows "sqlite_keys_get_by_hash h db' =
      (if h = ak_hash k then Inr (scan_api_key (api_key_row_of k)) else sqlite_keys_get_by_hash h db)"
    and "sqlite_keys_get_by_hash (ak_hash k) db = Inl StorageNotFound"
    and "sqlite_keys_delete (ak_id k) db' = (None, db)"
proof -
  have new: "map_of (sq_keys db) (ak_id k) = None" "\<forall>r \<in> set (map_vals (sq_keys db)). kr_hash r \<noteq> ak_hash k"
    and db': "db' = db\<lparr>sq_keys := map_put (ak_id k) (api_key_row_of k) (sq_keys db)\<rparr>"
    using assms by (auto simp: sqlite_keys_create_def split: if_splits)
  have put: "map_put (ak_id k) (api_key_row_of k) (sq_keys db) = sq_keys db @ [(ak_id k, api_key_row_of k)]"
    using new(1) by (simp add: map_put_new)
  have hash: "kr_hash (api_key_row_of k) = ak_hash k" by (simp add: api_key_row_of_def)
  have none: "find (\<lambda>r. kr_hash r = ak_hash k) (map_vals (sq_keys db)) = None"
    using new(2) by (auto simp: find_None_iff)
  then show "sqlite_keys_get_by_hash (ak_hash k) db = Inl StorageNotFound"
    by (simp add: sqlite_keys_get_by_hash_def)
  show "sqlite_keys_get_by_hash h db' =
      (if h = ak_hash k then Inr (scan_api_key (api_key_row_of k)) else sqlite_keys_get_by_hash h db)"
    using none by (auto simp: sqlite_keys_get_by_hash_def db' put find_append hash split: option.split)
  have "map_del (ak_id k) (map_put (ak_id k) (api_key_row_of k) (sq_keys db)) = sq_keys db"
    using new(1) by (simp add: AList.delete_update_same map_of_eq_None_iff AList.delete_notin_dom)
  then show "sqlite_keys_delete (ak_id k) db' = (None, db)"
    by (simp add: sqlite_keys_delete_def db')
qed

lemma keys_created:
  assumes "keys_command rand now None (''create'' # args) w db = (Inr out, db')"
  obtains vals rest secret k w' where "parse_flags [(''name'', [])] args = Inr (vals, rest)"
    and "flag_value vals ''name'' \<noteq> []" and "generate_key rand now (flag_value vals ''name'') w = (Some (secret, k), w')"
    and "sqlite_keys_create k db = (True, db')" and "out = Plain (created_text (ak_id k) secret)"
  using assms
  by (cases "generate_key rand now (flag_value (fst (projr (parse_flags [(''name'', [])] args))) ''name'') w")
    (auto simp: keys_command_def keys_create_command_def Let_def split: sum.splits if_splits option.splits prod.splits bool.splits)

text \<open>Every command that fails leaves the store as it was.\<close>

lemma keys_errors_harmless:
  "keys_command rand now err args w db = (Inl e, db') \<Longrightarrow> db' = db"
  by (auto simp: keys_command_def keys_create_command_def keys_revoke_command_def sqlite_keys_create_def
      sqlite_keys_delete_def Let_def split: list.splits sum.splits if_splits option.splits prod.splits bool.splits)

text \<open>
  C24. Round trip. The key that \<^verbatim>\<open>keys create\<close> prints was unknown before, and admits whoever presents it as a
  bearer token from then on, to every model, as the identity it was created for; no other key is touched.
  \<^verbatim>\<open>keys revoke\<close> with the identifier printed beside it ends that and restores the store as it was.
\<close>

theorem printed_key_lives:
  assumes "fair_draws rand"
    and "keys_command rand now None (''create'' # args) w db = (Inr out, db')"
    and "parse_flags [(''name'', [])] args = Inr (vals, rest)" and "equal_fold scheme ''Bearer ''"
  shows "\<exists>i secret. out = Plain (created_text i secret)
    \<and> (\<forall>ks. key_hash secret \<notin> key_hash ` set ks \<longrightarrow>
        authenticate (new_service True ks (Some (\<lambda>h. sqlite_keys_get_by_hash h db))) (bearer_token (scheme @ secret))
          = (Inl ErrUnauthorized, None))
    \<and> (\<forall>ks. key_hash secret \<notin> key_hash ` set ks \<longrightarrow>
        authenticate (new_service True ks (Some (\<lambda>h. sqlite_keys_get_by_hash h db'))) (bearer_token (scheme @ secret))
          = (Inr \<lparr>id_key = i, id_name = flag_value vals ''name'', id_rate_limit = 0, id_budget = 0, id_allowed_models = []\<rparr>, Some i))
    \<and> (\<forall>h. h \<noteq> key_hash secret \<longrightarrow> sqlite_keys_get_by_hash h db' = sqlite_keys_get_by_hash h db)
    \<and> keys_command rand' later None [''revoke'', i] w' db' = (Inr (Plain (''revoked '' @ i @ [line_feed])), db)"
proof -
  obtain secret k w1 where gen: "generate_key rand now (flag_value vals ''name'') w = (Some (secret, k), w1)"
    and created: "sqlite_keys_create k db = (True, db')" and out: "out = Plain (created_text (ak_id k) secret)"
    using assms(3) by (auto intro: keys_created [OF assms(2)])
  note p = generate_key_props [OF assms(1) gen]
  have secret: "secret \<noteq> []" using p(1) by auto
  note tok = bearer_token_round_trip [OF secret p(3) assms(4)]
  have k: "key_identity (scan_api_key (api_key_row_of k)) =
      \<lparr>id_key = ak_id k, id_name = flag_value vals ''name'', id_rate_limit = 0, id_budget = 0, id_allowed_models = []\<rparr>"
    "ak_enabled (scan_api_key (api_key_row_of k))" "ak_id (scan_api_key (api_key_row_of k)) = ak_id k"
    using gen by (auto simp: generate_key_def Let_def scan_api_key_def api_key_row_of_def key_identity_def
        encode_fallback_def decode_fallback_def split: prod.splits option.splits)
  note store = get_by_hash_inserted [OF created, unfolded p(4)]
  have "keys_command rand' later None [''revoke'', ak_id k] w' db' =
      (Inr (Plain (''revoked '' @ ak_id k @ [line_feed])), db)"
    by (simp add: keys_command_def keys_revoke_command_def store(3))
  moreover have "authenticate (new_service True ks (Some (\<lambda>h. sqlite_keys_get_by_hash h db))) (bearer_token (scheme @ secret))
      = (Inl ErrUnauthorized, None)"
    "authenticate (new_service True ks (Some (\<lambda>h. sqlite_keys_get_by_hash h db'))) (bearer_token (scheme @ secret)) =
      (Inr \<lparr>id_key = ak_id k, id_name = flag_value vals ''name'', id_rate_limit = 0, id_budget = 0, id_allowed_models = []\<rparr>,
       Some (ak_id k))" if "key_hash secret \<notin> key_hash ` set ks" for ks
    using that by (simp_all add: tok secret authenticate_def Let_def match_static_iff store k)
  moreover have "\<forall>h. h \<noteq> key_hash secret \<longrightarrow> sqlite_keys_get_by_hash h db' = sqlite_keys_get_by_hash h db"
    by (simp add: store(1))
  ultimately show ?thesis using out by blast
qed

definition empty_sqlite :: sqlite where
  "empty_sqlite = \<lparr>sq_keys = [], sq_providers = [], sq_models = [], sq_combos = [], sq_usage = []\<rparr>"

theorem printed_key_lives_witness:
  "\<exists>i secret db'. keys_command example_rand 5 None [''create'', ''--name=ci''] 0 empty_sqlite =
        (Inr (Plain (created_text i secret)), db')
    \<and> fst (authenticate (new_service True [] (Some (\<lambda>h. sqlite_keys_get_by_hash h db'))) (bearer_token (''Bearer '' @ secret))) =
        Inr \<lparr>id_key = i, id_name = ''ci'', id_rate_limit = 0, id_budget = 0, id_allowed_models = []\<rparr>"
proof -
  obtain s w1 where "random_base62 example_rand secret_bytes 0 = (Some s, w1)" using example_rand_total by blast
  moreover obtain i w2 where "random_base62 example_rand 12 w1 = (Some i, w2)" using example_rand_total by blast
  ultimately obtain secret k where g: "generate_key example_rand 5 ''ci'' 0 = (Some (secret, k), w2)"
    by (simp add: generate_key_def Let_def)
  have flags: "parse_flags [(''name'', [])] [''--name=ci''] = Inr ([(''name'', ''ci'')], [])" by code_simp
  have made: "sqlite_keys_create k empty_sqlite =
      (True, empty_sqlite\<lparr>sq_keys := [(ak_id k, api_key_row_of k)]\<rparr>)"
    by (simp add: sqlite_keys_create_def empty_sqlite_def)
  have run: "keys_command example_rand 5 None [''create'', ''--name=ci''] 0 empty_sqlite =
      (Inr (Plain (created_text (ak_id k) secret)), empty_sqlite\<lparr>sq_keys := [(ak_id k, api_key_row_of k)]\<rparr>)"
    by (simp add: keys_command_def keys_create_command_def flags flag_value_def g made del: parse_flags.simps)
  have "equal_fold ''Bearer '' ''Bearer ''" by code_simp
  from printed_key_lives [OF example_rand_fair run flags this, of example_rand 0 0] obtain i s where
    out: "Plain (created_text (ak_id k) secret) = Plain (created_text i s)"
    and auth: "\<forall>ks. key_hash s \<notin> key_hash ` set ks \<longrightarrow>
      authenticate (new_service True ks (Some (\<lambda>h. sqlite_keys_get_by_hash h
        (empty_sqlite\<lparr>sq_keys := [(ak_id k, api_key_row_of k)]\<rparr>)))) (bearer_token (''Bearer '' @ s)) =
      (Inr \<lparr>id_key = i, id_name = flag_value [(''name'', ''ci'')] ''name'', id_rate_limit = 0, id_budget = 0,
        id_allowed_models = []\<rparr>, Some i)"
    by (elim exE conjE) (rule that)
  have "fst (authenticate (new_service True [] (Some (\<lambda>h. sqlite_keys_get_by_hash h
        (empty_sqlite\<lparr>sq_keys := [(ak_id k, api_key_row_of k)]\<rparr>)))) (bearer_token (''Bearer '' @ s))) =
      Inr \<lparr>id_key = i, id_name = ''ci'', id_rate_limit = 0, id_budget = 0, id_allowed_models = []\<rparr>"
    using auth [rule_format, of "[]"] by (simp add: flag_value_def)
  with run [unfolded out] show ?thesis by blast
qed

end
