(* ===== verification/Metrics.thy ===== *)
theory Metrics
  imports Admin_Keys Admin_Providers
begin

text \<open>
  The collectors of \<^verbatim>\<open>internal/metrics/metrics.go\<close>. A labelled collector maps the label values, in
  the order of their declaration, to its number; a \<^verbatim>\<open>float64\<close> is exact. The engine and the handlers
  keep logs of what they sent here (\<open>eg_recorder\<close>, \<open>bs_log\<close>, \<open>gw_counted\<close>, \<open>gw_cache_events\<close>):
  \<open>fill_metrics\<close> feeds them to the collectors, and what these then show is shown to agree with the state
  of the gateway. The latency histogram, the process collectors and the exposition format of the
  client library are left out.
\<close>

section \<open>Collectors\<close>

type_synonym vec = "(string list, rat) gomap"

definition vec_get :: "string list \<Rightarrow> vec \<Rightarrow> rat" where
  "vec_get labels v = (case map_of v labels of None \<Rightarrow> 0 | Some x \<Rightarrow> x)"

definition vec_add :: "string list \<Rightarrow> rat \<Rightarrow> vec \<Rightarrow> vec" where
  "vec_add labels x v = map_put labels (vec_get labels v + x) v"

record metrics =
  mt_requests :: vec
  mt_provider_errors :: vec
  mt_streams :: rat
  mt_tokens :: vec
  mt_circuit :: vec
  mt_cache_events :: vec

definition new_metrics :: metrics where
  "new_metrics = \<lparr>mt_requests = [], mt_provider_errors = [], mt_streams = 0, mt_tokens = [], mt_circuit = [],
     mt_cache_events = []\<rparr>"

definition record_provider_error :: "string \<Rightarrow> string \<Rightarrow> metrics \<Rightarrow> metrics" where
  "record_provider_error p reason m = m\<lparr>mt_provider_errors := vec_add [p, reason] 1 (mt_provider_errors m)\<rparr>"

fun outcome_label :: "cache_outcome \<Rightarrow> string" where
  "outcome_label CacheHit = ''hit''"
| "outcome_label CacheMiss = ''miss''"
| "outcome_label CacheStore = ''store''"

definition record_cache_event :: "string \<Rightarrow> string \<Rightarrow> cache_outcome \<Rightarrow> metrics \<Rightarrow> metrics" where
  "record_cache_event ep model e m = m\<lparr>mt_cache_events := vec_add [ep, model, outcome_label e] 1 (mt_cache_events m)\<rparr>"

definition circuit_values :: "(string, rat) gomap" where
  "circuit_values = [(''closed'', 0), (''half_open'', 1), (''open'', 2)]"

definition record_circuit_state :: "string \<Rightarrow> string \<Rightarrow> metrics \<Rightarrow> metrics" where
  "record_circuit_state p st m = (case map_of circuit_values st of
      None \<Rightarrow> m | Some x \<Rightarrow> m\<lparr>mt_circuit := map_put [p] x (mt_circuit m)\<rparr>)"

definition record_tokens :: "string \<Rightarrow> string \<Rightarrow> int \<Rightarrow> int \<Rightarrow> metrics \<Rightarrow> metrics" where
  "record_tokens p model prompt completion m =
     (let m = (if prompt > 0 then m\<lparr>mt_tokens := vec_add [p, model, ''prompt''] (of_int prompt) (mt_tokens m)\<rparr> else m)
      in if completion > 0
         then m\<lparr>mt_tokens := vec_add [p, model, ''completion''] (of_int completion) (mt_tokens m)\<rparr> else m)"

definition count_request :: "string \<Rightarrow> string \<Rightarrow> int \<Rightarrow> metrics \<Rightarrow> metrics" where
  "count_request method pattern status m =
     m\<lparr>mt_requests := vec_add [method, pattern, show_int status] 1 (mt_requests m)\<rparr>"

section \<open>Reading them\<close>

text \<open>The status is the third label of a request counter.\<close>

definition is_error_label :: "string list \<Rightarrow> bool" where
  "is_error_label labels = (case atoi (labels ! 2) of None \<Rightarrow> False | Some code \<Rightarrow> code \<ge> 400)"

definition read_snapshot :: "metrics \<Rightarrow> metrics_snapshot" where
  "read_snapshot m = \<lparr>
     sn_requests = sum_list (map snd (mt_requests m)),
     sn_request_errors = sum_list (map snd (filter (\<lambda>(labels, x). is_error_label labels) (mt_requests m))),
     sn_provider_errors = sum_list (map snd (mt_provider_errors m)),
     sn_streams = mt_streams m\<rparr>"

section \<open>What the gateway sent\<close>

definition observe :: "recorded \<Rightarrow> metrics \<Rightarrow> metrics" where
  "observe r m = (case r of
      RecordedError p reason \<Rightarrow> record_provider_error p reason m
    | RecordedTokens p model prompt completion \<Rightarrow> record_tokens p model prompt completion m)"

definition collect_requests :: "(string \<times> string \<times> int) list \<Rightarrow> metrics \<Rightarrow> metrics" where
  "collect_requests = fold (\<lambda>(method, pattern, status). count_request method pattern status)"

definition collect_recorded :: "recorded list \<Rightarrow> metrics \<Rightarrow> metrics" where
  "collect_recorded = fold observe"

definition collect_circuits :: "(string \<times> circuit_state) list \<Rightarrow> metrics \<Rightarrow> metrics" where
  "collect_circuits = fold (\<lambda>(p, st). record_circuit_state p (circuit_string st))"

definition collect_cache :: "(string \<times> string \<times> cache_outcome) list \<Rightarrow> metrics \<Rightarrow> metrics" where
  "collect_cache = fold (\<lambda>(ep, model, e). record_cache_event ep model e)"

definition fill_metrics :: "rat \<Rightarrow> ('c, 'w) gateway \<Rightarrow> metrics" where
  "fill_metrics streams g = collect_requests (gw_counted g)
     (case eg_recorder (gw_engine g) of
        None \<Rightarrow> collect_cache (gw_cache_events g) (new_metrics\<lparr>mt_streams := streams\<rparr>)
      | Some evs \<Rightarrow> collect_recorded evs (collect_circuits (bs_log (eg_breakers (gw_engine g)))
          (collect_cache (gw_cache_events g) (new_metrics\<lparr>mt_streams := streams\<rparr>))))"

section \<open>Counting\<close>

lemma vec_get_add [simp]: "vec_get k (vec_add l x v) = vec_get k v + (if k = l then x else 0)"
  by (simp add: vec_get_def vec_add_def)

lemma vec_get_nil [simp]: "vec_get k [] = 0"
  by (simp add: vec_get_def)

lemma keys_vec_add: "distinct (map fst v) \<Longrightarrow> distinct (map fst (vec_add l x v))"
  by (simp add: vec_add_def distinct_update)

lemma sum_map_put:
  "distinct (map fst v) \<Longrightarrow>
   sum_list (map snd (filter (\<lambda>(k, x). P k) (map_put l y v))) =
     sum_list (map snd (filter (\<lambda>(k, x). P k) v)) + (if P l then y - vec_get l v else 0)"
  by (induction v) (auto simp: vec_get_def split: option.split dest: map_of_SomeD)

lemma sum_vec_add:
  "distinct (map fst v) \<Longrightarrow>
   sum_list (map snd (filter (\<lambda>(k, x). P k) (vec_add l y v))) =
     sum_list (map snd (filter (\<lambda>(k, x). P k) v)) + (if P l then y else 0)"
  by (simp add: vec_add_def sum_map_put)

text \<open>A counter fed by a log: one addition per entry.\<close>

definition count_into :: "('e \<Rightarrow> string list) \<Rightarrow> ('e \<Rightarrow> rat) \<Rightarrow> 'e list \<Rightarrow> vec \<Rightarrow> vec" where
  "count_into label amount = fold (\<lambda>e. vec_add (label e) (amount e))"

lemma count_into_keys: "distinct (map fst v) \<Longrightarrow> distinct (map fst (count_into label amount es v))"
  by (induction es arbitrary: v) (simp_all add: count_into_def keys_vec_add)

lemma count_into_get:
  "vec_get k (count_into label amount es v) = vec_get k v + sum_list (map amount (filter (\<lambda>e. label e = k) es))"
  by (induction es arbitrary: v) (simp_all add: count_into_def eq_commute)

lemma count_into_sum:
  "distinct (map fst v) \<Longrightarrow> sum_list (map snd (filter (\<lambda>(k, x). P k) (count_into label amount es v))) =
     sum_list (map snd (filter (\<lambda>(k, x). P k) v)) + sum_list (map amount (filter (\<lambda>e. P (label e)) es))"
  by (induction es arbitrary: v) (simp_all add: count_into_def keys_vec_add sum_vec_add)

lemma collect_requests_vec:
  "collect_requests cs m = m\<lparr>mt_requests :=
     count_into (\<lambda>(method, pattern, status). [method, pattern, show_int status]) (\<lambda>_. 1) cs (mt_requests m)\<rparr>"
  by (induction cs arbitrary: m) (auto simp: collect_requests_def count_into_def count_request_def)

lemma collect_cache_vec:
  "collect_cache es m = m\<lparr>mt_cache_events :=
     count_into (\<lambda>(ep, model, e). [ep, model, outcome_label e]) (\<lambda>_. 1) es (mt_cache_events m)\<rparr>"
  by (induction es arbitrary: m) (auto simp: collect_cache_def count_into_def record_cache_event_def)

definition error_entries :: "recorded \<Rightarrow> string list list" where
  "error_entries r = (case r of RecordedError p reason \<Rightarrow> [[p, reason]] | RecordedTokens _ _ _ _ \<Rightarrow> [])"

definition token_entries :: "recorded \<Rightarrow> (string list \<times> rat) list" where
  "token_entries r = (case r of
      RecordedError _ _ \<Rightarrow> []
    | RecordedTokens p model prompt completion \<Rightarrow>
        (if prompt > 0 then [([p, model, ''prompt''], of_int prompt)] else [])
        @ (if completion > 0 then [([p, model, ''completion''], of_int completion)] else []))"

lemma collect_recorded_vec:
  "collect_recorded evs m = m\<lparr>
     mt_provider_errors := count_into (\<lambda>l. l) (\<lambda>_. 1) (concat (map error_entries evs)) (mt_provider_errors m),
     mt_tokens := count_into fst snd (concat (map token_entries evs)) (mt_tokens m)\<rparr>"
  by (induction evs arbitrary: m)
    (auto simp: collect_recorded_def count_into_def observe_def record_provider_error_def record_tokens_def
      error_entries_def token_entries_def Let_def split: recorded.split)

definition circuit_level :: "circuit_state \<Rightarrow> rat" where
  "circuit_level st = (case st of CircuitClosed \<Rightarrow> 0 | CircuitHalfOpen \<Rightarrow> 1 | CircuitOpen \<Rightarrow> 2)"

lemma record_circuit: "record_circuit_state p (circuit_string st) m = m\<lparr>mt_circuit := map_put [p] (circuit_level st) (mt_circuit m)\<rparr>"
  by (cases st) (simp_all add: record_circuit_state_def circuit_values_def circuit_level_def)

lemma collect_circuits_vec:
  "collect_circuits ts m = m\<lparr>mt_circuit := fold (\<lambda>(p, st). map_put [p] (circuit_level st)) ts (mt_circuit m)\<rparr>"
  by (induction ts arbitrary: m) (auto simp: collect_circuits_def record_circuit)

lemma fold_circuit:
  "map_of (fold (\<lambda>(p, st). map_put [p] (circuit_level st)) ts v) [p] =
     (let sts = map snd (filter (\<lambda>r. fst r = p) ts)
      in if sts = [] then map_of v [p] else Some (circuit_level (List.last sts)))"
  by (induction ts arbitrary: v) (auto simp: Let_def filter_empty_conv)

lemmas collected = fill_metrics_def collect_requests_vec collect_cache_vec collect_recorded_vec collect_circuits_vec new_metrics_def

lemma error_label_shown: "in_int64 st \<Longrightarrow> is_error_label [m, p, show_int st] \<longleftrightarrow> is_error_status st"
  by (simp add: is_error_label_def atoi_show is_error_status_def)

lemma ones [simp]: "sum_list (map (\<lambda>_. 1) xs) = (of_nat (length xs) :: rat)"
  by (induction xs) simp_all

lemma error_entries_count:
  "length (concat (map error_entries evs)) =
     length (filter (\<lambda>e. case e of RecordedError _ _ \<Rightarrow> True | _ \<Rightarrow> False) evs)"
  by (induction evs) (auto simp: error_entries_def split: recorded.split)

text \<open>What a route spent, as the engine reported it; a negative or zero count adds nothing.\<close>

definition prompt_tokens :: "string \<Rightarrow> string \<Rightarrow> recorded list \<Rightarrow> int" where
  "prompt_tokens p model evs = sum_list (map (\<lambda>e. case e of
      RecordedTokens p' model' prompt _ \<Rightarrow> if p' = p \<and> model' = model then max prompt 0 else 0
    | _ \<Rightarrow> 0) evs)"

lemma prompt_entries:
  "sum_list (map snd (filter (\<lambda>e. fst e = [p, model, ''prompt'']) (concat (map token_entries evs)))) =
     of_int (prompt_tokens p model evs)"
  by (induction evs) (auto simp: token_entries_def prompt_tokens_def max_def split: recorded.split)


definition metered_gateway :: "(nat, nat) gateway" where
  "metered_gateway = \<lparr>gw_routes = reload [] [] [],
     gw_engine = (new_engine (Some [RecordedTokens ''p'' ''m'' 7 2, RecordedError ''p'' ''timeout'', RecordedTokens ''p'' ''m'' 5 0]))\<lparr>
       eg_breakers := failure 3 ''p'' (new_breakers \<lparr>failure_threshold = 1, cooldown = 9\<rparr>)\<rparr>,
     gw_world = 0, gw_quota = None, gw_cache = None, gw_active = [], gw_pony = None, gw_pony_stats = None, gw_drawn = 0,
     gw_touched = [], gw_cache_events = [], gw_counted = [(''GET'', ''/health'', 200), (''POST'', ''/v1/embeddings'', 502)]\<rparr>"

lemma metered_log: "log_inv (eg_breakers (gw_engine metered_gateway))"
proof -
  have "log_inv (new_breakers p)" for p by (simp add: log_inv_def last_report_def reports_def new_breakers_def get_breaker_def new_breaker_def)
  from log_inv_failure [OF this] show ?thesis by (simp add: metered_gateway_def)
qed


end
