(* ===== verification/Standing.thy ===== *)
theory Standing
  imports Gateway
begin

text \<open>
  What serving a request leaves alone. A dispatch over a chain, a stream and every endpoint of
  \<^verbatim>\<open>/v1\<close> move only the cursors of the combos and the state of the breakers: the rest of the routing table
  and the breakers' policies (\<open>standing\<close>) are what they were, provided that the calls of
  a provider and the sleeps leave the policies alone (\<open>polite\<close>). Only a load of the routing table changes them.
\<close>

section \<open>Policies through a dispatch\<close>

text \<open>The breakers' configuration, which only a load of the routing table writes.\<close>

definition policies :: "engine \<Rightarrow> breaker_policy \<times> (string, breaker_policy) gomap" where
  "policies e = (bs_policy (eg_breakers e), bs_overrides (eg_breakers e))"

definition polite :: "('c, 'w) env \<Rightarrow> bool" where
  "polite env \<longleftrightarrow>
     (\<forall>c q st. policies (fst (snd (ev_chat env c q st))) = policies (fst st)) \<and>
     (\<forall>c q st. policies (fst (snd (ev_stream env c q st))) = policies (fst st)) \<and>
     (\<forall>c q st. policies (fst (snd (ev_embed env c q st))) = policies (fst st)) \<and>
     (\<forall>d st. policies (fst (snd (ev_wait env d st))) = policies (fst st))"

named_theorems policy_frame \<open>the breakers' configuration through the steps of the engine\<close>

lemma breakers_frame [policy_frame]:
  "bs_policy (snd (allow now p b)) = bs_policy b" "bs_overrides (snd (allow now p b)) = bs_overrides b"
  "bs_policy (success p b) = bs_policy b" "bs_overrides (success p b) = bs_overrides b"
  "bs_policy (failure now p b) = bs_policy b" "bs_overrides (failure now p b) = bs_overrides b"
  by (auto simp: allow_def success_def failure_def Let_def split: circuit_state.split prod.split)
    (auto simp: transition_def split: if_splits)

lemma meter_frame [policy_frame]:
  "policies (fst (finish_trace now st x)) = policies (fst x)"
  "policies (fst (persist_usage now r u sm status meta x)) = policies (fst x)"
  "policies (fst (record_usage now r u sm meta x)) = policies (fst x)"
  "policies (fst (record_failure now r sm status meta x)) = policies (fst x)"
  "policies (record_metric now r ok ttfb elapsed e) = policies e"
  "policies (record_error p reason e) = policies e"
  "policies (meter_latency now r start arrivals e) = policies e"
proof -
  show "policies (fst (finish_trace now st x)) = policies (fst x)"
    by (auto simp: finish_trace_def policies_def split: prod.split option.split)
  show persist: "policies (fst (persist_usage now r u sm status meta x)) = policies (fst x)"
    for u sm status x by (simp add: persist_usage_def policies_def Let_def)
  show "policies (fst (record_usage now r u sm meta x)) = policies (fst x)"
    by (simp add: record_usage_def persist) (simp add: send_recorder_def policies_def)
  show "policies (fst (record_failure now r sm status meta x)) = policies (fst x)"
    by (simp add: record_failure_def persist)
  show "policies (record_metric now r ok ttfb elapsed e) = policies e" for ttfb elapsed ok
    by (simp add: record_metric_def policies_def)
  then show "policies (meter_latency now r start arrivals e) = policies e"
    by (simp add: meter_latency_def Let_def)
  show "policies (record_error p reason e) = policies e"
    by (simp add: record_error_def send_recorder_def policies_def)
qed

lemma meter_stream_frame [policy_frame]:
  "policies (fst (snd (meter_stream now r req chunks meta x))) = policies (fst x)"
  by (simp add: meter_stream_def policy_frame split: prod.split)

lemma dispatching_frame [policy_frame]:
  "(\<And>x. policies (fst (f x)) = policies (fst x)) \<Longrightarrow> policies (di_engine (with_meter f s)) = policies (di_engine s)"
  "(\<And>e. policies (g e) = policies e) \<Longrightarrow> policies (di_engine (on_engine g s)) = policies (di_engine s)"
  "policies (di_engine (on_trace h s)) = policies (di_engine s)"
  "policies (di_engine (log_event ev s)) = policies (di_engine s)"
  by (auto simp: with_meter_def on_engine_def on_trace_def log_event_def Let_def split: prod.split)
    (metis fst_conv)

lemma steps_frame [policy_frame]:
  "policies (di_engine (finish env status s)) = policies (di_engine s)"
  "policies (di_engine (fail_route env meta streamed r err s)) = policies (di_engine s)"
  "policies (di_engine (measure_route env r ok start s)) = policies (di_engine s)"
  "policies (di_engine (skip_route env r reason err fallback s)) = policies (di_engine s)"
  "policies (di_engine (snd (ask_breaker env p s))) = policies (di_engine s)"
  "policies (di_engine (report_success p s)) = policies (di_engine s)"
  "policies (di_engine (report_failure env p s)) = policies (di_engine s)"
  by (simp_all add: finish_def fail_route_def measure_route_def skip_route_def policy_frame)
    (simp_all add: ask_breaker_def report_success_def report_failure_def log_event_def on_engine_def policies_def
      policy_frame split_def Let_def)

lemma note_failure_policies [policy_frame]:
  "policies (di_engine (note_failure env r started again fallback err s)) = policies (di_engine s)"
  by (simp add: note_failure_def policy_frame Let_def)

lemma exhausted_policies [policy_frame]:
  "policies (di_engine (snd (exhausted env meta streamed model rt last_err last_route s))) = policies (di_engine s)"
  by (auto simp: exhausted_def policy_frame Let_def split: option.split)

lemma sleep_policies:
  "polite env \<Longrightarrow> policies (di_engine (snd (sleep_for env d s))) = policies (di_engine s)"
  by (auto simp: sleep_for_def polite_def policy_frame split_def Let_def)

definition keeps_policies :: "('w dispatching \<Rightarrow> (gerror + 'r) \<times> 'w dispatching) \<Rightarrow> bool" where
  "keeps_policies call \<longleftrightarrow> (\<forall>s. policies (di_engine (snd (call s))) = policies (di_engine s))"

lemma attempt_loop_policies:
  assumes "polite env" and "keeps_policies call"
  shows "policies (di_engine (snd (attempt_loop env rp call route fallback left i last_err s))) = policies (di_engine s)"
proof (induction left arbitrary: i last_err s)
  case (Suc left)
  obtain res s1 where c: "call s = (res, s1)" by force
  then have s1: "policies (di_engine s1) = policies (di_engine s)"
    using assms(2) by (metis keeps_policies_def snd_conv)
  show ?case
  proof (cases res)
    case (Inl err)
    let ?s2 = "note_failure env route (now_of env s) (i > 1) fallback err s1"
    obtain d w where b: "backoff env rp i (di_world ?s2) = (d, w)" by force
    obtain stop s3 where sl: "sleep_for env d (?s2\<lparr>di_world := w\<rparr>) = (stop, s3)" by force
    then have "policies (di_engine s3) = policies (di_engine s)"
      using sleep_policies [OF assms(1), of d "?s2\<lparr>di_world := w\<rparr>"] s1 by (simp add: policy_frame)
    then show ?thesis using Suc.IH c Inl s1 b sl by (auto simp: policy_frame Let_def split: option.split)
  qed (use c s1 in \<open>simp add: policy_frame Let_def\<close>)
qed simp

lemma chain_policies:
  assumes "polite env" and "\<And>start p r. keeps_policies (call start p r)"
  shows "policies (di_engine (snd (dispatch_chain env call meta streamed model rt as fallback last_err last_route s)))
    = policies (di_engine s)"
proof (induction as arbitrary: fallback last_err last_route s)
  case Nil
  then show ?case by (simp add: policy_frame)
next
  case (Cons a as)
  have attempt: "policies (di_engine s2) = policies (di_engine s1)"
    if "attempt env (call start p r) r fb (s1\<lparr>di_first_byte := 0\<rparr>) = (res, s2)" for start p r fb s1 s2 and res
    using attempt_loop_policies [OF assms, of "eg_retry (di_engine s1)" start p r r fb _ 1 "Opaque []" "s1\<lparr>di_first_byte := 0\<rparr>"] that
    by (simp add: attempt_def) (metis snd_conv)
  have ask: "policies (di_engine s1) = policies (di_engine s)" if "ask_breaker env p s = (ok, s1)" for p ok s1
    using steps_frame(5) [of env p s] that by simp
  show ?case
    by (auto simp: policy_frame Cons.IH Let_def attempt ask split: sum.split option.split prod.split bool.split)
qed

text \<open>A call of the engine: the table may turn its cursors, and nothing else of the configuration moves.\<close>

definition table_of :: "'c routes \<Rightarrow> 'c routes" where "table_of rt = rt\<lparr>rt_cursors := []\<rparr>"

definition call_keeps :: "engine \<Rightarrow> 'c routes \<Rightarrow> ((gerror + 'r) \<times> 'w dispatching) option \<times> 'c routes \<Rightarrow> bool" where
  "call_keeps e rt x \<longleftrightarrow> table_of (snd x) = table_of rt \<and>
     (\<forall>res s. fst x = Some (res, s) \<longrightarrow> policies (di_engine s) = policies e)"

lemma chain_table: "table_of (snd (chain st name req rt)) = table_of rt"
  by (auto simp: chain_def entrypoints_def cursor_advance_def table_of_def
      split: option.split combo_strategy.split prod.split sum.split)

lemma dispatch_keeps:
  assumes "polite env" and "\<And>start p r. keeps_policies (call start p r)" and "policies (di_engine s) = policies e"
  shows "call_keeps e rt (dispatch env call meta streamed model req rt s)"
proof -
  obtain names rt' where c: "chain (eg_stats (di_engine s)) model req rt = (names, rt')" by force
  then have "table_of rt' = table_of rt" using chain_table [of "eg_stats (di_engine s)" model req rt] by simp
  moreover have "policies (di_engine s1) = policies e"
    if "dispatch_chain env call meta streamed model rt' as False None None s = (res, s1)" for as s1 and res
    using chain_policies [where call = call, OF assms(1,2), of meta streamed model rt' as False None None s] that assms(3) by simp
  ultimately show ?thesis
    using c assms(3) by (auto simp: call_keeps_def dispatch_def policy_frame split: option.split sum.split)
qed

lemma calls_keep:
  assumes "polite env"
  shows "keeps_policies (chat_call env meta q start p r)" "keeps_policies (stream_call env meta q start p r)"
    "keeps_policies (embedding_call env meta eq start p r)"
proof -
  have chat: "policies (di_engine s2) = policies (di_engine s1)"
    if "provider_step (ev_chat env) c u s1 = (res, s2)" for c u s1 s2 res
    using assms [unfolded polite_def, THEN conjunct1, rule_format, of c u "(di_engine s1, di_first_byte s1, di_world s1)"] that
    by (auto simp: provider_step_def split: prod.splits)
  have str: "policies (di_engine s2) = policies (di_engine s1)"
    if "provider_step (ev_stream env) c u s1 = (res, s2)" for c u s1 s2 res
    using assms [unfolded polite_def, THEN conjunct2, THEN conjunct1, rule_format, of c u "(di_engine s1, di_first_byte s1, di_world s1)"] that
    by (auto simp: provider_step_def split: prod.splits)
  have emb: "policies (di_engine s2) = policies (di_engine s1)"
    if "provider_step (ev_embed env) c u s1 = (res, s2)" for c u s1 s2 res
    using assms [unfolded polite_def, THEN conjunct2, THEN conjunct2, THEN conjunct1, rule_format,
        of c u "(di_engine s1, di_first_byte s1, di_world s1)"] that
    by (auto simp: provider_step_def split: prod.splits)
  show "keeps_policies (chat_call env meta q start p r)"
    by (auto simp: keeps_policies_def chat_call_def policy_frame chat Let_def split: prod.split sum.split)
  show "keeps_policies (stream_call env meta q start p r)"
    by (auto simp: keeps_policies_def stream_call_def policy_frame str Let_def split: prod.split sum.split)
  show "keeps_policies (embedding_call env meta eq start p r)"
    by (auto simp: keeps_policies_def embedding_call_def policy_frame emb Let_def split: prod.split sum.split)
qed

lemma entry_points_keep:
  assumes "polite env"
  shows "call_keeps e rt (chat_completion env cx q rt e w)" "call_keeps e rt (chat_completion_stream env cx q rt e w)"
    "call_keeps e rt (embeddings env cx eq rt e w)"
  by (auto simp: chat_completion_def chat_completion_stream_def embeddings_def begin_dispatch_def
      split: prod.split intro!: dispatch_keeps assms calls_keep [OF assms])

section \<open>The endpoints of /v1\<close>

definition standing :: "('c, 'w) gateway \<Rightarrow> 'c routes \<times> breaker_policy \<times> (string, breaker_policy) gomap" where
  "standing g = (table_of (gw_routes g), policies (gw_engine g))"

named_theorems stands \<open>steps of the gateway that leave the routing configuration alone\<close>

lemma standing_fields [stands, simp]:
  "standing (g\<lparr>gw_active := a\<rparr>) = standing g" "standing (g\<lparr>gw_cache := c\<rparr>) = standing g"
  "standing (g\<lparr>gw_cache_events := ce\<rparr>) = standing g" "standing (g\<lparr>gw_counted := n\<rparr>) = standing g"
  "standing (g\<lparr>gw_drawn := d\<rparr>) = standing g" "standing (g\<lparr>gw_touched := ks\<rparr>) = standing g"
  "standing (g\<lparr>gw_quota := qu\<rparr>) = standing g" "standing (g\<lparr>gw_pony_stats := ps\<rparr>) = standing g"
  "standing (g\<lparr>gw_world := w\<rparr>) = standing g"
  by (simp_all add: standing_def)

lemma standing_call:
  "table_of rt = table_of (gw_routes g) \<Longrightarrow> standing (g\<lparr>gw_routes := rt\<rparr>) = standing g"
  "table_of rt = table_of (gw_routes g) \<Longrightarrow> policies e = policies (gw_engine g) \<Longrightarrow>
    standing (g\<lparr>gw_routes := rt, gw_engine := e, gw_world := w\<rparr>) = standing g"
  "table_of rt = table_of (gw_routes g) \<Longrightarrow> policies e = policies (gw_engine g) \<Longrightarrow>
    standing (g\<lparr>gw_routes := rt, gw_engine := e\<rparr>) = standing g"
  by (simp_all add: standing_def)

lemma store_cache_stands [stands]: "standing (store_cache d ep m k b g) = standing g"
  by (simp add: store_cache_def count_cache_event_def)

lemma lookup_cache_stands: "lookup_cache d ep m b rw g = (k, hit, rw', g') \<Longrightarrow> standing g' = standing g"
  by (auto simp: lookup_cache_def count_cache_event_def Let_def split: if_splits prod.splits option.splits)

lemma serve_call_stands:
  assumes "call_keeps (gw_engine g) (gw_routes g) out" and "\<And>b g. standing (store b g) = standing g"
  shows "standing (snd (snd (serve_call out failed body store rw g))) = standing g"
  using assms by (cases out) (auto simp: serve_call_def call_keeps_def standing_call Let_def split: option.split sum.split)

lemma serve_cached_stands:
  assumes "\<And>g. call_keeps (gw_engine g) (gw_routes g) (call g)"
  shows "standing (snd (snd (serve_cached d ep m body call failed enc rw g))) = standing g"
proof -
  obtain k hit rw' g' where l: "lookup_cache d ep m body rw g = (k, hit, rw', g')" by (metis prod_cases4)
  from serve_call_stands [where store = "store_cache d ep m k" and g = g', OF assms store_cache_stands]
    lookup_cache_stands [OF l]
  show ?thesis by (simp add: serve_cached_def l split: bool.split)
qed

lemma serve_stream_stands:
  assumes "polite (dp_env d)"
  shows "standing (snd (snd (serve_stream d cx req un failed run rw g))) = standing g"
proof -
  obtain out rt where c: "chat_completion_stream (dp_env d) (router_context cx) req (gw_routes g) (gw_engine g) (gw_world g)
      = (out, rt)" by force
  with entry_points_keep(2) [OF assms, of "gw_engine g" "gw_routes g" "router_context cx" req "gw_world g"]
  have keep: "table_of rt = table_of (gw_routes g)"
    "\<And>res s. out = Some (res, s) \<Longrightarrow> policies (di_engine s) = policies (gw_engine g)"
    by (simp_all add: call_keeps_def)
  have meter: "policies e = policies (gw_engine g)"
    if "meter_stream n r u ch mt (di_engine s, t) = (x, e, t')" "out = Some (res, s)" for n r u ch mt s t x e t' res
    using meter_stream_frame [of n r u ch mt "(di_engine s, t)"] that keep(2) by simp
  show ?thesis
    using c keep meter
    by (auto simp: serve_stream_def Let_def standing_call policy_frame split: sum.split option.split prod.split)
qed

lemma optimise_stands [dest]: "optimise req g = Some (req', meta, g') \<Longrightarrow> standing g' = standing g"
  by (auto simp: optimise_def split: if_splits option.splits)

lemma track_active_stands:
  "(\<And>g. standing (snd (snd (body g))) = standing g) \<Longrightarrow> standing g = x \<Longrightarrow>
   standing (snd (snd (track_active d cx model body g))) = x"
proof -
  assume body: "\<And>g. standing (snd (snd (body g))) = standing g" and x: "standing g = x"
  have "standing (snd (snd (case r of (p, rw, g) \<Rightarrow> (p, rw, g\<lparr>gw_active := f g\<rparr>)))) = standing (snd (snd r))"
    for r :: "('a, 'b) handled" and f by (cases r) simp
  then show ?thesis by (simp add: track_active_def Let_def body x split: option.split)
qed

lemma endpoints_stand:
  assumes "polite (dp_env d)" and "(path, ep) \<in> set (v1_endpoints d)"
  shows "standing (snd (snd (ep rq cx rw g))) = standing g"
proof -
  note calls = entry_points_keep [OF assms(1)]
  note rules = track_active_stands serve_cached_stands calls
  note streams = stream_completion_def stream_messages_def stream_responses_def serve_stream_stands [OF assms(1)]
  have "standing (snd (snd (chat_completions d rq cx rw g))) = standing g"
    by (simp add: chat_completions_def split: option.split prod.split bool.split)
      (auto simp: streams intro!: rules)
  moreover have "standing (snd (snd (handle_embeddings d rq cx rw g))) = standing g"
    by (simp add: handle_embeddings_def split: option.split prod.split bool.split)
      (auto simp: streams intro!: rules)
  moreover have "standing (snd (snd (handle_messages d rq cx rw g))) = standing g"
    by (simp add: handle_messages_def split: option.split prod.split bool.split)
      (auto simp: streams Let_def intro!: rules)
  moreover have "standing (snd (snd (handle_responses d rq cx rw g))) = standing g"
    by (simp add: handle_responses_def split: option.split prod.split bool.split)
      (auto simp: streams Let_def split: sum.split intro!: rules)
  ultimately show ?thesis using assms(2) by (auto simp: v1_endpoints_def)
qed

lemma v1_chain_stands:
  assumes "\<And>cx rw g. standing (snd (snd (ep rq cx rw g))) = standing g"
  shows "standing (snd (snd (v1_chain d ep rq cx rw g))) = standing g"
proof -
  have "standing (snd (snd (trace_requests d ep rq cx rw g))) = standing g" for cx rw g
    by (simp add: trace_requests_def assms Let_def)
  then have "standing (snd (snd (enforce_quota d (trace_requests d ep) rq cx rw g))) = standing g" for cx rw g
    by (auto simp: enforce_quota_def Let_def split: option.split prod.split quota_error.split)
  then show ?thesis by (auto simp: v1_chain_def authenticate_with_def split: prod.split sum.split)
qed

lemma serve_stands:
  assumes "polite (dp_env d)" and "serve d rq rw g = Some r"
  shows "standing (snd (snd r)) = standing g"
proof -
  obtain h where h: "route_handler d (hq_method rq) (hq_path rq) = Some h"
    and r: "r = recoverer (instrument (hq_path rq) h) rq no_context rw g"
    using assms(2) by (auto simp: serve_def)
  have "standing (snd (snd r)) = standing (snd (snd (h rq no_context rw g)))"
    by (auto simp: r recoverer_def instrument_def split: prod.split bool.split)
  also from h have "\<dots> = standing g"
  proof (cases rule: route_handler_cases)
    case 1
    then show ?thesis by (simp add: handle_health_def)
  next
    case 2
    then show ?thesis using v1_chain_stands [of handle_models rq d] by (simp add: handle_models_def)
  next
    case (3 ep)
    show ?thesis unfolding 3(1) by (rule v1_chain_stands) (rule endpoints_stand [OF assms(1) 3(2)])
  qed
  finally show ?thesis .
qed

end
