(* ===== verification/Server.thy ===== *)
theory Server
  imports Admin_Api Command_Line Standing
begin

text \<open>
  The start of the server and its life (\<^verbatim>\<open>serve\<close> in \<^verbatim>\<open>cmd/server/main.go\<close>): what the components are
  built from, what the first load of the routing table and the stored settings leave in force, and
  the process as a sequence of requests to the model endpoints, requests to the admin API and configuration
  reloads. The store is the in-memory one, filled with whatever the database holds. The listener,
  signals, shutdown and log lines are left out; the health checker and the retention sweeps are
  modelled by the configuration they are started with.
\<close>

section \<open>Starting\<close>

text \<open>\<^verbatim>\<open>time.Duration(days) * 24 * time.Hour\<close> in 64 bits.\<close>

definition retention :: "config \<Rightarrow> duration" where
  "retention cfg = wrap64 (wrap64 (cfg_retention_days cfg * 24) * hour)"

definition start_engine :: "config \<Rightarrow> memory \<Rightarrow> engine" where
  "start_engine cfg m =
     (let e = set_trace_store (Some (mem_traces m)) (set_usage_store (Some (mem_usage m)) (new_engine (Some [])))
      in e\<lparr>eg_breakers := set_default_policy (rcf_breaker (cfg_router cfg)) (eg_breakers e)\<rparr>)"

definition start_checker :: "config \<Rightarrow> health_check_policy option" where
  "start_checker cfg = (let hc = rcf_health_check (cfg_router cfg) in
     if hcc_enabled hc then Some (new_health_checker \<lparr>hc_interval = hcc_interval hc, hc_timeout = hcc_timeout hc\<rparr>) else None)"

text \<open>The gateway and the store, before the routing table is loaded.\<close>

definition cold_start :: "config \<Rightarrow> memory \<Rightarrow> bool list \<Rightarrow> 'w \<Rightarrow> 'w admin" where
  "cold_start cfg m faults w = \<lparr>
     am_gateway = \<lparr>gw_routes = reload [] [] [], gw_engine = start_engine cfg m, gw_world = w, gw_quota = Some new_quota,
       gw_cache = (if ccf_enabled (cfg_cache cfg) then new_cache (ccf_ttl (cfg_cache cfg)) (ccf_max_entries (cfg_cache cfg))
                   else None),
       gw_active = [], gw_pony = Some (cfg_ponytail cfg), gw_pony_stats = Some new_pstats, gw_drawn = 0, gw_touched = [],
       gw_cache_events = [], gw_counted = []\<rparr>,
     am_memory = m, am_faults = faults\<rparr>"

definition restore_settings :: "config \<Rightarrow> 'w admin \<Rightarrow> 'w admin" where
  "restore_settings cfg s = (case db (listing (\<lambda>m. settings_all (mem_settings m))) s of
      (Inl _, s) \<Rightarrow> s
    | (Inr kv, s) \<Rightarrow> set_pony_config (restored_config kv (cfg_ponytail cfg)) s)"

definition start_services :: "config \<Rightarrow> auth_service \<times> admin_service" where
  "start_services cfg = (new_service (acf_enabled (cfg_auth cfg)) (acf_api_keys (cfg_auth cfg)) None,
     new_admin_service (adc_enabled (cfg_admin cfg)) (adc_token (cfg_admin cfg)))"

text \<open>
  The running server. The services change when the configuration is reloaded; the key store
  behind the authenticator is read anew for every request.
\<close>

record 'w serving =
  rn_env :: "'w admin_env"
  rn_services :: "auth_service \<times> admin_service"
  rn_state :: "'w admin"

definition start_server :: "config \<Rightarrow> 'w admin_env \<Rightarrow> memory \<Rightarrow> bool list \<Rightarrow> 'w \<Rightarrow> 'w serving option" where
  "start_server cfg env m faults w = (case load (cold_start cfg m faults w) of
      (Inl _, _) \<Rightarrow> None
    | (Inr _, s) \<Rightarrow> Some \<lparr>
        rn_env = env\<lparr>ae_deps := (ae_deps env)\<lparr>dp_max_body := sc_max_body (cfg_server cfg),
          dp_origins := adc_origins (cfg_admin cfg)\<rparr>\<rparr>,
        rn_services = start_services cfg, rn_state = restore_settings cfg s\<rparr>)"

definition request_env :: "'w serving \<Rightarrow> 'w admin_env" where
  "request_env p = (rn_env p)\<lparr>ae_deps := (ae_deps (rn_env p))\<lparr>
     dp_auth := (fst (rn_services p))\<lparr>sv_keys := Some (\<lambda>h. keys_get_by_hash h (mem_keys (the_store (rn_state p))))\<rparr>,
     dp_admin_auth := snd (rn_services p)\<rparr>\<rparr>"

section \<open>Living\<close>

datatype life_event =
    ModelRequest Gateway.http_request
  | AdminRequest admin_call "int option"
  | Reloaded config
  | StoreFails "bool list"
  | Probed "(string \<times> gerror option \<times> bool) list"
  | Swept instant
  | KeyUsed string instant

definition on_state :: "('w admin \<Rightarrow> 'w admin) \<Rightarrow> 'w serving \<Rightarrow> 'w serving" where
  "on_state f p = p\<lparr>rn_state := f (rn_state p)\<rparr>"

definition probe_round :: "(string \<times> gerror option \<times> bool) list \<Rightarrow> engine \<Rightarrow> engine" where
  "probe_round rs e = (let (errors, probes) = check_all rs (eg_probes e)
     in fold (\<lambda>(p, reason). record_error p reason) errors (e\<lparr>eg_probes := probes\<rparr>))"

definition sweep :: "instant \<Rightarrow> memory \<Rightarrow> memory" where
  "sweep before m = m\<lparr>mem_usage := snd (usage_prune before (mem_usage m)), mem_traces := snd (trace_prune before (mem_traces m))\<rparr>"

text \<open>
  What happens to the process, one whole event at a time. A request comes on a fresh connection;
  the status it is answered with is part of an admin request's event.
\<close>

inductive life :: "'w serving \<Rightarrow> life_event \<Rightarrow> 'w serving \<Rightarrow> bool" where
  model_request: "serve (ae_deps (request_env p)) rq rw (am_gateway (rn_state p)) = Some (panicked, rw', g) \<Longrightarrow>
    rw_status rw = None \<Longrightarrow>
    life p (ModelRequest rq) (on_state (\<lambda>s. s\<lparr>am_gateway := g\<rparr>) p)"
| admin_request: "serve_admin (request_env p) pattern c rw (rn_state p) = Some (rw', s) \<Longrightarrow> rw_status rw = None \<Longrightarrow>
    life p (AdminRequest c (rw_status rw')) (on_state (\<lambda>_. s) p)"
| reloaded: "validate cfg = None \<Longrightarrow> life p (Reloaded cfg) (p\<lparr>rn_services := apply_reload cfg (rn_services p)\<rparr>)"
| store_fails: "life p (StoreFails fs) (on_state (\<lambda>s. s\<lparr>am_faults := fs\<rparr>) p)"
| probed: "life p (Probed rs) (on_state (on_gateway (\<lambda>g. g\<lparr>gw_engine := probe_round rs (gw_engine g)\<rparr>)) p)"
| swept: "life p (Swept before) (on_state (\<lambda>s. put_store (sweep before (the_store s)) s) p)"
| key_used: "life p (KeyUsed i now) (on_state (\<lambda>s. put_store
    ((the_store s)\<lparr>mem_keys := touch i now (mem_keys (the_store s))\<rparr>) s) p)"

inductive lives :: "'w serving \<Rightarrow> life_event list \<Rightarrow> 'w serving \<Rightarrow> bool" where
  begins: "lives p [] p"
| continues: "lives p evs q \<Longrightarrow> life q ev r \<Longrightarrow> lives p (evs @ [ev]) r"

inductive_cases lifeE: "life p ev q"

fun delivered :: "life_event list \<Rightarrow> config list" where
  "delivered [] = []"
| "delivered (Reloaded cfg # evs) = cfg # delivered evs"
| "delivered (_ # evs) = delivered evs"

section \<open>The routing table in force\<close>

lemma standing_in_step:
  assumes "standing (am_gateway t) = standing (am_gateway s)"
    and "routing_tables (the_store t) = routing_tables (the_store s)" and "in_step s"
  shows "in_step t"
  using assms
  by (auto simp: in_step_def standing_def table_of_def same_table_def policies_def routing_tables_def am_routes_def
      am_engine_def Let_def)

lemma store_tables [simp]:
  "routing_tables (the_store (s\<lparr>am_gateway := g\<rparr>)) = routing_tables (the_store s)"
  "routing_tables (the_store (s\<lparr>am_faults := fs\<rparr>)) = routing_tables (the_store s)"
  "routing_tables (the_store (on_gateway f s)) = routing_tables (the_store s)"
  "routing_tables (the_store (put_store m s)) = routing_tables m"
  by (simp_all add: the_store_def routing_tables_def on_gateway_def put_store_def)

lemma put_store_stands: "standing (am_gateway (put_store m s)) = standing (am_gateway s)"
  by (simp add: put_store_def on_gateway_def standing_def policies_def)

lemma probe_round_policies: "policies (probe_round rs e) = policies e"
proof -
  have "policies (fold (\<lambda>(p, reason). record_error p reason) errors e) = policies e" for errors e
    by (induction errors arbitrary: e) (auto simp: policy_frame)
  then show ?thesis by (simp add: probe_round_def Let_def policies_def split: prod.split)
qed

lemma answered_status:
  assumes "rw_status rw = None"
  shows "rw_status (write_answer a rw) = Some (status_of a)"
  using assms
  by (cases a) (simp_all add: write_answer_def write_json_def put_body_def rw_write_def rw_write_header_def rw_set_def)

lemma gate_passed_status:
  "admin_gate env rq rw g = (True, rw', g') \<Longrightarrow> rw_status rw = None \<Longrightarrow> rw_status rw' = None"
  by (auto simp: admin_gate_def admin_chain_def cors_def authenticate_with_def rw_set_def Let_def
      split: if_splits sum.splits prod.splits)

lemma admin_request_in_step:
  assumes "calls_keep_policies env" and "serve_admin env pattern c rw s = Some (rw', t)" and "rw_status rw = None"
    and "rw_status rw' \<noteq> Some 500" and "in_step s"
  shows "in_step t"
proof -
  obtain passed rw1 g where gate: "admin_gate env (ca_request c) rw (am_gateway s) = (passed, rw1, g)"
    by (metis prod_cases3)
  have g: "g = am_gateway s" by (rule admin_gate_cases(1) [OF gate])
  show ?thesis
  proof (cases passed)
    case False
    with assms(2,5) gate g show ?thesis by (auto simp: serve_admin_def)
  next
    case True
    with assms(2) gate g obtain h where route: "map_of (admin_routes env) (hq_method (ca_request c), pattern) = Some h"
      and out: "write_answer (fst (handle (h c) s)) rw1 = rw'" "snd (handle (h c) s) = t"
      by (auto simp: serve_admin_def split_def)
    then obtain a where h: "map_of (admin_routes env) (hq_method (ca_request c), pattern) = Some h"
      "handle (h c) s = (a, t)" and rw': "rw' = write_answer a rw1"
      by (metis prod.collapse)
    from gate True assms(3) have "rw_status rw1 = None" by (auto intro: gate_passed_status)
    with assms(4) rw' have "status_of a \<noteq> 500" by (simp add: answered_status)
    moreover have "runs stays_or_fails (\<lambda>s _. stays s) (h c)"
      using stays_routes [OF assms(1) map_of_SomeD [OF h(1)]] .
    ultimately show ?thesis
      using assms(5) h(2) runs_exit [of stays_or_fails "\<lambda>s _. stays s" "h c" s a t]
        runs_result [of stays_or_fails "\<lambda>s _. stays s" "h c" s a t]
      by (auto simp: handle_def stays_or_fails_def stays_def split: prod.splits sum.splits)
  qed
qed

lemma polite_admin: "polite (dp_env (ae_deps (rn_env p))) \<Longrightarrow> calls_keep_policies (request_env p)"
  by (auto simp: polite_def calls_keep_policies_def request_env_def policies_def Let_def)

lemma polite_models: "polite (dp_env (ae_deps (rn_env p))) \<Longrightarrow> polite (dp_env (ae_deps (request_env p)))"
  by (simp add: request_env_def)

lemma life_keeps:
  assumes "life p ev q" and "polite (dp_env (ae_deps (rn_env p)))"
  shows "rn_env q = rn_env p" and "rn_services q = fold apply_reload (delivered [ev]) (rn_services p)"
    and "in_step (rn_state p) \<Longrightarrow> (\<And>c. ev \<noteq> AdminRequest c (Some 500)) \<Longrightarrow> in_step (rn_state q)"
proof -
  show "rn_env q = rn_env p" "rn_services q = fold apply_reload (delivered [ev]) (rn_services p)"
    using assms(1) by (auto elim!: lifeE simp: on_state_def)
  assume step: "in_step (rn_state p)" and fine: "\<And>c. ev \<noteq> AdminRequest c (Some 500)"
  from assms(1) show "in_step (rn_state q)"
  proof cases
    case (model_request rq rw panicked rw' g)
    then have "standing g = standing (am_gateway (rn_state p))"
      using serve_stands [OF polite_models [OF assms(2)] model_request(3)] by simp
    then show ?thesis
      using step unfolding model_request by (auto simp: on_state_def intro: standing_in_step)
  next
    case (admin_request pattern c rw rw' s)
    with fine have "rw_status rw' \<noteq> Some 500" by auto
    with admin_request admin_request_in_step [OF polite_admin [OF assms(2)]] step show ?thesis
      by (simp add: on_state_def)
  next
    case (reloaded cfg)
    then show ?thesis using step by simp
  next
    case (store_fails fs)
    then show ?thesis using step by (auto simp: on_state_def intro: standing_in_step)
  next
    case (probed rs)
    then show ?thesis
      using step by (auto simp: on_state_def intro: standing_in_step)
        (rule standing_in_step [OF _ _ step]; simp add: on_gateway_def standing_def probe_round_policies)
  next
    case (swept before)
    have "routing_tables (sweep before (the_store (rn_state p))) = routing_tables (the_store (rn_state p))"
      by (simp add: sweep_def routing_tables_def)
    then show ?thesis
      using step swept by (auto simp: on_state_def intro: standing_in_step [OF put_store_stands])
  next
    case (key_used i now)
    have "routing_tables ((the_store (rn_state p))\<lparr>mem_keys := k\<rparr>) = routing_tables (the_store (rn_state p))" for k
      by (simp add: routing_tables_def)
    then show ?thesis
      using step key_used by (auto simp: on_state_def intro: standing_in_step [OF put_store_stands])
  qed
qed

lemma delivered_append: "delivered (evs @ evs') = delivered evs @ delivered evs'"
  by (induction evs rule: delivered.induct) simp_all

lemma lives_keeps:
  assumes "lives p evs q" and "polite (dp_env (ae_deps (rn_env p)))"
  shows "rn_env q = rn_env p \<and> rn_services q = fold apply_reload (delivered evs) (rn_services p)
    \<and> (in_step (rn_state p) \<longrightarrow> (\<forall>c. AdminRequest c (Some 500) \<notin> set evs) \<longrightarrow> in_step (rn_state q))"
  using assms
proof (induction rule: lives.induct)
  case (continues p evs q ev r)
  then have q: "rn_env q = rn_env p" "rn_services q = fold apply_reload (delivered evs) (rn_services p)"
    and polite: "polite (dp_env (ae_deps (rn_env q)))" by auto
  note step = life_keeps [OF continues(2) polite]
  have "in_step (rn_state r)" if "in_step (rn_state p)" "\<forall>c. AdminRequest c (Some 500) \<notin> set (evs @ [ev])"
    using that continues.IH [OF continues.prems] by (intro step(3)) auto
  with step(1,2) q show ?case by (simp add: delivered_append)
qed simp

section \<open>What a start leaves in force\<close>

lemma must_listing_eq:
  "must (listing f) s = (if am_faults s \<noteq> [] \<and> hd (am_faults s) then (Inl (fail DriverFailure), s\<lparr>am_faults := drop 1 (am_faults s)\<rparr>)
     else (Inr (f (the_store s)), put_store (the_store s) (s\<lparr>am_faults := drop 1 (am_faults s)\<rparr>)))"
  by (simp add: must_def db_def listing_def Let_def)

lemma load_fails_iff: "isl (fst (load s)) \<longleftrightarrow> True \<in> set (take 4 (am_faults s))"
  and load_spends: "\<not> isl (fst (load s)) \<Longrightarrow> am_faults (snd (load s)) = drop 4 (am_faults s)"
proof -
  have faults [simp]: "am_faults (put_store m t) = am_faults t" "am_faults (republish ps ms cs xs t) = am_faults t"
    for m ps ms cs xs and t :: "'a admin"
    by (simp_all add: put_store_def on_gateway_def republish_def)
  consider "am_faults s = []" | a where "am_faults s = [a]" | a b where "am_faults s = [a, b]"
    | a b c where "am_faults s = [a, b, c]" | a b c d fs where "am_faults s = a # b # c # d # fs"
    by (metis neq_Nil_conv)
  then have "(isl (fst (load s)) \<longleftrightarrow> True \<in> set (take 4 (am_faults s)))
      \<and> (\<not> isl (fst (load s)) \<longrightarrow> am_faults (snd (load s)) = drop 4 (am_faults s))"
    by cases (auto simp: load_def and_then_def must_listing_eq change_def)
  then show "isl (fst (load s)) \<longleftrightarrow> True \<in> set (take 4 (am_faults s))"
    "\<not> isl (fst (load s)) \<Longrightarrow> am_faults (snd (load s)) = drop 4 (am_faults s)" by blast+
qed

lemma load_parts:
  assumes "load s = (Inr u, t)"
  shows "the_store t = the_store s" and "bs_policy (eg_breakers (am_engine t)) = bs_policy (eg_breakers (am_engine s))"
    and "gw_pony (am_gateway t) = gw_pony (am_gateway s)" and "gw_cache (am_gateway t) = gw_cache (am_gateway s)"
    and "in_step t"
proof -
  from assms obtain ps ms cs xs s4 where t: "t = republish ps ms cs xs s4" and u: "unchanged s s4"
    by (auto simp: load_def and_then_def change_def split: prod.splits sum.splits dest!: must_listing)
      (metis unchanged_trans)
  from t u show "the_store t = the_store s" by (simp add: unchanged_parts)
  have "bs_policy (eg_breakers (am_engine t)) = bs_policy (eg_breakers (am_engine s4))"
    "gw_pony (am_gateway t) = gw_pony (am_gateway s4)" "gw_cache (am_gateway t) = gw_cache (am_gateway s4)"
    by (simp_all add: t republish_def on_gateway_def publish_def am_engine_def set_overrides_def)
  with unchanged_parts [OF u] show "bs_policy (eg_breakers (am_engine t)) = bs_policy (eg_breakers (am_engine s))"
    "gw_pony (am_gateway t) = gw_pony (am_gateway s)" "gw_cache (am_gateway t) = gw_cache (am_gateway s)" by simp_all
  show "in_step t" using assms by (rule runs_result [OF load_in_step])
qed

lemma cold_store [simp]:
  "the_store (cold_start cfg m faults w) = m" "am_faults (cold_start cfg m faults w) = faults"
  "bs_policy (eg_breakers (am_engine (cold_start cfg m faults w))) = rcf_breaker (cfg_router cfg)"
  "gw_pony (am_gateway (cold_start cfg m faults w)) = Some (cfg_ponytail cfg)"
  by (simp_all add: cold_start_def the_store_def am_engine_def start_engine_def set_usage_store_def set_trace_store_def
      new_engine_def set_default_policy_def Let_def)

lemma pony_config_parts [simp]:
  "the_store (set_pony_config c s) = the_store s"
  "standing (am_gateway (set_pony_config c s)) = standing (am_gateway s)"
  "gw_cache (am_gateway (set_pony_config c s)) = gw_cache (am_gateway s)"
  "gw_pony (am_gateway (set_pony_config c s)) = map_option (\<lambda>_. c) (gw_pony (am_gateway s))"
  by (simp_all add: set_pony_config_def on_gateway_def the_store_def am_engine_def standing_def split: option.split)

lemma unchanged_standing: "unchanged s t \<Longrightarrow> standing (am_gateway t) = standing (am_gateway s)"
  using unchanged_parts(2,3) [of s t] by (simp add: standing_def am_engine_def am_routes_def)

lemma restore_cases:
  obtains t where "unchanged s t" and "am_faults s \<noteq> [] \<and> hd (am_faults s)" and "restore_settings cfg s = t"
  | t where "unchanged s t" and "\<not> (am_faults s \<noteq> [] \<and> hd (am_faults s))"
    and "restore_settings cfg s = set_pony_config (restored_config (mem_settings (the_store s)) (cfg_ponytail cfg)) t"
proof -
  obtain r t where d: "db (listing (\<lambda>m. settings_all (mem_settings m))) s = (r, t)" by force
  then have "unchanged s t" by (auto simp: db_def listing_def Let_def split: if_splits)
  moreover have "if am_faults s \<noteq> [] \<and> hd (am_faults s) then r = Inl DriverFailure else r = Inr (mem_settings (the_store s))"
    using d by (cases "am_faults s \<noteq> [] \<and> hd (am_faults s)") (auto simp: db_def listing_def settings_all_def Let_def)
  ultimately show thesis
    using that [of t] d by (cases "am_faults s \<noteq> [] \<and> hd (am_faults s)") (simp_all add: restore_settings_def)
qed

lemma restore_parts:
  shows "the_store (restore_settings cfg s) = the_store s"
    and "standing (am_gateway (restore_settings cfg s)) = standing (am_gateway s)"
    and "gw_cache (am_gateway (restore_settings cfg s)) = gw_cache (am_gateway s)"
    and "gw_pony (am_gateway s) = Some (cfg_ponytail cfg) \<Longrightarrow> gw_pony (am_gateway (restore_settings cfg s)) =
      Some (if am_faults s \<noteq> [] \<and> hd (am_faults s) then cfg_ponytail cfg
            else restored_config (mem_settings (the_store s)) (cfg_ponytail cfg))"
proof -
  have "the_store (restore_settings cfg s) = the_store s
    \<and> standing (am_gateway (restore_settings cfg s)) = standing (am_gateway s)
    \<and> gw_cache (am_gateway (restore_settings cfg s)) = gw_cache (am_gateway s)
    \<and> (gw_pony (am_gateway s) = Some (cfg_ponytail cfg) \<longrightarrow> gw_pony (am_gateway (restore_settings cfg s)) =
      Some (if am_faults s \<noteq> [] \<and> hd (am_faults s) then cfg_ponytail cfg
            else restored_config (mem_settings (the_store s)) (cfg_ponytail cfg)))"
  proof (cases rule: restore_cases [of s cfg])
    case (1 t)
    with unchanged_parts [OF 1(1)] unchanged_standing [OF 1(1)] show ?thesis by simp
  next
    case (2 t)
    with unchanged_parts [OF 2(1)] unchanged_standing [OF 2(1)] show ?thesis by auto
  qed
  then show "the_store (restore_settings cfg s) = the_store s"
    "standing (am_gateway (restore_settings cfg s)) = standing (am_gateway s)"
    "gw_cache (am_gateway (restore_settings cfg s)) = gw_cache (am_gateway s)"
    "gw_pony (am_gateway s) = Some (cfg_ponytail cfg) \<Longrightarrow> gw_pony (am_gateway (restore_settings cfg s)) =
      Some (if am_faults s \<noteq> [] \<and> hd (am_faults s) then cfg_ponytail cfg
            else restored_config (mem_settings (the_store s)) (cfg_ponytail cfg))" by blast+
qed

lemma started_parts:
  assumes "start_server cfg env m faults w = Some p"
  obtains s where "load (cold_start cfg m faults w) = (Inr (), s)" and "rn_state p = restore_settings cfg s"
    and "rn_services p = start_services cfg" and "dp_env (ae_deps (rn_env p)) = dp_env (ae_deps env)"
proof -
  obtain r s where l: "load (cold_start cfg m faults w) = (r, s)" by (metis surj_pair)
  show thesis
  proof (cases r)
    case (Inl a)
    with assms l show thesis by (simp add: start_server_def)
  next
    case (Inr u)
    with assms l show thesis by (intro that [of s]) (auto simp: start_server_def)
  qed
qed

lemma not_started: "start_server cfg env m faults w = None \<longleftrightarrow> isl (fst (load (cold_start cfg m faults w)))"
proof -
  obtain r s where l: "load (cold_start cfg m faults w) = (r, s)" by (metis surj_pair)
  then show ?thesis by (cases r) (simp_all add: start_server_def)
qed

text \<open>
  C25. Functional. The server starts exactly when the first four reads of its store succeed. It then
  routes as the stored records say, under the configured breaker policy, and the store is as it was
  found. Its optimiser runs on the stored settings where they could be read and on the
  configuration file where not.
\<close>

theorem start_is_exact:
  "case start_server cfg env m faults w of
     None \<Rightarrow> True \<in> set (take 4 faults)
   | Some p \<Rightarrow> True \<notin> set (take 4 faults) \<and> in_step (rn_state p) \<and> the_store (rn_state p) = m
       \<and> bs_policy (eg_breakers (am_engine (rn_state p))) = rcf_breaker (cfg_router cfg)
       \<and> gw_pony (am_gateway (rn_state p)) = Some (if True \<in> set (take 1 (drop 4 faults)) then cfg_ponytail cfg
           else restored_config (mem_settings m) (cfg_ponytail cfg))"
proof (cases "start_server cfg env m faults w")
  case None
  then have "True \<in> set (take 4 faults)" unfolding not_started by (simp add: load_fails_iff)
  with None show ?thesis by simp
next
  case (Some p)
  then obtain s where l: "load (cold_start cfg m faults w) = (Inr (), s)" and p: "rn_state p = restore_settings cfg s"
    by (rule started_parts)
  have fine: "True \<notin> set (take 4 faults)" and left: "am_faults s = drop 4 faults"
    using load_fails_iff [of "cold_start cfg m faults w"] load_spends [of "cold_start cfg m faults w"] l by simp_all
  note parts = load_parts [OF l, unfolded cold_store] and restored = restore_parts [where cfg = cfg and s = s]
  have "am_faults s \<noteq> [] \<and> hd (am_faults s) \<longleftrightarrow> True \<in> set (take 1 (drop 4 faults))"
    unfolding left by (cases "drop 4 faults") auto
  moreover have "in_step (rn_state p)"
    unfolding p by (rule standing_in_step [OF restored(2) _ parts(5)]) (simp add: restored(1))
  moreover have "bs_policy (eg_breakers (am_engine (rn_state p))) = rcf_breaker (cfg_router cfg)"
    using restored(2) parts(2) by (simp add: p standing_def policies_def am_engine_def)
  ultimately show ?thesis using Some fine restored(1,4) parts(1,3) by (simp add: p)
qed


text \<open>
  Bounds. A retention of up to 106751 days is kept as it is; beyond that the product leaves 64 bits,
  and with 213504 days everything older than half an hour is deleted.
\<close>

lemma retention_exact:
  assumes "0 \<le> cfg_retention_days cfg" and "cfg_retention_days cfg \<le> 106751"
  shows "retention cfg = cfg_retention_days cfg * 24 * hour"
proof -
  have h: "hour = 3600000000000" by (simp add: hour_def minute_def second_def millisecond_def)
  have "wrap64 (cfg_retention_days cfg * 24) = cfg_retention_days cfg * 24"
    using assms by (intro wrap64_id) (simp add: in_int64_def min_int_def max_int_def)
  moreover have "wrap64 (cfg_retention_days cfg * 24 * hour) = cfg_retention_days cfg * 24 * hour"
    using assms by (intro wrap64_id) (simp add: in_int64_def min_int_def max_int_def h)
  ultimately show ?thesis by (simp add: retention_def)
qed

lemma retention_wraps:
  "validate (example_config\<lparr>cfg_retention_days := 213504\<rparr>) = None
   \<and> 0 < retention (example_config\<lparr>cfg_retention_days := 213504\<rparr>)
   \<and> retention (example_config\<lparr>cfg_retention_days := 213504\<rparr>) < 30 * minute"
  by (intro conjI) code_simp+

definition example_started :: "nat serving" where
  "example_started = the (start_server example_config example_admin_env example_memory_of_keys [] 0)"

lemma example_starts: "start_server example_config example_admin_env example_memory_of_keys [] 0 = Some example_started"
proof -
  have "start_server example_config example_admin_env example_memory_of_keys [] (0::nat) \<noteq> None"
    by (simp add: not_started load_fails_iff)
  then show ?thesis by (auto simp: example_started_def)
qed

theorem start_is_exact_witness:
  "in_step (rn_state example_started) \<and> bs_policy (eg_breakers (am_engine (rn_state example_started))) =
      rcf_breaker (cfg_router example_config)
    \<and> start_server example_config example_admin_env example_memory_of_keys [False, False, True] (0::nat) = None"
proof -
  have "start_server example_config example_admin_env example_memory_of_keys [False, False, True] (0::nat) = None"
    using start_is_exact [where cfg = example_config and env = example_admin_env and m = example_memory_of_keys
        and faults = "[False, False, True]" and w = "0::nat"]
    by (auto split: option.splits)
  with start_is_exact [where cfg = example_config and env = example_admin_env and m = example_memory_of_keys
        and faults = "[]" and w = "0::nat"] show ?thesis
    by (simp add: example_starts)
qed

definition example_probe_call :: Gateway.http_request where
  "example_probe_call = \<lparr>hq_method = ''GET'', hq_path = ''/health'', hq_header = (\<lambda>_. []), hq_body = [], hq_broken = False\<rparr>"

definition fresh_writer :: response_writer where
  "fresh_writer = \<lparr>rw_header = [], rw_status = None, rw_out = [], rw_writes = 0, rw_flushes = 0, rw_fails = (\<lambda>n. False),
     rw_flusher = False\<rparr>"


end
