(* ===== verification/Json_Facts.thy ===== *)
theory Json_Facts
  imports Go_Json
begin

text \<open>
  The JSON parser's fuel is never exhausted: what is left of the input is always shorter, so
  two units per byte and two more are as good as any larger amount.
\<close>

lemma length_skip_ws: "length (skip_ws s) \<le> length s"
  by (simp add: skip_ws_def length_dropWhile_le)

lemma skip_ws_shorter: "skip_ws s = c # cs \<Longrightarrow> length cs < length s"
  using length_skip_ws [of s] by simp

lemma str_body_shorter: "str_body s = Some (t, r) \<Longrightarrow> length r < length s"
proof (induction "length s" arbitrary: s t r rule: less_induct)
  case less
  have IH: "length r' < length s'" if "str_body s' = Some (t', r')" "length s' < length s" for s' t' r'
    using less.hyps that by blast
  show ?case
  proof (cases s)
    case Nil
    with less.prems show ?thesis by (simp add: str_body.simps)
  next
    case (Cons c cs)
    note prems = less.prems [unfolded Cons str_body.simps [of "c # cs"] list.case]
    consider "c = CHR 0x22" | "c \<noteq> CHR 0x22" "c \<noteq> CHR 0x5C" | e es where "c = CHR 0x5C" "cs = e # es"
      using prems by (cases cs) (auto split: if_splits)
    then show ?thesis
    proof cases
      case 1
      with prems Cons show ?thesis by simp
    next
      case 2
      with prems obtain t' where "str_body cs = Some (t', r)" by (auto split: if_splits option.splits prod.splits)
      from IH [OF this] Cons show ?thesis by simp
    next
      case 3
      show ?thesis
      proof (cases "e = CHR ''u''")
        case True
        with prems 3 obtain u rest t' where "length rest < length s" "str_body rest = Some (t', r)"
          unfolding Cons by (auto split: if_splits option.splits prod.splits simp: not_le)
        with IH [of rest] show ?thesis by fastforce
      next
        case False
        with prems 3 obtain t' where "str_body es = Some (t', r)" by (auto split: if_splits option.splits prod.splits)
        from IH [OF this] 3 Cons show ?thesis by simp
      qed
    qed
  qed
qed

lemma valid_number_nonempty: "valid_number n \<Longrightarrow> n \<noteq> []"
  by (cases n) (simp_all add: valid_number_def trim_prefix_def digits1_def)

lemma json_word_shorter:
  assumes "json_word (c # s) = Some (v, r)"
  shows "length r \<le> length s"
proof -
  have "length (drop (length n) (c # s)) \<le> length s" if "n \<noteq> []" for n :: string
    using that by (cases n) simp_all
  with assms show ?thesis
    by (auto simp: json_word_def Let_def dest: valid_number_nonempty split: if_splits)
qed

lemma json_shorter:
  "json_value n s = Some (v, r) \<Longrightarrow> length r < length s"
  "json_elems n s = Some (vs, r) \<Longrightarrow> length r < length s"
  "json_members n s = Some (ms, r) \<Longrightarrow> length r < length s"
proof (induction n arbitrary: s v vs ms r)
  case (Suc n)
  {
    case 1
    then obtain c cs where s: "skip_ws s = c # cs" by (auto split: list.splits)
    note parsed = 1 [unfolded json_value.simps s list.case]
    have empty: "length (drop 1 (skip_ws cs)) \<le> length cs" using length_skip_ws [of cs] by simp
    consider "c = CHR 0x22" | "c = CHR ''[''" | "c = CHR ''{''" | "c \<noteq> CHR 0x22" "c \<noteq> CHR ''[''" "c \<noteq> CHR ''{''" by blast
    then have "length r \<le> length cs"
    proof cases
      case 1
      with parsed obtain t where "str_body cs = Some (t, r)" by (auto split: option.splits)
      from str_body_shorter [OF this] show ?thesis by simp
    next
      case 2
      with parsed consider "r = drop 1 (skip_ws cs)" | xs where "json_elems n cs = Some (xs, r)"
        by (auto simp: Let_def split: if_splits option.splits)
      then show ?thesis using empty Suc.IH(2) by cases force+
    next
      case 3
      with parsed consider "r = drop 1 (skip_ws cs)" | xs where "json_members n cs = Some (xs, r)"
        by (auto simp: Let_def split: if_splits option.splits)
      then show ?thesis using empty Suc.IH(3) by cases force+
    next
      case 4
      with parsed have "json_word (c # cs) = Some (v, r)" by simp
      then show ?thesis by (rule json_word_shorter)
    qed
    with skip_ws_shorter [OF s] show ?case by simp
  next
    case 2
    then obtain v r1 where v: "json_value n s = Some (v, r1)" by (auto split: option.splits)
    with 2 obtain c cs where c: "skip_ws r1 = c # cs" by (auto split: list.splits)
    have "length r \<le> length cs" using 2 v c Suc.IH(2) [of cs] by (force split: if_splits option.splits prod.splits)
    with skip_ws_shorter [OF c] Suc.IH(1) [OF v] show ?case by simp
  next
    case 3
    then obtain q qs where q: "skip_ws s = q # qs" by (auto split: list.splits)
    with 3 obtain k r0 where k: "str_body qs = Some (k, r0)" by (auto split: if_splits option.splits)
    with 3 q obtain v r1 where v: "json_value n (drop 1 (skip_ws r0)) = Some (v, r1)"
      by (auto split: if_splits option.splits)
    with 3 q k obtain c cs where c: "skip_ws r1 = c # cs" by (auto split: if_splits list.splits)
    have "length r \<le> length cs"
      using 3 q k v c Suc.IH(3) [of cs] by (force split: if_splits option.splits prod.splits)
    also have "length cs < length r1" by (rule skip_ws_shorter [OF c])
    also have "length r1 < length (drop 1 (skip_ws r0))" by (rule Suc.IH(1) [OF v])
    also have "\<dots> \<le> length r0" using length_skip_ws [of r0] by simp
    also have "length r0 < length qs" by (rule str_body_shorter [OF k])
    also have "length qs < length s" by (rule skip_ws_shorter [OF q])
    finally show ?case .
  }
qed simp_all

lemma json_more_fuel:
  "2 * length s + 1 \<le> n \<Longrightarrow> n \<le> m \<Longrightarrow> json_value n s = json_value m s"
  "2 * length s + 2 \<le> n \<Longrightarrow> n \<le> m \<Longrightarrow> json_elems n s = json_elems m s"
  "2 * length s + 1 \<le> n \<Longrightarrow> n \<le> m \<Longrightarrow> json_members n s = json_members m s"
proof (induction n arbitrary: s m)
  case (Suc n)
  {
    case 1
    then obtain m' where m: "m = Suc m'" "n \<le> m'" by (cases m) auto
    have "json_elems n cs = json_elems m' cs" "json_members n cs = json_members m' cs" if "skip_ws s = c # cs" for c cs
      using Suc.IH(2,3) [of cs m'] skip_ws_shorter [OF that] 1 m by simp_all
    then show ?case unfolding m json_value.simps by (auto split: list.split)
  next
    case 2
    then obtain m' where m: "m = Suc m'" "n \<le> m'" by (cases m) auto
    have "json_value n s = json_value m' s" using Suc.IH(1) [of s m'] 2 m by simp
    moreover have "json_elems n cs = json_elems m' cs" if "json_value m' s = Some (v, r)" "skip_ws r = c # cs" for v r c cs
      using Suc.IH(2) [of cs m'] json_shorter(1) [OF that(1)] skip_ws_shorter [OF that(2)] 2 m by simp
    ultimately show ?case unfolding m json_elems.simps by (auto split: list.split option.split)
  next
    case 3
    then obtain m' where m: "m = Suc m'" "n \<le> m'" by (cases m) auto
    have inner: "json_value n (drop 1 (skip_ws r)) = json_value m' (drop 1 (skip_ws r))"
      if "skip_ws s = q # qs" "str_body qs = Some (k, r)" for q qs k r
      using Suc.IH(1) [of "drop 1 (skip_ws r)" m'] skip_ws_shorter [OF that(1)] str_body_shorter [OF that(2)]
        length_skip_ws [of r] 3 m by simp
    have rest: "json_members n cs = json_members m' cs"
      if "skip_ws s = q # qs" "str_body qs = Some (k, r)" "json_value m' (drop 1 (skip_ws r)) = Some (v, r1)"
        "skip_ws r1 = c # cs" for q qs k r v r1 c cs
      using Suc.IH(3) [of cs m'] skip_ws_shorter [OF that(1)] str_body_shorter [OF that(2)] length_skip_ws [of r]
        json_shorter(1) [OF that(3)] skip_ws_shorter [OF that(4)] 3 m by simp
    show ?case unfolding m json_members.simps
      using inner rest by (auto split: list.split option.split)
  }
qed simp_all

text \<open>
  Termination. Parsing with two units of fuel per byte and two more answers as it would with any larger
  amount: a document is rejected for what it says and never for its size.
\<close>

lemma json_fuel_suffices: "2 * length s + 2 \<le> n \<Longrightarrow> json_value n s = json_value (2 * length s + 2) s"
  by (rule json_more_fuel(1) [symmetric]) simp_all

end
