(* ===== verification/Spec2Isabelle.thy ===== *)
theory Spec2Isabelle
  imports Health Rolling_Stats Provider_Http Capability Storage_Sqlite Pricing Gateway Config
    Admin_Facts Admin_Views Command_Facts Sqlite_Facts Command_Line Metrics Server
    Json_Facts
begin

text \<open>
  A verification development for zealish-router: a gateway in Go that takes requests in the OpenAI and Anthropic
  dialects, routes each over a chain of model aliases to upstream providers, and is run from an
  admin API. Every theory models the code it names, definition by definition, and proves what
  makes that part correct; this one imports them all, and ends with the properties of a
  request's whole way through the gateway.

  \<^bold>\<open>The program.\<close> \<^verbatim>\<open>cmd/server/main.go\<close> loads a configuration, opens the store, builds the engine and serves HTTP.
  A request to \<^verbatim>\<open>/v1\<close> passes authentication, the quota, the model allowlist, the context optimiser
  and the response cache; the engine turns its model name into a chain of aliases, asks the
  breaker of each alias's provider, calls it with retries, and meters what it used. The admin API
  writes providers, aliases, combos, proxies, keys and settings to the store and has the loader publish the routing
  table anew. Prices, traces and the usage log are read back by the dashboard.

  \<^bold>\<open>Go.\<close> \<open>Go_Prelude\<close> (integers, time, maps, shared lemmas), \<open>Go_Strings\<close>, \<open>Go_Json\<close>, \<open>Go_Url\<close>, \<open>Go_Time\<close> and
  \<open>Go_Crypto\<close> define what the code uses of the language and its standard library. \<open>int\<close> and \<open>int64\<close> are integers
  whose arithmetic is wrapped by \<open>wrap64\<close> where it can leave the range, \<open>uint64\<close> is a \<open>64 word\<close>, strings are
  bytes, a map is an association list in the order of its iteration.

  \<^bold>\<open>Theories and sources.\<close> All paths are under \<^verbatim>\<open>internal/\<close> unless they begin with \<^verbatim>\<open>pkg/\<close> or \<^verbatim>\<open>cmd/\<close>.

  \<^item> Engine: \<open>Breaker\<close> (\<^verbatim>\<open>router/breaker.go\<close>), \<open>Health\<close> (\<^verbatim>\<open>router/health.go\<close>), \<open>Rolling_Stats\<close> (\<^verbatim>\<open>router/stats.go\<close>,
    \<^verbatim>\<open>percentile.go\<close>), \<open>Requirements\<close> and \<open>Routing\<close> (\<^verbatim>\<open>router/router.go\<close>, \<^verbatim>\<open>intelligent.go\<close>), \<open>Metering\<close>
    (\<^verbatim>\<open>router/usage.go\<close>, \<^verbatim>\<open>trace.go\<close>, \<^verbatim>\<open>metrics.go\<close>), \<open>Dispatch\<close> (\<^verbatim>\<open>router/router.go\<close>), \<open>Loader\<close> (\<^verbatim>\<open>router/loader.go\<close>,
    \<^verbatim>\<open>proxypool.go\<close>), \<open>Pricing\<close> (\<^verbatim>\<open>pricing/\<close>). The engine's state is \<open>engine\<close> beside the table \<open>routes\<close>.
  \<^item> Providers: \<open>Provider_Errors\<close>, \<open>Capability\<close> (\<^verbatim>\<open>provider/errors.go\<close>, \<^verbatim>\<open>capability.go\<close>, \<^verbatim>\<open>catalog.go\<close>), \<open>Provider_Http\<close>
    (\<^verbatim>\<open>provider/http.go\<close> and its clients), \<open>Anthropic_Provider\<close> (\<^verbatim>\<open>provider/anthropic.go\<close>, \<^verbatim>\<open>anthropic_tools.go\<close>),
    \<open>Command_Code\<close> and \<open>Command_Facts\<close> (\<^verbatim>\<open>provider/commandcode.go\<close>).
  \<^item> Wire: \<open>Openai_Types\<close> (\<^verbatim>\<open>pkg/openai\<close>), \<open>Anthropic_Types\<close> (\<^verbatim>\<open>pkg/anthropic\<close>), \<open>Sse\<close> (\<^verbatim>\<open>stream/\<close>).
  \<^item> Requests: \<open>Messages_Api\<close> (\<^verbatim>\<open>api/messages.go\<close>, \<^verbatim>\<open>messages_stream.go\<close>), \<open>Responses_Api\<close> (\<^verbatim>\<open>api/responses.go\<close>,
    \<^verbatim>\<open>responses_stream.go\<close>), \<open>Gateway\<close> (\<^verbatim>\<open>api/handler.go\<close>, \<^verbatim>\<open>middleware.go\<close>, \<^verbatim>\<open>cache.go\<close>, \<^verbatim>\<open>active.go\<close>,
    \<^verbatim>\<open>server.go\<close>), \<open>Standing\<close>, \<open>Authentication\<close> and \<open>Quota\<close> (\<^verbatim>\<open>auth/\<close>), \<open>Response_Cache\<close> (\<^verbatim>\<open>cache/\<close>), \<open>Ponytail_Text\<close>
    and \<open>Ponytail\<close> (\<^verbatim>\<open>ponytail/\<close>). \<open>gateway\<close> is the state they share, \<open>deps\<close> what they are given.
  \<^item> Store: \<open>Storage\<close> (records and the contract of a keyed store), \<open>Storage_Memory\<close> (\<^verbatim>\<open>storage/storage.go\<close>),
    \<open>Storage_Sqlite\<close>, \<open>Sqlite_Tables\<close>, \<open>Sqlite_Facts\<close> (\<^verbatim>\<open>storage/sqlite.go\<close>, \<^verbatim>\<open>trace.go\<close>, \<^verbatim>\<open>prune.go\<close>,
    \<^verbatim>\<open>provider_keys.go\<close>).
  \<^item> Admin API (\<^verbatim>\<open>api/admin.go\<close>, \<^verbatim>\<open>api/trace.go\<close>): \<open>Admin_State\<close> (state, store calls that may fail, early returns),
    \<open>Admin_Keys\<close>, \<open>Admin_Providers\<close>, \<open>Admin_Models\<close>, \<open>Admin_Combos\<close>, \<open>Admin_Settings\<close>, \<open>Admin_Usage\<close> (one definition per
    handler), \<open>Admin_Logic\<close> (the rules their proofs share), \<open>Admin_Api\<close> (the route table), \<open>Admin_Facts\<close>, \<open>Admin_Views\<close>.
  \<^item> Process: \<open>Config\<close> (\<^verbatim>\<open>config/\<close>), \<open>Metrics\<close> (\<^verbatim>\<open>metrics/\<close>), \<open>Command_Line\<close> and \<open>Server\<close> (\<^verbatim>\<open>cmd/server/main.go\<close>).

  \<^bold>\<open>Interfaces.\<close> \<open>kv_store\<close> is what callers rely on of a keyed store, interpreted on the in-memory stores and on
  SQLite's proxy table; \<open>rotation\<close> is a counter that walks a list, interpreted on proxies, credentials and
  combos; \<open>probe_gate\<close> is the single probe of a half-open breaker; \<open>endpoint\<close> is what the stack around it relies on
  of a \<^verbatim>\<open>/v1\<close> handler, interpreted on all four; \<open>conduct\<close> is a promise that admin handlers keep through their early returns,
  interpreted twice, on refusals that change nothing and on the published table staying in step.

  \<^bold>\<open>What the lemmas show.\<close>

  \<^item> Admission: only a request that authenticated, is within its quota and may use its model reaches a provider
    (\<open>upstream_needs_admission\<close>); nothing changes in the admin API without its token.
  \<^item> Dispatch: \<open>attempt_protocol\<close> and \<open>chain_protocol\<close> are the abstract specification of a dispatch; that it
    ends, asks the breakers first, reports each failure once to the right one, and succeeds exactly if a call did, are read off it.
  \<^item> Breakers, cache, quota, percentile windows, weighted and rotating picks: each refines a small specification
    (a machine of three phases, a least-recently-used list, the calls admitted in the last minute, exact shares).
  \<^item> Translations: a stream of either dialect is well formed and loses nothing; responses, frames and
    messages round trip; the CommandCode completion says what its events say.
  \<^item> Store: both implementations delete a provider without leaving a reference to it, report the same usage up to the
    precision of the columns, and keep traces; migrations resume where they stopped.
  \<^item> Composition: the server starts exactly when its store can be read, and from then on routes
    by the stored records through every sequence of events (\<open>routing_follows_store\<close>); the collectors show
    the state of the gateway; the running requests are always taken off their table.
  \<^item> Some theorems prove what the code does where that is not what its comments or its callers expect, for instance
    \<open>skipped_probe_blocks_provider\<close>, \<open>sqlite_chart_all_or_nothing\<close> and \<open>retention_wraps\<close>.

  \<^bold>\<open>Time, concurrency and the outside.\<close> The network, random bytes, the clock and other requests that run meanwhile are
  functions in \<open>env\<close>, \<open>deps\<close> and \<open>admin_env\<close>, which thread a state of the world; a call may return with any engine. What a lemma needs of
  them it names: \<open>steady\<close> and \<open>quiet_env\<close> (a call leaves the log of the request and the retry policy alone), \<open>polite\<close> and
  \<open>calls_keep_policies\<close> (a call does not reconfigure the breakers), \<open>fair_draws\<close> (a draw is below its bound). A section under
  a mutex is one step, a channel is the list of what passes through it, and a \<^verbatim>\<open>select\<close> the list of the cases it took.

  \<^bold>\<open>Bounds and fuel.\<close> The JSON parser is the only function with fuel: two units per byte and two more, which
  \<open>Json_Facts\<close> shows to be as good as any amount. Other loops recurse on their data or have a measure. The attempts
  of a dispatch are bounded by the retry budget of a route and the eight aliases of a chain.

  \<^bold>\<open>Not modelled.\<close>

  \<^item> Listening, shutdown, log lines, the alignment of printed columns, the Prometheus registry and its latency histogram:
    input and output without a state of the program's own.
  \<^item> YAML decoding, reading files, file notifications, the SQLite driver, its connection string and the text of
    the migrations, and URL joining: parameters, or the meaning of the SQL statement taken as the definition.
  \<^item> Floating point: a \<^verbatim>\<open>float64\<close> is an exact rational, and its formatting a parameter. Rounding is not modelled.
  \<^item> Case mapping and white space beyond ASCII, and JSON documents nested deeper than Go allows.
  \<^item> The gauge of open streams, which is given where it is read.
  \<^item> The dashboard in TypeScript and the tests.
\<close>

section \<open>A deployment\<close>

text \<open>Authentication switched off, one provider that answers at the third attempt, no cache.\<close>

definition example_deps :: "(nat, nat) deps" where
  "example_deps = \<lparr>dp_env = example_env, dp_auth = \<lparr>sv_enabled = False, sv_static = [], sv_keys = None\<rparr>,
     dp_admin_auth = \<lparr>ad_enabled = False, ad_token = []\<rparr>, dp_max_body = 1000, dp_origins = [],
     dp_entropy = (\<lambda>n. ''k''), dp_consume = (\<lambda>cs w. (map Received cs @ [Closed], [], w)),
     dp_float = (\<lambda>x. ''1'')\<rparr>"

definition example_gateway :: "(nat, nat) gateway" where
  "example_gateway = \<lparr>gw_routes = example_table, gw_engine = new_engine None, gw_world = 0, gw_quota = None,
     gw_cache = None, gw_active = [], gw_pony = None, gw_pony_stats = None, gw_drawn = 0, gw_touched = [],
     gw_cache_events = [], gw_counted = []\<rparr>"

definition example_request :: http_request where
  "example_request = \<lparr>hq_method = ''POST'', hq_path = ''/v1/chat/completions'', hq_header = (\<lambda>_. []),
     hq_body = raw (json_object [(''model'', json_of_string ''a'')]), hq_broken = False\<rparr>"

definition example_connection :: response_writer where
  "example_connection = \<lparr>rw_header = [], rw_status = None, rw_out = [], rw_writes = 0, rw_flushes = 0,
     rw_fails = (\<lambda>n. False), rw_flusher = False\<rparr>"

definition example_parsed :: chat_request where
  "example_parsed = example_chat\<lparr>cr_model := ''a'', cr_stream := False\<rparr>"

definition example_cx :: http_context where
  "example_cx = admitted_context example_deps (named_identity ''anonymous'') example_gateway no_context"

lemma example_body_parses:
  "Option.bind (json_parse (hq_body example_request)) decode_chat_request = Some example_parsed"
  by code_simp

lemma answered_outcome:
  assumes "case x of (Some (Inr r, s), rt) \<Rightarrow> P s | _ \<Rightarrow> False"
  shows "\<exists>r s rt. x = (Some (Inr r, s), rt) \<and> P s"
proof -
  obtain out rt where "x = (out, rt)" by force
  moreover from this assms obtain res s where "out = Some (res, s)" by (cases out) auto
  ultimately show ?thesis using assms by (cases res) auto
qed

lemma example_call_answers:
  "case chat_completion example_env (router_context example_cx) example_parsed example_table (new_engine None) 0 of
     (Some (Inr r, s), rt) \<Rightarrow> di_world s = 3 | _ \<Rightarrow> False"
  by code_simp

definition example_served :: "(nat, nat) handled" where
  "example_served = the (serve example_deps example_request example_connection example_gateway)"

lemma example_serves: "serve example_deps example_request example_connection example_gateway = Some example_served"
  by (simp add: example_served_def serve_def route_handler_def example_request_def)

lemma example_world: "gw_world (snd (snd example_served)) = 3"
proof -
  obtain r s rt where call: "chat_completion example_env (router_context example_cx) example_parsed example_table
      (new_engine None) 0 = (Some (Inr r, s), rt)" and w: "di_world s = 3"
    using answered_outcome [OF example_call_answers] by blast
  have route: "route_handler example_deps (hq_method example_request) (hq_path example_request)
      = Some (v1_chain example_deps (chat_completions example_deps))"
    by (simp add: route_handler_def example_request_def)
  have auth: "authenticate (dp_auth example_deps) t = (Inr (named_identity ''anonymous''), None)" for t
    by (simp add: authenticate_def example_deps_def)
  have quota: "quota_verdict example_deps i example_gateway = ((0, None), None)" for i
    by (simp add: quota_verdict_def quota_allow_def example_gateway_def)
  obtain rw where chain: "v1_chain example_deps (chat_completions example_deps) example_request no_context
      example_connection example_gateway = chat_completions example_deps example_request example_cx rw
      (admitted_gateway None None example_gateway)"
    using v1_chain_admitted [OF auth quota] unfolding example_cx_def by metis
  have read: "read_body (dp_max_body example_deps) example_request rw = (Some (hq_body example_request), rw)"
    by (simp add: read_body_def read_all_def example_deps_def example_request_def) code_simp
  have allow: "allow_model example_request example_cx ''a'' rw = (True, rw)"
    by (simp add: allow_model_def example_cx_def admitted_context_def named_identity_def allows_def)
  have fields: "cr_model example_parsed = ''a''" "\<not> cr_stream example_parsed" "dp_env example_deps = example_env"
      "hx_request_id example_cx = Some (next_request_id example_deps example_gateway)"
    by (simp_all add: example_parsed_def example_deps_def example_cx_def admitted_context_def)
  have pony: "optimise example_parsed (admitted_gateway None None example_gateway)
      = Some (example_parsed, None, admitted_gateway None None example_gateway)"
    by (simp add: optimise_def should_ponytail_def admitted_gateway_def example_gateway_def)
  have served: "gw_world (snd (snd (serve_cached example_deps endpoint_chat ''a'' b
      (\<lambda>g. chat_completion example_env (router_context example_cx) example_parsed (gw_routes g) (gw_engine g) (gw_world g))
      failed enc rw (admitted_gateway None None example_gateway\<lparr>gw_active := m\<rparr>)))) = 3" for b failed and enc :: "chat_response \<Rightarrow> string" and m rw
    using call w
    by (simp add: serve_cached_def lookup_cache_def cache_enabled_def serve_call_def store_cache_def
        admitted_gateway_def example_gateway_def)
  have world: "gw_world (snd (snd (case r of (p, rw, g) \<Rightarrow> (p, rw, g\<lparr>gw_active := f g\<rparr>)))) = gw_world (snd (snd r))"
    for r :: "(nat, nat) handled" and f by (cases r) simp
  have "gw_world (snd (snd (chat_completions example_deps example_request example_cx rw
      (admitted_gateway None None example_gateway)))) = 3"
    by (simp add: chat_completions_def read example_body_parses fields allow pony track_active_def world served Let_def)
  moreover have "gw_world (snd (snd (recoverer (instrument p h) q cx rw g))) = gw_world (snd (snd (h q cx rw g)))"
    for p q cx rw and h :: "(nat, nat) http_handler" and g
    by (simp add: recoverer_def instrument_def split: prod.split bool.split)
  ultimately show ?thesis by (simp add: example_served_def serve_def route chain)
qed

text \<open>An answer \<^verbatim>\<open>{}\<close> behind a cache that keeps two entries for a minute.\<close>

definition cached_gateway :: "(nat, nat) gateway" where
  "cached_gateway = example_gateway\<lparr>gw_cache := new_cache minute 2\<rparr>"

definition example_upstream :: "(nat, nat) gateway \<Rightarrow> ((gerror + unit) \<times> nat dispatching) option \<times> nat routes" where
  "example_upstream g = (Some (Inr (), example_start), example_table)"

definition first_served :: "(nat, nat) handled" where
  "first_served = serve_cached example_deps ''chat'' ''m'' ''x'' example_upstream
     (\<lambda>e rw. rw) (\<lambda>_. ''{}'') example_connection cached_gateway"

lemma first_served_events:
  "gw_cache_events (snd (snd first_served)) = gw_cache_events cached_gateway @ [(''chat'', ''m'', CacheMiss), (''chat'', ''m'', CacheStore)]"
proof -
  have key: "cache_key sha256_hex e m b \<noteq> []" for e m b
    using length_sha256_hex [of "e @ [CHR 0x00] @ m @ [CHR 0x00] @ b"] unfolding cache_key_def
    by (metis list.size(3) zero_neq_numeral)
  show ?thesis
    by (simp add: first_served_def serve_cached_def lookup_cache_def cache_enabled_def cache_get_def cached_gateway_def
        example_gateway_def new_cache_def minute_def second_def millisecond_def cache_get1_def
        count_cache_event_def example_upstream_def serve_call_def store_cache_def key Let_def)
qed

lemma cached_gateway_inv: "\<exists>c. gw_cache cached_gateway = Some c \<and> cache_inv c \<and> rc_ttl c = minute"
proof -
  have "cache_inv (the (new_cache minute 2))" "new_cache minute 2 = Some (the (new_cache minute 2))"
    "rc_ttl (the (new_cache minute 2)) = minute"
    by (simp_all add: new_cache_def cache_inv_def cache_wf_def minute_def second_def millisecond_def)
  moreover from this have "gw_cache cached_gateway = Some (the (new_cache minute 2))" by (simp add: cached_gateway_def)
  ultimately show ?thesis by blast
qed

section \<open>Properties across the components\<close>

text \<open>
  C1. Safety. Only an admitted request reaches the providers: if a request changes the engine, the
  routing table, the cache or the outside world at all, then its key authenticated, the key's
  quota had room, and its body is readable and names a model that the key may use.
\<close>

theorem upstream_needs_admission:
  assumes "serve d rq rw g = Some r" and "\<not> same_backend g (snd (snd r))"
  shows "\<exists>i k m. authenticate (dp_auth d) (from_request (hq_header rq)) = (Inr i, k)
    \<and> snd (fst (quota_verdict d i g)) = None
    \<and> requested_model d rq = Some m \<and> allows i m"
proof -
  obtain h where h: "route_handler d (hq_method rq) (hq_path rq) = Some h"
    and r: "r = recoverer (instrument (hq_path rq) h) rq no_context rw g"
    using assms(1) by (auto simp: serve_def)
  have n: "\<not> same_backend g (snd (snd (h rq no_context rw g)))"
    using assms(2) by (simp add: r recoverer_same)
  from h show ?thesis
  proof (cases rule: route_handler_cases)
    case 1
    with n show ?thesis by simp
  next
    case 2
    obtain cx' rw' and g' :: "('a, 'b) gateway" where "\<not> same_backend g' (snd (snd (handle_models rq cx' rw' g')))"
      using v1_chain_guarded [OF n [unfolded 2]] by blast
    then show ?thesis by simp
  next
    case (3 ep)
    obtain i k cx' rw' and g' :: "('a, 'b) gateway" where a: "authenticate (dp_auth d) (from_request (hq_header rq)) = (Inr i, k)"
      and q: "snd (fst (quota_verdict d i g)) = None" and i: "hx_identity cx' = Some i"
      and c: "\<not> same_backend g' (snd (snd (ep rq cx' rw' g')))"
      by (rule v1_chain_guarded [OF n [unfolded 3(1)]]) (rule that)
    from guarded_by_model [OF c 3(2)] a q i show ?thesis by (auto simp: permitted_def)
  qed
qed

text \<open>
  C21. Invariant. However a request ends, in an answer, an error, a broken stream or a panic, the
  table of running requests is afterwards what it was before.
\<close>

theorem running_requests_cleared:
  assumes "serve d rq rw g = Some r" and "map_of (gw_active g) (next_request_id d g) = None"
  shows "map_of (gw_active (snd (snd r))) = map_of (gw_active g)"
proof -
  obtain h where h: "route_handler d (hq_method rq) (hq_path rq) = Some h"
    and r: "r = recoverer (instrument (hq_path rq) h) rq no_context rw g"
    using assms(1) by (auto simp: serve_def)
  have active: "gw_active (snd (snd r)) = gw_active (snd (snd (h rq no_context rw g)))"
    by (auto simp: r recoverer_def instrument_def split: prod.split bool.split)
  from h show ?thesis
  proof (cases rule: route_handler_cases)
    case 1
    then show ?thesis by (simp add: active handle_health_def)
  next
    case 2
    then show ?thesis
      unfolding active using v1_chain_active [OF _ assms(2), of handle_models rq no_context rw]
      by (simp add: handle_models_def)
  next
    case (3 ep)
    show ?thesis
      unfolding active 3(1) by (rule v1_chain_active [OF _ assms(2)]) (rule v1_endpoints_clean [OF 3(2)])
  qed
qed

theorem upstream_needs_admission_witness:
  "\<exists>i k m. authenticate (dp_auth example_deps) (from_request (hq_header example_request)) = (Inr i, k)
    \<and> snd (fst (quota_verdict example_deps i example_gateway)) = None
    \<and> requested_model example_deps example_request = Some m \<and> allows i m"
proof -
  have "\<not> same_backend example_gateway (snd (snd example_served))"
    by (simp add: same_backend_def example_world) (simp add: example_gateway_def)
  then show ?thesis by (rule upstream_needs_admission [OF example_serves])
qed

theorem running_requests_cleared_witness:
  "map_of (gw_active (snd (snd example_served))) = Map.empty"
proof -
  have "map_of (gw_active example_gateway) i = None" for i by (simp add: example_gateway_def)
  from running_requests_cleared [OF example_serves this] show ?thesis by (simp add: example_gateway_def)
qed

text \<open>
  C20. Functional. On every cached endpoint, an answer that was stored is served again, byte for byte
  and without calling anything, to the next request with the same body within the lifetime,
  whoever sends it.
\<close>

theorem repeat_served_from_cache:
  assumes "gw_cache g = Some c" and "cache_inv c"
    and "serve_cached d ep m body call failed enc rw g = (p, rw1, g1)"
    and "gw_cache_events g1 = gw_cache_events g @ [(ep, m, CacheMiss), (ep, m, CacheStore)]"
    and "gw_cache g2 = gw_cache g1"
    and "ev_now (dp_env d) (gw_world g2) < ev_now (dp_env d) (gw_world g1) + rc_ttl c"
  shows "\<exists>b g3. rw1 = write_body b (rw_set ''X-Cache'' ''MISS'' rw)
    \<and> serve_cached d ep m body call' failed' enc' out g2 = (False, write_body b (rw_set ''X-Cache'' ''HIT'' out), g3)
    \<and> gw_routes g3 = gw_routes g2 \<and> gw_engine g3 = gw_engine g2 \<and> gw_world g3 = gw_world g2"
  using serve_cached_repeat [OF assms, of call' failed' enc' out] by metis

theorem repeat_served_from_cache_witness:
  "\<exists>b g3. fst (snd first_served) = write_body b (rw_set ''X-Cache'' ''MISS'' example_connection)
    \<and> serve_cached example_deps ''chat'' ''m'' ''x'' example_upstream (\<lambda>e rw. rw) (\<lambda>_. ''other'') example_connection
        (snd (snd first_served)) = (False, write_body b (rw_set ''X-Cache'' ''HIT'' example_connection), g3)"
proof -
  obtain c where c: "gw_cache cached_gateway = Some c" "cache_inv c" "rc_ttl c = minute"
    using cached_gateway_inv by blast
  have first: "serve_cached example_deps ''chat'' ''m'' ''x'' example_upstream (\<lambda>e rw. rw) (\<lambda>_. ''{}'')
      example_connection cached_gateway = (fst first_served, fst (snd first_served), snd (snd first_served))"
    by (simp add: first_served_def)
  have "ev_now (dp_env example_deps) (gw_world (snd (snd first_served)))
      < ev_now (dp_env example_deps) (gw_world (snd (snd first_served))) + rc_ttl c"
    by (simp add: c(3) minute_def second_def millisecond_def)
  from repeat_served_from_cache [OF c(1,2) first first_served_events refl this,
      where call' = example_upstream and failed' = "\<lambda>e rw. rw" and enc' = "\<lambda>_. ''other''" and out = example_connection]
  show ?thesis by blast
qed

end
